(* ===== verification/Prelude.thy ===== *)
theory Prelude imports Main "HOL-Library.Word" begin

text \<open>
  Shared vocabulary of the development: the fixed-width integer types of the C code and its
  integer conversions, the search loop that every fixed-size table of the code runs, and the
  loop that visits a range of array indices.
  The collections \<open>cint_simps\<close> and \<open>loop_simps\<close> gather the facts that the component theories
  hand to the simplifier.
\<close>

named_theorems cint_simps
named_theorems loop_simps

section \<open>C integers\<close>

type_synonym u8 = "8 word"
type_synonym u16 = "16 word"
type_synonym u32 = "32 word"

text \<open>
  A C \<open>int\<close> is an \<open>int\<close> of HOL that stays in the 32-bit range; where the code converts a wider
  value to \<open>int\<close> the conversion keeps the low 32 bits, which is what the compilers the code is
  built with define.  A value stored into a \<open>uint16_t\<close> or a \<open>uint32_t\<close> is reduced modulo its width
  by \<^const>\<open>word_of_int\<close>.
\<close>

definition to_i32 :: "int \<Rightarrow> int" where
  "to_i32 x = (x + 2 ^ 31) mod 2 ^ 32 - 2 ^ 31"

definition to_u16 :: "int \<Rightarrow> u16" where
  "to_u16 x = word_of_int x"

definition to_u32 :: "int \<Rightarrow> u32" where
  "to_u32 x = word_of_int x"

definition to_i8 :: "int \<Rightarrow> int" where
  "to_i8 x = (x + 128) mod 256 - 128"

definition to_i16 :: "int \<Rightarrow> int" where
  "to_i16 x = (x + 32768) mod 65536 - 32768"

definition uint16 :: "int \<Rightarrow> int" where
  "uint16 x = x mod 65536"

definition i32_range :: "int \<Rightarrow> bool" where
  "i32_range x \<longleftrightarrow> - (2 ^ 31) \<le> x \<and> x < 2 ^ 31"

lemma to_i32_id [cint_simps]: "i32_range x \<Longrightarrow> to_i32 x = x"
  by (simp add: to_i32_def i32_range_def)

lemma to_i8_id [cint_simps]: "-128 \<le> x \<Longrightarrow> x < 128 \<Longrightarrow> to_i8 x = x"
  by (simp add: to_i8_def)

lemma to_i16_id [cint_simps]: "-32768 \<le> x \<Longrightarrow> x < 32768 \<Longrightarrow> to_i16 x = x"
  by (simp add: to_i16_def)

lemma uint16_id [cint_simps]: "0 \<le> x \<Longrightarrow> x < 65536 \<Longrightarrow> uint16 x = x"
  by (simp add: uint16_def)

lemma uint16_range: "0 \<le> uint16 x \<and> uint16 x < 65536"
  by (simp add: uint16_def)

lemma to_i16_range: "-32768 \<le> to_i16 x \<and> to_i16 x < 32768"
  using pos_mod_bound [of 65536 "x + 32768"] pos_mod_sign [of 65536 "x + 32768"]
  unfolding to_i16_def by linarith

lemma to_i32_range: "i32_range (to_i32 x)"
proof -
  have "0 \<le> (x + 2 ^ 31) mod 2 ^ 32" and "(x + 2 ^ 31) mod 2 ^ 32 < (2 ^ 32 :: int)"
    by simp_all
  then show ?thesis by (simp add: to_i32_def i32_range_def)
qed

lemma uint_to_u16 [cint_simps]: "uint (to_u16 x) = x mod 65536"
  by (simp add: to_u16_def uint_word_of_int)

lemma uint_u16_bounds: "0 \<le> uint (w :: u16) \<and> uint w < 65536"
  using uint_range_size [of w] by (simp add: word_size)

lemma to_u16_uint [cint_simps]: "to_u16 (uint w) = w"
  by (simp add: to_u16_def)

section \<open>The table search loop\<close>

text \<open>
  \<open>for (i = 0; i < N; ++i) if (P(t[i])) return &t[i];  return NULL;\<close> gives the index of the first
  entry that satisfies \<open>P\<close>, if there is one.
\<close>

fun first_index :: "('a \<Rightarrow> bool) \<Rightarrow> 'a list \<Rightarrow> nat option" where
  "first_index P [] = None"
| "first_index P (x # xs) = (if P x then Some 0 else map_option Suc (first_index P xs))"

lemma first_index_None [loop_simps]: "first_index P xs = None \<longleftrightarrow> (\<forall>x \<in> set xs. \<not> P x)"
  by (induction xs) auto

lemma first_index_SomeD:
  "first_index P xs = Some i \<Longrightarrow> i < length xs \<and> P (xs ! i) \<and> (\<forall>j < i. \<not> P (xs ! j))"
proof (induction xs arbitrary: i)
  case Nil
  then show ?case by simp
next
  case (Cons x xs)
  show ?case
  proof (cases "P x")
    case True
    with Cons.prems show ?thesis by simp
  next
    case False
    with Cons.prems obtain k where k: "first_index P xs = Some k" and i: "i = Suc k" by auto
    from Cons.IH [OF k] False i show ?thesis
      by (auto simp: less_Suc_eq_0_disj)
  qed
qed

lemma first_index_SomeI:
  "i < length xs \<Longrightarrow> P (xs ! i) \<Longrightarrow> (\<And>j. j < i \<Longrightarrow> \<not> P (xs ! j)) \<Longrightarrow> first_index P xs = Some i"
proof (induction xs arbitrary: i)
  case Nil
  then show ?case by simp
next
  case (Cons x xs)
  show ?case
  proof (cases i)
    case 0
    with Cons.prems(2) show ?thesis by simp
  next
    case (Suc k)
    have "\<not> P x" using Cons.prems(3) [of 0] Suc by simp
    moreover have "first_index P xs = Some k"
      using Cons.prems Suc by (intro Cons.IH) force+
    ultimately show ?thesis using Suc by simp
  qed
qed

lemma first_index_cong: "(\<And>x. x \<in> set xs \<Longrightarrow> P x = Q x) \<Longrightarrow> first_index P xs = first_index Q xs"
  by (induction xs) auto

section \<open>Loops that may fail\<close>

text \<open>A loop over a list whose body can stop the program with an error.\<close>

fun fold_res :: "('a \<Rightarrow> 's \<Rightarrow> 'e + 's) \<Rightarrow> 'a list \<Rightarrow> 's \<Rightarrow> 'e + 's" where
  "fold_res f [] s = Inr s"
| "fold_res f (x # xs) s = (case f x s of Inl e \<Rightarrow> Inl e | Inr s' \<Rightarrow> fold_res f xs s')"

lemma fold_res_append:
  "fold_res f (xs @ ys) s = (case fold_res f xs s of Inl e \<Rightarrow> Inl e | Inr s' \<Rightarrow> fold_res f ys s')"
  by (induction xs arbitrary: s) (auto split: sum.splits)

lemma fold_res_Inr:
  "(\<And>x s. x \<in> set xs \<Longrightarrow> f x s = Inr (g x s)) \<Longrightarrow> fold_res f xs s = Inr (fold g xs s)"
  by (induction xs arbitrary: s) auto

lemma fold_res_inv:
  assumes "fold_res f xs s = Inr s'" and "P s"
    and "\<And>x s s'. x \<in> set xs \<Longrightarrow> P s \<Longrightarrow> f x s = Inr s' \<Longrightarrow> P s'"
  shows "P s'"
  using assms
proof (induction xs arbitrary: s)
  case Nil
  then show ?case by simp
next
  case (Cons x xs)
  then obtain t where "f x s = Inr t" and "fold_res f xs t = Inr s'" by (auto split: sum.splits)
  then show ?case using Cons.IH [of t] Cons.prems by auto
qed

lemma fold_res_Inl: "fold_res f xs s = Inl e \<Longrightarrow> \<exists>x \<in> set xs. \<exists>t. f x t = Inl e"
  by (induction xs arbitrary: s) (auto split: sum.splits)

lemma first_index_replicate_None: "\<not> P x \<Longrightarrow> first_index P (replicate n x) = None"
  by (simp add: loop_simps)

lemma fold_upt_inv:
  assumes "P 0 s" and "\<And>i s. i < n \<Longrightarrow> P i s \<Longrightarrow> P (i + 1) (f i s)"
  shows "P n (fold f [0..<n] s)"
  using assms by (induction n) auto

lemma fold_res_upt:
  assumes "P 0 s"
    and "\<And>i s. i < n \<Longrightarrow> P i s \<Longrightarrow> (case f i s of Inl e \<Rightarrow> e \<in> A | Inr s' \<Rightarrow> P (i + 1) s')"
  shows "case fold_res f [0..<n] s of Inl e \<Rightarrow> e \<in> A | Inr s' \<Rightarrow> P n s'"
  using assms
proof (induction n)
  case (Suc n)
  then have IH: "case fold_res f [0..<n] s of Inl e \<Rightarrow> e \<in> A | Inr s' \<Rightarrow> P n s'" by simp
  show ?case
  proof (cases "fold_res f [0..<n] s")
    case (Inr s')
    then show ?thesis using IH Suc.prems(2) [of n s'] by (cases "f n s'") (simp_all add: fold_res_append)
  qed (use IH in \<open>simp add: fold_res_append\<close>)
qed simp

text \<open>An invariant that knows the elements still to come.\<close>

lemma fold_res_rest:
  assumes "fold_res f xs s = Inr s'" and "J xs s"
    and "\<And>x xs s s'. J (x # xs) s \<Longrightarrow> f x s = Inr s' \<Longrightarrow> J xs s'"
  shows "J [] s'"
  using assms(1,2)
proof (induction xs arbitrary: s)
  case (Cons x xs)
  then show ?case using assms(3) by (auto split: sum.splits)
qed simp

end
