(* ===== verification/BinaryFloat.thy ===== *)
theory BinaryFloat imports Prelude "HOL-Library.Log_Nat" begin

text \<open>
  The C \<open>float\<close> and \<open>double\<close> values of the scheduler: IEEE 754 binary formats with rounding to
  nearest, ties to even, signed zeros, infinities and one NaN.  A finite value is a sign bit and a
  non-negative rational magnitude, so every operation is the exact rational operation followed by
  one rounding, and everything evaluates.  The lemmas at the end give what the scheduling theories
  use: rounding is monotone, products of positive numbers keep the order, and the comparison of
  numbers is a total preorder once NaN is excluded.
\<close>

section \<open>Values and formats\<close>

datatype fl = FNaN | FInf bool | FFin bool rat

record ffmt =
  f_prec :: nat
  f_emin :: int
  f_emax :: int

text \<open>\<open>f_emin\<close> is the exponent of the smallest subnormal, \<open>f_emax\<close> that of the largest binade.\<close>

definition binary32 :: ffmt where
  "binary32 = \<lparr>f_prec = 24, f_emin = -149, f_emax = 127\<rparr>"

definition binary64 :: ffmt where
  "binary64 = \<lparr>f_prec = 53, f_emin = -1074, f_emax = 1023\<rparr>"

definition fl_zero :: fl where
  "fl_zero = FFin False 0"

definition fl_one :: fl where
  "fl_one = FFin False 1"

text \<open>Sign and magnitude are well formed when the magnitude is not negative.\<close>

fun fl_ok :: "fl \<Rightarrow> bool" where
  "fl_ok (FFin s m) = (0 \<le> m)"
| "fl_ok _ = True"

section \<open>Rounding\<close>

text \<open>The exponent of the binade that holds a positive rational.\<close>

definition ilog2 :: "rat \<Rightarrow> int" where
  "ilog2 q = (let (n, d) = quotient_of q; k = bitlen n - bitlen d
              in if 2 powi k \<le> q then k else k - 1)"

definition round_half_even :: "rat \<Rightarrow> int" where
  "round_half_even x =
     (let f = \<lfloor>x\<rfloor>; r = x - of_int f
      in if r < 1 / 2 then f
         else if 1 / 2 < r then f + 1
         else if even f then f else f + 1)"

definition ulp_exp :: "ffmt \<Rightarrow> rat \<Rightarrow> int" where
  "ulp_exp F m = max (ilog2 m - (int (f_prec F) - 1)) (f_emin F)"

definition rnd_mag :: "ffmt \<Rightarrow> rat \<Rightarrow> rat" where
  "rnd_mag F m =
     (if m \<le> 0 then 0
      else let e = ulp_exp F m in of_int (round_half_even (m / 2 powi e)) * 2 powi e)"

definition fl_round :: "ffmt \<Rightarrow> bool \<Rightarrow> rat \<Rightarrow> fl" where
  "fl_round F s m =
     (let r = rnd_mag F m in if 2 powi (f_emax F + 1) \<le> r then FInf s else FFin s r)"

section \<open>Operations\<close>

fun fl_mul :: "ffmt \<Rightarrow> fl \<Rightarrow> fl \<Rightarrow> fl" where
  "fl_mul F (FFin s a) (FFin t b) = fl_round F (s \<noteq> t) (a * b)"
| "fl_mul F (FInf s) (FInf t) = FInf (s \<noteq> t)"
| "fl_mul F (FInf s) (FFin t b) = (if b = 0 then FNaN else FInf (s \<noteq> t))"
| "fl_mul F (FFin s a) (FInf t) = (if a = 0 then FNaN else FInf (s \<noteq> t))"
| "fl_mul F FNaN _ = FNaN"
| "fl_mul F _ FNaN = FNaN"

fun fl_div :: "ffmt \<Rightarrow> fl \<Rightarrow> fl \<Rightarrow> fl" where
  "fl_div F (FFin s a) (FFin t b) =
     (if b = 0 then if a = 0 then FNaN else FInf (s \<noteq> t)
      else fl_round F (s \<noteq> t) (a / b))"
| "fl_div F (FInf s) (FInf t) = FNaN"
| "fl_div F (FInf s) (FFin t b) = FInf (s \<noteq> t)"
| "fl_div F (FFin s a) (FInf t) = FFin (s \<noteq> t) 0"
| "fl_div F FNaN _ = FNaN"
| "fl_div F _ FNaN = FNaN"

definition signed :: "bool \<Rightarrow> rat \<Rightarrow> rat" where
  "signed s m = (if s then - m else m)"

text \<open>An exact zero sum is negative only if both operands are.\<close>

fun fl_add :: "ffmt \<Rightarrow> fl \<Rightarrow> fl \<Rightarrow> fl" where
  "fl_add F (FFin s a) (FFin t b) =
     (let v = signed s a + signed t b
      in if v = 0 then FFin (s \<and> t) 0 else fl_round F (v < 0) \<bar>v\<bar>)"
| "fl_add F (FInf s) (FInf t) = (if s = t then FInf s else FNaN)"
| "fl_add F (FInf s) (FFin t b) = FInf s"
| "fl_add F (FFin s a) (FInf t) = FInf t"
| "fl_add F FNaN _ = FNaN"
| "fl_add F _ FNaN = FNaN"

fun fl_neg :: "fl \<Rightarrow> fl" where
  "fl_neg (FFin s a) = FFin (\<not> s) a"
| "fl_neg (FInf s) = FInf (\<not> s)"
| "fl_neg FNaN = FNaN"

definition fl_sub :: "ffmt \<Rightarrow> fl \<Rightarrow> fl \<Rightarrow> fl" where
  "fl_sub F x y = fl_add F x (fl_neg y)"

text \<open>The C comparison \<open>x < y\<close>: false whenever an operand is NaN.\<close>

fun fl_lt :: "fl \<Rightarrow> fl \<Rightarrow> bool" where
  "fl_lt (FFin s a) (FFin t b) = (signed s a < signed t b)"
| "fl_lt (FInf s) (FInf t) = (s \<and> \<not> t)"
| "fl_lt (FInf s) (FFin t b) = s"
| "fl_lt (FFin s a) (FInf t) = (\<not> t)"
| "fl_lt FNaN _ = False"
| "fl_lt _ FNaN = False"

text \<open>The C comparison \<open>x <= y\<close>.\<close>

definition fl_le :: "fl \<Rightarrow> fl \<Rightarrow> bool" where
  "fl_le x y \<longleftrightarrow> x \<noteq> FNaN \<and> y \<noteq> FNaN \<and> \<not> fl_lt y x"

text \<open>Conversion of an exact number: an integer operand or a decimal literal of the source.\<close>

definition fl_of_rat :: "ffmt \<Rightarrow> rat \<Rightarrow> fl" where
  "fl_of_rat F q = fl_round F (q < 0) \<bar>q\<bar>"

definition fl_of_int :: "ffmt \<Rightarrow> int \<Rightarrow> fl" where
  "fl_of_int F i = fl_of_rat F (of_int i)"

text \<open>The literal \<open>q\<close>\<^verbatim>\<open>f\<close> of the source.\<close>

abbreviation f32 :: "rat \<Rightarrow> fl" where
  "f32 \<equiv> fl_of_rat binary32"

text \<open>A change of format, as in \<open>(float) atof(s)\<close>.\<close>

fun fl_convert :: "ffmt \<Rightarrow> fl \<Rightarrow> fl" where
  "fl_convert F (FFin s m) = fl_round F s m"
| "fl_convert F x = x"

section \<open>Rounding is monotone\<close>

lemma powi_pos2 [simp]: "0 < (2 :: rat) powi k"
  by (simp add: zero_less_power_int)

lemma powi_mono2: "i \<le> j \<Longrightarrow> (2 :: rat) powi i \<le> 2 powi j"
  by (rule power_int_increasing) simp_all

lemma powi_nat: "0 \<le> k \<Longrightarrow> (2 :: rat) powi k = of_int (2 ^ nat k)"
  by (simp add: power_int_def)

lemma powi_split:
  assumes "e \<le> k"
  shows "(2 :: rat) powi k = of_int (2 ^ nat (k - e)) * 2 powi e"
proof -
  have "(2 :: rat) powi k = 2 powi (k - e) * 2 powi e" by (simp flip: power_int_add)
  also have "(2 :: rat) powi (k - e) = of_int (2 ^ nat (k - e))"
    using assms by (intro powi_nat) simp
  finally show ?thesis .
qed

lemma bitlen_pos: "0 < n \<Longrightarrow> 1 \<le> bitlen n"
  by (metis bitlen_eq_zero_iff bitlen_nonneg int_one_le_iff_zero_less le_less linorder_not_le)

lemma bitlen_rat_bounds:
  assumes "0 < n"
  shows "2 powi (bitlen n - 1) \<le> (of_int n :: rat)" and "(of_int n :: rat) < 2 powi bitlen n"
proof -
  note b = bitlen_bounds [OF assms] bitlen_pos [OF assms]
  show "2 powi (bitlen n - 1) \<le> (of_int n :: rat)"
    using b by (subst powi_nat) (simp, metis of_int_le_iff)
  show "(of_int n :: rat) < 2 powi bitlen n"
    using b by (subst powi_nat) (simp add: bitlen_nonneg, metis of_int_less_iff)
qed

lemma ilog2_bounds:
  assumes "0 < q"
  shows "2 powi ilog2 q \<le> q" and "q < 2 powi (ilog2 q + 1)"
proof -
  obtain n d where nd: "quotient_of q = (n, d)" by (cases "quotient_of q")
  have d: "0 < d" by (rule quotient_of_denom_pos [OF nd])
  have q: "q = of_int n / of_int d" by (rule quotient_of_div [OF nd])
  have n: "0 < n" using assms d q by (simp add: zero_less_divide_iff)
  let ?k = "bitlen n - bitlen d"
  have lo: "2 powi (?k - 1) \<le> q"
  proof -
    have "(2 :: rat) powi (?k - 1) = 2 powi (bitlen n - 1) / 2 powi bitlen d"
      by (simp add: power_int_diff [symmetric] algebra_simps)
    also have "\<dots> \<le> of_int n / of_int d"
      using bitlen_rat_bounds [OF n] bitlen_rat_bounds [OF d] d n
      by (intro frac_le) auto
    finally show ?thesis by (simp add: q)
  qed
  have hi: "q < 2 powi (?k + 1)"
  proof -
    have "of_int n / of_int d < (2 :: rat) powi bitlen n / 2 powi (bitlen d - 1)"
      using bitlen_rat_bounds [OF n] bitlen_rat_bounds [OF d] d n
      by (intro frac_less) auto
    also have "\<dots> = 2 powi (?k + 1)"
      by (simp add: power_int_diff [symmetric] algebra_simps)
    finally show ?thesis by (simp add: q)
  qed
  have def: "ilog2 q = (if 2 powi ?k \<le> q then ?k else ?k - 1)"
    by (simp add: ilog2_def nd)
  show "2 powi ilog2 q \<le> q" using lo by (simp add: def)
  show "q < 2 powi (ilog2 q + 1)" using hi by (auto simp: def not_le)
qed

lemma ilog2_mono:
  assumes "0 < a" and "a \<le> b"
  shows "ilog2 a \<le> ilog2 b"
proof (rule ccontr)
  assume "\<not> ilog2 a \<le> ilog2 b"
  then have "ilog2 b + 1 \<le> ilog2 a" by simp
  then have "(2 :: rat) powi (ilog2 b + 1) \<le> 2 powi ilog2 a" by (rule powi_mono2)
  also have "\<dots> \<le> a" by (rule ilog2_bounds [OF assms(1)])
  also note assms(2)
  also have "b < 2 powi (ilog2 b + 1)" using assms by (intro ilog2_bounds) simp
  finally show False by simp
qed

lemma round_half_even_near: "\<bar>of_int (round_half_even x) - x\<bar> \<le> 1 / 2"
proof -
  have "of_int \<lfloor>x\<rfloor> \<le> x" and "x < of_int \<lfloor>x\<rfloor> + 1" using floor_correct [of x] by simp_all
  then show ?thesis by (auto simp: round_half_even_def Let_def abs_le_iff)
qed

lemma round_half_even_int [simp]: "round_half_even (of_int i) = i"
  by (simp add: round_half_even_def)

lemma round_half_even_mono:
  assumes "x \<le> y"
  shows "round_half_even x \<le> round_half_even y"
proof (cases "\<lfloor>x\<rfloor> = \<lfloor>y\<rfloor>")
  case True
  with assms show ?thesis by (auto simp: round_half_even_def Let_def)
next
  case False
  then have "\<lfloor>x\<rfloor> + 1 \<le> \<lfloor>y\<rfloor>" using floor_mono [OF assms] by simp
  moreover have "round_half_even x \<le> \<lfloor>x\<rfloor> + 1" by (simp add: round_half_even_def Let_def)
  moreover have "\<lfloor>y\<rfloor> \<le> round_half_even y" by (simp add: round_half_even_def Let_def)
  ultimately show ?thesis by simp
qed

lemma round_half_even_ge: "of_int i \<le> x \<Longrightarrow> i \<le> round_half_even x"
  using round_half_even_mono [of "of_int i" x] by simp

lemma round_half_even_le: "x \<le> of_int i \<Longrightarrow> round_half_even x \<le> i"
  using round_half_even_mono [of x "of_int i"] by simp

lemma rnd_mag_nonneg: "0 \<le> rnd_mag F m"
proof (cases "m \<le> 0")
  case False
  then have "0 \<le> round_half_even (m / 2 powi ulp_exp F m)"
    by (intro round_half_even_ge) simp
  then show ?thesis using False by (simp add: rnd_mag_def Let_def)
qed (simp add: rnd_mag_def)

text \<open>A power of two above the value, at least one unit in the last place, bounds the rounding.\<close>

lemma rnd_mag_le_pow:
  assumes "m \<le> 2 powi k" and "0 < m" and "ulp_exp F m \<le> k"
  shows "rnd_mag F m \<le> 2 powi k"
proof -
  let ?e = "ulp_exp F m"
  note split = powi_split [OF assms(3)]
  have "m / 2 powi ?e \<le> of_int (2 ^ nat (k - ?e))"
    using assms(1) split by (simp add: pos_divide_le_eq)
  then have "round_half_even (m / 2 powi ?e) \<le> 2 ^ nat (k - ?e)" by (rule round_half_even_le)
  then have "(of_int (round_half_even (m / 2 powi ?e)) :: rat) \<le> of_int (2 ^ nat (k - ?e))"
    by (simp only: of_int_le_iff)
  then show ?thesis unfolding split using assms(2)
    by (simp add: rnd_mag_def Let_def mult_right_mono)
qed

lemma rnd_mag_ge_pow:
  assumes "2 powi k \<le> m" and "ulp_exp F m \<le> k"
  shows "2 powi k \<le> rnd_mag F m"
proof -
  let ?e = "ulp_exp F m"
  have m: "0 < m" using assms(1) by (rule less_le_trans [OF powi_pos2])
  note split = powi_split [OF assms(2)]
  have "of_int (2 ^ nat (k - ?e)) \<le> m / 2 powi ?e"
    using assms(1) split by (simp add: pos_le_divide_eq)
  then have "2 ^ nat (k - ?e) \<le> round_half_even (m / 2 powi ?e)" by (rule round_half_even_ge)
  then have "(of_int (2 ^ nat (k - ?e)) :: rat) \<le> of_int (round_half_even (m / 2 powi ?e))"
    by (simp only: of_int_le_iff)
  then show ?thesis unfolding split using m
    by (simp add: rnd_mag_def Let_def mult_right_mono)
qed

theorem rnd_mag_mono:
  assumes "a \<le> b" and "1 \<le> f_prec F"
  shows "rnd_mag F a \<le> rnd_mag F b"
proof (cases "a \<le> 0")
  case True
  then show ?thesis using rnd_mag_nonneg [of F b] by (simp add: rnd_mag_def)
next
  case False
  then have a: "0 < a" and b: "0 < b" using assms by simp_all
  have le: "ulp_exp F a \<le> ulp_exp F b"
    using ilog2_mono [OF a assms(1)] by (simp add: ulp_exp_def)
  show ?thesis
  proof (cases "ulp_exp F a = ulp_exp F b")
    case True
    have "round_half_even (a / 2 powi ulp_exp F a) \<le> round_half_even (b / 2 powi ulp_exp F a)"
      using assms(1) by (intro round_half_even_mono divide_right_mono) auto
    then show ?thesis using a b by (simp add: rnd_mag_def Let_def True)
  next
    case False
    with le have lt: "ulp_exp F a < ulp_exp F b" by simp
    then have e: "ulp_exp F b = ilog2 b - (int (f_prec F) - 1)" by (simp add: ulp_exp_def max_def split: if_splits)
    have lg: "ilog2 a < ilog2 b"
      using lt by (auto simp: ulp_exp_def max_def split: if_splits)
    have "a \<le> 2 powi (ilog2 a + 1)" using ilog2_bounds [OF a] by simp
    also have "\<dots> \<le> 2 powi ilog2 b" using lg by (intro powi_mono2) simp
    finally have "rnd_mag F a \<le> 2 powi ilog2 b"
      using lt e assms(2) by (intro rnd_mag_le_pow a) auto
    also have "\<dots> \<le> rnd_mag F b"
      using ilog2_bounds [OF b] e assms(2) by (intro rnd_mag_ge_pow) auto
    finally show ?thesis .
  qed
qed

section \<open>Small integers are exact\<close>

lemma fl_round_int:
  assumes "0 \<le> i" and "i < 2 ^ f_prec F" and "f_emin F \<le> 0" and "int (f_prec F) \<le> f_emax F + 1"
  shows "fl_round F s (of_int i) = FFin s (of_int i)"
proof (cases "i = 0")
  case True
  then show ?thesis by (simp add: fl_round_def rnd_mag_def not_le)
next
  case False
  then have pos: "(0 :: rat) < of_int i" using assms(1) by simp
  have lt: "(of_int i :: rat) < 2 powi int (f_prec F)"
    using assms(2) by (simp add: power_int_of_nat)
  have "(2 :: rat) powi ilog2 (of_int i) < 2 powi int (f_prec F)"
    using ilog2_bounds(1) [OF pos] lt by (rule order.strict_trans1)
  then have "ilog2 (of_int i) < int (f_prec F)" using powi_mono2 by (metis linorder_not_less)
  then have e: "ulp_exp F (of_int i) \<le> 0" using assms(3) by (simp add: ulp_exp_def)
  let ?e = "ulp_exp F (of_int i)"
  have pw: "(2 :: rat) powi (- ?e) = of_int (2 ^ nat (- ?e))" using e by (intro powi_nat) simp
  then have one: "(of_int (2 ^ nat (- ?e)) :: rat) * 2 powi ?e = 1"
    by (simp only: pw [symmetric] power_int_minus) simp
  have "(of_int i :: rat) / 2 powi ?e = of_int (i * 2 ^ nat (- ?e))"
    by (simp only: divide_inverse power_int_minus [symmetric] pw of_int_mult)
  then have "round_half_even (of_int i / 2 powi ?e) = i * 2 ^ nat (- ?e)"
    by (simp only: round_half_even_int)
  then have "rnd_mag F (of_int i) = of_int i * (of_int (2 ^ nat (- ?e)) * 2 powi ?e)"
    using pos by (simp add: rnd_mag_def Let_def)
  then have r: "rnd_mag F (of_int i) = of_int i" by (simp only: one mult_1_right)
  have "\<not> 2 powi (f_emax F + 1) \<le> (of_int i :: rat)"
    using lt powi_mono2 [OF assms(4)] by linarith
  then show ?thesis by (simp add: fl_round_def r)
qed

lemma fl_round_small:
  "0 \<le> i \<Longrightarrow> i < 2 ^ 24 \<Longrightarrow> fl_round binary32 s (of_int i) = FFin s (of_int i)"
  "0 \<le> i \<Longrightarrow> i < 2 ^ 53 \<Longrightarrow> fl_round binary64 s (of_int i) = FFin s (of_int i)"
  by (simp_all add: fl_round_int binary32_def binary64_def)

lemma fl_of_int_small:
  "0 \<le> i \<Longrightarrow> i < 2 ^ 24 \<Longrightarrow> fl_of_int binary32 i = FFin False (of_int i)"
  "0 \<le> i \<Longrightarrow> i < 2 ^ 53 \<Longrightarrow> fl_of_int binary64 i = FFin False (of_int i)"
  by (simp_all add: fl_of_int_def fl_of_rat_def fl_round_small)

section \<open>Order and sign facts for the scheduler\<close>

text \<open>A usable weight or coefficient: not NaN and not negative.\<close>

fun fl_ge0 :: "fl \<Rightarrow> bool" where
  "fl_ge0 FNaN = False"
| "fl_ge0 (FInf s) = (\<not> s)"
| "fl_ge0 (FFin s m) = (\<not> s \<and> 0 \<le> m)"

fun fl_pos :: "fl \<Rightarrow> bool" where
  "fl_pos (FFin s m) = (\<not> s \<and> 0 < m)"
| "fl_pos (FInf s) = (\<not> s)"
| "fl_pos FNaN = False"

lemma fl_pos_ge0: "fl_pos x \<Longrightarrow> fl_ge0 x"
  by (cases x) auto

lemma fl_ge0_not_NaN: "fl_ge0 x \<Longrightarrow> x \<noteq> FNaN"
  by (cases x) auto

lemma fl_ge0_round: "fl_ge0 (fl_round F False m)"
  by (simp add: fl_round_def Let_def rnd_mag_nonneg)

lemma fl_lt_irrefl [simp]: "\<not> fl_lt x x"
  by (cases x) auto

lemma fl_lt_trans: "fl_lt x y \<Longrightarrow> fl_lt y z \<Longrightarrow> fl_lt x z"
  by (cases x; cases y; cases z) auto

lemma fl_lt_asym: "fl_lt x y \<Longrightarrow> \<not> fl_lt y x"
  by (cases x; cases y) auto

text \<open>Away from NaN the comparison is total, and "not less" is transitive.\<close>

lemma fl_lt_negtrans:
  "y \<noteq> FNaN \<Longrightarrow> \<not> fl_lt x y \<Longrightarrow> \<not> fl_lt y z \<Longrightarrow> \<not> fl_lt x z"
  by (cases x; cases y; cases z) auto

lemma fl_le_total: "x \<noteq> FNaN \<Longrightarrow> y \<noteq> FNaN \<Longrightarrow> fl_le x y \<or> fl_le y x"
  using fl_lt_asym by (auto simp: fl_le_def)

lemma fl_le_trans: "fl_le x y \<Longrightarrow> fl_le y z \<Longrightarrow> fl_le x z"
  using fl_lt_negtrans by (auto simp: fl_le_def)

lemma fl_zero_le: "fl_ge0 x \<Longrightarrow> fl_le fl_zero x"
  by (cases x) (auto simp: fl_le_def fl_zero_def signed_def)

lemma fl_pos_gt_zero: "fl_pos x \<Longrightarrow> fl_lt fl_zero x"
  by (cases x) (auto simp: fl_zero_def signed_def)

lemma fl_round_mono:
  assumes "a \<le> b" and "1 \<le> f_prec F"
  shows "fl_le (fl_round F False a) (fl_round F False b)"
  using rnd_mag_mono [OF assms]
  by (auto simp: fl_round_def Let_def fl_le_def signed_def)

lemma fl_mul_ge0:
  "fl_ge0 x \<Longrightarrow> fl_pos c \<Longrightarrow> c \<noteq> FInf False \<Longrightarrow> fl_ge0 (fl_mul F x c)"
  by (cases x; cases c) (auto simp: fl_ge0_round)

lemma fl_mul_mono:
  assumes x: "fl_ge0 x" and y: "fl_ge0 y" and c: "fl_pos c" and cf: "c \<noteq> FInf False"
    and le: "fl_le x y" and p: "1 \<le> f_prec F"
  shows "fl_le (fl_mul F x c) (fl_mul F y c)"
proof -
  obtain m where m: "c = FFin False m" "0 < m" using c cf by (cases c) auto
  show ?thesis
  proof (cases x; cases y)
    fix s a t b
    assume xy: "x = FFin s a" "y = FFin t b"
    then have "a \<le> b" using le x y by (auto simp: fl_le_def signed_def)
    then have "a * m \<le> b * m" using m by (intro mult_right_mono) auto
    then have "fl_le (fl_round F False (a * m)) (fl_round F False (b * m))"
      using p by (rule fl_round_mono)
    then show ?thesis using xy x y m by simp
  next
    fix s a t
    assume xy: "x = FFin s a" "y = FInf t"
    have "fl_ge0 (fl_round F False (a * m))" by (rule fl_ge0_round)
    then show ?thesis using xy x y m
      by (cases "fl_round F False (a * m)") (auto simp: fl_le_def)
  qed (use x y le m in \<open>auto simp: fl_le_def\<close>)
qed

lemma fl_add_ge0: "fl_ge0 x \<Longrightarrow> fl_ge0 y \<Longrightarrow> fl_ge0 (fl_add F x y)"
  by (cases x; cases y) (auto simp: fl_ge0_round signed_def Let_def not_less)

end
