(* ===== verification/CString.thy ===== *)
theory CString imports BinaryFloat begin

text \<open>
  The C library functions on strings that the two policy loaders call: \<^verbatim>\<open>fgets\<close>, \<^verbatim>\<open>strtok_r\<close>,
  \<^verbatim>\<open>strncmp\<close> with a prefix, \<^verbatim>\<open>isspace\<close>, \<^verbatim>\<open>atoi\<close>, \<^verbatim>\<open>strtoul\<close> and \<^verbatim>\<open>atof\<close>, as functions on
  character lists (in the "C" locale, \<^verbatim>\<open>long\<close> of 64 bits).  A C string is the list of its
  characters without the terminating NUL; a file is the list of its bytes.
  The lemmas give the two round trips the loaders rest on: tokens joined by blanks come back from
  \<^verbatim>\<open>strtok_r\<close>, and a printed decimal comes back from \<^verbatim>\<open>atoi\<close>.
\<close>

section \<open>Characters\<close>

abbreviation ccode :: "char \<Rightarrow> nat" where
  "ccode c \<equiv> of_char c"

definition isspace :: "char \<Rightarrow> bool" where
  "isspace c \<longleftrightarrow> ccode c = 32 \<or> (9 \<le> ccode c \<and> ccode c \<le> 13)"

definition isdigit :: "char \<Rightarrow> bool" where
  "isdigit c \<longleftrightarrow> 48 \<le> ccode c \<and> ccode c \<le> 57"

definition tolower :: "char \<Rightarrow> char" where
  "tolower c = (if 65 \<le> ccode c \<and> ccode c \<le> 90 then char_of (ccode c + 32) else c)"

definition hexval :: "char \<Rightarrow> nat option" where
  "hexval c =
     (let k = ccode (tolower c) in
      if isdigit c then Some (k - 48)
      else if 97 \<le> k \<and> k \<le> 102 then Some (k - 87) else None)"

text \<open>The delimiters \<^verbatim>\<open>" \t\r\n"\<close> of both loaders.\<close>

definition isdelim :: "char \<Rightarrow> bool" where
  "isdelim c \<longleftrightarrow> ccode c = 32 \<or> ccode c = 9 \<or> ccode c = 13 \<or> ccode c = 10"

section \<open>Reading lines and tokens\<close>

text \<open>\<open>fgets(buf, n, fp)\<close>: at most \<open>n - 1\<close> bytes, up to and including a newline.\<close>

fun fgets_split :: "nat \<Rightarrow> string \<Rightarrow> string \<times> string" where
  "fgets_split 0 cs = ([], cs)"
| "fgets_split (Suc n) [] = ([], [])"
| "fgets_split (Suc n) (c # cs) =
     (if ccode c = 10 then ([c], cs)
      else let (l, r) = fgets_split n cs in (c # l, r))"

lemma fgets_split_append: "fgets_split n cs = (l, r) \<Longrightarrow> cs = l @ r \<and> length l \<le> n"
  by (induction n cs arbitrary: l rule: fgets_split.induct)
    (auto split: if_splits prod.splits)

lemma fgets_split_shrinks: "length (snd (fgets_split (Suc n) (c # cs))) < length (c # cs)"
proof (cases "fgets_split n cs")
  case (Pair l r)
  then have "length r \<le> length cs" using fgets_split_append [OF Pair] by simp
  with Pair show ?thesis by simp
qed

text \<open>
  The sequence of buffers that \<open>while (fgets(buf, 512, fp))\<close> sees, each read as a C string, so
  cut at an embedded NUL.
\<close>

definition c_str :: "string \<Rightarrow> string" where
  "c_str s = takeWhile (\<lambda>c. ccode c \<noteq> 0) s"

text \<open>The first argument is the buffer size less 2.\<close>

function fgets_all :: "nat \<Rightarrow> string \<Rightarrow> string list" where
  "fgets_all n [] = []"
| "fgets_all n (c # cs) =
     (let (l, r) = fgets_split (Suc n) (c # cs) in c_str l # fgets_all n r)"
  by pat_completeness auto
termination
  by (relation "measure (length \<circ> snd)")
    (use fgets_split_shrinks in \<open>auto simp del: fgets_split.simps\<close>, metis snd_conv)

text \<open>\<open>strtok_r\<close>: the next token and what the save pointer is left at.\<close>

definition strtok_r :: "string \<Rightarrow> (string \<times> string) option" where
  "strtok_r s =
     (let s' = dropWhile isdelim s in
      if s' = [] then None
      else Some (takeWhile (Not \<circ> isdelim) s', drop 1 (dropWhile (Not \<circ> isdelim) s')))"

lemma strtok_r_shrinks: "strtok_r s = Some (t, r) \<Longrightarrow> length r < length s"
proof -
  assume a: "strtok_r s = Some (t, r)"
  let ?s = "dropWhile isdelim s"
  have ne: "?s \<noteq> []" and r: "r = drop 1 (dropWhile (Not \<circ> isdelim) ?s)"
    using a by (auto simp: strtok_r_def Let_def split: if_splits)
  have "length (dropWhile (Not \<circ> isdelim) ?s) \<le> length ?s" by (rule length_dropWhile_le)
  moreover have "length ?s \<le> length s" by (rule length_dropWhile_le)
  moreover have "length ?s \<noteq> 0" using ne by simp
  ultimately show ?thesis
    using ne hd_dropWhile [OF ne] by (cases ?s) (auto simp: r split: if_splits)
qed

function strtok_all :: "string \<Rightarrow> string list" where
  "strtok_all s = (case strtok_r s of None \<Rightarrow> [] | Some (t, r) \<Rightarrow> t # strtok_all r)"
  by pat_completeness auto
termination
  by (relation "measure length") (auto dest: strtok_r_shrinks)

declare strtok_all.simps [simp del]

text \<open>\<open>strncmp(tok, key, strlen(key)) == 0\<close>.\<close>

definition has_prefix :: "string \<Rightarrow> string \<Rightarrow> bool" where
  "has_prefix key tok \<longleftrightarrow> take (length key) tok = key"

lemma has_prefix_append [simp]: "has_prefix key (key @ v)"
  by (simp add: has_prefix_def)

section \<open>Numbers\<close>

fun scan_sign :: "string \<Rightarrow> bool \<times> string" where
  "scan_sign [] = (False, [])"
| "scan_sign (c # cs) =
     (if ccode c = 45 then (True, cs) else if ccode c = 43 then (False, cs) else (False, c # cs))"

definition digits_val :: "string \<Rightarrow> nat" where
  "digits_val ds = foldl (\<lambda>n c. n * 10 + (ccode c - 48)) 0 ds"

definition scan_int :: "string \<Rightarrow> bool \<times> nat" where
  "scan_int s =
     (let (neg, s') = scan_sign (dropWhile isspace s) in (neg, digits_val (takeWhile isdigit s')))"

text \<open>\<open>atoi(s)\<close> is \<open>(int) strtol(s, NULL, 10)\<close>: saturated to \<open>long\<close>, then cut to 32 bits.\<close>

definition strtol10 :: "string \<Rightarrow> int" where
  "strtol10 s =
     (let (neg, n) = scan_int s; v = (if neg then - int n else int n)
      in max (- (2 ^ 63)) (min (2 ^ 63 - 1) v))"

definition atoi :: "string \<Rightarrow> int" where
  "atoi s = to_i32 (strtol10 s)"

text \<open>\<open>strtoul(s, NULL, 10)\<close>: a minus sign negates modulo \<open>2 ^ 64\<close>; overflow saturates.\<close>

definition strtoul10 :: "string \<Rightarrow> int" where
  "strtoul10 s =
     (let (neg, n) = scan_int s in
      if 2 ^ 64 \<le> int n then 2 ^ 64 - 1
      else if neg then (- int n) mod 2 ^ 64 else int n)"

text \<open>The exponent after \<open>e\<close> (or \<open>p\<close>), 0 when no digit follows.\<close>

definition scan_exp :: "char \<Rightarrow> string \<Rightarrow> int" where
  "scan_exp mark s =
     (case s of
        [] \<Rightarrow> 0
      | c # cs \<Rightarrow>
          if tolower c \<noteq> mark then 0
          else let (neg, ds) = scan_sign cs; n = digits_val (takeWhile isdigit ds)
               in if neg then - int n else int n)"

text \<open>The digits before and after the point, and what follows.\<close>

definition scan_frac :: "(char \<Rightarrow> bool) \<Rightarrow> string \<Rightarrow> string \<times> string \<times> string" where
  "scan_frac dig s =
     (let ip = takeWhile dig s; r = dropWhile dig s in
      case r of
        [] \<Rightarrow> (ip, [], [])
      | c # cs \<Rightarrow>
          if ccode c = 46 then (ip, takeWhile dig cs, dropWhile dig cs) else (ip, [], r))"

definition hex_digits_val :: "string \<Rightarrow> nat" where
  "hex_digits_val ds = foldl (\<lambda>n c. n * 16 + (case hexval c of None \<Rightarrow> 0 | Some v \<Rightarrow> v)) 0 ds"

definition scan_hex :: "string \<Rightarrow> rat" where
  "scan_hex s =
     (let (ip, fp, r) = scan_frac (\<lambda>c. hexval c \<noteq> None) s in
      if ip @ fp = [] then 0
      else of_nat (hex_digits_val (ip @ fp)) * 2 powi (scan_exp (CHR ''p'') r - 4 * int (length fp)))"

definition scan_dec :: "string \<Rightarrow> rat option" where
  "scan_dec s =
     (let (ip, fp, r) = scan_frac isdigit s in
      if ip @ fp = [] then None
      else Some (of_nat (digits_val (ip @ fp)) *
        10 powi (scan_exp (CHR ''e'') r - int (length fp))))"

definition starts_with_ci :: "string \<Rightarrow> string \<Rightarrow> bool" where
  "starts_with_ci w s \<longleftrightarrow> map tolower (take (length w) s) = w"

text \<open>\<open>atof(s)\<close> is \<open>strtod(s, NULL)\<close>; text that is no number gives 0.\<close>

definition atof :: "string \<Rightarrow> fl" where
  "atof s =
     (let (neg, r) = scan_sign (dropWhile isspace s) in
      if starts_with_ci ''inf'' r then FInf neg
      else if starts_with_ci ''nan'' r then FNaN
      else if starts_with_ci ''0x'' r then fl_round binary64 neg (scan_hex (drop 2 r))
      else case scan_dec r of
             None \<Rightarrow> fl_zero
           | Some q \<Rightarrow> fl_round binary64 neg q)"

definition atof32 :: "string \<Rightarrow> fl" where
  "atof32 s = fl_convert binary32 (atof s)"

section \<open>Lines and tokens come back\<close>

abbreviation nl :: char where
  "nl \<equiv> CHR 0x0A"

fun join :: "string \<Rightarrow> string list \<Rightarrow> string" where
  "join sep [] = []"
| "join sep [x] = x"
| "join sep (x # y # ys) = x @ sep @ join sep (y # ys)"

text \<open>A token: not empty and without a delimiter or a NUL.\<close>

definition is_token :: "string \<Rightarrow> bool" where
  "is_token t \<longleftrightarrow> t \<noteq> [] \<and> (\<forall>c \<in> set t. \<not> isdelim c \<and> ccode c \<noteq> 0)"

lemma strtok_all_Nil [simp]: "strtok_all [] = []"
  by (simp add: strtok_all.simps [of "[]"] strtok_r_def)

lemma dropWhile_token: "is_token t \<Longrightarrow> dropWhile isdelim (t @ r) = t @ r"
  by (cases t) (auto simp: is_token_def)

lemma strtok_all_token:
  assumes t: "is_token t" and r: "r = [] \<or> isdelim (hd r)"
  shows "strtok_all (t @ r) = t # strtok_all (drop 1 r)"
proof -
  have tw: "takeWhile (Not \<circ> isdelim) (t @ r) = t" "dropWhile (Not \<circ> isdelim) (t @ r) = r"
    using t r by (cases r; force simp: is_token_def takeWhile_append dropWhile_append)+
  have "t \<noteq> []" using t by (simp add: is_token_def)
  then have "strtok_r (t @ r) = Some (t, drop 1 r)"
    by (simp add: strtok_r_def dropWhile_token [OF t] tw)
  then show ?thesis by (simp add: strtok_all.simps [of "t @ r"])
qed

lemma strtok_join:
  assumes "\<forall>t \<in> set ts. is_token t" and "d = [] \<or> isdelim (hd d) \<and> tl d = []"
  shows "strtok_all (join '' '' ts @ d) = ts"
  using assms
proof (induction ts rule: induct_list012)
  case 1
  then have "strtok_r d = None" by (cases d) (auto simp: strtok_r_def)
  then show ?case by (simp add: strtok_all.simps [of d])
next
  case (2 x)
  then show ?case using strtok_all_token [of x d] by (cases d) auto
next
  case (3 x y zs)
  have "isdelim (hd ('' '' @ join '' '' (y # zs) @ d))" by (simp add: isdelim_def)
  with 3 show ?case using strtok_all_token [of x "'' '' @ join '' '' (y # zs) @ d"] by simp
qed

lemma set_join: "set (join sep ts) \<subseteq> (\<Union>t \<in> set ts. set t) \<union> set sep"
  by (induction sep ts rule: join.induct) auto

lemma length_join: "ts \<noteq> [] \<Longrightarrow>
  length (join sep ts) + length sep = sum_list (map length ts) + length sep * length ts"
  by (induction sep ts rule: join.induct) auto

lemma fgets_split_line:
  "\<forall>c \<in> set l. ccode c \<noteq> 10 \<Longrightarrow> length l < n \<Longrightarrow> fgets_split n (l @ nl # r) = (l @ [nl], r)"
proof (induction l arbitrary: n)
  case Nil
  then show ?case by (cases n) auto
next
  case (Cons c l)
  then show ?case by (cases n) auto
qed

lemma c_str_id: "\<forall>c \<in> set s. ccode c \<noteq> 0 \<Longrightarrow> c_str s = s"
  by (simp add: c_str_def)

lemma fgets_all_line:
  assumes "\<forall>c \<in> set l. ccode c \<noteq> 10 \<and> ccode c \<noteq> 0" and "length l \<le> k"
  shows "fgets_all k (l @ nl # r) = (l @ [nl]) # fgets_all k r"
proof -
  have "fgets_split (Suc k) (l @ nl # r) = (l @ [nl], r)"
    using assms by (intro fgets_split_line) auto
  moreover obtain c cs where "l @ nl # r = c # cs" by (cases l) auto
  moreover have "c_str (l @ [nl]) = l @ [nl]" using assms(1) by (intro c_str_id) auto
  ultimately show ?thesis by (simp del: fgets_split.simps)
qed

lemma fgets_all_lines:
  assumes "\<forall>l \<in> set ls. (\<forall>c \<in> set l. ccode c \<noteq> 10 \<and> ccode c \<noteq> 0) \<and> length l \<le> k"
  shows "fgets_all k (concat (map (\<lambda>l. l @ [nl]) ls)) = map (\<lambda>l. l @ [nl]) ls"
  using assms
proof (induction ls)
  case (Cons l ls)
  then show ?case using fgets_all_line [of l k "concat (map (\<lambda>l. l @ [nl]) ls)"] by simp
qed simp

section \<open>Printed decimals come back\<close>

definition digit_char :: "nat \<Rightarrow> char" where
  "digit_char d = char_of (48 + d)"

fun nat_str :: "nat \<Rightarrow> string" where
  "nat_str n = (if n < 10 then [digit_char n] else nat_str (n div 10) @ [digit_char (n mod 10)])"

declare nat_str.simps [simp del]

text \<open>\<open>str(int(v))\<close> of Python.\<close>

definition int_str :: "int \<Rightarrow> string" where
  "int_str i = (if i < 0 then CHR ''-'' # nat_str (nat (- i)) else nat_str (nat i))"

lemma ccode_digit_char: "d < 10 \<Longrightarrow> ccode (digit_char d) = 48 + d"
  by (simp add: digit_char_def)

lemma nat_str_digits: "c \<in> set (nat_str n) \<Longrightarrow> isdigit c"
proof (induction n rule: nat_str.induct)
  case (1 n)
  show ?case
  proof (cases "n < 10")
    case True
    then show ?thesis using 1 by (simp add: nat_str.simps [of n] isdigit_def ccode_digit_char)
  next
    case False
    then show ?thesis using 1
      by (auto simp: nat_str.simps [of n] isdigit_def ccode_digit_char)
  qed
qed

lemma digits_val_snoc: "digits_val (ds @ [c]) = digits_val ds * 10 + (ccode c - 48)"
  by (simp add: digits_val_def)

lemma digits_val_nat_str: "digits_val (nat_str n) = n"
proof (induction n rule: nat_str.induct)
  case (1 n)
  then show ?case
    by (cases "n < 10")
      (simp_all add: nat_str.simps [of n] digits_val_snoc ccode_digit_char,
       simp add: digits_val_def ccode_digit_char)
qed

lemma nat_str_ne [simp]: "nat_str n \<noteq> []"
  by (simp add: nat_str.simps)

lemma length_nat_str: "n < 10 ^ Suc k \<Longrightarrow> length (nat_str n) \<le> Suc k"
proof (induction k arbitrary: n)
  case 0
  then show ?case by (simp add: nat_str.simps)
next
  case (Suc k)
  then have "n div 10 < 10 ^ Suc k" by (simp add: div_less_iff_less_mult mult.commute)
  then show ?case using Suc.IH [of "n div 10"] by (simp add: nat_str.simps [of n])
qed

lemma length_int_str:
  assumes "i32_range i"
  shows "length (int_str i) \<le> 11"
proof -
  have "nat i < 10 ^ Suc 9" and "nat (- i) < 10 ^ Suc 9" using assms by (auto simp: i32_range_def)
  then show ?thesis
    using length_nat_str [of "nat i" 9] length_nat_str [of "nat (- i)" 9] by (simp add: int_str_def)
qed

lemma isdigit_not_space: "isdigit c \<Longrightarrow> \<not> isspace c \<and> ccode c \<noteq> 45 \<and> ccode c \<noteq> 43"
  by (auto simp: isdigit_def isspace_def)

lemma scan_int_str: "scan_int (int_str i) = (i < 0, nat \<bar>i\<bar>)"
proof (cases "i < 0")
  case True
  have tw: "takeWhile isdigit (nat_str k) = nat_str k" for k by (simp add: nat_str_digits)
  with True show ?thesis
    by (simp add: scan_int_def int_str_def isspace_def tw digits_val_nat_str)
next
  case False
  have tw: "takeWhile isdigit (nat_str k) = nat_str k" for k by (simp add: nat_str_digits)
  obtain c cs where c: "nat_str (nat i) = c # cs" by (cases "nat_str (nat i)") simp_all
  then have "isdigit c" using nat_str_digits [of c "nat i"] by simp
  then have "scan_sign (dropWhile isspace (nat_str (nat i))) = (False, nat_str (nat i))"
    using isdigit_not_space [of c] by (simp add: c)
  with False show ?thesis
    by (simp add: scan_int_def int_str_def tw digits_val_nat_str)
qed

lemma atoi_int_str: "i32_range i \<Longrightarrow> atoi (int_str i) = i"
  by (auto simp: atoi_def strtol10_def scan_int_str i32_range_def cint_simps)

lemma strtoul_int_str: "0 \<le> i \<Longrightarrow> i < 2 ^ 64 \<Longrightarrow> strtoul10 (int_str i) = i"
  by (simp add: strtoul10_def scan_int_str nat_le_iff not_le [symmetric] le_nat_iff)

lemma int_str_chars: "c \<in> set (int_str i) \<Longrightarrow> \<not> isdelim c \<and> ccode c \<noteq> 0"
  using nat_str_digits [of c] by (fastforce simp: int_str_def isdigit_def isdelim_def split: if_splits)

end
