(* ===== verification/PyValue.thy ===== *)
theory PyValue imports CString "HOL-Library.AList" begin

text \<open>
  The Python values of the controller: what \<^verbatim>\<open>json.loads\<close> gives for a request, dictionaries with
  string keys, and the conversions \<^verbatim>\<open>int\<close>, \<^verbatim>\<open>float\<close>, \<^verbatim>\<open>str\<close> and \<^verbatim>\<open>bool\<close> that
  \<^verbatim>\<open>spark_ran_side/control_xapp.py\<close> applies to them.  A conversion that raises is \<^const>\<open>None\<close>.
  Python's \<^verbatim>\<open>int\<close> is \<^typ>\<open>int\<close> and its \<^verbatim>\<open>float\<close> is a \<open>binary64\<close> value.  Numbers in text are those
  of ASCII strings; the limit on the number of digits of \<^verbatim>\<open>int(s)\<close> is not modelled.
\<close>

section \<open>Values\<close>

datatype json =
    JNull
  | JBool bool
  | JInt int
  | JFloat fl
  | JStr string
  | JArr "json list"
  | JObj "(string \<times> json) list"

type_synonym dict = "(string \<times> json) list"

text \<open>\<^verbatim>\<open>d.get(k)\<close>, \<^verbatim>\<open>d.get(k, v)\<close> and \<^verbatim>\<open>d[k] = v\<close>, which keeps the place of a key that is there.\<close>

definition dget :: "dict \<Rightarrow> string \<Rightarrow> json" where
  "dget d k = (case map_of d k of None \<Rightarrow> JNull | Some v \<Rightarrow> v)"

definition dget_or :: "dict \<Rightarrow> string \<Rightarrow> json \<Rightarrow> json" where
  "dget_or d k v = (case map_of d k of None \<Rightarrow> v | Some w \<Rightarrow> w)"

definition dput :: "string \<Rightarrow> json \<Rightarrow> dict \<Rightarrow> dict" where
  "dput k v d = AList.update k v d"

definition ddel :: "string \<Rightarrow> dict \<Rightarrow> dict" where
  "ddel k d = AList.delete k d"

definition dupdate :: "dict \<Rightarrow> dict \<Rightarrow> dict" where
  "dupdate d e = fold (\<lambda>(k, v). dput k v) e d"

lemma map_of_dput [simp]: "map_of (dput k v d) = (map_of d)(k \<mapsto> v)"
  by (simp add: dput_def update_conv')

lemma map_of_ddel [simp]: "map_of (ddel k d) = (map_of d)(k := None)"
  by (simp add: ddel_def delete_conv')

lemma dget_dput: "dget (dput k v d) x = (if x = k then v else dget d x)"
  by (simp add: dget_def)

section \<open>Truth, text\<close>

fun py_truthy :: "json \<Rightarrow> bool" where
  "py_truthy JNull = False"
| "py_truthy (JBool b) = b"
| "py_truthy (JInt i) = (i \<noteq> 0)"
| "py_truthy (JFloat v) = (case v of FFin s m \<Rightarrow> m \<noteq> 0 | _ \<Rightarrow> True)"
| "py_truthy (JStr s) = (s \<noteq> [])"
| "py_truthy (JArr xs) = (xs \<noteq> [])"
| "py_truthy (JObj d) = (d \<noteq> [])"

text \<open>
  \<^verbatim>\<open>str(v)\<close>; the text of floats and containers, which the controller only passes through, is the
  parameter \<open>repr\<close>.
\<close>

fun py_str :: "(json \<Rightarrow> string) \<Rightarrow> json \<Rightarrow> string" where
  "py_str repr JNull = ''None''"
| "py_str repr (JBool b) = (if b then ''True'' else ''False'')"
| "py_str repr (JInt i) = int_str i"
| "py_str repr (JStr s) = s"
| "py_str repr v = repr v"

definition py_isspace :: "char \<Rightarrow> bool" where
  "py_isspace c \<longleftrightarrow> isspace c \<or> (28 \<le> ccode c \<and> ccode c \<le> 31) \<or> ccode c = 133 \<or> ccode c = 160"

definition strip_with :: "(char \<Rightarrow> bool) \<Rightarrow> string \<Rightarrow> string" where
  "strip_with P s = rev (dropWhile P (rev (dropWhile P s)))"

definition py_lower_char :: "char \<Rightarrow> char" where
  "py_lower_char c =
     (if (65 \<le> ccode c \<and> ccode c \<le> 90) \<or> (192 \<le> ccode c \<and> ccode c \<le> 222 \<and> ccode c \<noteq> 215)
      then char_of (ccode c + 32) else c)"

text \<open>\<^verbatim>\<open>s.strip().lower()\<close>.\<close>

definition py_norm :: "string \<Rightarrow> string" where
  "py_norm s = map py_lower_char (strip_with py_isspace s)"

section \<open>Numbers in text\<close>

text \<open>Digits with single underscores between them; the digits alone are returned.\<close>

fun py_digits :: "string \<Rightarrow> string option" where
  "py_digits [] = None"
| "py_digits [c] = (if isdigit c then Some [c] else None)"
| "py_digits (c # d # s) =
     (if \<not> isdigit c then None
      else if d = CHR ''_'' then map_option (\<lambda>r. c # r) (py_digits s)
      else map_option (\<lambda>r. c # r) (py_digits (d # s)))"

definition py_int_text :: "string \<Rightarrow> int option" where
  "py_int_text s =
     (let (neg, r) = scan_sign (strip_with isspace s)
      in map_option (\<lambda>ds. if neg then - int (digits_val ds) else int (digits_val ds)) (py_digits r))"

definition digit_part :: "string \<Rightarrow> string \<times> string" where
  "digit_part s = (let P = (\<lambda>c. isdigit c \<or> c = CHR ''_'') in (takeWhile P s, dropWhile P s))"

definition py_digits_opt :: "string \<Rightarrow> string option" where
  "py_digits_opt s = (if s = [] then Some [] else py_digits s)"

text \<open>The exponent part, which takes the rest of the text.\<close>

definition py_exp_text :: "string \<Rightarrow> int option" where
  "py_exp_text s =
     (case s of
        [] \<Rightarrow> Some 0
      | c # cs \<Rightarrow>
          if py_lower_char c \<noteq> CHR ''e'' then None
          else let (neg, r) = scan_sign cs
               in map_option (\<lambda>ds. if neg then - int (digits_val ds) else int (digits_val ds))
                    (py_digits r))"

definition py_number_text :: "string \<Rightarrow> rat option" where
  "py_number_text s =
     (let (ip, r) = digit_part s;
          (fp, r') = (case r of [] \<Rightarrow> ([], []) | c # cs \<Rightarrow> if c = CHR ''.'' then digit_part cs else ([], r))
      in case (py_digits_opt ip, py_digits_opt fp, py_exp_text r') of
           (Some i, Some f, Some e) \<Rightarrow>
             if i @ f = [] then None
             else Some (of_nat (digits_val (i @ f)) * 10 powi (e - int (length f)))
         | _ \<Rightarrow> None)"

definition py_float_text :: "string \<Rightarrow> fl option" where
  "py_float_text s =
     (let (neg, r) = scan_sign (strip_with isspace s);
          w = map py_lower_char r
      in if w = ''inf'' \<or> w = ''infinity'' then Some (FInf neg)
         else if w = ''nan'' then Some FNaN
         else map_option (fl_round binary64 neg) (py_number_text r))"

section \<open>Conversions\<close>

text \<open>\<^verbatim>\<open>int(v)\<close> truncates a float towards zero.\<close>

fun py_int :: "json \<Rightarrow> int option" where
  "py_int (JInt i) = Some i"
| "py_int (JBool b) = Some (if b then 1 else 0)"
| "py_int (JFloat (FFin s m)) = Some (if s then - \<lfloor>m\<rfloor> else \<lfloor>m\<rfloor>)"
| "py_int (JStr s) = py_int_text s"
| "py_int _ = None"

text \<open>\<^verbatim>\<open>float(v)\<close>; an integer beyond the largest double raises.\<close>

fun py_float :: "json \<Rightarrow> fl option" where
  "py_float (JFloat v) = Some v"
| "py_float (JInt i) = (case fl_of_int binary64 i of FFin s m \<Rightarrow> Some (FFin s m) | _ \<Rightarrow> None)"
| "py_float (JBool b) = Some (if b then fl_one else fl_zero)"
| "py_float (JStr s) = py_float_text s"
| "py_float _ = None"

text \<open>\<^verbatim>\<open>hex(i)\<close>.\<close>

fun hex_nat :: "nat \<Rightarrow> string" where
  "hex_nat n =
     (let d = (\<lambda>k. if k < 10 then char_of (48 + k) else char_of (87 + k :: nat))
      in if n < 16 then [d n] else hex_nat (n div 16) @ [d (n mod 16)])"

declare hex_nat.simps [simp del]

definition py_hex :: "int \<Rightarrow> string" where
  "py_hex i = (if i < 0 then ''-0x'' @ hex_nat (nat (- i)) else ''0x'' @ hex_nat (nat i))"

end
