(* ===== verification/SlotTable.thy ===== *)
theory SlotTable imports Prelude begin

text \<open>
  All four policy tables of the gNB patch (slice associations, slice runtime counters, uplink and
  downlink link-adaptation entries) are fixed arrays of slots with a "used" flag and an RNTI.
  This theory holds what they share: the lookup and the find-or-allocate discipline over any such
  array, and the interface \<open>rnti_store\<close> under which the batch loops of the clients (the E2 bridge,
  the two file loaders) are verified once.
\<close>

section \<open>Find and find-or-allocate over an array of slots\<close>

definition slot_find :: "('e \<Rightarrow> bool) \<Rightarrow> ('e \<Rightarrow> 'k) \<Rightarrow> 'e list \<Rightarrow> 'k \<Rightarrow> nat option" where
  "slot_find used key t r = first_index (\<lambda>e. used e \<and> key e = r) t"

definition slot_free :: "('e \<Rightarrow> bool) \<Rightarrow> 'e list \<Rightarrow> nat option" where
  "slot_free used t = first_index (\<lambda>e. \<not> used e) t"

definition slot_map :: "('e \<Rightarrow> bool) \<Rightarrow> ('e \<Rightarrow> 'k) \<Rightarrow> 'e list \<Rightarrow> 'k \<rightharpoonup> 'e" where
  "slot_map used key t = (\<lambda>r. map_option ((!) t) (slot_find used key t r))"

definition slot_put :: "('e \<Rightarrow> bool) \<Rightarrow> ('e \<Rightarrow> 'k) \<Rightarrow> 'e list \<Rightarrow> 'k \<Rightarrow> 'e \<Rightarrow> 'e list" where
  "slot_put used key t r e =
     (case slot_find used key t r of
        Some i \<Rightarrow> t[i := e]
      | None \<Rightarrow> (case slot_free used t of Some i \<Rightarrow> t[i := e] | None \<Rightarrow> t))"

text \<open>No two used slots carry the same key.\<close>

definition slots_unique :: "('e \<Rightarrow> bool) \<Rightarrow> ('e \<Rightarrow> 'k) \<Rightarrow> 'e list \<Rightarrow> bool" where
  "slots_unique used key t \<longleftrightarrow>
     (\<forall>i < length t. \<forall>j < length t.
        used (t ! i) \<longrightarrow> used (t ! j) \<longrightarrow> key (t ! i) = key (t ! j) \<longrightarrow> i = j)"

lemma slots_uniqueD:
  "slots_unique used key t \<Longrightarrow> i < length t \<Longrightarrow> j < length t \<Longrightarrow> used (t ! i) \<Longrightarrow> used (t ! j) \<Longrightarrow>
   key (t ! i) = key (t ! j) \<Longrightarrow> i = j"
  by (auto simp: slots_unique_def)

lemma slots_unique_unused: "(\<And>e. e \<in> set t \<Longrightarrow> \<not> used e) \<Longrightarrow> slots_unique used key t"
  by (auto simp: slots_unique_def)

lemma slot_find_SomeD:
  "slot_find used key t r = Some i \<Longrightarrow> i < length t \<and> used (t ! i) \<and> key (t ! i) = r"
  unfolding slot_find_def by (drule first_index_SomeD) auto

lemma slot_find_None:
  "slot_find used key t r = None \<longleftrightarrow> (\<forall>e \<in> set t. used e \<longrightarrow> key e \<noteq> r)"
  by (auto simp: slot_find_def loop_simps)

lemma slot_free_SomeD: "slot_free used t = Some i \<Longrightarrow> i < length t \<and> \<not> used (t ! i)"
  unfolding slot_free_def by (drule first_index_SomeD) auto

lemma slot_free_None: "slot_free used t = None \<longleftrightarrow> (\<forall>e \<in> set t. used e)"
  by (auto simp: slot_free_def loop_simps)

lemma slot_find_iff:
  assumes "slots_unique used key t"
  shows "slot_find used key t r = Some i \<longleftrightarrow> i < length t \<and> used (t ! i) \<and> key (t ! i) = r"
proof
  assume "i < length t \<and> used (t ! i) \<and> key (t ! i) = r"
  moreover from this obtain k where k: "slot_find used key t r = Some k"
    by (cases "slot_find used key t r") (auto simp: slot_find_None)
  ultimately show "slot_find used key t r = Some i"
    using slot_find_SomeD [OF k] slots_uniqueD [OF assms] by metis
qed (auto dest: slot_find_SomeD)

lemma slot_map_eq_Some:
  assumes "slots_unique used key t"
  shows "slot_map used key t r = Some e \<longleftrightarrow> e \<in> set t \<and> used e \<and> key e = r"
  using slot_find_iff [OF assms, of r] by (auto simp: slot_map_def in_set_conv_nth)

lemma slot_map_None: "slot_map used key t r = None \<longleftrightarrow> (\<forall>e \<in> set t. used e \<longrightarrow> key e \<noteq> r)"
  by (simp add: slot_map_def slot_find_None)

lemma dom_slot_map: "dom (slot_map used key t) = key ` {e \<in> set t. used e}"
proof (rule set_eqI)
  fix r
  show "r \<in> dom (slot_map used key t) \<longleftrightarrow> r \<in> key ` {e \<in> set t. used e}"
    unfolding domIff slot_map_None by auto
qed

lemma finite_dom_slot_map: "finite (dom (slot_map used key t))"
  by (simp add: dom_slot_map)

lemma card_dom_slot_map_le: "card (dom (slot_map used key t)) \<le> length t"
proof -
  have "card (key ` {e \<in> set t. used e}) \<le> card {e \<in> set t. used e}"
    by (intro card_image_le) simp
  also have "\<dots> \<le> card (set t)" by (intro card_mono) auto
  also have "\<dots> \<le> length t" by (rule card_length)
  finally show ?thesis by (simp add: dom_slot_map)
qed

lemma dom_slot_map_idx:
  "dom (slot_map used key t) = (\<lambda>i. key (t ! i)) ` {i. i < length t \<and> used (t ! i)}"
  unfolding dom_slot_map by (fastforce simp: in_set_conv_nth image_iff)

text \<open>A table is full exactly when as many keys are bound as it has slots.\<close>

lemma slot_free_card:
  assumes "slots_unique used key t"
  shows "slot_free used t = None \<longleftrightarrow> card (dom (slot_map used key t)) = length t"
proof -
  let ?I = "{i. i < length t \<and> used (t ! i)}"
  have inj: "inj_on (\<lambda>i. key (t ! i)) ?I"
    using slots_uniqueD [OF assms] by (auto simp: inj_on_def)
  have card: "card (dom (slot_map used key t)) = card ?I"
    unfolding dom_slot_map_idx by (rule card_image [OF inj])
  have "slot_free used t = None \<longleftrightarrow> ?I = {..< length t}"
    by (auto simp: slot_free_None set_conv_nth)
  also have "\<dots> \<longleftrightarrow> card ?I = length t"
  proof
    assume "card ?I = length t"
    then show "?I = {..< length t}" by (intro card_subset_eq) auto
  qed simp
  finally show ?thesis by (simp add: card)
qed

section \<open>The effect of find-or-allocate\<close>

lemma length_slot_put [simp]: "length (slot_put used key t r e) = length t"
  by (simp add: slot_put_def split: option.splits)

lemma slots_unique_update:
  assumes u: "slots_unique used key t" and i: "i < length t"
    and e: "used e" "key e = r"
    and other: "\<And>j. j < length t \<Longrightarrow> used (t ! j) \<Longrightarrow> key (t ! j) = r \<Longrightarrow> j = i"
  shows "slots_unique used key (t[i := e])"
  unfolding slots_unique_def
proof (intro allI impI)
  fix j k
  assume "j < length (t[i := e])" "k < length (t[i := e])" "used (t[i := e] ! j)"
    "used (t[i := e] ! k)" "key (t[i := e] ! j) = key (t[i := e] ! k)"
  note a = this
  consider "j = i" "k = i" | "j = i" "k \<noteq> i" | "j \<noteq> i" "k = i" | "j \<noteq> i" "k \<noteq> i" by blast
  then show "j = k"
  proof cases
    case 2
    with a e i have "k < length t" "used (t ! k)" "key (t ! k) = r" by simp_all
    then have "k = i" by (rule other)
    with 2 show ?thesis by simp
  next
    case 3
    with a e i have "j < length t" "used (t ! j)" "key (t ! j) = r" by simp_all
    then have "j = i" by (rule other)
    with 3 show ?thesis by simp
  next
    case 4
    with a show ?thesis by (intro slots_uniqueD [OF u]) simp_all
  qed simp
qed

lemma slot_map_update:
  assumes u: "slots_unique used key t" and i: "i < length t"
    and e: "used e" "key e = r"
    and other: "\<And>j. j < length t \<Longrightarrow> used (t ! j) \<Longrightarrow> key (t ! j) = r \<Longrightarrow> j = i"
    and old: "used (t ! i) \<Longrightarrow> key (t ! i) = r"
  shows "slot_map used key (t[i := e]) = (slot_map used key t)(r \<mapsto> e)"
proof
  fix q
  have u': "slots_unique used key (t[i := e])"
    by (rule slots_unique_update [OF u i e other])
  show "slot_map used key (t[i := e]) q = ((slot_map used key t)(r \<mapsto> e)) q"
  proof (cases "q = r")
    case True
    have "e \<in> set (t[i := e])" by (rule set_update_memI [OF i])
    then have "slot_map used key (t[i := e]) r = Some e"
      using slot_map_eq_Some [OF u', of r e] e by simp
    with True show ?thesis by simp
  next
    case False
    have "slot_map used key (t[i := e]) q = Some x \<longleftrightarrow> slot_map used key t q = Some x" for x
    proof
      assume "slot_map used key (t[i := e]) q = Some x"
      then have x: "x \<in> set (t[i := e])" "used x" "key x = q"
        using slot_map_eq_Some [OF u'] by auto
      then have "x \<in> set t" using False e set_update_subset_insert [of t i e] by auto
      with x show "slot_map used key t q = Some x" using slot_map_eq_Some [OF u] by auto
    next
      assume "slot_map used key t q = Some x"
      then have x: "x \<in> set t" "used x" "key x = q" using slot_map_eq_Some [OF u] by auto
      then obtain k where k: "k < length t" "t ! k = x" by (auto simp: in_set_conv_nth)
      then have "k \<noteq> i" using old x False by auto
      with k have "(t[i := e]) ! k = x" by simp
      then have "x \<in> set (t[i := e])" using k nth_mem [of k "t[i := e]"] by simp
      with x show "slot_map used key (t[i := e]) q = Some x"
        using slot_map_eq_Some [OF u'] by auto
    qed
    then show ?thesis using False
      by (cases "slot_map used key t q"; cases "slot_map used key (t[i := e]) q") auto
  qed
qed

lemma slot_put_cases:
  assumes u: "slots_unique used key t"
  obtains (found) i where "slot_find used key t r = Some i" "slot_put used key t r e = t[i := e]"
    | (fresh) i where "slot_find used key t r = None" "slot_free used t = Some i"
        "slot_put used key t r e = t[i := e]"
    | (full) "slot_find used key t r = None" "slot_free used t = None"
        "slot_put used key t r e = t"
  by (cases "slot_find used key t r"; cases "slot_free used t") (auto simp: slot_put_def)

lemma slots_unique_put:
  assumes u: "slots_unique used key t" and e: "used e" "key e = r"
  shows "slots_unique used key (slot_put used key t r e)"
proof (rule slot_put_cases [OF u, of r e])
  fix i assume f: "slot_find used key t r = Some i" and eq: "slot_put used key t r e = t[i := e]"
  note d = slot_find_SomeD [OF f]
  show ?thesis unfolding eq
    by (rule slots_unique_update [OF u _ e]) (use d slots_uniqueD [OF u] in auto)
next
  fix i assume f: "slot_find used key t r = None" and fr: "slot_free used t = Some i"
    and eq: "slot_put used key t r e = t[i := e]"
  show ?thesis unfolding eq
    by (rule slots_unique_update [OF u _ e])
      (use slot_free_SomeD [OF fr] f in \<open>auto simp: slot_find_None\<close>)
next
  assume "slot_put used key t r e = t"
  with u show ?thesis by simp
qed

theorem slot_map_put:
  assumes u: "slots_unique used key t" and e: "used e" "key e = r"
  shows "slot_map used key (slot_put used key t r e) =
    (if slot_map used key t r \<noteq> None \<or> card (dom (slot_map used key t)) < length t
     then (slot_map used key t)(r \<mapsto> e) else slot_map used key t)"
proof (rule slot_put_cases [OF u, of r e])
  fix i assume f: "slot_find used key t r = Some i" and eq: "slot_put used key t r e = t[i := e]"
  note d = slot_find_SomeD [OF f]
  have "slot_map used key (t[i := e]) = (slot_map used key t)(r \<mapsto> e)"
    by (rule slot_map_update [OF u _ e]) (use d slots_uniqueD [OF u] in auto)
  then show ?thesis using f eq by (simp add: slot_map_def)
next
  fix i assume f: "slot_find used key t r = None" and fr: "slot_free used t = Some i"
    and eq: "slot_put used key t r e = t[i := e]"
  have "slot_map used key (t[i := e]) = (slot_map used key t)(r \<mapsto> e)"
    by (rule slot_map_update [OF u _ e])
      (use slot_free_SomeD [OF fr] f in \<open>auto simp: slot_find_None\<close>)
  moreover have "card (dom (slot_map used key t)) < length t"
    using slot_free_card [OF u] fr card_dom_slot_map_le [of used key t] by fastforce
  ultimately show ?thesis using eq by simp
next
  assume f: "slot_find used key t r = None" and fr: "slot_free used t = None"
    and eq: "slot_put used key t r e = t"
  have "card (dom (slot_map used key t)) = length t" using slot_free_card [OF u] fr by simp
  moreover have "slot_map used key t r = None" using f by (simp add: slot_map_def)
  ultimately show ?thesis using eq by simp
qed

section \<open>The interface: a bounded store keyed by RNTI\<close>

text \<open>
  \<open>put\<close> binds a key unless the store is full and the key is new; \<open>get\<close> is the resulting finite
  map.  Clients (a loop over the associations of one E2 message, the lines of a state file) need
  only these laws.
\<close>

locale rnti_store =
  fixes inv :: "'s \<Rightarrow> bool"
    and get :: "'s \<Rightarrow> 'k \<rightharpoonup> 'v"
    and put :: "'k \<Rightarrow> 'v \<Rightarrow> 's \<Rightarrow> 's"
    and cap :: nat
  assumes inv_put: "inv s \<Longrightarrow> inv (put r v s)"
    and get_put: "inv s \<Longrightarrow> get (put r v s) =
      (if get s r \<noteq> None \<or> card (dom (get s)) < cap then (get s)(r \<mapsto> v) else get s)"
    and finite_get: "inv s \<Longrightarrow> finite (dom (get s))"
    and card_get: "inv s \<Longrightarrow> card (dom (get s)) \<le> cap"
begin

lemma get_put_other: "inv s \<Longrightarrow> q \<noteq> r \<Longrightarrow> get (put r v s) q = get s q"
  by (simp add: get_put)

lemma get_put_bound: "inv s \<Longrightarrow> get s r \<noteq> None \<Longrightarrow> get (put r v s) = (get s)(r \<mapsto> v)"
  by (simp add: get_put)

lemma get_put_full:
  "inv s \<Longrightarrow> get s r = None \<Longrightarrow> card (dom (get s)) = cap \<Longrightarrow> get (put r v s) = get s"
  by (simp add: get_put)

lemma inv_fold: "inv s \<Longrightarrow> inv (fold (\<lambda>(r, v). put r v) kvs s)"
  by (induction kvs arbitrary: s) (auto simp: inv_put)

text \<open>Entries never leave the store, and a key keeps a value once it has one.\<close>

lemma dom_fold: "inv s \<Longrightarrow> dom (get s) \<subseteq> dom (get (fold (\<lambda>(r, v). put r v) kvs s))"
proof (induction kvs arbitrary: s)
  case (Cons kv kvs)
  obtain r v where kv: "kv = (r, v)" by (cases kv)
  have "dom (get s) \<subseteq> dom (get (put r v s))" using Cons.prems by (auto simp: get_put)
  also have "\<dots> \<subseteq> dom (get (fold (\<lambda>(r, v). put r v) kvs (put r v s)))"
    by (rule Cons.IH [OF inv_put [OF Cons.prems]])
  finally show ?case by (simp add: kv)
qed simp

text \<open>A batch that fits binds every key of the batch to its last value.\<close>

lemma get_fold:
  assumes "inv s" and "card (dom (get s) \<union> fst ` set kvs) \<le> cap"
  shows "get (fold (\<lambda>(r, v). put r v) kvs s) = get s ++ map_of (rev kvs)"
  using assms
proof (induction kvs arbitrary: s)
  case Nil
  then show ?case by simp
next
  case (Cons kv kvs)
  obtain r v where kv: "kv = (r, v)" by (cases kv)
  have fin: "finite (dom (get s) \<union> fst ` set (kv # kvs))"
    using finite_get [OF Cons.prems(1)] by simp
  have put: "get (put r v s) = (get s)(r \<mapsto> v)"
  proof (cases "get s r = None")
    case True
    then have "dom (get s) \<subset> dom (get s) \<union> fst ` set (kv # kvs)" by (auto simp: kv domIff)
    then have "card (dom (get s)) < card (dom (get s) \<union> fst ` set (kv # kvs))"
      by (rule psubset_card_mono [OF fin])
    with Cons.prems show ?thesis by (simp add: get_put)
  qed (simp add: get_put Cons.prems)
  have fits: "card (dom (get (put r v s)) \<union> fst ` set kvs) \<le> cap"
    using Cons.prems(2) by (simp add: put kv insert_commute)
  have "get (fold (\<lambda>(r, v). put r v) kvs (put r v s)) = (get s)(r \<mapsto> v) ++ map_of (rev kvs)"
    unfolding put [symmetric] by (rule Cons.IH [OF inv_put [OF Cons.prems(1)] fits])
  also have "\<dots> = get s ++ map_of (rev (kv # kvs))"
    by (simp add: kv map_add_upd map_add_assoc [symmetric] fun_eq_iff map_add_def
        split: option.splits)
  finally show ?case by (simp add: kv)
qed

end

end
