(* ===== verification/UeLaPolicy.thy ===== *)
theory UeLaPolicy imports SlotTable CString begin

text \<open>
  The uplink link-adaptation overrides of single UEs, \<^verbatim>\<open>gnb_patch/rk_ue_la_policy.c\<close>: a table
  of 256 slots that is reloaded from a state file at most every 100 ms, when the file's
  modification time has changed, and the getters the uplink scheduler calls.
  The clock, \<^verbatim>\<open>stat\<close> and the content behind \<^verbatim>\<open>fopen\<close> are arguments of the reload.
\<close>

section \<open>Data\<close>

text \<open>
  The eight settings are the common part of a table entry and of the local variables of the line
  parser; the C struct has the RNTI and the valid flag first.
\<close>

record la_settings =
  ul_max_mcs :: int
  min_grant_prb :: int
  ulsch_max_frame_inactivity :: int
  pusch_target_snrx10 :: int
  ul_sched_mul :: fl
  ul_maxcg_override :: int
  ul_small_burst_bytes :: int
  ul_small_burst_mul :: fl

record rk_ue_la_entry_t = la_settings +
  la_rnti :: u16
  la_valid :: u8

record la_line = la_settings +
  line_rnti :: int

type_synonym la_table = "rk_ue_la_entry_t list"

record la_state =
  g_tbl :: la_table
  g_last_mtime_sec :: int
  g_last_mtime_nsec :: int
  g_last_check_ms :: int

definition RK_UE_LA_MAX :: nat where
  "RK_UE_LA_MAX = 256"

definition RK_UE_LA_UNSET :: int where
  "RK_UE_LA_UNSET = -1"

definition la_zero :: rk_ue_la_entry_t where
  "la_zero = \<lparr>ul_max_mcs = 0, min_grant_prb = 0, ulsch_max_frame_inactivity = 0,
     pusch_target_snrx10 = 0, ul_sched_mul = fl_zero, ul_maxcg_override = 0,
     ul_small_burst_bytes = 0, ul_small_burst_mul = fl_zero, la_rnti = 0, la_valid = 0\<rparr>"

definition la_state_init :: la_state where
  "la_state_init = \<lparr>g_tbl = replicate RK_UE_LA_MAX la_zero, g_last_mtime_sec = 0,
     g_last_mtime_nsec = 0, g_last_check_ms = 0\<rparr>"

section \<open>The table\<close>

definition rk_ue_la_clear_all :: "la_table \<Rightarrow> la_table" where
  "rk_ue_la_clear_all t = replicate (length t) la_zero"

definition rk_ue_la_find_mut :: "la_table \<Rightarrow> u16 \<Rightarrow> nat option" where
  "rk_ue_la_find_mut t rnti = first_index (\<lambda>e. la_valid e \<noteq> 0 \<and> la_rnti e = rnti) t"

definition rk_ue_la_alloc :: "la_table \<Rightarrow> u16 \<Rightarrow> la_table \<times> nat option" where
  "rk_ue_la_alloc t rnti =
     (case rk_ue_la_find_mut t rnti of
        Some i \<Rightarrow> (t, Some i)
      | None \<Rightarrow>
          (case first_index (\<lambda>e. \<not> la_valid e \<noteq> 0) t of
             Some i \<Rightarrow>
               (t[i := (t ! i)\<lparr>la_valid := 1, la_rnti := rnti, ul_max_mcs := RK_UE_LA_UNSET,
                   min_grant_prb := RK_UE_LA_UNSET, ulsch_max_frame_inactivity := RK_UE_LA_UNSET,
                   pusch_target_snrx10 := RK_UE_LA_UNSET, ul_sched_mul := f32 (-1),
                   ul_maxcg_override := RK_UE_LA_UNSET, ul_small_burst_bytes := RK_UE_LA_UNSET,
                   ul_small_burst_mul := f32 (-1)\<rparr>], Some i)
           | None \<Rightarrow> (t, None)))"

definition rk_ue_la_get_entry :: "la_table \<Rightarrow> u16 \<Rightarrow> rk_ue_la_entry_t option" where
  "rk_ue_la_get_entry t rnti =
     map_option ((!) t) (first_index (\<lambda>e. la_valid e \<noteq> 0 \<and> la_rnti e = rnti) t)"

section \<open>The state file\<close>

text \<open>\<open>Some v\<close> when the token is \<open>key=v\<close>.\<close>

definition parse_int_kv :: "string \<Rightarrow> string \<Rightarrow> int option" where
  "parse_int_kv tok key =
     (if \<not> has_prefix key tok \<or> take 1 (drop (length key) tok) \<noteq> ''='' then None
      else Some (atoi (drop (length key + 1) tok)))"

definition la_line_init :: la_line where
  "la_line_init = \<lparr>ul_max_mcs = RK_UE_LA_UNSET, min_grant_prb = RK_UE_LA_UNSET,
     ulsch_max_frame_inactivity = RK_UE_LA_UNSET, pusch_target_snrx10 = RK_UE_LA_UNSET,
     ul_sched_mul = f32 (-1), ul_maxcg_override = RK_UE_LA_UNSET,
     ul_small_burst_bytes = RK_UE_LA_UNSET, ul_small_burst_mul = f32 (-1), line_rnti = -1\<rparr>"

text \<open>The body of the token loop: the first matching key takes the token.\<close>

definition la_token :: "string \<Rightarrow> la_line \<Rightarrow> la_line" where
  "la_token tok l =
     (case parse_int_kv tok ''rnti'' of Some v \<Rightarrow> l\<lparr>line_rnti := v\<rparr> | None \<Rightarrow>
      case parse_int_kv tok ''ul_max_mcs'' of Some v \<Rightarrow> l\<lparr>ul_max_mcs := v\<rparr> | None \<Rightarrow>
      case parse_int_kv tok ''min_grant_prb'' of Some v \<Rightarrow> l\<lparr>min_grant_prb := v\<rparr> | None \<Rightarrow>
      case parse_int_kv tok ''ulsch_max_frame_inactivity'' of
        Some v \<Rightarrow> l\<lparr>ulsch_max_frame_inactivity := v\<rparr> | None \<Rightarrow>
      case parse_int_kv tok ''pusch_target_snrx10'' of
        Some v \<Rightarrow> l\<lparr>pusch_target_snrx10 := v\<rparr> | None \<Rightarrow>
      if has_prefix ''ul_sched_mul='' tok then l\<lparr>ul_sched_mul := atof32 (drop 13 tok)\<rparr> else
      case parse_int_kv tok ''ul_maxcg_override'' of
        Some v \<Rightarrow> l\<lparr>ul_maxcg_override := v\<rparr> | None \<Rightarrow>
      case parse_int_kv tok ''ul_small_burst_bytes'' of
        Some v \<Rightarrow> l\<lparr>ul_small_burst_bytes := v\<rparr> | None \<Rightarrow>
      if has_prefix ''ul_small_burst_mul='' tok
      then l\<lparr>ul_small_burst_mul := atof32 (drop 19 tok)\<rparr> else l)"

definition la_parse_line :: "string \<Rightarrow> la_line option" where
  "la_parse_line line =
     (let p = dropWhile isspace line in
      if p = [] \<or> take 1 p = ''#'' then None
      else
        let l = fold la_token (strtok_all p) la_line_init in
        if line_rnti l \<le> 0 \<or> 65535 < line_rnti l then None else Some l)"

definition la_store :: "la_line \<Rightarrow> la_table \<Rightarrow> la_table" where
  "la_store l t =
     (case rk_ue_la_alloc t (to_u16 (line_rnti l)) of
        (t', None) \<Rightarrow> t'
      | (t', Some i) \<Rightarrow>
          t'[i := (t' ! i)\<lparr>ul_max_mcs := ul_max_mcs l, min_grant_prb := min_grant_prb l,
               ulsch_max_frame_inactivity := ulsch_max_frame_inactivity l,
               pusch_target_snrx10 := pusch_target_snrx10 l, ul_sched_mul := ul_sched_mul l,
               ul_maxcg_override := ul_maxcg_override l,
               ul_small_burst_bytes := ul_small_burst_bytes l,
               ul_small_burst_mul := ul_small_burst_mul l\<rparr>])"

definition la_step :: "string \<Rightarrow> la_table \<Rightarrow> la_table" where
  "la_step line t = (case la_parse_line line of None \<Rightarrow> t | Some l \<Rightarrow> la_store l t)"

text \<open>
  \<open>stat\<close> is the modification time in seconds and nanoseconds, \<open>file\<close> the content that \<open>fopen\<close>
  gives access to.
\<close>

definition rk_ue_la_reload_if_needed ::
    "int \<Rightarrow> (int \<times> int) option \<Rightarrow> string option \<Rightarrow> la_state \<Rightarrow> la_state" where
  "rk_ue_la_reload_if_needed now_ms stat file s =
     (if now_ms - g_last_check_ms s < 100 then s
      else
        let s = s\<lparr>g_last_check_ms := now_ms\<rparr> in
        case stat of
          None \<Rightarrow> s
        | Some (sec, nsec) \<Rightarrow>
            if sec = g_last_mtime_sec s \<and> nsec = g_last_mtime_nsec s then s
            else case file of
                   None \<Rightarrow> s
                 | Some content \<Rightarrow>
                     s\<lparr>g_tbl := fold la_step (fgets_all 510 content) (rk_ue_la_clear_all (g_tbl s)),
                       g_last_mtime_sec := sec, g_last_mtime_nsec := nsec\<rparr>)"

section \<open>Getters\<close>

definition rk_ue_la_get_ul_max_mcs :: "la_table \<Rightarrow> u16 \<Rightarrow> int \<Rightarrow> int \<Rightarrow> int" where
  "rk_ue_la_get_ul_max_mcs t rnti default_v max_mcs_table =
     (let v = (case rk_ue_la_get_entry t rnti of
                 Some e \<Rightarrow> if 0 \<le> ul_max_mcs e then ul_max_mcs e else default_v
               | None \<Rightarrow> default_v);
          v = (if max_mcs_table < v then max_mcs_table else v)
      in if v < 0 then 0 else v)"

definition rk_ue_la_get_min_grant_prb :: "la_table \<Rightarrow> u16 \<Rightarrow> int \<Rightarrow> int" where
  "rk_ue_la_get_min_grant_prb t rnti default_v =
     (case rk_ue_la_get_entry t rnti of
        Some e \<Rightarrow> if 0 < min_grant_prb e then min_grant_prb e else default_v
      | None \<Rightarrow> default_v)"

definition rk_ue_la_get_ulsch_max_frame_inactivity :: "la_table \<Rightarrow> u16 \<Rightarrow> int \<Rightarrow> int" where
  "rk_ue_la_get_ulsch_max_frame_inactivity t rnti default_v =
     (case rk_ue_la_get_entry t rnti of
        Some e \<Rightarrow> if 0 \<le> ulsch_max_frame_inactivity e then ulsch_max_frame_inactivity e else default_v
      | None \<Rightarrow> default_v)"

definition rk_ue_la_get_pusch_target_snrx10 :: "la_table \<Rightarrow> u16 \<Rightarrow> int \<Rightarrow> int" where
  "rk_ue_la_get_pusch_target_snrx10 t rnti default_v =
     (case rk_ue_la_get_entry t rnti of
        Some e \<Rightarrow> if 0 \<le> pusch_target_snrx10 e then pusch_target_snrx10 e else default_v
      | None \<Rightarrow> default_v)"

definition rk_ue_la_get_ul_sched_mul :: "la_table \<Rightarrow> u16 \<Rightarrow> fl \<Rightarrow> fl" where
  "rk_ue_la_get_ul_sched_mul t rnti default_v =
     (case rk_ue_la_get_entry t rnti of
        Some e \<Rightarrow> if fl_lt fl_zero (ul_sched_mul e) then ul_sched_mul e else default_v
      | None \<Rightarrow> default_v)"

definition rk_ue_la_get_ul_maxcg_override :: "la_table \<Rightarrow> u16 \<Rightarrow> int \<Rightarrow> int" where
  "rk_ue_la_get_ul_maxcg_override t rnti default_v =
     (case rk_ue_la_get_entry t rnti of
        Some e \<Rightarrow> if 0 < ul_maxcg_override e then ul_maxcg_override e else default_v
      | None \<Rightarrow> default_v)"

definition rk_ue_la_get_ul_small_burst_bytes :: "la_table \<Rightarrow> u16 \<Rightarrow> int \<Rightarrow> int" where
  "rk_ue_la_get_ul_small_burst_bytes t rnti default_v =
     (case rk_ue_la_get_entry t rnti of
        Some e \<Rightarrow> if 0 < ul_small_burst_bytes e then ul_small_burst_bytes e else default_v
      | None \<Rightarrow> default_v)"

definition rk_ue_la_get_ul_small_burst_mul :: "la_table \<Rightarrow> u16 \<Rightarrow> fl \<Rightarrow> fl" where
  "rk_ue_la_get_ul_small_burst_mul t rnti default_v =
     (case rk_ue_la_get_entry t rnti of
        Some e \<Rightarrow> if fl_lt fl_zero (ul_small_burst_mul e) then ul_small_burst_mul e else default_v
      | None \<Rightarrow> default_v)"

section \<open>The table is a bounded store of settings\<close>

definition la_used :: "rk_ue_la_entry_t \<Rightarrow> bool" where
  "la_used e \<longleftrightarrow> la_valid e \<noteq> 0"

definition la_inv :: "la_table \<Rightarrow> bool" where
  "la_inv t \<longleftrightarrow> length t = RK_UE_LA_MAX \<and> slots_unique la_used la_rnti t \<and>
     (\<forall>e \<in> set t. la_valid e = 0 \<or> la_valid e = 1)"

definition la_settings_of :: "'a la_settings_scheme \<Rightarrow> la_settings" where
  "la_settings_of e = \<lparr>ul_max_mcs = ul_max_mcs e, min_grant_prb = min_grant_prb e,
     ulsch_max_frame_inactivity = ulsch_max_frame_inactivity e,
     pusch_target_snrx10 = pusch_target_snrx10 e, ul_sched_mul = ul_sched_mul e,
     ul_maxcg_override = ul_maxcg_override e, ul_small_burst_bytes = ul_small_burst_bytes e,
     ul_small_burst_mul = ul_small_burst_mul e\<rparr>"

definition la_entry :: "u16 \<Rightarrow> la_settings \<Rightarrow> rk_ue_la_entry_t" where
  "la_entry r v = la_settings.extend v \<lparr>la_rnti = r, la_valid = 1\<rparr>"

definition la_line_of :: "u16 \<Rightarrow> la_settings \<Rightarrow> la_line" where
  "la_line_of r v = la_settings.extend v \<lparr>line_rnti = uint r\<rparr>"

definition la_get :: "la_table \<Rightarrow> u16 \<rightharpoonup> la_settings" where
  "la_get t r = map_option la_settings_of (slot_map la_used la_rnti t r)"

definition la_put :: "u16 \<Rightarrow> la_settings \<Rightarrow> la_table \<Rightarrow> la_table" where
  "la_put r v t = la_store (la_line_of r v) t"

lemmas la_record_defs = la_settings_of_def la_settings.defs la_line.defs rk_ue_la_entry_t.defs

lemma la_settings_of_id [simp]: "la_settings_of (v :: la_settings) = v"
  by (simp add: la_settings_of_def)

lemma la_settings_of_entry [simp]: "la_settings_of (la_entry r v) = v"
  by (simp add: la_entry_def la_record_defs)

lemma la_entry_key [simp]: "la_used (la_entry r v)" "la_rnti (la_entry r v) = r"
    "la_valid (la_entry r v) = 1"
  by (simp_all add: la_entry_def la_used_def la_record_defs)

lemma la_find_eq:
  "first_index (\<lambda>e. la_valid e \<noteq> 0 \<and> la_rnti e = r) t = slot_find la_used la_rnti t r"
  "first_index (\<lambda>e. la_valid e = 0) t = slot_free la_used t"
  by (simp_all add: slot_find_def slot_free_def la_used_def)

lemma get_entry_eq: "rk_ue_la_get_entry t r = slot_map la_used la_rnti t r"
  by (simp add: rk_ue_la_get_entry_def slot_map_def la_find_eq)

text \<open>Writing every field of a slot gives the entry, whatever the slot held.\<close>

lemma la_entry_fill:
  "e\<lparr>la_valid := 1, la_rnti := r, ul_max_mcs := ul_max_mcs l, min_grant_prb := min_grant_prb l,
     ulsch_max_frame_inactivity := ulsch_max_frame_inactivity l,
     pusch_target_snrx10 := pusch_target_snrx10 l, ul_sched_mul := ul_sched_mul l,
     ul_maxcg_override := ul_maxcg_override l, ul_small_burst_bytes := ul_small_burst_bytes l,
     ul_small_burst_mul := ul_small_burst_mul l\<rparr> = la_entry r (la_settings_of l)"
  by (cases e) (simp add: la_entry_def la_record_defs)

lemma la_entry_refill:
  "la_valid e = 1 \<Longrightarrow> e\<lparr>ul_max_mcs := ul_max_mcs l, min_grant_prb := min_grant_prb l,
     ulsch_max_frame_inactivity := ulsch_max_frame_inactivity l,
     pusch_target_snrx10 := pusch_target_snrx10 l, ul_sched_mul := ul_sched_mul l,
     ul_maxcg_override := ul_maxcg_override l, ul_small_burst_bytes := ul_small_burst_bytes l,
     ul_small_burst_mul := ul_small_burst_mul l\<rparr> = la_entry (la_rnti e) (la_settings_of l)"
  by (cases e) (simp add: la_entry_def la_record_defs)

lemma store_eq_slot_put:
  assumes "la_inv t"
  shows "la_store l t = slot_put la_used la_rnti t (to_u16 (line_rnti l))
    (la_entry (to_u16 (line_rnti l)) (la_settings_of l))"
proof (cases "slot_find la_used la_rnti t (to_u16 (line_rnti l))")
  case None
  then show ?thesis
    by (cases "slot_free la_used t")
      (use slot_free_SomeD [of la_used t] in \<open>auto simp: la_store_def rk_ue_la_alloc_def
        rk_ue_la_find_mut_def la_find_eq slot_put_def la_entry_fill\<close>)
next
  case (Some i)
  note i = slot_find_SomeD [OF Some]
  then have "la_valid (t ! i) = 1"
    using assms nth_mem [of i t] by (force simp: la_inv_def la_used_def)
  with i show ?thesis
    by (simp add: Some la_store_def rk_ue_la_alloc_def rk_ue_la_find_mut_def la_find_eq
        slot_put_def la_entry_refill)
qed

lemma store_eq_put: "la_inv t \<Longrightarrow> la_store l t = la_put (to_u16 (line_rnti l)) (la_settings_of l) t"
  by (simp add: la_put_def store_eq_slot_put la_line_of_def la_record_defs to_u16_uint)

lemma la_line_of_simps [simp]: "line_rnti (la_line_of r v) = uint r" "la_settings_of (la_line_of r v) = v"
  by (simp_all add: la_line_of_def la_record_defs)

lemma put_eq_slot_put: "la_inv t \<Longrightarrow> la_put r v t = slot_put la_used la_rnti t r (la_entry r v)"
  by (simp add: la_put_def store_eq_slot_put to_u16_uint)

lemma dom_la_get: "dom (la_get t) = dom (slot_map la_used la_rnti t)"
  by (auto simp: la_get_def dom_def)

interpretation la: rnti_store la_inv la_get la_put RK_UE_LA_MAX
proof unfold_locales
  fix s r v
  assume inv: "la_inv s"
  then have u: "slots_unique la_used la_rnti s" and len: "length s = RK_UE_LA_MAX"
    by (simp_all add: la_inv_def)
  have sub: "set (slot_put la_used la_rnti s r (la_entry r v)) \<subseteq> insert (la_entry r v) (set s)"
    by (auto simp: slot_put_def split: option.splits dest!: set_update_subset_insert [THEN subsetD])
  show "la_inv (la_put r v s)"
    using inv sub slots_unique_put [OF u la_entry_key(1,2)]
    by (auto simp: la_inv_def put_eq_slot_put [OF inv] dest!: subsetD)
  show "la_get (la_put r v s) =
    (if la_get s r \<noteq> None \<or> card (dom (la_get s)) < RK_UE_LA_MAX then (la_get s)(r \<mapsto> v)
     else la_get s)"
    unfolding dom_la_get using slot_map_put [OF u la_entry_key(1,2), of r v]
    by (auto simp: la_get_def put_eq_slot_put [OF inv] len fun_eq_iff)
next
  fix s
  assume "la_inv s"
  then show "finite (dom (la_get s))" and "card (dom (la_get s)) \<le> RK_UE_LA_MAX"
    using card_dom_slot_map_le [of la_used la_rnti s]
    by (simp_all add: dom_la_get finite_dom_slot_map la_inv_def)
qed

section \<open>What a reload computes\<close>

lemma la_zero_unused [simp]: "\<not> la_used la_zero" "la_valid la_zero = 0"
  by (simp_all add: la_zero_def la_used_def)

lemma la_inv_replicate: "la_inv (replicate RK_UE_LA_MAX la_zero)"
  by (auto simp: la_inv_def intro!: slots_unique_unused)

lemma clear_eq: "la_inv t \<Longrightarrow> rk_ue_la_clear_all t = replicate RK_UE_LA_MAX la_zero"
  by (simp add: rk_ue_la_clear_all_def la_inv_def)

lemma la_get_replicate: "la_get (replicate n la_zero) = Map.empty"
  by (auto simp: la_get_def fun_eq_iff slot_map_None)

text \<open>The bindings that the lines of a file ask for, in file order.\<close>

definition la_bindings :: "string list \<Rightarrow> (u16 \<times> la_settings) list" where
  "la_bindings lines =
     map (\<lambda>l. (to_u16 (line_rnti l), la_settings_of l)) (List.map_filter la_parse_line lines)"

lemma la_bindings_simps [simp]:
  "la_bindings [] = []"
  "la_bindings (x # xs) = (case la_parse_line x of None \<Rightarrow> la_bindings xs
     | Some l \<Rightarrow> (to_u16 (line_rnti l), la_settings_of l) # la_bindings xs)"
  by (simp_all add: la_bindings_def List.map_filter_simps split: option.splits)

lemma fold_la_step:
  "la_inv t \<Longrightarrow> fold la_step lines t = fold (\<lambda>(r, v). la_put r v) (la_bindings lines) t"
  by (induction lines arbitrary: t)
    (auto simp: la_step_def store_eq_put la.inv_put split: option.splits)

definition la_file_bindings :: "string \<Rightarrow> (u16 \<times> la_settings) list" where
  "la_file_bindings content = la_bindings (fgets_all 510 content)"

lemma reload_table:
  assumes "la_inv t"
  shows "la_inv (fold la_step (fgets_all 510 content) (rk_ue_la_clear_all t))"
    and "card (fst ` set (la_file_bindings content)) \<le> RK_UE_LA_MAX \<Longrightarrow>
      la_get (fold la_step (fgets_all 510 content) (rk_ue_la_clear_all t)) =
        map_of (rev (la_file_bindings content))"
  using la.inv_fold [OF la_inv_replicate] la.get_fold [OF la_inv_replicate]
  by (auto simp: clear_eq [OF assms] fold_la_step [OF la_inv_replicate] la_file_bindings_def
      la_get_replicate)

lemma reload_cases:
  "rk_ue_la_reload_if_needed now stat file s =
    (if now - g_last_check_ms s < 100 then s
     else case (stat, file) of
        (Some (sec, nsec), Some content) \<Rightarrow>
          if sec = g_last_mtime_sec s \<and> nsec = g_last_mtime_nsec s
          then s\<lparr>g_last_check_ms := now\<rparr>
          else s\<lparr>g_tbl := fold la_step (fgets_all 510 content) (rk_ue_la_clear_all (g_tbl s)),
                 g_last_mtime_sec := sec, g_last_mtime_nsec := nsec, g_last_check_ms := now\<rparr>
      | _ \<Rightarrow> s\<lparr>g_last_check_ms := now\<rparr>)"
  by (auto simp: rk_ue_la_reload_if_needed_def Let_def split: option.splits)

lemma la_state_init_inv: "la_inv (g_tbl la_state_init)"
  by (simp add: la_state_init_def la_inv_replicate)

section \<open>Properties\<close>

text \<open>
  C14. A reload that is due, with a readable file whose modification time has changed, replaces
  the table by exactly what the file says: an RNTI is bound to the settings of its last good line
  and an RNTI without a good line is unbound (unless the file names more than 256 RNTIs), nothing
  of the old table survives, and the table stays well formed.
\<close>

theorem la_reload_replaces:
  assumes "la_inv (g_tbl s)" and "100 \<le> now - g_last_check_ms s"
    and "sec \<noteq> g_last_mtime_sec s \<or> nsec \<noteq> g_last_mtime_nsec s"
    and "card (fst ` set (la_file_bindings content)) \<le> 256"
  shows "la_inv (g_tbl (rk_ue_la_reload_if_needed now (Some (sec, nsec)) (Some content) s)) \<and>
    la_get (g_tbl (rk_ue_la_reload_if_needed now (Some (sec, nsec)) (Some content) s)) =
      map_of (rev (la_file_bindings content))"
  using reload_table [OF assms(1), of content] assms(2-4)
  by (auto simp: reload_cases RK_UE_LA_MAX_def)

theorem la_reload_replaces_witness:
  "map_option ul_max_mcs (la_get (g_tbl (rk_ue_la_reload_if_needed 5000 (Some (17, 3))
     (Some (''rnti=9 ul_max_mcs=4'' @ [nl])) la_state_init)) 9) = Some 4"
proof -
  let ?f = "''rnti=9 ul_max_mcs=4'' @ [nl]"
  have "map (\<lambda>(r, v). (r, ul_max_mcs v)) (la_file_bindings ?f) = [(9, 4)]"
    by code_simp
  then obtain v where v: "la_file_bindings ?f = [(9, v)]" "ul_max_mcs v = 4"
    by (cases "la_file_bindings ?f") auto
  then show ?thesis
    using la_reload_replaces [OF la_state_init_inv, of 5000 17 3 ?f] by (simp add: la_state_init_def)
qed

text \<open>
  A reload never destroys the table when it cannot replace it: while throttled, with the file
  missing or unreadable, or with an unchanged modification time, all entries stay; a second reload
  with the same modification time changes no entry whatever the file holds by then.
\<close>

lemma la_reload_keeps:
  "(now - g_last_check_ms s < 100 \<longrightarrow> rk_ue_la_reload_if_needed now stat file s = s) \<and>
   (stat = None \<or> file = None \<longrightarrow> g_tbl (rk_ue_la_reload_if_needed now stat file s) = g_tbl s) \<and>
   (stat = Some (g_last_mtime_sec s, g_last_mtime_nsec s) \<longrightarrow>
      g_tbl (rk_ue_la_reload_if_needed now stat file s) = g_tbl s) \<and>
   (100 \<le> now - g_last_check_ms s \<longrightarrow> file \<noteq> None \<longrightarrow>
      g_tbl (rk_ue_la_reload_if_needed now' stat file' (rk_ue_la_reload_if_needed now stat file s))
        = g_tbl (rk_ue_la_reload_if_needed now stat file s))"
  by (auto simp: reload_cases split: option.splits prod.splits)

text \<open>
  Whatever the state file contains, the values the uplink scheduler reads are usable: the
  maximum MCS lies between 0 and the table's maximum, the grant size, the override of consecutive
  grants and the burst size are the default or positive, the inactivity and the target SNR are the
  default or not negative, and the two multipliers are the default or positive and not NaN.
\<close>

lemma la_getters_safe:
  assumes "0 \<le> max_mcs_table"
  shows "(let v = rk_ue_la_get_ul_max_mcs t r d max_mcs_table in 0 \<le> v \<and> v \<le> max_mcs_table) \<and>
    (rk_ue_la_get_min_grant_prb t r d = d \<or> 0 < rk_ue_la_get_min_grant_prb t r d) \<and>
    (rk_ue_la_get_ulsch_max_frame_inactivity t r d = d \<or>
      0 \<le> rk_ue_la_get_ulsch_max_frame_inactivity t r d) \<and>
    (rk_ue_la_get_pusch_target_snrx10 t r d = d \<or> 0 \<le> rk_ue_la_get_pusch_target_snrx10 t r d) \<and>
    (rk_ue_la_get_ul_maxcg_override t r d = d \<or> 0 < rk_ue_la_get_ul_maxcg_override t r d) \<and>
    (rk_ue_la_get_ul_small_burst_bytes t r d = d \<or> 0 < rk_ue_la_get_ul_small_burst_bytes t r d) \<and>
    (rk_ue_la_get_ul_sched_mul t r x = x \<or> fl_lt fl_zero (rk_ue_la_get_ul_sched_mul t r x)) \<and>
    (rk_ue_la_get_ul_small_burst_mul t r x = x \<or>
      fl_lt fl_zero (rk_ue_la_get_ul_small_burst_mul t r x))"
  using assms
  by (auto simp: rk_ue_la_get_ul_max_mcs_def rk_ue_la_get_min_grant_prb_def
      rk_ue_la_get_ulsch_max_frame_inactivity_def rk_ue_la_get_pusch_target_snrx10_def
      rk_ue_la_get_ul_maxcg_override_def rk_ue_la_get_ul_small_burst_bytes_def
      rk_ue_la_get_ul_sched_mul_def rk_ue_la_get_ul_small_burst_mul_def Let_def
      split: option.splits)

end
