(* ===== verification/UeDlPolicy.thy ===== *)
theory UeDlPolicy imports SlotTable CString begin

text \<open>
  The downlink overrides of single UEs, \<^verbatim>\<open>gnb_patch/rk_ue_dl_policy.c\<close>: a table of 128 slots,
  reloaded when the state file's modification time (in seconds) or size has changed, and the
  getters the downlink scheduler calls.  \<^verbatim>\<open>stat\<close> and the content behind \<^verbatim>\<open>fopen\<close> are arguments
  of the reload.
\<close>

section \<open>Data\<close>

text \<open>The six settings come first here; the C struct has the used flag and the RNTI first.\<close>

record dl_settings =
  dl_max_mcs :: int
  dl_min_grant_prb :: int
  dl_sched_mul :: fl
  dl_maxcg_override :: int
  dl_small_burst_bytes :: int
  dl_small_burst_mul :: fl

record rk_ue_dl_entry_t = dl_settings +
  dl_used :: int
  dl_rnti :: u16

type_synonym dl_table = "rk_ue_dl_entry_t list"

record dl_state =
  g_rk_ue_dl_tbl :: dl_table
  g_rk_ue_dl_mtime :: int
  g_rk_ue_dl_size :: int
  g_rk_ue_dl_loaded :: int

definition RK_UE_DL_MAX :: nat where
  "RK_UE_DL_MAX = 128"

definition dl_zero :: rk_ue_dl_entry_t where
  "dl_zero = \<lparr>dl_max_mcs = 0, dl_min_grant_prb = 0, dl_sched_mul = fl_zero,
     dl_maxcg_override = 0, dl_small_burst_bytes = 0, dl_small_burst_mul = fl_zero,
     dl_used = 0, dl_rnti = 0\<rparr>"

definition dl_state_init :: dl_state where
  "dl_state_init = \<lparr>g_rk_ue_dl_tbl = replicate RK_UE_DL_MAX dl_zero, g_rk_ue_dl_mtime = 0,
     g_rk_ue_dl_size = 0, g_rk_ue_dl_loaded = 0\<rparr>"

section \<open>The table\<close>

definition rk_ue_dl_reset_entry :: "rk_ue_dl_entry_t \<Rightarrow> rk_ue_dl_entry_t" where
  "rk_ue_dl_reset_entry e = e\<lparr>dl_used := 0, dl_rnti := 0, dl_max_mcs := -1, dl_min_grant_prb := -1,
     dl_sched_mul := f32 (-1), dl_maxcg_override := -1, dl_small_burst_bytes := -1,
     dl_small_burst_mul := f32 (-1)\<rparr>"

definition rk_ue_dl_reset_tbl :: "dl_table \<Rightarrow> dl_table" where
  "rk_ue_dl_reset_tbl t = map rk_ue_dl_reset_entry t"

text \<open>
  One pass over the table that returns at a match and remembers the first free slot; the result is
  the index of the match or, failing that, of the free slot (\<open>Inl\<close>, \<open>Inr\<close>).
\<close>

fun dl_scan :: "dl_table \<Rightarrow> u16 \<Rightarrow> nat \<Rightarrow> nat option \<Rightarrow> nat + nat option" where
  "dl_scan [] rnti i free_slot = Inr free_slot"
| "dl_scan (e # es) rnti i free_slot =
     (if dl_used e \<noteq> 0 \<and> dl_rnti e = rnti then Inl i
      else dl_scan es rnti (Suc i)
             (if \<not> dl_used e \<noteq> 0 \<and> free_slot = None then Some i else free_slot))"

definition rk_ue_dl_find_or_alloc :: "dl_table \<Rightarrow> u16 \<Rightarrow> dl_table \<times> nat option" where
  "rk_ue_dl_find_or_alloc t rnti =
     (case dl_scan t rnti 0 None of
        Inl i \<Rightarrow> (t, Some i)
      | Inr None \<Rightarrow> (t, None)
      | Inr (Some i) \<Rightarrow>
          (t[i := (t ! i)\<lparr>dl_used := 1, dl_rnti := rnti, dl_max_mcs := -1, dl_min_grant_prb := -1,
              dl_sched_mul := f32 (-1), dl_maxcg_override := -1, dl_small_burst_bytes := -1,
              dl_small_burst_mul := f32 (-1)\<rparr>], Some i))"

definition rk_ue_dl_find :: "dl_table \<Rightarrow> u16 \<Rightarrow> rk_ue_dl_entry_t option" where
  "rk_ue_dl_find t rnti = map_option ((!) t) (first_index (\<lambda>e. dl_used e \<noteq> 0 \<and> dl_rnti e = rnti) t)"

section \<open>The state file\<close>

definition dl_token :: "string \<Rightarrow> rk_ue_dl_entry_t \<times> int \<Rightarrow> rk_ue_dl_entry_t \<times> int" where
  "dl_token tok st =
     (case st of (e, saw_rnti) \<Rightarrow>
      if has_prefix ''rnti='' tok then
        (e\<lparr>dl_rnti := to_u16 (strtoul10 (drop 5 tok)), dl_used := 1\<rparr>, 1)
      else if has_prefix ''dl_max_mcs='' tok then (e\<lparr>dl_max_mcs := atoi (drop 11 tok)\<rparr>, saw_rnti)
      else if has_prefix ''dl_min_grant_prb='' tok then
        (e\<lparr>dl_min_grant_prb := atoi (drop 17 tok)\<rparr>, saw_rnti)
      else if has_prefix ''dl_sched_mul='' tok then
        (e\<lparr>dl_sched_mul := atof32 (drop 13 tok)\<rparr>, saw_rnti)
      else if has_prefix ''dl_maxcg_override='' tok then
        (e\<lparr>dl_maxcg_override := atoi (drop 18 tok)\<rparr>, saw_rnti)
      else if has_prefix ''dl_small_burst_bytes='' tok then
        (e\<lparr>dl_small_burst_bytes := atoi (drop 21 tok)\<rparr>, saw_rnti)
      else if has_prefix ''dl_small_burst_mul='' tok then
        (e\<lparr>dl_small_burst_mul := atof32 (drop 19 tok)\<rparr>, saw_rnti)
      else (e, saw_rnti))"

definition dl_entry_init :: rk_ue_dl_entry_t where
  "dl_entry_init = \<lparr>dl_max_mcs = -1, dl_min_grant_prb = -1, dl_sched_mul = f32 (-1),
     dl_maxcg_override = -1, dl_small_burst_bytes = -1, dl_small_burst_mul = f32 (-1),
     dl_used = 0, dl_rnti = 0\<rparr>"

definition rk_ue_dl_parse_line :: "string \<Rightarrow> rk_ue_dl_entry_t option" where
  "rk_ue_dl_parse_line line =
     (case fold dl_token (strtok_all line) (dl_entry_init, 0) of
        (e, saw_rnti) \<Rightarrow> if saw_rnti = 0 then None else Some e)"

definition dl_parse_buf :: "string \<Rightarrow> rk_ue_dl_entry_t option" where
  "dl_parse_buf buf =
     (let p = dropWhile (\<lambda>c. c = CHR '' '' \<or> ccode c = 9) buf in
      if take 1 p = ''#'' \<or> take 1 p = [nl] \<or> p = [] then None else rk_ue_dl_parse_line p)"

definition dl_step :: "string \<Rightarrow> dl_table \<Rightarrow> dl_table" where
  "dl_step buf t =
     (case dl_parse_buf buf of
        None \<Rightarrow> t
      | Some tmp \<Rightarrow>
          (case rk_ue_dl_find_or_alloc t (dl_rnti tmp) of
             (t', None) \<Rightarrow> t'
           | (t', Some i) \<Rightarrow> t'[i := tmp]))"

text \<open>\<open>stat\<close> is the modification time in seconds and the size.\<close>

definition rk_ue_dl_reload_if_needed ::
    "bool \<Rightarrow> (int \<times> int) option \<Rightarrow> string option \<Rightarrow> dl_state \<Rightarrow> dl_state" where
  "rk_ue_dl_reload_if_needed path_null stat file s =
     (if path_null then s
      else case stat of
        None \<Rightarrow> s
      | Some (mtime, sz) \<Rightarrow>
          if g_rk_ue_dl_loaded s \<noteq> 0 \<and> mtime = g_rk_ue_dl_mtime s \<and> sz = g_rk_ue_dl_size s then s
          else case file of
                 None \<Rightarrow> s
               | Some content \<Rightarrow>
                   \<lparr>g_rk_ue_dl_tbl =
                      fold dl_step (fgets_all 510 content) (rk_ue_dl_reset_tbl (g_rk_ue_dl_tbl s)),
                    g_rk_ue_dl_mtime = mtime, g_rk_ue_dl_size = sz, g_rk_ue_dl_loaded = 1\<rparr>)"

section \<open>Getters\<close>

definition rk_ue_dl_get_max_mcs :: "dl_table \<Rightarrow> u16 \<Rightarrow> int \<Rightarrow> int" where
  "rk_ue_dl_get_max_mcs t rnti default_val =
     (case rk_ue_dl_find t rnti of
        None \<Rightarrow> default_val
      | Some e \<Rightarrow> if dl_max_mcs e < 0 then default_val else dl_max_mcs e)"

definition rk_ue_dl_get_min_grant_prb :: "dl_table \<Rightarrow> u16 \<Rightarrow> int \<Rightarrow> int" where
  "rk_ue_dl_get_min_grant_prb t rnti default_val =
     (case rk_ue_dl_find t rnti of
        None \<Rightarrow> default_val
      | Some e \<Rightarrow> if dl_min_grant_prb e < 0 then default_val else dl_min_grant_prb e)"

definition rk_ue_dl_get_sched_mul :: "dl_table \<Rightarrow> u16 \<Rightarrow> fl \<Rightarrow> fl" where
  "rk_ue_dl_get_sched_mul t rnti default_val =
     (case rk_ue_dl_find t rnti of
        None \<Rightarrow> default_val
      | Some e \<Rightarrow> if fl_le (dl_sched_mul e) fl_zero then default_val else dl_sched_mul e)"

definition rk_ue_dl_get_maxcg_override :: "dl_table \<Rightarrow> u16 \<Rightarrow> int \<Rightarrow> int" where
  "rk_ue_dl_get_maxcg_override t rnti default_val =
     (case rk_ue_dl_find t rnti of
        None \<Rightarrow> default_val
      | Some e \<Rightarrow> if dl_maxcg_override e \<le> 0 then default_val else dl_maxcg_override e)"

definition rk_ue_dl_get_small_burst_bytes :: "dl_table \<Rightarrow> u16 \<Rightarrow> int \<Rightarrow> int" where
  "rk_ue_dl_get_small_burst_bytes t rnti default_val =
     (case rk_ue_dl_find t rnti of
        None \<Rightarrow> default_val
      | Some e \<Rightarrow> if dl_small_burst_bytes e \<le> 0 then default_val else dl_small_burst_bytes e)"

definition rk_ue_dl_get_small_burst_mul :: "dl_table \<Rightarrow> u16 \<Rightarrow> fl \<Rightarrow> fl" where
  "rk_ue_dl_get_small_burst_mul t rnti default_val =
     (case rk_ue_dl_find t rnti of
        None \<Rightarrow> default_val
      | Some e \<Rightarrow> if fl_le (dl_small_burst_mul e) fl_zero then default_val else dl_small_burst_mul e)"

section \<open>The table is a bounded store of settings\<close>

definition dl_in_use :: "rk_ue_dl_entry_t \<Rightarrow> bool" where
  "dl_in_use e \<longleftrightarrow> dl_used e \<noteq> 0"

definition dl_inv :: "dl_table \<Rightarrow> bool" where
  "dl_inv t \<longleftrightarrow> length t = RK_UE_DL_MAX \<and> slots_unique dl_in_use dl_rnti t"

definition dl_settings_of :: "rk_ue_dl_entry_t \<Rightarrow> dl_settings" where
  "dl_settings_of e = dl_settings.truncate e"

definition dl_entry :: "u16 \<Rightarrow> dl_settings \<Rightarrow> rk_ue_dl_entry_t" where
  "dl_entry r v = dl_settings.extend v \<lparr>dl_used = 1, dl_rnti = r\<rparr>"

definition dl_get :: "dl_table \<Rightarrow> u16 \<rightharpoonup> dl_settings" where
  "dl_get t r = map_option dl_settings_of (slot_map dl_in_use dl_rnti t r)"

definition dl_store :: "rk_ue_dl_entry_t \<Rightarrow> dl_table \<Rightarrow> dl_table" where
  "dl_store tmp t = (case rk_ue_dl_find_or_alloc t (dl_rnti tmp) of
     (t', None) \<Rightarrow> t' | (t', Some i) \<Rightarrow> t'[i := tmp])"

definition dl_put :: "u16 \<Rightarrow> dl_settings \<Rightarrow> dl_table \<Rightarrow> dl_table" where
  "dl_put r v t = dl_store (dl_entry r v) t"

lemmas dl_record_defs = dl_settings_of_def dl_settings.defs rk_ue_dl_entry_t.defs

lemma dl_settings_of_entry [simp]: "dl_settings_of (dl_entry r v) = v"
  by (simp add: dl_entry_def dl_record_defs)

lemma dl_entry_key [simp]: "dl_in_use (dl_entry r v)" "dl_rnti (dl_entry r v) = r"
  by (simp_all add: dl_entry_def dl_in_use_def dl_record_defs)

lemma dl_entry_of: "dl_used e = 1 \<Longrightarrow> e = dl_entry (dl_rnti e) (dl_settings_of e)"
  by (cases e) (simp add: dl_entry_def dl_record_defs)

lemma dl_find_eq: "first_index (\<lambda>e. dl_used e \<noteq> 0 \<and> dl_rnti e = r) t = slot_find dl_in_use dl_rnti t r"
  by (simp add: slot_find_def dl_in_use_def)

text \<open>The single pass finds what two separate passes find.\<close>

lemma dl_scan_eq:
  "dl_scan t r k free =
    (case slot_find dl_in_use dl_rnti t r of
       Some i \<Rightarrow> Inl (k + i)
     | None \<Rightarrow> Inr (case free of Some f \<Rightarrow> Some f
         | None \<Rightarrow> (case slot_free dl_in_use t of Some i \<Rightarrow> Some (k + i) | None \<Rightarrow> None)))"
  by (induction t arbitrary: k free)
    (auto simp: slot_find_def slot_free_def dl_in_use_def option.map_comp comp_def
      split: option.splits)

lemma dl_store_eq: "dl_store tmp t = slot_put dl_in_use dl_rnti t (dl_rnti tmp) tmp"
  by (auto simp: dl_store_def rk_ue_dl_find_or_alloc_def dl_scan_eq slot_put_def option.map_ident
      split: option.splits)

lemma dl_put_eq: "dl_put r v t = slot_put dl_in_use dl_rnti t r (dl_entry r v)"
  by (simp add: dl_put_def dl_store_eq)

lemma dom_dl_get: "dom (dl_get t) = dom (slot_map dl_in_use dl_rnti t)"
  by (auto simp: dl_get_def dom_def)

interpretation dl: rnti_store dl_inv dl_get dl_put RK_UE_DL_MAX
proof unfold_locales
  fix s r v
  assume "dl_inv s"
  then have u: "slots_unique dl_in_use dl_rnti s" and len: "length s = RK_UE_DL_MAX"
    by (simp_all add: dl_inv_def)
  show "dl_inv (dl_put r v s)"
    using slots_unique_put [OF u dl_entry_key] by (simp add: dl_inv_def dl_put_eq len)
  show "dl_get (dl_put r v s) =
    (if dl_get s r \<noteq> None \<or> card (dom (dl_get s)) < RK_UE_DL_MAX then (dl_get s)(r \<mapsto> v)
     else dl_get s)"
    unfolding dom_dl_get using slot_map_put [OF u dl_entry_key, of r v]
    by (auto simp: dl_get_def dl_put_eq len fun_eq_iff)
next
  fix s
  assume "dl_inv s"
  then show "finite (dom (dl_get s))" and "card (dom (dl_get s)) \<le> RK_UE_DL_MAX"
    using card_dom_slot_map_le [of dl_in_use dl_rnti s]
    by (simp_all add: dom_dl_get finite_dom_slot_map dl_inv_def)
qed

section \<open>What a reload computes\<close>

lemma dl_token_used:
  assumes "snd st = 0 \<or> dl_used (fst st) = 1"
  shows "snd (dl_token tok st) = 0 \<or> dl_used (fst (dl_token tok st)) = 1"
  using assms unfolding dl_token_def by (cases st) simp

lemma parse_line_used: "rk_ue_dl_parse_line line = Some e \<Longrightarrow> dl_used e = 1"
proof -
  have "snd (fold dl_token ts st) = 0 \<or> dl_used (fst (fold dl_token ts st)) = 1"
    if "snd st = 0 \<or> dl_used (fst st) = 1" for ts st
    using that by (induction ts arbitrary: st) (simp_all add: dl_token_used)
  from this [of "(dl_entry_init, 0)" "strtok_all line"]
  show "rk_ue_dl_parse_line line = Some e \<Longrightarrow> dl_used e = 1"
    by (auto simp: rk_ue_dl_parse_line_def split: prod.splits if_splits)
qed

lemma parse_buf_used: "dl_parse_buf buf = Some e \<Longrightarrow> dl_used e = 1"
  by (auto simp: dl_parse_buf_def Let_def parse_line_used split: if_splits)

definition dl_bindings :: "string list \<Rightarrow> (u16 \<times> dl_settings) list" where
  "dl_bindings lines = map (\<lambda>e. (dl_rnti e, dl_settings_of e)) (List.map_filter dl_parse_buf lines)"

definition dl_file_bindings :: "string \<Rightarrow> (u16 \<times> dl_settings) list" where
  "dl_file_bindings content = dl_bindings (fgets_all 510 content)"

lemma dl_bindings_simps [simp]:
  "dl_bindings [] = []"
  "dl_bindings (x # xs) = (case dl_parse_buf x of None \<Rightarrow> dl_bindings xs
     | Some e \<Rightarrow> (dl_rnti e, dl_settings_of e) # dl_bindings xs)"
  by (simp_all add: dl_bindings_def List.map_filter_simps split: option.splits)

lemma dl_step_eq:
  "dl_step buf t = (case dl_parse_buf buf of None \<Rightarrow> t | Some e \<Rightarrow> dl_put (dl_rnti e) (dl_settings_of e) t)"
  using dl_entry_of parse_buf_used
  by (auto simp: dl_step_def dl_put_def dl_store_def split: option.splits)

lemma fold_dl_step: "fold dl_step lines t = fold (\<lambda>(r, v). dl_put r v) (dl_bindings lines) t"
  by (induction lines arbitrary: t) (auto simp: dl_step_eq split: option.splits)

lemma reset_unused: "e \<in> set (rk_ue_dl_reset_tbl t) \<Longrightarrow> \<not> dl_in_use e"
  by (auto simp: rk_ue_dl_reset_tbl_def rk_ue_dl_reset_entry_def dl_in_use_def)

lemma reset_inv: "length t = RK_UE_DL_MAX \<Longrightarrow> dl_inv (rk_ue_dl_reset_tbl t)"
  using reset_unused by (auto simp: dl_inv_def intro!: slots_unique_unused) (simp add: rk_ue_dl_reset_tbl_def)

lemma reset_get: "dl_get (rk_ue_dl_reset_tbl t) = Map.empty"
  using reset_unused by (auto simp: dl_get_def fun_eq_iff slot_map_None)

lemma dl_reload_table:
  assumes "dl_inv t"
  shows "dl_inv (fold dl_step lines (rk_ue_dl_reset_tbl t))"
    and "card (fst ` set (dl_bindings lines)) \<le> RK_UE_DL_MAX \<Longrightarrow>
      dl_get (fold dl_step lines (rk_ue_dl_reset_tbl t)) = map_of (rev (dl_bindings lines))"
proof -
  have inv: "dl_inv (rk_ue_dl_reset_tbl t)" using assms by (intro reset_inv) (simp add: dl_inv_def)
  then show "dl_inv (fold dl_step lines (rk_ue_dl_reset_tbl t))"
    by (simp add: fold_dl_step dl.inv_fold)
  show "card (fst ` set (dl_bindings lines)) \<le> RK_UE_DL_MAX \<Longrightarrow>
      dl_get (fold dl_step lines (rk_ue_dl_reset_tbl t)) = map_of (rev (dl_bindings lines))"
    using dl.get_fold [OF inv, of "dl_bindings lines"] by (simp add: fold_dl_step reset_get)
qed

lemma dl_state_init_inv: "dl_inv (g_rk_ue_dl_tbl dl_state_init)"
  by (auto simp: dl_state_init_def dl_inv_def dl_zero_def dl_in_use_def intro!: slots_unique_unused)

lemma nan_line_leaks:
  "rk_ue_dl_get_sched_mul
     (fold dl_step (fgets_all 510 ''rnti=9 dl_sched_mul=nan'') (g_rk_ue_dl_tbl dl_state_init)) 9 x
     = FNaN"
proof -
  define bufs where "bufs = fgets_all 510 ''rnti=9 dl_sched_mul=nan''"
  have "map (\<lambda>(r, v). (r, dl_sched_mul v)) (dl_bindings bufs) = [(9, FNaN)]"
    unfolding bufs_def by code_simp
  then obtain v where v: "dl_bindings bufs = [(9, v)]" "dl_sched_mul v = FNaN"
    by (cases "dl_bindings bufs") auto
  have g: "dl_get (g_rk_ue_dl_tbl dl_state_init) = Map.empty"
    by (auto simp: dl_get_def fun_eq_iff slot_map_None dl_state_init_def dl_zero_def dl_in_use_def)
  define t where "t = fold dl_step bufs (g_rk_ue_dl_tbl dl_state_init)"
  have "dl_get t 9 = Some v"
    unfolding t_def fold_dl_step v(1)
    using dl.get_put [OF dl_state_init_inv, of 9 v] by (simp add: g RK_UE_DL_MAX_def)
  then obtain e where "rk_ue_dl_find t 9 = Some e" and "dl_settings_of e = v"
    by (auto simp: rk_ue_dl_find_def dl_find_eq dl_get_def slot_map_def)
  then have "rk_ue_dl_get_sched_mul t 9 x = FNaN"
    using v(2) by (auto simp: rk_ue_dl_get_sched_mul_def dl_record_defs fl_le_def)
  then show ?thesis by (simp add: t_def bufs_def)
qed

lemma fl_getter_dest: "\<not> fl_le v fl_zero \<Longrightarrow> v = FNaN \<or> fl_lt fl_zero v"
  by (auto simp: fl_le_def fl_zero_def)

section \<open>Properties\<close>

text \<open>
  A downlink reload with a readable file and a new modification time or size replaces the
  table by what the file says: the last good line of an RNTI gives its settings, an RNTI without
  a good line is unbound (unless the file names more than 128 RNTIs), and the table stays well
  formed; the same \<^verbatim>\<open>stat\<close> later changes nothing, whatever the file holds by then.
\<close>

lemma dl_reload_replaces:
  assumes "dl_inv (g_rk_ue_dl_tbl s)"
    and "g_rk_ue_dl_loaded s = 0 \<or> mtime \<noteq> g_rk_ue_dl_mtime s \<or> sz \<noteq> g_rk_ue_dl_size s"
    and "card (fst ` set (dl_file_bindings content)) \<le> 128"
  shows "let s' = rk_ue_dl_reload_if_needed False (Some (mtime, sz)) (Some content) s in
    dl_inv (g_rk_ue_dl_tbl s') \<and>
    dl_get (g_rk_ue_dl_tbl s') = map_of (rev (dl_file_bindings content)) \<and>
    rk_ue_dl_reload_if_needed False (Some (mtime, sz)) file s' = s'"
  using dl_reload_table [OF assms(1), of "fgets_all 510 content"] assms(2,3)
  by (auto simp: rk_ue_dl_reload_if_needed_def RK_UE_DL_MAX_def dl_file_bindings_def Let_def)

text \<open>
  The downlink getters are weaker than the uplink ones: the integers are the default or not
  negative (positive for the override and the burst size), but a multiplier is the default, or
  positive, or NaN: a NaN in the file passes the test \<^verbatim>\<open><= 0.0f\<close> and reaches the scheduler.
\<close>

lemma dl_getters_range:
  "(rk_ue_dl_get_max_mcs t r d = d \<or> 0 \<le> rk_ue_dl_get_max_mcs t r d) \<and>
   (rk_ue_dl_get_min_grant_prb t r d = d \<or> 0 \<le> rk_ue_dl_get_min_grant_prb t r d) \<and>
   (rk_ue_dl_get_maxcg_override t r d = d \<or> 0 < rk_ue_dl_get_maxcg_override t r d) \<and>
   (rk_ue_dl_get_small_burst_bytes t r d = d \<or> 0 < rk_ue_dl_get_small_burst_bytes t r d) \<and>
   (rk_ue_dl_get_sched_mul t r x = x \<or> rk_ue_dl_get_sched_mul t r x = FNaN \<or>
      fl_lt fl_zero (rk_ue_dl_get_sched_mul t r x)) \<and>
   (rk_ue_dl_get_small_burst_mul t r x = x \<or> rk_ue_dl_get_small_burst_mul t r x = FNaN \<or>
      fl_lt fl_zero (rk_ue_dl_get_small_burst_mul t r x)) \<and>
   rk_ue_dl_get_sched_mul
     (fold dl_step (fgets_all 510 ''rnti=9 dl_sched_mul=nan'') (g_rk_ue_dl_tbl dl_state_init)) 9 x
     = FNaN"
  using nan_line_leaks [of x]
  by (auto simp: rk_ue_dl_get_max_mcs_def rk_ue_dl_get_min_grant_prb_def
      rk_ue_dl_get_maxcg_override_def rk_ue_dl_get_small_burst_bytes_def
      rk_ue_dl_get_sched_mul_def [of t] rk_ue_dl_get_small_burst_mul_def
      simp del: fgets_all.simps split: option.split dest: fl_getter_dest)


end
