(* ===== verification/StateFile.thy ===== *)
theory StateFile imports UeLaPolicy UeDlPolicy "HOL-Library.Multiset" begin

text \<open>
  The state file between the controller and the gNB: the writer of the controller
  (\<^verbatim>\<open>spark_ran_side/control_xapp.py\<close>, \<^verbatim>\<open>_write_ue_la_state_atomic\<close>) and, against it, the two
  loaders of the gNB, which read the same file.
\<close>

section \<open>The controller's registry\<close>

text \<open>
  One UE's posture: every field is a Python \<open>int\<close> or \<open>float\<close>, or absent.  The registry is a
  Python dict keyed by RNTI, an association list with distinct keys here.
\<close>

record posture =
  p_ul_max_mcs :: "int option"
  p_min_grant_prb :: "int option"
  p_ulsch_max_frame_inactivity :: "int option"
  p_pusch_target_snrx10 :: "int option"
  p_ul_maxcg_override :: "int option"
  p_ul_small_burst_bytes :: "int option"
  p_dl_max_mcs :: "int option"
  p_dl_min_grant_prb :: "int option"
  p_dl_maxcg_override :: "int option"
  p_dl_small_burst_bytes :: "int option"
  p_ul_sched_mul :: "fl option"
  p_ul_small_burst_mul :: "fl option"
  p_dl_sched_mul :: "fl option"
  p_dl_small_burst_mul :: "fl option"

type_synonym registry = "(int \<times> posture) list"

section \<open>Printing\<close>

text \<open>
  The decimal exponent of a positive rational, and \<^verbatim>\<open>f"{v:g}"\<close>: six significant digits without
  trailing zeros, in fixed notation for exponents from -4 to 5.
\<close>

definition dec_exp :: "rat \<Rightarrow> int" where
  "dec_exp q =
     (let (n, d) = quotient_of q;
          k = int (length (int_str n)) - int (length (int_str d))
      in if 10 powi k \<le> q then k else k - 1)"

definition strip_zeros :: "string \<Rightarrow> string" where
  "strip_zeros s = rev (dropWhile (\<lambda>c. c = CHR ''0'') (rev s))"

definition with_frac :: "string \<Rightarrow> string \<Rightarrow> string" where
  "with_frac ip fp = (if strip_zeros fp = [] then ip else ip @ ''.'' @ strip_zeros fp)"

definition fmt_exp :: "int \<Rightarrow> string" where
  "fmt_exp e = ''e'' @ (if e < 0 then ''-'' else ''+'') @
     (if \<bar>e\<bar> < 10 then ''0'' else []) @ int_str \<bar>e\<bar>"

definition fmt_mag :: "rat \<Rightarrow> string" where
  "fmt_mag m =
     (if m = 0 then ''0''
      else
        let e0 = dec_exp m;
            q0 = round_half_even (m / 10 powi (e0 - 5));
            (q, e) = (if q0 = 1000000 then (100000, e0 + 1) else (q0, e0));
            ds = int_str q
        in if -4 \<le> e \<and> e < 0 then with_frac ''0'' (replicate (nat (- e - 1)) (CHR ''0'') @ ds)
           else if 0 \<le> e \<and> e < 6 then with_frac (take (nat e + 1) ds) (drop (nat e + 1) ds)
           else with_frac (take 1 ds) (drop 1 ds) @ fmt_exp e)"

fun fmt_g :: "fl \<Rightarrow> string" where
  "fmt_g FNaN = ''nan''"
| "fmt_g (FInf s) = (if s then ''-inf'' else ''inf'')"
| "fmt_g (FFin s m) = (if s then ''-'' @ fmt_mag m else fmt_mag m)"

definition field_tok :: "string \<Rightarrow> ('a \<Rightarrow> string) \<Rightarrow> 'a option \<Rightarrow> string list" where
  "field_tok k fmt v = (case v of None \<Rightarrow> [] | Some x \<Rightarrow> [k @ ''='' @ fmt x])"

text \<open>The parts of a line, in the order of \<^verbatim>\<open>UE_POSTURE_FIELDS\<close>.\<close>

definition posture_toks :: "posture \<Rightarrow> string list" where
  "posture_toks p =
     field_tok ''ul_max_mcs'' int_str (p_ul_max_mcs p) @
     field_tok ''min_grant_prb'' int_str (p_min_grant_prb p) @
     field_tok ''ulsch_max_frame_inactivity'' int_str (p_ulsch_max_frame_inactivity p) @
     field_tok ''pusch_target_snrx10'' int_str (p_pusch_target_snrx10 p) @
     field_tok ''ul_maxcg_override'' int_str (p_ul_maxcg_override p) @
     field_tok ''ul_small_burst_bytes'' int_str (p_ul_small_burst_bytes p) @
     field_tok ''dl_max_mcs'' int_str (p_dl_max_mcs p) @
     field_tok ''dl_min_grant_prb'' int_str (p_dl_min_grant_prb p) @
     field_tok ''dl_maxcg_override'' int_str (p_dl_maxcg_override p) @
     field_tok ''dl_small_burst_bytes'' int_str (p_dl_small_burst_bytes p) @
     field_tok ''ul_sched_mul'' fmt_g (p_ul_sched_mul p) @
     field_tok ''ul_small_burst_mul'' fmt_g (p_ul_small_burst_mul p) @
     field_tok ''dl_sched_mul'' fmt_g (p_dl_sched_mul p) @
     field_tok ''dl_small_burst_mul'' fmt_g (p_dl_small_burst_mul p)"

definition state_line :: "int \<times> posture \<Rightarrow> string" where
  "state_line rp = join '' '' ((''rnti='' @ int_str (fst rp)) # posture_toks (snd rp))"

definition write_ue_la_state :: "registry \<Rightarrow> string" where
  "write_ue_la_state reg =
     (let lines = map state_line (sort_key fst reg) in
      if lines \<noteq> [] then join [nl] lines @ [nl] else [])"

section \<open>The printed text has no delimiter\<close>

definition plain :: "string \<Rightarrow> bool" where
  "plain s \<longleftrightarrow> (\<forall>c \<in> set s. \<not> isdelim c \<and> ccode c \<noteq> 0)"

lemma plain_simps [simp]:
  "plain []" "plain (c # s) \<longleftrightarrow> \<not> isdelim c \<and> ccode c \<noteq> 0 \<and> plain s"
  "plain (s @ t) \<longleftrightarrow> plain s \<and> plain t" "plain (replicate n (CHR ''0''))"
  by (auto simp: plain_def isdelim_def)

lemma plain_subset: "plain s \<Longrightarrow> set t \<subseteq> set s \<Longrightarrow> plain t"
  by (auto simp: plain_def)

lemma plain_int_str [simp]: "plain (int_str i)"
  using int_str_chars by (auto simp: plain_def)

lemma set_strip_zeros: "set (strip_zeros s) \<subseteq> set s"
  by (auto simp: strip_zeros_def dest: set_dropWhileD)

lemma plain_with_frac: "plain ip \<Longrightarrow> plain fp \<Longrightarrow> plain (with_frac ip fp)"
  using plain_subset [OF _ set_strip_zeros] by (auto simp: with_frac_def isdelim_def)

lemma plain_take_drop [simp]: "plain s \<Longrightarrow> plain (take n s)" "plain s \<Longrightarrow> plain (drop n s)"
  by (auto intro: plain_subset dest: in_set_takeD in_set_dropD)

lemma plain_fmt_exp [simp]: "plain (fmt_exp e)"
  by (simp add: fmt_exp_def isdelim_def)

lemma plain_fmt_mag [simp]: "plain (fmt_mag m)"
  by (auto simp: fmt_mag_def Let_def isdelim_def intro!: plain_with_frac split: prod.splits)

lemma plain_fmt_g [simp]: "plain (fmt_g v)"
  by (cases v rule: fmt_g.cases) (auto simp: isdelim_def)

lemma token_field:
  "plain k \<Longrightarrow> (\<And>x. plain (fmt x)) \<Longrightarrow> t \<in> set (field_tok k fmt v) \<Longrightarrow> is_token t"
  by (auto simp: field_tok_def is_token_def plain_def isdelim_def split: option.splits)

lemma posture_toks_tokens: "t \<in> set (posture_toks p) \<Longrightarrow> is_token t"
  unfolding posture_toks_def set_append Un_iff
  by (elim disjE) (erule token_field [rotated 2], simp add: isdelim_def, simp)+

lemma rnti_token: "is_token (''rnti='' @ int_str r)"
  using plain_int_str [of r] by (auto simp: is_token_def isdelim_def plain_def)

lemma state_line_tokens: "strtok_all (state_line (r, p) @ [nl]) = (''rnti='' @ int_str r) # posture_toks p"
  unfolding state_line_def fst_conv snd_conv
  by (rule strtok_join) (auto simp: rnti_token [simplified] posture_toks_tokens isdelim_def)

lemma join_Cons: "\<exists>r. join sep (x # xs) = x @ r"
  by (cases xs) auto

lemma state_line_start: "\<exists>cs. state_line rp = CHR ''r'' # cs"
  using join_Cons [of "'' ''" "''rnti='' @ int_str (fst rp)" "posture_toks (snd rp)"]
  by (auto simp: state_line_def)

section \<open>What the two loaders make of a field\<close>

definition set_to :: "'a option \<Rightarrow> 'a \<Rightarrow> 'a" where
  "set_to v d = (case v of None \<Rightarrow> d | Some x \<Rightarrow> x)"

lemma set_to_simps [simp]: "set_to None d = d" "set_to (Some x) d = x"
  by (simp_all add: set_to_def)

definition i32_opt :: "int option \<Rightarrow> bool" where
  "i32_opt v \<longleftrightarrow> (case v of None \<Rightarrow> True | Some x \<Rightarrow> i32_range x)"

lemma i32_opt_iff: "i32_opt v \<longleftrightarrow> (\<forall>x. v = Some x \<longrightarrow> i32_range x)"
  by (simp add: i32_opt_def split: option.split)

lemma la_fields:
  "i32_opt v \<Longrightarrow> fold la_token (field_tok ''ul_max_mcs'' int_str v) l =
     l\<lparr>ul_max_mcs := set_to v (ul_max_mcs l)\<rparr>"
  "i32_opt v \<Longrightarrow> fold la_token (field_tok ''min_grant_prb'' int_str v) l =
     l\<lparr>min_grant_prb := set_to v (min_grant_prb l)\<rparr>"
  "i32_opt v \<Longrightarrow> fold la_token (field_tok ''ulsch_max_frame_inactivity'' int_str v) l =
     l\<lparr>ulsch_max_frame_inactivity := set_to v (ulsch_max_frame_inactivity l)\<rparr>"
  "i32_opt v \<Longrightarrow> fold la_token (field_tok ''pusch_target_snrx10'' int_str v) l =
     l\<lparr>pusch_target_snrx10 := set_to v (pusch_target_snrx10 l)\<rparr>"
  "i32_opt v \<Longrightarrow> fold la_token (field_tok ''ul_maxcg_override'' int_str v) l =
     l\<lparr>ul_maxcg_override := set_to v (ul_maxcg_override l)\<rparr>"
  "i32_opt v \<Longrightarrow> fold la_token (field_tok ''ul_small_burst_bytes'' int_str v) l =
     l\<lparr>ul_small_burst_bytes := set_to v (ul_small_burst_bytes l)\<rparr>"
  "fold la_token (field_tok ''ul_sched_mul'' fmt_g w) l =
     l\<lparr>ul_sched_mul := set_to (map_option (atof32 \<circ> fmt_g) w) (ul_sched_mul l)\<rparr>"
  "fold la_token (field_tok ''ul_small_burst_mul'' fmt_g w) l =
     l\<lparr>ul_small_burst_mul := set_to (map_option (atof32 \<circ> fmt_g) w) (ul_small_burst_mul l)\<rparr>"
  "fold la_token (field_tok ''dl_max_mcs'' int_str v) l = l"
  "fold la_token (field_tok ''dl_min_grant_prb'' int_str v) l = l"
  "fold la_token (field_tok ''dl_maxcg_override'' int_str v) l = l"
  "fold la_token (field_tok ''dl_small_burst_bytes'' int_str v) l = l"
  "fold la_token (field_tok ''dl_sched_mul'' fmt_g w) l = l"
  "fold la_token (field_tok ''dl_small_burst_mul'' fmt_g w) l = l"
  by (simp_all add: field_tok_def la_token_def parse_int_kv_def has_prefix_def i32_opt_iff atoi_int_str
      split: option.split)

lemma dl_fields:
  "i32_opt v \<Longrightarrow> fold dl_token (field_tok ''dl_max_mcs'' int_str v) (e, k) =
     (e\<lparr>dl_max_mcs := set_to v (dl_max_mcs e)\<rparr>, k)"
  "i32_opt v \<Longrightarrow> fold dl_token (field_tok ''dl_min_grant_prb'' int_str v) (e, k) =
     (e\<lparr>dl_min_grant_prb := set_to v (dl_min_grant_prb e)\<rparr>, k)"
  "i32_opt v \<Longrightarrow> fold dl_token (field_tok ''dl_maxcg_override'' int_str v) (e, k) =
     (e\<lparr>dl_maxcg_override := set_to v (dl_maxcg_override e)\<rparr>, k)"
  "i32_opt v \<Longrightarrow> fold dl_token (field_tok ''dl_small_burst_bytes'' int_str v) (e, k) =
     (e\<lparr>dl_small_burst_bytes := set_to v (dl_small_burst_bytes e)\<rparr>, k)"
  "fold dl_token (field_tok ''dl_sched_mul'' fmt_g w) (e, k) =
     (e\<lparr>dl_sched_mul := set_to (map_option (atof32 \<circ> fmt_g) w) (dl_sched_mul e)\<rparr>, k)"
  "fold dl_token (field_tok ''dl_small_burst_mul'' fmt_g w) (e, k) =
     (e\<lparr>dl_small_burst_mul := set_to (map_option (atof32 \<circ> fmt_g) w) (dl_small_burst_mul e)\<rparr>, k)"
  "fold dl_token (field_tok ''ul_max_mcs'' int_str v) (e, k) = (e, k)"
  "fold dl_token (field_tok ''min_grant_prb'' int_str v) (e, k) = (e, k)"
  "fold dl_token (field_tok ''ulsch_max_frame_inactivity'' int_str v) (e, k) = (e, k)"
  "fold dl_token (field_tok ''pusch_target_snrx10'' int_str v) (e, k) = (e, k)"
  "fold dl_token (field_tok ''ul_maxcg_override'' int_str v) (e, k) = (e, k)"
  "fold dl_token (field_tok ''ul_small_burst_bytes'' int_str v) (e, k) = (e, k)"
  "fold dl_token (field_tok ''ul_sched_mul'' fmt_g w) (e, k) = (e, k)"
  "fold dl_token (field_tok ''ul_small_burst_mul'' fmt_g w) (e, k) = (e, k)"
  by (simp_all add: field_tok_def dl_token_def has_prefix_def i32_opt_iff atoi_int_str split: option.split)

section \<open>The round trip\<close>

definition posture_ok :: "posture \<Rightarrow> bool" where
  "posture_ok p \<longleftrightarrow> list_all i32_opt
     [p_ul_max_mcs p, p_min_grant_prb p, p_ulsch_max_frame_inactivity p, p_pusch_target_snrx10 p,
      p_ul_maxcg_override p, p_ul_small_burst_bytes p, p_dl_max_mcs p, p_dl_min_grant_prb p,
      p_dl_maxcg_override p, p_dl_small_burst_bytes p]"

text \<open>What a posture means to the uplink and to the downlink table of the gNB.\<close>

definition la_of_posture :: "posture \<Rightarrow> la_settings" where
  "la_of_posture p = \<lparr>ul_max_mcs = set_to (p_ul_max_mcs p) (-1),
     min_grant_prb = set_to (p_min_grant_prb p) (-1),
     ulsch_max_frame_inactivity = set_to (p_ulsch_max_frame_inactivity p) (-1),
     pusch_target_snrx10 = set_to (p_pusch_target_snrx10 p) (-1),
     ul_sched_mul = set_to (map_option (atof32 \<circ> fmt_g) (p_ul_sched_mul p)) (f32 (-1)),
     ul_maxcg_override = set_to (p_ul_maxcg_override p) (-1),
     ul_small_burst_bytes = set_to (p_ul_small_burst_bytes p) (-1),
     ul_small_burst_mul = set_to (map_option (atof32 \<circ> fmt_g) (p_ul_small_burst_mul p)) (f32 (-1))\<rparr>"

definition dl_of_posture :: "posture \<Rightarrow> dl_settings" where
  "dl_of_posture p = \<lparr>dl_max_mcs = set_to (p_dl_max_mcs p) (-1),
     dl_min_grant_prb = set_to (p_dl_min_grant_prb p) (-1),
     dl_sched_mul = set_to (map_option (atof32 \<circ> fmt_g) (p_dl_sched_mul p)) (f32 (-1)),
     dl_maxcg_override = set_to (p_dl_maxcg_override p) (-1),
     dl_small_burst_bytes = set_to (p_dl_small_burst_bytes p) (-1),
     dl_small_burst_mul = set_to (map_option (atof32 \<circ> fmt_g) (p_dl_small_burst_mul p)) (f32 (-1))\<rparr>"

lemma la_rnti_token: "i32_range r \<Longrightarrow> la_token (''rnti='' @ int_str r) l = l\<lparr>line_rnti := r\<rparr>"
  by (simp add: la_token_def parse_int_kv_def has_prefix_def atoi_int_str)

lemma dl_rnti_token: "0 \<le> r \<Longrightarrow> r < 2 ^ 64 \<Longrightarrow>
  dl_token (''rnti='' @ int_str r) (e, k) = (e\<lparr>dl_rnti := to_u16 r, dl_used := 1\<rparr>, 1)"
  by (simp add: dl_token_def has_prefix_def strtoul_int_str)

lemma la_parse_state_line:
  assumes "posture_ok p" and "0 < r" and "r < 65536"
  shows "map_option (\<lambda>l. (to_u16 (line_rnti l), la_settings_of l)) (la_parse_line (state_line (r, p) @ [nl]))
    = Some (to_u16 r, la_of_posture p)"
proof -
  obtain cs where st: "state_line (r, p) = CHR ''r'' # cs" using state_line_start by blast
  have r: "i32_range r" using assms by (simp add: i32_range_def)
  have "fold la_token (strtok_all (state_line (r, p) @ [nl])) la_line_init =
      la_settings.extend (la_of_posture p) \<lparr>line_rnti = r\<rparr>"
    using assms(1) unfolding state_line_tokens posture_toks_def
    by (simp add: la_rnti_token [OF r] la_fields posture_ok_def la_line_init_def RK_UE_LA_UNSET_def
        la_of_posture_def la_record_defs del: append.simps)
  moreover have "dropWhile isspace (state_line (r, p) @ [nl]) = state_line (r, p) @ [nl]"
    by (simp add: st isspace_def)
  ultimately show ?thesis
    using assms(2,3) by (simp add: la_parse_line_def Let_def st la_record_defs)
qed

lemma dl_parse_state_line:
  assumes "posture_ok p" and "0 < r" and "r < 65536"
  shows "map_option (\<lambda>e. (dl_rnti e, dl_settings_of e)) (dl_parse_buf (state_line (r, p) @ [nl]))
    = Some (to_u16 r, dl_of_posture p)"
proof -
  obtain cs where st: "state_line (r, p) = CHR ''r'' # cs" using state_line_start by blast
  have "fold dl_token (strtok_all (state_line (r, p) @ [nl])) (dl_entry_init, 0) =
      (dl_entry (to_u16 r) (dl_of_posture p), 1)"
    using assms unfolding state_line_tokens posture_toks_def
    by (simp add: dl_rnti_token dl_fields posture_ok_def dl_entry_init_def
        dl_of_posture_def dl_entry_def dl_record_defs del: append.simps)
  then show ?thesis
    by (simp add: dl_parse_buf_def rk_ue_dl_parse_line_def st)
qed

lemma write_lines: "write_ue_la_state reg = concat (map (\<lambda>l. l @ [nl]) (map state_line (sort_key fst reg)))"
proof -
  have "ls \<noteq> [] \<Longrightarrow> join [nl] ls @ [nl] = concat (map (\<lambda>l. l @ [nl]) ls)" for ls
    by (induction "[nl]" ls rule: join.induct) auto
  then show ?thesis by (auto simp: write_ue_la_state_def Let_def)
qed

lemma state_line_chars: "c \<in> set (state_line rp) \<Longrightarrow> ccode c \<noteq> 10 \<and> ccode c \<noteq> 0"
proof -
  assume c: "c \<in> set (state_line rp)"
  let ?ts = "(''rnti='' @ int_str (fst rp)) # posture_toks (snd rp)"
  have "set (state_line rp) \<subseteq> (\<Union>t \<in> set ?ts. set t) \<union> set '' ''"
    unfolding state_line_def by (rule set_join)
  then have "c \<in> (\<Union>t \<in> set ?ts. set t) \<union> {CHR '' ''}" using c by (auto simp del: set_append)
  then consider "c = CHR '' ''" | t where "t \<in> set ?ts" "c \<in> set t" by blast
  then show ?thesis
  proof cases
    case 2
    then have "is_token t" using rnti_token [simplified] posture_toks_tokens by auto
    with 2 show ?thesis by (auto simp: is_token_def isdelim_def)
  qed simp
qed

text \<open>A registry the gNB can hold: distinct 16-bit RNTIs, C integers, lines that fit the buffer.\<close>

definition registry_ok :: "registry \<Rightarrow> bool" where
  "registry_ok reg \<longleftrightarrow> distinct (map fst reg) \<and> length reg \<le> 128 \<and>
     list_all (\<lambda>rp. 0 < fst rp \<and> fst rp < 65536 \<and> posture_ok (snd rp) \<and>
       length (state_line rp) \<le> 510) reg"

lemma fgets_write:
  assumes "registry_ok reg"
  shows "fgets_all 510 (write_ue_la_state reg) = map (\<lambda>rp. state_line rp @ [nl]) (sort_key fst reg)"
  unfolding write_lines
  using assms state_line_chars
  by (subst fgets_all_lines) (auto simp: registry_ok_def list_all_iff)

lemma file_bindings:
  assumes "registry_ok reg"
  shows "la_file_bindings (write_ue_la_state reg) =
      map (\<lambda>(r, p). (to_u16 r, la_of_posture p)) (sort_key fst reg)"
    and "dl_file_bindings (write_ue_la_state reg) =
      map (\<lambda>(r, p). (to_u16 r, dl_of_posture p)) (sort_key fst reg)"
proof -
  have ok: "list_all (\<lambda>(r, p). 0 < r \<and> r < 65536 \<and> posture_ok p) (sort_key fst reg)"
    using assms by (auto simp: registry_ok_def list_all_iff)
  have "la_bindings (map (\<lambda>rp. state_line rp @ [nl]) xs) = map (\<lambda>(r, p). (to_u16 r, la_of_posture p)) xs \<and>
      dl_bindings (map (\<lambda>rp. state_line rp @ [nl]) xs) = map (\<lambda>(r, p). (to_u16 r, dl_of_posture p)) xs"
    if "list_all (\<lambda>(r, p). 0 < r \<and> r < 65536 \<and> posture_ok p) xs" for xs
    using that
  proof (induction xs)
    case (Cons rp xs)
    obtain r p where "rp = (r, p)" by (cases rp)
    then show ?case using Cons la_parse_state_line [of p r] dl_parse_state_line [of p r] by auto
  qed simp
  from this [OF ok] show "la_file_bindings (write_ue_la_state reg) =
      map (\<lambda>(r, p). (to_u16 r, la_of_posture p)) (sort_key fst reg)"
    and "dl_file_bindings (write_ue_la_state reg) =
      map (\<lambda>(r, p). (to_u16 r, dl_of_posture p)) (sort_key fst reg)"
    by (simp_all add: la_file_bindings_def dl_file_bindings_def fgets_write [OF assms])
qed

lemma to_u16_inj: "0 \<le> x \<Longrightarrow> x < 65536 \<Longrightarrow> 0 \<le> y \<Longrightarrow> y < 65536 \<Longrightarrow> to_u16 x = to_u16 y \<longleftrightarrow> x = y"
proof -
  assume a: "0 \<le> x" "x < 65536" "0 \<le> y" "y < 65536"
  then have "uint (to_u16 x) = x" and "uint (to_u16 y) = y" by (simp_all add: uint_to_u16)
  then show ?thesis by metis
qed

lemma map_of_distinct_set:
  "distinct (map fst xs) \<Longrightarrow> distinct (map fst ys) \<Longrightarrow> set xs = set ys \<Longrightarrow> map_of xs = map_of ys"
  by (simp add: map_of_inject_set)

lemma registry_map:
  assumes "registry_ok reg"
  shows "map_of (rev (map (\<lambda>(r, p). (to_u16 r, f p)) (sort_key fst reg))) =
    map_of (map (\<lambda>(r, p). (to_u16 r, f p)) reg)"
proof -
  let ?g = "\<lambda>(r, p). (to_u16 r, f p)"
  have keys: "map fst (map ?g xs) = map (to_u16 \<circ> fst) xs" for xs
    by (induction xs) auto
  have d: "distinct (map fst reg)" and range: "rp \<in> set reg \<Longrightarrow> 0 < fst rp \<and> fst rp < 65536" for rp
    using assms by (simp_all add: registry_ok_def list_all_iff)
  have "inj_on (to_u16 \<circ> fst) (set reg)"
  proof (rule inj_onI)
    fix x y assume xy: "x \<in> set reg" "y \<in> set reg" "(to_u16 \<circ> fst) x = (to_u16 \<circ> fst) y"
    then have "fst x = fst y" using to_u16_inj [of "fst x" "fst y"] range [of x] range [of y] by simp
    then show "x = y" using d xy(1,2) by (simp add: distinct_map inj_on_def)
  qed
  then have "distinct (map (to_u16 \<circ> fst) reg)" using d by (simp add: distinct_map)
  moreover have "mset (sort_key fst reg) = mset reg" by simp
  then have "mset (map (to_u16 \<circ> fst) (sort_key fst reg)) = mset (map (to_u16 \<circ> fst) reg)"
    by (simp only: mset_map)
  ultimately have "distinct (map (to_u16 \<circ> fst) (sort_key fst reg))"
    using mset_eq_imp_distinct_iff by blast
  then have "distinct (map fst (rev (map ?g (sort_key fst reg))))"
    by (simp only: rev_map [symmetric] keys distinct_rev)
  moreover have "distinct (map fst (map ?g reg))"
    using \<open>distinct (map (to_u16 \<circ> fst) reg)\<close> by (simp only: keys)
  ultimately show ?thesis by (rule map_of_distinct_set) simp
qed

lemma reload_of_registry:
  assumes "registry_ok reg" and "la_inv (g_tbl s)" and "dl_inv (g_rk_ue_dl_tbl s')"
    and "100 \<le> now - g_last_check_ms s" and "(sec, nsec) \<noteq> (g_last_mtime_sec s, g_last_mtime_nsec s)"
    and "g_rk_ue_dl_loaded s' = 0 \<or> sec \<noteq> g_rk_ue_dl_mtime s' \<or> sz \<noteq> g_rk_ue_dl_size s'"
  shows "la_get (g_tbl (rk_ue_la_reload_if_needed now (Some (sec, nsec))
      (Some (write_ue_la_state reg)) s)) = map_of (map (\<lambda>(r, p). (to_u16 r, la_of_posture p)) reg) \<and>
    dl_get (g_rk_ue_dl_tbl (rk_ue_dl_reload_if_needed False (Some (sec, sz))
      (Some (write_ue_la_state reg)) s')) = map_of (map (\<lambda>(r, p). (to_u16 r, dl_of_posture p)) reg)"
proof -
  have card: "card (fst ` set (map (\<lambda>(r, p). (to_u16 r, f p)) (sort_key fst reg))) \<le> 128"
    for f :: "posture \<Rightarrow> 'b"
  proof -
    have "card (fst ` set (map (\<lambda>(r, p). (to_u16 r, f p)) (sort_key fst reg))) \<le>
        length (map (\<lambda>(r, p). (to_u16 r, f p)) (sort_key fst reg))"
      by (metis card_length length_map list.set_map)
    with assms(1) show ?thesis by (simp add: registry_ok_def)
  qed
  define content where "content = write_ue_la_state reg"
  note files = file_bindings [OF assms(1), folded content_def] registry_map [OF assms(1)]
  have "la_get (fold la_step (fgets_all 510 content) (rk_ue_la_clear_all (g_tbl s))) =
      map_of (map (\<lambda>(r, p). (to_u16 r, la_of_posture p)) reg)"
    using card [of la_of_posture] unfolding files(3) [symmetric] files(1) [symmetric]
    by (intro reload_table(2) [OF assms(2)]) (simp add: RK_UE_LA_MAX_def)
  moreover have "dl_get (fold dl_step (fgets_all 510 content) (rk_ue_dl_reset_tbl (g_rk_ue_dl_tbl s'))) =
      map_of (map (\<lambda>(r, p). (to_u16 r, dl_of_posture p)) reg)"
    using card [of dl_of_posture] unfolding files(3) [symmetric] files(2) [symmetric]
      dl_file_bindings_def
    by (intro dl_reload_table(2) [OF assms(3)]) (simp add: RK_UE_DL_MAX_def)
  ultimately show ?thesis
    using assms(4-6) unfolding content_def [symmetric]
    by (auto simp: reload_cases rk_ue_dl_reload_if_needed_def)
qed

text \<open>
  C4. The state file round trip: whatever registry of at most 128 UEs the controller writes, once
  both loaders have reloaded the file the uplink table holds exactly the registry's uplink fields
  and the downlink table exactly its downlink fields; fields that were absent read as unset, the
  other direction's fields are ignored, and no stale UE stays.
\<close>

theorem state_file_roundtrip:
  assumes "registry_ok reg" and "la_inv (g_tbl s)" and "dl_inv (g_rk_ue_dl_tbl s')"
    and "100 \<le> now - g_last_check_ms s" and "(sec, nsec) \<noteq> (g_last_mtime_sec s, g_last_mtime_nsec s)"
    and "g_rk_ue_dl_loaded s' = 0 \<or> sec \<noteq> g_rk_ue_dl_mtime s' \<or> sz \<noteq> g_rk_ue_dl_size s'"
  shows "la_get (g_tbl (rk_ue_la_reload_if_needed now (Some (sec, nsec))
      (Some (write_ue_la_state reg)) s)) = map_of (map (\<lambda>(r, p). (to_u16 r, la_of_posture p)) reg) \<and>
    dl_get (g_rk_ue_dl_tbl (rk_ue_dl_reload_if_needed False (Some (sec, sz))
      (Some (write_ue_la_state reg)) s')) = map_of (map (\<lambda>(r, p). (to_u16 r, dl_of_posture p)) reg)"
  using reload_of_registry [OF assms] .

definition example_registry :: registry where
  "example_registry = [(9, \<lparr>p_ul_max_mcs = Some 4, p_min_grant_prb = None,
     p_ulsch_max_frame_inactivity = None, p_pusch_target_snrx10 = None, p_ul_maxcg_override = None,
     p_ul_small_burst_bytes = None, p_dl_max_mcs = Some 7, p_dl_min_grant_prb = None,
     p_dl_maxcg_override = None, p_dl_small_burst_bytes = None, p_ul_sched_mul = None,
     p_ul_small_burst_mul = None, p_dl_sched_mul = None,
     p_dl_small_burst_mul = None\<rparr>)]"

lemma example_registry_ok: "registry_ok example_registry"
  by (simp add: registry_ok_def example_registry_def posture_ok_def i32_opt_def i32_range_def
      state_line_def posture_toks_def field_tok_def int_str_def nat_str.simps digit_char_def)

theorem state_file_roundtrip_witness:
  "map_option ul_max_mcs (la_get (g_tbl (rk_ue_la_reload_if_needed 500 (Some (3, 4))
     (Some (write_ue_la_state example_registry)) la_state_init)) 9) = Some 4 \<and>
   map_option dl_max_mcs (dl_get (g_rk_ue_dl_tbl (rk_ue_dl_reload_if_needed False (Some (3, 40))
     (Some (write_ue_la_state example_registry)) dl_state_init)) 9) = Some 7"
proof -
  have "to_u16 9 = 9" by (simp add: to_u16_def)
  then show ?thesis
    using state_file_roundtrip [OF example_registry_ok la_state_init_inv dl_state_init_inv,
        of 500 3 4 40]
    by (simp add: la_state_init_def dl_state_init_def example_registry_def la_of_posture_def
        dl_of_posture_def)
qed

end
