(* ===== verification/SlicePolicy.thy ===== *)
theory SlicePolicy imports SlotTable BinaryFloat begin

text \<open>
  The slice policy module, \<^verbatim>\<open>gnb_patch/rk_slice_policy.c\<close>: the table that binds an RNTI to a
  downlink and an uplink slice, the constant table of slice policies, and the runtime counters of
  consecutive grants that the throttle reads.
  The C globals are the lists the functions take and return; a pointer into a table is an index.
\<close>

section \<open>Data\<close>

record rk_slice_assoc_entry_t =
  as_rnti :: u16
  as_dl_id :: u16
  as_ul_id :: u16
  as_valid :: u8

record rk_slice_policy_t =
  slice_id :: int
  dl_weight_mul :: fl
  ul_weight_mul :: fl
  dl_rb_cap :: int
  ul_rb_cap :: int
  dl_rb_floor :: int
  ul_rb_floor :: int
  dl_max_consecutive_grants :: int
  ul_max_consecutive_grants :: int

record rk_slice_runtime_entry_t =
  rt_rnti :: u16
  rt_valid :: u8
  last_dl_tick :: int
  last_ul_tick :: int
  dl_consecutive_grants :: int
  ul_consecutive_grants :: int

type_synonym assoc_table = "rk_slice_assoc_entry_t list"
type_synonym runtime_table = "rk_slice_runtime_entry_t list"

definition RK_SLICE_ID_NONE :: int where
  "RK_SLICE_ID_NONE = 0"

definition RK_SLICE_ASSOC_MAX :: nat where
  "RK_SLICE_ASSOC_MAX = 256"

definition RK_SLICE_RUNTIME_MAX :: nat where
  "RK_SLICE_RUNTIME_MAX = 256"

text \<open>Static storage starts zeroed.\<close>

definition g_rk_slice_assoc_init :: assoc_table where
  "g_rk_slice_assoc_init =
     replicate RK_SLICE_ASSOC_MAX \<lparr>as_rnti = 0, as_dl_id = 0, as_ul_id = 0, as_valid = 0\<rparr>"

definition g_rk_slice_runtime_init :: runtime_table where
  "g_rk_slice_runtime_init =
     replicate RK_SLICE_RUNTIME_MAX
       \<lparr>rt_rnti = 0, rt_valid = 0, last_dl_tick = 0, last_ul_tick = 0,
        dl_consecutive_grants = 0, ul_consecutive_grants = 0\<rparr>"

definition g_rk_slice_policy_table :: "rk_slice_policy_t list" where
  "g_rk_slice_policy_table =
     [rk_slice_policy_t.make 0 (f32 1) (f32 1) 0 0 0 0 0 0,
      rk_slice_policy_t.make 1 (f32 (1 / 2)) (f32 (1 / 2)) 6 6 2 2 1 1,
      rk_slice_policy_t.make 2 (f32 1) (f32 1) 12 12 4 4 4 4,
      rk_slice_policy_t.make 3 (f32 10) (f32 4) 50 30 12 12 0 0,
      rk_slice_policy_t.make 4 (f32 6) (f32 6) 10 10 4 4 6 6,
      rk_slice_policy_t.make 5 (f32 1) (f32 10) 12 50 4 12 2 0,
      rk_slice_policy_t.make 6 (f32 (6 / 5)) (f32 (6 / 5)) 8 8 2 2 2 2]"

section \<open>Slice associations\<close>

definition rk_find_slice_assoc ::
    "assoc_table \<Rightarrow> u16 \<Rightarrow> bool \<Rightarrow> assoc_table \<times> nat option" where
  "rk_find_slice_assoc t rnti create =
     (case first_index (\<lambda>e. as_valid e \<noteq> 0 \<and> as_rnti e = rnti) t of
        Some i \<Rightarrow> (t, Some i)
      | None \<Rightarrow>
          if \<not> create then (t, None)
          else case first_index (\<lambda>e. \<not> as_valid e \<noteq> 0) t of
                 Some i \<Rightarrow>
                   (t[i := (t ! i)\<lparr>as_valid := 1, as_rnti := rnti, as_dl_id := 0, as_ul_id := 0\<rparr>],
                    Some i)
               | None \<Rightarrow> (t, None))"

text \<open>A full table drops the update (the code logs a warning).\<close>

definition rk_slice_assoc_update_by_rnti ::
    "assoc_table \<Rightarrow> u16 \<Rightarrow> int \<Rightarrow> int \<Rightarrow> assoc_table" where
  "rk_slice_assoc_update_by_rnti t rnti dl_id ul_id =
     (case rk_find_slice_assoc t rnti True of
        (t', None) \<Rightarrow> t'
      | (t', Some i) \<Rightarrow> t'[i := (t' ! i)\<lparr>as_dl_id := to_u16 dl_id, as_ul_id := to_u16 ul_id\<rparr>])"

definition rk_slice_assoc_get_dl_id :: "assoc_table \<Rightarrow> u16 \<Rightarrow> int" where
  "rk_slice_assoc_get_dl_id t rnti =
     (case rk_find_slice_assoc t rnti False of
        (_, None) \<Rightarrow> RK_SLICE_ID_NONE
      | (t', Some i) \<Rightarrow> uint (as_dl_id (t' ! i)))"

definition rk_slice_assoc_get_ul_id :: "assoc_table \<Rightarrow> u16 \<Rightarrow> int" where
  "rk_slice_assoc_get_ul_id t rnti =
     (case rk_find_slice_assoc t rnti False of
        (_, None) \<Rightarrow> RK_SLICE_ID_NONE
      | (t', Some i) \<Rightarrow> uint (as_ul_id (t' ! i)))"

section \<open>Policies\<close>

definition rk_slice_policy_get :: "int \<Rightarrow> rk_slice_policy_t" where
  "rk_slice_policy_get sid =
     (let n = length g_rk_slice_policy_table in
      if sid < 0 \<or> n \<le> nat sid then g_rk_slice_policy_table ! 0
      else if slice_id (g_rk_slice_policy_table ! nat sid) \<noteq> sid then g_rk_slice_policy_table ! 0
      else g_rk_slice_policy_table ! nat sid)"

definition rk_slice_assoc_get_dl_weight :: "assoc_table \<Rightarrow> u16 \<Rightarrow> fl" where
  "rk_slice_assoc_get_dl_weight t rnti =
     dl_weight_mul (rk_slice_policy_get (rk_slice_assoc_get_dl_id t rnti))"

definition rk_slice_assoc_get_ul_weight :: "assoc_table \<Rightarrow> u16 \<Rightarrow> fl" where
  "rk_slice_assoc_get_ul_weight t rnti =
     ul_weight_mul (rk_slice_policy_get (rk_slice_assoc_get_ul_id t rnti))"

definition rk_slice_assoc_get_dl_rb_cap :: "assoc_table \<Rightarrow> u16 \<Rightarrow> int" where
  "rk_slice_assoc_get_dl_rb_cap t rnti =
     dl_rb_cap (rk_slice_policy_get (rk_slice_assoc_get_dl_id t rnti))"

definition rk_slice_assoc_get_ul_rb_cap :: "assoc_table \<Rightarrow> u16 \<Rightarrow> int" where
  "rk_slice_assoc_get_ul_rb_cap t rnti =
     ul_rb_cap (rk_slice_policy_get (rk_slice_assoc_get_ul_id t rnti))"

definition rk_slice_assoc_get_dl_rb_floor :: "assoc_table \<Rightarrow> u16 \<Rightarrow> int" where
  "rk_slice_assoc_get_dl_rb_floor t rnti =
     dl_rb_floor (rk_slice_policy_get (rk_slice_assoc_get_dl_id t rnti))"

definition rk_slice_assoc_get_ul_rb_floor :: "assoc_table \<Rightarrow> u16 \<Rightarrow> int" where
  "rk_slice_assoc_get_ul_rb_floor t rnti =
     ul_rb_floor (rk_slice_policy_get (rk_slice_assoc_get_ul_id t rnti))"

definition rk_slice_assoc_get_dl_max_consecutive_grants :: "assoc_table \<Rightarrow> u16 \<Rightarrow> int" where
  "rk_slice_assoc_get_dl_max_consecutive_grants t rnti =
     dl_max_consecutive_grants (rk_slice_policy_get (rk_slice_assoc_get_dl_id t rnti))"

definition rk_slice_assoc_get_ul_max_consecutive_grants :: "assoc_table \<Rightarrow> u16 \<Rightarrow> int" where
  "rk_slice_assoc_get_ul_max_consecutive_grants t rnti =
     ul_max_consecutive_grants (rk_slice_policy_get (rk_slice_assoc_get_ul_id t rnti))"

section \<open>Runtime counters of consecutive grants\<close>

definition rk_find_slice_runtime ::
    "runtime_table \<Rightarrow> u16 \<Rightarrow> bool \<Rightarrow> runtime_table \<times> nat option" where
  "rk_find_slice_runtime t rnti create =
     (case first_index (\<lambda>e. rt_valid e \<noteq> 0 \<and> rt_rnti e = rnti) t of
        Some i \<Rightarrow> (t, Some i)
      | None \<Rightarrow>
          if \<not> create then (t, None)
          else case first_index (\<lambda>e. \<not> rt_valid e \<noteq> 0) t of
                 Some i \<Rightarrow>
                   (t[i := (t ! i)\<lparr>rt_valid := 1, rt_rnti := rnti, last_dl_tick := -1,
                       last_ul_tick := -1, dl_consecutive_grants := 0, ul_consecutive_grants := 0\<rparr>],
                    Some i)
               | None \<Rightarrow> (t, None))"

definition rk_slice_runtime_dl_should_throttle :: "runtime_table \<Rightarrow> u16 \<Rightarrow> int \<Rightarrow> int \<Rightarrow> bool" where
  "rk_slice_runtime_dl_should_throttle t rnti now_tick max_consecutive_grants =
     (if max_consecutive_grants \<le> 0 then False
      else case rk_find_slice_runtime t rnti False of
             (_, None) \<Rightarrow> False
           | (t', Some i) \<Rightarrow>
               last_dl_tick (t' ! i) = now_tick - 1 \<and>
               max_consecutive_grants \<le> dl_consecutive_grants (t' ! i))"

definition rk_slice_runtime_ul_should_throttle :: "runtime_table \<Rightarrow> u16 \<Rightarrow> int \<Rightarrow> int \<Rightarrow> bool" where
  "rk_slice_runtime_ul_should_throttle t rnti now_tick max_consecutive_grants =
     (if max_consecutive_grants \<le> 0 then False
      else case rk_find_slice_runtime t rnti False of
             (_, None) \<Rightarrow> False
           | (t', Some i) \<Rightarrow>
               last_ul_tick (t' ! i) = now_tick - 1 \<and>
               max_consecutive_grants \<le> ul_consecutive_grants (t' ! i))"

definition rk_slice_runtime_note_dl_grant :: "runtime_table \<Rightarrow> u16 \<Rightarrow> int \<Rightarrow> runtime_table" where
  "rk_slice_runtime_note_dl_grant t rnti now_tick =
     (case rk_find_slice_runtime t rnti True of
        (t', None) \<Rightarrow> t'
      | (t', Some i) \<Rightarrow>
          let e = t' ! i;
              n = (if last_dl_tick e = now_tick - 1 then dl_consecutive_grants e + 1 else 1)
          in t'[i := e\<lparr>dl_consecutive_grants := n, last_dl_tick := now_tick\<rparr>])"

definition rk_slice_runtime_note_ul_grant :: "runtime_table \<Rightarrow> u16 \<Rightarrow> int \<Rightarrow> runtime_table" where
  "rk_slice_runtime_note_ul_grant t rnti now_tick =
     (case rk_find_slice_runtime t rnti True of
        (t', None) \<Rightarrow> t'
      | (t', Some i) \<Rightarrow>
          let e = t' ! i;
              n = (if last_ul_tick e = now_tick - 1 then ul_consecutive_grants e + 1 else 1)
          in t'[i := e\<lparr>ul_consecutive_grants := n, last_ul_tick := now_tick\<rparr>])"

section \<open>The association table is a bounded store\<close>

definition assoc_used :: "rk_slice_assoc_entry_t \<Rightarrow> bool" where
  "assoc_used e \<longleftrightarrow> as_valid e \<noteq> 0"

definition assoc_inv :: "assoc_table \<Rightarrow> bool" where
  "assoc_inv t \<longleftrightarrow> length t = RK_SLICE_ASSOC_MAX \<and> slots_unique assoc_used as_rnti t \<and>
     (\<forall>e \<in> set t. as_valid e = 0 \<or> as_valid e = 1)"

definition assoc_get :: "assoc_table \<Rightarrow> u16 \<rightharpoonup> u16 \<times> u16" where
  "assoc_get t r = map_option (\<lambda>e. (as_dl_id e, as_ul_id e)) (slot_map assoc_used as_rnti t r)"

definition assoc_put :: "u16 \<Rightarrow> u16 \<times> u16 \<Rightarrow> assoc_table \<Rightarrow> assoc_table" where
  "assoc_put r v t = rk_slice_assoc_update_by_rnti t r (uint (fst v)) (uint (snd v))"

lemma dom_assoc_get: "dom (assoc_get t) = dom (slot_map assoc_used as_rnti t)"
  by (auto simp: assoc_get_def dom_def)

lemma assoc_find_eq:
  "first_index (\<lambda>e. as_valid e \<noteq> 0 \<and> as_rnti e = r) t = slot_find assoc_used as_rnti t r"
  "first_index (\<lambda>e. as_valid e = 0) t = slot_free assoc_used t"
  by (simp_all add: slot_find_def slot_free_def assoc_used_def)

lemma assoc_get_None: "assoc_get t r = None \<longleftrightarrow> slot_map assoc_used as_rnti t r = None"
  by (simp add: assoc_get_def)

lemma assoc_entry_fill:
  "e\<lparr>as_valid := 1, as_rnti := r, as_dl_id := d, as_ul_id := u\<rparr> =
    \<lparr>as_rnti = r, as_dl_id = d, as_ul_id = u, as_valid = 1\<rparr>"
  by (cases e) simp

lemma update_eq_slot_put:
  assumes "assoc_inv t"
  shows "rk_slice_assoc_update_by_rnti t r d u = slot_put assoc_used as_rnti t r
    \<lparr>as_rnti = r, as_dl_id = to_u16 d, as_ul_id = to_u16 u, as_valid = 1\<rparr>"
proof (cases "slot_find assoc_used as_rnti t r")
  case None
  then show ?thesis
    by (cases "slot_free assoc_used t")
      (use slot_free_SomeD [of assoc_used t] in \<open>auto simp: rk_slice_assoc_update_by_rnti_def
        rk_find_slice_assoc_def assoc_find_eq slot_put_def assoc_entry_fill\<close>)
next
  case (Some i)
  note i = slot_find_SomeD [OF Some]
  then have "as_valid (t ! i) = 1"
    using assms nth_mem [of i t] by (force simp: assoc_inv_def assoc_used_def)
  then have "(t ! i)\<lparr>as_dl_id := to_u16 d, as_ul_id := to_u16 u\<rparr> =
      \<lparr>as_rnti = r, as_dl_id = to_u16 d, as_ul_id = to_u16 u, as_valid = 1\<rparr>"
    using i by (cases "t ! i") simp
  then show ?thesis
    by (simp add: Some rk_slice_assoc_update_by_rnti_def rk_find_slice_assoc_def assoc_find_eq
        slot_put_def)
qed

lemma update_eq_assoc_put:
  "rk_slice_assoc_update_by_rnti t r d u = assoc_put r (to_u16 d, to_u16 u) t"
  by (auto simp: assoc_put_def rk_slice_assoc_update_by_rnti_def to_u16_uint
      split: prod.splits option.splits)

lemma assoc_inv_init: "assoc_inv g_rk_slice_assoc_init"
  by (auto simp: assoc_inv_def g_rk_slice_assoc_init_def assoc_used_def intro!: slots_unique_unused)

lemma assoc_get_init: "assoc_get g_rk_slice_assoc_init = Map.empty"
  by (auto simp: assoc_get_def fun_eq_iff slot_map_None g_rk_slice_assoc_init_def assoc_used_def)

lemma set_slot_put: "set (slot_put used key t r e) \<subseteq> insert e (set t)"
  by (auto simp: slot_put_def split: option.splits dest: set_update_subset_insert [THEN subsetD])

interpretation assoc: rnti_store assoc_inv assoc_get assoc_put RK_SLICE_ASSOC_MAX
proof unfold_locales
  fix s r v
  assume inv: "assoc_inv s"
  let ?e = "\<lparr>as_rnti = r, as_dl_id = fst v, as_ul_id = snd v, as_valid = 1\<rparr>"
  have put: "assoc_put r v s = slot_put assoc_used as_rnti s r ?e"
    by (simp add: assoc_put_def update_eq_slot_put [OF inv] cint_simps)
  have u: "slots_unique assoc_used as_rnti s" using inv by (simp add: assoc_inv_def)
  have e: "assoc_used ?e" "as_rnti ?e = r" by (simp_all add: assoc_used_def)
  show "assoc_inv (assoc_put r v s)"
    using inv slots_unique_put [OF u e] set_slot_put [of assoc_used as_rnti s r ?e]
    by (auto simp: assoc_inv_def put)
  show "assoc_get (assoc_put r v s) =
      (if assoc_get s r \<noteq> None \<or> card (dom (assoc_get s)) < RK_SLICE_ASSOC_MAX
       then (assoc_get s)(r \<mapsto> v) else assoc_get s)"
    using slot_map_put [OF u e] inv unfolding put assoc_get_None dom_assoc_get
    by (cases v) (auto simp: assoc_get_def fun_eq_iff assoc_inv_def)
next
  fix s assume "assoc_inv s"
  then show "finite (dom (assoc_get s))" "card (dom (assoc_get s)) \<le> RK_SLICE_ASSOC_MAX"
    using card_dom_slot_map_le [of assoc_used as_rnti s]
    by (simp_all add: dom_assoc_get finite_dom_slot_map assoc_inv_def)
qed

text \<open>The two readers return the bound identifier, or 0 for an unknown RNTI.\<close>

lemma get_dl_id_eq:
  "rk_slice_assoc_get_dl_id t r =
    (case assoc_get t r of None \<Rightarrow> RK_SLICE_ID_NONE | Some (d, u) \<Rightarrow> uint d)"
  by (auto simp: rk_slice_assoc_get_dl_id_def rk_find_slice_assoc_def assoc_get_def slot_map_def
      assoc_find_eq split: option.splits)

lemma get_ul_id_eq:
  "rk_slice_assoc_get_ul_id t r =
    (case assoc_get t r of None \<Rightarrow> RK_SLICE_ID_NONE | Some (d, u) \<Rightarrow> uint u)"
  by (auto simp: rk_slice_assoc_get_ul_id_def rk_find_slice_assoc_def assoc_get_def slot_map_def
      assoc_find_eq split: option.splits)

section \<open>The policy table\<close>

lemma length_policy_table [simp]: "length g_rk_slice_policy_table = 7"
  by (simp add: g_rk_slice_policy_table_def)

lemma policy_ids: "i < 7 \<Longrightarrow> slice_id (g_rk_slice_policy_table ! i) = int i"
  by (auto simp: g_rk_slice_policy_table_def rk_slice_policy_t.defs less_Suc_eq numeral_eq_Suc)

lemma policy_get_eq:
  "rk_slice_policy_get sid =
    g_rk_slice_policy_table ! (if 0 \<le> sid \<and> sid \<le> 6 then nat sid else 0)"
  using policy_ids [of "nat sid"] by (auto simp: rk_slice_policy_get_def Let_def nat_le_iff)

lemma policy_get_mem: "rk_slice_policy_get sid \<in> set g_rk_slice_policy_table"
  by (simp add: policy_get_eq nat_less_iff)

text \<open>
  Every row is usable: its weights are positive finite numbers, a cap is either absent or at least
  the floor, and no field is negative.
\<close>

definition policy_sane :: "rk_slice_policy_t \<Rightarrow> bool" where
  "policy_sane p \<longleftrightarrow>
     fl_pos (dl_weight_mul p) \<and> dl_weight_mul p \<noteq> FInf False \<and>
     fl_pos (ul_weight_mul p) \<and> ul_weight_mul p \<noteq> FInf False \<and>
     0 \<le> dl_rb_floor p \<and> 0 \<le> ul_rb_floor p \<and> 0 \<le> dl_rb_cap p \<and> 0 \<le> ul_rb_cap p \<and>
     (dl_rb_cap p = 0 \<or> dl_rb_floor p \<le> dl_rb_cap p) \<and>
     (ul_rb_cap p = 0 \<or> ul_rb_floor p \<le> ul_rb_cap p) \<and>
     dl_rb_cap p \<le> 50 \<and> ul_rb_cap p \<le> 50 \<and>
     0 \<le> dl_max_consecutive_grants p \<and> 0 \<le> ul_max_consecutive_grants p"

lemma policy_table_sane: "list_all policy_sane g_rk_slice_policy_table"
  by code_simp

lemma policy_get_sane: "policy_sane (rk_slice_policy_get sid)"
  using policy_table_sane policy_get_mem by (auto simp: list_all_iff)

section \<open>The interface of a grant counter\<close>

text \<open>
  What the scheduler relies on, once per direction: \<open>run s r t\<close> is the number of consecutive ticks
  ending at \<open>t - 1\<close> in which \<open>r\<close> was granted, \<open>note\<close> records a grant, \<open>throttle\<close> compares the run
  with a limit, and \<open>room\<close> says that \<open>r\<close> has or can get a slot.
\<close>

locale grant_counter =
  fixes inv :: "'s \<Rightarrow> bool"
    and room :: "'s \<Rightarrow> u16 \<Rightarrow> bool"
    and run :: "'s \<Rightarrow> u16 \<Rightarrow> int \<Rightarrow> int"
    and throttle :: "'s \<Rightarrow> u16 \<Rightarrow> int \<Rightarrow> int \<Rightarrow> bool"
    and note_grant :: "'s \<Rightarrow> u16 \<Rightarrow> int \<Rightarrow> 's"
  assumes throttle_iff: "inv s \<Longrightarrow> throttle s r t mx \<longleftrightarrow> 0 < mx \<and> mx \<le> run s r t"
    and inv_note: "inv s \<Longrightarrow> inv (note_grant s r t)"
    and room_note: "inv s \<Longrightarrow> room s r \<Longrightarrow> room (note_grant s r t) r"
    and run_note: "inv s \<Longrightarrow> room s r \<Longrightarrow>
      run (note_grant s r t) r t' = (if t' = t + 1 then run s r t + 1 else 0)"
    and run_note_other: "inv s \<Longrightarrow> q \<noteq> r \<Longrightarrow> run (note_grant s r t) q t' = run s q t'"
begin

lemma inv_grants: "inv s \<Longrightarrow> inv (fold (\<lambda>i s. note_grant s r (t + int i)) is s)"
  by (induction "is" arbitrary: s) (auto simp: inv_note)

lemma room_grants:
  "inv s \<Longrightarrow> room s r \<Longrightarrow> room (fold (\<lambda>i s. note_grant s r (t + int i)) is s) r"
  by (induction "is" arbitrary: s) (auto simp: inv_note room_note)

lemma run_grants:
  assumes "inv s" and "room s r"
  shows "run (fold (\<lambda>i s. note_grant s r (t + int i)) [0..<k] s) r (t + int k) = run s r t + int k"
proof (induction k)
  case (Suc k)
  have "run (note_grant (fold (\<lambda>i s. note_grant s r (t + int i)) [0..<k] s) r (t + int k)) r
      (t + int k + 1) = run s r t + int k + 1"
    using assms by (simp add: run_note inv_grants room_grants Suc.IH)
  then show ?case by (simp add: algebra_simps)
qed simp

text \<open>After \<open>k\<close> grants in a row the throttle fires exactly when the run has reached its limit.\<close>

lemma throttle_after_grants:
  assumes "inv s" and "room s r"
  shows "throttle (fold (\<lambda>i s. note_grant s r (t + int i)) [0..<k] s) r (t + int k) mx \<longleftrightarrow>
    0 < mx \<and> mx \<le> run s r t + int k"
  by (simp add: throttle_iff inv_grants assms run_grants)

lemma no_throttle_after_gap:
  "inv s \<Longrightarrow> room s r \<Longrightarrow> t' \<noteq> t + 1 \<Longrightarrow> \<not> throttle (note_grant s r t) r t' mx"
  by (simp add: throttle_iff inv_note run_note)

lemma throttle_other:
  "inv s \<Longrightarrow> q \<noteq> r \<Longrightarrow> throttle (note_grant s r t) q t' mx = throttle s q t' mx"
  by (simp add: throttle_iff inv_note run_note_other)

end

section \<open>The runtime counters are two grant counters\<close>

definition rt_used :: "rk_slice_runtime_entry_t \<Rightarrow> bool" where
  "rt_used e \<longleftrightarrow> rt_valid e \<noteq> 0"

definition runtime_inv :: "runtime_table \<Rightarrow> bool" where
  "runtime_inv t \<longleftrightarrow> length t = RK_SLICE_RUNTIME_MAX \<and> slots_unique rt_used rt_rnti t"

definition runtime_map :: "runtime_table \<Rightarrow> u16 \<rightharpoonup> rk_slice_runtime_entry_t" where
  "runtime_map t = slot_map rt_used rt_rnti t"

definition runtime_room :: "runtime_table \<Rightarrow> u16 \<Rightarrow> bool" where
  "runtime_room t r \<longleftrightarrow> runtime_map t r \<noteq> None \<or> card (dom (runtime_map t)) < RK_SLICE_RUNTIME_MAX"

definition runtime_fresh :: "u16 \<Rightarrow> rk_slice_runtime_entry_t" where
  "runtime_fresh r = \<lparr>rt_rnti = r, rt_valid = 1, last_dl_tick = -1, last_ul_tick = -1,
     dl_consecutive_grants = 0, ul_consecutive_grants = 0\<rparr>"

definition runtime_entry :: "runtime_table \<Rightarrow> u16 \<Rightarrow> rk_slice_runtime_entry_t" where
  "runtime_entry t r = (case runtime_map t r of None \<Rightarrow> runtime_fresh r | Some e \<Rightarrow> e)"

definition dl_bump :: "int \<Rightarrow> rk_slice_runtime_entry_t \<Rightarrow> rk_slice_runtime_entry_t" where
  "dl_bump now e = e\<lparr>dl_consecutive_grants :=
     (if last_dl_tick e = now - 1 then dl_consecutive_grants e + 1 else 1), last_dl_tick := now\<rparr>"

definition ul_bump :: "int \<Rightarrow> rk_slice_runtime_entry_t \<Rightarrow> rk_slice_runtime_entry_t" where
  "ul_bump now e = e\<lparr>ul_consecutive_grants :=
     (if last_ul_tick e = now - 1 then ul_consecutive_grants e + 1 else 1), last_ul_tick := now\<rparr>"

definition dl_run :: "runtime_table \<Rightarrow> u16 \<Rightarrow> int \<Rightarrow> int" where
  "dl_run t r now = (let e = runtime_entry t r
     in if last_dl_tick e = now - 1 then dl_consecutive_grants e else 0)"

definition ul_run :: "runtime_table \<Rightarrow> u16 \<Rightarrow> int \<Rightarrow> int" where
  "ul_run t r now = (let e = runtime_entry t r
     in if last_ul_tick e = now - 1 then ul_consecutive_grants e else 0)"

lemma runtime_find_eq:
  "first_index (\<lambda>e. rt_valid e \<noteq> 0 \<and> rt_rnti e = r) t = slot_find rt_used rt_rnti t r"
  "first_index (\<lambda>e. rt_valid e = 0) t = slot_free rt_used t"
  by (simp_all add: slot_find_def slot_free_def rt_used_def)

lemma runtime_entry_fill:
  "e\<lparr>rt_valid := 1, rt_rnti := r, last_dl_tick := -1, last_ul_tick := -1,
     dl_consecutive_grants := 0, ul_consecutive_grants := 0\<rparr> = runtime_fresh r"
  by (cases e) (simp add: runtime_fresh_def)

lemma runtime_map_used: "runtime_map t r = Some e \<Longrightarrow> rt_used e \<and> rt_rnti e = r"
  by (auto simp: runtime_map_def slot_map_def dest: slot_find_SomeD)

lemma runtime_entry_used: "rt_used (runtime_entry t r) \<and> rt_rnti (runtime_entry t r) = r"
  by (auto simp: runtime_entry_def runtime_fresh_def rt_used_def
      dest: runtime_map_used [unfolded rt_used_def] split: option.splits)

lemma note_dl_eq_put:
  "rk_slice_runtime_note_dl_grant t r now =
    slot_put rt_used rt_rnti t r (dl_bump now (runtime_entry t r))"
proof (cases "slot_find rt_used rt_rnti t r")
  case None
  then show ?thesis
    by (cases "slot_free rt_used t")
      (use slot_free_SomeD [of rt_used t] in \<open>auto simp: rk_slice_runtime_note_dl_grant_def
        rk_find_slice_runtime_def runtime_find_eq slot_put_def runtime_entry_fill dl_bump_def
        runtime_entry_def runtime_map_def slot_map_def Let_def\<close>)
next
  case (Some i)
  then show ?thesis
    by (simp add: rk_slice_runtime_note_dl_grant_def rk_find_slice_runtime_def runtime_find_eq
        slot_put_def dl_bump_def runtime_entry_def runtime_map_def slot_map_def Let_def)
qed

lemma note_ul_eq_put:
  "rk_slice_runtime_note_ul_grant t r now =
    slot_put rt_used rt_rnti t r (ul_bump now (runtime_entry t r))"
proof (cases "slot_find rt_used rt_rnti t r")
  case None
  then show ?thesis
    by (cases "slot_free rt_used t")
      (use slot_free_SomeD [of rt_used t] in \<open>auto simp: rk_slice_runtime_note_ul_grant_def
        rk_find_slice_runtime_def runtime_find_eq slot_put_def runtime_entry_fill ul_bump_def
        runtime_entry_def runtime_map_def slot_map_def Let_def\<close>)
next
  case (Some i)
  then show ?thesis
    by (simp add: rk_slice_runtime_note_ul_grant_def rk_find_slice_runtime_def runtime_find_eq
        slot_put_def ul_bump_def runtime_entry_def runtime_map_def slot_map_def Let_def)
qed

text \<open>Either kind of grant rewrites the entry of its own RNTI and no other.\<close>

lemma runtime_put:
  assumes inv: "runtime_inv t" and e: "rt_used e" "rt_rnti e = r"
  shows "runtime_inv (slot_put rt_used rt_rnti t r e)"
    and "runtime_room t r \<Longrightarrow> runtime_map (slot_put rt_used rt_rnti t r e) = (runtime_map t)(r \<mapsto> e)"
    and "q \<noteq> r \<Longrightarrow> runtime_map (slot_put rt_used rt_rnti t r e) q = runtime_map t q"
proof -
  have u: "slots_unique rt_used rt_rnti t" and len: "length t = RK_SLICE_RUNTIME_MAX"
    using inv by (simp_all add: runtime_inv_def)
  show "runtime_inv (slot_put rt_used rt_rnti t r e)"
    using slots_unique_put [OF u e] by (simp add: runtime_inv_def len)
  show "runtime_room t r \<Longrightarrow> runtime_map (slot_put rt_used rt_rnti t r e) = (runtime_map t)(r \<mapsto> e)"
    using slot_map_put [OF u e] by (auto simp: runtime_room_def runtime_map_def len)
  show "q \<noteq> r \<Longrightarrow> runtime_map (slot_put rt_used rt_rnti t r e) q = runtime_map t q"
    using slot_map_put [OF u e] by (auto simp: runtime_map_def)
qed

lemma bump_key:
  "rt_used (dl_bump now (runtime_entry t r))" "rt_rnti (dl_bump now (runtime_entry t r)) = r"
  "rt_used (ul_bump now (runtime_entry t r))" "rt_rnti (ul_bump now (runtime_entry t r)) = r"
  using runtime_entry_used [of t r] by (simp_all add: dl_bump_def ul_bump_def rt_used_def)

lemma note_dl_put:
  assumes "runtime_inv t"
  shows "runtime_inv (rk_slice_runtime_note_dl_grant t r now)"
    and "runtime_room t r \<Longrightarrow> runtime_map (rk_slice_runtime_note_dl_grant t r now) =
      (runtime_map t)(r \<mapsto> dl_bump now (runtime_entry t r))"
    and "q \<noteq> r \<Longrightarrow> runtime_map (rk_slice_runtime_note_dl_grant t r now) q = runtime_map t q"
  unfolding note_dl_eq_put using runtime_put [OF assms bump_key(1,2)] by blast+

lemma note_ul_put:
  assumes "runtime_inv t"
  shows "runtime_inv (rk_slice_runtime_note_ul_grant t r now)"
    and "runtime_room t r \<Longrightarrow> runtime_map (rk_slice_runtime_note_ul_grant t r now) =
      (runtime_map t)(r \<mapsto> ul_bump now (runtime_entry t r))"
    and "q \<noteq> r \<Longrightarrow> runtime_map (rk_slice_runtime_note_ul_grant t r now) q = runtime_map t q"
  unfolding note_ul_eq_put using runtime_put [OF assms bump_key(3,4)] by blast+


lemma dl_throttle_eq:
  "rk_slice_runtime_dl_should_throttle t r now mx \<longleftrightarrow> 0 < mx \<and> mx \<le> dl_run t r now"
  by (auto simp: rk_slice_runtime_dl_should_throttle_def rk_find_slice_runtime_def runtime_find_eq
      dl_run_def runtime_entry_def runtime_map_def slot_map_def runtime_fresh_def Let_def
      split: option.splits)

lemma ul_throttle_eq:
  "rk_slice_runtime_ul_should_throttle t r now mx \<longleftrightarrow> 0 < mx \<and> mx \<le> ul_run t r now"
  by (auto simp: rk_slice_runtime_ul_should_throttle_def rk_find_slice_runtime_def runtime_find_eq
      ul_run_def runtime_entry_def runtime_map_def slot_map_def runtime_fresh_def Let_def
      split: option.splits)

interpretation dl_grants: grant_counter runtime_inv runtime_room dl_run
  rk_slice_runtime_dl_should_throttle rk_slice_runtime_note_dl_grant
proof unfold_locales
  fix s r q t t' mx
  assume inv: "runtime_inv s"
  show "rk_slice_runtime_dl_should_throttle s r t mx = (0 < mx \<and> mx \<le> dl_run s r t)"
    by (rule dl_throttle_eq)
  show "runtime_inv (rk_slice_runtime_note_dl_grant s r t)" by (rule note_dl_put(1) [OF inv])
  show "runtime_room (rk_slice_runtime_note_dl_grant s r t) r" if "runtime_room s r"
    using note_dl_put(2) [OF inv that] by (simp add: runtime_room_def)
  show "dl_run (rk_slice_runtime_note_dl_grant s r t) r t' =
      (if t' = t + 1 then dl_run s r t + 1 else 0)" if "runtime_room s r"
    using note_dl_put(2) [OF inv that]
    by (simp add: dl_run_def runtime_entry_def [of "rk_slice_runtime_note_dl_grant s r t"]
        dl_bump_def Let_def)
  show "dl_run (rk_slice_runtime_note_dl_grant s r t) q t' = dl_run s q t'" if "q \<noteq> r"
    using note_dl_put(3) [OF inv that] by (simp add: dl_run_def runtime_entry_def)
qed

interpretation ul_grants: grant_counter runtime_inv runtime_room ul_run
  rk_slice_runtime_ul_should_throttle rk_slice_runtime_note_ul_grant
proof unfold_locales
  fix s r q t t' mx
  assume inv: "runtime_inv s"
  show "rk_slice_runtime_ul_should_throttle s r t mx = (0 < mx \<and> mx \<le> ul_run s r t)"
    by (rule ul_throttle_eq)
  show "runtime_inv (rk_slice_runtime_note_ul_grant s r t)" by (rule note_ul_put(1) [OF inv])
  show "runtime_room (rk_slice_runtime_note_ul_grant s r t) r" if "runtime_room s r"
    using note_ul_put(2) [OF inv that] by (simp add: runtime_room_def)
  show "ul_run (rk_slice_runtime_note_ul_grant s r t) r t' =
      (if t' = t + 1 then ul_run s r t + 1 else 0)" if "runtime_room s r"
    using note_ul_put(2) [OF inv that]
    by (simp add: ul_run_def runtime_entry_def [of "rk_slice_runtime_note_ul_grant s r t"]
        ul_bump_def Let_def)
  show "ul_run (rk_slice_runtime_note_ul_grant s r t) q t' = ul_run s q t'" if "q \<noteq> r"
    using note_ul_put(3) [OF inv that] by (simp add: ul_run_def runtime_entry_def)
qed

lemma runtime_inv_init: "runtime_inv g_rk_slice_runtime_init"
  by (auto simp: runtime_inv_def g_rk_slice_runtime_init_def rt_used_def intro!: slots_unique_unused)

lemma runtime_map_init: "runtime_map g_rk_slice_runtime_init = Map.empty"
  by (auto simp: runtime_map_def fun_eq_iff slot_map_None g_rk_slice_runtime_init_def rt_used_def)

lemma runtime_room_init: "runtime_room g_rk_slice_runtime_init r"
  by (simp add: runtime_room_def runtime_map_init RK_SLICE_RUNTIME_MAX_def)

section \<open>Properties\<close>

text \<open>
  C0. \<^verbatim>\<open>rk_slice_assoc_update_by_rnti\<close> is a bounded map update: in a well-formed table it
  binds the RNTI to the two identifiers (each reduced to 16 bits, as the \<^verbatim>\<open>uint16_t\<close> fields do)
  when the RNTI is known or one of the 256 slots is free, leaves every other RNTI alone, leaves a
  full table unchanged, and keeps the table well formed.
\<close>

theorem slice_assoc_update:
  assumes "assoc_inv t"
  shows "assoc_inv (rk_slice_assoc_update_by_rnti t r d u) \<and>
    assoc_get (rk_slice_assoc_update_by_rnti t r d u) =
      (if assoc_get t r \<noteq> None \<or> card (dom (assoc_get t)) < 256
       then (assoc_get t)(r \<mapsto> (to_u16 d, to_u16 u)) else assoc_get t)"
  using assoc.inv_put [OF assms, of r] assoc.get_put [OF assms, of r "(to_u16 d, to_u16 u)"]
  by (simp add: update_eq_assoc_put RK_SLICE_ASSOC_MAX_def)

theorem slice_assoc_update_witness:
  "assoc_get (rk_slice_assoc_update_by_rnti g_rk_slice_assoc_init 4660 3 65541) =
    [4660 \<mapsto> (3, 5)]"
proof -
  have "to_u16 3 = 3" and "to_u16 65541 = 5" by code_simp+
  then show ?thesis
    using slice_assoc_update [OF assoc_inv_init, of 4660 3 65541] by (simp add: assoc_get_init)
qed

lemma policy_of_bound_ue:
  fixes t r d u
  defines "t' \<equiv> rk_slice_assoc_update_by_rnti t r d u"
  defines "row \<equiv> \<lambda>x. g_rk_slice_policy_table ! (if x mod 65536 \<le> 6 then nat (x mod 65536) else 0)"
  assumes "assoc_inv t" and "assoc_get t r \<noteq> None \<or> card (dom (assoc_get t)) < 256"
  shows "rk_slice_assoc_get_dl_weight t' r = dl_weight_mul (row d) \<and>
    rk_slice_assoc_get_dl_rb_cap t' r = dl_rb_cap (row d) \<and>
    rk_slice_assoc_get_dl_rb_floor t' r = dl_rb_floor (row d) \<and>
    rk_slice_assoc_get_dl_max_consecutive_grants t' r = dl_max_consecutive_grants (row d) \<and>
    rk_slice_assoc_get_ul_weight t' r = ul_weight_mul (row u) \<and>
    rk_slice_assoc_get_ul_rb_cap t' r = ul_rb_cap (row u) \<and>
    rk_slice_assoc_get_ul_rb_floor t' r = ul_rb_floor (row u) \<and>
    rk_slice_assoc_get_ul_max_consecutive_grants t' r = ul_max_consecutive_grants (row u) \<and>
    policy_sane (row d) \<and> policy_sane (row u)"
proof -
  have g: "assoc_get t' r = Some (to_u16 d, to_u16 u)"
    using assms(4) by (auto simp: t'_def update_eq_assoc_put assoc.get_put [OF assms(3)]
        RK_SLICE_ASSOC_MAX_def)
  have row: "rk_slice_policy_get (x mod 65536) = row x" for x
    by (simp add: policy_get_eq row_def)
  have sane: "policy_sane (row x)" for x
    unfolding row [symmetric] by (rule policy_get_sane)
  show ?thesis
    by (simp add: rk_slice_assoc_get_dl_weight_def rk_slice_assoc_get_ul_weight_def
        rk_slice_assoc_get_dl_rb_cap_def rk_slice_assoc_get_ul_rb_cap_def
        rk_slice_assoc_get_dl_rb_floor_def rk_slice_assoc_get_ul_rb_floor_def
        rk_slice_assoc_get_dl_max_consecutive_grants_def
        rk_slice_assoc_get_ul_max_consecutive_grants_def get_dl_id_eq get_ul_id_eq g cint_simps
        row sane)
qed

text \<open>
  C2. The policy a UE runs under is total and sane whatever the controller sent: after a binding
  that fits, the downlink readers return the fields of the row whose number is the identifier
  modulo 65536 when that is one of 1 to 6, and of the neutral row 0 for every other identifier,
  likewise in the uplink, and the weights are positive and finite, the caps at least the floors.
\<close>

theorem slice_policy_of_bound_ue:
  fixes t r d u
  defines "t' \<equiv> rk_slice_assoc_update_by_rnti t r d u"
  defines "row \<equiv> \<lambda>x. g_rk_slice_policy_table ! (if x mod 65536 \<le> 6 then nat (x mod 65536) else 0)"
  assumes "assoc_inv t" and "assoc_get t r \<noteq> None \<or> card (dom (assoc_get t)) < 256"
  shows "rk_slice_assoc_get_dl_weight t' r = dl_weight_mul (row d) \<and>
    rk_slice_assoc_get_dl_rb_cap t' r = dl_rb_cap (row d) \<and>
    rk_slice_assoc_get_dl_rb_floor t' r = dl_rb_floor (row d) \<and>
    rk_slice_assoc_get_dl_max_consecutive_grants t' r = dl_max_consecutive_grants (row d) \<and>
    rk_slice_assoc_get_ul_weight t' r = ul_weight_mul (row u) \<and>
    rk_slice_assoc_get_ul_rb_cap t' r = ul_rb_cap (row u) \<and>
    rk_slice_assoc_get_ul_rb_floor t' r = ul_rb_floor (row u) \<and>
    rk_slice_assoc_get_ul_max_consecutive_grants t' r = ul_max_consecutive_grants (row u) \<and>
    policy_sane (row d) \<and> policy_sane (row u)"
  using policy_of_bound_ue [OF assms(3,4), of d u] unfolding t'_def row_def .

theorem slice_policy_of_bound_ue_witness:
  "rk_slice_assoc_get_dl_rb_cap (rk_slice_assoc_update_by_rnti g_rk_slice_assoc_init 4660 3 8) 4660
    = 50 \<and>
   rk_slice_assoc_get_ul_weight (rk_slice_assoc_update_by_rnti g_rk_slice_assoc_init 4660 3 8) 4660
    = f32 1"
  using slice_policy_of_bound_ue [OF assoc_inv_init, of 4660 3 8]
  by (simp add: assoc_get_init g_rk_slice_policy_table_def rk_slice_policy_t.defs)

text \<open>
  C0. The downlink throttle is exactly the length of the run of consecutive grants: after \<open>k\<close>
  grants at the ticks \<open>t, \<dots>, t + k - 1\<close> it fires at tick \<open>t + k\<close> if and only if a limit is set
  and the run that ended at \<open>t - 1\<close> plus \<open>k\<close> has reached it.
\<close>

theorem dl_throttle_run:
  assumes "runtime_inv s" and "runtime_room s r"
  shows "rk_slice_runtime_dl_should_throttle
      (fold (\<lambda>i s. rk_slice_runtime_note_dl_grant s r (t + int i)) [0..<k] s) r (t + int k) mx \<longleftrightarrow>
    0 < mx \<and> mx \<le> dl_run s r t + int k"
  by (rule dl_grants.throttle_after_grants [OF assms])

theorem dl_throttle_run_witness:
  "rk_slice_runtime_dl_should_throttle
     (rk_slice_runtime_note_dl_grant (rk_slice_runtime_note_dl_grant g_rk_slice_runtime_init 7 100)
       7 101) 7 102 2"
  using dl_throttle_run [OF runtime_inv_init runtime_room_init, of 7 100 2 2]
  by (simp add: numeral_2_eq_2 dl_run_def runtime_entry_def runtime_map_init runtime_fresh_def)

text \<open>
  The uplink counter obeys the same law, a tick without a grant clears it, and a grant in one
  direction or to one RNTI never changes the run of the other direction or of another RNTI.
\<close>

lemma ul_throttle_isolation:
  assumes "runtime_inv s" and "runtime_room s r"
  shows "rk_slice_runtime_ul_should_throttle
      (fold (\<lambda>i s. rk_slice_runtime_note_ul_grant s r (t + int i)) [0..<k] s) r (t + int k) mx
        = (0 < mx \<and> mx \<le> ul_run s r t + int k) \<and>
    (t' \<noteq> t + 1 \<longrightarrow> \<not> rk_slice_runtime_ul_should_throttle
        (rk_slice_runtime_note_ul_grant s r t) r t' mx) \<and>
    (q \<noteq> r \<longrightarrow> rk_slice_runtime_ul_should_throttle (rk_slice_runtime_note_ul_grant s r t) q t' mx
        = rk_slice_runtime_ul_should_throttle s q t' mx) \<and>
    (rk_slice_runtime_ul_should_throttle (rk_slice_runtime_note_dl_grant s r t) q t' mx
        = rk_slice_runtime_ul_should_throttle s q t' mx)"
proof -
  have "ul_run (rk_slice_runtime_note_dl_grant s r t) q t' = ul_run s q t'"
  proof (cases "q = r")
    case True
    then show ?thesis using note_dl_put(2) [OF assms]
      by (simp add: ul_run_def runtime_entry_def [of "rk_slice_runtime_note_dl_grant s r t"]
          dl_bump_def Let_def)
  next
    case False
    then show ?thesis using note_dl_put(3) [OF assms(1), of q r]
      by (simp add: ul_run_def runtime_entry_def)
  qed
  then show ?thesis
    using ul_grants.throttle_after_grants [OF assms] ul_grants.no_throttle_after_gap [OF assms]
      ul_grants.throttle_other [OF assms(1)] by (simp add: ul_throttle_eq)
qed

end
