(* ===== verification/SliceAgent.thy ===== *)
theory SliceAgent imports SlicePolicy begin

text \<open>
  The E2 agent's slice service model, \<^verbatim>\<open>gnb_patch/ran_func_slice.c\<close>: the control handler that
  bridges UE-to-slice associations of an E2 message into the scheduler's association table, and
  the two read handlers.  The message types belong to FlexRIC; the datatypes below hold the parts
  of them that this file reads.  A failed \<^verbatim>\<open>assert\<close> is an error value.
\<close>

section \<open>Messages\<close>

record ue_slice_assoc_t =
  a_rnti :: int
  a_dl_id :: int
  a_ul_id :: int

text \<open>The pointer \<^verbatim>\<open>ues\<close> is NULL or the array it points to; \<^verbatim>\<open>len_ue_slice\<close> is a separate field.\<close>

record ue_slice_conf_t =
  ues :: "ue_slice_assoc_t list option"
  len_ue_slice :: nat

datatype slice_ctrl_msg_t =
    SLICE_CTRL_SM_V0_ADD
  | SLICE_CTRL_SM_V0_DEL
  | SLICE_CTRL_SM_V0_UE_SLICE_ASSOC ue_slice_conf_t
  | SLICE_CTRL_SM_V0_other int

datatype agent_error = AssertFailed | OutOfBounds

datatype sm_ag_if_ans_t = SLICE_AGENT_IF_CTRL_ANS_V0

section \<open>Handlers\<close>

text \<open>The read of a slice indication is filled in by FlexRIC: \<open>fill\<close> is a parameter.\<close>

definition read_slice_sm :: "('d \<Rightarrow> 'd) \<Rightarrow> 'd option \<Rightarrow> agent_error + (bool \<times> 'd)" where
  "read_slice_sm fill data =
     (case data of None \<Rightarrow> Inl AssertFailed | Some d \<Rightarrow> Inr (True, fill d))"

definition read_slice_setup_sm :: "'d option \<Rightarrow> agent_error + unit" where
  "read_slice_setup_sm data =
     (case data of None \<Rightarrow> Inl AssertFailed | Some _ \<Rightarrow> Inl AssertFailed)"

text \<open>\<open>for (size_t i = 0; i < len; ++i) rk_slice_assoc_update_by_rnti(ues[i] \<dots>)\<close>, from index \<open>i\<close>.\<close>

function assoc_loop ::
    "ue_slice_assoc_t list \<Rightarrow> nat \<Rightarrow> nat \<Rightarrow> assoc_table \<Rightarrow> agent_error + assoc_table" where
  "assoc_loop us len i t =
     (if \<not> i < len then Inr t
      else if \<not> i < length us then Inl OutOfBounds
      else let a = us ! i in
           assoc_loop us len (i + 1)
             (rk_slice_assoc_update_by_rnti t (to_u16 (a_rnti a)) (to_i32 (a_dl_id a))
               (to_i32 (a_ul_id a))))"
  by pat_completeness auto
termination by (relation "measure (\<lambda>(us, len, i, t). len - i)") auto

declare assoc_loop.simps [simp del]

definition write_ctrl_slice_sm ::
    "slice_ctrl_msg_t option \<Rightarrow> assoc_table \<Rightarrow> agent_error + (sm_ag_if_ans_t \<times> assoc_table)" where
  "write_ctrl_slice_sm data t =
     (case data of
        None \<Rightarrow> Inl AssertFailed
      | Some SLICE_CTRL_SM_V0_ADD \<Rightarrow> Inr (SLICE_AGENT_IF_CTRL_ANS_V0, t)
      | Some SLICE_CTRL_SM_V0_DEL \<Rightarrow> Inr (SLICE_AGENT_IF_CTRL_ANS_V0, t)
      | Some (SLICE_CTRL_SM_V0_UE_SLICE_ASSOC ue_slice) \<Rightarrow>
          (case ues ue_slice of
             Some us \<Rightarrow>
               if 0 < len_ue_slice ue_slice
               then (case assoc_loop us (len_ue_slice ue_slice) 0 t of
                       Inl err \<Rightarrow> Inl err
                     | Inr t' \<Rightarrow> Inr (SLICE_AGENT_IF_CTRL_ANS_V0, t'))
               else Inr (SLICE_AGENT_IF_CTRL_ANS_V0, t)
           | None \<Rightarrow> Inr (SLICE_AGENT_IF_CTRL_ANS_V0, t))
      | Some (SLICE_CTRL_SM_V0_other _) \<Rightarrow> Inl AssertFailed)"

section \<open>The batch of an association message\<close>

definition assoc_of_ue :: "ue_slice_assoc_t \<Rightarrow> u16 \<times> u16 \<times> u16" where
  "assoc_of_ue a = (to_u16 (a_rnti a), to_u16 (to_i32 (a_dl_id a)), to_u16 (to_i32 (a_ul_id a)))"

lemma assoc_loop_eq:
  "i \<le> len \<Longrightarrow> len \<le> length us \<Longrightarrow>
   assoc_loop us len i t =
     Inr (fold (\<lambda>(r, v). assoc_put r v) (map assoc_of_ue (drop i (take len us))) t)"
proof (induction us len i t rule: assoc_loop.induct)
  case (1 us len i t)
  show ?case
  proof (cases "i < len")
    case True
    then have "drop i (take len us) = us ! i # drop (i + 1) (take len us)"
      using "1.prems" by (simp add: Cons_nth_drop_Suc [symmetric])
    then show ?thesis
      using True 1 by (simp add: assoc_loop.simps [of us len i] Let_def assoc_of_ue_def
          update_eq_assoc_put)
  next
    case False
    then show ?thesis using 1 by (simp add: assoc_loop.simps [of us len len])
  qed
qed

lemma assoc_loop_oob: "i \<le> length us \<Longrightarrow> length us < len \<Longrightarrow> assoc_loop us len i t = Inl OutOfBounds"
  by (induction us len i t rule: assoc_loop.induct)
    (subst assoc_loop.simps, auto simp: Let_def)

section \<open>Properties\<close>

text \<open>
  C13. An association message whose RNTIs fit into the table is applied completely: the handler
  answers, every listed RNTI is bound to the identifiers of its last element (reduced to 16 bits),
  every other binding is kept, and the table stays well formed.
\<close>

theorem assoc_message_applied:
  assumes "assoc_inv t" and "n \<le> length us"
    and "card (dom (assoc_get t) \<union> (\<lambda>a. to_u16 (a_rnti a)) ` set (take n us)) \<le> 256"
  shows "\<exists>t'. write_ctrl_slice_sm (Some (SLICE_CTRL_SM_V0_UE_SLICE_ASSOC
      \<lparr>ues = Some us, len_ue_slice = n\<rparr>)) t = Inr (SLICE_AGENT_IF_CTRL_ANS_V0, t') \<and>
    assoc_inv t' \<and> assoc_get t' = assoc_get t ++ map_of (rev (map assoc_of_ue (take n us)))"
proof -
  let ?t = "fold (\<lambda>(r, v). assoc_put r v) (map assoc_of_ue (take n us)) t"
  have "fst ` set (map assoc_of_ue (take n us)) = (\<lambda>a. to_u16 (a_rnti a)) ` set (take n us)"
    by (auto simp: assoc_of_ue_def image_image)
  then have "assoc_get ?t = assoc_get t ++ map_of (rev (map assoc_of_ue (take n us)))"
    using assms(3) by (intro assoc.get_fold [OF assms(1)]) (simp add: RK_SLICE_ASSOC_MAX_def)
  moreover have "assoc_inv ?t" by (rule assoc.inv_fold [OF assms(1)])
  moreover have "write_ctrl_slice_sm (Some (SLICE_CTRL_SM_V0_UE_SLICE_ASSOC
      \<lparr>ues = Some us, len_ue_slice = n\<rparr>)) t = Inr (SLICE_AGENT_IF_CTRL_ANS_V0, ?t)"
    using assms(2) by (cases n) (auto simp: write_ctrl_slice_sm_def assoc_loop_eq)
  ultimately show ?thesis by blast
qed

theorem assoc_message_applied_witness:
  "\<exists>t'. write_ctrl_slice_sm (Some (SLICE_CTRL_SM_V0_UE_SLICE_ASSOC
      \<lparr>ues = Some [\<lparr>a_rnti = 9, a_dl_id = 3, a_ul_id = 5\<rparr>], len_ue_slice = 1\<rparr>))
      g_rk_slice_assoc_init = Inr (SLICE_AGENT_IF_CTRL_ANS_V0, t') \<and>
    assoc_inv t' \<and> assoc_get t' = [9 \<mapsto> (3, 5)]"
proof -
  have "to_u16 9 = 9" "to_u16 (to_i32 3) = 3" "to_u16 (to_i32 5) = 5" by code_simp+
  then show ?thesis
    using assoc_message_applied [OF assoc_inv_init,
        of 1 "[\<lparr>a_rnti = 9, a_dl_id = 3, a_ul_id = 5\<rparr>]"]
    by (simp add: assoc_get_init assoc_of_ue_def)
qed

text \<open>
  Every other message leaves the association table as it is: ADD, DEL and an empty or missing
  UE list are answered without an effect, a missing message and an unknown type stop at an
  assertion, and a length field beyond the array is the only way to read out of bounds.
\<close>

lemma other_messages_inert:
  "write_ctrl_slice_sm None t = Inl AssertFailed \<and>
   write_ctrl_slice_sm (Some SLICE_CTRL_SM_V0_ADD) t = Inr (SLICE_AGENT_IF_CTRL_ANS_V0, t) \<and>
   write_ctrl_slice_sm (Some SLICE_CTRL_SM_V0_DEL) t = Inr (SLICE_AGENT_IF_CTRL_ANS_V0, t) \<and>
   write_ctrl_slice_sm (Some (SLICE_CTRL_SM_V0_other k)) t = Inl AssertFailed \<and>
   write_ctrl_slice_sm (Some (SLICE_CTRL_SM_V0_UE_SLICE_ASSOC \<lparr>ues = None, len_ue_slice = n\<rparr>)) t
     = Inr (SLICE_AGENT_IF_CTRL_ANS_V0, t) \<and>
   write_ctrl_slice_sm (Some (SLICE_CTRL_SM_V0_UE_SLICE_ASSOC \<lparr>ues = p, len_ue_slice = 0\<rparr>)) t
     = Inr (SLICE_AGENT_IF_CTRL_ANS_V0, t) \<and>
   (write_ctrl_slice_sm (Some (SLICE_CTRL_SM_V0_UE_SLICE_ASSOC \<lparr>ues = Some us, len_ue_slice = n\<rparr>)) t
      = Inl OutOfBounds) = (length us < n)"
proof -
  have "(write_ctrl_slice_sm (Some (SLICE_CTRL_SM_V0_UE_SLICE_ASSOC
      \<lparr>ues = Some us, len_ue_slice = n\<rparr>)) t = Inl OutOfBounds) = (length us < n)"
    using assoc_loop_eq [of 0 n us t] assoc_loop_oob [of 0 us n t]
    by (cases "length us < n") (auto simp: write_ctrl_slice_sm_def)
  then show ?thesis by (simp add: write_ctrl_slice_sm_def split: option.split)
qed

end
