(* ===== verification/Controller.thy ===== *)
theory Controller imports PyValue StateFile SliceAgent begin

text \<open>
  The controller, \<^verbatim>\<open>spark_ran_side/control_xapp.py\<close>: its registry of UEs, the choice of the RNTI a
  command is for, the postures of UEs with the state file, and the binding of UEs to slices over
  the E2 connection.  A Python global is a field of the state; a handler takes a request (a
  dictionary) and returns the new state with either a reply or a raised exception, which
  \<^verbatim>\<open>serve_forever\<close> turns into an error reply.

  The xApp SDK is a parameter: which nodes are connected (\<open>conn_e2_nodes\<close>), what sending a control
  message to a node does to it (\<open>control_slice_sm\<close>, which also gives up after a timeout), and
  whether the SDK accepts the fields of a message (\<open>make_assoc\<close>, \<open>conf_accepted\<close>).  The clock is
  read once per request.  The replies keep the fields of the source except for texts of exceptions,
  paths, constants and node data of the SDK, the time since the start and summaries for humans.
\<close>

section \<open>State\<close>

record 'n ctl =
  UE_REGISTRY :: "(int \<times> dict) list"
  LAST_RNTI :: "int option"
  CURRENT_SCHEDULER_RNTI :: "int option"
  CURRENT_SCHEDULER_RNTI_TS :: "fl option"
  UE_UL_LA_REGISTRY :: registry
  STATE :: dict
  ue_la_file :: "string option"
  ran :: "nat \<Rightarrow> 'n"

datatype sm_result = SmRet json | SmTimeout | SmRaised

datatype slice_kind = StaticSlice | CapacitySlice | RateSlice

text \<open>
  What a request meets outside the program.  \<open>ue_la_written\<close> tells whether writing and renaming
  the temporary file succeeds.
\<close>

record 'n ctl_env =
  clock :: fl
  UE_TTL_S :: int
  UE_ACTIVE_MAX_AGE_S :: fl
  repr_of :: "json \<Rightarrow> string"
  profiles_file :: "json option"
  ue_la_written :: bool
  sdk_ctrl_add :: bool
  sdk_ctrl_assoc :: bool
  conn_e2_nodes :: "nat list option"
  main_node :: "nat option"
  make_assoc :: "int \<Rightarrow> int \<Rightarrow> int \<Rightarrow> ue_slice_assoc_t option"
  conf_accepted :: "slice_kind \<Rightarrow> json \<Rightarrow> bool"
  control_slice_sm :: "'n \<Rightarrow> slice_ctrl_msg_t \<Rightarrow> 'n \<times> sm_result"

datatype pyexn = BadValue | KeyError | NameError | OSError | SdkError

type_synonym reply = "pyexn + dict"

definition ok :: "dict \<Rightarrow> dict" where
  "ok kw = (''ok'', JBool True) # kw"

definition err :: "string \<Rightarrow> dict \<Rightarrow> dict" where
  "err msg kw = (''ok'', JBool False) # (''error'', JStr msg) # kw"

definition replied_ok :: "dict \<Rightarrow> bool" where
  "replied_ok d \<longleftrightarrow> py_truthy (dget d ''ok'')"

definition opt_int_json :: "int option \<Rightarrow> json" where
  "opt_int_json v = (case v of None \<Rightarrow> JNull | Some i \<Rightarrow> JInt i)"

definition opt_fl_json :: "fl option \<Rightarrow> json" where
  "opt_fl_json v = (case v of None \<Rightarrow> JNull | Some x \<Rightarrow> JFloat x)"

definition py_or :: "json \<Rightarrow> json \<Rightarrow> json" where
  "py_or a b = (if py_truthy a then a else b)"

text \<open>The entries of a dictionary value; every other value stands for \<open>{}\<close>.\<close>

definition dict_of :: "json \<Rightarrow> dict" where
  "dict_of v = (case v of JObj d \<Rightarrow> d | _ \<Rightarrow> [])"

definition state_put :: "dict \<Rightarrow> 'n ctl \<Rightarrow> 'n ctl" where
  "state_put kw c = c\<lparr>STATE := dupdate (STATE c) kw\<rparr>"

section \<open>The registry of UEs\<close>

datatype touch_kind = TInt | TFloat | TStr

text \<open>The keyword arguments of \<^verbatim>\<open>touch_ue\<close> that are stored under their own name, in its order.\<close>

definition touch_fields :: "(string \<times> touch_kind) list" where
  "touch_fields =
     [(''ue_idx'', TInt), (''ul_bytes'', TInt), (''dl_bytes'', TInt), (''rsrp'', TFloat),
      (''snr'', TFloat), (''role'', TStr), (''dl_id'', TInt), (''ul_id'', TInt),
      (''profile'', TStr), (''dl_mul'', TFloat), (''ul_mul'', TFloat), (''dl_cap'', TInt),
      (''ul_cap'', TInt), (''dl_floor'', TInt), (''ul_floor'', TInt), (''dl_maxcg'', TInt),
      (''ul_maxcg'', TInt), (''dl_rbSize'', TInt), (''ul_rbSize'', TInt),
      (''dl_current_rbs'', TInt), (''ul_current_rbs'', TInt), (''ul_max_mcs'', TInt),
      (''min_grant_prb'', TInt), (''ulsch_max_frame_inactivity'', TInt),
      (''pusch_target_snrx10'', TInt), (''ul_sched_mul'', TFloat), (''ul_maxcg_override'', TInt),
      (''ul_small_burst_bytes'', TInt), (''ul_small_burst_mul'', TFloat),
      (''ul_small_burst_hit'', TInt), (''dl_max_mcs'', TInt), (''dl_min_grant_prb'', TInt),
      (''dl_sched_mul'', TFloat), (''dl_maxcg_override'', TInt), (''dl_small_burst_bytes'', TInt),
      (''dl_small_burst_mul'', TFloat), (''dl_small_burst_hit'', TInt), (''tpc0'', TInt),
      (''pusch_snrx10'', TInt)]"

text \<open>\<^verbatim>\<open>_set_int\<close> and \<^verbatim>\<open>_set_float\<close> leave the entry alone when the conversion raises.\<close>

definition set_int :: "string \<Rightarrow> json \<Rightarrow> dict \<Rightarrow> dict" where
  "set_int k v e = (case py_int v of Some i \<Rightarrow> dput k (JInt i) e | None \<Rightarrow> e)"

definition set_float :: "string \<Rightarrow> json \<Rightarrow> dict \<Rightarrow> dict" where
  "set_float k v e = (case py_float v of Some x \<Rightarrow> dput k (JFloat x) e | None \<Rightarrow> e)"

definition touch_field :: "(json \<Rightarrow> string) \<Rightarrow> dict \<Rightarrow> string \<times> touch_kind \<Rightarrow> dict \<Rightarrow> dict" where
  "touch_field rp kw f e =
     (case f of (k, kind) \<Rightarrow>
        let v = dget kw k in
        if v = JNull then e
        else case kind of
               TInt \<Rightarrow> set_int k v e
             | TFloat \<Rightarrow> set_float k v e
             | TStr \<Rightarrow> dput k (JStr (py_str rp v)) e)"

text \<open>\<^verbatim>\<open>_set_int(k, int(entry.get(k, 0)) + n)\<close>; the stored counts are always integers.\<close>

definition count_up :: "string \<Rightarrow> int \<Rightarrow> dict \<Rightarrow> dict" where
  "count_up k n e =
     (case py_int (dget_or e k (JInt 0)) of Some i \<Rightarrow> dput k (JInt (i + n)) e | None \<Rightarrow> e)"

definition touch_throttled :: "dict \<Rightarrow> string \<Rightarrow> string \<Rightarrow> dict \<Rightarrow> dict" where
  "touch_throttled kw k kcount e =
     (let v = dget kw k in
      if v = JNull then e
      else let e = dput k (JBool (py_truthy v)) e in if py_truthy v then count_up kcount 1 e else e)"

definition touch_count :: "dict \<Rightarrow> string \<Rightarrow> string \<Rightarrow> dict \<Rightarrow> dict" where
  "touch_count kw k kcount e =
     (case py_int (dget kw k) of Some n \<Rightarrow> count_up kcount n e | None \<Rightarrow> e)"

definition touch_meta :: "(json \<Rightarrow> string) \<Rightarrow> dict \<Rightarrow> dict \<Rightarrow> dict" where
  "touch_meta rp meta e =
     (if meta = [] then e
      else
        let e = dput ''meta'' (JObj (dupdate (dict_of (dget e ''meta'')) meta)) e;
            src = py_str rp (py_or (dget meta ''src'') (JStr []))
        in if src = ''gnb_rnti_watcher'' \<or> src = ''rnti_watcher''
           then dput ''source_family'' (JStr src) e else e)"

definition touch_entry :: "'n ctl_env \<Rightarrow> dict \<Rightarrow> dict \<Rightarrow> dict \<Rightarrow> dict" where
  "touch_entry env meta kw e =
     (let rp = repr_of env;
          e = dput ''last_seen'' (JFloat (clock env)) e;
          e = touch_meta rp meta e;
          e = fold (touch_field rp kw) touch_fields e;
          e = touch_throttled kw ''dl_throttled'' ''dl_throttled_count'' e;
          e = touch_throttled kw ''ul_throttled'' ''ul_throttled_count'' e;
          e = touch_count kw ''ul_event_inc'' ''ul_event_count'' e;
          e = touch_count kw ''dl_event_inc'' ''dl_event_count'' e;
          e = touch_count kw ''ul_grant_inc'' ''ul_grant_count'' e;
          e = touch_count kw ''dl_grant_inc'' ''dl_grant_count'' e
      in if dget kw ''last_reason'' = JNull then e
         else dput ''last_reason'' (JStr (py_str rp (dget kw ''last_reason''))) e)"

definition ue_entry :: "'n ctl \<Rightarrow> int \<Rightarrow> dict" where
  "ue_entry c rnti = (case map_of (UE_REGISTRY c) rnti of None \<Rightarrow> [] | Some e \<Rightarrow> e)"

definition touch_ue :: "'n ctl_env \<Rightarrow> int \<Rightarrow> dict \<Rightarrow> dict \<Rightarrow> 'n ctl \<Rightarrow> 'n ctl" where
  "touch_ue env rnti meta kw c =
     (if rnti \<le> 0 then c
      else state_put [(''last_rnti'', JInt rnti)]
        (c\<lparr>UE_REGISTRY := AList.update rnti (touch_entry env meta kw (ue_entry c rnti))
             (UE_REGISTRY c),
           LAST_RNTI := Some rnti\<rparr>))"

text \<open>\<^verbatim>\<open>float(e.get("last_seen", 0))\<close>; every entry has the time of its last touch.\<close>

definition last_seen_of :: "dict \<Rightarrow> fl" where
  "last_seen_of e =
     (case py_float (dget_or e ''last_seen'' (JInt 0)) of Some v \<Rightarrow> v | None \<Rightarrow> fl_zero)"

definition ue_age :: "'n ctl_env \<Rightarrow> dict \<Rightarrow> fl" where
  "ue_age env e = fl_sub binary64 (clock env) (last_seen_of e)"

definition prune_ues :: "'n ctl_env \<Rightarrow> 'n ctl \<Rightarrow> 'n ctl" where
  "prune_ues env c =
     c\<lparr>UE_REGISTRY := filter (\<lambda>(r, e).
         \<not> fl_lt (fl_of_int binary64 (UE_TTL_S env)) (ue_age env e)) (UE_REGISTRY c)\<rparr>"

definition fl_rank :: "fl \<Rightarrow> rat" where
  "fl_rank v = (case v of FFin s m \<Rightarrow> signed s m | _ \<Rightarrow> 0)"

definition entry_src :: "'n ctl_env \<Rightarrow> dict \<Rightarrow> string" where
  "entry_src env e =
     py_str (repr_of env)
       (py_or (dget e ''source_family'')
         (py_or (dget (dict_of (dget e ''meta'')) ''src'') (JStr [])))"

text \<open>\<^verbatim>\<open>list_ues\<close>: the entries, latest first, entries of the same time in their order.\<close>

definition list_ues :: "'n ctl_env \<Rightarrow> bool \<Rightarrow> fl \<Rightarrow> json \<Rightarrow> 'n ctl \<Rightarrow> 'n ctl \<times> (int \<times> dict) list" where
  "list_ues env active_only max_age src c =
     (let c = prune_ues env c in
      (c, sort_key (\<lambda>(r, e). - fl_rank (last_seen_of e))
           (filter (\<lambda>(r, e). \<not> (active_only \<and> fl_lt max_age (ue_age env e)) \<and>
              (py_truthy src \<longrightarrow> entry_src env e = py_str (repr_of env) src)) (UE_REGISTRY c))))"

definition role_of :: "'n ctl_env \<Rightarrow> dict \<Rightarrow> string" where
  "role_of env e = py_str (repr_of env) (py_or (dget e ''role'') (JStr ''unknown''))"

definition pick_by_role :: "'n ctl_env \<Rightarrow> json \<Rightarrow> (int \<times> dict) list \<Rightarrow> (int \<times> dict) list" where
  "pick_by_role env role items =
     (if \<not> py_truthy role then items
      else filter (\<lambda>(r, e). py_norm (role_of env e) = py_norm (py_str (repr_of env) role)) items)"

text \<open>The fields of an entry that \<^verbatim>\<open>list_ues\<close> copies into an item, apart from those it computes.\<close>

definition item_fields :: "string list" where
  "item_fields =
     [''ue_idx'', ''ul_bytes'', ''dl_bytes'', ''rsrp'', ''snr'', ''dl_id'', ''ul_id'', ''profile'',
      ''dl_mul'', ''ul_mul'', ''dl_cap'', ''ul_cap'', ''dl_floor'', ''ul_floor'', ''dl_maxcg'',
      ''ul_maxcg'', ''dl_rbSize'', ''ul_rbSize'', ''dl_current_rbs'', ''ul_current_rbs'',
      ''dl_throttled'', ''ul_throttled'', ''dl_throttled_count'', ''ul_throttled_count'',
      ''dl_grant_count'', ''ul_grant_count'', ''ul_event_count'', ''dl_event_count'',
      ''ul_max_mcs'', ''min_grant_prb'', ''ulsch_max_frame_inactivity'', ''pusch_target_snrx10'',
      ''ul_sched_mul'', ''ul_maxcg_override'', ''ul_small_burst_bytes'', ''ul_small_burst_mul'',
      ''ul_small_burst_hit'', ''dl_max_mcs'', ''dl_min_grant_prb'', ''dl_sched_mul'',
      ''dl_maxcg_override'', ''dl_small_burst_bytes'', ''dl_small_burst_mul'',
      ''dl_small_burst_hit'', ''tpc0'', ''pusch_snrx10'', ''last_reason'', ''source_family'']"

definition ue_item :: "'n ctl_env \<Rightarrow> int \<times> dict \<Rightarrow> json" where
  "ue_item env x =
     (case x of (r, e) \<Rightarrow>
        JObj ([(''rnti'', JInt r), (''rnti_hex'', JStr (py_hex r)),
               (''role'', py_or (dget e ''role'') (JStr ''unknown''))] @
              map (\<lambda>k. (k, dget e k)) item_fields @
              [(''last_seen'', JFloat (last_seen_of e)), (''age_s'', JFloat (ue_age env e)),
               (''meta'', py_or (dget e ''meta'') (JObj []))]))"

definition ue_items :: "'n ctl_env \<Rightarrow> (int \<times> dict) list \<Rightarrow> json" where
  "ue_items env xs = JArr (map (ue_item env) xs)"

section \<open>The RNTI a command is for\<close>

definition truthy_rnti :: "int option \<Rightarrow> int option" where
  "truthy_rnti v = (case v of Some i \<Rightarrow> if i \<noteq> 0 then Some i else None | None \<Rightarrow> None)"

definition pick_rnti :: "'n ctl_env \<Rightarrow> string \<Rightarrow> json \<Rightarrow> 'n ctl \<Rightarrow> 'n ctl \<times> int option" where
  "pick_rnti env strategy role c =
     (let (c, all) = list_ues env False (UE_ACTIVE_MAX_AGE_S env) JNull (prune_ues env c);
          us = pick_by_role env role all
      in if strategy = ''only'' then (c, case us of [(r, e)] \<Rightarrow> Some r | _ \<Rightarrow> None)
         else if strategy = ''last_rnti'' then (c, truthy_rnti (LAST_RNTI c))
         else (c, case us of (r, e) # _ \<Rightarrow> Some r | [] \<Rightarrow> truthy_rnti (LAST_RNTI c)))"

definition get_scheduler_rnti :: "'n ctl \<Rightarrow> int option" where
  "get_scheduler_rnti c = truthy_rnti (CURRENT_SCHEDULER_RNTI c)"

definition normalize_target :: "'n ctl_env \<Rightarrow> json \<Rightarrow> string option" where
  "normalize_target env target =
     (if target = JNull then None
      else let t = py_norm (py_str (repr_of env) target)
           in if t \<in> {''agent'', ''competitor'', ''unknown''} then Some t else None)"

definition resolve_control_rnti :: "'n ctl_env \<Rightarrow> dict \<Rightarrow> 'n ctl \<Rightarrow> 'n ctl \<times> int option" where
  "resolve_control_rnti env req c =
     (let rnti = dget req ''rnti'' in
      if rnti \<noteq> JNull then (c, py_int rnti)
      else
        let target = normalize_target env (dget req ''target'');
            strategy = py_str (repr_of env) (dget_or req ''rnti_strategy'' (JStr ''latest''));
            sr = get_scheduler_rnti c
        in if (target = None \<or> target = Some ''agent'') \<and> sr \<noteq> None then (c, sr)
           else
             let role = (case target of None \<Rightarrow> JNull | Some t \<Rightarrow> JStr t);
                 (c, picked) = pick_rnti env strategy role c
             in if picked \<noteq> None then (c, picked)
                else if get_scheduler_rnti c \<noteq> None then (c, get_scheduler_rnti c)
                else (c, truthy_rnti (LAST_RNTI c)))"

text \<open>The reply when there is none.\<close>

definition no_rnti :: "'n ctl_env \<Rightarrow> dict \<Rightarrow> 'n ctl \<Rightarrow> 'n ctl \<times> reply" where
  "no_rnti env hint c =
     (case list_ues env False (UE_ACTIVE_MAX_AGE_S env) JNull c of (c, us) \<Rightarrow>
        (c, Inr (err ''rnti missing and cannot auto-resolve''
           (hint @ [(''scheduler_rnti'', opt_int_json (CURRENT_SCHEDULER_RNTI c)),
                    (''last_rnti'', opt_int_json (LAST_RNTI c)),
                    (''ue_list'', ue_items env us)]))))"

end
