(* ===== verification/CtlPosture.thy ===== *)
theory CtlPosture imports Controller "HOL-Library.Monad_Syntax" begin

text \<open>
  The posture commands of the controller: \<^verbatim>\<open>_build_ue_posture_entry\<close> with its checks,
  \<^verbatim>\<open>do_set_ue_ul_la\<close>, \<^verbatim>\<open>do_get_ue_ul_la\<close> and \<^verbatim>\<open>do_clear_ue_ul_la\<close>.
\<close>

section \<open>Fields of a request\<close>

text \<open>\<^verbatim>\<open>_parse_optional_int\<close> and \<^verbatim>\<open>_parse_optional_float\<close>: \<^const>\<open>None\<close> when the conversion raises.\<close>

definition parse_optional_int :: "dict \<Rightarrow> string \<Rightarrow> int option option" where
  "parse_optional_int req k =
     (if dget req k = JNull then Some None else map_option Some (py_int (dget req k)))"

definition parse_optional_float :: "dict \<Rightarrow> string \<Rightarrow> fl option option" where
  "parse_optional_float req k =
     (if dget req k = JNull then Some None else map_option Some (py_float (dget req k)))"

definition parse_posture :: "dict \<Rightarrow> posture option" where
  "parse_posture req =
     do {
       a1 \<leftarrow> parse_optional_int req ''ul_max_mcs'';
       a2 \<leftarrow> parse_optional_int req ''min_grant_prb'';
       a3 \<leftarrow> parse_optional_int req ''ulsch_max_frame_inactivity'';
       a4 \<leftarrow> parse_optional_int req ''pusch_target_snrx10'';
       a5 \<leftarrow> parse_optional_float req ''ul_sched_mul'';
       a6 \<leftarrow> parse_optional_int req ''ul_maxcg_override'';
       a7 \<leftarrow> parse_optional_int req ''ul_small_burst_bytes'';
       a8 \<leftarrow> parse_optional_float req ''ul_small_burst_mul'';
       b1 \<leftarrow> parse_optional_int req ''dl_max_mcs'';
       b2 \<leftarrow> parse_optional_int req ''dl_min_grant_prb'';
       b3 \<leftarrow> parse_optional_float req ''dl_sched_mul'';
       b4 \<leftarrow> parse_optional_int req ''dl_maxcg_override'';
       b5 \<leftarrow> parse_optional_int req ''dl_small_burst_bytes'';
       b6 \<leftarrow> parse_optional_float req ''dl_small_burst_mul'';
       Some \<lparr>p_ul_max_mcs = a1, p_min_grant_prb = a2, p_ulsch_max_frame_inactivity = a3,
         p_pusch_target_snrx10 = a4, p_ul_maxcg_override = a6, p_ul_small_burst_bytes = a7,
         p_dl_max_mcs = b1, p_dl_min_grant_prb = b2, p_dl_maxcg_override = b4,
         p_dl_small_burst_bytes = b5, p_ul_sched_mul = a5, p_ul_small_burst_mul = a8,
         p_dl_sched_mul = b3, p_dl_small_burst_mul = b6\<rparr>
     }"

definition in_range :: "int \<Rightarrow> int \<Rightarrow> int option \<Rightarrow> bool" where
  "in_range lo hi v = (case v of None \<Rightarrow> True | Some x \<Rightarrow> lo \<le> x \<and> x \<le> hi)"

definition positive_int :: "int option \<Rightarrow> bool" where
  "positive_int v = (case v of None \<Rightarrow> True | Some x \<Rightarrow> 0 < x)"

definition positive_float :: "fl option \<Rightarrow> bool" where
  "positive_float v = (case v of None \<Rightarrow> True | Some x \<Rightarrow> fl_lt fl_zero x)"

text \<open>The checks in their order; the first that fails gives the text of the \<^verbatim>\<open>ValueError\<close>.\<close>

fun first_error :: "(bool \<times> string) list \<Rightarrow> string option" where
  "first_error [] = None"
| "first_error ((holds, msg) # cs) = (if holds then first_error cs else Some msg)"

definition posture_checks :: "posture \<Rightarrow> (bool \<times> string) list" where
  "posture_checks p =
     [(in_range 0 28 (p_ul_max_mcs p), ''ul_max_mcs out of range (0..28)''),
      (in_range 0 28 (p_dl_max_mcs p), ''dl_max_mcs out of range (0..28)''),
      (in_range 1 50 (p_min_grant_prb p), ''min_grant_prb out of range (1..50)''),
      (in_range 1 50 (p_dl_min_grant_prb p), ''dl_min_grant_prb out of range (1..50)''),
      (in_range 0 20 (p_ulsch_max_frame_inactivity p),
         ''ulsch_max_frame_inactivity out of range (0..20)''),
      (in_range 0 400 (p_pusch_target_snrx10 p), ''pusch_target_snrx10 out of range (0..400)''),
      (positive_float (p_ul_sched_mul p), ''ul_sched_mul must be > 0''),
      (positive_float (p_ul_small_burst_mul p), ''ul_small_burst_mul must be > 0''),
      (positive_float (p_dl_sched_mul p), ''dl_sched_mul must be > 0''),
      (positive_float (p_dl_small_burst_mul p), ''dl_small_burst_mul must be > 0''),
      (positive_int (p_ul_maxcg_override p), ''ul_maxcg_override must be > 0''),
      (positive_int (p_dl_maxcg_override p), ''dl_maxcg_override must be > 0''),
      (positive_int (p_ul_small_burst_bytes p), ''ul_small_burst_bytes must be > 0''),
      (positive_int (p_dl_small_burst_bytes p), ''dl_small_burst_bytes must be > 0'')]"

definition build_ue_posture_entry :: "dict \<Rightarrow> string + posture" where
  "build_ue_posture_entry req =
     (case parse_posture req of
        None \<Rightarrow> Inl ''invalid UE posture field''
      | Some p \<Rightarrow> (case first_error (posture_checks p) of Some msg \<Rightarrow> Inl msg | None \<Rightarrow> Inr p))"

section \<open>Postures as dictionaries\<close>

definition no_posture :: posture where
  "no_posture = \<lparr>p_ul_max_mcs = None, p_min_grant_prb = None, p_ulsch_max_frame_inactivity = None,
     p_pusch_target_snrx10 = None, p_ul_maxcg_override = None, p_ul_small_burst_bytes = None,
     p_dl_max_mcs = None, p_dl_min_grant_prb = None, p_dl_maxcg_override = None,
     p_dl_small_burst_bytes = None, p_ul_sched_mul = None, p_ul_small_burst_mul = None,
     p_dl_sched_mul = None, p_dl_small_burst_mul = None\<rparr>"

definition newer :: "'a option \<Rightarrow> 'a option \<Rightarrow> 'a option" where
  "newer new old = (case new of None \<Rightarrow> old | Some x \<Rightarrow> Some x)"

text \<open>\<^verbatim>\<open>cur.update({k: v for k, v in entry.items() if v is not None})\<close>.\<close>

definition posture_update :: "posture \<Rightarrow> posture \<Rightarrow> posture" where
  "posture_update cur p =
     \<lparr>p_ul_max_mcs = newer (p_ul_max_mcs p) (p_ul_max_mcs cur),
      p_min_grant_prb = newer (p_min_grant_prb p) (p_min_grant_prb cur),
      p_ulsch_max_frame_inactivity =
        newer (p_ulsch_max_frame_inactivity p) (p_ulsch_max_frame_inactivity cur),
      p_pusch_target_snrx10 = newer (p_pusch_target_snrx10 p) (p_pusch_target_snrx10 cur),
      p_ul_maxcg_override = newer (p_ul_maxcg_override p) (p_ul_maxcg_override cur),
      p_ul_small_burst_bytes = newer (p_ul_small_burst_bytes p) (p_ul_small_burst_bytes cur),
      p_dl_max_mcs = newer (p_dl_max_mcs p) (p_dl_max_mcs cur),
      p_dl_min_grant_prb = newer (p_dl_min_grant_prb p) (p_dl_min_grant_prb cur),
      p_dl_maxcg_override = newer (p_dl_maxcg_override p) (p_dl_maxcg_override cur),
      p_dl_small_burst_bytes = newer (p_dl_small_burst_bytes p) (p_dl_small_burst_bytes cur),
      p_ul_sched_mul = newer (p_ul_sched_mul p) (p_ul_sched_mul cur),
      p_ul_small_burst_mul = newer (p_ul_small_burst_mul p) (p_ul_small_burst_mul cur),
      p_dl_sched_mul = newer (p_dl_sched_mul p) (p_dl_sched_mul cur),
      p_dl_small_burst_mul = newer (p_dl_small_burst_mul p) (p_dl_small_burst_mul cur)\<rparr>"

text \<open>The fields of a posture that are set, in the order of \<^verbatim>\<open>UE_POSTURE_FIELDS\<close>.\<close>

definition posture_dict :: "posture \<Rightarrow> dict" where
  "posture_dict p =
     filter (\<lambda>kv. snd kv \<noteq> JNull)
       [(''ul_max_mcs'', opt_int_json (p_ul_max_mcs p)),
        (''min_grant_prb'', opt_int_json (p_min_grant_prb p)),
        (''ulsch_max_frame_inactivity'', opt_int_json (p_ulsch_max_frame_inactivity p)),
        (''pusch_target_snrx10'', opt_int_json (p_pusch_target_snrx10 p)),
        (''ul_maxcg_override'', opt_int_json (p_ul_maxcg_override p)),
        (''ul_small_burst_bytes'', opt_int_json (p_ul_small_burst_bytes p)),
        (''dl_max_mcs'', opt_int_json (p_dl_max_mcs p)),
        (''dl_min_grant_prb'', opt_int_json (p_dl_min_grant_prb p)),
        (''dl_maxcg_override'', opt_int_json (p_dl_maxcg_override p)),
        (''dl_small_burst_bytes'', opt_int_json (p_dl_small_burst_bytes p)),
        (''ul_sched_mul'', opt_fl_json (p_ul_sched_mul p)),
        (''ul_small_burst_mul'', opt_fl_json (p_ul_small_burst_mul p)),
        (''dl_sched_mul'', opt_fl_json (p_dl_sched_mul p)),
        (''dl_small_burst_mul'', opt_fl_json (p_dl_small_burst_mul p))]"

lemma map_of_filter_null:
  "distinct (map fst xs) \<Longrightarrow>
   map_of (filter (\<lambda>kv. snd kv \<noteq> JNull) xs) k =
     (case map_of xs k of Some v \<Rightarrow> if v = JNull then None else Some v | None \<Rightarrow> None)"
  by (induction xs) (auto simp: map_of_eq_None_iff split: option.splits)

text \<open>The fields of a posture by their keys.\<close>

definition posture_int_fields :: "(string \<times> (posture \<Rightarrow> int option)) list" where
  "posture_int_fields =
     [(''ul_max_mcs'', p_ul_max_mcs), (''min_grant_prb'', p_min_grant_prb),
      (''ulsch_max_frame_inactivity'', p_ulsch_max_frame_inactivity),
      (''pusch_target_snrx10'', p_pusch_target_snrx10), (''ul_maxcg_override'', p_ul_maxcg_override),
      (''ul_small_burst_bytes'', p_ul_small_burst_bytes), (''dl_max_mcs'', p_dl_max_mcs),
      (''dl_min_grant_prb'', p_dl_min_grant_prb), (''dl_maxcg_override'', p_dl_maxcg_override),
      (''dl_small_burst_bytes'', p_dl_small_burst_bytes)]"

definition posture_float_fields :: "(string \<times> (posture \<Rightarrow> fl option)) list" where
  "posture_float_fields =
     [(''ul_sched_mul'', p_ul_sched_mul), (''ul_small_burst_mul'', p_ul_small_burst_mul),
      (''dl_sched_mul'', p_dl_sched_mul), (''dl_small_burst_mul'', p_dl_small_burst_mul)]"

lemma posture_dict_fields:
  "posture_dict p = filter (\<lambda>kv. snd kv \<noteq> JNull)
     (map (\<lambda>(k, f). (k, opt_int_json (f p))) posture_int_fields @
      map (\<lambda>(k, f). (k, opt_fl_json (f p))) posture_float_fields)"
  by (simp add: posture_dict_def posture_int_fields_def posture_float_fields_def)

lemma null_json [simp]:
  "(opt_int_json v = JNull) = (v = None)" "(opt_fl_json x = JNull) = (x = None)"
  by (simp_all add: opt_int_json_def opt_fl_json_def split: option.split)

lemma posture_keys_distinct: "distinct (map fst posture_int_fields @ map fst posture_float_fields)"
  by (simp add: posture_int_fields_def posture_float_fields_def)

lemma posture_dict_lookup:
  assumes "(k, v) \<in> set (map (\<lambda>(k, f). (k, opt_int_json (f p))) posture_int_fields @
      map (\<lambda>(k, f). (k, opt_fl_json (f p))) posture_float_fields)"
  shows "map_of (posture_dict p) k = (if v = JNull then None else Some v)"
proof -
  let ?xs = "map (\<lambda>(k, f). (k, opt_int_json (f p))) posture_int_fields @
      map (\<lambda>(k, f). (k, opt_fl_json (f p))) posture_float_fields"
  have d: "distinct (map fst ?xs)" using posture_keys_distinct by (simp add: comp_def case_prod_beta')
  show ?thesis
    unfolding posture_dict_fields map_of_filter_null [OF d] map_of_is_SomeI [OF d assms] by simp
qed

lemma posture_dict_int:
  assumes "(k, f) \<in> set posture_int_fields"
  shows "map_of (posture_dict p) k = map_option JInt (f p)"
proof -
  have "(k, opt_int_json (f p)) \<in> (\<lambda>(k, f). (k, opt_int_json (f p))) ` set posture_int_fields"
    using assms by force
  then show ?thesis
    using posture_dict_lookup [of k "opt_int_json (f p)" p]
    by (simp add: opt_int_json_def split: option.split)
qed

lemma posture_dict_float:
  assumes "(k, f) \<in> set posture_float_fields"
  shows "map_of (posture_dict p) k = map_option JFloat (f p)"
proof -
  have "(k, opt_fl_json (f p)) \<in> (\<lambda>(k, f). (k, opt_fl_json (f p))) ` set posture_float_fields"
    using assms by force
  then show ?thesis
    using posture_dict_lookup [of k "opt_fl_json (f p)" p]
    by (simp add: opt_fl_json_def split: option.split)
qed

lemma posture_dict_other:
  "k \<notin> fst ` set posture_int_fields \<Longrightarrow> k \<notin> fst ` set posture_float_fields \<Longrightarrow>
   map_of (posture_dict p) k = None"
  by (auto simp: posture_dict_fields map_of_eq_None_iff image_iff)

lemma posture_eqI:
  assumes "\<And>k f. (k, f) \<in> set posture_int_fields \<Longrightarrow> f p = f q"
    and "\<And>k f. (k, f) \<in> set posture_float_fields \<Longrightarrow> f p = f q"
  shows "p = q"
proof -
  have "list_all (\<lambda>(k, f). f p = f q) posture_int_fields" using assms(1) by (auto simp: list_all_iff)
  moreover have "list_all (\<lambda>(k, f). f p = f q) posture_float_fields" using assms(2) by (auto simp: list_all_iff)
  ultimately show ?thesis
    by (intro posture.equality) (simp_all add: posture_int_fields_def posture_float_fields_def)
qed

lemma posture_dict_inj: "map_of (posture_dict p) = map_of (posture_dict q) \<Longrightarrow> p = q"
proof (rule posture_eqI)
  assume eq: "map_of (posture_dict p) = map_of (posture_dict q)"
  show "f p = f q" if "(k, f) \<in> set posture_int_fields" for k f
    using posture_dict_int [OF that, of p] posture_dict_int [OF that, of q] eq
    by (cases "f p"; cases "f q") simp_all
  show "f p = f q" if "(k, f) \<in> set posture_float_fields" for k f
    using posture_dict_float [OF that, of p] posture_dict_float [OF that, of q] eq
    by (cases "f p"; cases "f q") simp_all
qed

lemma posture_update_fields:
  "(k, f) \<in> set posture_int_fields \<Longrightarrow> f (posture_update cur p) = newer (f p) (f cur)"
  "(k, g) \<in> set posture_float_fields \<Longrightarrow> g (posture_update cur p) = newer (g p) (g cur)"
  by (auto simp: posture_int_fields_def posture_float_fields_def posture_update_def)

text \<open>The update is that of the dictionaries.\<close>

lemma posture_update_dict:
  "map_of (posture_dict (posture_update cur p)) = map_of (posture_dict cur) ++ map_of (posture_dict p)"
proof
  fix k
  consider f where "(k, f) \<in> set posture_int_fields" | f where "(k, f) \<in> set posture_float_fields"
    | "k \<notin> fst ` set posture_int_fields" "k \<notin> fst ` set posture_float_fields"
    by force
  then show "map_of (posture_dict (posture_update cur p)) k =
      (map_of (posture_dict cur) ++ map_of (posture_dict p)) k"
    by cases (auto simp: map_add_def posture_dict_int posture_dict_float posture_dict_other
        posture_update_fields newer_def split: option.split)
qed

definition posture_of :: "'n ctl \<Rightarrow> int \<Rightarrow> posture" where
  "posture_of c rnti =
     (case map_of (UE_UL_LA_REGISTRY c) rnti of None \<Rightarrow> no_posture | Some p \<Rightarrow> p)"

section \<open>The commands\<close>

text \<open>\<^verbatim>\<open>_write_ue_la_state_atomic\<close>: the rename happens after a complete write, or not at all.\<close>

definition write_ue_la_state_atomic :: "'n ctl_env \<Rightarrow> 'n ctl \<Rightarrow> 'n ctl \<times> bool" where
  "write_ue_la_state_atomic env c =
     (if ue_la_written env
      then (c\<lparr>ue_la_file := Some (write_ue_la_state (UE_UL_LA_REGISTRY c))\<rparr>, True)
      else (c, False))"

definition posture_reply :: "int \<Rightarrow> dict \<Rightarrow> dict" where
  "posture_reply rnti kw = ok ([(''rnti'', JInt rnti), (''rnti_hex'', JStr (py_hex rnti))] @ kw)"

definition do_set_ue_ul_la :: "'n ctl_env \<Rightarrow> dict \<Rightarrow> 'n ctl \<Rightarrow> 'n ctl \<times> reply" where
  "do_set_ue_ul_la env req c =
     (case resolve_control_rnti env req c of
        (c, None) \<Rightarrow>
          no_rnti env [(''hint'', JStr ''provide rnti explicitly, or start gnb_rnti_watcher.py'')] c
      | (c, Some rnti) \<Rightarrow>
          (case build_ue_posture_entry req of
             Inl detail \<Rightarrow> (c, Inr (err ''invalid UE posture field'' [(''detail'', JStr detail)]))
           | Inr p \<Rightarrow>
               if posture_dict p = [] then (c, Inr (err ''no UE posture fields provided'' []))
               else
                 let c = c\<lparr>UE_UL_LA_REGISTRY := AList.update rnti
                       (posture_update (posture_of c rnti) p) (UE_UL_LA_REGISTRY c)\<rparr>;
                     (c, written) = write_ue_la_state_atomic env c
                 in if \<not> written then (c, Inl OSError)
                    else
                      let c = touch_ue env rnti [(''src'', JStr ''set_ue_posture'')]
                                (posture_dict p) c;
                          c = state_put [(''last_ctrl_ts'', JFloat (clock env)),
                                (''last_ctrl'', JObj ([(''cmd'', JStr ''set_ue_ul_la''),
                                   (''rnti'', JInt rnti)] @ posture_dict p))] c
                      in (c, Inr (posture_reply rnti
                            [(''entry'', JObj (posture_dict (posture_of c rnti)))]))))"

definition do_get_ue_ul_la :: "'n ctl_env \<Rightarrow> dict \<Rightarrow> 'n ctl \<Rightarrow> 'n ctl \<times> reply" where
  "do_get_ue_ul_la env req c =
     (case resolve_control_rnti env req c of
        (c, None) \<Rightarrow> no_rnti env [] c
      | (c, Some rnti) \<Rightarrow>
          (c, Inr (posture_reply rnti [(''entry'', JObj (posture_dict (posture_of c rnti)))])))"

text \<open>\<^verbatim>\<open>_clear_ue_posture_snapshot\<close>.\<close>

definition posture_keys :: "string list" where
  "posture_keys =
     [''ul_max_mcs'', ''min_grant_prb'', ''ulsch_max_frame_inactivity'', ''pusch_target_snrx10'',
      ''ul_maxcg_override'', ''ul_small_burst_bytes'', ''dl_max_mcs'', ''dl_min_grant_prb'',
      ''dl_maxcg_override'', ''dl_small_burst_bytes'', ''ul_sched_mul'', ''ul_small_burst_mul'',
      ''dl_sched_mul'', ''dl_small_burst_mul'', ''ul_small_burst_hit'', ''dl_small_burst_hit'']"

definition clear_ue_posture_snapshot :: "int \<Rightarrow> 'n ctl \<Rightarrow> 'n ctl" where
  "clear_ue_posture_snapshot rnti c =
     (if ue_entry c rnti = [] then c
      else c\<lparr>UE_REGISTRY :=
              AList.update rnti (fold ddel posture_keys (ue_entry c rnti)) (UE_REGISTRY c)\<rparr>)"

definition do_clear_ue_ul_la :: "'n ctl_env \<Rightarrow> dict \<Rightarrow> 'n ctl \<Rightarrow> 'n ctl \<times> reply" where
  "do_clear_ue_ul_la env req c =
     (case resolve_control_rnti env req c of
        (c, None) \<Rightarrow> no_rnti env [] c
      | (c, Some rnti) \<Rightarrow>
          let c = c\<lparr>UE_UL_LA_REGISTRY := AList.delete rnti (UE_UL_LA_REGISTRY c)\<rparr>;
              (c, written) = write_ue_la_state_atomic env c
          in if \<not> written then (c, Inl OSError)
             else
               let c = clear_ue_posture_snapshot rnti c;
                   c = touch_ue env rnti [(''src'', JStr ''clear_ue_posture'')] [] c;
                   c = state_put [(''last_ctrl_ts'', JFloat (clock env)),
                         (''last_ctrl'', JObj [(''cmd'', JStr ''clear_ue_ul_la''),
                            (''rnti'', JInt rnti)])] c
               in (c, Inr (posture_reply rnti [(''cleared'', JBool True)])))"

end
