(* ===== verification/CtlBinding.thy ===== *)
theory CtlBinding imports Controller "HOL-Library.Monad_Syntax" begin

text \<open>
  The slice commands of the controller: the table of slice policies it shows, the profiles, sending
  a control message to the E2 nodes, binding a UE to slices (\<^verbatim>\<open>do_ue_slice_assoc\<close>,
  \<^verbatim>\<open>do_set_profile\<close>, \<^verbatim>\<open>do_set_mode\<close>) and adding slices.
\<close>

section \<open>The table of slice policies\<close>

record slice_runtime =
  sr_id :: int
  sr_name :: string
  sr_dl_weight_mul :: fl
  sr_ul_weight_mul :: fl
  sr_dl_rb_cap :: int
  sr_ul_rb_cap :: int
  sr_dl_rb_floor :: int
  sr_ul_rb_floor :: int
  sr_dl_max_cg :: int
  sr_ul_max_cg :: int

abbreviation f64 :: "rat \<Rightarrow> fl" where
  "f64 \<equiv> fl_of_rat binary64"

definition SLICE_RUNTIME_TABLE :: "slice_runtime list" where
  "SLICE_RUNTIME_TABLE =
     [slice_runtime.make 0 ''default'' (f64 1) (f64 1) 0 0 0 0 0 0,
      slice_runtime.make 1 ''background'' (f64 (1 / 2)) (f64 (1 / 2)) 6 6 2 2 1 1,
      slice_runtime.make 2 ''balanced'' (f64 1) (f64 1) 12 12 4 4 4 4,
      slice_runtime.make 3 ''throughput'' (f64 10) (f64 4) 50 30 12 12 0 0,
      slice_runtime.make 4 ''latency'' (f64 6) (f64 6) 10 10 4 4 6 6,
      slice_runtime.make 5 ''uplink_boost'' (f64 1) (f64 10) 12 50 4 12 2 0,
      slice_runtime.make 6 ''capped_fair'' (f64 (6 / 5)) (f64 (6 / 5)) 8 8 2 2 2 2,
      slice_runtime.make 7 ''text_lite'' (f64 1) (f64 1) 10 10 3 3 3 3,
      slice_runtime.make 8 ''agentic_loop'' (f64 5) (f64 6) 8 8 4 4 3 3,
      slice_runtime.make 9 ''jitter_guard'' (f64 (11 / 5)) (f64 (11 / 5)) 8 8 3 3 2 2]"

definition get_slice_runtime :: "int \<Rightarrow> slice_runtime" where
  "get_slice_runtime sid =
     (case map_of (map (\<lambda>p. (sr_id p, p)) SLICE_RUNTIME_TABLE) sid of
        Some p \<Rightarrow> p
      | None \<Rightarrow> SLICE_RUNTIME_TABLE ! 0)"

text \<open>
  One direction of a binding, \<^verbatim>\<open>_build_half_policy\<close>; the summary for humans of a slice is left out.
\<close>

record half_policy =
  hp_slice_id :: int
  hp_name :: string
  hp_weight_mul :: fl
  hp_rb_cap :: int
  hp_rb_floor :: int
  hp_max_consecutive_grants :: int

definition build_half_policy_dl :: "int \<Rightarrow> half_policy" where
  "build_half_policy_dl sid =
     (let p = get_slice_runtime sid in
      \<lparr>hp_slice_id = sid, hp_name = sr_name p, hp_weight_mul = sr_dl_weight_mul p,
       hp_rb_cap = sr_dl_rb_cap p, hp_rb_floor = sr_dl_rb_floor p,
       hp_max_consecutive_grants = sr_dl_max_cg p\<rparr>)"

definition build_half_policy_ul :: "int \<Rightarrow> half_policy" where
  "build_half_policy_ul sid =
     (let p = get_slice_runtime sid in
      \<lparr>hp_slice_id = sid, hp_name = sr_name p, hp_weight_mul = sr_ul_weight_mul p,
       hp_rb_cap = sr_ul_rb_cap p, hp_rb_floor = sr_ul_rb_floor p,
       hp_max_consecutive_grants = sr_ul_max_cg p\<rparr>)"

definition half_dict :: "half_policy \<Rightarrow> dict" where
  "half_dict h =
     [(''slice_id'', JInt (hp_slice_id h)), (''name'', JStr (hp_name h)),
      (''weight_mul'', JFloat (hp_weight_mul h)), (''rb_cap'', JInt (hp_rb_cap h)),
      (''rb_floor'', JInt (hp_rb_floor h)),
      (''max_consecutive_grants'', JInt (hp_max_consecutive_grants h))]"

definition build_binding_runtime :: "int \<Rightarrow> int \<Rightarrow> half_policy \<times> half_policy" where
  "build_binding_runtime dl_id ul_id = (build_half_policy_dl dl_id, build_half_policy_ul ul_id)"

text \<open>What the commands record about a bound UE.\<close>

definition binding_kw :: "int \<Rightarrow> int \<Rightarrow> dict" where
  "binding_kw dl_id ul_id =
     (case build_binding_runtime dl_id ul_id of (dl, ul) \<Rightarrow>
        [(''dl_id'', JInt dl_id), (''ul_id'', JInt ul_id),
         (''dl_mul'', JFloat (hp_weight_mul dl)), (''ul_mul'', JFloat (hp_weight_mul ul)),
         (''dl_cap'', JInt (hp_rb_cap dl)), (''ul_cap'', JInt (hp_rb_cap ul)),
         (''dl_floor'', JInt (hp_rb_floor dl)), (''ul_floor'', JInt (hp_rb_floor ul)),
         (''dl_maxcg'', JInt (hp_max_consecutive_grants dl)),
         (''ul_maxcg'', JInt (hp_max_consecutive_grants ul))])"

section \<open>Sending a control message\<close>

definition get_target_nodes :: "'n ctl_env \<Rightarrow> nat list" where
  "get_target_nodes env =
     (case conn_e2_nodes env of
        Some (n # ns) \<Rightarrow> n # ns
      | _ \<Rightarrow> (case main_node env of None \<Rightarrow> [] | Some n \<Rightarrow> [n]))"

text \<open>The loop over the nodes, with the answers so far and the last error.\<close>

fun send_loop :: "'n ctl_env \<Rightarrow> slice_ctrl_msg_t \<Rightarrow> nat list \<Rightarrow> (nat \<Rightarrow> 'n) \<Rightarrow> json list \<Rightarrow> sm_result
    \<Rightarrow> (nat \<Rightarrow> 'n) \<times> sm_result" where
  "send_loop env ctrl [] rn oks last_err =
     (rn, if oks \<noteq> [] then SmRet (last oks) else last_err)"
| "send_loop env ctrl (n # ns) rn oks last_err =
     (case control_slice_sm env (rn n) ctrl of
        (s, SmRet v) \<Rightarrow> send_loop env ctrl ns (rn(n := s)) (oks @ [v]) last_err
      | (s, e) \<Rightarrow> send_loop env ctrl ns (rn(n := s)) oks e)"

text \<open>Without a node it raises \<^verbatim>\<open>RuntimeError\<close>.\<close>

definition control_slice_sm_safe :: "'n ctl_env \<Rightarrow> slice_ctrl_msg_t \<Rightarrow> 'n ctl \<Rightarrow> 'n ctl \<times> sm_result" where
  "control_slice_sm_safe env ctrl c =
     (case send_loop env ctrl (get_target_nodes env) (ran c) [] SmRaised of
        (rn, r) \<Rightarrow> (c\<lparr>ran := rn\<rparr>, r))"

definition sm_error :: "sm_result \<Rightarrow> dict" where
  "sm_error r =
     (if r = SmTimeout then err ''control_slice_sm timeout'' [] else err ''control_slice_sm failed'' [])"

section \<open>Binding a UE to slices\<close>

definition do_ue_slice_assoc :: "'n ctl_env \<Rightarrow> dict \<Rightarrow> 'n ctl \<Rightarrow> 'n ctl \<times> reply" where
  "do_ue_slice_assoc env req c =
     (if \<not> sdk_ctrl_assoc env then (c, Inr (err ''SDK has no SLICE_CTRL_SM_V0_UE_SLICE_ASSOC'' []))
      else case resolve_control_rnti env req c of
        (c, None) \<Rightarrow>
          no_rnti env [(''hint'', JStr ''provide rnti explicitly, or start gnb_rnti_watcher.py'')] c
      | (c, Some rnti) \<Rightarrow>
          if dget req ''dl_id'' = JNull then (c, Inr (err ''dl_id missing (must be >0)'' []))
          else
            case (py_int (dget req ''dl_id''), py_int (dget_or req ''ul_id'' (dget req ''dl_id''))) of
              (Some dl_id, Some ul_id) \<Rightarrow>
                if rnti \<le> 0 then
                  (c, Inr (err (''invalid rnti='' @ int_str rnti @ '' (must be >0)'') []))
                else if dl_id \<le> 0 \<or> ul_id \<le> 0 then
                  (c, Inr (err (''invalid slice id dl_id='' @ int_str dl_id @ '', ul_id='' @
                     int_str ul_id @ '' (must be >0)'') []))
                else
                  (case make_assoc env rnti dl_id ul_id of
                     None \<Rightarrow> (c, Inl SdkError)
                   | Some a \<Rightarrow>
                       (case control_slice_sm_safe env
                           (SLICE_CTRL_SM_V0_UE_SLICE_ASSOC \<lparr>ues = Some [a], len_ue_slice = 1\<rparr>) c of
                          (c, SmRet v) \<Rightarrow>
                            let c = touch_ue env rnti [(''src'', JStr ''ue_slice_assoc'')]
                                      (binding_kw dl_id ul_id) c;
                                c = state_put [(''last_slice'', JInt dl_id),
                                      (''last_ctrl_ts'', JFloat (clock env)),
                                      (''last_ctrl'', JObj [(''cmd'', JStr ''ue_slice_assoc''),
                                         (''rnti'', JInt rnti), (''dl_id'', JInt dl_id),
                                         (''ul_id'', JInt ul_id)])] c
                            in (c, Inr (ok [(''ret'', v), (''rnti'', JInt rnti),
                                  (''dl_id'', JInt dl_id), (''ul_id'', JInt ul_id)]))
                        | (c, e) \<Rightarrow> (c, Inr (sm_error e))))
            | _ \<Rightarrow> (c, Inl BadValue))"

section \<open>Profiles\<close>

definition PROFILE_BINDING_FALLBACK :: "(string \<times> int \<times> int) list" where
  "PROFILE_BINDING_FALLBACK =
     [(''default'', 2, 2), (''text'', 2, 2), (''image'', 3, 3), (''video'', 3, 3),
      (''high_throughput_boost'', 3, 3), (''low_latency_guard'', 4, 4), (''burst_uplink'', 2, 5),
      (''background_upload'', 1, 5), (''night_idle'', 1, 1), (''fairness_guard'', 6, 6),
      (''plain_text_guard'', 7, 7), (''agentic_loop'', 8, 8), (''anti_jitter_guard'', 9, 9)]"

text \<open>A file that cannot be read or parsed counts as no profiles.\<close>

definition load_profiles :: "'n ctl_env \<Rightarrow> bool \<Rightarrow> 'n ctl \<Rightarrow> 'n ctl \<times> json" where
  "load_profiles env force c =
     (if \<not> force \<and> dget (STATE c) ''profiles'' \<noteq> JNull then (c, dget (STATE c) ''profiles'')
      else let p = (case profiles_file env of None \<Rightarrow> JNull | Some p \<Rightarrow> p)
           in (state_put [(''profiles'', p), (''profiles_loaded_at'', JFloat (clock env))] c, p))"

text \<open>\<^verbatim>\<open>(p.get("profiles") or {}).get(name)\<close>, which raises when that is no dictionary.\<close>

definition profile_entry :: "dict \<Rightarrow> string \<Rightarrow> json option" where
  "profile_entry p name =
     (case py_or (dget p ''profiles'') (JObj []) of JObj ps \<Rightarrow> Some (dget ps name) | _ \<Rightarrow> None)"

definition fallback_binding :: "string \<Rightarrow> (int \<times> int) option" where
  "fallback_binding profile = map_of PROFILE_BINDING_FALLBACK profile"

text \<open>\<^verbatim>\<open>get_profile_binding\<close>; both callers answer every exception of it with an error reply.\<close>

definition profile_binding_of :: "json \<Rightarrow> string \<Rightarrow> (int \<times> int) option" where
  "profile_binding_of p profile =
     (case p of
        JObj d \<Rightarrow>
          if d = [] then fallback_binding profile
          else (case profile_entry d profile of
                  None \<Rightarrow> None
                | Some (JObj prof) \<Rightarrow>
                    do {
                      dl \<leftarrow> map_of prof ''dl_id'';
                      dl_id \<leftarrow> py_int dl;
                      ul_id \<leftarrow> py_int (dget_or prof ''ul_id'' (JInt dl_id));
                      Some (dl_id, ul_id)
                    }
                | Some _ \<Rightarrow> fallback_binding profile)
      | _ \<Rightarrow> fallback_binding profile)"

definition get_profile_binding :: "'n ctl_env \<Rightarrow> string \<Rightarrow> 'n ctl \<Rightarrow> 'n ctl \<times> (int \<times> int) option" where
  "get_profile_binding env profile c =
     (case load_profiles env False c of (c, p) \<Rightarrow> (c, profile_binding_of p profile))"

text \<open>\<^verbatim>\<open>_get_profile_meta\<close>, which raises when the profiles are a truthy value without \<^verbatim>\<open>get\<close>.\<close>

definition get_profile_meta :: "'n ctl_env \<Rightarrow> string \<Rightarrow> 'n ctl \<Rightarrow> 'n ctl \<times> (pyexn + json)" where
  "get_profile_meta env profile c =
     (if profile = [] then (c, Inr (JObj []))
      else case load_profiles env False c of (c, p) \<Rightarrow>
        (c, case py_or p (JObj []) of
              JObj d \<Rightarrow>
                (case profile_entry d profile of
                   None \<Rightarrow> Inl BadValue
                 | Some v \<Rightarrow> Inr (JObj (dict_of v)))
            | _ \<Rightarrow> Inl BadValue))"

definition policy_dict :: "int \<Rightarrow> int \<Rightarrow> dict" where
  "policy_dict dl_id ul_id =
     (case build_binding_runtime dl_id ul_id of (dl, ul) \<Rightarrow>
        [(''dl'', JObj (half_dict dl)), (''ul'', JObj (half_dict ul))])"

text \<open>
  \<^verbatim>\<open>_entry_policy_snapshot\<close>: the policy of the slices in the entry of a UE, with what the entry itself
  records in its place.
\<close>

definition override_with :: "dict \<Rightarrow> (string \<times> string) list \<Rightarrow> dict \<Rightarrow> dict" where
  "override_with e ks d =
     fold (\<lambda>(k, ke) d. if dget e ke = JNull then d else dput k (dget e ke) d) ks d"

definition half_snapshot :: "dict \<Rightarrow> string \<Rightarrow> half_policy \<Rightarrow> json" where
  "half_snapshot e dir h =
     JObj (override_with e [(''weight_mul'', dir @ ''_mul''), (''rb_cap'', dir @ ''_cap''),
       (''rb_floor'', dir @ ''_floor''), (''max_consecutive_grants'', dir @ ''_maxcg'')] (half_dict h))"

definition entry_policy_snapshot :: "dict \<Rightarrow> dict option" where
  "entry_policy_snapshot e =
     do {
       dl_id \<leftarrow> py_int (py_or (dget e ''dl_id'') (JInt 0));
       ul_id \<leftarrow> py_int (py_or (dget e ''ul_id'') (JInt 0));
       Some [(''dl'', half_snapshot e ''dl'' (build_half_policy_dl dl_id)),
             (''ul'', half_snapshot e ''ul'' (build_half_policy_ul ul_id)),
             (''runtime'', JObj (map (\<lambda>k. (k, dget e k))
                [''dl_rbSize'', ''ul_rbSize'', ''dl_current_rbs'', ''ul_current_rbs'',
                 ''dl_throttled'', ''ul_throttled''] @
              map (\<lambda>k. (k, dget_or e k (JInt 0)))
                [''dl_throttled_count'', ''ul_throttled_count'', ''dl_grant_count'', ''ul_grant_count'']))]
     }"

text \<open>\<^verbatim>\<open>_policy_diff\<close>, where a NaN differs from itself and the two zeros are the same.\<close>

definition py_differs :: "json \<Rightarrow> json \<Rightarrow> bool" where
  "py_differs a b =
     (case (a, b) of
        (JFloat x, JFloat y) \<Rightarrow> \<not> (fl_le x y \<and> fl_le y x)
      | _ \<Rightarrow> a \<noteq> b)"

definition PARAMS_EXPORT_ORDER :: "string list" where
  "PARAMS_EXPORT_ORDER = [''slice_id'', ''weight_mul'', ''rb_cap'', ''rb_floor'', ''max_consecutive_grants'']"

definition policy_diff :: "dict \<Rightarrow> dict \<Rightarrow> json" where
  "policy_diff before after =
     JObj (map (\<lambda>half.
       let b = dict_of (dget before half); a = dict_of (dget after half)
       in (half, JObj (map (\<lambda>k. (k, JObj [(''before'', dget b k), (''after'', dget a k)]))
            (filter (\<lambda>k. py_differs (dget b k) (dget a k)) (PARAMS_EXPORT_ORDER @ [''name''])))))
       [''dl'', ''ul''])"

text \<open>The three fields of a reply that compare the policy before and after a binding.\<close>

definition policy_change :: "dict \<Rightarrow> int \<Rightarrow> int \<Rightarrow> dict" where
  "policy_change before dl_id ul_id =
     [(''policy'', JObj (policy_dict dl_id ul_id)), (''policy_before'', JObj before),
      (''policy_diff'', policy_diff before (policy_dict dl_id ul_id))]"

definition bind_request :: "dict \<Rightarrow> int \<Rightarrow> int \<Rightarrow> int \<Rightarrow> dict" where
  "bind_request req rnti dl_id ul_id =
     dupdate req [(''cmd'', JStr ''ue_slice_assoc''), (''rnti'', JInt rnti),
       (''dl_id'', JInt dl_id), (''ul_id'', JInt ul_id)]"

definition no_rnti_hint :: dict where
  "no_rnti_hint = [(''hint'', JStr ''call ue_list / get_state, or pass rnti explicitly'')]"

definition do_set_mode :: "'n ctl_env \<Rightarrow> dict \<Rightarrow> 'n ctl \<Rightarrow> 'n ctl \<times> reply" where
  "do_set_mode env req c =
     (let mode = py_str (repr_of env) (dget_or req ''mode'' (dget_or req ''profile'' (JStr ''default'')))
      in case get_profile_binding env mode c of
        (c, None) \<Rightarrow> (c, Inr (err ''unknown mode/profile'' [(''mode'', JStr mode)]))
      | (c, Some (dl_id, ul_id)) \<Rightarrow>
          (case resolve_control_rnti env req c of
             (c, None) \<Rightarrow> no_rnti env no_rnti_hint c
           | (c, Some rnti) \<Rightarrow>
               (case entry_policy_snapshot (ue_entry c rnti) of None \<Rightarrow> (c, Inl BadValue) | Some before \<Rightarrow>
               case do_ue_slice_assoc env (bind_request req rnti dl_id ul_id) c of
                  (c, Inl e) \<Rightarrow> (c, Inl e)
                | (c, Inr resp) \<Rightarrow>
                    (case get_profile_meta env mode c of
                       (c, Inl e) \<Rightarrow> (c, Inl e)
                     | (c, Inr profile_meta) \<Rightarrow>
                         let c = (if \<not> replied_ok resp then c
                                  else state_put [(''active_mode'', JStr mode),
                                         (''active_alg'', JStr ''profile_binding_v2''),
                                         (''last_profile'', JStr mode), (''last_slice'', JInt dl_id),
                                         (''last_ctrl_ts'', JFloat (clock env)),
                                         (''last_ctrl'', JObj [(''cmd'', JStr ''set_mode''),
                                            (''mode'', JStr mode), (''rnti'', JInt rnti),
                                            (''dl_id'', JInt dl_id), (''ul_id'', JInt ul_id)])]
                                       (touch_ue env rnti [(''src'', JStr ''set_mode_v2'')]
                                          ((''profile'', JStr mode) # binding_kw dl_id ul_id) c))
                         in (c, Inr (ok ([(''mode'', JStr mode), (''alg'', JStr ''profile_binding_v2''),
                               (''bind'', JObj resp)] @ policy_change before dl_id ul_id @
                               [(''profile_meta'', profile_meta)])))))))"

definition do_set_profile :: "'n ctl_env \<Rightarrow> dict \<Rightarrow> 'n ctl \<Rightarrow> 'n ctl \<times> reply" where
  "do_set_profile env req c =
     (let profile = py_str (repr_of env) (dget_or req ''profile'' (JStr ''default''))
      in case resolve_control_rnti env req c of
        (c, None) \<Rightarrow> no_rnti env no_rnti_hint c
      | (c, Some rnti) \<Rightarrow>
          (case get_profile_binding env profile c of
             (c, None) \<Rightarrow> (c, Inr (err ''unknown profile'' [(''profile'', JStr profile)]))
           | (c, Some (dl_id, ul_id)) \<Rightarrow>
               (case entry_policy_snapshot (ue_entry c rnti) of None \<Rightarrow> (c, Inl BadValue) | Some before \<Rightarrow>
               case do_ue_slice_assoc env (bind_request req rnti dl_id ul_id) c of
                  (c, Inl e) \<Rightarrow> (c, Inl e)
                | (c, Inr resp) \<Rightarrow>
                    (case get_profile_meta env profile c of
                       (c, Inl e) \<Rightarrow> (c, Inl e)
                     | (c, Inr profile_meta) \<Rightarrow>
                         let c = (if \<not> replied_ok resp then c
                                  else touch_ue env rnti [(''src'', JStr ''set_profile_v2'')]
                                    ((''profile'', JStr profile) # binding_kw dl_id ul_id)
                                    (state_put [(''last_profile'', JStr profile),
                                       (''last_slice'', JInt dl_id),
                                       (''last_ctrl_ts'', JFloat (clock env)),
                                       (''last_ctrl'', JObj [(''cmd'', JStr ''set_profile''),
                                          (''profile'', JStr profile), (''rnti'', JInt rnti),
                                          (''dl_id'', JInt dl_id), (''ul_id'', JInt ul_id)])] c))
                         in (c, Inr (ok ([(''profile'', JStr profile), (''bind'', JObj resp)] @
                               policy_change before dl_id ul_id @
                               [(''profile_meta'', profile_meta)])))))))"

section \<open>Adding slices\<close>

text \<open>The conversions that building one slice of a configuration makes.\<close>

definition slice_converts :: "slice_kind \<Rightarrow> json \<Rightarrow> bool" where
  "slice_converts kind s =
     (case s of
        JObj d \<Rightarrow>
          (case map_of d ''id'' of None \<Rightarrow> False | Some v \<Rightarrow> py_int v \<noteq> None) \<and>
          (case kind of
             StaticSlice \<Rightarrow> py_int (dget_or d ''pos_low'' (JInt 0)) \<noteq> None \<and>
               py_int (dget_or d ''pos_high'' (JInt 100)) \<noteq> None
           | CapacitySlice \<Rightarrow>
               py_float (dget_or d ''pct_reserved'' (dget_or d ''pct'' (JInt 10))) \<noteq> None
           | RateSlice \<Rightarrow> py_float (dget_or d ''mbps_required'' (JInt 0)) \<noteq> None \<and>
               py_float (dget_or d ''mbps_reference'' (JInt 100)) \<noteq> None)
      | _ \<Rightarrow> False)"

definition slices_converted :: "'n ctl_env \<Rightarrow> slice_kind \<Rightarrow> json \<Rightarrow> bool" where
  "slices_converted env kind slices =
     (case slices of
        JArr xs \<Rightarrow> list_all (slice_converts kind) xs \<and> conf_accepted env kind slices
      | JObj [] \<Rightarrow> conf_accepted env kind slices
      | JStr [] \<Rightarrow> conf_accepted env kind slices
      | _ \<Rightarrow> False)"

definition slice_count :: "json \<Rightarrow> json" where
  "slice_count v = (case v of JArr xs \<Rightarrow> JInt (int (length xs)) | _ \<Rightarrow> JInt 0)"

text \<open>
  \<^verbatim>\<open>do_add_static_slices\<close>, \<^verbatim>\<open>do_add_nvs_slices\<close> and \<^verbatim>\<open>do_add_nvs_rate_slices\<close> differ in
  the configuration they build and in their name.
\<close>

definition add_slices :: "slice_kind \<Rightarrow> string \<Rightarrow> 'n ctl_env \<Rightarrow> dict \<Rightarrow> 'n ctl \<Rightarrow> 'n ctl \<times> reply" where
  "add_slices kind cmd env req c =
     (if \<not> sdk_ctrl_add env then (c, Inr (err (if kind = StaticSlice
         then ''Cannot find SLICE_CTRL_SM_V0_ADD* constant in SDK''
         else ''Cannot find SLICE_CTRL_SM_V0_ADD constant'') []))
      else
        let dl = dget_or req ''dl'' (JArr []); ul = dget_or req ''ul'' dl in
        if \<not> py_truthy dl then (c, Inr (err ''dl slices empty'' []))
        else if \<not> (slices_converted env kind dl \<and> slices_converted env kind ul) then (c, Inl BadValue)
        else case control_slice_sm_safe env SLICE_CTRL_SM_V0_ADD c of
               (c, SmRet v) \<Rightarrow>
                 (state_put [(''last_ctrl_ts'', JFloat (clock env)),
                    (''last_ctrl'', JObj [(''cmd'', JStr cmd), (''dl'', slice_count dl),
                       (''ul'', slice_count ul)])] c,
                  Inr (ok [(''ret'', v), (''dl_count'', slice_count dl), (''ul_count'', slice_count ul)]))
             | (c, e) \<Rightarrow> (c, Inr (sm_error e)))"

definition do_add_static_slices :: "'n ctl_env \<Rightarrow> dict \<Rightarrow> 'n ctl \<Rightarrow> 'n ctl \<times> reply" where
  "do_add_static_slices = add_slices StaticSlice ''add_static_slices''"

definition do_add_nvs_slices :: "'n ctl_env \<Rightarrow> dict \<Rightarrow> 'n ctl \<Rightarrow> 'n ctl \<times> reply" where
  "do_add_nvs_slices = add_slices CapacitySlice ''add_nvs_slices''"

definition do_add_nvs_rate_slices :: "'n ctl_env \<Rightarrow> dict \<Rightarrow> 'n ctl \<Rightarrow> 'n ctl \<times> reply" where
  "do_add_nvs_rate_slices = add_slices RateSlice ''add_nvs_rate_slices''"

text \<open>\<^verbatim>\<open>d[k]\<close>, which raises for a missing key and for a value that is no dictionary.\<close>

definition jindex :: "json \<Rightarrow> string \<Rightarrow> json option" where
  "jindex v k = (case v of JObj d \<Rightarrow> map_of d k | _ \<Rightarrow> None)"

definition rate_slice :: "json \<Rightarrow> string \<Rightarrow> string \<times> json \<Rightarrow> json option" where
  "rate_slice nvs dir ns =
     (case ns of (name, sid) \<Rightarrow>
        do {
          half \<leftarrow> jindex nvs dir;
          x \<leftarrow> jindex half name;
          d \<leftarrow> (case x of JObj d \<Rightarrow> Some d | _ \<Rightarrow> None);
          i \<leftarrow> py_int sid;
          r \<leftarrow> py_float (dget_or d ''mbps_required'' (JInt 0));
          f \<leftarrow> py_float (dget_or d ''mbps_reference'' (JInt 100));
          Some (JObj [(''id'', JInt i), (''label'', JStr name), (''mbps_required'', JFloat r),
            (''mbps_reference'', JFloat f)])
        })"

definition profile_to_rate_slices :: "json \<Rightarrow> (json list \<times> json list) option" where
  "profile_to_rate_slices p =
     do {
       ids \<leftarrow> jindex p ''slice_ids'';
       nvs \<leftarrow> jindex p ''nvs_rate'';
       ns \<leftarrow> (case ids of JObj d \<Rightarrow> Some d | _ \<Rightarrow> None);
       dl \<leftarrow> those (map (rate_slice nvs ''dl'') ns);
       ul \<leftarrow> those (map (rate_slice nvs ''ul'') ns);
       Some (dl, ul)
     }"

definition do_apply_profiles :: "'n ctl_env \<Rightarrow> dict \<Rightarrow> 'n ctl \<Rightarrow> 'n ctl \<times> reply" where
  "do_apply_profiles env req c =
     (case load_profiles env (py_truthy (dget_or req ''force_reload'' (JBool False))) c of (c, p) \<Rightarrow>
        if \<not> py_truthy p then (c, Inr (err ''profiles.json not loaded'' []))
        else case profile_to_rate_slices p of
               None \<Rightarrow> (c, Inr (err ''profiles.json missing required keys'' []))
             | Some (dl, ul) \<Rightarrow>
                 (case do_add_nvs_rate_slices env [(''dl'', JArr dl), (''ul'', JArr ul)] c of
                    (c, Inl e) \<Rightarrow> (c, Inl e)
                  | (c, Inr resp) \<Rightarrow>
                      (state_put [(''last_ctrl_ts'', JFloat (clock env)),
                         (''last_ctrl'', JObj [(''cmd'', JStr ''apply_profiles''),
                            (''dl'', JInt (int (length dl))), (''ul'', JInt (int (length ul)))])] c,
                       Inr resp)))"

end
