(* ===== verification/CtlRequests.thy ===== *)
theory CtlRequests imports CtlPosture CtlBinding begin

text \<open>
  The dispatcher of the controller, \<^verbatim>\<open>handle\<close>, and the loop of \<^verbatim>\<open>serve_forever\<close> over the lines of
  a connection.  Reading the socket and \<^verbatim>\<open>json.loads\<close> are left out: a line is the value it parses
  to, or \<^const>\<open>None\<close> when it is no JSON.
\<close>

section \<open>Commands on the registry of UEs\<close>

definition hex_or_none :: "int option \<Rightarrow> json" where
  "hex_or_none v = (case truthy_rnti v of None \<Rightarrow> JNull | Some r \<Rightarrow> JStr (py_hex r))"

text \<open>\<^verbatim>\<open>hex(STATE["last_rnti"])\<close>; that entry is an integer or \<^verbatim>\<open>None\<close>.\<close>

definition do_get_state :: "'n ctl_env \<Rightarrow> 'n ctl \<Rightarrow> 'n ctl \<times> reply" where
  "do_get_state env c =
     (c, Inr (ok
        [(''last_rnti'', dget (STATE c) ''last_rnti''),
         (''last_rnti_hex'', hex_or_none (py_int (dget (STATE c) ''last_rnti''))),
         (''scheduler_rnti_hex'', hex_or_none (CURRENT_SCHEDULER_RNTI c)),
         (''scheduler_rnti'', opt_int_json (CURRENT_SCHEDULER_RNTI c)),
         (''scheduler_rnti_ts'', opt_fl_json (CURRENT_SCHEDULER_RNTI_TS c)),
         (''last_profile'', dget (STATE c) ''last_profile''),
         (''last_slice'', dget (STATE c) ''last_slice''),
         (''last_ctrl_ts'', dget (STATE c) ''last_ctrl_ts''),
         (''last_ctrl'', dget (STATE c) ''last_ctrl''),
         (''profiles_loaded_at'', dget (STATE c) ''profiles_loaded_at''),
         (''profiles_loaded'', JBool (dget (STATE c) ''profiles'' \<noteq> JNull)),
         (''active_mode'', dget (STATE c) ''active_mode''),
         (''active_alg'', dget (STATE c) ''active_alg'')]))"

text \<open>The reply names the global \<^verbatim>\<open>PROFILE_MAP\<close>, which the file does not define.\<close>

definition do_introspect :: "'n ctl \<Rightarrow> 'n ctl \<times> reply" where
  "do_introspect c = (c, Inl NameError)"

definition do_reset_ues :: "'n ctl_env \<Rightarrow> 'n ctl \<Rightarrow> 'n ctl \<times> reply" where
  "do_reset_ues env c =
     (state_put [(''last_rnti'', JNull)] (c\<lparr>UE_REGISTRY := [], LAST_RNTI := None\<rparr>),
      Inr (ok [(''cleared'', JBool True), (''ttl_s'', JInt (UE_TTL_S env))]))"

definition all_ues :: "'n ctl_env \<Rightarrow> 'n ctl \<Rightarrow> 'n ctl \<times> (int \<times> dict) list" where
  "all_ues env c = list_ues env False (UE_ACTIVE_MAX_AGE_S env) JNull c"

definition do_set_last_rnti :: "'n ctl_env \<Rightarrow> dict \<Rightarrow> 'n ctl \<Rightarrow> 'n ctl \<times> reply" where
  "do_set_last_rnti env req c =
     (case map_of req ''rnti'' of
        None \<Rightarrow> (c, Inl KeyError)
      | Some v \<Rightarrow>
          (case py_int v of
             None \<Rightarrow> (c, Inl BadValue)
           | Some r \<Rightarrow>
               (case all_ues env (touch_ue env r [(''src'', JStr ''set_last_rnti'')] [] c) of (c, us) \<Rightarrow>
                  (c, Inr (ok [(''last_rnti'', JInt r), (''ues'', ue_items env us),
                     (''ttl_s'', JInt (UE_TTL_S env))])))))"

text \<open>The fields of an \<^verbatim>\<open>update_scheduler_rnti\<close> request that are handed to \<^verbatim>\<open>touch_ue\<close>.\<close>

definition scheduler_fields :: "string list" where
  "scheduler_fields =
     [''dl_id'', ''ul_id'', ''dl_mul'', ''ul_mul'', ''dl_cap'', ''ul_cap'', ''dl_floor'', ''ul_floor'',
      ''dl_maxcg'', ''ul_maxcg'', ''dl_rbSize'', ''ul_rbSize'', ''dl_current_rbs'',
      ''ul_current_rbs'', ''ul_max_mcs'', ''min_grant_prb'', ''ulsch_max_frame_inactivity'',
      ''pusch_target_snrx10'', ''ul_sched_mul'', ''ul_maxcg_override'', ''ul_small_burst_bytes'',
      ''ul_small_burst_mul'', ''ul_small_burst_hit'', ''dl_max_mcs'', ''dl_min_grant_prb'',
      ''dl_sched_mul'', ''dl_maxcg_override'', ''dl_small_burst_bytes'', ''dl_small_burst_mul'',
      ''dl_small_burst_hit'', ''tpc0'', ''pusch_snrx10'', ''dl_throttled'', ''ul_throttled'']"

definition flag_int :: "bool \<Rightarrow> json" where
  "flag_int b = JInt (if b then 1 else 0)"

definition do_update_scheduler_rnti :: "'n ctl_env \<Rightarrow> dict \<Rightarrow> 'n ctl \<Rightarrow> 'n ctl \<times> reply" where
  "do_update_scheduler_rnti env req c =
     (if dget req ''rnti'' = JNull then (c, Inr (err ''rnti missing'' []))
      else case py_int (dget req ''rnti'') of
        None \<Rightarrow> (c, Inr (err ''invalid rnti'' [(''detail'', dget req ''rnti'')]))
      | Some r \<Rightarrow>
          let meta = dict_of (dget req ''meta'');
              meta = (if map_of meta ''src'' = None
                      then dput ''src'' (JStr ''gnb_rnti_watcher'') meta else meta);
              c = state_put [(''scheduler_rnti'', JInt r), (''scheduler_rnti_ts'', JFloat (clock env)),
                    (''last_rnti'', JInt r)]
                  (c\<lparr>CURRENT_SCHEDULER_RNTI := Some r, CURRENT_SCHEDULER_RNTI_TS := Some (clock env),
                     LAST_RNTI := Some r\<rparr>);
              reason = py_str (repr_of env) (py_or (dget meta ''reason'') (JStr []));
              kw = map (\<lambda>k. (k, dget req k)) scheduler_fields @
                   [(''ul_event_inc'', flag_int (take 3 reason = ''ul_'')),
                    (''dl_event_inc'', flag_int (take 3 reason = ''dl_'')),
                    (''ul_grant_inc'', flag_int (reason = ''ul_alloc'')),
                    (''dl_grant_inc'', flag_int (reason = ''dl_alloc'')),
                    (''last_reason'', JStr reason)]
          in (touch_ue env r meta kw c,
              Inr (ok [(''scheduler_rnti'', JInt r), (''scheduler_rnti_hex'', JStr (py_hex r)),
                (''scheduler_rnti_ts'', JFloat (clock env)), (''ttl_s'', JInt (UE_TTL_S env))])))"

definition do_get_scheduler_rnti :: "'n ctl \<Rightarrow> 'n ctl \<times> reply" where
  "do_get_scheduler_rnti c =
     (c, Inr (ok
        [(''scheduler_rnti'', opt_int_json (CURRENT_SCHEDULER_RNTI c)),
         (''scheduler_rnti_hex'', hex_or_none (CURRENT_SCHEDULER_RNTI c)),
         (''scheduler_rnti_ts'', opt_fl_json (CURRENT_SCHEDULER_RNTI_TS c))]))"

definition do_ue_list :: "'n ctl_env \<Rightarrow> dict \<Rightarrow> 'n ctl \<Rightarrow> 'n ctl \<times> reply" where
  "do_ue_list env req c =
     (let active_only = py_truthy (dget_or req ''active_only'' (JBool True)) in
      case py_float (dget_or req ''max_age_s'' (JFloat (UE_ACTIVE_MAX_AGE_S env))) of
        None \<Rightarrow> (c, Inl BadValue)
      | Some max_age \<Rightarrow>
          (case list_ues env active_only max_age (dget req ''src'') c of (c, us) \<Rightarrow>
             (c, Inr (ok [(''ues'', ue_items env (pick_by_role env (dget req ''role'') us)),
                (''ttl_s'', JInt (UE_TTL_S env)), (''active_only'', JBool active_only),
                (''max_age_s'', JFloat max_age), (''src'', dget req ''src'')]))))"

definition do_tag_ue :: "'n ctl_env \<Rightarrow> dict \<Rightarrow> 'n ctl \<Rightarrow> 'n ctl \<times> reply" where
  "do_tag_ue env req c =
     (if dget req ''rnti'' = JNull then (c, Inr (err ''rnti missing'' []))
      else
        let role = py_str (repr_of env) (dget_or req ''role'' (JStr ''unknown'')) in
        case py_int (dget req ''rnti'') of
          None \<Rightarrow> (c, Inl BadValue)
        | Some r \<Rightarrow>
            (case list_ues env True (UE_ACTIVE_MAX_AGE_S env) (JStr ''gnb_rnti_watcher'')
                (touch_ue env r [(''role_src'', JStr ''tag_ue'')] [(''role'', JStr role)] c) of
               (c, us) \<Rightarrow>
                 (c, Inr (ok [(''rnti'', JInt r), (''role'', JStr role), (''ues'', ue_items env us),
                    (''ttl_s'', JInt (UE_TTL_S env))]))))"

definition do_update_ue :: "'n ctl_env \<Rightarrow> dict \<Rightarrow> 'n ctl \<Rightarrow> 'n ctl \<times> reply" where
  "do_update_ue env req c =
     (if dget req ''rnti'' = JNull then (c, Inr (err ''rnti missing'' []))
      else case py_int (dget req ''rnti'') of
        None \<Rightarrow> (c, Inl BadValue)
      | Some r \<Rightarrow>
          (case all_ues env (touch_ue env r (dict_of (dget req ''meta''))
              (map (\<lambda>k. (k, dget req k)) [''ue_idx'', ''ul_bytes'', ''dl_bytes'', ''rsrp'', ''snr'']) c) of
             (c, us) \<Rightarrow>
               (c, Inr (ok [(''rnti'', JInt r), (''ues'', ue_items env us),
                  (''ttl_s'', JInt (UE_TTL_S env))]))))"

section \<open>The dispatcher\<close>

definition handle :: "'n ctl_env \<Rightarrow> dict \<Rightarrow> 'n ctl \<Rightarrow> 'n ctl \<times> reply" where
  "handle env req c =
     (let cmd = dget_or req ''cmd'' (JStr []) in
      if cmd = JStr ''ping'' then (c, Inr (ok [(''pong'', JBool True)]))
      else if cmd = JStr ''get_state'' then do_get_state env c
      else if cmd = JStr ''apply_profiles'' then do_apply_profiles env req c
      else if cmd = JStr ''introspect'' then do_introspect c
      else if cmd \<in> {JStr ''set_ue_ul_la'', JStr ''set_ue_posture''} then do_set_ue_ul_la env req c
      else if cmd \<in> {JStr ''get_ue_ul_la'', JStr ''get_ue_posture''} then do_get_ue_ul_la env req c
      else if cmd \<in> {JStr ''clear_ue_ul_la'', JStr ''clear_ue_posture''} then do_clear_ue_ul_la env req c
      else if cmd = JStr ''reset_ues'' then do_reset_ues env c
      else if cmd = JStr ''set_last_rnti'' then do_set_last_rnti env req c
      else if cmd = JStr ''get_last_rnti'' then
        (c, Inr (ok [(''last_rnti'', opt_int_json (LAST_RNTI c))]))
      else if cmd = JStr ''update_scheduler_rnti'' then do_update_scheduler_rnti env req c
      else if cmd = JStr ''get_scheduler_rnti'' then do_get_scheduler_rnti c
      else if cmd = JStr ''ue_slice_assoc'' then do_ue_slice_assoc env req c
      else if cmd = JStr ''add_static_slices'' then do_add_static_slices env req c
      else if cmd = JStr ''set_mode'' then do_set_mode env req c
      else if cmd = JStr ''set_profile'' then do_set_profile env req c
      else if cmd = JStr ''add_nvs_slices'' then do_add_nvs_slices env req c
      else if cmd = JStr ''add_nvs_rate_slices'' then do_add_nvs_rate_slices env req c
      else if cmd = JStr ''ue_list'' then do_ue_list env req c
      else if cmd = JStr ''tag_ue'' then do_tag_ue env req c
      else if cmd = JStr ''update_ue'' then do_update_ue env req c
      else (c, Inr (err ''unknown cmd'' [(''cmd'', cmd)])))"

text \<open>One line of a connection: a value that is no dictionary has no \<^verbatim>\<open>get\<close> and raises.\<close>

definition serve_line :: "'n ctl_env \<Rightarrow> json option \<Rightarrow> 'n ctl \<Rightarrow> 'n ctl \<times> dict" where
  "serve_line env line c =
     (case line of
        Some (JObj req) \<Rightarrow>
          (case handle env req c of
             (c, Inr resp) \<Rightarrow> (c, resp)
           | (c, Inl e) \<Rightarrow> (c, err ''exception'' []))
      | _ \<Rightarrow> (c, err ''exception'' []))"

text \<open>A connection answers its last line.\<close>

definition serve_conn :: "'n ctl_env \<Rightarrow> json option list \<Rightarrow> 'n ctl \<Rightarrow> 'n ctl \<times> dict" where
  "serve_conn env lines c =
     fold (\<lambda>line (c, resp). serve_line env line c) lines (c, ok [])"

section \<open>Runs\<close>

text \<open>The state at the start; the state file may be left from an earlier controller.\<close>

definition ctl_init :: "string option \<Rightarrow> (nat \<Rightarrow> 'n) \<Rightarrow> 'n ctl" where
  "ctl_init file rn =
     \<lparr>UE_REGISTRY = [], LAST_RNTI = None, CURRENT_SCHEDULER_RNTI = None,
      CURRENT_SCHEDULER_RNTI_TS = None, UE_UL_LA_REGISTRY = [],
      STATE = map (\<lambda>k. (k, JNull)) [''profiles_loaded_at'', ''profiles'', ''last_rnti'',
        ''scheduler_rnti'', ''scheduler_rnti_ts'', ''last_profile'', ''last_slice'', ''last_ctrl_ts'',
        ''last_ctrl'', ''active_mode'', ''active_alg''],
      ue_la_file = file, ran = rn\<rparr>"

text \<open>\<^verbatim>\<open>main\<close> loads the profiles and then serves for ever.\<close>

definition ctl_start :: "'n ctl_env \<Rightarrow> string option \<Rightarrow> (nat \<Rightarrow> 'n) \<Rightarrow> 'n ctl" where
  "ctl_start env file rn = fst (load_profiles env False (ctl_init file rn))"

text \<open>The lines that the controller serves one after the other, each in its own surroundings.\<close>

definition serve_all :: "('n ctl_env \<times> json option) list \<Rightarrow> 'n ctl \<Rightarrow> 'n ctl" where
  "serve_all ls c = fold (\<lambda>(env, line) c. fst (serve_line env line c)) ls c"

end
