(* ===== verification/CtlTyped.thy ===== *)
theory CtlTyped imports CtlRequests begin

text \<open>
  The types of the controller's dictionaries.  Every key of a UE entry has one type, the registry
  of UEs has distinct positive RNTIs, and the registry of postures holds checked postures only.
  All handlers keep this, so that the conversions that the controller applies to what it stored
  itself never raise.
\<close>

section \<open>Types\<close>

datatype py_ty = TyNone | TyBool | TyInt | TyFloat | TyStr | TyList | TyDict

fun ty_of :: "json \<Rightarrow> py_ty" where
  "ty_of JNull = TyNone"
| "ty_of (JBool _) = TyBool"
| "ty_of (JInt _) = TyInt"
| "ty_of (JFloat _) = TyFloat"
| "ty_of (JStr _) = TyStr"
| "ty_of (JArr _) = TyList"
| "ty_of (JObj _) = TyDict"

definition kind_ty :: "touch_kind \<Rightarrow> py_ty" where
  "kind_ty k = (case k of TInt \<Rightarrow> TyInt | TFloat \<Rightarrow> TyFloat | TStr \<Rightarrow> TyStr)"

text \<open>
  The keys of a UE entry with their types, as the signature of \<^verbatim>\<open>touch_ue\<close> announces them, and those
  of the entries that \<^verbatim>\<open>touch_ue\<close> adds itself.
\<close>

definition entry_int_keys :: "string list" where
  "entry_int_keys =
     [''ue_idx'', ''ul_bytes'', ''dl_bytes'', ''dl_id'', ''ul_id'', ''dl_cap'', ''ul_cap'',
      ''dl_floor'', ''ul_floor'', ''dl_maxcg'', ''ul_maxcg'', ''dl_rbSize'', ''ul_rbSize'',
      ''dl_current_rbs'', ''ul_current_rbs'', ''ul_max_mcs'', ''min_grant_prb'',
      ''ulsch_max_frame_inactivity'', ''pusch_target_snrx10'', ''ul_maxcg_override'',
      ''ul_small_burst_bytes'', ''ul_small_burst_hit'', ''dl_max_mcs'', ''dl_min_grant_prb'',
      ''dl_maxcg_override'', ''dl_small_burst_bytes'', ''dl_small_burst_hit'', ''tpc0'',
      ''pusch_snrx10'', ''dl_throttled_count'', ''ul_throttled_count'', ''ul_event_count'',
      ''dl_event_count'', ''ul_grant_count'', ''dl_grant_count'']"

definition entry_float_keys :: "string list" where
  "entry_float_keys =
     [''rsrp'', ''snr'', ''dl_mul'', ''ul_mul'', ''ul_sched_mul'', ''ul_small_burst_mul'',
      ''dl_sched_mul'', ''dl_small_burst_mul'', ''last_seen'']"

definition entry_types :: "(string \<times> py_ty) list" where
  "entry_types =
     map (\<lambda>k. (k, TyInt)) entry_int_keys @ map (\<lambda>k. (k, TyFloat)) entry_float_keys @
     map (\<lambda>k. (k, TyStr)) [''role'', ''profile'', ''source_family'', ''last_reason''] @
     [(''meta'', TyDict), (''dl_throttled'', TyBool), (''ul_throttled'', TyBool)]"

definition entry_typed :: "dict \<Rightarrow> bool" where
  "entry_typed e \<longleftrightarrow> list_all (\<lambda>(k, v). map_of entry_types k = Some (ty_of v)) e"

definition ue_typed :: "int \<times> dict \<Rightarrow> bool" where
  "ue_typed x \<longleftrightarrow> 0 < fst x \<and> entry_typed (snd x) \<and> dget (snd x) ''last_seen'' \<noteq> JNull"

text \<open>The values a posture can have.\<close>

definition posture_valid :: "posture \<Rightarrow> bool" where
  "posture_valid p \<longleftrightarrow>
     pred_option (\<lambda>v. 0 \<le> v \<and> v \<le> 28) (p_ul_max_mcs p) \<and>
     pred_option (\<lambda>v. 0 \<le> v \<and> v \<le> 28) (p_dl_max_mcs p) \<and>
     pred_option (\<lambda>v. 1 \<le> v \<and> v \<le> 50) (p_min_grant_prb p) \<and>
     pred_option (\<lambda>v. 1 \<le> v \<and> v \<le> 50) (p_dl_min_grant_prb p) \<and>
     pred_option (\<lambda>v. 0 \<le> v \<and> v \<le> 20) (p_ulsch_max_frame_inactivity p) \<and>
     pred_option (\<lambda>v. 0 \<le> v \<and> v \<le> 400) (p_pusch_target_snrx10 p) \<and>
     pred_option (fl_lt fl_zero) (p_ul_sched_mul p) \<and> pred_option (fl_lt fl_zero) (p_ul_small_burst_mul p) \<and>
     pred_option (fl_lt fl_zero) (p_dl_sched_mul p) \<and> pred_option (fl_lt fl_zero) (p_dl_small_burst_mul p) \<and>
     pred_option (\<lambda>v. 0 < v) (p_ul_maxcg_override p) \<and> pred_option (\<lambda>v. 0 < v) (p_dl_maxcg_override p) \<and>
     pred_option (\<lambda>v. 0 < v) (p_ul_small_burst_bytes p) \<and> pred_option (\<lambda>v. 0 < v) (p_dl_small_burst_bytes p)"

lemma pred_option_checks:
  "pred_option (\<lambda>v. lo \<le> v \<and> v \<le> hi) i = in_range lo hi i"
  "pred_option (\<lambda>v. 0 < v) i = positive_int i" "pred_option (fl_lt fl_zero) x = positive_float x"
  by (cases i; cases x; simp add: in_range_def positive_int_def positive_float_def)+

text \<open>They are what the checks let through.\<close>

lemma posture_valid_checks: "posture_valid p \<longleftrightarrow> list_all fst (posture_checks p)"
  unfolding posture_valid_def pred_option_checks posture_checks_def by simp

definition ctl_typed :: "'n ctl \<Rightarrow> bool" where
  "ctl_typed c \<longleftrightarrow>
     distinct (map fst (UE_REGISTRY c)) \<and> list_all ue_typed (UE_REGISTRY c) \<and>
     distinct (map fst (UE_UL_LA_REGISTRY c)) \<and>
     list_all (\<lambda>(r, p). posture_valid p) (UE_UL_LA_REGISTRY c)"

section \<open>Entries keep their types\<close>

lemma entry_typed_dput:
  "entry_typed e \<Longrightarrow> map_of entry_types k = Some (ty_of v) \<Longrightarrow> entry_typed (dput k v e)"
  unfolding entry_typed_def dput_def by (induction e) auto

lemma entry_typed_ddel: "entry_typed e \<Longrightarrow> entry_typed (ddel k e)"
  unfolding entry_typed_def ddel_def by (induction e) (auto simp: AList.delete_simps)

lemma entry_typed_Nil [simp]: "entry_typed []"
  by (simp add: entry_typed_def)

lemma touch_fields_match: "list_all (\<lambda>(k, kind). map_of entry_types k = Some (kind_ty kind)) touch_fields"
  by (simp add: touch_fields_def entry_types_def entry_int_keys_def entry_float_keys_def kind_ty_def)

lemma touch_field_types: "(k, kind) \<in> set touch_fields \<Longrightarrow> map_of entry_types k = Some (kind_ty kind)"
  using touch_fields_match by (auto simp: list_all_iff)

lemma entry_typed_touch_field:
  "entry_typed e \<Longrightarrow> f \<in> set touch_fields \<Longrightarrow> entry_typed (touch_field rp kw f e)"
  using touch_field_types [of "fst f" "snd f"]
  by (auto simp: touch_field_def set_int_def set_float_def Let_def kind_ty_def
      intro!: entry_typed_dput split: prod.splits option.splits touch_kind.splits)

lemma entry_typed_touch_fields:
  "entry_typed e \<Longrightarrow> set fs \<subseteq> set touch_fields \<Longrightarrow> entry_typed (fold (touch_field rp kw) fs e)"
  by (induction fs arbitrary: e) (auto simp: entry_typed_touch_field)

lemma other_types [simp]:
  "map_of entry_types ''last_seen'' = Some TyFloat" "map_of entry_types ''meta'' = Some TyDict"
  "map_of entry_types ''source_family'' = Some TyStr" "map_of entry_types ''last_reason'' = Some TyStr"
  "map_of entry_types ''dl_throttled'' = Some TyBool" "map_of entry_types ''ul_throttled'' = Some TyBool"
  "map_of entry_types ''dl_throttled_count'' = Some TyInt"
  "map_of entry_types ''ul_throttled_count'' = Some TyInt"
  "map_of entry_types ''ul_event_count'' = Some TyInt" "map_of entry_types ''dl_event_count'' = Some TyInt"
  "map_of entry_types ''ul_grant_count'' = Some TyInt" "map_of entry_types ''dl_grant_count'' = Some TyInt"
  by (simp_all add: entry_types_def entry_int_keys_def entry_float_keys_def)

lemma entry_typed_count_up:
  "entry_typed e \<Longrightarrow> map_of entry_types k = Some TyInt \<Longrightarrow> entry_typed (count_up k n e)"
  by (auto simp: count_up_def intro: entry_typed_dput split: option.split)

lemma entry_typed_throttled:
  "entry_typed e \<Longrightarrow> map_of entry_types k = Some TyBool \<Longrightarrow> map_of entry_types kc = Some TyInt \<Longrightarrow>
   entry_typed (touch_throttled kw k kc e)"
  by (simp add: touch_throttled_def Let_def entry_typed_dput entry_typed_count_up)

lemma entry_typed_count:
  "entry_typed e \<Longrightarrow> map_of entry_types kc = Some TyInt \<Longrightarrow> entry_typed (touch_count kw k kc e)"
  by (simp add: touch_count_def entry_typed_count_up split: option.split)

lemma entry_typed_meta: "entry_typed e \<Longrightarrow> entry_typed (touch_meta rp meta e)"
  by (simp add: touch_meta_def Let_def entry_typed_dput)

lemma entry_typed_touch: "entry_typed e \<Longrightarrow> entry_typed (touch_entry env meta kw e)"
  unfolding touch_entry_def Let_def
  by (simp add: entry_typed_dput entry_typed_count entry_typed_throttled entry_typed_touch_fields
      entry_typed_meta)

text \<open>The time of the last touch stays.\<close>

definition timed :: "dict \<Rightarrow> bool" where
  "timed e \<longleftrightarrow> dget e ''last_seen'' \<noteq> JNull"

lemma timed_dput: "timed e \<Longrightarrow> k \<noteq> ''last_seen'' \<Longrightarrow> timed (dput k v e)"
  by (simp add: timed_def dget_dput)

lemma timed_touch_field: "timed e \<Longrightarrow> f \<in> set touch_fields \<Longrightarrow> timed (touch_field rp kw f e)"
proof -
  assume t: "timed e" and f: "f \<in> set touch_fields"
  have "fst f \<noteq> ''last_seen''" using f by (auto simp: touch_fields_def)
  with t show ?thesis
    by (auto simp: touch_field_def set_int_def set_float_def Let_def intro!: timed_dput
        split: prod.splits option.splits touch_kind.splits)
qed

lemma timed_touch_fields:
  "timed e \<Longrightarrow> set fs \<subseteq> set touch_fields \<Longrightarrow> timed (fold (touch_field rp kw) fs e)"
  by (induction fs arbitrary: e) (auto simp: timed_touch_field)

lemma timed_count_up: "timed e \<Longrightarrow> k \<noteq> ''last_seen'' \<Longrightarrow> timed (count_up k n e)"
  by (simp add: count_up_def timed_dput split: option.split)

lemma timed_throttled:
  "timed e \<Longrightarrow> k \<noteq> ''last_seen'' \<Longrightarrow> kc \<noteq> ''last_seen'' \<Longrightarrow> timed (touch_throttled kw k kc e)"
  by (simp add: touch_throttled_def Let_def timed_dput timed_count_up)

lemma timed_count: "timed e \<Longrightarrow> kc \<noteq> ''last_seen'' \<Longrightarrow> timed (touch_count kw k kc e)"
  by (simp add: touch_count_def timed_count_up split: option.split)

lemma timed_meta: "timed e \<Longrightarrow> timed (touch_meta rp meta e)"
  by (simp add: touch_meta_def Let_def timed_dput)

lemma timed_touch: "timed (touch_entry env meta kw e)"
proof -
  have "timed (dput ''last_seen'' (JFloat (clock env)) e)" by (simp add: timed_def dget_dput)
  then have "timed (fold (touch_field (repr_of env) kw) touch_fields
      (touch_meta (repr_of env) meta (dput ''last_seen'' (JFloat (clock env)) e)))"
    by (intro timed_touch_fields timed_meta) simp_all
  then show ?thesis
    unfolding touch_entry_def Let_def
    by (simp add: timed_dput timed_count timed_throttled)
qed

section \<open>Association lists\<close>

lemma list_all_update: "list_all P xs \<Longrightarrow> P (k, v) \<Longrightarrow> list_all P (AList.update k v xs)"
  by (induction xs) auto

lemma list_all_delete: "list_all P xs \<Longrightarrow> list_all P (AList.delete k xs)"
  by (simp add: list_all_iff AList.delete_eq)

lemma ue_entry_typed: "list_all ue_typed (UE_REGISTRY c) \<Longrightarrow> entry_typed (ue_entry c r)"
  by (auto simp: ue_entry_def list_all_iff ue_typed_def split: option.split dest!: map_of_SomeD)

lemma no_posture_valid [simp]: "posture_valid no_posture"
  by (simp add: posture_valid_def posture_checks_def no_posture_def in_range_def positive_int_def
      positive_float_def)

lemma posture_of_valid:
  "list_all (\<lambda>(r, p). posture_valid p) (UE_UL_LA_REGISTRY c) \<Longrightarrow> posture_valid (posture_of c r)"
  by (auto simp: posture_of_def list_all_iff split: option.split dest!: map_of_SomeD)

section \<open>Operations keep the types\<close>

text \<open>Only the two registries matter.\<close>

lemma ctl_typed_cong:
  "UE_REGISTRY c' = UE_REGISTRY c \<Longrightarrow> UE_UL_LA_REGISTRY c' = UE_UL_LA_REGISTRY c \<Longrightarrow>
   ctl_typed c \<Longrightarrow> ctl_typed c'"
  by (simp add: ctl_typed_def)

lemma state_put_fields [simp]:
  "UE_REGISTRY (state_put kw c) = UE_REGISTRY c"
  "UE_UL_LA_REGISTRY (state_put kw c) = UE_UL_LA_REGISTRY c"
  "ue_la_file (state_put kw c) = ue_la_file c" "ran (state_put kw c) = ran c"
  "LAST_RNTI (state_put kw c) = LAST_RNTI c"
  "CURRENT_SCHEDULER_RNTI (state_put kw c) = CURRENT_SCHEDULER_RNTI c"
  by (simp_all add: state_put_def)

lemma state_put_typed [simp]: "ctl_typed (state_put kw c) = ctl_typed c"
  by (simp add: ctl_typed_def)

lemma touch_ue_typed: "ctl_typed c \<Longrightarrow> ctl_typed (touch_ue env r meta kw c)"
proof -
  assume c: "ctl_typed c"
  then have "0 < r \<Longrightarrow> ue_typed (r, touch_entry env meta kw (ue_entry c r))"
    using timed_touch [of env meta kw]
    by (simp add: ue_typed_def ctl_typed_def timed_def entry_typed_touch ue_entry_typed)
  with c show ?thesis
    by (simp add: ctl_typed_def touch_ue_def AList.distinct_update list_all_update)
qed

lemma touch_ue_fields [simp]:
  "UE_UL_LA_REGISTRY (touch_ue env r meta kw c) = UE_UL_LA_REGISTRY c"
  "ue_la_file (touch_ue env r meta kw c) = ue_la_file c" "ran (touch_ue env r meta kw c) = ran c"
  by (simp_all add: touch_ue_def)

lemma prune_ues_typed: "ctl_typed c \<Longrightarrow> ctl_typed (prune_ues env c)"
  by (auto simp: ctl_typed_def prune_ues_def list_all_iff distinct_map inj_on_def)

lemma prune_ues_fields [simp]:
  "UE_UL_LA_REGISTRY (prune_ues env c) = UE_UL_LA_REGISTRY c"
  "ue_la_file (prune_ues env c) = ue_la_file c" "ran (prune_ues env c) = ran c"
  "STATE (prune_ues env c) = STATE c"
  by (simp_all add: prune_ues_def)

lemma list_ues_state: "list_ues env a m s c = (c', us) \<Longrightarrow> c' = prune_ues env c"
  by (simp add: list_ues_def Let_def)

lemma pick_rnti_state: "pick_rnti env st role c = (c', r) \<Longrightarrow> c' = prune_ues env (prune_ues env c)"
  by (auto simp: pick_rnti_def Let_def list_ues_def split: if_splits)

lemma resolve_state:
  "resolve_control_rnti env req c = (c', r) \<Longrightarrow> c' = c \<or> c' = prune_ues env (prune_ues env c)"
  by (auto simp: resolve_control_rnti_def Let_def split: if_splits prod.splits dest: pick_rnti_state)

lemma resolve_fields:
  assumes "resolve_control_rnti env req c = (c', r)"
  shows "UE_UL_LA_REGISTRY c' = UE_UL_LA_REGISTRY c" "ue_la_file c' = ue_la_file c" "ran c' = ran c"
    "ctl_typed c \<Longrightarrow> ctl_typed c'"
  using resolve_state [OF assms] by (auto simp: prune_ues_typed)

section \<open>Invariants of the handlers\<close>

text \<open>
  An invariant of the two registries and the state file that the primitive operations keep is kept
  by every handler.  \<open>E\<close> restricts what the requests meet outside the program.
\<close>

locale ctl_invariant =
  fixes I :: "'n ctl \<Rightarrow> bool" and E :: "'n ctl_env \<Rightarrow> bool"
  assumes inv_frame: "I c \<Longrightarrow> UE_REGISTRY c' = UE_REGISTRY c \<Longrightarrow>
      UE_UL_LA_REGISTRY c' = UE_UL_LA_REGISTRY c \<Longrightarrow> ue_la_file c' = ue_la_file c \<Longrightarrow> I c'"
    and inv_touch: "I c \<Longrightarrow> I (touch_ue env r meta kw c)"
    and inv_prune: "I c \<Longrightarrow> I (prune_ues env c)"
    and inv_reset: "I c \<Longrightarrow> I (c\<lparr>UE_REGISTRY := [], LAST_RNTI := None\<rparr>)"
    and inv_snapshot: "I c \<Longrightarrow> I (clear_ue_posture_snapshot r c)"
    and inv_set: "I c \<Longrightarrow> E env \<Longrightarrow> build_ue_posture_entry req = Inr p \<Longrightarrow>
      I (fst (write_ue_la_state_atomic env (c\<lparr>UE_UL_LA_REGISTRY :=
        AList.update r (posture_update (posture_of c r) p) (UE_UL_LA_REGISTRY c)\<rparr>)))"
    and inv_clear: "I c \<Longrightarrow> E env \<Longrightarrow>
      I (fst (write_ue_la_state_atomic env
        (c\<lparr>UE_UL_LA_REGISTRY := AList.delete r (UE_UL_LA_REGISTRY c)\<rparr>)))"
begin

lemma inv_put [simp]: "I (state_put kw c) = I c"
  using inv_frame [of c "state_put kw c"] inv_frame [of "state_put kw c" c] by auto

lemma inv_ran [simp]: "I (c\<lparr>ran := rn\<rparr>) = I c"
  using inv_frame [of c "c\<lparr>ran := rn\<rparr>"] inv_frame [of "c\<lparr>ran := rn\<rparr>" c] by auto

lemma inv_sched: "I c \<Longrightarrow> I (c\<lparr>CURRENT_SCHEDULER_RNTI := a, CURRENT_SCHEDULER_RNTI_TS := b, LAST_RNTI := d\<rparr>)"
  by (erule inv_frame) simp_all

lemma inv_list_ues: "I c \<Longrightarrow> list_ues env a m s c = (c', us) \<Longrightarrow> I c'"
  by (auto dest!: list_ues_state simp: inv_prune)

lemma inv_resolve: "I c \<Longrightarrow> resolve_control_rnti env req c = (c', r) \<Longrightarrow> I c'"
  by (auto dest!: resolve_state simp: inv_prune)

lemma inv_no_rnti: "I c \<Longrightarrow> I (fst (no_rnti env hint c))"
  by (auto simp: no_rnti_def split: prod.splits dest: inv_list_ues)

lemma inv_set_posture: "I c \<Longrightarrow> E env \<Longrightarrow> I (fst (do_set_ue_ul_la env req c))"
proof -
  assume c: "I c" and E: "E env"
  obtain c1 ro where r: "resolve_control_rnti env req c = (c1, ro)" by fastforce
  have c1: "I c1" using inv_resolve [OF c r] .
  show ?thesis
  proof (cases ro)
    case None
    then show ?thesis by (simp add: do_set_ue_ul_la_def r inv_no_rnti [OF c1])
  next
    case (Some rnti)
    show ?thesis
    proof (cases "build_ue_posture_entry req")
      case (Inl d)
      then show ?thesis by (simp add: do_set_ue_ul_la_def r Some c1)
    next
      case (Inr p)
      obtain c2 w where w: "write_ue_la_state_atomic env (c1\<lparr>UE_UL_LA_REGISTRY := AList.update rnti
          (posture_update (posture_of c1 rnti) p) (UE_UL_LA_REGISTRY c1)\<rparr>) = (c2, w)" by fastforce
      have "I c2" using inv_set [OF c1 E Inr, of rnti] by (simp add: w)
      then show ?thesis
        by (simp add: do_set_ue_ul_la_def r Some Inr c1 Let_def w inv_touch)
    qed
  qed
qed

lemma inv_get_posture: "I c \<Longrightarrow> I (fst (do_get_ue_ul_la env req c))"
  by (auto simp: do_get_ue_ul_la_def inv_no_rnti split: prod.split option.split dest: inv_resolve)

lemma inv_clear_posture: "I c \<Longrightarrow> E env \<Longrightarrow> I (fst (do_clear_ue_ul_la env req c))"
proof -
  assume c: "I c" and E: "E env"
  obtain c1 ro where r: "resolve_control_rnti env req c = (c1, ro)" by fastforce
  have c1: "I c1" using inv_resolve [OF c r] .
  show ?thesis
  proof (cases ro)
    case None
    then show ?thesis by (simp add: do_clear_ue_ul_la_def r inv_no_rnti [OF c1])
  next
    case (Some rnti)
    obtain c2 w where w: "write_ue_la_state_atomic env (c1\<lparr>UE_UL_LA_REGISTRY :=
        AList.delete rnti (UE_UL_LA_REGISTRY c1)\<rparr>) = (c2, w)" by fastforce
    have "I c2" using inv_clear [OF c1 E, of rnti] by (simp add: w)
    then show ?thesis
      by (simp add: do_clear_ue_ul_la_def r Some Let_def w inv_touch inv_snapshot)
  qed
qed

lemma inv_send: "control_slice_sm_safe env ctrl c = (c', r) \<Longrightarrow> I c' = I c"
  by (auto simp: control_slice_sm_safe_def split: prod.splits)

lemma inv_assoc: "I c \<Longrightarrow> I (fst (do_ue_slice_assoc env req c))"
proof -
  assume c: "I c"
  obtain c1 ro where r: "resolve_control_rnti env req c = (c1, ro)" by fastforce
  have c1: "I c1" using inv_resolve [OF c r] .
  have s: "control_slice_sm_safe env ctrl c1 = (c2, e) \<Longrightarrow> I c2" for ctrl c2 e
    using inv_send c1 by blast
  show ?thesis
    by (auto simp: do_ue_slice_assoc_def c r c1 inv_no_rnti [OF c1] Let_def
        split: option.split sm_result.split prod.split intro!: inv_touch dest: s)
qed

lemma inv_load: "load_profiles env force c = (c', p) \<Longrightarrow> I c' = I c"
  by (auto simp: load_profiles_def Let_def split: if_splits)

lemma inv_binding: "get_profile_binding env profile c = (c', b) \<Longrightarrow> I c' = I c"
  by (auto simp: get_profile_binding_def split: prod.splits dest: inv_load)

lemma inv_meta: "get_profile_meta env profile c = (c', b) \<Longrightarrow> I c' = I c"
  by (auto simp: get_profile_meta_def split: prod.splits if_splits dest: inv_load)

lemma inv_set_mode: "I c \<Longrightarrow> I (fst (do_set_mode env req c))"
proof -
  assume c: "I c"
  let ?mode = "py_str (repr_of env) (dget_or req ''mode'' (dget_or req ''profile'' (JStr ''default'')))"
  obtain c1 bo where b: "get_profile_binding env ?mode c = (c1, bo)" by fastforce
  have c1: "I c1" using inv_binding [OF b] c by simp
  obtain c2 ro where r: "resolve_control_rnti env req c1 = (c2, ro)" by fastforce
  have c2: "I c2" using inv_resolve [OF c1 r] .
  show ?thesis
  proof (cases "bo = None \<or> ro = None")
    case True
    then show ?thesis by (auto simp: do_set_mode_def Let_def b c1 r inv_no_rnti [OF c2] split: option.split)
  next
    case False
    then obtain dl_id ul_id rnti where v: "bo = Some (dl_id, ul_id)" "ro = Some rnti" by auto
    obtain c3 a where a: "do_ue_slice_assoc env (bind_request req rnti dl_id ul_id) c2 = (c3, a)"
      by fastforce
    have c3: "I c3" using inv_assoc [OF c2] a by (metis fst_conv)
    obtain c4 m where m: "get_profile_meta env ?mode c3 = (c4, m)" by fastforce
    have c4: "I c4" using inv_meta [OF m] c3 by simp
    show ?thesis
      by (cases a; cases m; cases "entry_policy_snapshot (ue_entry c2 rnti)")
          (auto simp: do_set_mode_def Let_def b r v a m c2 c3 c4 inv_touch)
  qed
qed

lemma inv_set_profile: "I c \<Longrightarrow> I (fst (do_set_profile env req c))"
proof -
  assume c: "I c"
  let ?profile = "py_str (repr_of env) (dget_or req ''profile'' (JStr ''default''))"
  obtain c1 ro where r: "resolve_control_rnti env req c = (c1, ro)" by fastforce
  have c1: "I c1" using inv_resolve [OF c r] .
  obtain c2 bo where b: "get_profile_binding env ?profile c1 = (c2, bo)" by fastforce
  have c2: "I c2" using inv_binding [OF b] c1 by simp
  show ?thesis
  proof (cases "bo = None \<or> ro = None")
    case True
    then show ?thesis
      by (auto simp: do_set_profile_def Let_def b c2 r inv_no_rnti [OF c1] split: option.split)
  next
    case False
    then obtain dl_id ul_id rnti where v: "bo = Some (dl_id, ul_id)" "ro = Some rnti" by auto
    obtain c3 a where a: "do_ue_slice_assoc env (bind_request req rnti dl_id ul_id) c2 = (c3, a)"
      by fastforce
    have c3: "I c3" using inv_assoc [OF c2] a by (metis fst_conv)
    obtain c4 m where m: "get_profile_meta env ?profile c3 = (c4, m)" by fastforce
    have c4: "I c4" using inv_meta [OF m] c3 by simp
    show ?thesis
      by (cases a; cases m; cases "entry_policy_snapshot (ue_entry c2 rnti)")
          (auto simp: do_set_profile_def Let_def b r v a m c2 c3 c4 inv_touch)
  qed
qed

lemma inv_add_slices: "I c \<Longrightarrow> I (fst (add_slices kind cmd env req c))"
  by (auto simp: add_slices_def Let_def split: prod.split sm_result.split dest: inv_send)

lemma inv_apply_profiles: "I c \<Longrightarrow> I (fst (do_apply_profiles env req c))"
proof -
  assume c: "I c"
  obtain c1 p where l: "load_profiles env (py_truthy (dget_or req ''force_reload'' (JBool False))) c
      = (c1, p)" by fastforce
  have c1: "I c1" using inv_load [OF l] c by simp
  have "I (fst (do_add_nvs_rate_slices env q c1))" for q
    by (simp add: do_add_nvs_rate_slices_def inv_add_slices [OF c1])
  then show ?thesis
    by (auto simp: do_apply_profiles_def l c1 split: option.split prod.split sum.split) (metis fst_conv)+
qed

lemma inv_registry_commands:
  assumes c: "I c"
  shows "I (fst (do_get_state env c))" "I (fst (do_introspect c))" "I (fst (do_reset_ues env c))"
    "I (fst (do_set_last_rnti env req c))" "I (fst (do_get_scheduler_rnti c))"
    "I (fst (do_update_scheduler_rnti env req c))" "I (fst (do_ue_list env req c))"
    "I (fst (do_tag_ue env req c))" "I (fst (do_update_ue env req c))"
proof -
  note t = inv_touch [OF c] and defs = Let_def all_ues_def
  have l: "list_ues env a m s (touch_ue env r meta kw c) = (c', us) \<Longrightarrow> I c'"
    for a m s r meta kw c' us by (rule inv_list_ues [OF t])
  show "I (fst (do_get_state env c))" "I (fst (do_introspect c))" "I (fst (do_reset_ues env c))"
    "I (fst (do_get_scheduler_rnti c))"
    using c inv_reset [OF c]
    by (simp_all add: do_get_state_def do_introspect_def do_reset_ues_def do_get_scheduler_rnti_def)
  show "I (fst (do_set_last_rnti env req c))"
    by (auto simp: do_set_last_rnti_def defs c split: option.split prod.split dest: l)
  show "I (fst (do_update_scheduler_rnti env req c))"
    by (auto simp: do_update_scheduler_rnti_def Let_def c inv_touch inv_sched split: option.split)
  show "I (fst (do_ue_list env req c))"
    by (auto simp: do_ue_list_def Let_def c split: option.split prod.split dest: inv_list_ues [OF c])
  show "I (fst (do_tag_ue env req c))"
    by (auto simp: do_tag_ue_def defs c split: option.split prod.split dest: l)
  show "I (fst (do_update_ue env req c))"
    by (auto simp: do_update_ue_def defs c split: option.split prod.split dest: l)
qed

lemma inv_handle: "I c \<Longrightarrow> E env \<Longrightarrow> I (fst (handle env req c))"
  unfolding handle_def Let_def
  by (simp add: inv_registry_commands inv_apply_profiles inv_set_posture inv_get_posture
      inv_clear_posture inv_assoc inv_set_mode inv_set_profile inv_add_slices
      do_add_static_slices_def do_add_nvs_slices_def do_add_nvs_rate_slices_def)

lemma inv_serve_line: "I c \<Longrightarrow> E env \<Longrightarrow> I (fst (serve_line env line c))"
  using inv_handle [of c env]
  by (auto simp: serve_line_def split: option.split json.split prod.split sum.split) (metis fst_conv)+

lemma inv_serve_all: "I c \<Longrightarrow> list_all (E \<circ> fst) ls \<Longrightarrow> I (serve_all ls c)"
  unfolding serve_all_def by (induction ls arbitrary: c) (auto simp: inv_serve_line)

end

section \<open>The two invariants\<close>

lemma first_error_None: "first_error cs = None \<longleftrightarrow> list_all fst cs"
  by (induction cs rule: first_error.induct) auto

lemma build_valid:
  "build_ue_posture_entry req = Inr p \<longleftrightarrow> parse_posture req = Some p \<and> posture_valid p"
  by (auto simp: build_ue_posture_entry_def posture_valid_checks first_error_None [symmetric]
      split: option.splits)

lemma newer_cases: "newer a b = a \<or> newer a b = b"
  by (cases a) (simp_all add: newer_def)

lemma posture_valid_iff:
  "posture_valid p \<longleftrightarrow>
     in_range 0 28 (p_ul_max_mcs p) \<and> in_range 0 28 (p_dl_max_mcs p) \<and>
     in_range 1 50 (p_min_grant_prb p) \<and> in_range 1 50 (p_dl_min_grant_prb p) \<and>
     in_range 0 20 (p_ulsch_max_frame_inactivity p) \<and> in_range 0 400 (p_pusch_target_snrx10 p) \<and>
     positive_float (p_ul_sched_mul p) \<and> positive_float (p_ul_small_burst_mul p) \<and>
     positive_float (p_dl_sched_mul p) \<and> positive_float (p_dl_small_burst_mul p) \<and>
     positive_int (p_ul_maxcg_override p) \<and> positive_int (p_dl_maxcg_override p) \<and>
     positive_int (p_ul_small_burst_bytes p) \<and> positive_int (p_dl_small_burst_bytes p)"
  unfolding posture_valid_def pred_option_checks by simp

lemma newer_keeps:
  "P a \<Longrightarrow> P b \<Longrightarrow> P (newer a b)"
  using newer_cases [of a b] by auto

lemma posture_update_valid:
  "posture_valid cur \<Longrightarrow> posture_valid p \<Longrightarrow> posture_valid (posture_update cur p)"
  unfolding posture_valid_iff posture_update_def by (simp add: newer_keeps)

lemma write_fields:
  "fst (write_ue_la_state_atomic env c) =
     (if ue_la_written env then c\<lparr>ue_la_file := Some (write_ue_la_state (UE_UL_LA_REGISTRY c))\<rparr> else c)"
  by (simp add: write_ue_la_state_atomic_def)

lemma snapshot_typed: "ctl_typed c \<Longrightarrow> ctl_typed (clear_ue_posture_snapshot r c)"
proof -
  assume c: "ctl_typed c"
  have del: "entry_typed e \<Longrightarrow> entry_typed (fold ddel ks e)" for ks e
    by (induction ks arbitrary: e) (auto simp: entry_typed_ddel)
  have time: "k \<noteq> ''last_seen'' \<Longrightarrow> dget (ddel k e) ''last_seen'' = dget e ''last_seen''" for k e
    by (simp add: dget_def)
  have keep: "dget (fold ddel posture_keys e) ''last_seen'' = dget e ''last_seen''" for e
    by (simp add: posture_keys_def time)
  have "ue_typed (r, fold ddel posture_keys (ue_entry c r))" if "ue_entry c r \<noteq> []"
  proof -
    from that obtain e where "map_of (UE_REGISTRY c) r = Some e" "ue_entry c r = e"
      by (auto simp: ue_entry_def split: option.splits)
    then have "ue_typed (r, ue_entry c r)"
      using c by (auto simp: ctl_typed_def list_all_iff dest: map_of_SomeD)
    then show ?thesis by (simp add: ue_typed_def del keep)
  qed
  with c show ?thesis
    by (simp add: ctl_typed_def clear_ue_posture_snapshot_def AList.distinct_update list_all_update)
qed

interpretation typed: ctl_invariant ctl_typed "\<lambda>_. True"
proof unfold_locales
  fix c :: "'a ctl" and env :: "'a ctl_env" and req p r
  assume c: "ctl_typed c"
  {
    assume "build_ue_posture_entry req = Inr p"
    with c show "ctl_typed (fst (write_ue_la_state_atomic env (c\<lparr>UE_UL_LA_REGISTRY :=
        AList.update r (posture_update (posture_of c r) p) (UE_UL_LA_REGISTRY c)\<rparr>)))"
      by (auto simp: build_valid write_fields ctl_typed_def AList.distinct_update
          intro!: list_all_update posture_update_valid posture_of_valid)
  next
    show "ctl_typed (fst (write_ue_la_state_atomic env
        (c\<lparr>UE_UL_LA_REGISTRY := AList.delete r (UE_UL_LA_REGISTRY c)\<rparr>)))"
      using c by (auto simp: write_fields ctl_typed_def list_all_delete AList.distinct_delete)
  }
qed (simp_all add: ctl_typed_cong touch_ue_typed prune_ues_typed snapshot_typed,
    simp add: ctl_typed_def)

text \<open>The state file shows the registry of postures, unless none has been set or cleared yet.\<close>

definition file_follows :: "string option \<Rightarrow> 'n ctl \<Rightarrow> bool" where
  "file_follows old c \<longleftrightarrow>
     ue_la_file c = Some (write_ue_la_state (UE_UL_LA_REGISTRY c)) \<or>
     UE_UL_LA_REGISTRY c = [] \<and> ue_la_file c = old"

interpretation follows: ctl_invariant "file_follows old" ue_la_written for old
  by unfold_locales
    (auto simp: file_follows_def write_fields clear_ue_posture_snapshot_def)

end
