(* ===== verification/PostureText.thy ===== *)
theory PostureText imports StateFile begin

text \<open>
  The printed posture of a UE fits the line buffer of the gNB: decimals have as many digits as
  their size asks for, \<^verbatim>\<open>f"{v:g}"\<close> gives at most 13 characters for a double, and so no line of
  the state file is longer than 510 characters.
\<close>

section \<open>Decimals\<close>

lemma nat_str_nonempty: "0 < length (nat_str n)"
  by (simp add: nat_str.simps [of n])

lemma nat_str_less: "n < 10 ^ length (nat_str n)"
proof (induction n rule: nat_str.induct)
  case (1 n)
  show ?case
  proof (cases "n < 10")
    case False
    with 1 have "n div 10 < 10 ^ length (nat_str (n div 10))" by simp
    then have "n < 10 * 10 ^ length (nat_str (n div 10))" by (simp add: div_less_iff_less_mult mult.commute)
    with False show ?thesis by (simp add: nat_str.simps [of n])
  qed (simp add: nat_str.simps [of n])
qed

lemma nat_str_ge: "0 < n \<Longrightarrow> 10 ^ (length (nat_str n) - 1) \<le> n"
proof (induction n rule: nat_str.induct)
  case (1 n)
  show ?case
  proof (cases "n < 10")
    case False
    with 1 have "10 ^ (length (nat_str (n div 10)) - 1) \<le> n div 10" by simp
    then have "10 * 10 ^ (length (nat_str (n div 10)) - 1) \<le> n" by linarith
    with nat_str_nonempty [of "n div 10"] False show ?thesis
      by (simp add: nat_str.simps [of n] power_Suc [symmetric] del: power_Suc)
  qed (use 1 in \<open>simp add: nat_str.simps [of n]\<close>)
qed

lemmas nat_str_length = nat_str_less nat_str_ge nat_str_nonempty

lemma nat_str_length_le: "n < 10 ^ k \<Longrightarrow> 0 < k \<Longrightarrow> length (nat_str n) \<le> k"
proof (cases "n = 0")
  case False
  assume n: "n < 10 ^ k" and k: "0 < k"
  have "(10::nat) ^ (length (nat_str n) - 1) < 10 ^ k" using nat_str_length(2) [of n] False n by linarith
  then have "length (nat_str n) - 1 < k" by simp
  then show ?thesis by linarith
qed (simp add: nat_str.simps [of 0])

lemma int_str_length_le: "\<bar>i\<bar> < 10 ^ k \<Longrightarrow> 0 < k \<Longrightarrow> length (int_str i) \<le> Suc k"
  using nat_str_length_le [of "nat \<bar>i\<bar>" k] by (auto simp: int_str_def nat_less_iff)

lemma int_str_length_le_pos: "0 \<le> i \<Longrightarrow> i < 10 ^ k \<Longrightarrow> 0 < k \<Longrightarrow> length (int_str i) \<le> k"
  using nat_str_length_le [of "nat i" k] by (auto simp: int_str_def nat_less_iff)

section \<open>The decimal exponent\<close>

lemma powi_le: "m \<le> n \<Longrightarrow> (10::rat) powi m \<le> 10 powi n"
  by (rule power_int_increasing) simp_all

lemma powi_Suc: "(10::rat) powi (k + 1) = 10 * 10 powi k"
  by (simp add: power_int_add)

lemma int_str_size:
  assumes "0 < x"
  shows "10 powi (int (length (int_str x)) - 1) \<le> (of_int x :: rat)"
    "(of_int x :: rat) < 10 powi int (length (int_str x))"
proof -
  let ?l = "length (nat_str (nat x))"
  have l: "int ?l - 1 = int (?l - 1)" using nat_str_nonempty [of "nat x"] by linarith
  have x: "(of_int x :: rat) = of_nat (nat x)" "int_str x = nat_str (nat x)"
    using assms by (simp_all add: int_str_def)
  have "of_nat (10 ^ (?l - 1)) \<le> (of_nat (nat x) :: rat)"
    unfolding of_nat_le_iff using nat_str_ge [of "nat x"] assms by simp
  then show "10 powi (int (length (int_str x)) - 1) \<le> (of_int x :: rat)"
    unfolding x l power_int_of_nat by simp
  have "(of_nat (nat x) :: rat) < of_nat (10 ^ ?l)"
    unfolding of_nat_less_iff by (rule nat_str_less)
  then show "(of_int x :: rat) < 10 powi int (length (int_str x))"
    unfolding x power_int_of_nat by simp
qed

lemma dec_exp_bounds:
  assumes "0 < q"
  shows "10 powi dec_exp q \<le> q" "q < 10 powi (dec_exp q + 1)"
proof -
  obtain n d where nd: "quotient_of q = (n, d)" by fastforce
  have d: "0 < d" using quotient_of_denom_pos [OF nd] .
  have q: "q = of_int n / of_int d" using quotient_of_div [OF nd] .
  have n: "0 < n" using assms d unfolding q by (simp add: zero_less_divide_iff)
  define ln where "ln = int (length (int_str n))"
  define ld where "ld = int (length (int_str d))"
  note size = int_str_size
  have k: "dec_exp q = (if 10 powi (ln - ld) \<le> q then ln - ld else ln - ld - 1)"
    by (simp add: dec_exp_def nd ln_def ld_def Let_def)
  have low: "10 powi (ln - ld - 1) \<le> q"
  proof -
    have "(10::rat) powi (ln - ld - 1) = 10 powi (ln - 1) / 10 powi ld"
      by (simp add: power_int_diff [symmetric] algebra_simps)
    also have "\<dots> \<le> of_int n / of_int d"
      using size [OF n] size [OF d] d n by (intro frac_le) (auto simp: ln_def ld_def less_imp_le)
    finally show ?thesis by (simp add: q)
  qed
  have high: "q < 10 powi (ln - ld + 1)"
  proof -
    have "of_int n / of_int d < (10::rat) powi ln / 10 powi (ld - 1)"
      using size [OF n] size [OF d] n by (intro frac_less) (auto simp: ln_def ld_def)
    also have "\<dots> = 10 powi (ln - ld + 1)"
      by (simp add: power_int_diff [symmetric] algebra_simps)
    finally show ?thesis by (simp add: q)
  qed
  show "10 powi dec_exp q \<le> q" "q < 10 powi (dec_exp q + 1)"
    using low high by (auto simp: k)
qed

section \<open>Printed floats\<close>

text \<open>The finite doubles are 0 or have a decimal exponent from -324 to 308.\<close>

definition double_mag :: "rat \<Rightarrow> bool" where
  "double_mag m \<longleftrightarrow> m = 0 \<or> 10 powi (-324) \<le> m \<and> m < 10 powi 309"

fun double_range :: "fl \<Rightarrow> bool" where
  "double_range (FFin s m) = double_mag m"
| "double_range _ = True"

lemma dec_exp_double:
  assumes "double_mag m" and "m \<noteq> 0"
  shows "-324 \<le> dec_exp m" "dec_exp m \<le> 308"
proof -
  have m: "10 powi (-324) \<le> m" "m < 10 powi 309" using assms by (simp_all add: double_mag_def)
  have "0 < (10::rat) powi (-324)" by simp
  then have "0 < m" using m by linarith
  note b = dec_exp_bounds [OF this]
  show "-324 \<le> dec_exp m" using powi_le [of "dec_exp m + 1" "-324"] b m by linarith
  show "dec_exp m \<le> 308" using powi_le [of 309 "dec_exp m"] b m by linarith
qed

lemma strip_zeros_length: "length (strip_zeros s) \<le> length s"
  by (simp add: strip_zeros_def) (metis length_dropWhile_le length_rev)

lemma with_frac_length: "length (with_frac ip fp) \<le> length ip + 1 + length fp"
  using strip_zeros_length [of fp] by (simp add: with_frac_def)

lemma fmt_exp_length: "\<bar>e\<bar> < 1000 \<Longrightarrow> length (fmt_exp e) \<le> 5"
proof -
  assume e: "\<bar>e\<bar> < 1000"
  have "length (int_str \<bar>e\<bar>) \<le> 3" using int_str_length_le_pos [of "\<bar>e\<bar>" 3] e by simp
  moreover have "length (int_str \<bar>e\<bar>) \<le> 1" if "\<bar>e\<bar> < 10"
    using int_str_length_le_pos [of "\<bar>e\<bar>" 1] that by simp
  ultimately show ?thesis by (auto simp: fmt_exp_def)
qed

lemma digits_of_mag:
  assumes "0 < m"
  shows "0 \<le> round_half_even (m / 10 powi (dec_exp m - 5))"
    "round_half_even (m / 10 powi (dec_exp m - 5)) \<le> 1000000"
proof -
  have ten: "(10::rat) powi (dec_exp m + 1) = 1000000 * 10 powi (dec_exp m - 5)"
    using power_int_add [of "10 :: rat" 6 "dec_exp m - 5"] by (simp add: add.commute)
  have p: "0 < (10::rat) powi (dec_exp m - 5)" by simp
  have "m / 10 powi (dec_exp m - 5) \<le> of_int 1000000"
    using dec_exp_bounds(2) [OF assms] p by (simp add: ten pos_divide_le_eq)
  then show "round_half_even (m / 10 powi (dec_exp m - 5)) \<le> 1000000" by (rule round_half_even_le)
  have "of_int 0 \<le> m / 10 powi (dec_exp m - 5)" using assms p by simp
  then show "0 \<le> round_half_even (m / 10 powi (dec_exp m - 5))" by (rule round_half_even_ge)
qed

lemma fmt_mag_length:
  assumes "double_mag m"
  shows "length (fmt_mag m) \<le> 12"
proof (cases "m = 0")
  case False
  note e0 = dec_exp_double [OF assms False]
  have m: "0 < m"
  proof -
    have "0 < (10::rat) powi (-324)" by simp
    also have "\<dots> \<le> m" using assms False by (simp add: double_mag_def)
    finally show ?thesis .
  qed
  define q0 where "q0 = round_half_even (m / 10 powi (dec_exp m - 5))"
  define q where "q = (if q0 = 1000000 then 100000 else q0)"
  define e where "e = (if q0 = 1000000 then dec_exp m + 1 else dec_exp m)"
  have "0 \<le> q" "q < 10 ^ 6" using digits_of_mag [OF m] by (auto simp: q_def q0_def)
  then have ds: "length (int_str q) \<le> 6" by (intro int_str_length_le_pos) simp_all
  have e: "\<bar>e\<bar> < 1000" using e0 by (auto simp: e_def)
  have "fmt_mag m =
      (if -4 \<le> e \<and> e < 0 then with_frac ''0'' (replicate (nat (- e - 1)) (CHR ''0'') @ int_str q)
       else if 0 \<le> e \<and> e < 6 then with_frac (take (nat e + 1) (int_str q)) (drop (nat e + 1) (int_str q))
       else with_frac (take 1 (int_str q)) (drop 1 (int_str q)) @ fmt_exp e)"
    using False by (simp add: fmt_mag_def Let_def q0_def [symmetric] q_def e_def)
  moreover have "length (with_frac ''0'' (replicate (nat (- e - 1)) (CHR ''0'') @ int_str q)) \<le> 12"
    if "-4 \<le> e"
    using with_frac_length [of "''0''" "replicate (nat (- e - 1)) (CHR ''0'') @ int_str q"] ds that
    by simp
  moreover have "length (with_frac (take k (int_str q)) (drop k (int_str q))) \<le> 7" for k
    using with_frac_length [of "take k (int_str q)" "drop k (int_str q)"] ds by (simp add: min_def split: if_splits)
  ultimately show ?thesis
    using fmt_exp_length [OF e] by (simp add: le_trans [OF _ _, of _ 7 12] add_le_mono [of _ 7 _ 5, simplified])
qed (simp add: fmt_mag_def)

lemma fmt_g_length: "double_range v \<Longrightarrow> length (fmt_g v) \<le> 13"
  by (cases v rule: fmt_g.cases) (use fmt_mag_length in \<open>force+\<close>)

section \<open>Lines\<close>

definition posture_fits :: "posture \<Rightarrow> bool" where
  "posture_fits p \<longleftrightarrow> posture_ok p \<and>
     list_all (\<lambda>v. case v of None \<Rightarrow> True | Some x \<Rightarrow> double_range x)
       [p_ul_sched_mul p, p_ul_small_burst_mul p, p_dl_sched_mul p, p_dl_small_burst_mul p]"

lemma field_tok_length:
  "(\<And>x. v = Some x \<Longrightarrow> length (fmt x) \<le> n) \<Longrightarrow>
   sum_list (map (\<lambda>t. length t + 1) (field_tok k fmt v)) \<le> length k + 2 + n"
  by (auto simp: field_tok_def split: option.split)

lemma int_tok_length:
  "i32_opt v \<Longrightarrow> sum_list (map (\<lambda>t. length t + 1) (field_tok k int_str v)) \<le> length k + 13"
proof -
  assume "i32_opt v"
  then have "length (int_str x) \<le> 11" if "v = Some x" for x
    using int_str_length_le [of x 10] that by (auto simp: i32_opt_def i32_range_def)
  then show ?thesis using field_tok_length [of v int_str 11 k] by simp
qed

lemma float_tok_length:
  "(case v of None \<Rightarrow> True | Some x \<Rightarrow> double_range x) \<Longrightarrow>
   sum_list (map (\<lambda>t. length t + 1) (field_tok k fmt_g v)) \<le> length k + 15"
  using field_tok_length [of v fmt_g 13 k] fmt_g_length by (simp split: option.splits)

lemma posture_toks_length:
  "posture_fits p \<Longrightarrow> sum_list (map (\<lambda>t. length t + 1) (posture_toks p)) \<le> 450"
proof -
  assume fit: "posture_fits p"
  then have i: "list_all i32_opt
      [p_ul_max_mcs p, p_min_grant_prb p, p_ulsch_max_frame_inactivity p, p_pusch_target_snrx10 p,
       p_ul_maxcg_override p, p_ul_small_burst_bytes p, p_dl_max_mcs p, p_dl_min_grant_prb p,
       p_dl_maxcg_override p, p_dl_small_burst_bytes p]"
    and f: "list_all (\<lambda>v. case v of None \<Rightarrow> True | Some x \<Rightarrow> double_range x)
       [p_ul_sched_mul p, p_ul_small_burst_mul p, p_dl_sched_mul p, p_dl_small_burst_mul p]"
    by (simp_all only: posture_fits_def posture_ok_def)
  show ?thesis
    using i f
      int_tok_length [of "p_ul_max_mcs p" "''ul_max_mcs''"]
      int_tok_length [of "p_min_grant_prb p" "''min_grant_prb''"]
      int_tok_length [of "p_ulsch_max_frame_inactivity p" "''ulsch_max_frame_inactivity''"]
      int_tok_length [of "p_pusch_target_snrx10 p" "''pusch_target_snrx10''"]
      int_tok_length [of "p_ul_maxcg_override p" "''ul_maxcg_override''"]
      int_tok_length [of "p_ul_small_burst_bytes p" "''ul_small_burst_bytes''"]
      int_tok_length [of "p_dl_max_mcs p" "''dl_max_mcs''"]
      int_tok_length [of "p_dl_min_grant_prb p" "''dl_min_grant_prb''"]
      int_tok_length [of "p_dl_maxcg_override p" "''dl_maxcg_override''"]
      int_tok_length [of "p_dl_small_burst_bytes p" "''dl_small_burst_bytes''"]
      float_tok_length [of "p_ul_sched_mul p" "''ul_sched_mul''"]
      float_tok_length [of "p_ul_small_burst_mul p" "''ul_small_burst_mul''"]
      float_tok_length [of "p_dl_sched_mul p" "''dl_sched_mul''"]
      float_tok_length [of "p_dl_small_burst_mul p" "''dl_small_burst_mul''"]
    unfolding posture_toks_def map_append sum_list_append list.pred_inject list.size
    by linarith
qed

lemma sum_list_Suc: "sum_list (map (\<lambda>t. length t + 1) ts) = sum_list (map length ts) + length ts"
  by (induction ts) auto

lemma state_line_length:
  assumes "posture_fits p" and "0 < r" and "r < 65536"
  shows "length (state_line (r, p)) \<le> 510"
proof -
  let ?ts = "(''rnti='' @ int_str r) # posture_toks p"
  have "length (join '' '' ?ts) + 1 = sum_list (map length ?ts) + length ?ts"
    using length_join [of ?ts "'' ''"] by simp
  moreover have "length (int_str r) \<le> 5" using assms by (intro int_str_length_le_pos) simp_all
  ultimately show ?thesis
    using posture_toks_length [OF assms(1)] unfolding sum_list_Suc by (simp add: state_line_def)
qed

text \<open>A registry that the gNB can hold: at most 128 UEs with 16-bit RNTIs and postures of C size.\<close>

definition registry_fits :: "registry \<Rightarrow> bool" where
  "registry_fits reg \<longleftrightarrow> length reg \<le> 128 \<and>
     list_all (\<lambda>(r, p). 0 < r \<and> r < 65536 \<and> posture_fits p) reg"

lemma registry_fits_ok: "registry_fits reg \<Longrightarrow> distinct (map fst reg) \<Longrightarrow> registry_ok reg"
  by (auto simp: registry_fits_def registry_ok_def list_all_iff posture_fits_def
      intro: state_line_length split: prod.splits)

end
