(* ===== verification/CtlProps.thy ===== *)
theory CtlProps imports CtlTyped PostureText begin

text \<open>
  What the commands of the controller achieve, up to the schedulers of the gNB: a posture that is
  set is the one that the getters of both policy tables answer after the next reload, and a
  binding that was confirmed is enforced with the numbers that the controller shows.
\<close>

section \<open>Stored values convert\<close>

definition stored_counts :: "string list" where
  "stored_counts = [''dl_throttled_count'', ''ul_throttled_count'', ''ul_event_count'',
     ''dl_event_count'', ''ul_grant_count'', ''dl_grant_count'']"

text \<open>The conversions of the controller on the entries it stored.\<close>

definition stored_converts :: "dict \<Rightarrow> bool" where
  "stored_converts e \<longleftrightarrow>
     list_all (\<lambda>k. py_int (dget_or e k (JInt 0)) \<noteq> None) stored_counts \<and>
     py_float (dget_or e ''last_seen'' (JInt 0)) \<noteq> None \<and>
     list_all (\<lambda>k. py_int (py_or (dget e k) (JInt 0)) \<noteq> None) [''dl_id'', ''ul_id'']"

lemma entry_lookup:
  "entry_typed e \<Longrightarrow> map_of e k = Some v \<Longrightarrow> map_of entry_types k = Some (ty_of v)"
  by (auto simp: entry_typed_def list_all_iff dest!: map_of_SomeD)

lemma ty_of_converts:
  "ty_of v = TyInt \<Longrightarrow> \<exists>i. v = JInt i" "ty_of v = TyFloat \<Longrightarrow> \<exists>x. v = JFloat x"
  by (cases v; simp)+

lemma typed_count: "entry_typed e \<Longrightarrow> map_of entry_types k = Some TyInt \<Longrightarrow>
  \<exists>i. dget_or e k (JInt 0) = JInt i"
  using entry_lookup [of e k] ty_of_converts(1) by (auto simp: dget_or_def split: option.split)

lemma id_types [simp]: "map_of entry_types ''dl_id'' = Some TyInt" "map_of entry_types ''ul_id'' = Some TyInt"
  by code_simp+

lemma stored_converts_typed: "ue_typed x \<Longrightarrow> stored_converts (snd x)"
proof -
  assume x: "ue_typed x"
  then have e: "entry_typed (snd x)" by (simp add: ue_typed_def)
  have "list_all (\<lambda>k. map_of entry_types k = Some TyInt) stored_counts"
    by (simp add: stored_counts_def)
  then have 1: "list_all (\<lambda>k. py_int (dget_or (snd x) k (JInt 0)) \<noteq> None) stored_counts"
    using typed_count [OF e] by (force simp: list_all_iff)
  have 2: "py_float (dget_or (snd x) ''last_seen'' (JInt 0)) \<noteq> None"
  proof -
    obtain v where v: "map_of (snd x) ''last_seen'' = Some v"
      using x by (auto simp: ue_typed_def dget_def split: option.splits)
    have "ty_of v = TyFloat" using entry_lookup [OF e v] by simp
    then obtain t where "v = JFloat t" using ty_of_converts(2) by blast
    with v show ?thesis by (simp add: dget_or_def)
  qed
  have 3: "py_int (py_or (dget (snd x) k) (JInt 0)) \<noteq> None"
    if k: "map_of entry_types k = Some TyInt" for k
  proof (cases "map_of (snd x) k")
    case (Some v)
    have "ty_of v = TyInt" using entry_lookup [OF e Some] k by simp
    then obtain i where "v = JInt i" using ty_of_converts(1) by blast
    with Some show ?thesis by (simp add: dget_def py_or_def)
  qed (simp add: dget_def py_or_def)
  show ?thesis using 1 2 3 [OF id_types(1)] 3 [OF id_types(2)] by (simp only: stored_converts_def list.pred_inject) simp
qed

section \<open>Posture commands\<close>

lemma opt_json_None [simp]: "opt_int_json v = JNull \<longleftrightarrow> v = None" "opt_fl_json x = JNull \<longleftrightarrow> x = None"
  by (simp_all add: opt_int_json_def opt_fl_json_def split: option.split)

lemma posture_dict_empty: "posture_dict p = [] \<longleftrightarrow> p = no_posture"
proof -
  have "posture_dict p = [] \<longleftrightarrow>
      p_ul_max_mcs p = None \<and> p_min_grant_prb p = None \<and> p_ulsch_max_frame_inactivity p = None \<and>
      p_pusch_target_snrx10 p = None \<and> p_ul_maxcg_override p = None \<and>
      p_ul_small_burst_bytes p = None \<and> p_dl_max_mcs p = None \<and> p_dl_min_grant_prb p = None \<and>
      p_dl_maxcg_override p = None \<and> p_dl_small_burst_bytes p = None \<and> p_ul_sched_mul p = None \<and>
      p_ul_small_burst_mul p = None \<and> p_dl_sched_mul p = None \<and> p_dl_small_burst_mul p = None"
    unfolding posture_dict_def filter_empty_conv by simp
  then show ?thesis by (cases p) (simp add: no_posture_def)
qed

lemma posture_of_update:
  "posture_of (c\<lparr>UE_UL_LA_REGISTRY := AList.update r p (UE_UL_LA_REGISTRY c)\<rparr>) = (posture_of c)(r := p)"
  by (rule ext) (simp add: posture_of_def update_conv')

lemma posture_of_cong: "UE_UL_LA_REGISTRY c' = UE_UL_LA_REGISTRY c \<Longrightarrow> posture_of c' = posture_of c"
  by (rule ext) (simp add: posture_of_def)

lemma posture_of_simps [simp]:
  "posture_of (state_put kw c) = posture_of c" "posture_of (touch_ue env r meta kw c) = posture_of c"
  "posture_of (c\<lparr>ue_la_file := f\<rparr>) = posture_of c"
  by (rule posture_of_cong, simp)+

definition posture_int_keys :: "string list" where
  "posture_int_keys = [''ul_max_mcs'', ''min_grant_prb'', ''ulsch_max_frame_inactivity'',
     ''pusch_target_snrx10'', ''ul_maxcg_override'', ''ul_small_burst_bytes'', ''dl_max_mcs'',
     ''dl_min_grant_prb'', ''dl_maxcg_override'', ''dl_small_burst_bytes'']"

definition posture_float_keys :: "string list" where
  "posture_float_keys = [''ul_sched_mul'', ''ul_small_burst_mul'', ''dl_sched_mul'', ''dl_small_burst_mul'']"

lemma parse_posture_converts:
  "parse_posture req \<noteq> None \<longleftrightarrow>
     list_all (\<lambda>k. dget req k = JNull \<or> py_int (dget req k) \<noteq> None) posture_int_keys \<and>
     list_all (\<lambda>k. dget req k = JNull \<or> py_float (dget req k) \<noteq> None) posture_float_keys"
proof -
  have i: "(\<exists>v. parse_optional_int req k = Some v) \<longleftrightarrow> dget req k = JNull \<or> py_int (dget req k) \<noteq> None" for k
    by (auto simp: parse_optional_int_def)
  have f: "(\<exists>v. parse_optional_float req k = Some v) \<longleftrightarrow>
      dget req k = JNull \<or> py_float (dget req k) \<noteq> None" for k
    by (auto simp: parse_optional_float_def)
  have "parse_posture req \<noteq> None \<longleftrightarrow>
      list_all (\<lambda>k. \<exists>v. parse_optional_int req k = Some v) posture_int_keys \<and>
      list_all (\<lambda>k. \<exists>v. parse_optional_float req k = Some v) posture_float_keys"
    unfolding parse_posture_def posture_int_keys_def posture_float_keys_def list.pred_inject
      not_None_eq Option.bind_eq_Some_conv
    by auto
  then show ?thesis by (simp only: i f)
qed

lemma resolve_explicit:
  "py_int (dget req ''rnti'') = Some r \<Longrightarrow> resolve_control_rnti env req c = (c, Some r)"
  by (auto simp: resolve_control_rnti_def Let_def)

lemma replied_ok_simps [simp]: "replied_ok (ok kw)" "\<not> replied_ok (err msg kw)"
  by (simp_all add: replied_ok_def ok_def err_def dget_def)

text \<open>The state after a posture is accepted, before the registry of UEs is touched.\<close>

lemma set_posture_accepted:
  assumes "py_int (dget req ''rnti'') = Some r" and "ue_la_written env"
    and "build_ue_posture_entry req = Inr p" and "p \<noteq> no_posture"
  obtains c' d where "do_set_ue_ul_la env req c = (c', Inr d)" "replied_ok d"
    "UE_UL_LA_REGISTRY c' = AList.update r (posture_update (posture_of c r) p) (UE_UL_LA_REGISTRY c)"
    "ue_la_file c' = Some (write_ue_la_state (UE_UL_LA_REGISTRY c'))" "ran c' = ran c"
    "posture_of c' = (posture_of c)(r := posture_update (posture_of c r) p)"
proof (rule that)
  show "do_set_ue_ul_la env req c = (fst (do_set_ue_ul_la env req c), Inr (posture_reply r
      [(''entry'', JObj (posture_dict (posture_of (fst (do_set_ue_ul_la env req c)) r)))]))"
    using assms by (simp add: do_set_ue_ul_la_def resolve_explicit posture_dict_empty
        write_ue_la_state_atomic_def Let_def)
qed (use assms in \<open>simp_all add: do_set_ue_ul_la_def resolve_explicit posture_dict_empty
        write_ue_la_state_atomic_def Let_def posture_reply_def posture_of_update\<close>)

section \<open>A posture in the tables of the gNB\<close>

text \<open>
  What the getters of both tables answer for an RNTI that has posture \<open>P\<close>: every field that is set
  replaces the default of the scheduler.  The maximal MCS of the uplink is also limited by the MCS
  table; a multiplier is the float that the printed decimal reads as, unless that is not positive.
\<close>

definition ul_mul_of :: "fl option \<Rightarrow> fl \<Rightarrow> fl" where
  "ul_mul_of v d =
     (case v of None \<Rightarrow> d
      | Some x \<Rightarrow> let y = atof32 (fmt_g x) in if fl_lt fl_zero y then y else d)"

definition dl_mul_of :: "fl option \<Rightarrow> fl \<Rightarrow> fl" where
  "dl_mul_of v d =
     (case v of None \<Rightarrow> d
      | Some x \<Rightarrow> let y = atof32 (fmt_g x) in if fl_le y fl_zero then d else y)"

definition ul_in_force :: "posture \<Rightarrow> la_table \<Rightarrow> u16 \<Rightarrow> bool" where
  "ul_in_force P t w \<longleftrightarrow>
     rk_ue_la_get_ul_max_mcs t w = (\<lambda>d m. max 0 (min m (set_to (p_ul_max_mcs P) d))) \<and>
     rk_ue_la_get_min_grant_prb t w = set_to (p_min_grant_prb P) \<and>
     rk_ue_la_get_ulsch_max_frame_inactivity t w = set_to (p_ulsch_max_frame_inactivity P) \<and>
     rk_ue_la_get_pusch_target_snrx10 t w = set_to (p_pusch_target_snrx10 P) \<and>
     rk_ue_la_get_ul_sched_mul t w = ul_mul_of (p_ul_sched_mul P) \<and>
     rk_ue_la_get_ul_maxcg_override t w = set_to (p_ul_maxcg_override P) \<and>
     rk_ue_la_get_ul_small_burst_bytes t w = set_to (p_ul_small_burst_bytes P) \<and>
     rk_ue_la_get_ul_small_burst_mul t w = ul_mul_of (p_ul_small_burst_mul P)"

definition dl_in_force :: "posture \<Rightarrow> dl_table \<Rightarrow> u16 \<Rightarrow> bool" where
  "dl_in_force P t w \<longleftrightarrow>
     rk_ue_dl_get_max_mcs t w = set_to (p_dl_max_mcs P) \<and>
     rk_ue_dl_get_min_grant_prb t w = set_to (p_dl_min_grant_prb P) \<and>
     rk_ue_dl_get_sched_mul t w = dl_mul_of (p_dl_sched_mul P) \<and>
     rk_ue_dl_get_maxcg_override t w = set_to (p_dl_maxcg_override P) \<and>
     rk_ue_dl_get_small_burst_bytes t w = set_to (p_dl_small_burst_bytes P) \<and>
     rk_ue_dl_get_small_burst_mul t w = dl_mul_of (p_dl_small_burst_mul P)"

lemma la_getters_None:
  "la_get t w = None \<Longrightarrow> ul_in_force no_posture t w"
  unfolding ul_in_force_def la_get_def
  by (auto simp: rk_ue_la_get_ul_max_mcs_def rk_ue_la_get_min_grant_prb_def
      rk_ue_la_get_ulsch_max_frame_inactivity_def rk_ue_la_get_pusch_target_snrx10_def
      rk_ue_la_get_ul_sched_mul_def rk_ue_la_get_ul_maxcg_override_def
      rk_ue_la_get_ul_small_burst_bytes_def rk_ue_la_get_ul_small_burst_mul_def get_entry_eq
      no_posture_def ul_mul_of_def fun_eq_iff Let_def)

lemma la_getters_Some:
  assumes "la_get t w = Some (la_of_posture P)" and P: "posture_valid P"
  shows "ul_in_force P t w"
proof -
  obtain e where e: "slot_map la_used la_rnti t w = Some e" "la_settings_of e = la_of_posture P"
    using assms(1) by (auto simp: la_get_def)
  then have f: "ul_max_mcs e = set_to (p_ul_max_mcs P) (-1)"
    "min_grant_prb e = set_to (p_min_grant_prb P) (-1)"
    "ulsch_max_frame_inactivity e = set_to (p_ulsch_max_frame_inactivity P) (-1)"
    "pusch_target_snrx10 e = set_to (p_pusch_target_snrx10 P) (-1)"
    "ul_sched_mul e = set_to (map_option (atof32 \<circ> fmt_g) (p_ul_sched_mul P)) (f32 (-1))"
    "ul_maxcg_override e = set_to (p_ul_maxcg_override P) (-1)"
    "ul_small_burst_bytes e = set_to (p_ul_small_burst_bytes P) (-1)"
    "ul_small_burst_mul e = set_to (map_option (atof32 \<circ> fmt_g) (p_ul_small_burst_mul P)) (f32 (-1))"
    by (simp_all add: la_settings_of_def la_of_posture_def)
  have neg: "\<not> fl_lt fl_zero (f32 (-1))" by code_simp
  note ge = rk_ue_la_get_ul_max_mcs_def rk_ue_la_get_min_grant_prb_def
      rk_ue_la_get_ulsch_max_frame_inactivity_def rk_ue_la_get_pusch_target_snrx10_def
      rk_ue_la_get_ul_sched_mul_def rk_ue_la_get_ul_maxcg_override_def
      rk_ue_la_get_ul_small_burst_bytes_def rk_ue_la_get_ul_small_burst_mul_def
  note P' = P [unfolded posture_valid_iff in_range_def positive_int_def]
  show ?thesis
    unfolding ul_in_force_def ge get_entry_eq e(1) option.case f fun_eq_iff Let_def ul_mul_of_def
    using P' neg by (auto simp: set_to_def split: option.splits)
qed

lemma dl_override_eq: "rk_ue_dl_find t w = slot_map dl_in_use dl_rnti t w"
  by (simp add: rk_ue_dl_find_def slot_map_def slot_find_def dl_in_use_def)

lemma dl_getters_None: "dl_get t w = None \<Longrightarrow> dl_in_force no_posture t w"
  unfolding dl_in_force_def dl_get_def
  by (auto simp: rk_ue_dl_get_max_mcs_def rk_ue_dl_get_min_grant_prb_def rk_ue_dl_get_sched_mul_def
      rk_ue_dl_get_maxcg_override_def rk_ue_dl_get_small_burst_bytes_def
      rk_ue_dl_get_small_burst_mul_def dl_override_eq no_posture_def dl_mul_of_def fun_eq_iff)

lemma dl_getters_Some:
  assumes "dl_get t w = Some (dl_of_posture P)" and P: "posture_valid P"
  shows "dl_in_force P t w"
proof -
  obtain e where e: "slot_map dl_in_use dl_rnti t w = Some e" "dl_settings_of e = dl_of_posture P"
    using assms(1) by (auto simp: dl_get_def)
  then have f: "dl_max_mcs e = set_to (p_dl_max_mcs P) (-1)"
    "dl_min_grant_prb e = set_to (p_dl_min_grant_prb P) (-1)"
    "dl_sched_mul e = set_to (map_option (atof32 \<circ> fmt_g) (p_dl_sched_mul P)) (f32 (-1))"
    "dl_maxcg_override e = set_to (p_dl_maxcg_override P) (-1)"
    "dl_small_burst_bytes e = set_to (p_dl_small_burst_bytes P) (-1)"
    "dl_small_burst_mul e = set_to (map_option (atof32 \<circ> fmt_g) (p_dl_small_burst_mul P)) (f32 (-1))"
    by (simp_all add: dl_settings_of_def dl_settings.truncate_def dl_of_posture_def)
  have neg: "fl_le (f32 (-1)) fl_zero" by code_simp
  note ge = rk_ue_dl_get_max_mcs_def rk_ue_dl_get_min_grant_prb_def rk_ue_dl_get_sched_mul_def
      rk_ue_dl_get_maxcg_override_def rk_ue_dl_get_small_burst_bytes_def
      rk_ue_dl_get_small_burst_mul_def
  note P' = P [unfolded posture_valid_iff in_range_def positive_int_def]
  show ?thesis
    unfolding dl_in_force_def ge dl_override_eq e(1) option.case f fun_eq_iff Let_def dl_mul_of_def
    using P' neg by (auto simp: set_to_def split: option.splits)
qed

section \<open>Properties\<close>

lemma ctl_start_fields [simp]:
  "UE_REGISTRY (ctl_start env old rn) = []" "UE_UL_LA_REGISTRY (ctl_start env old rn) = []"
  "ue_la_file (ctl_start env old rn) = old"
  by (simp_all add: ctl_start_def load_profiles_def ctl_init_def state_put_def Let_def)

text \<open>
  C9. The state of the controller is well typed after any sequence of requests, well formed or not:
  every key of a UE entry has its one type, RNTIs are distinct and positive, every stored posture
  satisfies the checks of the posture command, and the conversions that later commands apply to
  stored values do not raise.
\<close>

theorem controller_typed:
  "ctl_typed (serve_all ls (ctl_start env old rn)) \<and>
   list_all (\<lambda>(r, e). stored_converts e) (UE_REGISTRY (serve_all ls (ctl_start env old rn)))"
proof -
  have "ctl_typed (serve_all ls (ctl_start env old rn))"
    by (rule typed.inv_serve_all)
      (simp_all add: ctl_typed_def ctl_start_fields list_all_iff)
  then show ?thesis
    using stored_converts_typed by (fastforce simp: ctl_typed_def list_all_iff)
qed

text \<open>
  C12. The state file follows the registry: as long as the file can be written, after any sequence of
  requests it is the text of the current registry of postures, or it is what it was at the start
  and no posture is registered.
\<close>

theorem state_file_follows:
  assumes "list_all (\<lambda>(env, line). ue_la_written env) ls"
  shows "file_follows old (serve_all ls (ctl_start env old rn))"
proof (rule follows.inv_serve_all)
  show "file_follows old (ctl_start env old rn)" by (simp add: file_follows_def ctl_start_fields)
  show "list_all (ue_la_written \<circ> fst) ls" using assms by (auto simp: list_all_iff)
qed

lemma build_accepts:
  "(\<exists>p. build_ue_posture_entry req = Inr p) \<longleftrightarrow>
     list_all (\<lambda>k. dget req k = JNull \<or> py_int (dget req k) \<noteq> None) posture_int_keys \<and>
     list_all (\<lambda>k. dget req k = JNull \<or> py_float (dget req k) \<noteq> None) posture_float_keys \<and>
     posture_valid (the (parse_posture req))"
  unfolding build_valid parse_posture_converts [symmetric] conj_assoc [symmetric] by auto

text \<open>
  C11. A posture command for an explicit RNTI is accepted exactly when every given field converts and
  lies in its range; a rejected command or one without a field changes nothing, an accepted one
  replaces the given fields of this UE, keeps its other fields and every other UE, and leaves the
  new registry in the state file.
\<close>

theorem set_posture_effect:
  assumes "py_int (dget req ''rnti'') = Some r" and "ue_la_written env"
  shows "(case build_ue_posture_entry req of
      Inl detail \<Rightarrow> do_set_ue_ul_la env req c =
        (c, Inr (err ''invalid UE posture field'' [(''detail'', JStr detail)]))
    | Inr p \<Rightarrow>
        if p = no_posture
        then do_set_ue_ul_la env req c = (c, Inr (err ''no UE posture fields provided'' []))
        else \<exists>c' d P. do_set_ue_ul_la env req c = (c', Inr d) \<and> replied_ok d \<and>
          map_of (posture_dict P) = map_of (posture_dict (posture_of c r)) ++ map_of (posture_dict p) \<and>
          posture_of c' = (posture_of c)(r := P) \<and>
          ue_la_file c' = Some (write_ue_la_state (UE_UL_LA_REGISTRY c')) \<and> ran c' = ran c) \<and>
    (\<exists>p. build_ue_posture_entry req = Inr p) =
      (list_all (\<lambda>k. dget req k = JNull \<or> py_int (dget req k) \<noteq> None) posture_int_keys \<and>
       list_all (\<lambda>k. dget req k = JNull \<or> py_float (dget req k) \<noteq> None) posture_float_keys \<and>
       posture_valid (the (parse_posture req)))"
proof (cases "build_ue_posture_entry req")
  case (Inl d)
  then show ?thesis
    unfolding build_accepts [symmetric] by (simp add: do_set_ue_ul_la_def resolve_explicit [OF assms(1)])
next
  case (Inr p)
  show ?thesis
  proof (cases "p = no_posture")
    case True
    then show ?thesis
      using Inr posture_dict_empty [of p] unfolding build_accepts [symmetric]
      by (simp add: do_set_ue_ul_la_def resolve_explicit [OF assms(1)])
  next
    case False
    obtain c' d where "do_set_ue_ul_la env req c = (c', Inr d)" "replied_ok d"
      "ue_la_file c' = Some (write_ue_la_state (UE_UL_LA_REGISTRY c'))" "ran c' = ran c"
      "posture_of c' = (posture_of c)(r := posture_update (posture_of c r) p)"
      by (rule set_posture_accepted [OF assms Inr False, of c])
    then have "\<exists>c' d P. do_set_ue_ul_la env req c = (c', Inr d) \<and> replied_ok d \<and>
        map_of (posture_dict P) = map_of (posture_dict (posture_of c r)) ++ map_of (posture_dict p) \<and>
        posture_of c' = (posture_of c)(r := P) \<and>
        ue_la_file c' = Some (write_ue_la_state (UE_UL_LA_REGISTRY c')) \<and> ran c' = ran c"
      using posture_update_dict by blast
    then show ?thesis using Inr False unfolding build_accepts [symmetric] by simp
  qed
qed

text \<open>A request and its surroundings for the examples below.\<close>

definition example_env :: "assoc_table ctl_env" where
  "example_env = \<lparr>clock = f64 100, UE_TTL_S = 120, UE_ACTIVE_MAX_AGE_S = f64 15,
     repr_of = (\<lambda>_. []), profiles_file = None, ue_la_written = True, sdk_ctrl_add = True,
     sdk_ctrl_assoc = True, conn_e2_nodes = Some [0], main_node = Some 0,
     make_assoc = (\<lambda>r d u. Some \<lparr>a_rnti = r, a_dl_id = d, a_ul_id = u\<rparr>),
     conf_accepted = (\<lambda>_ _. True),
     control_slice_sm = (\<lambda>t m. case write_ctrl_slice_sm (Some m) t of
        Inl e \<Rightarrow> (t, SmRaised) | Inr (a, t') \<Rightarrow> (t', SmRet (JInt 0)))\<rparr>"

definition example_start :: "assoc_table ctl" where
  "example_start = ctl_init None (\<lambda>_. g_rk_slice_assoc_init)"

definition example_posture_req :: dict where
  "example_posture_req = [(''cmd'', JStr ''set_ue_posture''), (''rnti'', JInt 9),
     (''ul_max_mcs'', JInt 12), (''dl_max_mcs'', JStr '' 7 '')]"

definition example_posture :: posture where
  "example_posture = no_posture\<lparr>p_ul_max_mcs := Some 12, p_dl_max_mcs := Some 7\<rparr>"

lemma example_build: "build_ue_posture_entry example_posture_req = Inr example_posture"
  by code_simp

theorem state_file_follows_witness:
  "file_follows None (serve_all [(example_env, Some (JObj example_posture_req)), (example_env, None)]
     (ctl_start example_env None (\<lambda>_. g_rk_slice_assoc_init)))"
  by (rule state_file_follows) (simp add: example_env_def)

theorem set_posture_effect_witness:
  "\<exists>c' d. do_set_ue_ul_la example_env example_posture_req example_start = (c', Inr d) \<and>
     replied_ok d \<and> posture_of c' = (posture_of example_start)(9 := example_posture) \<and>
     ue_la_file c' = Some (write_ue_la_state (UE_UL_LA_REGISTRY c')) \<and> ran c' = ran example_start"
proof -
  have 1: "py_int (dget example_posture_req ''rnti'') = Some 9" "ue_la_written example_env"
    by (simp_all add: example_posture_req_def dget_def example_env_def)
  have "example_posture \<noteq> no_posture" by (simp add: example_posture_def no_posture_def)
  moreover have "posture_update (posture_of example_start 9) example_posture = example_posture"
    by (simp add: example_start_def ctl_init_def posture_of_def posture_update_def example_posture_def
        no_posture_def newer_def)
  ultimately show ?thesis
    using set_posture_effect [OF 1, of example_start] posture_update_dict [symmetric]
    by (simp add: example_build) (metis posture_dict_inj)
qed

lemma registry_lookup:
  "list_all (\<lambda>(r, p). 0 < r \<and> r < 65536 \<and> posture_fits p) reg \<Longrightarrow> 0 < q \<Longrightarrow> q < 65536 \<Longrightarrow>
   map_of (map (\<lambda>(r, p). (to_u16 r, f p)) reg) (to_u16 q) = map_option f (map_of reg q)"
  by (induction reg) (auto simp: to_u16_inj)

lemma posture_of_None: "map_of (UE_UL_LA_REGISTRY c) q = None \<Longrightarrow> posture_of c q = no_posture"
  by (simp add: posture_of_def)

text \<open>Whatever registry the file shows, a reload puts its postures in force.\<close>

lemma registry_in_force:
  assumes typed: "ctl_typed c" and fits: "registry_fits (UE_UL_LA_REGISTRY c)"
    and "file = Some (write_ue_la_state (UE_UL_LA_REGISTRY c))"
    and inv: "la_inv (g_tbl s)" "dl_inv (g_rk_ue_dl_tbl s')"
    and due: "100 \<le> now - g_last_check_ms s" "(sec, nsec) \<noteq> (g_last_mtime_sec s, g_last_mtime_nsec s)"
      "g_rk_ue_dl_loaded s' = 0 \<or> sec \<noteq> g_rk_ue_dl_mtime s' \<or> sz \<noteq> g_rk_ue_dl_size s'"
    and q: "0 < q" "q < 65536"
  shows "ul_in_force (posture_of c q)
      (g_tbl (rk_ue_la_reload_if_needed now (Some (sec, nsec)) file s)) (to_u16 q) \<and>
    dl_in_force (posture_of c q)
      (g_rk_ue_dl_tbl (rk_ue_dl_reload_if_needed False (Some (sec, sz)) file s')) (to_u16 q)"
proof -
  let ?reg = "UE_UL_LA_REGISTRY c"
  have range: "list_all (\<lambda>(r, p). 0 < r \<and> r < 65536 \<and> posture_fits p) ?reg"
    using fits by (simp add: registry_fits_def)
  have ok: "registry_ok ?reg"
    using typed by (intro registry_fits_ok [OF fits]) (simp add: ctl_typed_def)
  have t: "la_get (g_tbl (rk_ue_la_reload_if_needed now (Some (sec, nsec)) file s)) (to_u16 q) =
        map_option la_of_posture (map_of ?reg q)"
    "dl_get (g_rk_ue_dl_tbl (rk_ue_dl_reload_if_needed False (Some (sec, sz)) file s')) (to_u16 q) =
        map_option dl_of_posture (map_of ?reg q)"
    using reload_of_registry [OF ok inv due] assms(3) registry_lookup [OF range q] by simp_all
  show ?thesis
  proof (cases "map_of ?reg q")
    case None
    then show ?thesis using t la_getters_None dl_getters_None by (simp add: posture_of_None)
  next
    case (Some p)
    then have "posture_valid p" "posture_of c q = p"
      using typed by (auto simp: ctl_typed_def list_all_iff posture_of_def dest!: map_of_SomeD)
    then show ?thesis using t Some la_getters_Some dl_getters_Some by simp
  qed
qed

text \<open>
  C5. A posture that the controller accepts is in force at the gNB after the next reload of the state
  file by both policy modules: for every 16-bit RNTI all fourteen getters, which the schedulers
  read, answer the merged posture of that UE, and for a UE without a posture their defaults.  The
  registry has to fit: at most 128 UEs with 16-bit RNTIs and integers that are C integers.
\<close>

theorem posture_in_force:
  assumes "ctl_typed c" and "py_int (dget req ''rnti'') = Some r" and "ue_la_written env"
    and "build_ue_posture_entry req = Inr p" and "p \<noteq> no_posture"
    and "map_of (posture_dict P) = map_of (posture_dict (posture_of c r)) ++ map_of (posture_dict p)"
    and "c' = fst (do_set_ue_ul_la env req c)" and "registry_fits (UE_UL_LA_REGISTRY c')"
    and "la_inv (g_tbl s)" and "dl_inv (g_rk_ue_dl_tbl s')"
    and "100 \<le> now - g_last_check_ms s" and "(sec, nsec) \<noteq> (g_last_mtime_sec s, g_last_mtime_nsec s)"
    and "g_rk_ue_dl_loaded s' = 0 \<or> sec \<noteq> g_rk_ue_dl_mtime s' \<or> sz \<noteq> g_rk_ue_dl_size s'"
    and "0 < q" and "q < 65536"
  shows "ul_in_force (if q = r then P else posture_of c q)
      (g_tbl (rk_ue_la_reload_if_needed now (Some (sec, nsec)) (ue_la_file c') s)) (to_u16 q) \<and>
    dl_in_force (if q = r then P else posture_of c q)
      (g_rk_ue_dl_tbl (rk_ue_dl_reload_if_needed False (Some (sec, sz)) (ue_la_file c') s')) (to_u16 q)"
proof -
  have P: "P = posture_update (posture_of c r) p"
    by (rule posture_dict_inj) (simp add: assms(6) posture_update_dict)
  have t: "ctl_typed c'" using typed.inv_set_posture [OF assms(1), of env req] assms(7) by simp
  from set_posture_accepted [OF assms(2-5), of c] obtain d where
    "ue_la_file c' = Some (write_ue_la_state (UE_UL_LA_REGISTRY c'))"
    "posture_of c' = (posture_of c)(r := P)"
    unfolding P using assms(7) by (metis fst_conv)
  then show ?thesis
    using registry_in_force [OF t assms(8) _ assms(9-15), of "ue_la_file c'"] by (simp add: fun_upd_def)
qed

theorem posture_in_force_witness:
  fixes c' defines "c' \<equiv> fst (do_set_ue_ul_la example_env example_posture_req example_start)"
  shows "rk_ue_la_get_ul_max_mcs (g_tbl (rk_ue_la_reload_if_needed 500 (Some (3, 4)) (ue_la_file c')
      la_state_init)) 9 28 27 = 12 \<and>
    rk_ue_dl_get_max_mcs (g_rk_ue_dl_tbl (rk_ue_dl_reload_if_needed False (Some (3, 40))
      (ue_la_file c') dl_state_init)) 9 28 = 7"
proof -
  have 1: "py_int (dget example_posture_req ''rnti'') = Some 9" "ue_la_written example_env"
    by (simp_all add: example_posture_req_def dget_def example_env_def)
  have p: "example_posture \<noteq> no_posture" by (simp add: example_posture_def no_posture_def)
  have start: "ctl_typed example_start" "posture_of example_start 9 = no_posture"
    by (simp_all add: example_start_def ctl_init_def ctl_typed_def posture_of_def)
  have up: "posture_update no_posture example_posture = example_posture"
    by (simp add: posture_update_def example_posture_def no_posture_def newer_def)
  have "UE_UL_LA_REGISTRY c' = AList.update 9 (posture_update (posture_of example_start 9)
      example_posture) (UE_UL_LA_REGISTRY example_start)"
    unfolding c'_def by (rule set_posture_accepted [OF 1 example_build p, of example_start]) simp
  then have reg: "UE_UL_LA_REGISTRY c' = [(9, example_posture)]"
    unfolding start(2) up by (simp add: example_start_def ctl_init_def)
  have fits: "registry_fits (UE_UL_LA_REGISTRY c')"
    by (simp add: reg registry_fits_def posture_fits_def posture_ok_def i32_opt_def i32_range_def
        example_posture_def no_posture_def)
  have nine: "to_u16 9 = 9" by (simp add: to_u16_def)
  have init: "100 \<le> 500 - g_last_check_ms la_state_init"
    "(3, 4) \<noteq> (g_last_mtime_sec la_state_init, g_last_mtime_nsec la_state_init)"
    "g_rk_ue_dl_loaded dl_state_init = 0 \<or> 3 \<noteq> g_rk_ue_dl_mtime dl_state_init \<or>
      40 \<noteq> g_rk_ue_dl_size dl_state_init"
    by (simp_all add: la_state_init_def dl_state_init_def)
  have u: "p_ul_max_mcs example_posture = Some 12" "p_dl_max_mcs example_posture = Some 7"
    by (simp_all add: example_posture_def)
  have merged: "map_of (posture_dict example_posture) =
      map_of (posture_dict (posture_of example_start 9)) ++ map_of (posture_dict example_posture)"
    using posture_update_dict [of no_posture example_posture] by (simp only: start(2) up)
  have "c' = fst (do_set_ue_ul_la example_env example_posture_req example_start)"
    by (simp add: c'_def)
  from posture_in_force [OF start(1) 1 example_build p merged this fits la_state_init_inv dl_state_init_inv
      init, of 9]
  have f: "ul_in_force example_posture (g_tbl (rk_ue_la_reload_if_needed 500 (Some (3, 4)) (ue_la_file c')
        la_state_init)) 9" "dl_in_force example_posture (g_rk_ue_dl_tbl (rk_ue_dl_reload_if_needed False
        (Some (3, 40)) (ue_la_file c') dl_state_init)) 9"
    by (simp_all only: start(2) up nine if_True refl)
  show ?thesis
    using f [unfolded ul_in_force_def dl_in_force_def u, THEN conjunct1] by simp
qed

section \<open>A binding at the gNB\<close>

text \<open>
  What the RIC and the E2 connection do with a control message that is answered: the slice service
  model of that node has executed \<^const>\<open>write_ctrl_slice_sm\<close> on it.  Nothing is said about a node
  that times out or fails.
\<close>

definition agent_runs :: "assoc_table ctl_env \<Rightarrow> bool" where
  "agent_runs env \<longleftrightarrow> (\<forall>t m t' v. control_slice_sm env t m = (t', SmRet v) \<longrightarrow>
     (\<exists>a. write_ctrl_slice_sm (Some m) t = Inr (a, t')))"

definition node_answers :: "'n ctl_env \<Rightarrow> slice_ctrl_msg_t \<Rightarrow> 'n \<Rightarrow> bool" where
  "node_answers env m s \<longleftrightarrow> (\<exists>v. snd (control_slice_sm env s m) = SmRet v)"

definition assoc_msg :: "int \<Rightarrow> int \<Rightarrow> int \<Rightarrow> slice_ctrl_msg_t" where
  "assoc_msg r dl ul = SLICE_CTRL_SM_V0_UE_SLICE_ASSOC
     \<lparr>ues = Some [\<lparr>a_rnti = r, a_dl_id = dl, a_ul_id = ul\<rparr>], len_ue_slice = 1\<rparr>"

text \<open>The association table of a node has room for the RNTI.\<close>

definition node_ready :: "u16 \<Rightarrow> assoc_table \<Rightarrow> bool" where
  "node_ready w t \<longleftrightarrow> assoc_inv t \<and> (assoc_get t w \<noteq> None \<or> card (dom (assoc_get t)) < 256)"

text \<open>The getters answer the numbers of the controller's table, rounded to C floats.\<close>

definition enforces :: "assoc_table \<Rightarrow> u16 \<Rightarrow> int \<Rightarrow> int \<Rightarrow> bool" where
  "enforces t w dl_id ul_id \<longleftrightarrow>
     (case build_binding_runtime dl_id ul_id of (dl, ul) \<Rightarrow>
        rk_slice_assoc_get_dl_weight t w = fl_convert binary32 (hp_weight_mul dl) \<and>
        rk_slice_assoc_get_dl_rb_cap t w = hp_rb_cap dl \<and>
        rk_slice_assoc_get_dl_rb_floor t w = hp_rb_floor dl \<and>
        rk_slice_assoc_get_dl_max_consecutive_grants t w = hp_max_consecutive_grants dl \<and>
        rk_slice_assoc_get_ul_weight t w = fl_convert binary32 (hp_weight_mul ul) \<and>
        rk_slice_assoc_get_ul_rb_cap t w = hp_rb_cap ul \<and>
        rk_slice_assoc_get_ul_rb_floor t w = hp_rb_floor ul \<and>
        rk_slice_assoc_get_ul_max_consecutive_grants t w = hp_max_consecutive_grants ul)"

text \<open>The slices that the gNB has a row for.\<close>

definition known_slice :: "int \<Rightarrow> int" where
  "known_slice i = (if i \<le> 6 then i else 0)"

lemma send_loop_Cons:
  obtains s f oks' e' where "control_slice_sm env (rn k) m = (s, f)"
    "send_loop env m (k # ns) rn oks e = send_loop env m ns (rn(k := s)) oks' e'"
    "oks' \<noteq> [] \<longleftrightarrow> oks \<noteq> [] \<or> node_answers env m (rn k)"
    "(\<forall>v. e \<noteq> SmRet v) \<Longrightarrow> (\<forall>v. e' \<noteq> SmRet v)"
proof -
  obtain s f where sf: "control_slice_sm env (rn k) m = (s, f)" by fastforce
  show ?thesis
  proof (cases f)
    case (SmRet v)
    then show ?thesis using sf by (intro that [of s f "oks @ [v]" e]) (auto simp: node_answers_def)
  next
    case SmTimeout
    then show ?thesis using sf by (intro that [of s f oks SmTimeout]) (auto simp: node_answers_def)
  next
    case SmRaised
    then show ?thesis using sf by (intro that [of s f oks SmRaised]) (auto simp: node_answers_def)
  qed
qed

lemma send_loop_result:
  assumes "send_loop env m ns rn oks e = (rn', r)" and "distinct ns" and "\<forall>v. e \<noteq> SmRet v"
  shows "rn' = (\<lambda>n. if n \<in> set ns then fst (control_slice_sm env (rn n) m) else rn n) \<and>
    ((\<exists>v. r = SmRet v) \<longleftrightarrow> oks \<noteq> [] \<or> (\<exists>n \<in> set ns. node_answers env m (rn n)))"
  using assms
proof (induction ns arbitrary: rn oks e)
  case (Cons k ns)
  obtain s f oks' e' where step: "control_slice_sm env (rn k) m = (s, f)"
    "send_loop env m (k # ns) rn oks e = send_loop env m ns (rn(k := s)) oks' e'"
    "oks' \<noteq> [] \<longleftrightarrow> oks \<noteq> [] \<or> node_answers env m (rn k)" "\<forall>v. e' \<noteq> SmRet v"
    by (rule send_loop_Cons [of env rn k m ns oks e]) (use Cons.prems(3) in simp)
  have ns: "distinct ns" "k \<notin> set ns" using Cons.prems(2) by simp_all
  have other: "(rn(k := s)) n = rn n" if "n \<in> set ns" for n using ns that by auto
  have IH: "rn' = (\<lambda>n. if n \<in> set ns then fst (control_slice_sm env ((rn(k := s)) n) m) else (rn(k := s)) n)"
    "(\<exists>v. r = SmRet v) \<longleftrightarrow> oks' \<noteq> [] \<or> (\<exists>n \<in> set ns. node_answers env m ((rn(k := s)) n))"
    using Cons.IH [OF Cons.prems(1) [unfolded step(2)] ns(1) step(4)] by (rule conjunct1, rule conjunct2)
  have "rn' n = (if n \<in> set (k # ns) then fst (control_slice_sm env (rn n) m) else rn n)" for n
    using step(1) ns(2) by (simp add: IH(1))
  moreover have "(\<exists>v. r = SmRet v) \<longleftrightarrow> oks \<noteq> [] \<or> (\<exists>n \<in> set (k # ns). node_answers env m (rn n))"
    unfolding IH(2) step(3) using other by auto
  ultimately show ?case by (intro conjI ext)
next
  case Nil
  then show ?case by (simp split: if_splits) auto
qed

lemma weight_int:
  assumes "0 \<le> i" "i < 2 ^ 24"
  shows "fl_convert binary32 (f64 (of_int i)) = f32 (of_int i)"
  using fl_of_int_small(1) [OF assms] fl_of_int_small(2) [of i] fl_round_small(1) [OF assms, of False] assms
  by (simp add: fl_of_int_def)

lemma weight_half: "fl_convert binary32 (f64 (1 / 2)) = f32 (1 / 2)"
  by code_simp

lemma weight_capped: "fl_convert binary32 (f64 (6 / 5)) = f32 (6 / 5)"
  by code_simp

lemma weights_agree:
  "fl_convert binary32 (f64 1) = f32 1" "fl_convert binary32 (f64 10) = f32 10"
  "fl_convert binary32 (f64 4) = f32 4" "fl_convert binary32 (f64 6) = f32 6"
  using weight_int [of 1] weight_int [of 10] weight_int [of 4] weight_int [of 6] by simp_all

text \<open>Both programs have the same numbers for the slices 0 to 6.\<close>

lemma policy_tables_agree:
  assumes "0 \<le> i" "i \<le> 6"
  shows "g_rk_slice_policy_table ! nat i = rk_slice_policy_t.make i
    (fl_convert binary32 (hp_weight_mul (build_half_policy_dl i)))
    (fl_convert binary32 (hp_weight_mul (build_half_policy_ul i)))
    (hp_rb_cap (build_half_policy_dl i)) (hp_rb_cap (build_half_policy_ul i))
    (hp_rb_floor (build_half_policy_dl i)) (hp_rb_floor (build_half_policy_ul i))
    (hp_max_consecutive_grants (build_half_policy_dl i))
    (hp_max_consecutive_grants (build_half_policy_ul i))"
proof -
  note defs = g_rk_slice_policy_table_def build_half_policy_dl_def build_half_policy_ul_def
    get_slice_runtime_def SLICE_RUNTIME_TABLE_def slice_runtime.defs Let_def weights_agree weight_half weight_capped
  consider "i = 0" | "i = 1" | "i = 2" | "i = 3" | "i = 4" | "i = 5" | "i = 6" using assms by linarith
  then show ?thesis by cases (simp_all add: defs)
qed

lemma policy_tables_agree_fields:
  assumes "0 \<le> i" "i \<le> 6"
  shows "dl_weight_mul (g_rk_slice_policy_table ! nat i) =
      fl_convert binary32 (hp_weight_mul (build_half_policy_dl i))"
    "ul_weight_mul (g_rk_slice_policy_table ! nat i) =
      fl_convert binary32 (hp_weight_mul (build_half_policy_ul i))"
    "dl_rb_cap (g_rk_slice_policy_table ! nat i) = hp_rb_cap (build_half_policy_dl i)"
    "ul_rb_cap (g_rk_slice_policy_table ! nat i) = hp_rb_cap (build_half_policy_ul i)"
    "dl_rb_floor (g_rk_slice_policy_table ! nat i) = hp_rb_floor (build_half_policy_dl i)"
    "ul_rb_floor (g_rk_slice_policy_table ! nat i) = hp_rb_floor (build_half_policy_ul i)"
    "dl_max_consecutive_grants (g_rk_slice_policy_table ! nat i) =
      hp_max_consecutive_grants (build_half_policy_dl i)"
    "ul_max_consecutive_grants (g_rk_slice_policy_table ! nat i) =
      hp_max_consecutive_grants (build_half_policy_ul i)"
  unfolding policy_tables_agree [OF assms] by (simp_all add: rk_slice_policy_t.defs)

lemma assoc_msg_applied:
  "write_ctrl_slice_sm (Some (assoc_msg r dl ul)) t = Inr (SLICE_AGENT_IF_CTRL_ANS_V0,
     rk_slice_assoc_update_by_rnti t (to_u16 r) (to_i32 dl) (to_i32 ul))"
  by (simp add: write_ctrl_slice_sm_def assoc_msg_def assoc_loop.simps Let_def)

lemma update_enforces:
  assumes "node_ready w t" and "0 < dl" "dl < 65536" and "0 < ul" "ul < 65536"
  shows "enforces (rk_slice_assoc_update_by_rnti t w (to_i32 dl) (to_i32 ul)) w
    (known_slice dl) (known_slice ul)"
proof -
  have id: "to_i32 dl = dl" "to_i32 ul = ul" using assms by (simp_all add: to_i32_id i32_range_def)
  have row: "(if i mod 65536 \<le> 6 then nat (i mod 65536) else 0) = nat (known_slice i)"
    "0 \<le> known_slice i \<and> known_slice i \<le> 6" if "0 < i" "i < 65536" for i
    using that by (simp_all add: known_slice_def)
  note ready = assms(1) [unfolded node_ready_def, THEN conjunct1]
    assms(1) [unfolded node_ready_def, THEN conjunct2]
  note agree = policy_tables_agree_fields [of "known_slice dl"] policy_tables_agree_fields [of "known_slice ul"]
  show ?thesis
    using policy_of_bound_ue [OF ready, of dl ul] row [OF assms(2,3)] row [OF assms(4,5)] agree
    by (simp add: enforces_def build_binding_runtime_def id)
qed

text \<open>The entry of a UE shows the numbers of a binding.\<close>

definition shows_binding :: "dict \<Rightarrow> int \<Rightarrow> int \<Rightarrow> bool" where
  "shows_binding e dl_id ul_id \<longleftrightarrow> list_all (\<lambda>(k, v). dget e k = v) (binding_kw dl_id ul_id)"

lemma touch_field_other: "fst f \<noteq> k \<Longrightarrow> dget (touch_field rp kw f e) k = dget e k"
  by (auto simp: touch_field_def set_int_def set_float_def Let_def dget_dput
      split: prod.splits option.splits touch_kind.splits)

lemma touch_fields_other: "k \<notin> fst ` set fs \<Longrightarrow> dget (fold (touch_field rp kw) fs e) k = dget e k"
  by (induction fs arbitrary: e) (auto simp: touch_field_other)

lemma touch_fields_stored:
  assumes "distinct (map fst fs)" and "(k, kind) \<in> set fs"
    and "kind = TInt \<and> (\<exists>i. dget kw k = JInt i) \<or> kind = TFloat \<and> (\<exists>x. dget kw k = JFloat x)"
  shows "dget (fold (touch_field rp kw) fs e) k = dget kw k"
  using assms
proof (induction fs arbitrary: e)
  case (Cons f fs)
  show ?case
  proof (cases "f = (k, kind)")
    case True
    then have "k \<notin> fst ` set fs" using Cons.prems(1) by auto
    moreover have "dget (touch_field rp kw f e) k = dget kw k"
      using True Cons.prems(3) by (auto simp: touch_field_def set_int_def set_float_def dget_dput)
    ultimately show ?thesis by (simp add: touch_fields_other)
  next
    case False
    then show ?thesis using Cons by auto
  qed
qed simp

lemma touch_fields_distinct: "distinct (map fst touch_fields)"
  by (simp add: touch_fields_def)

lemma touch_entry_binding:
  "shows_binding (touch_entry env meta (binding_kw dl_id ul_id) e) dl_id ul_id"
proof -
  let ?kw = "binding_kw dl_id ul_id"
  have absent: "list_all (\<lambda>k. dget ?kw k = JNull) [''dl_throttled'', ''ul_throttled'', ''ul_event_inc'',
      ''dl_event_inc'', ''ul_grant_inc'', ''dl_grant_inc'', ''last_reason'']"
    by (simp add: binding_kw_def build_binding_runtime_def dget_def)
  then have e: "touch_entry env meta ?kw e = fold (touch_field (repr_of env) ?kw) touch_fields
      (touch_meta (repr_of env) meta (dput ''last_seen'' (JFloat (clock env)) e))"
    by (simp add: touch_entry_def Let_def touch_throttled_def touch_count_def)
  have present: "list_all (\<lambda>(k, v). dget ?kw k = v) ?kw"
    by (simp add: binding_kw_def build_binding_runtime_def dget_def)
  have kinds: "list_all (\<lambda>(k, v). (k, TInt) \<in> set touch_fields \<and> (\<exists>i. v = JInt i) \<or>
      (k, TFloat) \<in> set touch_fields \<and> (\<exists>x. v = JFloat x)) ?kw"
    by (simp add: binding_kw_def build_binding_runtime_def touch_fields_def)
  have "dget (fold (touch_field rp ?kw) touch_fields e') k = v" if kv: "(k, v) \<in> set ?kw" for rp e' k v
  proof -
    have v: "dget ?kw k = v" using present kv by (auto simp: list_all_iff)
    obtain kind where "(k, kind) \<in> set touch_fields"
      "kind = TInt \<and> (\<exists>i. v = JInt i) \<or> kind = TFloat \<and> (\<exists>x. v = JFloat x)"
      using kinds kv by (fastforce simp: list_all_iff)
    then show ?thesis using touch_fields_stored [OF touch_fields_distinct, of k kind ?kw rp e'] v by simp
  qed
  then show ?thesis by (auto simp: shows_binding_def list_all_iff e)
qed

lemma assoc_success:
  assumes "py_int (dget req ''rnti'') = Some r" and "py_int (dget req ''dl_id'') = Some dl"
    and "py_int (dget_or req ''ul_id'' (dget req ''dl_id'')) = Some ul"
    and "make_assoc env r dl ul = Some \<lparr>a_rnti = r, a_dl_id = dl, a_ul_id = ul\<rparr>"
    and "do_ue_slice_assoc env req c = (c', Inr d)" and "replied_ok d"
  obtains c2 v where "control_slice_sm_safe env (assoc_msg r dl ul) c = (c2, SmRet v)"
    "0 < r" "0 < dl" "0 < ul" "ran c' = ran c2"
    "ue_entry c' r = touch_entry env [(''src'', JStr ''ue_slice_assoc'')] (binding_kw dl ul) (ue_entry c2 r)"
proof -
  have dl: "dget req ''dl_id'' \<noteq> JNull" using assms(2) by auto
  have send: "do_ue_slice_assoc env req c = (c', Inr d) \<Longrightarrow> 0 < r \<and> 0 < dl \<and> 0 < ul"
    using assms(1-3,6) dl
    by (auto simp: do_ue_slice_assoc_def resolve_explicit Let_def split: if_splits)
  then have pos: "0 < r" "0 < dl" "0 < ul" using assms(5) by blast+
  obtain c2 f where s: "control_slice_sm_safe env (assoc_msg r dl ul) c = (c2, f)" by fastforce
  have sdk: "sdk_ctrl_assoc env"
    using assms(5,6) by (auto simp: do_ue_slice_assoc_def split: if_splits)
  have eq: "do_ue_slice_assoc env req c = (case (c2, f) of
      (c, SmRet v) \<Rightarrow>
        let c = touch_ue env r [(''src'', JStr ''ue_slice_assoc'')] (binding_kw dl ul) c;
            c = state_put [(''last_slice'', JInt dl), (''last_ctrl_ts'', JFloat (clock env)),
                  (''last_ctrl'', JObj [(''cmd'', JStr ''ue_slice_assoc''),
                     (''rnti'', JInt r), (''dl_id'', JInt dl), (''ul_id'', JInt ul)])] c
        in (c, Inr (ok [(''ret'', v), (''rnti'', JInt r), (''dl_id'', JInt dl), (''ul_id'', JInt ul)]))
    | (c, e) \<Rightarrow> (c, Inr (sm_error e)))"
    using assms(1-4) dl pos sdk s
    by (simp add: do_ue_slice_assoc_def resolve_explicit assoc_msg_def)
  show ?thesis
  proof (cases f)
    case (SmRet v)
    then show ?thesis
      using that [of c2 v] s pos eq assms(5)
      by (auto simp: Let_def touch_ue_def ue_entry_def state_put_def update_conv')
  qed (use eq assms(5,6) in \<open>auto simp: sm_error_def split: if_splits\<close>)
qed

lemma assoc_sent:
  assumes "control_slice_sm_safe env m c = (c2, SmRet v)" and "distinct (get_target_nodes env)"
  shows "ran c2 = (\<lambda>n. if n \<in> set (get_target_nodes env) then fst (control_slice_sm env (ran c n) m) else ran c n)"
    "\<exists>n \<in> set (get_target_nodes env). node_answers env m (ran c n)"
proof -
  have "send_loop env m (get_target_nodes env) (ran c) [] SmRaised = (ran c2, SmRet v)"
    using assms(1) by (auto simp: control_slice_sm_safe_def split: prod.splits)
  from send_loop_result [OF this assms(2)]
  show "ran c2 = (\<lambda>n. if n \<in> set (get_target_nodes env) then fst (control_slice_sm env (ran c n) m) else ran c n)"
    "\<exists>n \<in> set (get_target_nodes env). node_answers env m (ran c n)" by auto
qed

lemma binding_at_nodes:
  assumes "agent_runs env"
    and "py_int (dget req ''rnti'') = Some r" and "py_int (dget req ''dl_id'') = Some dl"
    and "py_int (dget_or req ''ul_id'' (dget req ''dl_id'')) = Some ul"
    and "r < 65536" and "dl < 65536" and "ul < 65536"
    and "make_assoc env r dl ul = Some \<lparr>a_rnti = r, a_dl_id = dl, a_ul_id = ul\<rparr>"
    and "distinct (get_target_nodes env)" and "\<And>n. node_ready (to_u16 r) (ran c n)"
    and "do_ue_slice_assoc env req c = (c', Inr d)" and "replied_ok d"
    and n: "n \<in> set (get_target_nodes env)" "node_answers env (assoc_msg r dl ul) (ran c n)"
  shows "enforces (ran c' n) (to_u16 r) (known_slice dl) (known_slice ul)"
proof -
  obtain c2 v where s: "control_slice_sm_safe env (assoc_msg r dl ul) c = (c2, SmRet v)"
      and pos: "0 < r" "0 < dl" "0 < ul" and c': "ran c' = ran c2"
    by (rule assoc_success [OF assms(2-4,8,11,12)])
  obtain t' w where t: "control_slice_sm env (ran c n) (assoc_msg r dl ul) = (t', SmRet w)"
    using n(2) by (metis node_answers_def prod.collapse)
  have "t' = rk_slice_assoc_update_by_rnti (ran c n) (to_u16 r) (to_i32 dl) (to_i32 ul)"
  proof -
    obtain a where "write_ctrl_slice_sm (Some (assoc_msg r dl ul)) (ran c n) = Inr (a, t')"
      using assms(1) t unfolding agent_runs_def by blast
    then show ?thesis by (simp add: assoc_msg_applied)
  qed
  then show ?thesis
    using update_enforces [OF assms(10) pos(2) assms(6) pos(3) assms(7)] t n(1)
    by (simp add: c' assoc_sent(1) [OF s assms(9)])
qed

text \<open>
  C6. A binding that the controller reports as done is in force: at least one E2 node has answered, and
  at every node that answered the scheduler's getters return for this UE the weights (as C floats),
  caps, floors and limits that the controller lists for the slices, for an identifier above 6 those
  of slice 0; the controller's entry of the UE shows the numbers of the requested identifiers.
\<close>

theorem binding_in_force:
  assumes "agent_runs env"
    and "py_int (dget req ''rnti'') = Some r" and "py_int (dget req ''dl_id'') = Some dl"
    and "py_int (dget_or req ''ul_id'' (dget req ''dl_id'')) = Some ul"
    and "r < 65536" and "dl < 65536" and "ul < 65536"
    and "make_assoc env r dl ul = Some \<lparr>a_rnti = r, a_dl_id = dl, a_ul_id = ul\<rparr>"
    and "distinct (get_target_nodes env)" and "\<And>n. node_ready (to_u16 r) (ran c n)"
    and "do_ue_slice_assoc env req c = (c', Inr d)" and "replied_ok d"
  shows "(\<exists>n \<in> set (get_target_nodes env). node_answers env (assoc_msg r dl ul) (ran c n)) \<and>
    (\<forall>n \<in> set (get_target_nodes env). node_answers env (assoc_msg r dl ul) (ran c n) \<longrightarrow>
       enforces (ran c' n) (to_u16 r) (known_slice dl) (known_slice ul)) \<and>
    shows_binding (ue_entry c' r) dl ul"
proof -
  obtain c2 v where s: "control_slice_sm_safe env (assoc_msg r dl ul) c = (c2, SmRet v)"
      "ue_entry c' r = touch_entry env [(''src'', JStr ''ue_slice_assoc'')] (binding_kw dl ul) (ue_entry c2 r)"
    by (rule assoc_success [OF assms(2-4,8,11,12)])
  show ?thesis
    using binding_at_nodes [OF assms] assoc_sent(2) [OF s(1) assms(9)] s(2) touch_entry_binding by simp
qed

definition example_bind_req :: dict where
  "example_bind_req = [(''rnti'', JInt 9), (''dl_id'', JInt 3), (''ul_id'', JInt 5)]"

lemma example_bind:
  shows "agent_runs example_env" and "get_target_nodes example_env = [0]"
    and "py_int (dget example_bind_req ''rnti'') = Some 9" and "py_int (dget example_bind_req ''dl_id'') = Some 3"
    and "py_int (dget_or example_bind_req ''ul_id'' (dget example_bind_req ''dl_id'')) = Some 5"
    and "make_assoc example_env 9 3 5 = Some \<lparr>a_rnti = 9, a_dl_id = 3, a_ul_id = 5\<rparr>"
    and "control_slice_sm example_env t (assoc_msg 9 3 5) =
      (rk_slice_assoc_update_by_rnti t (to_u16 9) (to_i32 3) (to_i32 5), SmRet (JInt 0))"
    and "node_ready w g_rk_slice_assoc_init"
  by (auto simp: agent_runs_def example_env_def get_target_nodes_def example_bind_req_def dget_def dget_or_def
      assoc_msg_applied node_ready_def assoc_inv_init assoc_get_init split: sum.splits prod.splits)

lemma example_bind_runs:
  "\<exists>c' d. do_ue_slice_assoc example_env example_bind_req c = (c', Inr d) \<and> replied_ok d \<and>
     ran c' 0 = rk_slice_assoc_update_by_rnti (ran c 0) (to_u16 9) (to_i32 3) (to_i32 5)"
proof -
  have "sdk_ctrl_assoc example_env" by (simp add: example_env_def)
  moreover have "dget example_bind_req ''dl_id'' \<noteq> JNull" by (simp add: example_bind_req_def dget_def)
  ultimately show ?thesis
    using example_bind(7) [unfolded assoc_msg_def]
    by (simp add: do_ue_slice_assoc_def resolve_explicit example_bind control_slice_sm_safe_def Let_def
        touch_ue_def state_put_def)
qed

theorem binding_in_force_witness:
  "\<exists>c'. rk_slice_assoc_get_dl_rb_cap (ran c' 0) 9 = 50 \<and>
     rk_slice_assoc_get_ul_rb_floor (ran c' 0) 9 = 12 \<and> shows_binding (ue_entry c' 9) 3 5 \<and>
     c' = fst (do_ue_slice_assoc example_env example_bind_req example_start)"
proof -
  let ?c' = "fst (do_ue_slice_assoc example_env example_bind_req example_start)"
  obtain d where run: "do_ue_slice_assoc example_env example_bind_req example_start = (?c', Inr d)" "replied_ok d"
    using example_bind_runs [of example_start] by auto
  have ready: "node_ready (to_u16 9) (ran example_start n)" for n
    by (simp add: example_start_def ctl_init_def example_bind(8))
  have nine: "to_u16 9 = 9" by (simp add: to_u16_def)
  from binding_in_force [OF example_bind(1,3-5) _ _ _ example_bind(6) _ ready run]
  have "enforces (ran ?c' 0) 9 3 5" "shows_binding (ue_entry ?c' 9) 3 5"
    by (simp_all add: example_bind node_answers_def known_slice_def nine)
  then show ?thesis
    by (simp add: enforces_def build_binding_runtime_def build_half_policy_dl_def build_half_policy_ul_def
        get_slice_runtime_def SLICE_RUNTIME_TABLE_def slice_runtime.defs Let_def)
qed

end
