(* ===== verification/UlTda.thy ===== *)
theory UlTda imports Prelude begin

text \<open>
  The uplink time domain allocations (TDAs) of \<^verbatim>\<open>gnb_patch/gNB_scheduler_ulsch.c\<close>: which TDAs
  reach a slot with a given k2 (\<^verbatim>\<open>get_num_ul_tda\<close>), the longest free run of resource blocks
  (\<^verbatim>\<open>get_max_rb_range\<close>), and the TDA with the largest area (\<^verbatim>\<open>get_best_ul_tda\<close>).
  \<^verbatim>\<open>SL_to_bitmap\<close>, the macro that turns a start symbol and a length into a symbol mask, is not
  part of this repository and is the parameter \<open>sl\<close>.  The arrays of resource blocks are functions
  from the index, and the sequence container of TDAs is a list.
\<close>

unbundle bit_operations_syntax

section \<open>Data\<close>

datatype slot_type = TDD_NR_DOWNLINK_SLOT | TDD_NR_UPLINK_SLOT | TDD_NR_MIXED_SLOT

record tdd_bitmap_t =
  slot_kind :: slot_type
  num_ul_symbols :: int

record NR_tda_info_t =
  valid_tda :: bool
  k2 :: int
  startSymbolIndex :: int
  nrOfSymbols :: int

type_synonym prb_map = "int \<Rightarrow> u16"

datatype ul_tda_error = AssertTdaFits | AssertDist | AssertNTda | AssertValidTda

section \<open>The TDAs that reach a slot\<close>

text \<open>The symbols of the slot that are uplink: those of a mixed slot are its last ones.\<close>

definition slot_ul_bitmap :: "(int \<Rightarrow> int \<Rightarrow> u16) \<Rightarrow> int \<Rightarrow> (int \<Rightarrow> tdd_bitmap_t) \<Rightarrow> int \<Rightarrow> u16" where
  "slot_ul_bitmap sl numb_slots_period tdd_slot_bitmap slot =
     (let slot_period = slot mod numb_slots_period;
          bm = tdd_slot_bitmap slot_period;
          n = (if slot_kind bm = TDD_NR_MIXED_SLOT then num_ul_symbols bm else 14)
      in sl (14 - n) n)"

definition tda_bitmap :: "(int \<Rightarrow> int \<Rightarrow> u16) \<Rightarrow> NR_tda_info_t \<Rightarrow> u16" where
  "tda_bitmap sl tda = sl (startSymbolIndex tda) (nrOfSymbols tda)"

definition tda_fits :: "(int \<Rightarrow> int \<Rightarrow> u16) \<Rightarrow> u16 \<Rightarrow> NR_tda_info_t \<Rightarrow> bool" where
  "tda_fits sl ul_bitmap tda \<longleftrightarrow> tda_bitmap sl tda AND ul_bitmap = tda_bitmap sl tda"

text \<open>The first loop: from index \<open>i\<close>, \<open>None\<close> for no suitable TDA, an error for an invalid one.\<close>

fun first_tda :: "(int \<Rightarrow> int \<Rightarrow> u16) \<Rightarrow> u16 \<Rightarrow> int \<Rightarrow> nat \<Rightarrow> NR_tda_info_t list \<Rightarrow> ul_tda_error + nat option"
where
  "first_tda sl ulb k i [] = Inr None"
| "first_tda sl ulb k i (tda # tdas) =
     (if \<not> valid_tda tda then Inl AssertValidTda
      else if k2 tda < k then first_tda sl ulb k (i + 1) tdas
      else if k < k2 tda then Inr None
      else if tda_fits sl ulb tda then Inr (Some i)
      else first_tda sl ulb k (i + 1) tdas)"

text \<open>The second loop: how many of the following TDAs have the same k2; all of them must fit.\<close>

fun count_tda :: "(int \<Rightarrow> int \<Rightarrow> u16) \<Rightarrow> u16 \<Rightarrow> int \<Rightarrow> NR_tda_info_t list \<Rightarrow> ul_tda_error + nat" where
  "count_tda sl ulb k [] = Inr 0"
| "count_tda sl ulb k (tda # tdas) =
     (if k2 tda \<noteq> k then Inr 0
      else if \<not> tda_fits sl ulb tda then Inl AssertTdaFits
      else case count_tda sl ulb k tdas of Inl e \<Rightarrow> Inl e | Inr n \<Rightarrow> Inr (n + 1))"

text \<open>The result is the number of TDAs and the index of the first one.\<close>

definition get_num_ul_tda ::
    "(int \<Rightarrow> int \<Rightarrow> u16) \<Rightarrow> NR_tda_info_t list \<Rightarrow> u16 \<Rightarrow> int \<Rightarrow> ul_tda_error + (nat \<times> nat option)" where
  "get_num_ul_tda sl ul_tda ulb k =
     (case first_tda sl ulb k 0 ul_tda of
        Inl e \<Rightarrow> Inl e
      | Inr None \<Rightarrow> Inr (0, None)
      | Inr (Some i) \<Rightarrow>
          (case count_tda sl ulb k (drop (i + 1) ul_tda) of
             Inl e \<Rightarrow> Inl e
           | Inr n \<Rightarrow>
               let diff = n + 1 in
               if \<not> (0 < diff \<and> diff \<le> length ul_tda) then Inl AssertDist
               else Inr (diff, Some i)))"

section \<open>The longest free run of resource blocks\<close>

definition rb_usable :: "prb_map \<Rightarrow> prb_map \<Rightarrow> u16 \<Rightarrow> int \<Rightarrow> bool" where
  "rb_usable vrb_map_ul ulprbbl msk rb \<longleftrightarrow> ulprbbl rb = 0 \<and> msk AND vrb_map_ul rb = 0"

record rb_scan =
  best_start :: int
  best_len :: int
  current_start :: int
  current_len :: int

definition keep_longer :: "rb_scan \<Rightarrow> rb_scan" where
  "keep_longer s =
     (if best_len s < current_len s
      then s\<lparr>best_start := current_start s, best_len := current_len s\<rparr> else s)"

function rb_range_loop :: "(int \<Rightarrow> bool) \<Rightarrow> int \<Rightarrow> int \<Rightarrow> rb_scan \<Rightarrow> rb_scan" where
  "rb_range_loop usable n rb s =
     (if \<not> rb < n then s
      else if usable rb then rb_range_loop usable n (rb + 1) (s\<lparr>current_len := current_len s + 1\<rparr>)
      else rb_range_loop usable n (rb + 1)
             ((keep_longer s)\<lparr>current_start := rb + 1, current_len := 0\<rparr>))"
  by pat_completeness auto
termination by (relation "measure (\<lambda>(u, n, rb, s). nat (n - rb))") auto

declare rb_range_loop.simps [simp del]

text \<open>The two in-out parameters are the start of the search and its end (not its length).\<close>

definition get_max_rb_range :: "prb_map \<Rightarrow> prb_map \<Rightarrow> u16 \<Rightarrow> int \<Rightarrow> int \<Rightarrow> int \<times> int" where
  "get_max_rb_range vrb_map_ul ulprbbl msk rb_start rb_len =
     (let s0 = \<lparr>best_start = rb_start, best_len = 0, current_start = rb_start, current_len = 0\<rparr>;
          s = keep_longer (rb_range_loop (rb_usable vrb_map_ul ulprbbl msk) rb_len rb_start s0)
      in (best_start s, best_len s))"

section \<open>The TDA with the largest area\<close>

record tda_choice =
  best_tda :: nat
  score :: int
  out_start :: int
  out_len :: int

fun best_tda_loop ::
    "(int \<Rightarrow> int \<Rightarrow> u16) \<Rightarrow> prb_map \<Rightarrow> prb_map \<Rightarrow> int \<Rightarrow> int \<Rightarrow> nat \<Rightarrow> NR_tda_info_t list \<Rightarrow> tda_choice \<Rightarrow> tda_choice"
where
  "best_tda_loop sl vrb bl st ln i [] c = c"
| "best_tda_loop sl vrb bl st ln i (tda # tdas) c =
     (let (start, len) = get_max_rb_range vrb bl (tda_bitmap sl tda) st ln;
          s = nrOfSymbols tda * len
      in best_tda_loop sl vrb bl st ln (i + 1) tdas
           (if score c < s then \<lparr>best_tda = i, score = s, out_start = start, out_len = len\<rparr> else c))"

definition get_best_ul_tda ::
    "(int \<Rightarrow> int \<Rightarrow> u16) \<Rightarrow> prb_map \<Rightarrow> prb_map \<Rightarrow> NR_tda_info_t list \<Rightarrow> int \<Rightarrow> int \<Rightarrow>
     ul_tda_error + (nat \<times> int \<times> int)" where
  "get_best_ul_tda sl vrb_map_UL ulprbbl tdas rb_start rb_len =
     (if \<not> length tdas \<le> 16 then Inl AssertNTda
      else let c = best_tda_loop sl vrb_map_UL ulprbbl rb_start rb_len 0 tdas
                     \<lparr>best_tda = 0, score = 0, out_start = rb_start, out_len = rb_len\<rparr>
           in Inr (best_tda c, out_start c, out_len c))"

section \<open>The scan keeps the leftmost longest run\<close>

definition free_run :: "(int \<Rightarrow> bool) \<Rightarrow> int \<Rightarrow> int \<Rightarrow> bool" where
  "free_run usable s l \<longleftrightarrow> (\<forall>rb. s \<le> rb \<and> rb < s + l \<longrightarrow> usable rb)"

text \<open>
  While the scan stands at \<open>rb\<close>: the current run ends here and cannot be extended to the left, the
  best run is free, and no run that ends before the current one is longer.
\<close>

definition scan_inv :: "(int \<Rightarrow> bool) \<Rightarrow> int \<Rightarrow> int \<Rightarrow> rb_scan \<Rightarrow> bool" where
  "scan_inv usable st rb s \<longleftrightarrow>
     st \<le> current_start s \<and> current_start s + current_len s = rb \<and> 0 \<le> current_len s \<and>
     free_run usable (current_start s) (current_len s) \<and>
     (current_start s = st \<or> \<not> usable (current_start s - 1)) \<and>
     st \<le> best_start s \<and> 0 \<le> best_len s \<and> (best_len s = 0 \<or> best_start s + best_len s \<le> current_start s) \<and>
     free_run usable (best_start s) (best_len s) \<and>
     (\<forall>a l. st \<le> a \<and> a + l \<le> current_start s \<and> free_run usable a l \<longrightarrow> l \<le> best_len s)"

lemma scan_inv_init:
  "scan_inv usable st st \<lparr>best_start = st, best_len = 0, current_start = st, current_len = 0\<rparr>"
  by (auto simp: scan_inv_def free_run_def)

lemma free_run_inside: "free_run usable a l \<Longrightarrow> a \<le> b \<Longrightarrow> b < a + l \<Longrightarrow> usable b"
  by (simp add: free_run_def)

lemma free_run_snoc: "free_run usable a l \<Longrightarrow> usable (a + l) \<Longrightarrow> free_run usable a (l + 1)"
  unfolding free_run_def by (metis add.assoc order_less_le zle_add1_eq_le)

lemma scan_inv_extend:
  "scan_inv usable st rb s \<Longrightarrow> usable rb \<Longrightarrow> scan_inv usable st (rb + 1) (s\<lparr>current_len := current_len s + 1\<rparr>)"
  using free_run_snoc [of usable "current_start s" "current_len s"] by (auto simp: scan_inv_def)

text \<open>Runs that end inside the current run start in it.\<close>

lemma runs_up_to_here:
  assumes inv: "scan_inv usable st rb s" and run: "st \<le> a" "a + l \<le> rb" "free_run usable a l"
  shows "l \<le> best_len (keep_longer s)"
proof (cases "a + l \<le> current_start s")
  case True
  then have "l \<le> best_len s" using inv run by (simp add: scan_inv_def)
  then show ?thesis by (simp add: keep_longer_def)
next
  case False
  have "current_start s \<le> a"
  proof (rule ccontr)
    assume "\<not> current_start s \<le> a"
    then have "\<not> usable (current_start s - 1)" using inv run(1) by (auto simp: scan_inv_def)
    moreover have "usable (current_start s - 1)"
      by (rule free_run_inside [OF run(3)]) (use False \<open>\<not> current_start s \<le> a\<close> in simp_all)
    ultimately show False by simp
  qed
  then have "l \<le> current_len s" using inv run(2) by (simp add: scan_inv_def)
  then show ?thesis by (simp add: keep_longer_def)
qed

lemma scan_inv_break:
  assumes inv: "scan_inv usable st rb s" and busy: "\<not> usable rb"
  shows "scan_inv usable st (rb + 1) ((keep_longer s)\<lparr>current_start := rb + 1, current_len := 0\<rparr>)"
proof -
  have "l \<le> best_len (keep_longer s)" if run: "st \<le> a" "a + l \<le> rb + 1" "free_run usable a l" for a l
  proof (cases "a + l \<le> rb")
    case True
    with run show ?thesis by (intro runs_up_to_here [OF inv])
  next
    case False
    then have "\<not> (a \<le> rb \<and> rb < a + l)" using free_run_inside [OF run(3), of rb] busy by blast
    then have "l \<le> 0" using False run(2) by linarith
    moreover have "0 \<le> best_len (keep_longer s)" using inv by (auto simp: scan_inv_def keep_longer_def)
    ultimately show ?thesis by simp
  qed
  then show ?thesis using inv busy by (auto simp: scan_inv_def keep_longer_def free_run_def)
qed

lemma scan_inv_loop:
  "scan_inv usable st rb s \<Longrightarrow> rb \<le> n \<Longrightarrow> scan_inv usable st n (rb_range_loop usable n rb s)"
proof (induction usable n rb s rule: rb_range_loop.induct)
  case (1 usable n rb s)
  then show ?case
    using scan_inv_extend scan_inv_break by (subst rb_range_loop.simps) auto
qed

lemma get_max_rb_range_longest:
  assumes "rb_start \<le> rb_len" and "get_max_rb_range vrb bl m rb_start rb_len = (s, l)"
  shows "rb_start \<le> s \<and> 0 \<le> l \<and> s + l \<le> max rb_len s \<and> free_run (rb_usable vrb bl m) s l \<and>
    (\<forall>a k. rb_start \<le> a \<and> a + k \<le> rb_len \<and> free_run (rb_usable vrb bl m) a k \<longrightarrow> k \<le> l)"
proof -
  let ?u = "rb_usable vrb bl m"
  let ?f = "rb_range_loop ?u rb_len rb_start
    \<lparr>best_start = rb_start, best_len = 0, current_start = rb_start, current_len = 0\<rparr>"
  have inv: "scan_inv ?u rb_start rb_len ?f" by (rule scan_inv_loop [OF scan_inv_init assms(1)])
  have sl: "s = best_start (keep_longer ?f)" "l = best_len (keep_longer ?f)"
    using assms(2) by (simp_all add: get_max_rb_range_def Let_def)
  have "\<forall>a k. rb_start \<le> a \<and> a + k \<le> rb_len \<and> free_run ?u a k \<longrightarrow> k \<le> l"
    using runs_up_to_here [OF inv] by (auto simp: sl)
  moreover have "rb_start \<le> s \<and> 0 \<le> l \<and> s + l \<le> max rb_len s \<and> free_run ?u s l"
    using inv by (auto simp: sl scan_inv_def keep_longer_def)
  ultimately show ?thesis by blast
qed

section \<open>The first loops over the TDA list\<close>

text \<open>The list is sorted by k2 and its entries are valid, as \<^verbatim>\<open>nr_rrc_config_ul_tda\<close> leaves it.\<close>

definition tdas_ok :: "NR_tda_info_t list \<Rightarrow> bool" where
  "tdas_ok tdas \<longleftrightarrow> list_all valid_tda tdas \<and> sorted (map k2 tdas)"

lemma first_tda_None:
  "tdas_ok tdas \<Longrightarrow> first_tda sl ulb k i tdas = Inr None \<longleftrightarrow> \<not> (\<exists>t \<in> set tdas. k2 t = k \<and> tda_fits sl ulb t)"
proof (induction sl ulb k i tdas rule: first_tda.induct)
  case (2 sl ulb k i tda tdas)
  have ok: "tdas_ok tdas" "valid_tda tda" and later: "\<forall>t \<in> set tdas. k2 tda \<le> k2 t"
    using "2.prems" by (auto simp: tdas_ok_def)
  consider "k2 tda < k" | "k < k2 tda" | "k2 tda = k" by linarith
  then show ?case
  proof cases
    case 1
    then show ?thesis using 2 ok by simp
  next
    case 2
    then show ?thesis using ok later by (auto dest: bspec)
  next
    case 3
    then show ?thesis using 2 ok by simp
  qed
qed simp

lemma first_tda_no_error: "tdas_ok tdas \<Longrightarrow> first_tda sl ulb k i tdas \<noteq> Inl e"
  by (induction sl ulb k i tdas rule: first_tda.induct) (auto simp: tdas_ok_def)

lemma first_tda_Some:
  "first_tda sl ulb k i tdas = Inr (Some j) \<Longrightarrow>
   \<exists>n. j = i + n \<and> n < length tdas \<and> k2 (tdas ! n) = k \<and> tda_fits sl ulb (tdas ! n) \<and>
     (\<forall>m < n. \<not> (k2 (tdas ! m) = k \<and> tda_fits sl ulb (tdas ! m)))"
proof (induction sl ulb k i tdas rule: first_tda.induct)
  case (2 sl ulb k i tda tdas)
  show ?case
  proof (cases "k2 tda = k \<and> tda_fits sl ulb tda")
    case True
    then show ?thesis using "2.prems" by (intro exI [of _ 0]) (auto split: if_splits)
  next
    case False
    then have "first_tda sl ulb k (i + 1) tdas = Inr (Some j)"
      using "2.prems" by (auto split: if_splits)
    then obtain n where "j = i + 1 + n" "n < length tdas" "k2 (tdas ! n) = k" "tda_fits sl ulb (tdas ! n)"
      "\<forall>m < n. \<not> (k2 (tdas ! m) = k \<and> tda_fits sl ulb (tdas ! m))"
      using 2 False by (auto split: if_splits)
    then show ?thesis using False
      by (intro exI [of _ "Suc n"]) (auto simp: less_Suc_eq_0_disj)
  qed
qed simp

lemma count_tda_run:
  "count_tda sl ulb k tdas = Inr n \<Longrightarrow>
   n \<le> length tdas \<and> (\<forall>m < n. k2 (tdas ! m) = k \<and> tda_fits sl ulb (tdas ! m)) \<and>
   (n < length tdas \<longrightarrow> k2 (tdas ! n) \<noteq> k)"
proof (induction sl ulb k tdas arbitrary: n rule: count_tda.induct)
  case (2 sl ulb k tda tdas)
  show ?case
  proof (cases "k2 tda = k")
    case True
    then obtain m where "count_tda sl ulb k tdas = Inr m" "n = m + 1" "tda_fits sl ulb tda"
      using "2.prems" by (auto split: if_splits sum.splits)
    then show ?thesis using True "2.IH" by (auto simp: less_Suc_eq_0_disj)
  next
    case False
    then show ?thesis using "2.prems" by simp
  qed
qed simp

section \<open>The choice of the TDA\<close>

definition tda_area :: "(int \<Rightarrow> int \<Rightarrow> u16) \<Rightarrow> prb_map \<Rightarrow> prb_map \<Rightarrow> int \<Rightarrow> int \<Rightarrow> NR_tda_info_t \<Rightarrow> int" where
  "tda_area sl vrb bl st ln tda = nrOfSymbols tda * snd (get_max_rb_range vrb bl (tda_bitmap sl tda) st ln)"

definition choice_ok ::
    "(int \<Rightarrow> int \<Rightarrow> u16) \<Rightarrow> prb_map \<Rightarrow> prb_map \<Rightarrow> int \<Rightarrow> int \<Rightarrow> NR_tda_info_t list \<Rightarrow> tda_choice \<Rightarrow> bool" where
  "choice_ok sl vrb bl st ln tdas c \<longleftrightarrow>
     (\<forall>t \<in> set tdas. tda_area sl vrb bl st ln t \<le> score c) \<and>
     (score c = 0 \<and> best_tda c = 0 \<and> out_start c = st \<and> out_len c = ln \<or>
      best_tda c < length tdas \<and> 0 < score c \<and> tda_area sl vrb bl st ln (tdas ! best_tda c) = score c \<and>
      get_max_rb_range vrb bl (tda_bitmap sl (tdas ! best_tda c)) st ln = (out_start c, out_len c))"

lemma best_tda_loop_ok:
  "choice_ok sl vrb bl st ln pre c \<Longrightarrow> 0 \<le> score c \<Longrightarrow> i = length pre \<Longrightarrow>
   choice_ok sl vrb bl st ln (pre @ tdas) (best_tda_loop sl vrb bl st ln i tdas c)"
proof (induction tdas arbitrary: pre c i)
  case (Cons tda tdas)
  obtain a l where al: "get_max_rb_range vrb bl (tda_bitmap sl tda) st ln = (a, l)" by force
  let ?c = "if score c < nrOfSymbols tda * l
    then \<lparr>best_tda = i, score = nrOfSymbols tda * l, out_start = a, out_len = l\<rparr> else c"
  have "choice_ok sl vrb bl st ln (pre @ [tda]) ?c"
    using Cons.prems al by (auto simp: choice_ok_def tda_area_def nth_append intro: order_trans)
  moreover have "0 \<le> score ?c" using Cons.prems(2) by simp
  ultimately show ?case
    using Cons.IH [of "pre @ [tda]" ?c "i + 1"] Cons.prems(3)
    by (auto simp: al Let_def split: if_splits)
qed simp

lemma get_best_ul_tda_ok:
  assumes "get_best_ul_tda sl vrb bl tdas st ln = Inr (i, a, l)"
  shows "\<exists>c. choice_ok sl vrb bl st ln tdas c \<and> best_tda c = i \<and> out_start c = a \<and> out_len c = l"
proof -
  let ?c0 = "\<lparr>best_tda = 0, score = 0, out_start = st, out_len = ln\<rparr>"
  have "choice_ok sl vrb bl st ln ([] @ tdas) (best_tda_loop sl vrb bl st ln 0 tdas ?c0)"
    by (rule best_tda_loop_ok) (simp_all add: choice_ok_def)
  then show ?thesis using assms by (auto simp: get_best_ul_tda_def Let_def split: if_splits)
qed

section \<open>Properties\<close>

text \<open>
  On a list of valid TDAs sorted by k2, \<^verbatim>\<open>get_num_ul_tda\<close> finds no TDA exactly when none with
  this k2 fits the uplink symbols of the slot; otherwise it returns the first fitting one and a
  block of TDAs with this k2 that all fit.
\<close>

lemma num_ul_tda_block:
  assumes "tdas_ok tdas"
  shows "(get_num_ul_tda sl tdas ulb k = Inr (0, None)
      \<longleftrightarrow> \<not> (\<exists>t \<in> set tdas. k2 t = k \<and> tda_fits sl ulb t)) \<and>
    (\<forall>n i. get_num_ul_tda sl tdas ulb k = Inr (n, Some i) \<longrightarrow>
      0 < n \<and> i + n \<le> length tdas \<and>
      (\<forall>j. i \<le> j \<and> j < i + n \<longrightarrow> k2 (tdas ! j) = k \<and> tda_fits sl ulb (tdas ! j)) \<and>
      (\<forall>j < i. \<not> (k2 (tdas ! j) = k \<and> tda_fits sl ulb (tdas ! j))) \<and>
      (i + n < length tdas \<longrightarrow> k2 (tdas ! (i + n)) \<noteq> k))"
proof (intro conjI allI impI)
  show "get_num_ul_tda sl tdas ulb k = Inr (0, None)
      \<longleftrightarrow> \<not> (\<exists>t \<in> set tdas. k2 t = k \<and> tda_fits sl ulb t)"
    using first_tda_None [OF assms, of sl ulb k 0] first_tda_no_error [OF assms, of sl ulb k 0]
    by (auto simp: get_num_ul_tda_def Let_def split: sum.splits option.splits)
  fix n i assume g: "get_num_ul_tda sl tdas ulb k = Inr (n, Some i)"
  then obtain c where f: "first_tda sl ulb k 0 tdas = Inr (Some i)"
    and c: "count_tda sl ulb k (drop (i + 1) tdas) = Inr c" and n: "n = c + 1"
    by (auto simp: get_num_ul_tda_def Let_def split: sum.splits option.splits if_splits)
  note first = first_tda_Some [OF f, simplified] and run = count_tda_run [OF c]
  show "0 < n" and "i + n \<le> length tdas" using first run by (auto simp: n)
  show "\<not> (k2 (tdas ! j) = k \<and> tda_fits sl ulb (tdas ! j))" if "j < i" for j
    using first that by simp
  show "k2 (tdas ! (i + n)) \<noteq> k" if "i + n < length tdas"
    using run that by (simp add: n less_diff_conv2 add.commute add.left_commute)
  fix j assume j: "i \<le> j \<and> j < i + n"
  then have "j = i \<or> (j - (i + 1) < c \<and> j = i + 1 + (j - (i + 1)))" by (auto simp: n)
  then have "j = i \<or> (\<exists>m < c. j = i + 1 + m)" by blast
  then show "k2 (tdas ! j) = k" and "tda_fits sl ulb (tdas ! j)"
    using first run by auto
qed

definition sl_example :: "int \<Rightarrow> int \<Rightarrow> u16" where
  "sl_example s l = push_bit (nat s) (word_of_int (2 ^ nat l - 1))"

text \<open>
  \<^verbatim>\<open>get_max_rb_range\<close> is optimal: the range it returns consists of resource blocks that are
  neither blocked nor used in the symbols of the mask, lies in the search window, and no free run
  of the window is longer.
\<close>

lemma max_rb_range_optimal:
  assumes "rb_start \<le> rb_len" and "get_max_rb_range vrb bl m rb_start rb_len = (s, l)"
  shows "rb_start \<le> s \<and> 0 \<le> l \<and> (0 < l \<longrightarrow> s + l \<le> rb_len) \<and>
    (\<forall>rb. s \<le> rb \<and> rb < s + l \<longrightarrow> bl rb = 0 \<and> m AND vrb rb = 0) \<and>
    (\<forall>a k. rb_start \<le> a \<and> a + k \<le> rb_len \<and>
      (\<forall>rb. a \<le> rb \<and> rb < a + k \<longrightarrow> bl rb = 0 \<and> m AND vrb rb = 0) \<longrightarrow> k \<le> l)"
  using get_max_rb_range_longest [OF assms] by (auto simp: free_run_def rb_usable_def)

text \<open>
  C0. \<^verbatim>\<open>get_best_ul_tda\<close> maximises symbols times resource blocks: no TDA offered to it has a
  larger product, and the range it returns is free in the symbols of the TDA it returns; if no TDA
  has any free block it returns the first one with the range it was given (a caller that reads
  the length as a budget then starts with the full bandwidth).
\<close>

theorem best_ul_tda_optimal:
  assumes "get_best_ul_tda sl vrb bl tdas 0 bw = Inr (i, s, l)" and "0 \<le> bw"
    and "list_all (\<lambda>t. 0 < nrOfSymbols t) tdas"
  shows "if \<exists>t \<in> set tdas. \<exists>rb. 0 \<le> rb \<and> rb < bw \<and> rb_usable vrb bl (tda_bitmap sl t) rb
    then i < length tdas \<and> 0 < l \<and> 0 \<le> s \<and> s + l \<le> bw \<and>
      free_run (rb_usable vrb bl (tda_bitmap sl (tdas ! i))) s l \<and>
      (\<forall>t \<in> set tdas. \<forall>a k. 0 \<le> a \<and> a + k \<le> bw \<and> free_run (rb_usable vrb bl (tda_bitmap sl t)) a k \<longrightarrow>
        nrOfSymbols t * k \<le> nrOfSymbols (tdas ! i) * l)
    else i = 0 \<and> s = 0 \<and> l = bw"
proof -
  obtain c where c: "choice_ok sl vrb bl 0 bw tdas c" "best_tda c = i" "out_start c = s" "out_len c = l"
    using get_best_ul_tda_ok [OF assms(1)] by blast
  have pos: "0 < nrOfSymbols t" if "t \<in> set tdas" for t
    using assms(3) that by (simp add: list_all_iff)
  let ?range = "\<lambda>t. get_max_rb_range vrb bl (tda_bitmap sl t) 0 bw"
  have range: "0 \<le> fst (?range t) \<and> 0 \<le> snd (?range t) \<and> fst (?range t) + snd (?range t) \<le> max bw (fst (?range t)) \<and>
      free_run (rb_usable vrb bl (tda_bitmap sl t)) (fst (?range t)) (snd (?range t)) \<and>
      (\<forall>a k. 0 \<le> a \<and> a + k \<le> bw \<and> free_run (rb_usable vrb bl (tda_bitmap sl t)) a k \<longrightarrow> k \<le> snd (?range t))" for t
    using get_max_rb_range_longest [OF assms(2), of vrb bl "tda_bitmap sl t" "fst (?range t)" "snd (?range t)"]
    by simp
  have best: "nrOfSymbols t * k \<le> score c"
    if "t \<in> set tdas" "0 \<le> a" "a + k \<le> bw" "free_run (rb_usable vrb bl (tda_bitmap sl t)) a k" for t a k
  proof -
    have "nrOfSymbols t * k \<le> nrOfSymbols t * snd (?range t)"
      using range [of t] that pos [OF that(1)] by (intro mult_left_mono) auto
    also have "\<dots> \<le> score c" using c(1) that(1) by (auto simp: choice_ok_def tda_area_def)
    finally show ?thesis .
  qed
  consider (none) "score c = 0" "i = 0" "s = 0" "l = bw"
    | (some) "i < length tdas" "0 < score c" "tda_area sl vrb bl 0 bw (tdas ! i) = score c" "?range (tdas ! i) = (s, l)"
    using c by (auto simp: choice_ok_def)
  then show ?thesis
  proof cases
    case none
    have "\<not> rb_usable vrb bl (tda_bitmap sl t) rb" if "t \<in> set tdas" "0 \<le> rb" "rb < bw" for t rb
    proof
      assume "rb_usable vrb bl (tda_bitmap sl t) rb"
      then have "free_run (rb_usable vrb bl (tda_bitmap sl t)) rb 1"
        unfolding free_run_def by (metis order.antisym zle_add1_eq_le)
      with best [OF that(1,2), of 1] that pos [OF that(1)] none(1) show False by simp
    qed
    with none show ?thesis by auto
  next
    case some
    then have score: "score c = nrOfSymbols (tdas ! i) * l" by (simp add: tda_area_def)
    have "0 < l" using some(2) pos [of "tdas ! i"] some(1) by (simp add: score zero_less_mult_iff)
    moreover have "0 \<le> s \<and> s + l \<le> bw \<and> free_run (rb_usable vrb bl (tda_bitmap sl (tdas ! i))) s l"
      using range [of "tdas ! i"] some(4) \<open>0 < l\<close> by auto
    moreover from this have "\<exists>t \<in> set tdas. \<exists>rb. 0 \<le> rb \<and> rb < bw \<and> rb_usable vrb bl (tda_bitmap sl t) rb"
      using some(1) \<open>0 < l\<close> free_run_inside [of _ s l s] by (intro bexI [of _ "tdas ! i"] exI [of _ s]) auto
    moreover have "nrOfSymbols t * k \<le> nrOfSymbols (tdas ! i) * l"
      if "t \<in> set tdas" "0 \<le> a \<and> a + k \<le> bw \<and> free_run (rb_usable vrb bl (tda_bitmap sl t)) a k" for t a k
      using best [OF that(1), of a k] that(2) by (simp add: score)
    ultimately show ?thesis using some(1) by auto
  qed
qed

theorem best_ul_tda_optimal_witness:
  "(1 :: nat) < 2 \<and> free_run (rb_usable (\<lambda>i. if i < 4 then 1 else 0) (\<lambda>_. 0) (sl_example 2 12)) 0 6"
proof -
  let ?l = "[\<lparr>valid_tda = True, k2 = 3, startSymbolIndex = 0, nrOfSymbols = 14\<rparr>,
      \<lparr>valid_tda = True, k2 = 3, startSymbolIndex = 2, nrOfSymbols = 12\<rparr>]"
  have "get_best_ul_tda sl_example (\<lambda>i. if i < 4 then 1 else 0) (\<lambda>_. 0) ?l 0 6 = Inr (1, 0, 6)"
    by code_simp
  from best_ul_tda_optimal [OF this] show ?thesis by (simp add: tda_bitmap_def split: if_splits)
qed

end
