(* ===== verification/RbSearch.thy ===== *)
theory RbSearch imports UlTda begin

text \<open>
  The loops over resource blocks that both schedulers share
  (\<^verbatim>\<open>gnb_patch/gNB_scheduler_ulsch.c\<close>, \<^verbatim>\<open>gNB_scheduler_dlsch.c\<close>): skipping used blocks, extending a run
  of free ones, the search of the downlink for a run of a given length, and the marking of granted
  blocks.  \<open>used\<close> is the test of a block's entry in the mask against the symbols of the allocation.
\<close>

section \<open>Scanning\<close>

text \<open>\<open>while (i < stop && P(i)) i++;\<close>\<close>

function scan_while :: "(int \<Rightarrow> bool) \<Rightarrow> int \<Rightarrow> int \<Rightarrow> int" where
  "scan_while P stop i = (if i < stop \<and> P i then scan_while P stop (i + 1) else i)"
  by pat_completeness auto
termination
  by (relation "measure (\<lambda>(_, stop, i). nat (stop - i))") auto

declare scan_while.simps [simp del]

lemma scan_while_ge: "i \<le> scan_while P stop i"
proof (induction P stop i rule: scan_while.induct)
  case (1 P stop i)
  then show ?case by (subst scan_while.simps) (auto intro: order_trans [of i "i + 1"])
qed

lemma scan_while_le: "i \<le> stop \<Longrightarrow> scan_while P stop i \<le> stop"
proof (induction P stop i rule: scan_while.induct)
  case (1 P stop i)
  then show ?case by (subst scan_while.simps) auto
qed

lemma scan_while_over: "stop \<le> i \<Longrightarrow> scan_while P stop i = i"
  by (subst scan_while.simps) simp

lemma scan_while_passed: "i \<le> j \<Longrightarrow> j < scan_while P stop i \<Longrightarrow> P j"
proof (induction P stop i rule: scan_while.induct)
  case (1 P stop i)
  show ?case
  proof (cases "i < stop \<and> P i")
    case True
    then have "scan_while P stop i = scan_while P stop (i + 1)" by (subst scan_while.simps) simp
    then show ?thesis using 1 True by (cases "i = j") auto
  next
    case False
    then have "scan_while P stop i = i" by (subst scan_while.simps) auto
    then show ?thesis using 1 by simp
  qed
qed

lemma scan_while_stops: "scan_while P stop i < stop \<Longrightarrow> \<not> P (scan_while P stop i)"
proof (induction P stop i rule: scan_while.induct)
  case (1 P stop i)
  show ?case
  proof (cases "i < stop \<and> P i")
    case True
    then have "scan_while P stop i = scan_while P stop (i + 1)" by (subst scan_while.simps) simp
    then show ?thesis using 1 True by simp
  next
    case False
    then have "scan_while P stop i = i" by (subst scan_while.simps) auto
    then show ?thesis using 1 False by auto
  qed
qed

section \<open>The first run that is long enough\<close>

text \<open>
  The search of the downlink for a retransmission: from \<open>rbStart\<close> on, skip used blocks, extend the
  free run up to \<open>need\<close> blocks, and continue behind it when it is too short.  Blocks up to \<open>rbStop\<close>
  may be taken, but a run has to start before it.
\<close>

definition free_from :: "(int \<Rightarrow> bool) \<Rightarrow> int \<Rightarrow> int \<Rightarrow> int \<Rightarrow> int" where
  "free_from used rbStop need s =
     scan_while (\<lambda>rbSize. \<not> used (s + rbSize)) (min (rbStop - s + 1) need) 0"

lemma free_from_pos:
  assumes "s = scan_while used rbStop i" and "s < rbStop" and "0 < need"
  shows "0 < free_from used rbStop need s"
proof -
  have "\<not> used s" using assms scan_while_stops by blast
  then have "free_from used rbStop need s = scan_while (\<lambda>n. \<not> used (s + n)) (min (rbStop - s + 1) need) 1"
    using assms unfolding free_from_def by (subst scan_while.simps) simp
  also have "1 \<le> \<dots>" by (rule scan_while_ge)
  finally show ?thesis by simp
qed

function find_run :: "(int \<Rightarrow> bool) \<Rightarrow> int \<Rightarrow> int \<Rightarrow> int \<Rightarrow> int option" where
  "find_run used rbStop need rbStart =
     (if need \<le> 0 then Some rbStart
      else let s = scan_while used rbStop rbStart in
        if rbStop \<le> s then None
        else let rbSize = free_from used rbStop need s in
          if rbSize < need then find_run used rbStop need (s + rbSize) else Some s)"
  by pat_completeness auto
termination
proof (relation "measure (\<lambda>(_, stop, _, i). nat (stop - i))", goal_cases)
  case 1
  then show ?case by simp
next
  case (2 used rbStop need rbStart s rbSize)
  have "0 < rbSize" using free_from_pos [OF 2(2)] 2 by simp
  moreover have "rbStart \<le> s" using 2(2) scan_while_ge by simp
  ultimately show ?case using 2 by simp
qed

declare find_run.simps [simp del]

text \<open>Blocks \<open>s .. s + n - 1\<close> are all free.\<close>

definition all_free :: "(int \<Rightarrow> bool) \<Rightarrow> int \<Rightarrow> int \<Rightarrow> bool" where
  "all_free used s n \<longleftrightarrow> (\<forall>j. s \<le> j \<and> j < s + n \<longrightarrow> \<not> used j)"

lemma all_free_sub: "all_free used s n \<Longrightarrow> s \<le> s' \<Longrightarrow> s' + n' \<le> s + n \<Longrightarrow> all_free used s' n'"
  by (auto simp: all_free_def)

lemma all_free_0 [simp]: "n \<le> 0 \<Longrightarrow> all_free used s n"
  by (auto simp: all_free_def)

lemma grow_free:
  assumes "0 \<le> m"
  shows "all_free used s (scan_while (\<lambda>n. \<not> used (s + n)) m 0)"
  using scan_while_passed [of 0 _ "\<lambda>n. \<not> used (s + n)" m] unfolding all_free_def
  by (metis add_diff_cancel_left' add_less_cancel_left diff_ge_0_iff_ge le_add_diff_inverse)

lemma free_from_free: "all_free used s (free_from used rbStop need s)"
proof (cases "0 \<le> min (rbStop - s + 1) need")
  case True
  then show ?thesis unfolding free_from_def by (rule grow_free)
next
  case False
  then have "free_from used rbStop need s = 0" unfolding free_from_def by (intro scan_while_over) linarith
  then show ?thesis by simp
qed

lemma free_from_le: "0 \<le> need \<Longrightarrow> s \<le> rbStop + 1 \<Longrightarrow> free_from used rbStop need s \<le> min (rbStop - s + 1) need"
  unfolding free_from_def by (rule scan_while_le) simp

lemma find_run_Some:
  "find_run used rbStop need rbStart = Some s \<Longrightarrow> 0 < need \<Longrightarrow>
   rbStart \<le> s \<and> s < rbStop \<and> s + need \<le> rbStop + 1 \<and> all_free used s need"
proof (induction used rbStop need rbStart rule: find_run.induct)
  case (1 used rbStop need rbStart)
  define p where "p = scan_while used rbStop rbStart"
  define n where "n = free_from used rbStop need p"
  have ge: "rbStart \<le> p" by (simp add: p_def scan_while_ge)
  have p: "p < rbStop"
    using 1(2,3) unfolding p_def by (subst (asm) find_run.simps) (auto simp: Let_def split: if_splits)
  have eq: "find_run used rbStop need rbStart =
      (if n < need then find_run used rbStop need (p + n) else Some p)"
    using 1(3) p unfolding p_def n_def by (subst find_run.simps) (simp add: Let_def)
  show ?case
  proof (cases "n < need")
    case True
    have "0 < n" unfolding n_def using free_from_pos [OF p_def p 1(3)] .
    then show ?thesis using 1(1) [OF _ p_def _ n_def True] 1(2,3) eq True p ge by simp
  next
    case False
    then have "s = p" using 1(2) eq by simp
    moreover have "n \<le> min (rbStop - p + 1) need" unfolding n_def using 1(3) p by (intro free_from_le) auto
    moreover have "all_free used p n" unfolding n_def by (rule free_from_free)
    ultimately show ?thesis using False p ge by auto
  qed
qed

lemma find_run_None:
  "find_run used rbStop need rbStart = None \<Longrightarrow> rbStart \<le> a \<Longrightarrow> a < rbStop \<Longrightarrow> a + need \<le> rbStop + 1 \<Longrightarrow>
   \<not> all_free used a need"
proof (induction used rbStop need rbStart rule: find_run.induct)
  case (1 used rbStop need rbStart)
  have need: "0 < need" using 1(2) by (subst (asm) find_run.simps) (auto split: if_splits)
  define p where "p = scan_while used rbStop rbStart"
  define n where "n = free_from used rbStop need p"
  show ?case
  proof (cases "a < p")
    case True
    then have "used a" unfolding p_def by (rule scan_while_passed [OF 1(3)])
    then show ?thesis using need by (auto simp: all_free_def)
  next
    case False
    then have p: "p < rbStop" using 1(4) by simp
    have eq: "find_run used rbStop need rbStart =
        (if n < need then find_run used rbStop need (p + n) else Some p)"
      using need p unfolding p_def n_def by (subst find_run.simps) (simp add: Let_def)
    then have n: "n < need" using 1(2) by (auto split: if_splits)
    show ?thesis
    proof (cases "p + n \<le> a")
      case True
      then show ?thesis using 1(1) [OF _ p_def _ n_def n] 1(2,4,5) eq n need p by auto
    next
      case inside: False
      have "n < min (rbStop - p + 1) need" using n 1(5) inside False by auto
      then have "used (p + n)" using scan_while_stops [of "\<lambda>j. \<not> used (p + j)" "min (rbStop - p + 1) need" 0]
        unfolding n_def free_from_def by simp
      moreover have "p + n < a + need" using n False by simp
      ultimately show ?thesis using inside by (auto simp: all_free_def intro!: exI [of _ "p + n"])
    qed
  qed
qed

lemma find_run_first:
  "find_run used rbStop need rbStart = Some s \<Longrightarrow> 0 < need \<Longrightarrow> rbStart \<le> a \<Longrightarrow> a < s \<Longrightarrow> \<not> all_free used a need"
proof (induction used rbStop need rbStart rule: find_run.induct)
  case (1 used rbStop need rbStart)
  define p where "p = scan_while used rbStop rbStart"
  define n where "n = free_from used rbStop need p"
  have p: "p < rbStop"
    using 1(2,3) unfolding p_def by (subst (asm) find_run.simps) (auto simp: Let_def split: if_splits)
  have eq: "find_run used rbStop need rbStart =
      (if n < need then find_run used rbStop need (p + n) else Some p)"
    using 1(3) p unfolding p_def n_def by (subst find_run.simps) (simp add: Let_def)
  show ?case
  proof (cases "a < p")
    case True
    then have "used a" unfolding p_def by (rule scan_while_passed [OF 1(4)])
    then show ?thesis using 1(3) by (auto simp: all_free_def)
  next
    case False
    then have n: "n < need" using eq 1(2,5) by (auto split: if_splits)
    have fit: "s + need \<le> rbStop + 1" using find_run_Some [OF 1(2,3)] by simp
    show ?thesis
    proof (cases "p + n \<le> a")
      case True
      then show ?thesis using 1(1) [OF _ p_def _ n_def n] 1(2,3,5) eq n p by auto
    next
      case inside: False
      have "n < min (rbStop - p + 1) need" using n fit 1(5) False inside by auto
      then have "used (p + n)" using scan_while_stops [of "\<lambda>j. \<not> used (p + j)" "min (rbStop - p + 1) need" 0]
        unfolding n_def free_from_def by simp
      moreover have "p + n < a + need" using n False by simp
      ultimately show ?thesis using inside by (auto simp: all_free_def intro!: exI [of _ "p + n"])
    qed
  qed
qed

section \<open>Marking\<close>

text \<open>\<open>for (rb = from; rb < to; rb++) mask[rb + off] |= bits;\<close>\<close>

definition mark_rbs :: "u16 \<Rightarrow> int \<Rightarrow> int \<Rightarrow> int \<Rightarrow> prb_map \<Rightarrow> prb_map" where
  "mark_rbs bits lo hi off msk = fold (\<lambda>rb m. m(rb + off := m (rb + off) OR bits)) [lo..hi - 1] msk"

lemma mark_rbs_eq: "mark_rbs bits lo hi off msk i = (if lo \<le> i - off \<and> i - off < hi then msk i OR bits else msk i)"
proof -
  have *: "fold (\<lambda>rb m. m(rb + off := m (rb + off) OR bits)) xs msk i =
      (if i - off \<in> set xs then msk i OR bits else msk i)" if "distinct xs" for xs :: "int list" and msk
    using that
  proof (induction xs arbitrary: msk)
    case Nil
    then show ?case by simp
  next
    case (Cons x xs)
    then show ?case by (auto simp: fun_upd_apply)
  qed
  show ?thesis unfolding mark_rbs_def by (subst *) auto
qed

definition rb_used :: "prb_map \<Rightarrow> u16 \<Rightarrow> int \<Rightarrow> bool" where
  "rb_used msk bits rb \<longleftrightarrow> msk rb AND bits \<noteq> 0"

lemma rb_used_mark:
  "bits \<noteq> 0 \<Longrightarrow> rb_used (mark_rbs bits lo hi off msk) bits i \<longleftrightarrow>
   lo \<le> i - off \<and> i - off < hi \<or> rb_used msk bits i"
proof -
  assume b: "bits \<noteq> 0"
  have "(msk i OR bits) AND bits = bits" by (simp add: and.commute bit.conj_disj_distrib)
  then show ?thesis using b by (cases "lo \<le> i - off \<and> i - off < hi") (simp_all add: rb_used_def mark_rbs_eq, auto)
qed

lemma rb_used_mark_mono: "rb_used msk b i \<Longrightarrow> rb_used (mark_rbs bits lo hi off msk) b i"
proof -
  assume *: "rb_used msk b i"
  have "msk i AND b \<noteq> 0 \<Longrightarrow> (msk i OR bits) AND b \<noteq> 0"
    by (metis bit.conj_disj_distrib2 or_eq_0_iff)
  then show ?thesis using * by (simp add: rb_used_def mark_rbs_eq)
qed

lemma scan_while_cong: "(\<And>j. P j = Q j) \<Longrightarrow> scan_while P n i = scan_while Q n i"
  by (simp add: ext [of P Q])

section \<open>Floor and cap\<close>

text \<open>
  The number of blocks of a grant after the slice's floor, which never takes more than is available,
  and then its cap.
\<close>

definition apply_floor_cap :: "int \<Rightarrow> int \<Rightarrow> int \<Rightarrow> int \<Rightarrow> int" where
  "apply_floor_cap floor cap available rbSize =
     (let rbSize =
            (if 0 < floor \<and> rbSize < floor
             then let target_floor = (if floor < available then floor else available)
                  in if rbSize < target_floor then target_floor else rbSize
             else rbSize)
      in if 0 < cap \<and> cap < rbSize then cap else rbSize)"

lemma apply_floor_cap_range:
  assumes "0 < rb" "rb \<le> available"
  shows "0 < apply_floor_cap f c available rb \<and> apply_floor_cap f c available rb \<le> available \<and>
    (0 < c \<longrightarrow> apply_floor_cap f c available rb \<le> c) \<and>
    (c \<le> 0 \<longrightarrow> min f available \<le> apply_floor_cap f c available rb) \<and>
    (c \<le> 0 \<or> rb \<le> c \<longrightarrow> rb \<le> apply_floor_cap f c available rb)"
  using assms by (auto simp: apply_floor_cap_def Let_def)

end
