(* ===== verification/PfOrder.thy ===== *)
theory PfOrder imports BinaryFloat SlicePolicy "HOL-Library.Multiset" begin

text \<open>
  The proportional fair order of both schedulers (\<^verbatim>\<open>pf_ul\<close> in \<^verbatim>\<open>gnb_patch/gNB_scheduler_ulsch.c\<close>,
  \<^verbatim>\<open>pf_dl\<close> in \<^verbatim>\<open>gNB_scheduler_dlsch.c\<close>): the smoothed throughput, the coefficient of a UE with the
  multipliers of its slice and of its own policy, and the comparators that \<^verbatim>\<open>qsort\<close> uses.
  The C standard leaves open how \<^verbatim>\<open>qsort\<close> orders elements that compare equal and what it does when
  the comparator is inconsistent, so the sorting function is a parameter \<open>qs\<close> with the law
  \<open>qsort_law\<close>.
\<close>

section \<open>Coefficients\<close>

abbreviation mul32 :: "fl \<Rightarrow> fl \<Rightarrow> fl" where "mul32 \<equiv> fl_mul binary32"

text \<open>\<open>thr = (1 - a) * thr + a * b\<close> with \<open>a = 0.01f\<close> and \<open>b\<close> unsigned.\<close>

definition update_thr :: "fl \<Rightarrow> u32 \<Rightarrow> fl" where
  "update_thr thr b =
     (let a = f32 (1 / 100) in
      fl_add binary32 (mul32 (fl_sub binary32 (fl_of_int binary32 1) a) thr)
        (mul32 a (fl_of_int binary32 (uint b))))"

definition coeff_of :: "u32 \<Rightarrow> fl \<Rightarrow> fl" where
  "coeff_of tbs thr = fl_div binary32 (fl_of_int binary32 (uint tbs)) thr"

text \<open>The chain of multipliers; a throttled UE gets 0.\<close>

definition final_coeff :: "fl \<Rightarrow> fl \<Rightarrow> bool \<Rightarrow> fl \<Rightarrow> bool \<Rightarrow> fl \<Rightarrow> fl" where
  "final_coeff coeff_ue slice_mul small_burst_hit small_burst_mul throttled sched_mul =
     (let coeff_after_slice = mul32 coeff_ue slice_mul;
          coeff_after_burst = mul32 coeff_after_slice (if small_burst_hit then small_burst_mul else f32 1)
      in if throttled then f32 0 else mul32 coeff_after_burst sched_mul)"

definition small_burst_hit :: "int \<Rightarrow> int \<Rightarrow> bool" where
  "small_burst_hit limit bytes \<longleftrightarrow> 0 < limit \<and> 0 < bytes \<and> bytes \<le> limit"

section \<open>Order\<close>

record dl_UEsched_t =
  coef :: fl
  us_UE :: nat

record ul_UEsched_t = dl_UEsched_t +
  sched_inactive :: bool
  selected_mcs :: int

definition dl_comparator :: "'a dl_UEsched_t_scheme \<Rightarrow> 'a dl_UEsched_t_scheme \<Rightarrow> int" where
  "dl_comparator p q = (if fl_lt (coef p) (coef q) then 1 else if fl_lt (coef q) (coef p) then -1 else 0)"

definition ul_comparator :: "ul_UEsched_t \<Rightarrow> ul_UEsched_t \<Rightarrow> int" where
  "ul_comparator p q =
     (if sched_inactive p \<and> sched_inactive q then 0
      else if sched_inactive p then -1
      else if sched_inactive q then 1
      else if fl_lt (coef p) (coef q) then 1
      else if fl_lt (coef q) (coef p) then -1 else 0)"

text \<open>What the C standard demands of a comparator, and what it then promises.\<close>

definition consistent :: "('a \<Rightarrow> 'a \<Rightarrow> int) \<Rightarrow> 'a set \<Rightarrow> bool" where
  "consistent cmp A \<longleftrightarrow>
     (\<forall>x \<in> A. \<forall>y \<in> A. (0 < cmp x y) = (cmp y x < 0)) \<and>
     (\<forall>x \<in> A. \<forall>y \<in> A. \<forall>z \<in> A. cmp x y \<le> 0 \<and> cmp y z \<le> 0 \<longrightarrow> cmp x z \<le> 0)"

definition qsort_law :: "(('a \<Rightarrow> 'a \<Rightarrow> int) \<Rightarrow> 'a list \<Rightarrow> 'a list) \<Rightarrow> bool" where
  "qsort_law qs \<longleftrightarrow>
     (\<forall>cmp xs. consistent cmp (set xs) \<longrightarrow>
        mset (qs cmp xs) = mset xs \<and> sorted_wrt (\<lambda>x y. cmp x y \<le> 0) (qs cmp xs))"

section \<open>Facts\<close>

lemma dl_consistent: "\<forall>u \<in> A. coef u \<noteq> FNaN \<Longrightarrow> consistent dl_comparator A"
  unfolding consistent_def dl_comparator_def
  by (auto dest: fl_lt_asym split: if_splits) (metis fl_lt_negtrans)+

lemma ul_consistent: "\<forall>u \<in> A. sched_inactive u \<or> coef u \<noteq> FNaN \<Longrightarrow> consistent ul_comparator A"
  unfolding consistent_def ul_comparator_def
  by (auto dest: fl_lt_asym split: if_splits) (metis fl_lt_negtrans)+

lemma final_coeff_throttled [simp]: "final_coeff c s h b True m = FFin False 0"
  by (simp add: final_coeff_def fl_of_rat_def fl_round_def rnd_mag_def Let_def not_le)

lemma fl_mul_mono2:
  assumes "fl_ge0 x" and "fl_pos v" "fl_pos w" "w \<noteq> FInf False" and "fl_le v w" and p: "1 \<le> f_prec F"
  shows "fl_le (fl_mul F x v) (fl_mul F x w)"
proof (cases x)
  case (FFin s a)
  obtain m n where "v = FFin False m" "w = FFin False n" "0 < m" "0 < n" "m \<le> n"
    using assms by (cases v; cases w) (auto simp: fl_le_def signed_def)
  then show ?thesis using FFin assms(1) fl_round_mono [OF mult_left_mono p, of m n a] by simp
next
  case (FInf s)
  then show ?thesis using assms by (cases v; cases w) (auto simp: fl_le_def)
next
  case FNaN
  then show ?thesis using assms(1) by simp
qed

definition usable_mul :: "fl \<Rightarrow> bool" where
  "usable_mul c \<longleftrightarrow> fl_pos c \<and> c \<noteq> FInf False"

lemma binary32_prec [simp]: "Suc 0 \<le> f_prec binary32"
  by (simp add: binary32_def)

lemma one_usable: "usable_mul (f32 1)"
proof -
  have "fl_of_int binary32 1 = FFin False 1" by (subst fl_of_int_small) (simp_all add: binary32_def)
  then show ?thesis by (simp add: usable_mul_def fl_of_int_def)
qed

lemma mul_ge0: "fl_ge0 x \<Longrightarrow> usable_mul c \<Longrightarrow> fl_ge0 (mul32 x c)"
  by (simp add: usable_mul_def fl_mul_ge0)

lemma mul_mono:
  assumes "fl_ge0 x" "fl_ge0 y" "usable_mul v" "usable_mul w" "fl_le x y" "fl_le v w"
  shows "fl_le (mul32 x v) (mul32 y w)"
proof -
  have "fl_le (mul32 x v) (mul32 y v)" using assms by (intro fl_mul_mono) (auto simp: usable_mul_def)
  moreover have "fl_le (mul32 y v) (mul32 y w)" using assms by (intro fl_mul_mono2) (auto simp: usable_mul_def)
  ultimately show ?thesis by (rule fl_le_trans)
qed

lemma final_coeff_ge0:
  assumes "fl_ge0 c" "usable_mul s" "usable_mul b" "usable_mul m"
  shows "fl_ge0 (final_coeff c s h b t m)"
proof (cases t)
  case True
  then show ?thesis by simp
next
  case False
  then show ?thesis using assms one_usable by (simp add: final_coeff_def mul_ge0)
qed

lemma policy_usable: "policy_sane p \<Longrightarrow> usable_mul (ul_weight_mul p) \<and> usable_mul (dl_weight_mul p)"
  by (simp add: policy_sane_def usable_mul_def)

section \<open>A sorting function that satisfies the law\<close>

fun insert_by :: "('a \<Rightarrow> 'a \<Rightarrow> int) \<Rightarrow> 'a \<Rightarrow> 'a list \<Rightarrow> 'a list" where
  "insert_by cmp x [] = [x]"
| "insert_by cmp x (y # ys) = (if cmp x y \<le> 0 then x # y # ys else y # insert_by cmp x ys)"

fun isort_by :: "('a \<Rightarrow> 'a \<Rightarrow> int) \<Rightarrow> 'a list \<Rightarrow> 'a list" where
  "isort_by cmp [] = []"
| "isort_by cmp (x # xs) = insert_by cmp x (isort_by cmp xs)"

lemma mset_insert_by [simp]: "mset (insert_by cmp x ys) = add_mset x (mset ys)"
  by (induction ys) auto

lemma mset_isort_by [simp]: "mset (isort_by cmp xs) = mset xs"
  by (induction xs) auto

lemma insert_by_sorted:
  assumes "consistent cmp A" and "set ys \<subseteq> A" "x \<in> A" and "sorted_wrt (\<lambda>x y. cmp x y \<le> 0) ys"
  shows "sorted_wrt (\<lambda>x y. cmp x y \<le> 0) (insert_by cmp x ys)"
  using assms(2,4)
proof (induction ys)
  case Nil
  then show ?case by simp
next
  case (Cons y ys)
  have set: "set (insert_by cmp x ys) = insert x (set ys)"
    by (metis mset_insert_by set_mset_mset set_mset_add_mset_insert)
  show ?case
  proof (cases "cmp x y \<le> 0")
    case True
    have "cmp x z \<le> 0" if "z \<in> set ys" for z
    proof -
      have "cmp y z \<le> 0" and "y \<in> A" "z \<in> A" using Cons.prems that by auto
      then show ?thesis using assms(1,3) True unfolding consistent_def by blast
    qed
    then show ?thesis using True Cons.prems by simp
  next
    case False
    moreover have "y \<in> A" using Cons.prems by simp
    ultimately have "cmp y x < 0" using assms(1,3) unfolding consistent_def by (meson not_le)
    then show ?thesis using False Cons set by auto
  qed
qed

lemma isort_law: "qsort_law isort_by"
  unfolding qsort_law_def
proof (intro allI impI conjI)
  fix cmp :: "'a \<Rightarrow> 'a \<Rightarrow> int" and xs
  assume c: "consistent cmp (set xs)"
  have "sorted_wrt (\<lambda>x y. cmp x y \<le> 0) (isort_by cmp ys)" if "set ys \<subseteq> set xs" for ys
    using that
  proof (induction ys)
    case (Cons y ys)
    have "set (isort_by cmp ys) = set ys" by (metis mset_isort_by set_mset_mset)
    then show ?case using Cons insert_by_sorted [OF c, of "isort_by cmp ys" y] by simp
  qed simp
  then show "sorted_wrt (\<lambda>x y. cmp x y \<le> 0) (isort_by cmp xs)" by simp
qed simp

section \<open>Properties\<close>

text \<open>
  C26. Order of the uplink candidates. When no coefficient is NaN, the sorted list is a permutation in
  which UEs scheduled for inactivity come first and the others follow with coefficients that never
  increase; in particular a throttled UE, whose coefficient is 0, comes after every active UE with
  a positive one.
\<close>

theorem ul_order:
  assumes "qsort_law qs" and "\<forall>u \<in> set us. sched_inactive u \<or> coef u \<noteq> FNaN"
  shows "mset (qs ul_comparator us) = mset us \<and>
    (\<forall>i j. i < j \<and> j < length us \<longrightarrow>
      (let a = qs ul_comparator us ! i; b = qs ul_comparator us ! j in
        (sched_inactive b \<longrightarrow> sched_inactive a) \<and>
        (\<not> sched_inactive a \<longrightarrow> \<not> fl_lt (coef a) (coef b)) \<and>
        (coef a = FFin False 0 \<and> \<not> sched_inactive a \<longrightarrow> \<not> fl_pos (coef b))))"
proof -
  have s: "mset (qs ul_comparator us) = mset us" "sorted_wrt (\<lambda>x y. ul_comparator x y \<le> 0) (qs ul_comparator us)"
    using assms(1) ul_consistent [OF assms(2)] by (simp_all add: qsort_law_def)
  have len: "length (qs ul_comparator us) = length us" using s(1) by (metis size_mset)
  have "(sched_inactive b \<longrightarrow> sched_inactive a) \<and> (\<not> sched_inactive a \<longrightarrow> \<not> fl_lt (coef a) (coef b)) \<and>
      (coef a = FFin False 0 \<and> \<not> sched_inactive a \<longrightarrow> \<not> fl_pos (coef b))"
    if "i < j" "j < length us" "a = qs ul_comparator us ! i" "b = qs ul_comparator us ! j" for i j a b
  proof -
    have c: "ul_comparator a b \<le> 0" using sorted_wrt_nth_less [OF s(2), of i j] that len by simp
    then have lt: "\<not> sched_inactive a \<longrightarrow> \<not> sched_inactive b \<and> \<not> fl_lt (coef a) (coef b)"
      by (auto simp: ul_comparator_def split: if_splits)
    moreover have "fl_pos (coef b) \<Longrightarrow> fl_lt (FFin False 0) (coef b)"
      using fl_pos_gt_zero by (simp add: fl_zero_def)
    ultimately show ?thesis by auto
  qed
  with s(1) show ?thesis unfolding Let_def by blast
qed

theorem ul_order_witness:
  "isort_by ul_comparator
     [\<lparr>coef = FFin False 0, us_UE = 0, sched_inactive = False, selected_mcs = 1\<rparr>,
      \<lparr>coef = FFin False 3, us_UE = 1, sched_inactive = False, selected_mcs = 1\<rparr>,
      \<lparr>coef = FNaN, us_UE = 2, sched_inactive = True, selected_mcs = 1\<rparr>] ! 2 =
     \<lparr>coef = FFin False 0, us_UE = 0, sched_inactive = False, selected_mcs = 1\<rparr> \<and>
   sched_inactive (isort_by ul_comparator
     [\<lparr>coef = FNaN, us_UE = 2, sched_inactive = True, selected_mcs = 1\<rparr>] ! 0)"
  using ul_order [OF isort_law, of "[\<lparr>coef = FNaN, us_UE = 2, sched_inactive = True, selected_mcs = 1\<rparr>]"]
  by (simp add: ul_comparator_def signed_def)

text \<open>
  A NaN coefficient breaks the contract of \<^verbatim>\<open>qsort\<close>: for UEs with data, both comparators are
  consistent exactly when no coefficient is NaN or all coefficients compare equal.  One NaN between
  two different coefficients leaves the order of the whole list undefined.
\<close>

lemma comparator_contract:
  assumes "\<forall>u \<in> A. \<not> sched_inactive u"
  shows "consistent ul_comparator A =
      ((\<forall>v \<in> A. coef v \<noteq> FNaN) \<or> (\<forall>u \<in> A. \<forall>w \<in> A. \<not> fl_lt (coef u) (coef w))) \<and>
    consistent dl_comparator A =
      ((\<forall>v \<in> A. coef v \<noteq> FNaN) \<or> (\<forall>u \<in> A. \<forall>w \<in> A. \<not> fl_lt (coef u) (coef w)))"
proof -
  have same: "ul_comparator u w = dl_comparator u w" if "u \<in> A" "w \<in> A" for u w
    using assms that by (simp add: ul_comparator_def dl_comparator_def)
  then have "consistent ul_comparator A = consistent dl_comparator A" by (simp add: consistent_def)
  moreover have "consistent dl_comparator A"
    if "(\<forall>v \<in> A. coef v \<noteq> FNaN) \<or> (\<forall>u \<in> A. \<forall>w \<in> A. \<not> fl_lt (coef u) (coef w))"
    using that
  proof
    assume "\<forall>u \<in> A. \<forall>w \<in> A. \<not> fl_lt (coef u) (coef w)"
    then have "\<forall>u \<in> A. \<forall>w \<in> A. dl_comparator u w = 0" by (simp add: dl_comparator_def)
    then show ?thesis by (simp add: consistent_def)
  qed (rule dl_consistent)
  moreover have "\<not> consistent dl_comparator A"
    if "u \<in> A" "v \<in> A" "w \<in> A" "coef v = FNaN" "fl_lt (coef u) (coef w)" for u v w
  proof -
    have nan: "\<not> fl_lt FNaN x" "\<not> fl_lt x FNaN" for x by (cases x; simp)+
    have "dl_comparator u v \<le> 0 \<and> dl_comparator v w \<le> 0 \<and> \<not> dl_comparator u w \<le> 0"
      using that nan by (simp add: dl_comparator_def)
    then show ?thesis using that unfolding consistent_def by blast
  qed
  ultimately show ?thesis by blast
qed

text \<open>
  The multipliers act as priorities: raising the slice weight, the burst multiplier or the UE's
  own multiplier never lowers a coefficient, a coefficient is never negative or NaN, and throttling
  gives the smallest value.
\<close>

lemma multipliers_monotone:
  assumes "fl_ge0 c" "fl_ge0 c'" "fl_le c c'"
    and "usable_mul s" "usable_mul s'" "fl_le s s'"
    and "usable_mul b" "usable_mul b'" "fl_le b b'"
    and "usable_mul m" "usable_mul m'" "fl_le m m'"
  shows "fl_le (final_coeff c s h b False m) (final_coeff c' s' h b' False m') \<and>
    fl_ge0 (final_coeff c s h b t m) \<and>
    fl_le (final_coeff c s h b True m) (final_coeff c' s' h b' t m')"
proof -
  have one: "fl_le (f32 1) (f32 1)" using one_usable by (auto simp: usable_mul_def fl_le_def)
  have "fl_le (final_coeff c s h b False m) (final_coeff c' s' h b' False m')"
    using assms one one_usable by (cases h) (simp_all add: final_coeff_def mul_mono mul_ge0)
  moreover have "fl_le (final_coeff c s h b True m) (final_coeff c' s' h b' t m')"
    using fl_zero_le [OF final_coeff_ge0 [of c' s' b' m' h t]] assms by (simp add: fl_zero_def)
  ultimately show ?thesis using final_coeff_ge0 [of c s b m h t] assms by simp
qed

end
