(* ===== verification/PowerLimit.thy ===== *)
theory PowerLimit imports BinaryFloat begin

text \<open>
  Uplink power headroom in \<^verbatim>\<open>gnb_patch/gNB_scheduler_ulsch.c\<close>: the normalised transmit power of an
  allocation (\<^verbatim>\<open>compute_ph_factor\<close>), code rate and modulation order of an MCS
  (\<^verbatim>\<open>update_ul_ue_R_Qm\<close>), and the reduction of resource blocks and MCS until the reported
  headroom suffices (\<^verbatim>\<open>nr_ue_max_mcs_min_rb\<close>).
  What other files and libm provide is the record \<open>phy_lib\<close>: the transport block size, the MCS
  tables, \<^verbatim>\<open>pow(2, x)\<close> and \<^verbatim>\<open>log10\<close> on doubles, and the number of subcarriers of a block.
\<close>

section \<open>What the code calls\<close>

record phy_lib =
  nr_compute_tbs :: "int \<Rightarrow> int \<Rightarrow> int \<Rightarrow> int \<Rightarrow> int \<Rightarrow> int \<Rightarrow> int"
  nr_get_code_rate_ul :: "int \<Rightarrow> int \<Rightarrow> u16"
  nr_get_Qm_ul :: "int \<Rightarrow> int \<Rightarrow> u8"
  pow2 :: "fl \<Rightarrow> fl"
  log10 :: "fl \<Rightarrow> fl"
  NR_NB_SC_PER_RB :: int

text \<open>
  The arguments of \<open>nr_compute_tbs\<close> are the modulation order, the code rate, the resource blocks,
  the symbols, the DMRS resource elements and the layers; the two that are always 0 are left out.
  Of \<^verbatim>\<open>NR_PUSCH_Config_t\<close> the code reads whether pi/2-BPSK and deltaMCS are configured.
\<close>

record NR_PUSCH_Config_t =
  tp_pi2BPSK :: bool
  has_deltaMCS :: bool

record ph_alloc =
  ph_mu :: nat
  ph_symbols :: int
  ph_dmrs :: int
  ph_layers :: int
  ph_mcs_table :: int
  ph_pusch_Config :: "NR_PUSCH_Config_t option"

section \<open>The normalised power\<close>

text \<open>\<open>(int) roundf(x)\<close>; a value that does not fit gives the smallest \<open>int\<close>, as on x86.\<close>

definition round_away :: "rat \<Rightarrow> int" where
  "round_away q = (if q < 0 then - \<lfloor>- q + 1 / 2\<rfloor> else \<lfloor>q + 1 / 2\<rfloor>)"

lemma round_away_numeral [simp]: "round_away (numeral k) = numeral k"
  unfolding round_away_def by (simp add: floor_eq_iff)

definition int_of_roundf :: "fl \<Rightarrow> int" where
  "int_of_roundf x =
     (case x of
        FFin s m \<Rightarrow> let i = round_away (signed s m) in if i32_range i then i else - (2 ^ 31)
      | _ \<Rightarrow> - (2 ^ 31))"

definition compute_ph_factor ::
    "phy_lib \<Rightarrow> nat \<Rightarrow> int \<Rightarrow> int \<Rightarrow> int \<Rightarrow> int \<Rightarrow> int \<Rightarrow> bool \<Rightarrow> bool \<Rightarrow> int" where
  "compute_ph_factor L mu tbs_bits rb n_layers n_symbols n_dmrs deltaMCS include_bw =
     (let delta_tf =
            (if deltaMCS \<and> n_layers = 1
             then let n_re = (NR_NB_SC_PER_RB L * n_symbols - n_dmrs) * rb;
                      BPRE = fl_div binary32 (fl_of_int binary32 tbs_bits) (fl_of_int binary32 n_re);
                      f = fl_convert binary32 (pow2 L (fl_mul binary64 BPRE (FFin False (5 / 4))));
                      beta = f32 1
                  in fl_convert binary32 (fl_mul binary64 (FFin False 10)
                       (log10 L (fl_mul binary32 (fl_sub binary32 f (f32 1)) beta)))
             else fl_zero);
          bw_factor =
            (if include_bw
             then fl_convert binary32 (fl_mul binary64 (FFin False 10)
                    (log10 L (fl_of_int binary64 (rb * 2 ^ mu))))
             else fl_zero)
      in int_of_roundf (fl_add binary32 delta_tf bw_factor))"

definition update_ul_ue_R_Qm ::
    "phy_lib \<Rightarrow> int \<Rightarrow> int \<Rightarrow> NR_PUSCH_Config_t option \<Rightarrow> u16 \<times> u8" where
  "update_ul_ue_R_Qm L mcs mcs_table pusch_Config =
     (let R = nr_get_code_rate_ul L mcs mcs_table;
          Qm = nr_get_Qm_ul L mcs mcs_table
      in if (case pusch_Config of None \<Rightarrow> False | Some c \<Rightarrow> tp_pi2BPSK c) \<and>
            ((mcs_table = 3 \<and> mcs < 2) \<or> (mcs_table = 4 \<and> mcs < 6))
         then (drop_bit 1 R, push_bit 1 Qm) else (R, Qm))"

section \<open>Fewer blocks, then a lower MCS\<close>

datatype ph_error = IllegalRb | IllegalMcs

definition tx_power :: "phy_lib \<Rightarrow> ph_alloc \<Rightarrow> int \<Rightarrow> int \<Rightarrow> int" where
  "tx_power L a Rb mcs =
     (let (R, Qm) = update_ul_ue_R_Qm L mcs (ph_mcs_table a) (ph_pusch_Config a);
          tbs_bits = nr_compute_tbs L (uint Qm) (uint R) Rb (ph_symbols a) (ph_dmrs a) (ph_layers a)
      in compute_ph_factor L (ph_mu a) tbs_bits Rb (ph_layers a) (ph_symbols a) (ph_dmrs a)
           (case ph_pusch_Config a of None \<Rightarrow> False | Some c \<Rightarrow> has_deltaMCS c) True)"

function lower_rb :: "(int \<Rightarrow> int) \<Rightarrow> int \<Rightarrow> int \<Rightarrow> int \<Rightarrow> int" where
  "lower_rb pw ph_limit minRb Rb =
     (if ph_limit < pw Rb \<and> minRb < Rb then lower_rb pw ph_limit minRb (Rb - 1) else Rb)"
  by pat_completeness auto
termination by (relation "measure (\<lambda>(p, l, m, r). nat (r - m))") auto

declare lower_rb.simps [simp del]

text \<open>The second loop is the same loop over the MCS, down to 0.\<close>

definition nr_ue_max_mcs_min_rb ::
    "phy_lib \<Rightarrow> ph_alloc \<Rightarrow> int \<Rightarrow> int \<Rightarrow> int \<Rightarrow> int \<Rightarrow> ph_error + (int \<times> int)" where
  "nr_ue_max_mcs_min_rb L a ph_limit minRb Rb mcs =
     (if \<not> minRb \<le> Rb then Inl IllegalRb
      else if \<not> (0 \<le> mcs \<and> mcs \<le> 28) then Inl IllegalMcs
      else let Rb' = lower_rb (\<lambda>r. tx_power L a r mcs) ph_limit minRb Rb;
               mcs' = lower_rb (\<lambda>m. tx_power L a Rb' m) ph_limit 0 mcs
           in Inr (Rb', mcs'))"

lemma lower_rb_spec:
  assumes "m \<le> r"
  shows "m \<le> lower_rb p l m r \<and> lower_rb p l m r \<le> r \<and>
    (p (lower_rb p l m r) \<le> l \<or> lower_rb p l m r = m) \<and>
    (\<forall>x. lower_rb p l m r < x \<and> x \<le> r \<longrightarrow> l < p x)"
  using assms
proof (induction p l m r rule: lower_rb.induct)
  case (1 p l m r)
  show ?case
  proof (cases "l < p r \<and> m < r")
    case True
    then have eq: "lower_rb p l m r = lower_rb p l m (r - 1)" by (subst lower_rb.simps) simp
    have IH: "m \<le> lower_rb p l m (r - 1) \<and> lower_rb p l m (r - 1) \<le> r - 1 \<and>
        (p (lower_rb p l m (r - 1)) \<le> l \<or> lower_rb p l m (r - 1) = m) \<and>
        (\<forall>x. lower_rb p l m (r - 1) < x \<and> x \<le> r - 1 \<longrightarrow> l < p x)"
      using "1.IH" True by simp
    have "l < p x" if "lower_rb p l m (r - 1) < x" "x \<le> r" for x
      using IH that True by (cases "x = r") auto
    with IH show ?thesis unfolding eq by auto
  next
    case False
    have "lower_rb p l m r = (if l < p r \<and> m < r then lower_rb p l m (r - 1) else r)"
      by (rule lower_rb.simps)
    also have "\<dots> = r" using False by (rule if_not_P)
    finally have "lower_rb p l m r = r" .
    then show ?thesis using "1.prems" False by auto
  qed
qed

lemma max_mcs_min_rb_range:
  assumes "nr_ue_max_mcs_min_rb L a ph_limit minRb Rb mcs = Inr (Rb', mcs')"
  shows "minRb \<le> Rb' \<and> Rb' \<le> Rb \<and> 0 \<le> mcs' \<and> mcs' \<le> mcs \<and> mcs \<le> 28"
  using assms lower_rb_spec [of minRb Rb] lower_rb_spec [of 0 mcs]
  by (auto simp: nr_ue_max_mcs_min_rb_def Let_def split: if_splits)

section \<open>Properties\<close>

text \<open>
  C21. The power limitation keeps as much of the allocation as the headroom allows, and always
  returns: the blocks stay between the minimum and the request, the MCS does not rise, either the
  power of the result is within the limit or nothing is left to reduce, every larger number of
  blocks at the requested MCS exceeds the limit, and the MCS is touched only at the minimum number
  of blocks, and then every higher MCS exceeds the limit.
\<close>

theorem max_mcs_min_rb_maximal:
  assumes "minRb \<le> Rb" and "0 \<le> mcs" and "mcs \<le> 28"
  shows "\<exists>Rb' mcs'. nr_ue_max_mcs_min_rb L a ph_limit minRb Rb mcs = Inr (Rb', mcs') \<and>
    minRb \<le> Rb' \<and> Rb' \<le> Rb \<and> 0 \<le> mcs' \<and> mcs' \<le> mcs \<and>
    (tx_power L a Rb' mcs' \<le> ph_limit \<or> Rb' = minRb \<and> mcs' = 0) \<and>
    (\<forall>r. Rb' < r \<and> r \<le> Rb \<longrightarrow> ph_limit < tx_power L a r mcs) \<and>
    (\<forall>m. mcs' < m \<and> m \<le> mcs \<longrightarrow> Rb' = minRb \<and> ph_limit < tx_power L a Rb' m)"
proof -
  define Rb' where "Rb' = lower_rb (\<lambda>r. tx_power L a r mcs) ph_limit minRb Rb"
  define mcs' where "mcs' = lower_rb (\<lambda>m. tx_power L a Rb' m) ph_limit 0 mcs"
  have r: "minRb \<le> Rb' \<and> Rb' \<le> Rb \<and> (tx_power L a Rb' mcs \<le> ph_limit \<or> Rb' = minRb) \<and>
      (\<forall>r. Rb' < r \<and> r \<le> Rb \<longrightarrow> ph_limit < tx_power L a r mcs)"
    unfolding Rb'_def using lower_rb_spec [OF assms(1), of "\<lambda>r. tx_power L a r mcs" ph_limit] by simp
  have m: "0 \<le> mcs' \<and> mcs' \<le> mcs \<and> (tx_power L a Rb' mcs' \<le> ph_limit \<or> mcs' = 0) \<and>
      (\<forall>m. mcs' < m \<and> m \<le> mcs \<longrightarrow> ph_limit < tx_power L a Rb' m)"
    unfolding mcs'_def using lower_rb_spec [OF assms(2), of "\<lambda>m. tx_power L a Rb' m" ph_limit] by simp
  have "Rb' = minRb" if "mcs' < mcs" using r m that by fastforce
  moreover have "Rb' = minRb" if "\<not> tx_power L a Rb' mcs' \<le> ph_limit"
    using r m that calculation by fastforce
  moreover have "nr_ue_max_mcs_min_rb L a ph_limit minRb Rb mcs = Inr (Rb', mcs')"
    using assms by (simp add: nr_ue_max_mcs_min_rb_def Rb'_def mcs'_def Let_def)
  ultimately show ?thesis using r m by (intro exI [of _ Rb'] exI [of _ mcs']) fastforce
qed

text \<open>A library whose transport block size and logarithm are simple enough to evaluate.\<close>

definition phy_example :: phy_lib where
  "phy_example = \<lparr>nr_compute_tbs = (\<lambda>Qm R rb sy dm ly. Qm * rb), nr_get_code_rate_ul = (\<lambda>m t. 100),
     nr_get_Qm_ul = (\<lambda>m t. 2), pow2 = (\<lambda>x. x), log10 = (\<lambda>x. x), NR_NB_SC_PER_RB = 12\<rparr>"

lemma phy_example_power:
  fixes a defines "a \<equiv> \<lparr>ph_mu = 1, ph_symbols = 14, ph_dmrs = 0, ph_layers = 2,
      ph_mcs_table = 0, ph_pusch_Config = None\<rparr>"
  shows "tx_power phy_example a 4 9 = 80" "tx_power phy_example a 5 9 = 100"
    "tx_power phy_example a 6 9 = 120"
  using fl_round_small(2) [of 80] fl_round_small(2) [of 100] fl_round_small(2) [of 120]
    fl_round_small(1) [of 80] fl_round_small(1) [of 100] fl_round_small(1) [of 120]
  by (simp_all add: a_def tx_power_def compute_ph_factor_def phy_example_def update_ul_ue_R_Qm_def
      fl_of_int_small fl_zero_def int_of_roundf_def signed_def i32_range_def Let_def)

theorem max_mcs_min_rb_maximal_witness:
  "nr_ue_max_mcs_min_rb phy_example \<lparr>ph_mu = 1, ph_symbols = 14, ph_dmrs = 0, ph_layers = 2,
      ph_mcs_table = 0, ph_pusch_Config = None\<rparr> 85 2 6 9 = Inr (4, 9)"
proof -
  define a where "a = \<lparr>ph_mu = 1, ph_symbols = 14, ph_dmrs = 0, ph_layers = 2,
      ph_mcs_table = 0, ph_pusch_Config = None\<rparr>"
  note p = phy_example_power [folded a_def]
  have "(2 :: int) \<le> 6" and "(0 :: int) \<le> 9" and "(9 :: int) \<le> 28" by simp_all
  from max_mcs_min_rb_maximal [OF this, of phy_example a 85]
  obtain r m where rm: "nr_ue_max_mcs_min_rb phy_example a 85 2 6 9 = Inr (r, m)" "r \<le> 6" "m \<le> 9"
      "tx_power phy_example a r m \<le> 85 \<or> r = 2 \<and> m = 0"
      "\<forall>x. r < x \<and> x \<le> 6 \<longrightarrow> 85 < tx_power phy_example a x 9"
      "\<forall>x. m < x \<and> x \<le> 9 \<longrightarrow> r = 2 \<and> 85 < tx_power phy_example a r x"
    by (elim exE conjE)
  have r4: "4 \<le> r" using spec [OF rm(5), of 4] p(1) by linarith
  have m: "m = 9" using spec [OF rm(6), of 9] rm(3) r4 by linarith
  have "r \<noteq> 5" and "r \<noteq> 6" using rm(4) p(2,3) m r4 by auto
  then have "r = 4" using rm(2) r4 by linarith
  then show ?thesis using rm(1) m by (simp add: a_def)
qed

end
