(* ===== verification/Harq.thy ===== *)
theory Harq imports UlTda begin

text \<open>
  HARQ processes of a UE, uplink and downlink: every process identifier is in one of three lists,
  available, waiting for feedback, or waiting for retransmission
  (\<^verbatim>\<open>gnb_patch/gNB_scheduler_ulsch.c\<close> and \<^verbatim>\<open>gNB_scheduler_dlsch.c\<close>).
  The list operations \<^verbatim>\<open>add_tail_nr_list\<close>, \<^verbatim>\<open>remove_front_nr_list\<close> and \<^verbatim>\<open>remove_nr_list\<close> belong to
  OpenAirInterface: they are the parameter \<open>nr_list_ops\<close>, and \<open>nr_list_laws\<close> states what the code
  relies on.
\<close>

section \<open>The lists\<close>

record 'q nr_list_ops =
  nl_head :: "'q \<Rightarrow> int"
  add_tail_nr_list :: "'q \<Rightarrow> int \<Rightarrow> 'q"
  remove_front_nr_list :: "'q \<Rightarrow> 'q"
  remove_nr_list :: "'q \<Rightarrow> int \<Rightarrow> 'q"

text \<open>The head of an empty list is -1; elements are removed from where they are.\<close>

definition nr_list_laws :: "'q nr_list_ops \<Rightarrow> ('q \<Rightarrow> int list) \<Rightarrow> bool" where
  "nr_list_laws N elems \<longleftrightarrow>
     (\<forall>q. nl_head N q = (case elems q of [] \<Rightarrow> -1 | x # _ \<Rightarrow> x)) \<and>
     (\<forall>q x. elems (add_tail_nr_list N q x) = elems q @ [x]) \<and>
     (\<forall>q. elems q \<noteq> [] \<longrightarrow> elems (remove_front_nr_list N q) = tl (elems q)) \<and>
     (\<forall>q x. x \<in> set (elems q) \<longrightarrow> elems (remove_nr_list N q x) = remove1 x (elems q))"

section \<open>Processes\<close>

record harq_proc =
  is_waiting :: bool
  ndi :: u8
  round :: int

record bwp_info_t =
  bwpStart :: int
  bwpSize :: int

record NR_pusch_dmrs_t =
  N_PRB_DMRS :: int
  num_dmrs_symb :: int
  num_dmrs_cdm_grps_no_data :: int
  ul_dmrs_symb_pos :: int
  dmrs_config_type :: int
  dmrs_scid :: int
  pusch_identity :: int
  dmrs_scrambling_id :: int
  low_papr_sequence_number :: int
  has_ptrsConfig :: bool

record NR_sched_pusch_t =
  sp_frame :: int
  sp_slot :: int
  sp_rbSize :: int
  sp_rbStart :: int
  sp_mcs :: int
  sp_R :: u16
  sp_Qm :: u8
  sp_tb_size :: int
  ul_harq_pid :: int
  sp_nrOfLayers :: int
  tpmi :: int
  time_domain_allocation :: int
  tda_info :: NR_tda_info_t
  dmrs_info :: NR_pusch_dmrs_t
  bwp_info :: bwp_info_t
  phr_txpower_calc :: int

record NR_UE_ul_harq_t = harq_proc +
  ul_feedback_slot :: int
  sched_pusch :: NR_sched_pusch_t

record NR_pdsch_dmrs_t =
  pd_N_PRB_DMRS :: int
  pd_N_DMRS_SLOT :: int
  pd_dl_dmrs_symb_pos :: int
  pd_dmrsConfigType :: int
  pd_n_scid :: int
  pd_scrambling_id :: int
  pd_numDmrsCdmGrpsNoData :: int
  pd_phaseTrackingRS :: bool

record NR_sched_pdsch_t =
  pd_rbSize :: int
  pd_rbStart :: int
  pd_mcs :: int
  pd_R :: u16
  pd_Qm :: u8
  pd_tb_size :: int
  dl_harq_pid :: int
  pd_pucch_allocation :: int
  pd_pm_index :: int
  pd_nrOfLayers :: int
  pd_time_domain_allocation :: int
  pd_tda_info :: NR_tda_info_t
  pd_dmrs_parms :: NR_pdsch_dmrs_t
  pd_bwp_info :: bwp_info_t

record NR_UE_harq_t = harq_proc +
  feedback_frame :: int
  feedback_slot :: int
  sched_pdsch :: NR_sched_pdsch_t
  transportBlock :: "u8 list"

text \<open>The three lists and the process table of one direction of \<^verbatim>\<open>NR_UE_sched_ctrl_t\<close>.\<close>

record ('q, 'p) harq_ctrl =
  available_harq :: 'q
  feedback_harq :: 'q
  retrans_harq :: 'q
  harq_processes :: "int \<Rightarrow> 'p"

text \<open>The uplink counters that the HARQ functions change, with the error count of the statistics.\<close>

record 'q ul_sched_ctrl = "('q, NR_UE_ul_harq_t) harq_ctrl" +
  sched_ul_bytes :: int
  ul_errors :: int

record 'q dl_sched_ctrl = "('q, NR_UE_harq_t) harq_ctrl" +
  dl_errors :: int

section \<open>Finishing and aborting\<close>

definition finish_nr_ul_harq :: "'q nr_list_ops \<Rightarrow> 'q ul_sched_ctrl \<Rightarrow> int \<Rightarrow> 'q ul_sched_ctrl" where
  "finish_nr_ul_harq N c harq_pid =
     c\<lparr>harq_processes := (harq_processes c)(harq_pid :=
          (harq_processes c harq_pid)\<lparr>ndi := ndi (harq_processes c harq_pid) XOR 1, round := 0\<rparr>),
       available_harq := add_tail_nr_list N (available_harq c) harq_pid\<rparr>"

definition finish_nr_dl_harq :: "'q nr_list_ops \<Rightarrow> 'q dl_sched_ctrl \<Rightarrow> int \<Rightarrow> 'q dl_sched_ctrl" where
  "finish_nr_dl_harq N c harq_pid =
     c\<lparr>harq_processes := (harq_processes c)(harq_pid :=
          (harq_processes c harq_pid)\<lparr>ndi := ndi (harq_processes c harq_pid) XOR 1, round := 0\<rparr>),
       available_harq := add_tail_nr_list N (available_harq c) harq_pid\<rparr>"

definition abort_nr_ul_harq :: "'q nr_list_ops \<Rightarrow> 'q ul_sched_ctrl \<Rightarrow> int \<Rightarrow> 'q ul_sched_ctrl" where
  "abort_nr_ul_harq N c harq_pid =
     (let c = finish_nr_ul_harq N c harq_pid;
          c = c\<lparr>ul_errors := ul_errors c + 1\<rparr>;
          c = c\<lparr>sched_ul_bytes := sched_ul_bytes c - sp_tb_size (sched_pusch (harq_processes c harq_pid))\<rparr>
      in if sched_ul_bytes c < 0 then c\<lparr>sched_ul_bytes := 0\<rparr> else c)"

definition abort_nr_dl_harq :: "'q nr_list_ops \<Rightarrow> 'q dl_sched_ctrl \<Rightarrow> int \<Rightarrow> 'q dl_sched_ctrl" where
  "abort_nr_dl_harq N c harq_pid =
     (let c = finish_nr_dl_harq N c harq_pid in c\<lparr>dl_errors := dl_errors c + 1\<rparr>)"

section \<open>Uplink feedback\<close>

datatype harq_error = AssertHarqPid | AssertIsWaiting | NoFreeHarq | AssertNotWaiting | RoundOutOfBounds

text \<open>
  The body of the loop that skips processes without feedback: the head process counts as failed.
\<close>

definition ul_harq_skip_one :: "'q nr_list_ops \<Rightarrow> int \<Rightarrow> 'q ul_sched_ctrl \<Rightarrow> int \<Rightarrow> 'q ul_sched_ctrl" where
  "ul_harq_skip_one N harq_round_max c harq_pid =
     (let c = c\<lparr>feedback_harq := remove_front_nr_list N (feedback_harq c),
               harq_processes := (harq_processes c)(harq_pid :=
                 (harq_processes c harq_pid)\<lparr>is_waiting := False\<rparr>)\<rparr>
      in if harq_round_max - 1 \<le> round (harq_processes c harq_pid) then abort_nr_ul_harq N c harq_pid
         else c\<lparr>harq_processes := (harq_processes c)(harq_pid :=
                   (harq_processes c harq_pid)\<lparr>round := round (harq_processes c harq_pid) + 1\<rparr>),
                 retrans_harq := add_tail_nr_list N (retrans_harq c) harq_pid\<rparr>)"

text \<open>
  The loop: it stops at the process the feedback is for, or with a negative identifier when the
  list is empty.  Whether it stops depends on the list operations.
\<close>

partial_function (option) ul_harq_skip ::
    "'q nr_list_ops \<Rightarrow> int \<Rightarrow> int \<Rightarrow> 'q ul_sched_ctrl \<Rightarrow> (int \<times> 'q ul_sched_ctrl) option" where
  "ul_harq_skip N harq_round_max crc_harq_id c =
     (let harq_pid = to_i8 (nl_head N (feedback_harq c)) in
      if crc_harq_id \<noteq> harq_pid \<or> harq_pid < 0
      then if harq_pid < 0 then Some (harq_pid, c)
           else ul_harq_skip N harq_round_max crc_harq_id (ul_harq_skip_one N harq_round_max c harq_pid)
      else Some (harq_pid, c))"

definition ul_harq_feedback ::
    "'q nr_list_ops \<Rightarrow> int \<Rightarrow> 'q ul_sched_ctrl \<Rightarrow> int \<Rightarrow> bool \<Rightarrow> harq_error + 'q ul_sched_ctrl" where
  "ul_harq_feedback N harq_round_max c harq_pid crc_status =
     (let c = c\<lparr>feedback_harq := remove_front_nr_list N (feedback_harq c)\<rparr>;
          harq = harq_processes c harq_pid
      in if \<not> is_waiting harq then Inl AssertIsWaiting
         else
           let c = c\<lparr>harq_processes := (harq_processes c)(harq_pid :=
                       harq\<lparr>ul_feedback_slot := -1, is_waiting := False\<rparr>)\<rparr>
           in if \<not> crc_status then Inr (finish_nr_ul_harq N c harq_pid)
              else if harq_round_max - 1 \<le> round harq then Inr (abort_nr_ul_harq N c harq_pid)
              else Inr (c\<lparr>harq_processes := (harq_processes c)(harq_pid :=
                       (harq_processes c harq_pid)\<lparr>round := round harq + 1\<rparr>),
                     retrans_harq := add_tail_nr_list N (retrans_harq c) harq_pid\<rparr>))"

definition handle_nr_ul_harq ::
    "'q nr_list_ops \<Rightarrow> bool \<Rightarrow> int \<Rightarrow> 'q ul_sched_ctrl \<Rightarrow> int \<Rightarrow> bool \<Rightarrow> (harq_error + 'q ul_sched_ctrl) option"
where
  "handle_nr_ul_harq N disable_harq harq_round_max c crc_harq_id crc_status =
     (if disable_harq then Some (Inr c)
      else case ul_harq_skip N harq_round_max crc_harq_id c of
             None \<Rightarrow> None
           | Some (harq_pid, c) \<Rightarrow>
               if harq_pid < 0 then Some (Inr c)
               else Some (ul_harq_feedback N harq_round_max c harq_pid crc_status))"

section \<open>Granting a process\<close>

text \<open>
  The HARQ part of \<^verbatim>\<open>post_process_ulsch\<close>: a negative identifier asks for the first free process; a
  given one is taken from the list its round says it is in.
\<close>

definition ul_harq_grant ::
    "'q nr_list_ops \<Rightarrow> bool \<Rightarrow> int \<Rightarrow> 'q ul_sched_ctrl \<Rightarrow> NR_sched_pusch_t \<Rightarrow>
     harq_error + ('q ul_sched_ctrl \<times> NR_sched_pusch_t)" where
  "ul_harq_grant N disable_harq harq_round_max c sched =
     (let harq_id = to_i8 (ul_harq_pid sched);
          free = to_i8 (nl_head N (available_harq c))
      in if harq_id < 0 \<and> free < 0 then Inl NoFreeHarq
         else
           let (harq_id, c, sched) =
                 (if harq_id < 0
                  then (free, c\<lparr>available_harq := remove_front_nr_list N (available_harq c)\<rparr>,
                        sched\<lparr>ul_harq_pid := free\<rparr>)
                  else if round (harq_processes c harq_id) = 0
                  then (harq_id, c\<lparr>available_harq := remove_nr_list N (available_harq c) harq_id\<rparr>, sched)
                  else (harq_id, c\<lparr>retrans_harq := remove_nr_list N (retrans_harq c) harq_id\<rparr>, sched))
           in if is_waiting (harq_processes c harq_id) then Inl AssertNotWaiting
              else
                let c = (if disable_harq then finish_nr_ul_harq N c harq_id
                         else c\<lparr>feedback_harq := add_tail_nr_list N (feedback_harq c) harq_id,
                                harq_processes := (harq_processes c)(harq_id :=
                                  (harq_processes c harq_id)\<lparr>ul_feedback_slot := sp_slot sched,
                                     is_waiting := True\<rparr>)\<rparr>)
                in if \<not> round (harq_processes c harq_id) < harq_round_max then Inl RoundOutOfBounds
                   else if round (harq_processes c harq_id) = 0
                   then Inr (c\<lparr>harq_processes := (harq_processes c)(harq_id :=
                                 (harq_processes c harq_id)\<lparr>sched_pusch := sched\<rparr>),
                              sched_ul_bytes := sched_ul_bytes c + sp_tb_size sched\<rparr>, sched)
                   else Inr (c, sched))"

text \<open>
  The HARQ part of \<^verbatim>\<open>nr_schedule_ue_spec\<close>.  \<open>pucch\<close> is the frame and slot of the feedback, or
  \<open>None\<close> when no PUCCH is allocated; the result names the process.
\<close>

definition dl_harq_grant ::
    "'q nr_list_ops \<Rightarrow> 'q dl_sched_ctrl \<Rightarrow> int \<Rightarrow> (int \<times> int) option \<Rightarrow>
     harq_error + ('q dl_sched_ctrl \<times> int)" where
  "dl_harq_grant N c harq_pid pucch =
     (let pid = to_i8 harq_pid;
          free = to_i8 (nl_head N (available_harq c))
      in if pid < 0 \<and> free < 0 then Inl NoFreeHarq
         else
           let (pid, c) =
                 (if pid < 0
                  then (free, c\<lparr>available_harq := remove_front_nr_list N (available_harq c)\<rparr>)
                  else if round (harq_processes c pid) = 0
                  then (pid, c\<lparr>available_harq := remove_nr_list N (available_harq c) pid\<rparr>)
                  else (pid, c\<lparr>retrans_harq := remove_nr_list N (retrans_harq c) pid\<rparr>))
           in if is_waiting (harq_processes c pid) then Inl AssertNotWaiting
              else case pucch of
                     None \<Rightarrow> Inr (finish_nr_dl_harq N c pid, pid)
                   | Some (frame, ul_slot) \<Rightarrow>
                       Inr (c\<lparr>feedback_harq := add_tail_nr_list N (feedback_harq c) pid,
                              harq_processes := (harq_processes c)(pid :=
                                (harq_processes c pid)\<lparr>feedback_frame := frame,
                                   feedback_slot := ul_slot, is_waiting := True\<rparr>)\<rparr>, pid))"

section \<open>The partition invariant\<close>

text \<open>
  Every identifier below \<open>n\<close>, except those in \<open>out\<close>, is in exactly one list; only processes in the
  feedback list wait, a free process is in round 0, and one that is to be retransmitted is not.
\<close>

definition harq_inv ::
    "('q \<Rightarrow> int list) \<Rightarrow> int \<Rightarrow> int \<Rightarrow> int set \<Rightarrow> ('q, 'a harq_proc_scheme, 'm) harq_ctrl_scheme \<Rightarrow> bool"
where
  "harq_inv elems n rmax out c \<longleftrightarrow>
     (let A = elems (available_harq c); F = elems (feedback_harq c); R = elems (retrans_harq c);
          P = harq_processes c
      in distinct (A @ F @ R) \<and> set (A @ F @ R) = {0..<n} - out \<and>
         (\<forall>p \<in> set A. \<not> is_waiting (P p) \<and> round (P p) = 0) \<and>
         (\<forall>p \<in> set F. is_waiting (P p) \<and> 0 \<le> round (P p) \<and> round (P p) < rmax) \<and>
         (\<forall>p \<in> set R. \<not> is_waiting (P p) \<and> 0 < round (P p) \<and> round (P p) < rmax))"

definition finish_harq ::
    "'q nr_list_ops \<Rightarrow> ('q, 'a harq_proc_scheme, 'm) harq_ctrl_scheme \<Rightarrow> int \<Rightarrow> ('q, 'a harq_proc_scheme, 'm) harq_ctrl_scheme"
where
  "finish_harq N c p =
     c\<lparr>harq_processes := (harq_processes c)(p :=
          (harq_processes c p)\<lparr>ndi := ndi (harq_processes c p) XOR 1, round := 0\<rparr>),
       available_harq := add_tail_nr_list N (available_harq c) p\<rparr>"

lemma finish_nr_harq_eq: "finish_nr_ul_harq = finish_harq" "finish_nr_dl_harq = finish_harq"
  by (simp_all add: fun_eq_iff finish_nr_ul_harq_def finish_nr_dl_harq_def finish_harq_def)

lemma nr_list_lawsD:
  assumes "nr_list_laws N elems"
  shows "nl_head N q = (case elems q of [] \<Rightarrow> -1 | x # _ \<Rightarrow> x)"
    and "elems (add_tail_nr_list N q x) = elems q @ [x]"
    and "elems q \<noteq> [] \<Longrightarrow> elems (remove_front_nr_list N q) = tl (elems q)"
    and "x \<in> set (elems q) \<Longrightarrow> elems (remove_nr_list N q x) = remove1 x (elems q)"
  using assms by (simp_all add: nr_list_laws_def)

text \<open>Taking a process out of a list, changing it while it is out, and putting it back.\<close>

lemma harq_take_feedback:
  assumes laws: "nr_list_laws N elems" and inv: "harq_inv elems n rmax {} c"
    and head: "elems (feedback_harq c) = p # ps"
  shows "harq_inv elems n rmax {p} (c\<lparr>feedback_harq := remove_front_nr_list N (feedback_harq c)\<rparr>)"
proof -
  have "elems (remove_front_nr_list N (feedback_harq c)) = ps"
    using nr_list_lawsD(3) [OF laws, of "feedback_harq c"] head by simp
  with inv head show ?thesis by (auto simp: harq_inv_def Let_def)
qed

lemma harq_take_available:
  assumes laws: "nr_list_laws N elems" and inv: "harq_inv elems n rmax {} c"
    and p: "p \<in> set (elems (available_harq c))"
  shows "harq_inv elems n rmax {p} (c\<lparr>available_harq := remove_nr_list N (available_harq c) p\<rparr>)"
  using inv nr_list_lawsD(4) [OF laws p] p by (auto simp: harq_inv_def Let_def)

lemma harq_take_free:
  assumes laws: "nr_list_laws N elems" and inv: "harq_inv elems n rmax {} c"
    and head: "elems (available_harq c) = p # ps"
  shows "harq_inv elems n rmax {p} (c\<lparr>available_harq := remove_front_nr_list N (available_harq c)\<rparr>)"
proof -
  have "elems (remove_front_nr_list N (available_harq c)) = ps"
    using nr_list_lawsD(3) [OF laws, of "available_harq c"] head by simp
  with inv head show ?thesis by (auto simp: harq_inv_def Let_def)
qed

lemma harq_take_retrans:
  assumes laws: "nr_list_laws N elems" and inv: "harq_inv elems n rmax {} c"
    and p: "p \<in> set (elems (retrans_harq c))"
  shows "harq_inv elems n rmax {p} (c\<lparr>retrans_harq := remove_nr_list N (retrans_harq c) p\<rparr>)"
  using inv nr_list_lawsD(4) [OF laws p] p by (auto simp: harq_inv_def Let_def)

lemma harq_set_proc:
  "harq_inv elems n rmax {p} c \<Longrightarrow> harq_inv elems n rmax {p} (c\<lparr>harq_processes := (harq_processes c)(p := e)\<rparr>)"
  by (auto simp: harq_inv_def Let_def)

lemma harq_finish:
  assumes laws: "nr_list_laws N elems" and inv: "harq_inv elems n rmax {p} c"
    and p: "0 \<le> p" "p < n" "\<not> is_waiting (harq_processes c p)"
  shows "harq_inv elems n rmax {} (finish_harq N c p)"
  using inv p by (auto simp: harq_inv_def Let_def finish_harq_def nr_list_lawsD(2) [OF laws])

lemma harq_to_retrans:
  assumes laws: "nr_list_laws N elems" and inv: "harq_inv elems n rmax {p} c"
    and p: "0 \<le> p" "p < n" "\<not> is_waiting (harq_processes c p)"
      "0 < round (harq_processes c p)" "round (harq_processes c p) < rmax"
  shows "harq_inv elems n rmax {} (c\<lparr>retrans_harq := add_tail_nr_list N (retrans_harq c) p\<rparr>)"
  using inv p by (auto simp: harq_inv_def Let_def nr_list_lawsD(2) [OF laws])

lemma harq_to_feedback:
  assumes laws: "nr_list_laws N elems" and inv: "harq_inv elems n rmax {p} c"
    and p: "0 \<le> p" "p < n" "is_waiting (harq_processes c p)"
      "0 \<le> round (harq_processes c p)" "round (harq_processes c p) < rmax"
  shows "harq_inv elems n rmax {} (c\<lparr>feedback_harq := add_tail_nr_list N (feedback_harq c) p\<rparr>)"
  using inv p by (auto simp: harq_inv_def Let_def nr_list_lawsD(2) [OF laws])

lemma harq_inv_range:
  assumes "harq_inv elems n rmax {} c"
  shows "p \<in> set (elems (feedback_harq c)) \<Longrightarrow> 0 \<le> p \<and> p < n \<and> is_waiting (harq_processes c p) \<and>
      0 \<le> round (harq_processes c p) \<and> round (harq_processes c p) < rmax"
    and "p \<in> set (elems (available_harq c)) \<Longrightarrow> 0 \<le> p \<and> p < n \<and>
      \<not> is_waiting (harq_processes c p) \<and> round (harq_processes c p) = 0"
    and "p \<in> set (elems (retrans_harq c)) \<Longrightarrow> 0 \<le> p \<and> p < n \<and> \<not> is_waiting (harq_processes c p) \<and>
      0 < round (harq_processes c p) \<and> round (harq_processes c p) < rmax"
  using assms by (auto simp: harq_inv_def Let_def)

lemma abort_ul_inv [simp]:
  "harq_inv elems n rmax out (abort_nr_ul_harq N c p) = harq_inv elems n rmax out (finish_harq N c p)"
  by (simp add: abort_nr_ul_harq_def finish_nr_harq_eq Let_def harq_inv_def)

lemma abort_ul_simps [simp]:
  "feedback_harq (abort_nr_ul_harq N c p) = feedback_harq c"
  "retrans_harq (abort_nr_ul_harq N c p) = retrans_harq c"
  "available_harq (abort_nr_ul_harq N c p) = add_tail_nr_list N (available_harq c) p"
  "0 \<le> sched_ul_bytes (abort_nr_ul_harq N c p)"
  by (simp_all add: abort_nr_ul_harq_def finish_nr_harq_eq finish_harq_def Let_def)

text \<open>A failed process that is out goes to the retransmission list or, in its last round, is aborted.\<close>

definition fail_harq :: "'q nr_list_ops \<Rightarrow> int \<Rightarrow> 'q ul_sched_ctrl \<Rightarrow> int \<Rightarrow> 'q ul_sched_ctrl" where
  "fail_harq N rmax c p =
     (if rmax - 1 \<le> round (harq_processes c p) then abort_nr_ul_harq N c p
      else c\<lparr>harq_processes := (harq_processes c)(p :=
                (harq_processes c p)\<lparr>round := round (harq_processes c p) + 1\<rparr>),
             retrans_harq := add_tail_nr_list N (retrans_harq c) p\<rparr>)"

lemma harq_fail:
  assumes laws: "nr_list_laws N elems" and inv: "harq_inv elems n rmax {p} c"
    and p: "0 \<le> p" "p < n" "\<not> is_waiting (harq_processes c p)" "0 \<le> round (harq_processes c p)"
  shows "harq_inv elems n rmax {} (fail_harq N rmax c p)"
proof (cases "rmax - 1 \<le> round (harq_processes c p)")
  case True
  then show ?thesis using harq_finish [OF laws inv p(1-3)] by (simp add: fail_harq_def)
next
  case False
  have "harq_inv elems n rmax {} ((c\<lparr>harq_processes := (harq_processes c)(p :=
      (harq_processes c p)\<lparr>round := round (harq_processes c p) + 1\<rparr>)\<rparr>)
      \<lparr>retrans_harq := add_tail_nr_list N (retrans_harq c) p\<rparr>)"
    using harq_to_retrans [OF laws harq_set_proc [OF inv]] p False by simp
  with False show ?thesis by (simp add: fail_harq_def)
qed

lemma skip_one_eq:
  "ul_harq_skip_one N rmax c p = fail_harq N rmax
    (c\<lparr>feedback_harq := remove_front_nr_list N (feedback_harq c),
       harq_processes := (harq_processes c)(p := (harq_processes c p)\<lparr>is_waiting := False\<rparr>)\<rparr>) p"
  by (simp add: ul_harq_skip_one_def fail_harq_def Let_def)

lemma fail_harq_simps [simp]: "feedback_harq (fail_harq N rmax c p) = feedback_harq c"
  by (simp add: fail_harq_def)

lemma fail_harq_bytes: "0 \<le> sched_ul_bytes c \<Longrightarrow> 0 \<le> sched_ul_bytes (fail_harq N rmax c p)"
  by (simp add: fail_harq_def)

lemma skip_one_inv:
  assumes laws: "nr_list_laws N elems" and inv: "harq_inv elems n rmax {} c"
    and head: "elems (feedback_harq c) = p # ps"
  shows "harq_inv elems n rmax {} (ul_harq_skip_one N rmax c p)"
    and "elems (feedback_harq (ul_harq_skip_one N rmax c p)) = ps"
proof -
  have p: "p \<in> set (elems (feedback_harq c))" using head by simp
  note r = harq_inv_range(1) [OF inv p]
  let ?c = "(c\<lparr>feedback_harq := remove_front_nr_list N (feedback_harq c)\<rparr>)
    \<lparr>harq_processes := (harq_processes c)(p := (harq_processes c p)\<lparr>is_waiting := False\<rparr>)\<rparr>"
  have "harq_inv elems n rmax {p} ?c"
    using harq_set_proc [OF harq_take_feedback [OF laws inv head]] by simp
  then have "harq_inv elems n rmax {} (fail_harq N rmax ?c p)"
    using r by (intro harq_fail [OF laws]) simp_all
  then show "harq_inv elems n rmax {} (ul_harq_skip_one N rmax c p)" by (simp add: skip_one_eq)
  show "elems (feedback_harq (ul_harq_skip_one N rmax c p)) = ps"
    using nr_list_lawsD(3) [OF laws, of "feedback_harq c"] head by (simp add: skip_one_eq)
qed

lemma ul_harq_skip_total:
  assumes laws: "nr_list_laws N elems" and n: "n \<le> 128"
  shows "harq_inv elems n rmax {} c \<Longrightarrow> 0 \<le> sched_ul_bytes c \<Longrightarrow>
    \<exists>pid c'. ul_harq_skip N rmax crc c = Some (pid, c') \<and> harq_inv elems n rmax {} c' \<and>
      0 \<le> sched_ul_bytes c' \<and>
      elems (feedback_harq c') = dropWhile (\<lambda>p. p \<noteq> crc) (elems (feedback_harq c)) \<and>
      (if elems (feedback_harq c') = [] then pid < 0 else pid = crc \<and> 0 \<le> pid)"
proof (induction "elems (feedback_harq c)" arbitrary: c)
  case Nil
  have "nl_head N (feedback_harq c) = -1" using nr_list_lawsD(1) [OF laws] Nil(1) by (metis list.simps(4))
  then show ?case using Nil by (subst ul_harq_skip.simps) (simp add: to_i8_id)
next
  case (Cons p ps)
  have head: "nl_head N (feedback_harq c) = p"
    using nr_list_lawsD(1) [OF laws] Cons(2) by (metis list.simps(5))
  have "p \<in> set (elems (feedback_harq c))" by (simp add: Cons(2) [symmetric])
  note r = harq_inv_range(1) [OF Cons.prems(1) this]
  have i8: "to_i8 p = p" using r n by (simp add: to_i8_id)
  show ?case
  proof (cases "crc = p")
    case True
    then show ?thesis using r Cons.prems
      by (subst ul_harq_skip.simps) (simp add: head i8 Cons(2) [symmetric])
  next
    case False
    let ?c = "ul_harq_skip_one N rmax c p"
    note skip = skip_one_inv [OF laws Cons.prems(1) Cons(2) [symmetric]]
    have "0 \<le> sched_ul_bytes ?c"
      unfolding skip_one_eq by (rule fail_harq_bytes) (simp add: Cons.prems)
    moreover have "ul_harq_skip N rmax crc c = ul_harq_skip N rmax crc ?c"
      using False r by (subst ul_harq_skip.simps) (simp add: head i8)
    ultimately show ?thesis
      using Cons(1) [OF skip(2) [symmetric] skip(1)] False skip(2)
      by (simp add: Cons(2) [symmetric])
  qed
qed

lemma ul_harq_feedback_ok:
  assumes laws: "nr_list_laws N elems" and inv: "harq_inv elems n rmax {} c"
    and head: "elems (feedback_harq c) = p # ps" and bytes: "0 \<le> sched_ul_bytes c"
  shows "\<exists>c'. ul_harq_feedback N rmax c p crc_status = Inr c' \<and> harq_inv elems n rmax {} c' \<and>
    0 \<le> sched_ul_bytes c' \<and> elems (feedback_harq c') = ps \<and>
    (if \<not> crc_status
     then elems (available_harq c') = elems (available_harq c) @ [p] \<and>
       ndi (harq_processes c' p) = ndi (harq_processes c p) XOR 1
     else if round (harq_processes c p) + 1 < rmax
     then elems (retrans_harq c') = elems (retrans_harq c) @ [p] \<and>
       round (harq_processes c' p) = round (harq_processes c p) + 1 \<and>
       ndi (harq_processes c' p) = ndi (harq_processes c p)
     else elems (available_harq c') = elems (available_harq c) @ [p] \<and> ul_errors c' = ul_errors c + 1)"
proof -
  have "p \<in> set (elems (feedback_harq c))" using head by simp
  note r = harq_inv_range(1) [OF inv this]
  let ?h = "(harq_processes c p)\<lparr>ul_feedback_slot := -1, is_waiting := False\<rparr>"
  let ?c = "(c\<lparr>feedback_harq := remove_front_nr_list N (feedback_harq c)\<rparr>)
    \<lparr>harq_processes := (harq_processes c)(p := ?h)\<rparr>"
  have out: "harq_inv elems n rmax {p} ?c"
    using harq_set_proc [OF harq_take_feedback [OF laws inv head]] by simp
  have front: "elems (remove_front_nr_list N (feedback_harq c)) = ps"
    using nr_list_lawsD(3) [OF laws, of "feedback_harq c"] head by simp
  have eq: "ul_harq_feedback N rmax c p crc_status =
      Inr (if \<not> crc_status then finish_harq N ?c p else fail_harq N rmax ?c p)"
    using r by (simp add: ul_harq_feedback_def finish_nr_harq_eq fail_harq_def Let_def)
  have "harq_inv elems n rmax {} (finish_harq N ?c p)"
    using r by (intro harq_finish [OF laws out]) simp_all
  moreover have "harq_inv elems n rmax {} (fail_harq N rmax ?c p)"
    using r by (intro harq_fail [OF laws out]) simp_all
  ultimately show ?thesis
    using bytes front r unfolding eq
    by (auto simp: finish_harq_def fail_harq_def nr_list_lawsD(2) [OF laws] abort_nr_ul_harq_def
        finish_nr_harq_eq Let_def)
qed

section \<open>Grants keep the invariant\<close>

text \<open>
  The two ways to obtain a process: the head of the free list, or a process that is free (in
  round 0) or waits for its retransmission (in a later round).
\<close>

definition grantable :: "('q \<Rightarrow> int list) \<Rightarrow> ('q, 'a harq_proc_scheme, 'm) harq_ctrl_scheme \<Rightarrow> int \<Rightarrow> bool" where
  "grantable elems c pid \<longleftrightarrow>
     (if pid < 0 then elems (available_harq c) \<noteq> []
      else pid \<in> set (elems (available_harq c)) \<union> set (elems (retrans_harq c)))"

definition granted :: "('q \<Rightarrow> int list) \<Rightarrow> ('q, 'a harq_proc_scheme, 'm) harq_ctrl_scheme \<Rightarrow> int \<Rightarrow> int" where
  "granted elems c pid = (if pid < 0 then hd (elems (available_harq c)) else pid)"

text \<open>The list surgery that both grants start with.\<close>

definition take_harq ::
    "'q nr_list_ops \<Rightarrow> ('q, 'a harq_proc_scheme, 'm) harq_ctrl_scheme \<Rightarrow> int \<Rightarrow> int \<Rightarrow> ('q, 'a harq_proc_scheme, 'm) harq_ctrl_scheme"
where
  "take_harq N c pid p =
     (if pid < 0 then c\<lparr>available_harq := remove_front_nr_list N (available_harq c)\<rparr>
      else if round (harq_processes c p) = 0
      then c\<lparr>available_harq := remove_nr_list N (available_harq c) p\<rparr>
      else c\<lparr>retrans_harq := remove_nr_list N (retrans_harq c) p\<rparr>)"

lemma take_harq_simps [simp]:
  "harq_processes (take_harq N c pid p) = harq_processes c"
  "feedback_harq (take_harq N c pid p) = feedback_harq c"
  by (simp_all add: take_harq_def)

lemma take_harq_inv:
  assumes laws: "nr_list_laws N elems" and inv: "harq_inv elems n rmax {} c"
    and pid: "grantable elems c pid" "p = granted elems c pid" and rmax: "0 < rmax"
  shows "harq_inv elems n rmax {p} (take_harq N c pid p) \<and> 0 \<le> p \<and> p < n \<and>
    \<not> is_waiting (harq_processes c p) \<and> 0 \<le> round (harq_processes c p) \<and> round (harq_processes c p) < rmax"
proof (cases "pid < 0")
  case True
  then obtain ps where head: "elems (available_harq c) = p # ps"
    using pid by (cases "elems (available_harq c)") (auto simp: grantable_def granted_def)
  then have p: "p \<in> set (elems (available_harq c))" by simp
  show ?thesis
    using harq_take_free [OF laws inv head] harq_inv_range(2) [OF inv p] True rmax
    by (simp add: take_harq_def)
next
  case False
  then consider (free) "p \<in> set (elems (available_harq c))" | (retx) "p \<in> set (elems (retrans_harq c))"
    using pid by (auto simp: grantable_def granted_def)
  then show ?thesis
  proof cases
    case free
    then show ?thesis
      using harq_take_available [OF laws inv free] harq_inv_range(2) [OF inv free] False rmax
      by (simp add: take_harq_def)
  next
    case retx
    then show ?thesis
      using harq_take_retrans [OF laws inv retx] harq_inv_range(3) [OF inv retx] False
      by (simp add: take_harq_def)
  qed
qed

lemma granted_i8:
  assumes laws: "nr_list_laws N elems" and inv: "harq_inv elems n rmax {} c" and n: "n \<le> 128"
    and pid: "grantable elems c pid" and i8: "-128 \<le> pid" "pid < 128"
  shows "to_i8 pid = pid" and "pid < 0 \<Longrightarrow> to_i8 (nl_head N (available_harq c)) = granted elems c pid"
    and "pid < 0 \<Longrightarrow> 0 \<le> granted elems c pid"
proof -
  show "to_i8 pid = pid" by (rule to_i8_id [OF i8])
  assume neg: "pid < 0"
  then obtain x xs where l: "elems (available_harq c) = x # xs"
    using pid by (cases "elems (available_harq c)") (auto simp: grantable_def)
  then have x: "0 \<le> x \<and> x < n" using harq_inv_range(2) [OF inv, of x] by simp
  then show "0 \<le> granted elems c pid" using l neg by (simp add: granted_def)
  show "to_i8 (nl_head N (available_harq c)) = granted elems c pid"
    using l x n neg nr_list_lawsD(1) [OF laws, of "available_harq c"] by (simp add: granted_def to_i8_id)
qed

lemma ul_grant_eq:
  assumes laws: "nr_list_laws N elems" and inv: "harq_inv elems n rmax {} c" and n: "n \<le> 128"
    and pid: "grantable elems c (ul_harq_pid sched)" "-128 \<le> ul_harq_pid sched" "ul_harq_pid sched < 128"
    and p: "p = granted elems c (ul_harq_pid sched)" and rmax: "0 < rmax"
  shows "ul_harq_grant N False rmax c sched =
    (let c1 = take_harq N c (ul_harq_pid sched) p; s1 = sched\<lparr>ul_harq_pid := p\<rparr>;
         c2 = (c1\<lparr>harq_processes := (harq_processes c)(p :=
               (harq_processes c p)\<lparr>ul_feedback_slot := sp_slot sched, is_waiting := True\<rparr>)\<rparr>)
               \<lparr>feedback_harq := add_tail_nr_list N (feedback_harq c) p\<rparr>
     in Inr (if round (harq_processes c p) = 0
             then c2\<lparr>harq_processes := (harq_processes c2)(p := (harq_processes c2 p)\<lparr>sched_pusch := s1\<rparr>),
                     sched_ul_bytes := sched_ul_bytes c2 + sp_tb_size sched\<rparr> else c2, s1))"
proof -
  note g = granted_i8 [OF laws inv n pid]
  note t = take_harq_inv [OF laws inv pid(1) p rmax]
  show ?thesis
  proof (cases "ul_harq_pid sched < 0")
    case True
    then have "to_i8 (nl_head N (available_harq c)) = p" "0 \<le> p" using g p by simp_all
    with True t g(1) show ?thesis by (simp add: ul_harq_grant_def take_harq_def Let_def)
  next
    case False
    then have "p = ul_harq_pid sched" using p by (simp add: granted_def)
    moreover from this have "sched\<lparr>ul_harq_pid := p\<rparr> = sched" by simp
    ultimately show ?thesis using False t g(1) by (simp add: ul_harq_grant_def take_harq_def Let_def)
  qed
qed

lemma ul_harq_grant_inv:
  assumes "nr_list_laws N elems" and "harq_inv elems n rmax {} c" and "n \<le> 128" and "0 < rmax"
    and "grantable elems c (ul_harq_pid sched)" and "-128 \<le> ul_harq_pid sched" and "ul_harq_pid sched < 128"
  shows "\<exists>c' sched'. ul_harq_grant N False rmax c sched = Inr (c', sched') \<and>
    ul_harq_pid sched' = granted elems c (ul_harq_pid sched) \<and> harq_inv elems n rmax {} c' \<and>
    elems (feedback_harq c') = elems (feedback_harq c) @ [ul_harq_pid sched'] \<and>
    sched_ul_bytes c' = sched_ul_bytes c +
      (if round (harq_processes c (ul_harq_pid sched')) = 0 then sp_tb_size sched else 0) \<and>
    round (harq_processes c' (ul_harq_pid sched')) = round (harq_processes c (ul_harq_pid sched'))"
proof -
  define p where "p = granted elems c (ul_harq_pid sched)"
  note t = take_harq_inv [OF assms(1,2,5) p_def assms(4)]
  let ?e = "(harq_processes c p)\<lparr>ul_feedback_slot := sp_slot sched, is_waiting := True\<rparr>"
  let ?c1 = "take_harq N c (ul_harq_pid sched) p"
  let ?c2 = "(?c1\<lparr>harq_processes := (harq_processes c)(p := ?e)\<rparr>)
    \<lparr>feedback_harq := add_tail_nr_list N (feedback_harq c) p\<rparr>"
  let ?e2 = "?e\<lparr>sched_pusch := sched\<lparr>ul_harq_pid := p\<rparr>\<rparr>"
  let ?c3 = "(?c1\<lparr>harq_processes := (harq_processes c)(p := ?e2)\<rparr>)
    \<lparr>feedback_harq := add_tail_nr_list N (feedback_harq c) p\<rparr>"
  have "harq_inv elems n rmax {p} (?c1\<lparr>harq_processes := (harq_processes c)(p := x)\<rparr>)" for x
    using harq_set_proc [of elems n rmax p ?c1 x] t by simp
  then have i: "harq_inv elems n rmax {} ?c2" "harq_inv elems n rmax {} ?c3"
    using harq_to_feedback [OF assms(1), of n rmax p "?c1\<lparr>harq_processes := (harq_processes c)(p := ?e)\<rparr>"]
      harq_to_feedback [OF assms(1), of n rmax p "?c1\<lparr>harq_processes := (harq_processes c)(p := ?e2)\<rparr>"] t
    by simp_all
  have c3: "harq_inv elems n rmax {} (?c1\<lparr>feedback_harq := add_tail_nr_list N (feedback_harq c) p,
      harq_processes := (harq_processes c)(p := ?e2), sched_ul_bytes := b\<rparr>)" for b
    using i(2) by (simp add: harq_inv_def)
  have bytes: "sched_ul_bytes ?c1 = sched_ul_bytes c" by (simp add: take_harq_def)
  show ?thesis
    unfolding ul_grant_eq [OF assms(1-3,5-7) p_def assms(4)]
    using i(1) c3 bytes by (auto simp: Let_def nr_list_lawsD(2) [OF assms(1)] p_def)
qed

lemma take_harq_retrans:
  assumes laws: "nr_list_laws N elems" and inv: "harq_inv elems n rmax {} c"
    and pid: "grantable elems c pid" "p = granted elems c pid"
  shows "set (elems (retrans_harq (take_harq N c pid p))) = set (elems (retrans_harq c)) - {p}"
proof -
  have dist: "distinct (elems (retrans_harq c))"
    and disj: "set (elems (available_harq c)) \<inter> set (elems (retrans_harq c)) = {}"
    using inv by (auto simp: harq_inv_def Let_def)
  show ?thesis
  proof (cases "p \<in> set (elems (retrans_harq c))")
    case True
    then have "p \<notin> set (elems (available_harq c))" using disj by blast
    then have "0 \<le> pid" using pid by (auto simp: grantable_def granted_def split: if_splits)
    moreover have "round (harq_processes c p) \<noteq> 0" using harq_inv_range(3) [OF inv True] by simp
    ultimately show ?thesis using dist by (simp add: take_harq_def nr_list_lawsD(4) [OF laws True])
  next
    case False
    then have "p \<in> set (elems (available_harq c))"
      using pid by (cases "elems (available_harq c)") (auto simp: grantable_def granted_def split: if_splits)
    then have "pid < 0 \<or> round (harq_processes c p) = 0" using harq_inv_range(2) [OF inv] by blast
    then show ?thesis using False by (auto simp: take_harq_def)
  qed
qed

lemma dl_harq_grant_inv:
  assumes "nr_list_laws N elems" and "harq_inv elems n rmax {} c" and "n \<le> 128" and "0 < rmax"
    and "grantable elems c pid" and "-128 \<le> pid" and "pid < 128"
  shows "\<exists>c'. dl_harq_grant N c pid pucch = Inr (c', granted elems c pid) \<and>
    harq_inv elems n rmax {} c' \<and>
    (if pucch = None
     then ndi (harq_processes c' (granted elems c pid)) = ndi (harq_processes c (granted elems c pid)) XOR 1 \<and>
       round (harq_processes c' (granted elems c pid)) = 0 \<and> elems (feedback_harq c') = elems (feedback_harq c)
     else elems (feedback_harq c') = elems (feedback_harq c) @ [granted elems c pid] \<and>
       round (harq_processes c' (granted elems c pid)) = round (harq_processes c (granted elems c pid))) \<and>
    (\<forall>q. sched_pdsch (harq_processes c' q) = sched_pdsch (harq_processes c q) \<and>
       transportBlock (harq_processes c' q) = transportBlock (harq_processes c q)) \<and>
    set (elems (retrans_harq c')) = set (elems (retrans_harq c)) - {granted elems c pid}"
proof -
  define p where "p = granted elems c pid"
  note t = take_harq_inv [OF assms(1,2,5) p_def assms(4)]
  note g = granted_i8 [OF assms(1-3,5-7)]
  let ?c1 = "take_harq N c pid p"
  have retr: "set (elems (retrans_harq ?c1)) = set (elems (retrans_harq c)) - {p}"
    by (rule take_harq_retrans [OF assms(1,2,5) p_def])
  have eq: "dl_harq_grant N c pid pucch = (case pucch of
      None \<Rightarrow> Inr (finish_harq N ?c1 p, p)
    | Some (fr, sl) \<Rightarrow> Inr ((?c1\<lparr>harq_processes := (harq_processes c)(p :=
        (harq_processes c p)\<lparr>feedback_frame := fr, feedback_slot := sl, is_waiting := True\<rparr>)\<rparr>)
        \<lparr>feedback_harq := add_tail_nr_list N (feedback_harq c) p\<rparr>, p))"
  proof (cases "pid < 0")
    case True
    then have "to_i8 (nl_head N (available_harq c)) = p" "0 \<le> p" using g p_def by simp_all
    with True t g(1) show ?thesis
      by (simp add: dl_harq_grant_def take_harq_def finish_nr_harq_eq Let_def split: option.split)
  next
    case False
    then have "p = pid" using p_def by (simp add: granted_def)
    with False t g(1) show ?thesis
      by (simp add: dl_harq_grant_def take_harq_def finish_nr_harq_eq Let_def split: option.split)
  qed
  show ?thesis
  proof (cases pucch)
    case None
    have "harq_inv elems n rmax {} (finish_harq N ?c1 p)"
      using t by (intro harq_finish [OF assms(1)]) simp_all
    moreover have "dl_harq_grant N c pid None = Inr (finish_harq N ?c1 p, p)"
      using eq None by simp
    ultimately show ?thesis unfolding None p_def [symmetric]
      using retr by (intro exI [of _ "finish_harq N ?c1 p"]) (simp add: finish_harq_def)
  next
    case (Some fs)
    obtain fr sl where fs: "fs = (fr, sl)" by (cases fs)
    let ?e = "(harq_processes c p)\<lparr>feedback_frame := fr, feedback_slot := sl, is_waiting := True\<rparr>"
    have "harq_inv elems n rmax {p} (?c1\<lparr>harq_processes := (harq_processes c)(p := ?e)\<rparr>)"
      using harq_set_proc [of elems n rmax p ?c1 ?e] t by simp
    then have "harq_inv elems n rmax {} ((?c1\<lparr>harq_processes := (harq_processes c)(p := ?e)\<rparr>)
        \<lparr>feedback_harq := add_tail_nr_list N (feedback_harq c) p\<rparr>)"
      using harq_to_feedback [OF assms(1), of n rmax p "?c1\<lparr>harq_processes := (harq_processes c)(p := ?e)\<rparr>"] t
      by simp
    then show ?thesis using eq unfolding Some fs p_def [symmetric]
      using retr by (simp add: nr_list_lawsD(2) [OF assms(1)])
  qed
qed

text \<open>The whole handler: where it ends, and what happens to the process at the head of the list.\<close>

lemma handle_ul_harq_total:
  assumes "nr_list_laws N elems" and "harq_inv elems n rmax {} c" and "n \<le> 128"
    and "0 \<le> sched_ul_bytes c"
  shows "\<exists>c'. handle_nr_ul_harq N False rmax c crc crc_status = Some (Inr c') \<and>
    harq_inv elems n rmax {} c' \<and> 0 \<le> sched_ul_bytes c' \<and>
    elems (feedback_harq c') = tl (dropWhile (\<lambda>p. p \<noteq> crc) (elems (feedback_harq c)))"
proof -
  obtain pid c1 where skip: "ul_harq_skip N rmax crc c = Some (pid, c1)" "harq_inv elems n rmax {} c1"
      "0 \<le> sched_ul_bytes c1" "elems (feedback_harq c1) = dropWhile (\<lambda>p. p \<noteq> crc) (elems (feedback_harq c))"
      "if elems (feedback_harq c1) = [] then pid < 0 else pid = crc \<and> 0 \<le> pid"
    using ul_harq_skip_total [OF assms(1,3,2,4)] by blast
  show ?thesis
  proof (cases "elems (feedback_harq c1)")
    case Nil
    then have d: "dropWhile (\<lambda>p. p \<noteq> crc) (elems (feedback_harq c)) = []" using skip(4) by simp
    show ?thesis unfolding d using Nil skip(1-3,5) by (simp add: handle_nr_ul_harq_def)
  next
    case (Cons p ps)
    then have p: "p = crc" "pid = crc" "0 \<le> pid"
      using skip(4,5) hd_dropWhile [of "\<lambda>p. p \<noteq> crc" "elems (feedback_harq c)"] by auto
    obtain c' where "ul_harq_feedback N rmax c1 p crc_status = Inr c'" "harq_inv elems n rmax {} c'"
        "0 \<le> sched_ul_bytes c'" "elems (feedback_harq c') = ps"
      using ul_harq_feedback_ok [OF assms(1) skip(2) Cons skip(3)] by blast
    moreover have d: "dropWhile (\<lambda>p. p \<noteq> crc) (elems (feedback_harq c)) = p # ps"
      using skip(4) Cons by simp
    ultimately show ?thesis unfolding d using p skip(1) by (simp add: handle_nr_ul_harq_def)
  qed
qed

lemma handle_ul_harq_head:
  assumes "nr_list_laws N elems" and "harq_inv elems n rmax {} c" and "n \<le> 128"
    and "0 \<le> sched_ul_bytes c" and "elems (feedback_harq c) = p # ps"
  shows "\<exists>c'. handle_nr_ul_harq N False rmax c p crc_status = Some (Inr c') \<and>
    (if \<not> crc_status
     then elems (available_harq c') = elems (available_harq c) @ [p] \<and>
       ndi (harq_processes c' p) = ndi (harq_processes c p) XOR 1
     else if round (harq_processes c p) + 1 < rmax
     then elems (retrans_harq c') = elems (retrans_harq c) @ [p] \<and>
       round (harq_processes c' p) = round (harq_processes c p) + 1 \<and>
       ndi (harq_processes c' p) = ndi (harq_processes c p)
     else elems (available_harq c') = elems (available_harq c) @ [p] \<and> ul_errors c' = ul_errors c + 1)"
proof -
  have "p \<in> set (elems (feedback_harq c))" using assms(5) by simp
  note r = harq_inv_range(1) [OF assms(2) this]
  have "nl_head N (feedback_harq c) = p"
    using nr_list_lawsD(1) [OF assms(1), of "feedback_harq c"] assms(5) by simp
  then have "ul_harq_skip N rmax p c = Some (p, c)"
    using r assms(3) by (subst ul_harq_skip.simps) (simp add: to_i8_id)
  then show ?thesis
    using ul_harq_feedback_ok [OF assms(1,2,5,4), of crc_status] r
    by (auto simp: handle_nr_ul_harq_def)
qed

section \<open>Properties\<close>

text \<open>Lists of identifiers, as an instance of the list operations.\<close>

definition list_ops :: "int list nr_list_ops" where
  "list_ops = \<lparr>nl_head = (\<lambda>q. case q of [] \<Rightarrow> -1 | x # _ \<Rightarrow> x), add_tail_nr_list = (\<lambda>q x. q @ [x]),
     remove_front_nr_list = tl, remove_nr_list = (\<lambda>q x. remove1 x q)\<rparr>"

lemma list_ops_laws: "nr_list_laws list_ops (\<lambda>q. q)"
  by (simp add: nr_list_laws_def list_ops_def)

definition no_sched :: NR_sched_pusch_t where
  "no_sched = NR_sched_pusch_t.make 0 0 0 0 0 0 0 0 (-1) 1 0 0
     \<lparr>valid_tda = True, k2 = 0, startSymbolIndex = 0, nrOfSymbols = 14\<rparr>
     (NR_pusch_dmrs_t.make 0 0 0 0 0 0 0 0 0 False) \<lparr>bwpStart = 0, bwpSize = 0\<rparr> 0"

definition ul_example :: "int list \<Rightarrow> int list \<Rightarrow> int list \<Rightarrow> int list ul_sched_ctrl" where
  "ul_example A F R = \<lparr>available_harq = A, feedback_harq = F, retrans_harq = R,
     harq_processes = (\<lambda>p. \<lparr>is_waiting = p \<in> set F, ndi = 0,
       round = (if p \<in> set A then 0 else 1), ul_feedback_slot = 0, sched_pusch = no_sched\<rparr>),
     sched_ul_bytes = 0, ul_errors = 0\<rparr>"

lemma ul_example_inv: "harq_inv (\<lambda>q. q) 4 4 {} (ul_example [2] [1, 0] [3])"
  by (auto simp: harq_inv_def ul_example_def Let_def)

text \<open>
  C19. What feedback does to the process at the head of the list: a correct block returns it to the
  free list with a toggled new-data indicator; a failed block sends it to the retransmission list
  with the next round and the same indicator, or, in the last round, back to the free list with
  one more error counted.
\<close>

theorem ul_feedback_effect:
  assumes "nr_list_laws N elems" and "harq_inv elems n rmax {} c" and "n \<le> 128"
    and "0 \<le> sched_ul_bytes c" and "elems (feedback_harq c) = p # ps"
  shows "\<exists>c'. handle_nr_ul_harq N False rmax c p crc_status = Some (Inr c') \<and>
    (if \<not> crc_status
     then elems (available_harq c') = elems (available_harq c) @ [p] \<and>
       ndi (harq_processes c' p) = ndi (harq_processes c p) XOR 1
     else if round (harq_processes c p) + 1 < rmax
     then elems (retrans_harq c') = elems (retrans_harq c) @ [p] \<and>
       round (harq_processes c' p) = round (harq_processes c p) + 1 \<and>
       ndi (harq_processes c' p) = ndi (harq_processes c p)
     else elems (available_harq c') = elems (available_harq c) @ [p] \<and> ul_errors c' = ul_errors c + 1)"
  by (rule handle_ul_harq_head [OF assms])

theorem ul_feedback_effect_witness:
  "\<exists>c'. handle_nr_ul_harq list_ops False 4 (ul_example [2] [1, 0] [3]) 1 True = Some (Inr c') \<and>
    retrans_harq c' = [3, 1] \<and> round (harq_processes c' 1) = 2"
  using ul_feedback_effect [OF list_ops_laws ul_example_inv, of 1 "[0]" True]
  by (auto simp: ul_example_def)

text \<open>
  An uplink grant never fails an assertion and never loses a process: when the scheduler names
  a process that is free or waits for retransmission, or names none while one is free, the grant
  moves exactly that process to the end of the feedback list, keeps the partition, and adds the
  size of the block to the scheduled bytes in the first round only.
\<close>

lemma ul_grant_partition:
  assumes "nr_list_laws N elems" and "harq_inv elems n rmax {} c" and "n \<le> 128" and "0 < rmax"
    and "grantable elems c (ul_harq_pid sched)" and "-128 \<le> ul_harq_pid sched" and "ul_harq_pid sched < 128"
  shows "\<exists>c' sched'. ul_harq_grant N False rmax c sched = Inr (c', sched') \<and>
    ul_harq_pid sched' = granted elems c (ul_harq_pid sched) \<and> harq_inv elems n rmax {} c' \<and>
    elems (feedback_harq c') = elems (feedback_harq c) @ [ul_harq_pid sched'] \<and>
    sched_ul_bytes c' = sched_ul_bytes c +
      (if round (harq_processes c (ul_harq_pid sched')) = 0 then sp_tb_size sched else 0)"
  using ul_harq_grant_inv [OF assms] by blast

text \<open>
  The downlink obeys the same discipline: a grant with a PUCCH moves the process to the
  feedback list, a grant without feedback returns it to the free list at once with a toggled
  new-data indicator, and finishing or aborting a process that is out of the lists restores the
  partition.
\<close>

lemma dl_grant_partition:
  assumes "nr_list_laws N elems" and "harq_inv elems n rmax {} c" and "n \<le> 128" and "0 < rmax"
    and "grantable elems c pid" and "-128 \<le> pid" and "pid < 128"
  shows "\<exists>c'. dl_harq_grant N c pid pucch = Inr (c', granted elems c pid) \<and>
    harq_inv elems n rmax {} c' \<and>
    (if pucch = None
     then ndi (harq_processes c' (granted elems c pid)) = ndi (harq_processes c (granted elems c pid)) XOR 1 \<and>
       round (harq_processes c' (granted elems c pid)) = 0 \<and> elems (feedback_harq c') = elems (feedback_harq c)
     else elems (feedback_harq c') = elems (feedback_harq c) @ [granted elems c pid])"
  using dl_harq_grant_inv [OF assms, of pucch] by (cases "pucch = None") auto

definition no_pdsch :: NR_sched_pdsch_t where
  "no_pdsch = NR_sched_pdsch_t.make 0 0 0 0 0 0 (-1) (-1) 0 1 0
     \<lparr>valid_tda = True, k2 = 0, startSymbolIndex = 0, nrOfSymbols = 14\<rparr>
     (NR_pdsch_dmrs_t.make 0 0 0 0 0 0 0 False) \<lparr>bwpStart = 0, bwpSize = 0\<rparr>"

end
