(* ===== verification/UlGrant.thy ===== *)
theory UlGrant imports RbSearch PfOrder UeLaPolicy PowerLimit Harq begin

text \<open>
  The size and place of an uplink grant: the decisions that \<^verbatim>\<open>pf_ul\<close> and
  \<^verbatim>\<open>allocate_ul_retransmission\<close> (\<^verbatim>\<open>gnb_patch/gNB_scheduler_ulsch.c\<close>) take from the map of used
  resource blocks, the UE's policy and the slice's floor and cap, without the bookkeeping that
  follows a decision.
  Functions of other files are the record \<open>ul_lib\<close>; \<open>msk\<close> is the map of the slot of the grant, in
  the coordinates of the carrier.
\<close>

section \<open>Data\<close>

record NR_UE_UL_BWP_t =
  BWPStart :: int
  BWPSize :: int
  is_dci_0_0 :: bool
  ul_scs :: nat
  ul_mcs_table :: int
  ul_transform_precoding :: bool
  pusch_Config :: "NR_PUSCH_Config_t option"

text \<open>The UE as the uplink scheduler sees it, with the lists of its HARQ processes.\<close>

record 'q ul_ue =
  u_rnti :: u16
  u_ul_failure :: bool
  u_beam_index :: int
  u_ul_thr_ue :: fl
  u_current_bytes :: u32
  u_current_rbs :: int
  u_total_rbs :: int
  u_total_rbs_retx :: int
  u_total_bytes_scheduled :: int
  u_rounds :: "int \<Rightarrow> int"
  u_ctrl :: "'q ul_sched_ctrl"
  u_estimated_ul_buffer :: int
  u_SR :: bool
  u_last_ul_frame :: int
  u_last_ul_slot :: int
  u_pcmax :: int
  u_ph :: int
  u_bler_mcs :: int
  u_ul_cce_fail :: int
  u_cce_index :: int
  u_transm_interrupt :: bool
  u_tpc0 :: int
  u_bwp :: NR_UE_UL_BWP_t
  u_common_ss :: bool
  u_initial_ul_BWPSize :: int

record ul_lib =
  ul_phy :: phy_lib
  SL_to_bitmap :: "int \<Rightarrow> int \<Rightarrow> u16"
  nr_find_nb_rb :: "u8 \<Rightarrow> u16 \<Rightarrow> bool \<Rightarrow> int \<Rightarrow> int \<Rightarrow> int \<Rightarrow> int \<Rightarrow> int \<Rightarrow> int \<Rightarrow> bool \<times> int \<times> int"
  get_ul_dmrs_params :: "NR_UE_UL_BWP_t \<Rightarrow> NR_tda_info_t \<Rightarrow> int \<Rightarrow> NR_pusch_dmrs_t"
  get_NTN_Koffset :: int
  MAX_FRAME_NUMBER :: int

text \<open>
  What the code relies on: the number of blocks found lies between the minimum and the maximum it
  was asked for.  Its result is whether the size was met, the size, and the number of blocks.
\<close>

definition find_nb_rb_law :: "'l ul_lib_scheme \<Rightarrow> bool" where
  "find_nb_rb_law L \<longleftrightarrow>
     (\<forall>Qm R tp ly sy dm bytes lo hi. 1 \<le> lo \<and> lo \<le> hi \<longrightarrow>
        lo \<le> snd (snd (nr_find_nb_rb L Qm R tp ly sy dm bytes lo hi)) \<and>
        snd (snd (nr_find_nb_rb L Qm R tp ly sy dm bytes lo hi)) \<le> hi)"

section \<open>The bandwidth part\<close>

definition get_pusch_bwp_start_size :: "'q ul_ue \<Rightarrow> bwp_info_t" where
  "get_pusch_bwp_start_size ue =
     \<lparr>bwpStart = BWPStart (u_bwp ue),
      bwpSize = (if is_dci_0_0 (u_bwp ue) \<and> u_common_ss ue
                 then min (BWPSize (u_bwp ue)) (u_initial_ul_BWPSize ue)
                 else BWPSize (u_bwp ue))\<rparr>"

text \<open>The test of block \<open>j\<close> of the bandwidth part.\<close>

definition bwp_used :: "prb_map \<Rightarrow> u16 \<Rightarrow> bwp_info_t \<Rightarrow> int \<Rightarrow> bool" where
  "bwp_used msk slbitmap bi j = rb_used msk slbitmap (j + bwpStart bi)"

section \<open>Retransmissions\<close>

definition pusch_time :: "ul_lib \<Rightarrow> int \<Rightarrow> int \<Rightarrow> int \<Rightarrow> NR_tda_info_t \<Rightarrow> int \<times> int" where
  "pusch_time L slots_frame frame slot tda =
     (let t = slot + k2 tda + get_NTN_Koffset L
      in ((frame + t div slots_frame) mod MAX_FRAME_NUMBER L, t mod slots_frame))"

text \<open>The decision of \<^verbatim>\<open>allocate_ul_retransmission\<close> up to the search for a CCE.\<close>

definition ul_retx_reuse ::
    "ul_lib \<Rightarrow> prb_map \<Rightarrow> bwp_info_t \<Rightarrow> NR_sched_pusch_t \<Rightarrow> NR_sched_pusch_t \<Rightarrow> NR_sched_pusch_t option" where
  "ul_retx_reuse L msk bi retInfo new_sched =
     (let slbitmap = SL_to_bitmap L (startSymbolIndex (tda_info retInfo)) (nrOfSymbols (tda_info retInfo));
          rbStart = scan_while (bwp_used msk slbitmap bi) (bwpSize bi) 0
      in if bwpSize bi < rbStart + sp_rbSize retInfo then None
         else Some (new_sched\<lparr>sp_rbStart := rbStart\<rparr>))"

definition ul_retx_new_tda ::
    "ul_lib \<Rightarrow> prb_map \<Rightarrow> NR_UE_UL_BWP_t \<Rightarrow> bwp_info_t \<Rightarrow> NR_sched_pusch_t \<Rightarrow> int \<Rightarrow> NR_tda_info_t \<Rightarrow>
     NR_sched_pusch_t \<Rightarrow> NR_sched_pusch_t option" where
  "ul_retx_new_tda L msk ul_bwp bi retInfo tda ti new_sched =
     (let nrOfLayers = sp_nrOfLayers retInfo;
          di = get_ul_dmrs_params L ul_bwp ti nrOfLayers;
          slbitmap = SL_to_bitmap L (startSymbolIndex ti) (nrOfSymbols ti);
          rbStart = scan_while (bwp_used msk slbitmap bi) (bwpSize bi) 0;
          rbSize = scan_while (\<lambda>n. \<not> bwp_used msk slbitmap bi (rbStart + n)) (bwpSize bi - rbStart) 0;
          (success, new_tbs, new_rbSize) =
            nr_find_nb_rb L (sp_Qm retInfo) (sp_R retInfo) (ul_transform_precoding ul_bwp) nrOfLayers
              (nrOfSymbols ti) (N_PRB_DMRS di * num_dmrs_symb di) (sp_tb_size retInfo) 1 rbSize
      in if \<not> success \<or> new_tbs \<noteq> sp_tb_size retInfo then None
         else Some (new_sched\<lparr>sp_rbSize := new_rbSize, sp_rbStart := rbStart, sp_tb_size := new_tbs,
                time_domain_allocation := tda, tda_info := ti, dmrs_info := di\<rparr>))"

definition ul_retx_alloc ::
    "ul_lib \<Rightarrow> prb_map \<Rightarrow> 'q ul_ue \<Rightarrow> int \<Rightarrow> int \<Rightarrow> int \<Rightarrow> int \<Rightarrow> int \<Rightarrow> NR_tda_info_t \<Rightarrow>
     harq_error + NR_sched_pusch_t option" where
  "ul_retx_alloc L msk ue slots_frame frame slot harq_pid tda ti =
     (let retInfo = sched_pusch (harq_processes (u_ctrl ue) harq_pid);
          bi = get_pusch_bwp_start_size ue;
          (f, s) = pusch_time L slots_frame frame slot ti;
          new_sched = retInfo\<lparr>sp_frame := f, sp_slot := s, bwp_info := bi\<rparr>
      in if ul_harq_pid new_sched \<noteq> harq_pid then Inl AssertHarqPid
         else if startSymbolIndex (tda_info retInfo) = startSymbolIndex ti \<and>
                 nrOfSymbols (tda_info retInfo) \<le> nrOfSymbols ti
         then Inr (ul_retx_reuse L msk bi retInfo new_sched)
         else Inr (ul_retx_new_tda L msk (u_bwp ue) bi retInfo tda ti new_sched))"

text \<open>The blocks a grant marks as used, in carrier coordinates.\<close>

definition ul_mark :: "ul_lib \<Rightarrow> NR_sched_pusch_t \<Rightarrow> u16 \<Rightarrow> prb_map \<Rightarrow> prb_map" where
  "ul_mark L sched bits msk = mark_rbs bits (bwpStart (bwp_info sched)) (sp_rbSize sched) (sp_rbStart sched) msk"

section \<open>New transmissions\<close>

text \<open>
  The first free block and the length of the free run, at most \<open>eff_min_rb\<close> for a grant that only
  answers inactivity; \<open>None\<close> when there is too little.
\<close>

definition ul_find_rbs :: "prb_map \<Rightarrow> u16 \<Rightarrow> bwp_info_t \<Rightarrow> int \<Rightarrow> bool \<Rightarrow> (int \<times> int) option" where
  "ul_find_rbs msk slbitmap bi eff_min_rb inactive =
     (let rbStart = scan_while (bwp_used msk slbitmap bi) (bwpSize bi) 0;
          max_rbSize = uint16 (if inactive then eff_min_rb else bwpSize bi);
          available_rb = scan_while (\<lambda>n. \<not> bwp_used msk slbitmap bi (rbStart + n))
                           (min (bwpSize bi - rbStart) max_rbSize) 1
      in if bwpSize bi < rbStart + eff_min_rb \<or> available_rb < eff_min_rb then None
         else Some (rbStart, available_rb))"

definition ph_alloc_of :: "NR_UE_UL_BWP_t \<Rightarrow> NR_sched_pusch_t \<Rightarrow> ph_alloc" where
  "ph_alloc_of bwp s =
     \<lparr>ph_mu = ul_scs bwp, ph_symbols = nrOfSymbols (tda_info s),
      ph_dmrs = N_PRB_DMRS (dmrs_info s) * num_dmrs_symb (dmrs_info s), ph_layers = sp_nrOfLayers s,
      ph_mcs_table = ul_mcs_table bwp, ph_pusch_Config = pusch_Config bwp\<rparr>"

text \<open>The bytes a UE still waits to send.\<close>

definition pending_bytes :: "'q ul_ue \<Rightarrow> int" where
  "pending_bytes ue = max 0 (u_estimated_ul_buffer ue - sched_ul_bytes (u_ctrl ue))"

text \<open>Limit the allocation to the power headroom: the available blocks and the MCS after it.\<close>

definition ul_limit_power ::
    "ul_lib \<Rightarrow> 'q ul_ue \<Rightarrow> NR_sched_pusch_t \<Rightarrow> int \<Rightarrow> int \<Rightarrow> ph_error + (int \<times> int)" where
  "ul_limit_power L ue s eff_min_rb available_rb =
     (if (u_pcmax ue \<noteq> 0 \<or> u_ph ue \<noteq> 0) \<and> 0 < pending_bytes ue
      then nr_ue_max_mcs_min_rb (ul_phy L) (ph_alloc_of (u_bwp ue) s) (u_ph ue) (uint16 eff_min_rb)
             available_rb (sp_mcs s)
      else Inr (available_rb, sp_mcs s))"

text \<open>The number of blocks: what the pending bytes need, or the minimum when the UE is inactive.\<close>

definition ul_wanted_rb ::
    "ul_lib \<Rightarrow> 'q ul_ue \<Rightarrow> NR_sched_pusch_t \<Rightarrow> bool \<Rightarrow> int \<Rightarrow> int \<Rightarrow> int" where
  "ul_wanted_rb L ue s inactive eff_min_rb available_rb =
     (if \<not> inactive
      then snd (snd (nr_find_nb_rb L (sp_Qm s) (sp_R s) (ul_transform_precoding (u_bwp ue)) (sp_nrOfLayers s)
             (nrOfSymbols (tda_info s)) (N_PRB_DMRS (dmrs_info s) * num_dmrs_symb (dmrs_info s))
             (pending_bytes ue) eff_min_rb available_rb))
      else uint16 eff_min_rb)"

definition ul_tb_bytes :: "ul_lib \<Rightarrow> NR_sched_pusch_t \<Rightarrow> int" where
  "ul_tb_bytes L s =
     nr_compute_tbs (ul_phy L) (uint (sp_Qm s)) (uint (sp_R s)) (sp_rbSize s) (nrOfSymbols (tda_info s))
       (N_PRB_DMRS (dmrs_info s) * num_dmrs_symb (dmrs_info s)) (sp_nrOfLayers s) div 8"

text \<open>
  The grant of a new transmission from the free run on: power limit, MCS, size, floor and cap, and
  the transport block.  The second result is the UE's MCS of the link adaptation, which the power
  limit can lower.
\<close>

definition ul_size_grant ::
    "ul_lib \<Rightarrow> assoc_table \<Rightarrow> 'q ul_ue \<Rightarrow> ul_UEsched_t \<Rightarrow> int \<Rightarrow> int \<times> int \<Rightarrow> int \<times> int \<Rightarrow> int \<Rightarrow> NR_tda_info_t \<Rightarrow>
     int \<Rightarrow> ph_error + (NR_sched_pusch_t \<times> int)" where
  "ul_size_grant L assoc ue cand eff_min_rb place time nrOfLayers ti tda =
     (let (rbStart, available_rb) = place;
          (f, s) = time;
          bwp = u_bwp ue;
          sched = \<lparr>sp_frame = f, sp_slot = s, sp_rbSize = 0, sp_rbStart = rbStart,
            sp_mcs = selected_mcs cand, sp_R = 0, sp_Qm = 0, sp_tb_size = 0, ul_harq_pid = -1,
            sp_nrOfLayers = nrOfLayers, tpmi = 0, time_domain_allocation = tda, tda_info = ti,
            dmrs_info = get_ul_dmrs_params L bwp ti nrOfLayers,
            bwp_info = get_pusch_bwp_start_size ue, phr_txpower_calc = 0\<rparr>
      in case ul_limit_power L ue sched eff_min_rb available_rb of
           Inl e \<Rightarrow> Inl e
         | Inr (available_rb, mcs) \<Rightarrow>
             let bler_mcs = (if mcs < u_bler_mcs ue then mcs else u_bler_mcs ue);
                 (R, Qm) = update_ul_ue_R_Qm (ul_phy L) mcs (ul_mcs_table bwp) (pusch_Config bwp);
                 sched = sched\<lparr>sp_mcs := mcs, sp_R := R, sp_Qm := Qm\<rparr>;
                 rbSize = ul_wanted_rb L ue sched (sched_inactive cand) eff_min_rb available_rb;
                 pol = rk_slice_policy_get (rk_slice_assoc_get_ul_id assoc (u_rnti ue));
                 rbSize = apply_floor_cap (ul_rb_floor pol) (ul_rb_cap pol) available_rb rbSize;
                 sched = sched\<lparr>sp_rbSize := rbSize\<rparr>;
                 sched = sched\<lparr>sp_tb_size := ul_tb_bytes L sched\<rparr>;
                 sched = sched\<lparr>phr_txpower_calc :=
                   compute_ph_factor (ul_phy L) (ul_scs bwp) (sp_tb_size sched * 8) rbSize nrOfLayers
                     (nrOfSymbols ti) (N_PRB_DMRS (dmrs_info sched) * num_dmrs_symb (dmrs_info sched))
                     (case pusch_Config bwp of None \<Rightarrow> False | Some c \<Rightarrow> has_deltaMCS c) False\<rparr>
             in Inr (sched, bler_mcs))"

section \<open>Facts\<close>

lemma ul_find_rbs_spec:
  assumes "ul_find_rbs msk bits bi eff_min_rb inactive = Some (s, n)" and "1 \<le> eff_min_rb"
  shows "0 \<le> s \<and> eff_min_rb \<le> n \<and> s + n \<le> bwpSize bi \<and> all_free (bwp_used msk bits bi) s n \<and>
    (\<forall>j. 0 \<le> j \<and> j < s \<longrightarrow> bwp_used msk bits bi j)"
proof -
  let ?u = "bwp_used msk bits bi"
  define m where "m = min (bwpSize bi - s) (uint16 (if inactive then eff_min_rb else bwpSize bi))"
  have s: "s = scan_while ?u (bwpSize bi) 0"
    and n: "n = scan_while (\<lambda>k. \<not> ?u (s + k)) m 1"
    and le: "s + eff_min_rb \<le> bwpSize bi" "eff_min_rb \<le> n"
    using assms(1) by (auto simp: ul_find_rbs_def m_def Let_def split: if_splits)
  have "0 \<le> s" unfolding s by (rule scan_while_ge)
  have free: "\<not> ?u s" using scan_while_stops [of ?u "bwpSize bi" 0] le assms(2) s by simp
  have "s + n \<le> bwpSize bi"
  proof (cases "1 \<le> m")
    case True
    then have "n \<le> m" unfolding n by (rule scan_while_le)
    then show ?thesis by (simp add: m_def)
  next
    case False
    then have "n = 1" unfolding n by (intro scan_while_over) simp
    then show ?thesis using le assms(2) by simp
  qed
  moreover have "\<not> ?u j" if "s \<le> j" "j < s + n" for j
  proof (cases "j = s")
    case False
    then have "\<not> ?u (s + (j - s))"
      using scan_while_passed [of 1 "j - s" "\<lambda>k. \<not> ?u (s + k)" m] that n by simp
    then show ?thesis by simp
  qed (simp add: free)
  moreover have "?u j" if "0 \<le> j" "j < s" for j using scan_while_passed [OF that(1)] that(2) s by blast
  ultimately show ?thesis using \<open>0 \<le> s\<close> le by (auto simp: all_free_def)
qed

lemma ul_limit_power_range:
  assumes "ul_limit_power L ue s eff_min_rb available = Inr (av, mcs)"
    and "1 \<le> eff_min_rb" "eff_min_rb \<le> available" "available < 65536"
  shows "eff_min_rb \<le> av \<and> av \<le> available \<and> mcs \<le> sp_mcs s \<and>
    (u_pcmax ue = 0 \<and> u_ph ue = 0 \<or> pending_bytes ue = 0 \<longrightarrow> av = available \<and> mcs = sp_mcs s)"
  using assms max_mcs_min_rb_range
  by (fastforce simp: ul_limit_power_def uint16_id split: if_splits)

text \<open>The size of a grant, with the blocks \<open>av\<close> that the power headroom leaves.\<close>

lemma ul_size_grant_spec:
  assumes law: "find_nb_rb_law L" and "1 \<le> eff_min_rb" "eff_min_rb \<le> available" "available < 65536"
    and "ul_size_grant L assoc ue cand eff_min_rb (st, available) time ly ti tda = Inr (sched, bm)"
  shows "\<exists>av. eff_min_rb \<le> av \<and> av \<le> available \<and>
    (u_pcmax ue = 0 \<and> u_ph ue = 0 \<or> pending_bytes ue = 0 \<longrightarrow> av = available) \<and>
    sp_rbStart sched = st \<and> 0 < sp_rbSize sched \<and> sp_rbSize sched \<le> av \<and>
    bwp_info sched = get_pusch_bwp_start_size ue \<and> ul_harq_pid sched = -1 \<and>
    sp_tb_size sched = ul_tb_bytes L sched \<and> sp_mcs sched \<le> selected_mcs cand \<and> bm \<le> u_bler_mcs ue \<and>
    (let pol = rk_slice_policy_get (rk_slice_assoc_get_ul_id assoc (u_rnti ue)) in
      (0 < ul_rb_cap pol \<longrightarrow> sp_rbSize sched \<le> ul_rb_cap pol) \<and>
      (ul_rb_cap pol \<le> 0 \<longrightarrow> max eff_min_rb (min (ul_rb_floor pol) av) \<le> sp_rbSize sched))"
proof -
  obtain f sl where time: "time = (f, sl)" by (cases time)
  define sch where "sch = \<lparr>sp_frame = f, sp_slot = sl, sp_rbSize = 0, sp_rbStart = st,
            sp_mcs = selected_mcs cand, sp_R = 0, sp_Qm = 0, sp_tb_size = 0, ul_harq_pid = -1,
            sp_nrOfLayers = ly, tpmi = 0, time_domain_allocation = tda, tda_info = ti,
            dmrs_info = get_ul_dmrs_params L (u_bwp ue) ti ly,
            bwp_info = get_pusch_bwp_start_size ue, phr_txpower_calc = 0\<rparr>"
  obtain av mcs where lim: "ul_limit_power L ue sch eff_min_rb available = Inr (av, mcs)"
    using assms(5) by (cases "ul_limit_power L ue sch eff_min_rb available")
      (auto simp: ul_size_grant_def time sch_def [symmetric] Let_def)
  note r = ul_limit_power_range [OF lim assms(2-4)]
  obtain R Qm where RQ: "update_ul_ue_R_Qm (ul_phy L) mcs (ul_mcs_table (u_bwp ue)) (pusch_Config (u_bwp ue)) = (R, Qm)"
    by fastforce
  define sch' where "sch' = sch\<lparr>sp_mcs := mcs, sp_R := R, sp_Qm := Qm\<rparr>"
  define w where "w = ul_wanted_rb L ue sch' (sched_inactive cand) eff_min_rb av"
  have w: "eff_min_rb \<le> w \<and> w \<le> av"
    using law r assms(2-4) unfolding find_nb_rb_law_def w_def ul_wanted_rb_def by (simp add: uint16_id)
  define pol where "pol = rk_slice_policy_get (rk_slice_assoc_get_ul_id assoc (u_rnti ue))"
  define rb where "rb = apply_floor_cap (ul_rb_floor pol) (ul_rb_cap pol) av w"
  have rb: "0 < rb \<and> rb \<le> av \<and> (0 < ul_rb_cap pol \<longrightarrow> rb \<le> ul_rb_cap pol) \<and>
      (ul_rb_cap pol \<le> 0 \<longrightarrow> min (ul_rb_floor pol) av \<le> rb \<and> w \<le> rb)"
    unfolding rb_def using apply_floor_cap_range [of w av "ul_rb_floor pol" "ul_rb_cap pol"] w assms(2) by auto
  have "sp_rbStart sched = st \<and> sp_rbSize sched = rb \<and> bwp_info sched = get_pusch_bwp_start_size ue \<and>
      ul_harq_pid sched = -1 \<and> sp_tb_size sched = ul_tb_bytes L sched \<and> sp_mcs sched = mcs \<and>
      bm = min mcs (u_bler_mcs ue)"
    using assms(5) lim RQ
    by (auto simp: ul_size_grant_def time sch_def [symmetric] sch'_def [symmetric] w_def [symmetric]
        pol_def [symmetric] rb_def [symmetric] Let_def ul_tb_bytes_def) (simp_all add: sch'_def sch_def)
  then show ?thesis using r rb w unfolding pol_def [symmetric] Let_def
    by (intro exI [of _ av]) (auto simp: sch_def)
qed

lemma apply_floor_cap_le: "0 < c \<Longrightarrow> apply_floor_cap f c av rb \<le> c"
  by (simp add: apply_floor_cap_def Let_def)

lemma ul_size_grant_frame:
  assumes "ul_size_grant L assoc ue cand k place (f, s) ly ti tda = Inr (sched, bm)"
    and "pol = rk_slice_policy_get (rk_slice_assoc_get_ul_id assoc (u_rnti ue))"
  shows "sp_frame sched = f \<and> sp_slot sched = s \<and> ul_harq_pid sched = -1 \<and> tda_info sched = ti \<and>
    (0 < ul_rb_cap pol \<longrightarrow> sp_rbSize sched \<le> ul_rb_cap pol)"
  using assms(1) unfolding ul_size_grant_def assms(2) [symmetric]
  by (auto simp: Let_def apply_floor_cap_le split: sum.splits prod.splits)

lemma ul_size_grant_mcs:
  assumes "ul_size_grant L assoc ue cand k place time ly ti tda = Inr (sched, bm)"
  shows "sp_mcs sched \<le> selected_mcs cand"
proof -
  have "mcs \<le> sp_mcs s" if "ul_limit_power L ue s k av = Inr (av', mcs)" for s av av' mcs
    using that max_mcs_min_rb_range by (fastforce simp: ul_limit_power_def split: if_splits)
  then show ?thesis
    using assms unfolding ul_size_grant_def by (fastforce simp: Let_def split: sum.splits prod.splits)
qed

lemma ul_retx_new_tda_start:
  "ul_retx_new_tda L msk ul_bwp bi retInfo tda ti new_sched = Some s \<Longrightarrow>
   sp_rbStart s = scan_while (bwp_used msk (SL_to_bitmap L (startSymbolIndex ti) (nrOfSymbols ti)) bi) (bwpSize bi) 0 \<and>
   tda_info s = ti \<and> ul_harq_pid s = ul_harq_pid new_sched \<and> bwp_info s = bwp_info new_sched"
  by (auto simp: ul_retx_new_tda_def Let_def split: prod.splits if_splits)

lemma ul_retx_new_tda_spec:
  assumes "find_nb_rb_law L" and "ul_retx_new_tda L msk ul_bwp bi retInfo tda ti new_sched = Some s"
    and "0 < sp_rbSize s \<longrightarrow> 0 < scan_while (\<lambda>n. \<not> bwp_used msk bits bi (sp_rbStart s + n)) (bwpSize bi - sp_rbStart s) 0"
    and "bits = SL_to_bitmap L (startSymbolIndex ti) (nrOfSymbols ti)"
  shows "sp_tb_size s = sp_tb_size retInfo \<and> tda_info s = ti \<and>
    sp_rbStart s = scan_while (bwp_used msk bits bi) (bwpSize bi) 0 \<and>
    (0 < sp_rbSize s \<longrightarrow> sp_rbStart s + sp_rbSize s \<le> bwpSize bi \<and>
      all_free (bwp_used msk bits bi) (sp_rbStart s) (sp_rbSize s))"
proof -
  define st where "st = scan_while (bwp_used msk bits bi) (bwpSize bi) 0"
  define n where "n = scan_while (\<lambda>n. \<not> bwp_used msk bits bi (st + n)) (bwpSize bi - st) 0"
  define di where "di = get_ul_dmrs_params L ul_bwp ti (sp_nrOfLayers retInfo)"
  define r where "r = nr_find_nb_rb L (sp_Qm retInfo) (sp_R retInfo) (ul_transform_precoding ul_bwp)
      (sp_nrOfLayers retInfo) (nrOfSymbols ti) (N_PRB_DMRS di * num_dmrs_symb di) (sp_tb_size retInfo) 1 n"
  obtain success new_tbs new_rbSize where r3: "r = (success, new_tbs, new_rbSize)" by (cases r) auto
  have s: "sp_rbStart s = st" "sp_rbSize s = new_rbSize" "sp_tb_size s = sp_tb_size retInfo" "tda_info s = ti"
    using assms(2) r3 unfolding ul_retx_new_tda_def r_def n_def st_def di_def assms(4)
    by (auto simp: Let_def split: if_splits)
  have n0: "0 \<le> n" unfolding n_def by (rule scan_while_ge)
  show ?thesis
  proof (cases "0 < new_rbSize")
    case True
    then have n: "1 \<le> n" using assms(3) s by (simp add: n_def)
    then have "new_rbSize \<le> n" using assms(1) r3 unfolding find_nb_rb_law_def r_def
      by (metis order_refl snd_conv)
    moreover have "n \<le> bwpSize bi - st"
    proof (cases "0 \<le> bwpSize bi - st")
      case True
      then show ?thesis unfolding n_def by (rule scan_while_le)
    next
      case False
      then have "n = 0" unfolding n_def by (intro scan_while_over) simp
      then show ?thesis using n by simp
    qed
    moreover have "all_free (bwp_used msk bits bi) st n"
      unfolding n_def using grow_free [of "bwpSize bi - st" "bwp_used msk bits bi" st] calculation n by simp
    ultimately show ?thesis using s True all_free_sub [of _ st n st new_rbSize] by (auto simp: st_def)
  next
    case False
    then show ?thesis using s by (simp add: st_def)
  qed
qed

section \<open>Properties\<close>

text \<open>
  C27. A new uplink grant is sound: it lies inside the bandwidth part, starts at the first free block,
  every block it covers is free in the symbols of the allocation, it never exceeds the slice's cap,
  and without a cap it has at least the UE's minimum and the slice's floor, as far as the free run
  and the power headroom allow.
\<close>

theorem ul_grant_sound:
  assumes "find_nb_rb_law L" and "1 \<le> eff_min_rb" and "bwpSize (get_pusch_bwp_start_size ue) < 65536"
    and "ul_find_rbs msk bits (get_pusch_bwp_start_size ue) eff_min_rb (sched_inactive cand) = Some (st, available)"
    and "ul_size_grant L assoc ue cand eff_min_rb (st, available) time ly ti tda = Inr (sched, bm)"
    and "pol = rk_slice_policy_get (rk_slice_assoc_get_ul_id assoc (u_rnti ue))"
    and "start = bwpStart (bwp_info sched) + sp_rbStart sched"
  shows "0 \<le> sp_rbStart sched \<and> 0 < sp_rbSize sched \<and>
    sp_rbStart sched + sp_rbSize sched \<le> bwpSize (bwp_info sched) \<and>
    (\<forall>rb. start \<le> rb \<and> rb < start + sp_rbSize sched \<longrightarrow> \<not> rb_used msk bits rb) \<and>
    (\<forall>rb. bwpStart (bwp_info sched) \<le> rb \<and> rb < start \<longrightarrow> rb_used msk bits rb) \<and>
    (0 < ul_rb_cap pol \<longrightarrow> sp_rbSize sched \<le> ul_rb_cap pol) \<and>
    (ul_rb_cap pol \<le> 0 \<longrightarrow> eff_min_rb \<le> sp_rbSize sched \<and>
      (pending_bytes ue = 0 \<longrightarrow> min (ul_rb_floor pol) available \<le> sp_rbSize sched))"
proof -
  let ?bi = "get_pusch_bwp_start_size ue"
  note f = ul_find_rbs_spec [OF assms(4,2)]
  then have "available < 65536" using assms(3) by linarith
  then obtain av where av: "eff_min_rb \<le> av" "av \<le> available" "pending_bytes ue = 0 \<longrightarrow> av = available"
    "sp_rbStart sched = st" "0 < sp_rbSize sched" "sp_rbSize sched \<le> av" "bwp_info sched = ?bi"
    "0 < ul_rb_cap pol \<longrightarrow> sp_rbSize sched \<le> ul_rb_cap pol"
    "ul_rb_cap pol \<le> 0 \<longrightarrow> max eff_min_rb (min (ul_rb_floor pol) av) \<le> sp_rbSize sched"
    using ul_size_grant_spec [OF assms(1,2) _ _ assms(5)] f unfolding assms(6) Let_def by auto
  have "\<not> rb_used msk bits rb" if "start \<le> rb" "rb < start + sp_rbSize sched" for rb
  proof -
    have "\<not> bwp_used msk bits ?bi (rb - bwpStart ?bi)"
      using f that av assms(7) unfolding all_free_def by simp
    then show ?thesis by (simp add: bwp_used_def)
  qed
  moreover have "rb_used msk bits rb" if "bwpStart ?bi \<le> rb" "rb < start" for rb
  proof -
    have "bwp_used msk bits ?bi (rb - bwpStart ?bi)" using f that av assms(7) by simp
    then show ?thesis by (simp add: bwp_used_def)
  qed
  ultimately show ?thesis using f av by auto
qed

definition ul_lib_example :: ul_lib where
  "ul_lib_example = \<lparr>ul_phy = phy_example, SL_to_bitmap = sl_example,
     nr_find_nb_rb = (\<lambda>_ _ _ _ _ _ _ lo hi. (True, 10, hi)),
     get_ul_dmrs_params = (\<lambda>_ _ _. NR_pusch_dmrs_t.make 0 1 1 0 0 0 0 0 0 False),
     get_NTN_Koffset = 0, MAX_FRAME_NUMBER = 1024\<rparr>"

lemma ul_lib_example_law: "find_nb_rb_law ul_lib_example"
  by (simp add: find_nb_rb_law_def ul_lib_example_def)

definition ul_ue_example :: "int \<Rightarrow> int list ul_ue" where
  "ul_ue_example start = \<lparr>u_rnti = 7, u_ul_failure = False, u_beam_index = 0, u_ul_thr_ue = FFin False 1,
     u_current_bytes = 0, u_current_rbs = 0, u_total_rbs = 0, u_total_rbs_retx = 0,
     u_total_bytes_scheduled = 0, u_rounds = (\<lambda>_. 0), u_ctrl = ul_example [0, 1] [] [],
     u_estimated_ul_buffer = 100, u_SR = False, u_last_ul_frame = 0, u_last_ul_slot = 0, u_pcmax = 0,
     u_ph = 0, u_bler_mcs = 9, u_ul_cce_fail = 0, u_cce_index = 0, u_transm_interrupt = False,
     u_tpc0 = 0, u_bwp = \<lparr>BWPStart = start, BWPSize = 20, is_dci_0_0 = False, ul_scs = 1,
       ul_mcs_table = 0, ul_transform_precoding = False, pusch_Config = None\<rparr>,
     u_common_ss = False, u_initial_ul_BWPSize = 20\<rparr>"

definition tda_example :: NR_tda_info_t where
  "tda_example = \<lparr>valid_tda = True, k2 = 3, startSymbolIndex = 0, nrOfSymbols = 14\<rparr>"

definition cand_example :: ul_UEsched_t where
  "cand_example = \<lparr>coef = FFin False 1, us_UE = 0, sched_inactive = False, selected_mcs = 9\<rparr>"

lemma get_pusch_bwp_example [simp]:
  "get_pusch_bwp_start_size (ul_ue_example start) = \<lparr>bwpStart = start, bwpSize = 20\<rparr>"
  by (simp add: get_pusch_bwp_start_size_def ul_ue_example_def)

theorem ul_grant_sound_witness:
  "\<exists>sched bm. ul_size_grant ul_lib_example g_rk_slice_assoc_init (ul_ue_example 0) cand_example 5 (2, 18) (1, 3) 1
      tda_example 0 = Inr (sched, bm) \<and>
    (\<forall>rb. 2 \<le> rb \<and> rb < 2 + sp_rbSize sched \<longrightarrow> \<not> rb_used (\<lambda>i. if i < 2 then 1 else 0) 1 rb) \<and>
    5 \<le> sp_rbSize sched"
proof -
  have find: "ul_find_rbs (\<lambda>i. if i < 2 then 1 else 0) 1 \<lparr>bwpStart = 0, bwpSize = 20\<rparr> 5 False = Some (2, 18)"
    by code_simp
  have sl: "rk_slice_assoc_get_ul_id g_rk_slice_assoc_init 7 = 0" by code_simp
  have pol: "ul_rb_cap (rk_slice_policy_get 0) = 0"
    by (simp add: rk_slice_policy_get_def g_rk_slice_policy_table_def rk_slice_policy_t.defs)
  obtain sched bm where sched: "ul_size_grant ul_lib_example g_rk_slice_assoc_init (ul_ue_example 0) cand_example 5
      (2, 18) (1, 3) 1 tda_example 0 = Inr (sched, bm)"
    by (simp add: ul_size_grant_def ul_limit_power_def ul_ue_example_def Let_def split_beta)
  have "u_rnti (ul_ue_example 0) = 7" by (simp add: ul_ue_example_def)
  then have "bwp_info sched = \<lparr>bwpStart = 0, bwpSize = 20\<rparr> \<and> sp_rbStart sched = 2"
    using ul_size_grant_spec [OF ul_lib_example_law _ _ _ sched] by auto
  then show ?thesis
    using ul_grant_sound [OF ul_lib_example_law, of 5 "ul_ue_example 0" "\<lambda>i. if i < 2 then 1 else 0" 1
        cand_example 2 18 g_rk_slice_assoc_init "(1, 3)" 1 tda_example 0 sched bm] find sched sl pol
      \<open>u_rnti (ul_ue_example 0) = 7\<close>
    by (intro exI [of _ sched] exI [of _ bm]) (auto simp: cand_example_def)
qed

text \<open>
  Marking a grant protects it in a bandwidth part that starts at block 0: the blocks marked are
  then exactly those of the grant, and every later search for a free run of the same symbols avoids
  them.  In a bandwidth part that starts later the last \<open>bwpStart\<close> blocks of the grant stay unmarked,
  all of them when the grant is no longer than \<open>bwpStart\<close>.
\<close>

lemma ul_mark_protects:
  assumes "bits \<noteq> 0" and "0 \<le> bwpStart bi" and "bwp_info sched = bi"
    and "start = bwpStart bi + sp_rbStart sched" and "stop = start + sp_rbSize sched"
    and "\<forall>rb. start \<le> rb \<and> rb < stop \<longrightarrow> \<not> rb_used msk bits rb"
  shows "(\<forall>rb. rb_used (ul_mark L sched bits msk) bits rb \<longleftrightarrow>
      rb_used msk bits rb \<or> start \<le> rb \<and> rb < stop - bwpStart bi) \<and>
    (bwpStart bi = 0 \<longrightarrow>
      (\<forall>bi' k inactive s n. bwpStart bi' = 0 \<and> 1 \<le> k \<and>
        ul_find_rbs (ul_mark L sched bits msk) bits bi' k inactive = Some (s, n) \<longrightarrow>
          s + n \<le> start \<or> stop \<le> s \<or> stop \<le> start))"
proof -
  have mark: "rb_used (ul_mark L sched bits msk) bits rb \<longleftrightarrow>
      rb_used msk bits rb \<or> start \<le> rb \<and> rb < stop - bwpStart bi" for rb
    unfolding ul_mark_def rb_used_mark [OF assms(1)] assms(3-5) by auto
  have "s + n \<le> start \<or> stop \<le> s \<or> stop \<le> start"
    if "bwpStart bi = 0" "bwpStart bi' = 0" "1 \<le> k"
      and find: "ul_find_rbs (ul_mark L sched bits msk) bits bi' k inactive = Some (s, n)" for bi' k inactive s n
  proof (rule ccontr)
    assume *: "\<not> ?thesis"
    define j where "j = max s start"
    have "s \<le> j" "j < s + n" "start \<le> j" "j < stop" using * ul_find_rbs_spec [OF find that(3)] that(3)
      by (auto simp: j_def)
    then show False using ul_find_rbs_spec [OF find that(3)] mark [of j] that(1,2)
      unfolding all_free_def bwp_used_def by auto
  qed
  with mark show ?thesis by blast
qed

definition grant_example :: "int \<Rightarrow> int \<Rightarrow> NR_sched_pusch_t" where
  "grant_example start n = no_sched\<lparr>sp_rbStart := 0, sp_rbSize := n, bwp_info := \<lparr>bwpStart = start, bwpSize = 20\<rparr>\<rparr>"

text \<open>
  An uplink retransmission with a new time allocation carries the same number of bytes, in blocks
  that are all free.  One that keeps its old allocation starts at the first free block, but only that
  block is known to be free: it is granted even if its other blocks are used, and there are masks
  where it overlaps another grant.
\<close>

lemma ul_retx_place:
  assumes "find_nb_rb_law L" and "ul_retx_alloc L msk ue n frame slot harq_pid tda ti = Inr (Some sched)"
    and "ret = sched_pusch (harq_processes (u_ctrl ue) harq_pid)"
    and "reuse \<longleftrightarrow> startSymbolIndex (tda_info ret) = startSymbolIndex ti \<and> nrOfSymbols (tda_info ret) \<le> nrOfSymbols ti"
    and "bits = SL_to_bitmap L (startSymbolIndex (tda_info sched)) (nrOfSymbols (tda_info sched))"
    and "bi = get_pusch_bwp_start_size ue"
    and "0 \<le> j" "j < bwpSize bi" "\<not> bwp_used msk bits bi j" and "0 < sp_rbSize sched"
  shows "ul_harq_pid sched = harq_pid \<and> sp_tb_size sched = sp_tb_size ret \<and> bwp_info sched = bi \<and>
    0 \<le> sp_rbStart sched \<and> sp_rbStart sched + sp_rbSize sched \<le> bwpSize bi \<and>
    (\<forall>j. 0 \<le> j \<and> j < sp_rbStart sched \<longrightarrow> bwp_used msk bits bi j) \<and>
    (\<not> reuse \<longrightarrow> all_free (bwp_used msk bits bi) (sp_rbStart sched) (sp_rbSize sched)) \<and>
    (\<exists>msk' s'. ul_retx_reuse ul_lib_example msk' \<lparr>bwpStart = 0, bwpSize = 20\<rparr> (grant_example 0 5) (grant_example 0 5) = Some s' \<and>
      bwp_used msk' 1 \<lparr>bwpStart = 0, bwpSize = 20\<rparr> (sp_rbStart s' + 1) \<and> 1 < sp_rbSize s')"
proof -
  let ?bi = "get_pusch_bwp_start_size ue"
  obtain f sl where t: "pusch_time L n frame slot ti = (f, sl)" by fastforce
  define new where "new = ret\<lparr>sp_frame := f, sp_slot := sl, bwp_info := ?bi\<rparr>"
  have pid: "ul_harq_pid ret = harq_pid"
    and alloc: "Some sched = (if reuse then ul_retx_reuse L msk ?bi ret new
      else ul_retx_new_tda L msk (u_bwp ue) ?bi ret tda ti new)"
    using assms(2) unfolding ul_retx_alloc_def assms(3) [symmetric] t new_def assms(4)
    by (auto simp: Let_def split: if_splits)
  have ex: "\<exists>msk' s'. ul_retx_reuse ul_lib_example msk' \<lparr>bwpStart = 0, bwpSize = 20\<rparr> (grant_example 0 5) (grant_example 0 5) = Some s' \<and>
      bwp_used msk' 1 \<lparr>bwpStart = 0, bwpSize = 20\<rparr> (sp_rbStart s' + 1) \<and> 1 < sp_rbSize s'"
    by (rule exI [of _ "\<lambda>i. if i = 1 then 1 else 0"], rule exI [of _ "grant_example 0 5"]) code_simp
  have start: "0 \<le> scan_while P k 0" for P k by (rule scan_while_ge)
  define st where "st = scan_while (bwp_used msk bits ?bi) (bwpSize ?bi) 0"
  have "\<not> j < st" using scan_while_passed [of 0 j "bwp_used msk bits ?bi" "bwpSize ?bi"] assms(6-9)
    by (auto simp: st_def)
  then have free: "st < bwpSize ?bi" "\<not> bwp_used msk bits ?bi st"
    using assms(6,8) scan_while_stops [of "bwp_used msk bits ?bi" "bwpSize ?bi" 0] by (auto simp: st_def)
  show ?thesis
  proof (cases reuse)
    case True
    then have r: "ul_retx_reuse L msk ?bi ret new = Some sched" using alloc by simp
    then have s: "sp_rbStart sched = scan_while (bwp_used msk bits ?bi) (bwpSize ?bi) 0"
      "sp_rbStart sched + sp_rbSize ret \<le> bwpSize ?bi" "sp_rbSize sched = sp_rbSize ret"
      "sp_tb_size sched = sp_tb_size ret" "ul_harq_pid sched = ul_harq_pid ret" "bwp_info sched = ?bi"
      unfolding assms(5) ul_retx_reuse_def by (auto simp: new_def Let_def split: if_splits)
    then show ?thesis using True pid ex start scan_while_passed [of 0 _ "bwp_used msk bits ?bi" "bwpSize ?bi"]
      unfolding assms(6) by auto
  next
    case False
    then have r: "ul_retx_new_tda L msk (u_bwp ue) ?bi ret tda ti new = Some sched" using alloc by simp
    note start_at = ul_retx_new_tda_start [OF r]
    then have ti: "tda_info sched = ti" "ul_harq_pid sched = ul_harq_pid ret" "bwp_info sched = ?bi"
      and sst: "sp_rbStart sched = st"
      by (simp_all add: new_def st_def assms(5))
    have "0 < scan_while (\<lambda>k. \<not> bwp_used msk bits ?bi (sp_rbStart sched + k)) (bwpSize ?bi - sp_rbStart sched) 0"
    proof -
      let ?P = "\<lambda>k. \<not> bwp_used msk bits ?bi (sp_rbStart sched + k)"
      have "scan_while ?P (bwpSize ?bi - sp_rbStart sched) 0 = scan_while ?P (bwpSize ?bi - sp_rbStart sched) 1"
        using free sst by (subst scan_while.simps) simp
      moreover have "1 \<le> scan_while ?P (bwpSize ?bi - sp_rbStart sched) 1" by (rule scan_while_ge)
      ultimately show ?thesis by linarith
    qed
    then show ?thesis using ul_retx_new_tda_spec [OF assms(1) r, of bits] False pid ex ti start assms(5,10)
        scan_while_passed [of 0 _ "bwp_used msk bits ?bi" "bwpSize ?bi"]
      unfolding assms(6) by auto
  qed
qed

definition retx_ue_example :: "int list ul_ue" where
  "retx_ue_example = (ul_ue_example 0)\<lparr>u_ctrl := (ul_example [] [] [0])\<lparr>harq_processes := (\<lambda>_.
     \<lparr>is_waiting = False, ndi = 0, round = 1, ul_feedback_slot = 0,
      sched_pusch = (grant_example 0 5)\<lparr>ul_harq_pid := 0, sp_tb_size := 10\<rparr>\<rparr>)\<rparr>\<rparr>"

end
