(* ===== verification/DlGrant.thy ===== *)
theory DlGrant imports RbSearch UlGrant UeDlPolicy begin

text \<open>
  The place and size of a downlink grant (\<^verbatim>\<open>gnb_patch/gNB_scheduler_dlsch.c\<close>): \<^verbatim>\<open>get_dl_tda\<close>,
  \<^verbatim>\<open>get_pdsch_bwp_start_size\<close>, the search of \<^verbatim>\<open>allocate_dl_retransmission\<close> and of \<^verbatim>\<open>pf_dl\<close> for
  resource blocks, and the transport block of a new grant with the floor and the cap of the slice.
  \<open>msk\<close> is the map of used resource blocks of a beam, in carrier coordinates.
\<close>

section \<open>Data\<close>

record NR_UE_DL_BWP_t =
  dl_BWPStart :: int
  dl_BWPSize :: int
  is_dci_1_0 :: bool
  dl_scs :: int
  dl_mcsTableIdx :: int
  dl_cyclicprefix :: "int option"
  dl_dataScramblingId :: "int option"
  dl_resourceAllocationType1 :: bool

text \<open>The control elements a UE can be sent, \<open>None\<close> when \<^verbatim>\<open>is_scheduled\<close> is not set.\<close>

record pdcch_state_ind_t =
  psi_coresetId :: int
  psi_servingCellId :: int
  psi_tciStateId :: int

record SP_CSI_reporting_t =
  sp_bwpId :: int
  sp_servingCellId :: int
  sp_s0tos3_actDeact :: "bool list"

record TCI_states_t =
  tci_bwpId :: int
  tci_servingCellId :: int
  tci_highest :: int
  tci_actDeact :: "int \<Rightarrow> bool"

record sp_zp_csi_rs_t =
  zp_act_deact :: bool
  zp_serv_cell_id :: int
  zp_bwpid :: int
  zp_rsc_id :: int

record csi_im_t =
  im_act_deact :: bool
  im_serv_cellid :: int
  im_bwp_id :: int
  im_im :: bool
  im_nzp_csi_rsc_id :: int
  im_csi_im_rsc_id :: int
  im_tci_state_ids :: "int list"

record UE_mac_ce_ctrl_t =
  pdcch_state_ind :: "pdcch_state_ind_t option"
  SP_CSI_reporting_pucch :: "SP_CSI_reporting_t option"
  pdsch_TCI_States_ActDeact :: "TCI_states_t option"
  aperi_CSI_trigger :: "TCI_states_t option"
  sp_zp_csi_rs :: "sp_zp_csi_rs_t option"
  csi_im :: "csi_im_t option"

record nr_lc_config_t =
  lc_lcid :: int
  lc_suspended :: bool

record rlc_status_t =
  bytes_in_buffer :: int
  pdus_in_buffer :: int

text \<open>The UE as the downlink scheduler sees it.\<close>

record 'q dl_ue =
  d_rnti :: u16
  d_ul_failure :: bool
  d_beam_index :: int
  d_dl_thr_ue :: fl
  d_current_bytes :: u32
  d_current_rbs :: int
  d_total_bytes :: int
  d_total_rbs :: int
  d_total_rbs_retx :: int
  d_total_sdu_bytes :: int
  d_num_mac_sdu :: int
  d_lc_bytes :: "int \<Rightarrow> int"
  d_rounds :: "int \<Rightarrow> int"
  d_ctrl :: "'q dl_sched_ctrl"
  d_sched_pdsch :: NR_sched_pdsch_t
  d_lc_config :: "nr_lc_config_t list"
  d_rlc_status :: "int \<Rightarrow> rlc_status_t"
  d_num_total_bytes :: int
  d_dl_pdus_total :: int
  d_transm_interrupt :: bool
  d_ta_frame :: int
  d_ta_apply :: bool
  d_ta_update :: int
  d_mac_ce_ctrl :: UE_mac_ce_ctrl_t
  d_dl_max_mcs :: int
  d_bler_mcs :: int
  d_dl_cce_fail :: int
  d_cce_index :: int
  d_tpc1 :: int
  d_sched_pucch :: "int \<Rightarrow> int \<times> int"
  d_feedback_disabled :: "int \<Rightarrow> bool"
  d_bwp :: NR_UE_DL_BWP_t
  d_common_ss :: bool
  d_coresetid :: int
  d_pdcch_rb_start :: int
  d_initial_dl_BWPSize :: int
  d_dl_bw_tbslbrm :: int
  d_maxMIMO_Layers :: "int option"

text \<open>
  The functions of other files that only the downlink uses, beside those of \<open>ul_lib\<close>.  The UE is an
  argument of the functions that read its configuration.
\<close>

record 'q dl_lib = ul_lib +
  get_dl_tda_info :: "'q dl_ue \<Rightarrow> int \<Rightarrow> NR_tda_info_t"
  get_dl_dmrs_params :: "'q dl_ue \<Rightarrow> NR_tda_info_t \<Rightarrow> int \<Rightarrow> NR_pdsch_dmrs_t"
  nr_get_Qm_dl :: "int \<Rightarrow> int \<Rightarrow> u8"
  nr_get_code_rate_dl :: "int \<Rightarrow> int \<Rightarrow> u16"
  get_dl_nrOfLayers :: "'q dl_ue \<Rightarrow> int"
  get_pm_index :: "'q dl_ue \<Rightarrow> int \<Rightarrow> int"

record dl_cfg =
  dcfg_is_tdd :: bool
  dcfg_slot_idx :: "int \<Rightarrow> int"
  dcfg_num_dl_symbols :: "int \<Rightarrow> int"
  dcfg_is_mixed_slot :: "int \<Rightarrow> bool"
  dcfg_sched_csirs :: int
  dcfg_slots_frame :: int
  dcfg_cset0_bwp_start :: int
  dcfg_cset0_bwp_size :: int
  dcfg_harq_round_max :: int
  dcfg_bler_max_mcs :: int
  dcfg_num_beams :: nat
  dcfg_bw :: int
  dcfg_NR_NB_REG_PER_CCE :: int
  dcfg_MAX_DCI_CORESET :: int
  dcfg_tag_Id :: int
  dcfg_phy_test :: bool
  dcfg_do_ra :: bool
  dcfg_ssb_scs :: int
  dcfg_physCellId :: int
  dcfg_initial_bw :: int

section \<open>Time-domain allocation and bandwidth part\<close>

definition get_dl_tda :: "dl_cfg \<Rightarrow> int \<Rightarrow> int" where
  "get_dl_tda C slot =
     (if 0 < dcfg_sched_csirs C then 1
      else if dcfg_is_tdd C \<and>
              (let s = dcfg_slot_idx C slot in 1 < dcfg_num_dl_symbols C s \<and> dcfg_is_mixed_slot C s)
      then 2 else 0)"

text \<open>
  Resource blocks are counted from the CORESET when the DCI is decoded in a common search space.
  \<open>None\<close> asks for the broadcast channels.
\<close>

definition get_pdsch_bwp_start_size :: "dl_cfg \<Rightarrow> 'q dl_ue option \<Rightarrow> bwp_info_t" where
  "get_pdsch_bwp_start_size C UE =
     (case UE of
        None \<Rightarrow> \<lparr>bwpStart = dcfg_cset0_bwp_start C, bwpSize = dcfg_cset0_bwp_size C\<rparr>
      | Some ue \<Rightarrow>
          let bwp = d_bwp ue in
          if is_dci_1_0 bwp \<and> d_common_ss ue
          then let st = (if d_coresetid ue = 0 then dcfg_cset0_bwp_start C
                         else dl_BWPStart bwp + d_pdcch_rb_start ue);
                   sz = (if 0 < dcfg_cset0_bwp_size C then min (dl_BWPSize bwp - st) (dcfg_cset0_bwp_size C)
                         else min (dl_BWPSize bwp - st) (d_initial_dl_BWPSize ue))
               in \<lparr>bwpStart = st, bwpSize = sz\<rparr>
          else \<lparr>bwpStart = dl_BWPStart bwp, bwpSize = dl_BWPSize bwp\<rparr>)"

section \<open>Retransmissions\<close>

definition pdsch_dmrs_res :: "NR_pdsch_dmrs_t \<Rightarrow> int" where
  "pdsch_dmrs_res d = pd_N_PRB_DMRS d * pd_N_DMRS_SLOT d"

text \<open>
  The branch that keeps the old TDA: the first run of free blocks that is as long as the old
  allocation.  The result is its start in the carrier.
\<close>

definition dl_retx_reuse :: "'q dl_lib \<Rightarrow> prb_map \<Rightarrow> bwp_info_t \<Rightarrow> NR_sched_pdsch_t \<Rightarrow> int option" where
  "dl_retx_reuse L msk bi retInfo =
     (let slbitmap = SL_to_bitmap L (startSymbolIndex (pd_tda_info retInfo)) (nrOfSymbols (pd_tda_info retInfo))
      in find_run (rb_used msk slbitmap) (bwpStart bi + bwpSize bi - 1) (pd_rbSize retInfo) (bwpStart bi))"

text \<open>
  The branch that takes a new TDA or fewer layers: the blocks behind the first free one must allow
  the same transport block.  The result is the new information on the process and the start.
\<close>

definition dl_retx_new_tda ::
    "'q dl_lib \<Rightarrow> prb_map \<Rightarrow> 'q dl_ue \<Rightarrow> bwp_info_t \<Rightarrow> NR_sched_pdsch_t \<Rightarrow> int \<Rightarrow> NR_tda_info_t \<Rightarrow> int \<Rightarrow> int \<Rightarrow>
     (NR_sched_pdsch_t \<times> int) option" where
  "dl_retx_new_tda L msk ue bi retInfo tda temp_tda layers pm_index =
     (let temp_dmrs = get_dl_dmrs_params L ue temp_tda layers;
          slbitmap = SL_to_bitmap L (startSymbolIndex temp_tda) (nrOfSymbols temp_tda);
          rbStop = bwpStart bi + bwpSize bi - 1;
          rbStart = scan_while (rb_used msk slbitmap) rbStop (bwpStart bi);
          rbSize = scan_while (\<lambda>n. \<not> rb_used msk slbitmap (rbStart + n)) (rbStop - rbStart + 1) 0;
          (success, new_tbs, new_rbSize) =
            nr_find_nb_rb L (pd_Qm retInfo) (pd_R retInfo) True layers (nrOfSymbols temp_tda)
              (pdsch_dmrs_res temp_dmrs) (pd_tb_size retInfo) 1 rbSize
      in if \<not> success \<or> new_tbs \<noteq> pd_tb_size retInfo then None
         else Some (retInfo\<lparr>pd_tb_size := new_tbs, pd_rbSize := new_rbSize, pd_time_domain_allocation := tda,
                pd_nrOfLayers := layers, pd_pm_index := pm_index, pd_dmrs_parms := temp_dmrs,
                pd_tda_info := temp_tda\<rparr>, rbStart))"

text \<open>The decision of \<^verbatim>\<open>allocate_dl_retransmission\<close> up to the search for a CCE.\<close>

definition dl_retx_place ::
    "'q dl_lib \<Rightarrow> dl_cfg \<Rightarrow> prb_map \<Rightarrow> 'q dl_ue \<Rightarrow> int \<Rightarrow> int \<Rightarrow> (NR_sched_pdsch_t \<times> int) option" where
  "dl_retx_place L C msk ue slot harq_pid =
     (let retInfo = sched_pdsch (harq_processes (d_ctrl ue) harq_pid);
          curInfo = d_sched_pdsch ue;
          fewer = pd_nrOfLayers curInfo < pd_nrOfLayers retInfo;
          layers = (if fewer then pd_nrOfLayers curInfo else pd_nrOfLayers retInfo);
          pm_index = (if fewer then pd_pm_index curInfo else pd_pm_index retInfo);
          tda = get_dl_tda C slot;
          temp_tda = get_dl_tda_info L ue tda
      in if \<not> valid_tda temp_tda then None
         else
           let reuse_old_tda =
                 (startSymbolIndex (pd_tda_info retInfo) = startSymbolIndex temp_tda \<and>
                  nrOfSymbols (pd_tda_info retInfo) \<le> nrOfSymbols temp_tda);
               bi = get_pdsch_bwp_start_size C (Some ue)
           in if reuse_old_tda \<and> layers = pd_nrOfLayers retInfo
              then map_option (\<lambda>rbStart. (retInfo, rbStart)) (dl_retx_reuse L msk bi retInfo)
              else dl_retx_new_tda L msk ue bi retInfo tda temp_tda layers pm_index)"

text \<open>
  The blocks a retransmission marks: the loop runs from the absolute start to the number of blocks.
\<close>

definition dl_retx_mark :: "'q dl_lib \<Rightarrow> NR_sched_pdsch_t \<Rightarrow> int \<Rightarrow> prb_map \<Rightarrow> prb_map" where
  "dl_retx_mark L retInfo rbStart msk =
     mark_rbs (SL_to_bitmap L (startSymbolIndex (pd_tda_info retInfo)) (nrOfSymbols (pd_tda_info retInfo)))
       rbStart (pd_rbSize retInfo) 0 msk"

section \<open>New transmissions\<close>

text \<open>
  The search of \<^verbatim>\<open>pf_dl\<close>, relative to the bandwidth part: the length starts at 1, whether the first
  block is free or not.
\<close>

definition dl_find_rbs :: "prb_map \<Rightarrow> u16 \<Rightarrow> bwp_info_t \<Rightarrow> int \<Rightarrow> (int \<times> int) option" where
  "dl_find_rbs msk slbitmap bi eff_dl_min_rb =
     (let rbStop = bwpSize bi - 1;
          rbStart = scan_while (bwp_used msk slbitmap bi) rbStop 0;
          max_rbSize = scan_while (\<lambda>n. \<not> bwp_used msk slbitmap bi (rbStart + n)) (rbStop - rbStart + 1) 1
      in if max_rbSize < eff_dl_min_rb then None else Some (rbStart, max_rbSize))"

definition dl_ta_due :: "'q dl_ue \<Rightarrow> int \<Rightarrow> bool" where
  "dl_ta_due ue frame \<longleftrightarrow> frame = (d_ta_frame ue + 100) mod 1024"

definition dl_tb_bytes :: "'q dl_lib \<Rightarrow> NR_sched_pdsch_t \<Rightarrow> int" where
  "dl_tb_bytes L s =
     nr_compute_tbs (ul_phy L) (uint (pd_Qm s)) (uint (pd_R s)) (pd_rbSize s) (nrOfSymbols (pd_tda_info s))
       (pdsch_dmrs_res (pd_dmrs_parms s)) (pd_nrOfLayers s) div 8"

text \<open>
  The grant from the found blocks on: MCS, DMRS, number of blocks with overhead for the headers, floor
  and cap of the slice, and the transport block.
\<close>

definition dl_size_grant ::
    "'q dl_lib \<Rightarrow> assoc_table \<Rightarrow> dl_table \<Rightarrow> 'q dl_ue \<Rightarrow> int \<Rightarrow> int \<Rightarrow> int \<times> int \<Rightarrow> int \<Rightarrow> NR_sched_pdsch_t" where
  "dl_size_grant L assoc t ue frame eff_dl_min_rb place alloc =
     (let (rbStart, max_rbSize) = place;
          s = d_sched_pdsch ue;
          ti = pd_tda_info s;
          s = s\<lparr>pd_mcs := min (pd_mcs s) (rk_ue_dl_get_max_mcs t (d_rnti ue) 28)\<rparr>;
          s = s\<lparr>pd_dmrs_parms := get_dl_dmrs_params L ue ti (pd_nrOfLayers s),
                pd_Qm := nr_get_Qm_dl L (pd_mcs s) (dl_mcsTableIdx (d_bwp ue)),
                pd_R := nr_get_code_rate_dl L (pd_mcs s) (dl_mcsTableIdx (d_bwp ue)),
                pd_pucch_allocation := alloc\<rparr>;
          oh = 3 * 4 + (if dl_ta_due ue frame then 2 else 0);
          (_, _, rbSize) =
            nr_find_nb_rb L (pd_Qm s) (pd_R s) True (pd_nrOfLayers s) (nrOfSymbols ti)
              (pdsch_dmrs_res (pd_dmrs_parms s)) (d_num_total_bytes ue + oh) eff_dl_min_rb max_rbSize;
          pol = rk_slice_policy_get (rk_slice_assoc_get_dl_id assoc (d_rnti ue));
          s = s\<lparr>pd_rbSize := apply_floor_cap (dl_rb_floor pol) (dl_rb_cap pol) max_rbSize rbSize,
                pd_rbStart := rbStart\<rparr>
      in s\<lparr>pd_tb_size := dl_tb_bytes L s\<rparr>)"

definition dl_mark :: "NR_sched_pdsch_t \<Rightarrow> u16 \<Rightarrow> prb_map \<Rightarrow> prb_map" where
  "dl_mark s bits msk = mark_rbs bits (bwpStart (pd_bwp_info s)) (pd_rbSize s) (pd_rbStart s) msk"

end
