(* ===== verification/DlSched.thy ===== *)
theory DlSched imports DlGrant begin

text \<open>
  The proportional fair pass of the downlink, \<^verbatim>\<open>allocate_dl_retransmission\<close> and \<^verbatim>\<open>pf_dl\<close> of
  \<^verbatim>\<open>gnb_patch/gNB_scheduler_dlsch.c\<close>, with the preprocessor that calls it.  A pass decides: it fills
  \<^verbatim>\<open>sched_pdsch\<close> of the UEs and marks resource blocks; \<^verbatim>\<open>nr_schedule_ue_spec\<close> executes the decision.
  The state \<open>dl_mac\<close> keeps the connected UEs, the maps of used resource blocks per beam, and the
  policies; the rest of the MAC is the opaque \<open>dm_rest\<close>, which only the functions of \<open>dl_env\<close> change.
\<close>

section \<open>State\<close>

record ('q, 'x) dl_mac =
  dm_ues :: "'q dl_ue list"
  dm_vrb_map :: "int \<Rightarrow> prb_map"
  dm_assoc :: assoc_table
  dm_runtime :: runtime_table
  dm_dl :: dl_state
  dm_rest :: 'x

text \<open>
  Functions of other files.  \<open>de_nr_acknack_scheduling\<close> returns the PUCCH occasions of the UE with the
  index of the one it took (negative for none).
\<close>

record ('q, 'x) dl_env =
  de_lib :: "'q dl_lib"
  de_lists :: "'q nr_list_ops"
  de_qsort :: "(dl_UEsched_t \<Rightarrow> dl_UEsched_t \<Rightarrow> int) \<Rightarrow> dl_UEsched_t list \<Rightarrow> dl_UEsched_t list"
  de_beam_allocation :: "'x \<Rightarrow> int \<Rightarrow> int \<Rightarrow> int \<Rightarrow> 'x \<times> int \<times> bool"
  de_reset_beam_status :: "'x \<Rightarrow> int \<Rightarrow> int \<Rightarrow> int \<Rightarrow> bool \<Rightarrow> 'x"
  de_get_cce_index :: "'x \<Rightarrow> u16 \<Rightarrow> int \<Rightarrow> int \<Rightarrow> 'x \<times> int"
  de_fill_pdcch_vrb_map :: "'x \<Rightarrow> u16 \<Rightarrow> int \<Rightarrow> int \<Rightarrow> 'x"
  de_get_mcs_from_bler :: "'x \<Rightarrow> 'q dl_ue \<Rightarrow> int \<Rightarrow> int \<Rightarrow> 'x \<times> int \<times> int"
  de_nr_get_pucch_resource :: "'q dl_ue \<Rightarrow> int \<Rightarrow> int"
  de_nr_acknack_scheduling ::
    "'x \<Rightarrow> 'q dl_ue \<Rightarrow> int \<Rightarrow> int \<Rightarrow> int \<Rightarrow> 'x \<times> (int \<Rightarrow> int \<times> int) \<times> int"
  de_nr_mac_rlc_status_ind :: "'x \<Rightarrow> u16 \<Rightarrow> int \<Rightarrow> int \<Rightarrow> rlc_status_t"
  de_DL_SCH_LCID_DTCH :: int

definition upd_dl_ue :: "nat \<Rightarrow> 'q dl_ue \<Rightarrow> ('q, 'x) dl_mac \<Rightarrow> ('q, 'x) dl_mac" where
  "upd_dl_ue i ue mac = mac\<lparr>dm_ues := (dm_ues mac)[i := ue]\<rparr>"

definition dl_grant_bits :: "('q, 'x) dl_env \<Rightarrow> NR_tda_info_t \<Rightarrow> u16" where
  "dl_grant_bits E ti = SL_to_bitmap (de_lib E) (startSymbolIndex ti) (nrOfSymbols ti)"

definition dl_reset_beam ::
    "('q, 'x) dl_env \<Rightarrow> int \<Rightarrow> int \<Rightarrow> 'q dl_ue \<Rightarrow> bool \<Rightarrow> ('q, 'x) dl_mac \<Rightarrow> ('q, 'x) dl_mac" where
  "dl_reset_beam E frame slot ue new_beam mac =
     mac\<lparr>dm_rest := de_reset_beam_status E (dm_rest mac) frame slot (d_beam_index ue) new_beam\<rparr>"

section \<open>Waiting data\<close>

text \<open>\<^verbatim>\<open>nr_store_dlsch_buffer\<close>: the status of every logical channel of a UE, and their sums.\<close>

definition dl_store_lc ::
    "('q, 'x) dl_env \<Rightarrow> 'x \<Rightarrow> int \<Rightarrow> nr_lc_config_t \<Rightarrow> 'q dl_ue \<Rightarrow> 'q dl_ue" where
  "dl_store_lc E x frame c ue =
     (let lcid = lc_lcid c;
          zero = \<lparr>bytes_in_buffer = 0, pdus_in_buffer = 0\<rparr>;
          ue = ue\<lparr>d_rlc_status := (d_rlc_status ue)(lcid := zero)\<rparr>
      in if lc_suspended c then ue
         else if lcid = de_DL_SCH_LCID_DTCH E \<and> d_transm_interrupt ue then ue
         else let st = de_nr_mac_rlc_status_ind E x (d_rnti ue) frame lcid;
                  ue = ue\<lparr>d_rlc_status := (d_rlc_status ue)(lcid := st)\<rparr>
              in if bytes_in_buffer st = 0 then ue
                 else ue\<lparr>d_dl_pdus_total := d_dl_pdus_total ue + pdus_in_buffer st,
                         d_num_total_bytes := d_num_total_bytes ue + bytes_in_buffer st\<rparr>)"

definition dl_store_ue :: "('q, 'x) dl_env \<Rightarrow> 'x \<Rightarrow> int \<Rightarrow> 'q dl_ue \<Rightarrow> 'q dl_ue" where
  "dl_store_ue E x frame ue =
     fold (dl_store_lc E x frame) (d_lc_config ue) (ue\<lparr>d_num_total_bytes := 0, d_dl_pdus_total := 0\<rparr>)"

definition nr_store_dlsch_buffer :: "('q, 'x) dl_env \<Rightarrow> int \<Rightarrow> ('q, 'x) dl_mac \<Rightarrow> ('q, 'x) dl_mac" where
  "nr_store_dlsch_buffer E frame mac = mac\<lparr>dm_ues := map (dl_store_ue E (dm_rest mac) frame) (dm_ues mac)\<rparr>"

section \<open>Retransmissions\<close>

text \<open>The PUCCH occasion of a grant, unless the process has no feedback: -1 and no change then.\<close>

definition dl_find_pucch ::
    "('q, 'x) dl_env \<Rightarrow> int \<Rightarrow> int \<Rightarrow> 'q dl_ue \<Rightarrow> int \<Rightarrow> int \<Rightarrow> 'x \<Rightarrow> ('x \<times> 'q dl_ue \<times> int) option" where
  "dl_find_pucch E frame slot ue harq_pid CCEIndex x =
     (if d_feedback_disabled ue harq_pid then Some (x, ue, -1)
      else let r_pucch = de_nr_get_pucch_resource E ue CCEIndex;
               (x, pucch, alloc) = de_nr_acknack_scheduling E x ue frame slot r_pucch
           in if alloc < 0 then None else Some (x, ue\<lparr>d_sched_pucch := pucch\<rparr>, alloc))"

text \<open>What \<^verbatim>\<open>nr_acknack_scheduling\<close> leaves behind when it finds no occasion.\<close>

definition dl_pucch_failed ::
    "('q, 'x) dl_env \<Rightarrow> int \<Rightarrow> int \<Rightarrow> nat \<Rightarrow> int \<Rightarrow> ('q, 'x) dl_mac \<Rightarrow> ('q, 'x) dl_mac" where
  "dl_pucch_failed E frame slot i CCEIndex mac =
     (let ue = dm_ues mac ! i;
          (x, pucch, alloc) =
            de_nr_acknack_scheduling E (dm_rest mac) ue frame slot (de_nr_get_pucch_resource E ue CCEIndex)
      in upd_dl_ue i (ue\<lparr>d_sched_pucch := pucch\<rparr>) (mac\<lparr>dm_rest := x\<rparr>))"

text \<open>
  \<^verbatim>\<open>allocate_dl_retransmission\<close>.  \<open>retInfo\<close> points into the HARQ process, so that its new values stay
  there even if no CCE or PUCCH is found.  The results are whether it was granted, and the resource
  blocks it takes from the budget.
\<close>

definition allocate_dl_retransmission ::
    "('q, 'x) dl_env \<Rightarrow> dl_cfg \<Rightarrow> int \<Rightarrow> int \<Rightarrow> nat \<Rightarrow> int \<Rightarrow> int \<Rightarrow> ('q, 'x) dl_mac \<Rightarrow>
     (int option \<times> ('q, 'x) dl_mac)" where
  "allocate_dl_retransmission E C frame slot i beam_idx harq_pid mac =
     (let ue = dm_ues mac ! i;
          msk = dm_vrb_map mac beam_idx
      in case dl_retx_place (de_lib E) C msk ue slot harq_pid of
           None \<Rightarrow> (None, mac)
         | Some (retInfo, rbStart) \<Rightarrow>
             let c = d_ctrl ue;
                 ue = ue\<lparr>d_ctrl := c\<lparr>harq_processes := (harq_processes c)(harq_pid :=
                          (harq_processes c harq_pid)\<lparr>sched_pdsch := retInfo\<rparr>)\<rparr>\<rparr>;
                 mac = upd_dl_ue i ue mac;
                 (x, CCEIndex) = de_get_cce_index E (dm_rest mac) (d_rnti ue) slot beam_idx;
                 mac = mac\<lparr>dm_rest := x\<rparr>
             in if CCEIndex < 0
                then (None, upd_dl_ue i (ue\<lparr>d_dl_cce_fail := d_dl_cce_fail ue + 1\<rparr>) mac)
                else case dl_find_pucch E frame slot ue harq_pid CCEIndex (dm_rest mac) of
                       None \<Rightarrow> (None, dl_pucch_failed E frame slot i CCEIndex mac)
                     | Some (x, ue, alloc) \<Rightarrow>
                         let bi = get_pdsch_bwp_start_size C (Some ue);
                             s = retInfo\<lparr>pd_rbStart := rbStart - bwpStart bi, pd_pucch_allocation := alloc,
                                         pd_bwp_info := bi\<rparr>;
                             ue = ue\<lparr>d_cce_index := CCEIndex, d_sched_pdsch := s\<rparr>
                         in (Some (pd_rbSize s),
                             (upd_dl_ue i ue mac)\<lparr>
                               dm_rest := de_fill_pdcch_vrb_map E x (d_rnti ue) CCEIndex beam_idx,
                               dm_vrb_map := (dm_vrb_map mac)(beam_idx := dl_retx_mark (de_lib E) retInfo rbStart msk)\<rparr>))"

section \<open>The candidates\<close>

record ('q, 'x) dl_pf_state =
  ds_mac :: "('q, 'x) dl_mac"
  ds_remainUEs :: "int \<Rightarrow> int"
  ds_n_rb_sched :: "int \<Rightarrow> int"
  ds_UE_sched :: "dl_UEsched_t list"

definition dl_total_rem_ues :: "dl_cfg \<Rightarrow> ('q, 'x) dl_pf_state \<Rightarrow> int" where
  "dl_total_rem_ues C st = (\<Sum>b \<leftarrow> [0..<dcfg_num_beams C]. ds_remainUEs st (int b))"

definition dl_coefficient :: "('q, 'x) dl_mac \<Rightarrow> 'q dl_ue \<Rightarrow> u32 \<Rightarrow> int \<Rightarrow> fl" where
  "dl_coefficient mac ue tbs dl_now_tick =
     (let t = g_rk_ue_dl_tbl (dm_dl mac); rnti = d_rnti ue;
          dl_pol = rk_slice_policy_get (rk_slice_assoc_get_dl_id (dm_assoc mac) rnti);
          dl_maxcg_override = rk_ue_dl_get_maxcg_override t rnti (-1);
          dl_maxcg = (if 0 < dl_maxcg_override then dl_maxcg_override else dl_max_consecutive_grants dl_pol);
          dl_throttled = rk_slice_runtime_dl_should_throttle (dm_runtime mac) rnti dl_now_tick dl_maxcg
      in final_coeff (coeff_of tbs (d_dl_thr_ue ue)) (dl_weight_mul dl_pol)
           (small_burst_hit (rk_ue_dl_get_small_burst_bytes t rnti 0) (d_num_total_bytes ue))
           (rk_ue_dl_get_small_burst_mul t rnti (f32 1)) dl_throttled
           (rk_ue_dl_get_sched_mul t rnti (f32 1)))"

text \<open>A UE with data or a due timing advance becomes a candidate.\<close>

definition dl_new_candidate ::
    "('q, 'x) dl_env \<Rightarrow> dl_cfg \<Rightarrow> int \<Rightarrow> int \<Rightarrow> nat \<Rightarrow> ('q, 'x) dl_pf_state \<Rightarrow> ('q, 'x) dl_pf_state" where
  "dl_new_candidate E C frame slot i st =
     (let mac = ds_mac st; ue = dm_ues mac ! i; L = de_lib E;
          tbl = dl_mcsTableIdx (d_bwp ue);
          max_mcs_table = (if tbl = 1 then 27 else 28);
          max_mcs = min (d_dl_max_mcs ue) (rk_ue_dl_get_max_mcs (g_rk_ue_dl_tbl (dm_dl mac)) (d_rnti ue) max_mcs_table);
          (x, bler_mcs, mcs) =
            (if dcfg_harq_round_max C = 1
             then (dm_rest mac, min (dcfg_bler_max_mcs C) max_mcs, min (dcfg_bler_max_mcs C) max_mcs)
             else de_get_mcs_from_bler E (dm_rest mac) ue max_mcs frame);
          layers = get_dl_nrOfLayers L ue;
          ue = ue\<lparr>d_bler_mcs := bler_mcs,
                  d_sched_pdsch := (d_sched_pdsch ue)\<lparr>pd_mcs := mcs, pd_nrOfLayers := layers,
                    pd_pm_index := get_pm_index L ue layers\<rparr>\<rparr>;
          tbs = to_u32 (nr_compute_tbs (ul_phy L) (uint (nr_get_Qm_dl L mcs tbl))
                  (uint (nr_get_code_rate_dl L mcs tbl)) 1 10 0 layers div 8);
          c = \<lparr>coef = dl_coefficient mac ue tbs (frame * dcfg_slots_frame C + slot), us_UE = i\<rparr>
      in st\<lparr>ds_mac := upd_dl_ue i ue (mac\<lparr>dm_rest := x\<rparr>), ds_UE_sched := ds_UE_sched st @ [c]\<rparr>)"

text \<open>The body of the loop over the connected UEs.\<close>

definition pf_dl_ue ::
    "('q, 'x) dl_env \<Rightarrow> dl_cfg \<Rightarrow> int \<Rightarrow> int \<Rightarrow> nat \<Rightarrow> ('q, 'x) dl_pf_state \<Rightarrow> ('q, 'x) dl_pf_state" where
  "pf_dl_ue E C frame slot i st =
     (let ue = dm_ues (ds_mac st) ! i in
      if d_ul_failure ue then st
      else
        let pid = nl_head (de_lists E) (retrans_harq (d_ctrl ue));
            ue = ue\<lparr>d_sched_pdsch := (d_sched_pdsch ue)\<lparr>dl_harq_pid := pid\<rparr>,
                    d_dl_thr_ue := update_thr (d_dl_thr_ue ue) (d_current_bytes ue)\<rparr>;
            mac = upd_dl_ue i ue (ds_mac st);
            st = st\<lparr>ds_mac := mac\<rparr>
        in if dl_total_rem_ues C st = 0 then st
           else if 0 \<le> pid then
             let (x, beam, new_beam) = de_beam_allocation E (dm_rest mac) frame slot (d_beam_index ue);
                 mac = mac\<lparr>dm_rest := x\<rparr>;
                 (granted, mac) =
                   (if 0 \<le> beam then allocate_dl_retransmission E C frame slot i beam pid mac else (None, mac))
             in (case granted of
                   None \<Rightarrow> st\<lparr>ds_mac := dl_reset_beam E frame slot ue new_beam mac\<rparr>
                 | Some rbs \<Rightarrow>
                     st\<lparr>ds_mac := mac, ds_n_rb_sched := (ds_n_rb_sched st)(beam := ds_n_rb_sched st beam - rbs),
                        ds_remainUEs := (ds_remainUEs st)(beam := ds_remainUEs st beam - 1)\<rparr>)
           else if nl_head (de_lists E) (available_harq (d_ctrl ue)) < 0 then st
           else if d_num_total_bytes ue = 0 \<and> \<not> dl_ta_due ue frame then st
           else dl_new_candidate E C frame slot i st)"

section \<open>Granting the candidates\<close>

datatype dl_error =
  DlHarqError harq_error | InvalidTda | TaCommandTooLarge | TbsTooSmall | TbsMismatch | BadResourceAllocation

text \<open>The body of the loop over the sorted candidates.\<close>

definition pf_dl_grant ::
    "('q, 'x) dl_env \<Rightarrow> dl_cfg \<Rightarrow> int \<Rightarrow> int \<Rightarrow> dl_UEsched_t \<Rightarrow> ('q, 'x) dl_pf_state \<Rightarrow>
     dl_error + ('q, 'x) dl_pf_state" where
  "pf_dl_grant E C frame slot cand st =
     (let mac = ds_mac st; i = us_UE cand; ue = dm_ues mac ! i; L = de_lib E;
          t = g_rk_ue_dl_tbl (dm_dl mac);
          eff_dl_min_rb = rk_ue_dl_get_min_grant_prb t (d_rnti ue) 5;
          pid = nl_head (de_lists E) (available_harq (d_ctrl ue))
      in if pid < 0 then Inr st
         else
           let (x, beam, new_beam) = de_beam_allocation E (dm_rest mac) frame slot (d_beam_index ue);
               mac = mac\<lparr>dm_rest := x\<rparr>
           in if beam < 0 then Inr (st\<lparr>ds_mac := mac\<rparr>)
              else if ds_remainUEs st beam = 0 \<or> ds_n_rb_sched st beam < eff_dl_min_rb
              then Inr (st\<lparr>ds_mac := dl_reset_beam E frame slot ue new_beam mac\<rparr>)
              else
                let tda = get_dl_tda C slot;
                    ti = get_dl_tda_info L ue tda;
                    bits = dl_grant_bits E ti;
                    bi = get_pdsch_bwp_start_size C (Some ue);
                    s = (d_sched_pdsch ue)\<lparr>dl_harq_pid := pid, pd_time_domain_allocation := tda, pd_tda_info := ti\<rparr>
                in if \<not> valid_tda ti then Inl InvalidTda
                   else
                     let ue = ue\<lparr>d_sched_pdsch := s\<lparr>pd_bwp_info := bi\<rparr>\<rparr>;
                         mac = upd_dl_ue i ue mac
                     in case dl_find_rbs (dm_vrb_map mac beam) bits bi eff_dl_min_rb of
                          None \<Rightarrow> Inr (st\<lparr>ds_mac := mac\<rparr>)
                        | Some place \<Rightarrow>
                            let (x, CCEIndex) = de_get_cce_index E (dm_rest mac) (d_rnti ue) slot beam;
                                mac = mac\<lparr>dm_rest := x\<rparr>
                            in if CCEIndex < 0
                               then Inr (st\<lparr>ds_mac := dl_reset_beam E frame slot ue new_beam
                                      (upd_dl_ue i (ue\<lparr>d_dl_cce_fail := d_dl_cce_fail ue + 1\<rparr>) mac)\<rparr>)
                               else case dl_find_pucch E frame slot ue pid CCEIndex (dm_rest mac) of
                                      None \<Rightarrow>
                                        Inr (st\<lparr>ds_mac := dl_reset_beam E frame slot ue new_beam
                                               (dl_pucch_failed E frame slot i CCEIndex mac)\<rparr>)
                                    | Some (x, ue, alloc) \<Rightarrow>
                                        let s = dl_size_grant L (dm_assoc mac) t ue frame eff_dl_min_rb place alloc;
                                            ue = ue\<lparr>d_cce_index := CCEIndex, d_sched_pdsch := s\<rparr>
                                        in Inr (st\<lparr>ds_mac := (upd_dl_ue i ue mac)\<lparr>
                                                 dm_rest := de_fill_pdcch_vrb_map E x (d_rnti ue) CCEIndex beam,
                                                 dm_vrb_map := (dm_vrb_map mac)(beam := dl_mark s bits (dm_vrb_map mac beam))\<rparr>,
                                               ds_n_rb_sched := (ds_n_rb_sched st)(beam := ds_n_rb_sched st beam - pd_rbSize s),
                                               ds_remainUEs := (ds_remainUEs st)(beam := ds_remainUEs st beam - 1)\<rparr>))"

section \<open>The pass\<close>

definition pf_dl ::
    "('q, 'x) dl_env \<Rightarrow> dl_cfg \<Rightarrow> (int \<times> int) option \<Rightarrow> string option \<Rightarrow> int \<Rightarrow> int \<Rightarrow> int \<Rightarrow> (int \<Rightarrow> int) \<Rightarrow>
     ('q, 'x) dl_mac \<Rightarrow> dl_error + ('q, 'x) dl_mac" where
  "pf_dl E C stat cfg_file frame slot max_num_ue rbs mac =
     (let mac = mac\<lparr>dm_dl := rk_ue_dl_reload_if_needed False stat cfg_file (dm_dl mac)\<rparr>;
          st = \<lparr>ds_mac = mac, ds_remainUEs = (\<lambda>_. max_num_ue), ds_n_rb_sched = rbs, ds_UE_sched = []\<rparr>;
          st = fold (pf_dl_ue E C frame slot) [0..<length (dm_ues mac)] st
      in case fold_res (pf_dl_grant E C frame slot) (de_qsort E dl_comparator (ds_UE_sched st)) st of
           Inl e \<Rightarrow> Inl e
         | Inr st \<Rightarrow> Inr (ds_mac st))"

definition nr_dlsch_preprocessor ::
    "('q, 'x) dl_env \<Rightarrow> dl_cfg \<Rightarrow> (int \<times> int) option \<Rightarrow> string option \<Rightarrow> int \<Rightarrow> int \<Rightarrow> ('q, 'x) dl_mac \<Rightarrow>
     dl_error + ('q, 'x) dl_mac" where
  "nr_dlsch_preprocessor E C stat cfg_file frame slot mac =
     (if dm_ues mac = [] then Inr mac
      else
        let bw = dcfg_bw C;
            mac = nr_store_dlsch_buffer E frame mac;
            average_agg_level = 4;
            max_sched_ues = min (bw div (average_agg_level * dcfg_NR_NB_REG_PER_CCE C)) (dcfg_MAX_DCI_CORESET C)
        in pf_dl E C stat cfg_file frame slot max_sched_ues (\<lambda>_. bw) mac)"

text \<open>
  The table \<^verbatim>\<open>pf_tbs\<close> of \<^verbatim>\<open>nr_init_dlsch_preprocessor\<close>; it is filled once and not read in this file.
\<close>

definition pf_tbs :: "'q dl_lib \<Rightarrow> int \<Rightarrow> int \<Rightarrow> u32 option" where
  "pf_tbs L mcsTableIdx mcs =
     (if 0 \<le> mcsTableIdx \<and> mcsTableIdx < 3 \<and> 0 \<le> mcs \<and> mcs < 29
      then if 27 < mcs \<and> mcsTableIdx = 1 then Some 0
           else Some (to_u32 (nr_compute_tbs (ul_phy L) (uint (nr_get_Qm_dl L mcs mcsTableIdx))
                  (uint (nr_get_code_rate_dl L mcs mcsTableIdx)) 1 10 0 1 div 8))
      else None)"

end
