(* ===== verification/DlPdu.thy ===== *)
theory DlPdu imports DlSched begin

text \<open>
  The downlink MAC PDU (\<^verbatim>\<open>gnb_patch/gNB_scheduler_dlsch.c\<close>): the control elements of
  \<^verbatim>\<open>nr_write_ce_dlsch_pdu\<close> and the transport block that \<^verbatim>\<open>nr_schedule_ue_spec\<close> fills with control
  elements, SDUs from RLC and padding.
  The buffer is the list of its bytes: the code only writes at a pointer that moves forward.  The bit
  layouts of the subheaders and control elements are the structs of OpenAirInterface, so they are
  functions of the record \<open>dl_enc\<close> from the fields to the bytes; \<open>dl_enc_laws\<close> states their sizes.
\<close>

section \<open>Encodings\<close>

record dl_enc =
  subheader_fixed :: "int \<Rightarrow> u8 list"
  subheader_short :: "int \<Rightarrow> int \<Rightarrow> u8 list"
  subheader_long :: "int \<Rightarrow> int \<Rightarrow> u8 list"
  enc_TA :: "int \<Rightarrow> int \<Rightarrow> u8 list"
  enc_TCI_PDCCH :: "int \<Rightarrow> int \<Rightarrow> int \<Rightarrow> int \<Rightarrow> u8 list"
  enc_PUCCH_CSI_REPORTING :: "int \<Rightarrow> int \<Rightarrow> bool list \<Rightarrow> u8 list"
  enc_TCI_PDSCH_APERIODIC_CSI :: "int \<Rightarrow> int \<Rightarrow> u8 list"
  enc_SP_ZP_CSI_RS :: "bool \<Rightarrow> int \<Rightarrow> int \<Rightarrow> int \<Rightarrow> u8 list"
  enc_CSI_RS_CSI_IM :: "bool \<Rightarrow> int \<Rightarrow> int \<Rightarrow> bool \<Rightarrow> int \<Rightarrow> int option \<Rightarrow> u8 list"
  enc_TCI_S :: "int \<Rightarrow> u8 list"
  DL_SCH_LCID_DRX :: int
  DL_SCH_LCID_TA_COMMAND :: int
  DL_SCH_LCID_CON_RES_ID :: int
  DL_SCH_LCID_TCI_STATE_IND_UE_SPEC_PDCCH :: int
  DL_SCH_LCID_SP_CSI_REP_PUCCH_ACT :: int
  DL_SCH_LCID_TCI_STATE_ACT_UE_SPEC_PDSCH :: int
  DL_SCH_LCID_APERIODIC_CSI_TRI_STATE_SUBSEL :: int
  DL_SCH_LCID_SP_ZP_CSI_RS_RES_SET_ACT :: int
  DL_SCH_LCID_SP_CSI_RS_CSI_IM_RES_SET_ACT :: int
  DL_SCH_LCID_PADDING :: int

text \<open>\<^verbatim>\<open>sizeof\<close> of the three subheaders.\<close>

definition dl_enc_laws :: "dl_enc \<Rightarrow> bool" where
  "dl_enc_laws N \<longleftrightarrow> (\<forall>l. length (subheader_fixed N l) = 1) \<and> (\<forall>l n. length (subheader_short N l n) = 2) \<and>
     (\<forall>l n. length (subheader_long N l n) = 3)"

section \<open>Control elements\<close>

text \<open>\<^verbatim>\<open>x & (2^k - 1)\<close> on a non-negative number.\<close>

definition low_bits :: "nat \<Rightarrow> int \<Rightarrow> int" where
  "low_bits k x = x mod 2 ^ k"

definition ce_drx :: "dl_enc \<Rightarrow> int \<Rightarrow> u8 list" where
  "ce_drx N drx_cmd = (if drx_cmd \<noteq> 255 then subheader_fixed N (DL_SCH_LCID_DRX N) else [])"

definition ce_ta :: "dl_enc \<Rightarrow> dl_cfg \<Rightarrow> 'q dl_ue \<Rightarrow> dl_error + u8 list" where
  "ce_ta N C ue =
     (if d_ta_apply ue
      then if \<not> d_ta_update ue < 64 then Inl TaCommandTooLarge
           else Inr (subheader_fixed N (DL_SCH_LCID_TA_COMMAND N) @ enc_TA N (d_ta_update ue) (dcfg_tag_Id C))
      else Inr [])"

text \<open>The first 48 bits of the uplink CCCH SDU.\<close>

definition ce_con_res :: "dl_enc \<Rightarrow> u8 list option \<Rightarrow> u8 list" where
  "ce_con_res N ue_cont_res_id =
     (case ue_cont_res_id of
        None \<Rightarrow> []
      | Some b \<Rightarrow> subheader_fixed N (DL_SCH_LCID_CON_RES_ID N) @ take 6 b)"

definition ce_tci_pdcch :: "dl_enc \<Rightarrow> pdcch_state_ind_t option \<Rightarrow> u8 list" where
  "ce_tci_pdcch N ce =
     (case ce of
        None \<Rightarrow> []
      | Some i \<Rightarrow>
          subheader_fixed N (DL_SCH_LCID_TCI_STATE_IND_UE_SPEC_PDCCH N) @
          enc_TCI_PDCCH N (low_bits 4 (psi_coresetId i) div 2) (low_bits 5 (psi_servingCellId i))
            (low_bits 7 (psi_tciStateId i)) (low_bits 1 (psi_coresetId i)))"

definition ce_sp_csi :: "dl_enc \<Rightarrow> SP_CSI_reporting_t option \<Rightarrow> u8 list" where
  "ce_sp_csi N ce =
     (case ce of
        None \<Rightarrow> []
      | Some i \<Rightarrow>
          subheader_fixed N (DL_SCH_LCID_SP_CSI_REP_PUCCH_ACT N) @
          enc_PUCCH_CSI_REPORTING N (low_bits 2 (sp_bwpId i)) (low_bits 5 (sp_servingCellId i))
            (take 4 (sp_s0tos3_actDeact i)))"

text \<open>The octets \<^verbatim>\<open>T[i / 8] |= 1 << (i % 8)\<close> of a set of states.\<close>

definition tci_octet :: "(int \<Rightarrow> bool) \<Rightarrow> int \<Rightarrow> u8" where
  "tci_octet act k = fold (\<lambda>b t. if act (8 * k + int b) then t OR push_bit b 1 else t) [0..<8] 0"

definition num_octects :: "int \<Rightarrow> int" where
  "num_octects highest = (highest div 8 + 1) mod 256"

text \<open>
  The control elements with a flexible array: activation of TCI states and selection of aperiodic CSI
  triggers differ in the LCID only.  The length field has eight bits.
\<close>

definition ce_states :: "dl_enc \<Rightarrow> int \<Rightarrow> TCI_states_t option \<Rightarrow> u8 list" where
  "ce_states N lcid ce =
     (case ce of
        None \<Rightarrow> []
      | Some i \<Rightarrow>
          let n = num_octects (tci_highest i);
              body = enc_TCI_PDSCH_APERIODIC_CSI N (low_bits 2 (tci_bwpId i)) (low_bits 5 (tci_servingCellId i)) @
                     map (tci_octet (tci_actDeact i)) [0..n - 1]
          in subheader_short N lcid (low_bits 8 (int (length body))) @ body)"

definition ce_sp_zp :: "dl_enc \<Rightarrow> sp_zp_csi_rs_t option \<Rightarrow> u8 list" where
  "ce_sp_zp N ce =
     (case ce of
        None \<Rightarrow> []
      | Some i \<Rightarrow>
          subheader_fixed N (DL_SCH_LCID_SP_ZP_CSI_RS_RES_SET_ACT N) @
          enc_SP_ZP_CSI_RS N (zp_act_deact i) (low_bits 5 (zp_serv_cell_id i)) (low_bits 2 (zp_bwpid i))
            (low_bits 4 (zp_rsc_id i)))"

definition ce_csi_im :: "dl_enc \<Rightarrow> csi_im_t option \<Rightarrow> u8 list" where
  "ce_csi_im N ce =
     (case ce of
        None \<Rightarrow> []
      | Some i \<Rightarrow>
          subheader_fixed N (DL_SCH_LCID_SP_CSI_RS_CSI_IM_RES_SET_ACT N) @
          enc_CSI_RS_CSI_IM N (im_act_deact i) (low_bits 6 (im_serv_cellid i)) (im_bwp_id i) (im_im i)
            (im_nzp_csi_rsc_id i) (if im_im i then Some (im_csi_im_rsc_id i) else None) @
          (if im_act_deact i then concat (map (\<lambda>t. enc_TCI_S N (low_bits 7 t)) (im_tci_state_ids i)) else []))"

definition nr_write_ce_dlsch_pdu ::
    "dl_enc \<Rightarrow> dl_cfg \<Rightarrow> 'q dl_ue \<Rightarrow> int \<Rightarrow> u8 list option \<Rightarrow> dl_error + u8 list" where
  "nr_write_ce_dlsch_pdu N C ue drx_cmd ue_cont_res_id =
     (let ce = d_mac_ce_ctrl ue in
      case ce_ta N C ue of
        Inl e \<Rightarrow> Inl e
      | Inr ta \<Rightarrow>
          Inr (ce_drx N drx_cmd @ ta @ ce_con_res N ue_cont_res_id @ ce_tci_pdcch N (pdcch_state_ind ce) @
               ce_sp_csi N (SP_CSI_reporting_pucch ce) @
               ce_states N (DL_SCH_LCID_TCI_STATE_ACT_UE_SPEC_PDSCH N) (pdsch_TCI_States_ActDeact ce) @
               ce_states N (DL_SCH_LCID_APERIODIC_CSI_TRI_STATE_SUBSEL N) (aperi_CSI_trigger ce) @
               ce_sp_zp N (sp_zp_csi_rs ce) @ ce_csi_im N (csi_im ce)))"

section \<open>SDUs\<close>

text \<open>
  RLC answers a request for at most so many bytes with the bytes of one PDU, none when it has no data;
  it keeps its own state.  An answer is no longer than the request.
\<close>

type_synonym 'r rlc_req = "'r \<Rightarrow> u16 \<Rightarrow> int \<Rightarrow> nat \<Rightarrow> 'r \<times> u8 list"

definition rlc_law :: "'r rlc_req \<Rightarrow> bool" where
  "rlc_law rlc \<longleftrightarrow> (\<forall>r rnti lcid n. length (snd (rlc r rnti lcid n)) \<le> n)"

record sdu_acc =
  acc_bytes :: "u8 list"
  acc_total :: int
  acc_lc :: int
  acc_sdus :: int

text \<open>
  The loop over one logical channel; \<open>room\<close> is \<^verbatim>\<open>bufEnd - buf\<close>.  The result has the bytes written, in
  the order they are written.
\<close>

function lc_loop ::
    "dl_enc \<Rightarrow> 'r rlc_req \<Rightarrow> u16 \<Rightarrow> int \<Rightarrow> nat \<Rightarrow> nat \<Rightarrow> 'r \<Rightarrow> sdu_acc \<Rightarrow> 'r \<times> nat \<times> sdu_acc" where
  "lc_loop N rlc rnti lcid bytes room r acc =
     (if \<not> 4 < room then (r, room, acc)
      else
        let ndata = min bytes (room - 3);
            (r, sdu) = rlc r rnti lcid ndata
        in if sdu = [] then (r, room, acc)
           else lc_loop N rlc rnti lcid bytes (room - (length sdu + 3)) r
                  \<lparr>acc_bytes = acc_bytes acc @ subheader_long N lcid (low_bits 16 (int (length sdu))) @ sdu,
                   acc_total = acc_total acc + int (length sdu), acc_lc = acc_lc acc + int (length sdu),
                   acc_sdus = acc_sdus acc + 1\<rparr>)"
  by pat_completeness auto
termination
  by (relation "measure (\<lambda>(N, rlc, rnti, lcid, bytes, room, r, acc). room)") auto

declare lc_loop.simps [simp del]

text \<open>The loop over the logical channels, with the bytes of each channel for the statistics.\<close>

fun lc_all ::
    "dl_enc \<Rightarrow> 'r rlc_req \<Rightarrow> u16 \<Rightarrow> (int \<Rightarrow> rlc_status_t) \<Rightarrow> nr_lc_config_t list \<Rightarrow> nat \<Rightarrow> 'r \<Rightarrow> sdu_acc \<Rightarrow>
     (int \<Rightarrow> int) \<Rightarrow> 'r \<times> nat \<times> sdu_acc \<times> (int \<Rightarrow> int)" where
  "lc_all N rlc rnti status [] room r acc lcs = (r, room, acc, lcs)"
| "lc_all N rlc rnti status (c # cs) room r acc lcs =
     (let lcid = lc_lcid c; n = bytes_in_buffer (status lcid) in
      if n = 0 then lc_all N rlc rnti status cs room r acc lcs
      else let (r, room, acc) = lc_loop N rlc rnti lcid (nat n) room r (acc\<lparr>acc_lc := 0\<rparr>)
           in lc_all N rlc rnti status cs room r acc (lcs(lcid := lcs lcid + acc_lc acc)))"

section \<open>The transport block\<close>

text \<open>
  In test mode without data the rest is random.  The fill first aligns the address \<open>addr\<close> behind the
  subheader to a multiple of 4 without looking at the end of the buffer.
\<close>

definition phy_test_fill :: "dl_enc \<Rightarrow> (nat \<Rightarrow> u8 list) \<Rightarrow> nat \<Rightarrow> nat \<Rightarrow> u8 list" where
  "phy_test_fill N rand addr room =
     (if 3 < room
      then let align = (4 - (addr + 3) mod 4) mod 4
           in subheader_long N (DL_SCH_LCID_PADDING N) (low_bits 16 (int (room - 3))) @ rand (max (room - 3) align)
      else [])"

definition dl_padding :: "dl_enc \<Rightarrow> nat \<Rightarrow> u8 list" where
  "dl_padding N room =
     (if 0 < room then subheader_fixed N (DL_SCH_LCID_PADDING N) @ replicate (room - 1) 0 else [])"

record 'r tb_env =
  tb_enc :: dl_enc
  tb_rlc :: "'r rlc_req"
  tb_rand :: "nat \<Rightarrow> u8 list"
  tb_addr :: nat

record 'r tb_result =
  tb_state :: 'r
  tb_bytes :: "u8 list"
  tb_sdu_bytes :: int
  tb_sdus :: int
  tb_lc_bytes :: "int \<Rightarrow> int"

text \<open>The body of a new transmission, from the control elements to the padding.\<close>

definition dl_build_tb :: "'r tb_env \<Rightarrow> dl_cfg \<Rightarrow> 'q dl_ue \<Rightarrow> nat \<Rightarrow> 'r \<Rightarrow> dl_error + 'r tb_result" where
  "dl_build_tb T C ue TBS r =
     (let N = tb_enc T in
      case nr_write_ce_dlsch_pdu N C ue 255 None of
        Inl e \<Rightarrow> Inl e
      | Inr ces \<Rightarrow>
          if \<not> length ces < TBS then Inl TbsTooSmall
          else
            let room = TBS - length ces;
                acc = \<lparr>acc_bytes = ces, acc_total = 0, acc_lc = 0, acc_sdus = 0\<rparr>
            in if 0 < d_num_total_bytes ue
               then let (r, room, acc, lcs) =
                          lc_all N (tb_rlc T) (d_rnti ue) (d_rlc_status ue) (d_lc_config ue) room r acc (d_lc_bytes ue)
                    in Inr \<lparr>tb_state = r, tb_bytes = acc_bytes acc @ dl_padding N room,
                            tb_sdu_bytes = acc_total acc, tb_sdus = acc_sdus acc, tb_lc_bytes = lcs\<rparr>
               else if dcfg_phy_test C \<or> dcfg_do_ra C
               then let fill = phy_test_fill N (tb_rand T) (tb_addr T + length ces) room
                    in Inr \<lparr>tb_state = r, tb_bytes = ces @ fill @ dl_padding N (room - length fill),
                            tb_sdu_bytes = 0, tb_sdus = (if 3 < room then 1 else 0),
                            tb_lc_bytes = d_lc_bytes ue\<rparr>
               else Inr \<lparr>tb_state = r, tb_bytes = ces @ dl_padding N room, tb_sdu_bytes = 0, tb_sdus = 0,
                         tb_lc_bytes = d_lc_bytes ue\<rparr>)"

section \<open>Facts\<close>

text \<open>What the loops write: each SDU behind a long subheader of its channel.\<close>

definition sdu_pdu :: "dl_enc \<Rightarrow> int \<times> u8 list \<Rightarrow> u8 list" where
  "sdu_pdu N s = subheader_long N (fst s) (low_bits 16 (int (length (snd s)))) @ snd s"

definition sdu_sum :: "(int \<times> u8 list) list \<Rightarrow> int" where
  "sdu_sum ss = (\<Sum>s \<leftarrow> ss. int (length (snd s)))"

definition lc_sum :: "int \<Rightarrow> (int \<times> u8 list) list \<Rightarrow> int" where
  "lc_sum l ss = sdu_sum (filter (\<lambda>s. fst s = l) ss)"

lemma sdu_sum_simps [simp]:
  "sdu_sum [] = 0" "sdu_sum (s # ss) = int (length (snd s)) + sdu_sum ss" "sdu_sum (ss @ ts) = sdu_sum ss + sdu_sum ts"
  by (simp_all add: sdu_sum_def)

lemma sdu_pdu_length: "dl_enc_laws N \<Longrightarrow> length (sdu_pdu N s) = length (snd s) + 3"
  by (simp add: sdu_pdu_def dl_enc_laws_def)

text \<open>The SDUs of one channel: they extend the accumulator and use up the room.\<close>

definition lc_written ::
    "dl_enc \<Rightarrow> nat \<Rightarrow> sdu_acc \<Rightarrow> (int \<times> u8 list) list \<Rightarrow> nat \<Rightarrow> sdu_acc \<Rightarrow> bool" where
  "lc_written N room acc ss room' acc' \<longleftrightarrow>
     acc_bytes acc' = acc_bytes acc @ concat (map (sdu_pdu N) ss) \<and>
     room' + length (concat (map (sdu_pdu N) ss)) = room \<and>
     acc_total acc' = acc_total acc + sdu_sum ss \<and> acc_sdus acc' = acc_sdus acc + int (length ss) \<and>
     (\<forall>s \<in> set ss. snd s \<noteq> [])"

lemma lc_written_nil: "acc_bytes acc' = acc_bytes acc \<Longrightarrow> acc_total acc' = acc_total acc \<Longrightarrow> acc_sdus acc' = acc_sdus acc \<Longrightarrow>
    lc_written N room acc [] room acc'"
  by (simp add: lc_written_def)

lemma lc_written_append:
  "lc_written N room acc ss room' acc' \<Longrightarrow> lc_written N room' acc' ts room'' acc'' \<Longrightarrow>
   lc_written N room acc (ss @ ts) room'' acc''"
  by (auto simp: lc_written_def)

lemma lc_loop_written:
  assumes "dl_enc_laws N" and "rlc_law rlc" and "lc_loop N rlc rnti lcid bytes room r acc = (r', room', acc')"
  shows "\<exists>ss. lc_written N room acc ss room' acc' \<and> acc_lc acc' = acc_lc acc + sdu_sum ss \<and> (\<forall>s \<in> set ss. fst s = lcid)"
  using assms
proof (induction N rlc rnti lcid bytes room r acc rule: lc_loop.induct)
  case (1 N rlc rnti lcid bytes room r acc)
  obtain r1 sdu where s: "rlc r rnti lcid (min bytes (room - 3)) = (r1, sdu)" by fastforce
  show ?case
  proof (cases "4 < room \<and> sdu \<noteq> []")
    case False
    then have "(r', room', acc') = (r', room, acc)"
      using 1(4) s by (subst (asm) lc_loop.simps) (auto split: if_splits)
    then show ?thesis by (intro exI [of _ "[]"]) (simp add: lc_written_nil)
  next
    case True
    let ?acc = "\<lparr>acc_bytes = acc_bytes acc @ subheader_long N lcid (low_bits 16 (int (length sdu))) @ sdu,
       acc_total = acc_total acc + int (length sdu), acc_lc = acc_lc acc + int (length sdu), acc_sdus = acc_sdus acc + 1\<rparr>"
    have le: "length sdu \<le> room - 3" using 1(3) s unfolding rlc_law_def by (metis min.boundedE snd_conv)
    have step: "lc_loop N rlc rnti lcid bytes (room - (length sdu + 3)) r1 ?acc = (r', room', acc')"
      using 1(4) s True by (subst (asm) lc_loop.simps) simp
    obtain ss where ss: "lc_written N (room - (length sdu + 3)) ?acc ss room' acc'"
      "acc_lc acc' = acc_lc ?acc + sdu_sum ss" "\<forall>s \<in> set ss. fst s = lcid"
      using 1(1) [OF _ refl s [symmetric] refl _ 1(2,3) step] True by auto
    have "lc_written N room acc [(lcid, sdu)] (room - (length sdu + 3)) ?acc"
      using True le sdu_pdu_length [OF 1(2), of "(lcid, sdu)"] by (auto simp: lc_written_def sdu_pdu_def)
    from lc_written_append [OF this ss(1)] ss(2,3) show ?thesis
      by (intro exI [of _ "(lcid, sdu) # ss"]) simp
  qed
qed

lemma lc_sum_append: "lc_sum l (ss @ ts) = lc_sum l ss + lc_sum l ts"
  by (simp add: lc_sum_def)

lemma lc_sum_same: "\<forall>s \<in> set ss. fst s = k \<Longrightarrow> lc_sum l ss = (if l = k then sdu_sum ss else 0)"
  by (induction ss) (auto simp: lc_sum_def)

lemma lc_all_written:
  assumes "dl_enc_laws N" and "rlc_law rlc" and "lc_all N rlc rnti status cs room r acc lcs = (r', room', acc', lcs')"
  shows "\<exists>ss. lc_written N room acc ss room' acc' \<and> (\<forall>l. lcs' l = lcs l + lc_sum l ss) \<and>
    (\<forall>s \<in> set ss. fst s \<in> lc_lcid ` set cs \<and> bytes_in_buffer (status (fst s)) \<noteq> 0)"
  using assms(3)
proof (induction cs arbitrary: room r acc lcs)
  case Nil
  then show ?case by (intro exI [of _ "[]"]) (simp add: lc_written_nil lc_sum_def)
next
  case (Cons c cs)
  show ?case
  proof (cases "bytes_in_buffer (status (lc_lcid c)) = 0")
    case True
    then have "lc_all N rlc rnti status cs room r acc lcs = (r', room', acc', lcs')" using Cons.prems by simp
    from Cons.IH [OF this] show ?thesis by auto
  next
    case False
    obtain r1 room1 acc1 where l: "lc_loop N rlc rnti (lc_lcid c) (nat (bytes_in_buffer (status (lc_lcid c)))) room r
        (acc\<lparr>acc_lc := 0\<rparr>) = (r1, room1, acc1)" by (metis prod_cases3)
    have rest: "lc_all N rlc rnti status cs room1 r1 acc1 (lcs(lc_lcid c := lcs (lc_lcid c) + acc_lc acc1)) =
        (r', room', acc', lcs')"
      using Cons.prems False l by (simp add: Let_def)
    obtain ss where ss: "lc_written N room (acc\<lparr>acc_lc := 0\<rparr>) ss room1 acc1" "acc_lc acc1 = sdu_sum ss"
      "\<forall>s \<in> set ss. fst s = lc_lcid c"
      using lc_loop_written [OF assms(1,2) l] by auto
    obtain ts where ts: "lc_written N room1 acc1 ts room' acc'"
      "\<forall>l. lcs' l = (lcs(lc_lcid c := lcs (lc_lcid c) + acc_lc acc1)) l + lc_sum l ts"
      "\<forall>s \<in> set ts. fst s \<in> lc_lcid ` set cs \<and> bytes_in_buffer (status (fst s)) \<noteq> 0"
      using Cons.IH [OF rest] by blast
    have "lc_written N room acc ss room1 acc1" using ss(1) by (simp add: lc_written_def)
    from lc_written_append [OF this ts(1)] ss(2,3) ts(2,3) False lc_sum_same [OF ss(3)]
    show ?thesis by (intro exI [of _ "ss @ ts"]) (auto simp: lc_sum_append)
  qed
qed

lemma dl_padding_length: "dl_enc_laws N \<Longrightarrow> length (dl_padding N room) = room"
  by (simp add: dl_padding_def dl_enc_laws_def)

lemma dl_build_tb_data:
  assumes laws: "dl_enc_laws (tb_enc T)" "rlc_law (tb_rlc T)" and data: "0 < d_num_total_bytes ue"
    and run: "dl_build_tb T C ue TBS r = Inr res"
  shows "\<exists>ces ss. nr_write_ce_dlsch_pdu (tb_enc T) C ue 255 None = Inr ces \<and>
    tb_bytes res = ces @ concat (map (sdu_pdu (tb_enc T)) ss) @
      dl_padding (tb_enc T) (TBS - length ces - length (concat (map (sdu_pdu (tb_enc T)) ss))) \<and>
    length (tb_bytes res) = TBS \<and> tb_sdu_bytes res = sdu_sum ss \<and> tb_sdus res = int (length ss) \<and>
    (\<forall>l. tb_lc_bytes res l = d_lc_bytes ue l + lc_sum l ss) \<and>
    (\<forall>s \<in> set ss. snd s \<noteq> [] \<and> fst s \<in> lc_lcid ` set (d_lc_config ue) \<and>
       bytes_in_buffer (d_rlc_status ue (fst s)) \<noteq> 0)"
proof -
  obtain ces where ces: "nr_write_ce_dlsch_pdu (tb_enc T) C ue 255 None = Inr ces"
    using run by (cases "nr_write_ce_dlsch_pdu (tb_enc T) C ue 255 None") (auto simp: dl_build_tb_def)
  let ?acc = "\<lparr>acc_bytes = ces, acc_total = 0, acc_lc = 0, acc_sdus = 0\<rparr>"
  obtain r1 room1 acc1 lcs1 where l: "lc_all (tb_enc T) (tb_rlc T) (d_rnti ue) (d_rlc_status ue) (d_lc_config ue)
      (TBS - length ces) r ?acc (d_lc_bytes ue) = (r1, room1, acc1, lcs1)" by (metis prod_cases4)
  have res: "length ces < TBS" "res = \<lparr>tb_state = r1, tb_bytes = acc_bytes acc1 @ dl_padding (tb_enc T) room1,
      tb_sdu_bytes = acc_total acc1, tb_sdus = acc_sdus acc1, tb_lc_bytes = lcs1\<rparr>"
    using run ces l data by (auto simp: dl_build_tb_def Let_def split: if_splits)
  obtain ss where ss: "lc_written (tb_enc T) (TBS - length ces) ?acc ss room1 acc1"
    "\<forall>l. lcs1 l = d_lc_bytes ue l + lc_sum l ss"
    "\<forall>s \<in> set ss. fst s \<in> lc_lcid ` set (d_lc_config ue) \<and> bytes_in_buffer (d_rlc_status ue (fst s)) \<noteq> 0"
    using lc_all_written [OF laws l] by blast
  have room: "room1 = TBS - length ces - length (concat (map (sdu_pdu (tb_enc T)) ss))"
    using ss(1) unfolding lc_written_def by linarith
  have "length (tb_bytes res) = TBS"
  proof -
    have "length (tb_bytes res) = length (acc_bytes acc1) + room1"
      using res by (simp add: dl_padding_length [OF laws(1)])
    moreover have "length (acc_bytes acc1) = length ces + length (concat (map (sdu_pdu (tb_enc T)) ss))"
      using ss(1) by (simp add: lc_written_def)
    ultimately show ?thesis using ss(1) res(1) unfolding lc_written_def by linarith
  qed
  then show ?thesis using ss res ces room by (intro exI [of _ ces] exI [of _ ss]) (simp add: lc_written_def)
qed

text \<open>Without data and outside test mode the block is padding.\<close>

lemma dl_build_tb_empty:
  assumes laws: "dl_enc_laws (tb_enc T)" and "\<not> 0 < d_num_total_bytes ue" "\<not> dcfg_phy_test C" "\<not> dcfg_do_ra C"
    and run: "dl_build_tb T C ue TBS r = Inr res"
  shows "\<exists>ces. nr_write_ce_dlsch_pdu (tb_enc T) C ue 255 None = Inr ces \<and>
    tb_bytes res = ces @ dl_padding (tb_enc T) (TBS - length ces) \<and> length (tb_bytes res) = TBS"
proof -
  obtain ces where ces: "nr_write_ce_dlsch_pdu (tb_enc T) C ue 255 None = Inr ces"
    using run by (cases "nr_write_ce_dlsch_pdu (tb_enc T) C ue 255 None") (auto simp: dl_build_tb_def)
  then show ?thesis using assms(2-4) run
    by (auto simp: dl_build_tb_def dl_padding_length [OF laws] Let_def split: if_splits)
qed

text \<open>In test mode the alignment can write beyond the end: a room of 4 bytes at an address 1 below a word.\<close>

lemma phy_test_overrun:
  assumes "dl_enc_laws N" and "\<forall>n. length (rand n) = n"
  shows "length (phy_test_fill N rand 2 4) = 6"
  using assms by (simp add: phy_test_fill_def dl_enc_laws_def)

end
