(* ===== verification/DlUeSpec.thy ===== *)
theory DlUeSpec imports DlPdu begin

text \<open>
  Executing the decisions of a downlink pass (\<^verbatim>\<open>prepare_pdsch_pdu\<close> and \<^verbatim>\<open>nr_schedule_ue_spec\<close> of
  \<^verbatim>\<open>gnb_patch/gNB_scheduler_dlsch.c\<close>): HARQ process, FAPI requests, transport block, statistics.
  The requests are lists of PDUs; the DCI that other files build is the value of a parameter.
\<close>

section \<open>The PDSCH PDU\<close>

record ptrs_t =
  PTRSFreqDensity :: int
  PTRSTimeDensity :: int
  PTRSPortIndex :: int
  nEpreRatioOfPDSCHToPTRS :: int
  PTRSReOffset :: int

record pdsch_pdu_rel15 =
  pp_pduBitmap :: int
  pp_rnti :: u16
  pp_pduIndex :: int
  pp_BWPSize :: int
  pp_BWPStart :: int
  pp_SubcarrierSpacing :: int
  pp_CyclicPrefix :: int
  pp_NrOfCodewords :: int
  pp_targetCodeRate :: u16
  pp_qamModOrder :: u8
  pp_mcsIndex :: int
  pp_mcsTable :: int
  pp_rvIndex :: int
  pp_TBSize :: int
  pp_dataScramblingId :: int
  pp_nrOfLayers :: int
  pp_transmissionScheme :: int
  pp_refPoint :: bool
  pp_dlDmrsSymbPos :: int
  pp_dmrsConfigType :: int
  pp_SCID :: int
  pp_dlDmrsScramblingId :: int
  pp_numDmrsCdmGrpsNoData :: int
  pp_dmrsPorts :: int
  pp_resourceAlloc :: int
  pp_rbStart :: int
  pp_rbSize :: int
  pp_VRBtoPRBMapping :: int
  pp_StartSymbolIndex :: int
  pp_NrOfSymbols :: int
  pp_ptrs :: ptrs_t
  pp_tbSizeLbrmBytes :: int
  pp_ldpcBaseGraph :: int
  pp_num_prgs :: int
  pp_prg_size :: int
  pp_dig_bf_interfaces :: int
  pp_pm_idx :: int
  pp_beam_idx :: int

text \<open>Functions of other files for the PDUs; \<open>make_dl_dci\<close> stands for the DCI of a grant.\<close>

record ('q, 'd) pdu_lib =
  nr_get_rv :: "int \<Rightarrow> int"
  set_dl_ptrs_values :: "NR_pdsch_dmrs_t \<Rightarrow> int \<Rightarrow> int \<Rightarrow> int \<Rightarrow> int \<Rightarrow> bool \<times> ptrs_t"
  nr_compute_tbslbrm :: "int \<Rightarrow> int \<Rightarrow> int \<Rightarrow> int"
  get_BG :: "int \<Rightarrow> u16 \<Rightarrow> int"
  make_dl_dci :: "'q dl_ue \<Rightarrow> pdsch_pdu_rel15 \<Rightarrow> NR_sched_pdsch_t \<Rightarrow> (int \<times> int) option \<Rightarrow> int \<Rightarrow> 'd"
  pl_is_dl_slot :: "int \<Rightarrow> bool"

definition no_ptrs :: ptrs_t where
  "no_ptrs = \<lparr>PTRSFreqDensity = 0, PTRSTimeDensity = 0, PTRSPortIndex = 0, nEpreRatioOfPDSCHToPTRS = 0,
     PTRSReOffset = 0\<rparr>"

text \<open>Broadcast PDUs have no UE.\<close>

definition prepare_pdsch_pdu ::
    "('q, 'd) pdu_lib \<Rightarrow> dl_cfg \<Rightarrow> 'q dl_ue option \<Rightarrow> NR_sched_pdsch_t \<Rightarrow> bool \<Rightarrow> int \<Rightarrow> u16 \<Rightarrow> int \<Rightarrow> int \<Rightarrow> int \<Rightarrow>
     pdsch_pdu_rel15" where
  "prepare_pdsch_pdu Q C UE s is_sib1 harq_round rnti beam_index nl_tbslbrm pdu_index =
     (let bwp = map_option d_bwp UE;
          mcsTable = (case bwp of None \<Rightarrow> 0 | Some b \<Rightarrow> dl_mcsTableIdx b);
          d = pd_dmrs_parms s; ti = pd_tda_info s;
          (valid_ptrs_setup, ptrs) =
            (if pd_phaseTrackingRS d
             then set_dl_ptrs_values Q d (pd_rbSize s) (pd_mcs s) mcsTable (nrOfSymbols ti)
             else (False, no_ptrs));
          dl_bw_tbslbrm = (case UE of None \<Rightarrow> bwpSize (pd_bwp_info s) | Some ue \<Rightarrow> d_dl_bw_tbslbrm ue)
      in \<lparr>pp_pduBitmap = (if valid_ptrs_setup then 1 else 0), pp_rnti = rnti, pp_pduIndex = pdu_index,
          pp_BWPSize = bwpSize (pd_bwp_info s), pp_BWPStart = bwpStart (pd_bwp_info s),
          pp_SubcarrierSpacing = (case bwp of None \<Rightarrow> dcfg_ssb_scs C | Some b \<Rightarrow> dl_scs b),
          pp_CyclicPrefix = (case Option.bind bwp dl_cyclicprefix of None \<Rightarrow> 0 | Some cp \<Rightarrow> cp),
          pp_NrOfCodewords = 1, pp_targetCodeRate = pd_R s, pp_qamModOrder = pd_Qm s, pp_mcsIndex = pd_mcs s,
          pp_mcsTable = mcsTable, pp_rvIndex = nr_get_rv Q (harq_round mod 4), pp_TBSize = pd_tb_size s,
          pp_dataScramblingId =
            (case Option.bind bwp dl_dataScramblingId of None \<Rightarrow> dcfg_physCellId C | Some i \<Rightarrow> i),
          pp_nrOfLayers = pd_nrOfLayers s, pp_transmissionScheme = 0, pp_refPoint = is_sib1,
          pp_dlDmrsSymbPos = pd_dl_dmrs_symb_pos d, pp_dmrsConfigType = pd_dmrsConfigType d, pp_SCID = pd_n_scid d,
          pp_dlDmrsScramblingId = pd_scrambling_id d, pp_numDmrsCdmGrpsNoData = pd_numDmrsCdmGrpsNoData d,
          pp_dmrsPorts = 2 ^ nat (pd_nrOfLayers s) - 1, pp_resourceAlloc = 1, pp_rbStart = pd_rbStart s,
          pp_rbSize = pd_rbSize s, pp_VRBtoPRBMapping = 0, pp_StartSymbolIndex = startSymbolIndex ti,
          pp_NrOfSymbols = nrOfSymbols ti, pp_ptrs = ptrs,
          pp_tbSizeLbrmBytes = nr_compute_tbslbrm Q mcsTable dl_bw_tbslbrm nl_tbslbrm,
          pp_ldpcBaseGraph = get_BG Q (pd_tb_size s * 8) (pd_R s), pp_num_prgs = 1, pp_prg_size = pd_rbSize s,
          pp_dig_bf_interfaces = 1, pp_pm_idx = pd_pm_index s, pp_beam_idx = beam_index\<rparr>)"

section \<open>The slot\<close>

text \<open>
  The downlink request holds a PDCCH PDU per CORESET, with its DCIs, and PDSCH PDUs; the transmission
  request holds the transport blocks.
\<close>

datatype 'd dl_tti_pdu = PdcchPdu int "'d list" | PdschPdu pdsch_pdu_rel15

record tx_pdu =
  tx_PDU_index :: int
  tx_data :: "u8 list"

record ('q, 'x, 'd) dl_slot =
  sl_mac :: "('q, 'x) dl_mac"
  sl_dl_req :: "'d dl_tti_pdu list"
  sl_tx_req :: "tx_pdu list"
  sl_tx_time :: "int \<times> int"
  sl_pdcch_pdu_idx :: "int \<Rightarrow> nat option"
  sl_pdu_index :: int
  sl_total_prb :: int
  sl_used_prb :: int

text \<open>Find the PDCCH PDU of a CORESET or create it; the result is its place in the request.\<close>

definition pdcch_pdu_of :: "int \<Rightarrow> ('q, 'x, 'd) dl_slot \<Rightarrow> nat \<times> ('q, 'x, 'd) dl_slot" where
  "pdcch_pdu_of coresetid sl =
     (case sl_pdcch_pdu_idx sl coresetid of
        Some k \<Rightarrow> (k, sl)
      | None \<Rightarrow>
          (length (sl_dl_req sl),
           sl\<lparr>sl_dl_req := sl_dl_req sl @ [PdcchPdu coresetid []],
              sl_pdcch_pdu_idx := (sl_pdcch_pdu_idx sl)(coresetid \<mapsto> length (sl_dl_req sl))\<rparr>))"

definition add_dci :: "nat \<Rightarrow> 'd \<Rightarrow> 'd dl_tti_pdu list \<Rightarrow> 'd dl_tti_pdu list" where
  "add_dci k dci req = (case req ! k of PdcchPdu c ds \<Rightarrow> req[k := PdcchPdu c (ds @ [dci])] | PdschPdu p \<Rightarrow> req)"

text \<open>
  The FAPI part of a grant: the PDCCH PDU if it is missing, the PDSCH PDU, its index, and the DCI.
\<close>

definition dl_fapi ::
    "('q, 'd) pdu_lib \<Rightarrow> dl_cfg \<Rightarrow> 'q dl_ue \<Rightarrow> NR_sched_pdsch_t \<Rightarrow> int \<Rightarrow> (int \<times> int) option \<Rightarrow>
     ('q, 'x, 'd) dl_slot \<Rightarrow> ('q, 'x, 'd) dl_slot \<times> int" where
  "dl_fapi Q C ue s harq_pid pucch sl =
     (let (k, sl) = pdcch_pdu_of (d_coresetid ue) sl;
          pduindex = sl_pdu_index sl;
          maxMIMO_Layers = (case d_maxMIMO_Layers ue of None \<Rightarrow> 1 | Some l \<Rightarrow> l);
          p = prepare_pdsch_pdu Q C (Some ue) s False (round (harq_processes (d_ctrl ue) harq_pid)) (d_rnti ue)
                (d_beam_index ue) (min maxMIMO_Layers 4) pduindex
      in (sl\<lparr>sl_dl_req := add_dci k (make_dl_dci Q ue p s pucch harq_pid) (sl_dl_req sl @ [PdschPdu p]),
             sl_pdu_index := pduindex + 1\<rparr>, pduindex))"

text \<open>The branch of a first transmission: the transport block, the statistics and the saved information.\<close>

definition dl_initial_tx ::
    "'x tb_env \<Rightarrow> dl_cfg \<Rightarrow> int \<Rightarrow> int \<Rightarrow> 'q dl_ue \<Rightarrow> NR_sched_pdsch_t \<Rightarrow> int \<Rightarrow> ('q, 'x, 'd) dl_slot \<Rightarrow>
     dl_error + ('q dl_ue \<times> ('q, 'x, 'd) dl_slot)" where
  "dl_initial_tx T C frame slot ue s harq_pid sl =
     (case dl_build_tb T C ue (nat (pd_tb_size s)) (dm_rest (sl_mac sl)) of
        Inl e \<Rightarrow> Inl e
      | Inr tb \<Rightarrow>
          let c = d_ctrl ue;
              h = (harq_processes c harq_pid)\<lparr>transportBlock := tb_bytes tb, sched_pdsch := s\<rparr>;
              ue = ue\<lparr>d_lc_bytes := tb_lc_bytes tb, d_total_bytes := d_total_bytes ue + pd_tb_size s,
                      d_current_bytes := to_u32 (pd_tb_size s), d_total_rbs := d_total_rbs ue + pd_rbSize s,
                      d_num_mac_sdu := d_num_mac_sdu ue + tb_sdus tb, d_current_rbs := pd_rbSize s,
                      d_total_sdu_bytes := d_total_sdu_bytes ue + tb_sdu_bytes tb,
                      d_ctrl := c\<lparr>harq_processes := (harq_processes c)(harq_pid := h)\<rparr>\<rparr>;
              ue = (if d_ta_apply ue then ue\<lparr>d_ta_apply := False, d_ta_frame := frame\<rparr> else ue)
          in Inr (ue, sl\<lparr>sl_used_prb := sl_used_prb sl + pd_rbSize s,
               sl_mac := (sl_mac sl)\<lparr>dm_rest := tb_state tb,
                 dm_runtime := rk_slice_runtime_note_dl_grant (dm_runtime (sl_mac sl)) (d_rnti ue)
                   (frame * dcfg_slots_frame C + slot)\<rparr>\<rparr>))"

definition dl_retx ::
    "'q dl_ue \<Rightarrow> NR_sched_pdsch_t \<Rightarrow> int \<Rightarrow> ('q, 'x, 'd) dl_slot \<Rightarrow> dl_error + ('q dl_ue \<times> ('q, 'x, 'd) dl_slot)" where
  "dl_retx ue s harq_pid sl =
     (if pd_tb_size (sched_pdsch (harq_processes (d_ctrl ue) harq_pid)) \<noteq> pd_tb_size s then Inl TbsMismatch
      else Inr (ue\<lparr>d_total_rbs_retx := d_total_rbs_retx ue + pd_rbSize s\<rparr>,
                sl\<lparr>sl_used_prb := sl_used_prb sl + pd_rbSize s\<rparr>))"

text \<open>What happens to every UE before it is known whether it is scheduled.\<close>

definition dl_ue_prepare :: "int \<Rightarrow> 'q dl_ue \<Rightarrow> 'q dl_ue" where
  "dl_ue_prepare frame ue =
     (let ue = ue\<lparr>d_current_bytes := 0, d_current_rbs := 0\<rparr>
      in if dl_ta_due ue frame \<and> \<not> d_transm_interrupt ue then ue\<lparr>d_ta_apply := True\<rparr> else ue)"

text \<open>The body of the loop over the connected UEs.\<close>

definition dl_ue_spec ::
    "('q, 'x) dl_env \<Rightarrow> ('q, 'd) pdu_lib \<Rightarrow> 'x tb_env \<Rightarrow> dl_cfg \<Rightarrow> int \<Rightarrow> int \<Rightarrow> nat \<Rightarrow> ('q, 'x, 'd) dl_slot \<Rightarrow>
     dl_error + ('q, 'x, 'd) dl_slot" where
  "dl_ue_spec E Q T C frame slot i sl =
     (let ue = dm_ues (sl_mac sl) ! i in
      if d_ul_failure ue \<and> \<not> dcfg_phy_test C then Inr sl
      else
        let ue = dl_ue_prepare frame ue; s = d_sched_pdsch ue in
        if pd_rbSize s \<le> 0 then Inr (sl\<lparr>sl_mac := upd_dl_ue i ue (sl_mac sl)\<rparr>)
        else
          let pucch = (if pd_pucch_allocation s < 0 then None else Some (d_sched_pucch ue (pd_pucch_allocation s)))
          in case dl_harq_grant (de_lists E) (d_ctrl ue) (dl_harq_pid s) pucch of
               Inl e \<Rightarrow> Inl (DlHarqError e)
             | Inr (c, pid) \<Rightarrow>
                 let s = (if to_i8 (dl_harq_pid s) < 0 then s\<lparr>dl_harq_pid := pid\<rparr> else s);
                     r = round (harq_processes c pid);
                     ue = ue\<lparr>d_ctrl := c, d_sched_pdsch := s, d_rounds := (d_rounds ue)(r := d_rounds ue r + 1)\<rparr>;
                     (sl, pduindex) = dl_fapi Q C ue s pid pucch sl;
                     ue = ue\<lparr>d_tpc1 := 1\<rparr>
                 in if \<not> dl_resourceAllocationType1 (d_bwp ue) then Inl BadResourceAllocation
                    else case (if r \<noteq> 0 then dl_retx ue s pid sl else dl_initial_tx T C frame slot ue s pid sl) of
                           Inl e \<Rightarrow> Inl e
                         | Inr (ue, sl) \<Rightarrow>
                             let tx = \<lparr>tx_PDU_index = pduindex,
                                       tx_data = take (nat (pd_tb_size s)) (transportBlock (harq_processes (d_ctrl ue) pid))\<rparr>
                             in Inr (sl\<lparr>sl_tx_req := sl_tx_req sl @ [tx], sl_tx_time := (frame, slot),
                                        sl_mac := upd_dl_ue i (ue\<lparr>d_sched_pdsch := s\<lparr>pd_rbSize := 0\<rparr>\<rparr>) (sl_mac sl)\<rparr>))"

definition nr_schedule_ue_spec ::
    "('q, 'x) dl_env \<Rightarrow> ('q, 'd) pdu_lib \<Rightarrow> 'x tb_env \<Rightarrow> dl_cfg \<Rightarrow> (int \<times> int) option \<Rightarrow> string option \<Rightarrow> int \<Rightarrow> int \<Rightarrow>
     ('q, 'x, 'd) dl_slot \<Rightarrow> dl_error + ('q, 'x, 'd) dl_slot" where
  "nr_schedule_ue_spec E Q T C stat cfg_file frame slot sl =
     (if \<not> pl_is_dl_slot Q slot then Inr sl
      else case nr_dlsch_preprocessor E C stat cfg_file frame slot (sl_mac sl) of
             Inl e \<Rightarrow> Inl e
           | Inr mac \<Rightarrow>
               fold_res (dl_ue_spec E Q T C frame slot) [0..<length (dm_ues mac)]
                 (sl\<lparr>sl_mac := mac, sl_total_prb := sl_total_prb sl + dcfg_initial_bw C\<rparr>))"

end
