(* ===== verification/DlPass.thy ===== *)
theory DlPass imports DlUeSpec begin

text \<open>
  What a pass of the downlink scheduler does to the UEs: it changes the HARQ processes only in the saved
  parameters of a retransmission, and what it plans for a UE is a free process or a process that waits
  for retransmission, with the size of the saved transport block.
\<close>

section \<open>The plan of a UE\<close>

text \<open>The information saved with a process that is in use belongs to it and describes its transport block.\<close>

definition dl_saved :: "('q \<Rightarrow> int list) \<Rightarrow> 'q dl_sched_ctrl \<Rightarrow> bool" where
  "dl_saved elems c \<longleftrightarrow>
     (\<forall>p \<in> set (elems (feedback_harq c)) \<union> set (elems (retrans_harq c)).
        dl_harq_pid (sched_pdsch (harq_processes c p)) = p \<and>
        int (length (transportBlock (harq_processes c p))) = pd_tb_size (sched_pdsch (harq_processes c p)))"

definition dl_ue_ok :: "('q \<Rightarrow> int list) \<Rightarrow> int \<Rightarrow> int \<Rightarrow> 'q dl_ue \<Rightarrow> bool" where
  "dl_ue_ok elems n rmax ue \<longleftrightarrow> harq_inv elems n rmax {} (d_ctrl ue) \<and> dl_saved elems (d_ctrl ue)"

definition dl_plan_ok :: "('q \<Rightarrow> int list) \<Rightarrow> 'q dl_sched_ctrl \<Rightarrow> NR_sched_pdsch_t \<Rightarrow> bool" where
  "dl_plan_ok elems c s \<longleftrightarrow>
     dl_harq_pid s \<in> set (elems (available_harq c)) \<or>
     dl_harq_pid s \<in> set (elems (retrans_harq c)) \<and>
       pd_tb_size s = pd_tb_size (sched_pdsch (harq_processes c (dl_harq_pid s)))"

definition dl_planned :: "('q \<Rightarrow> int list) \<Rightarrow> 'q dl_ue \<Rightarrow> bool" where
  "dl_planned elems ue \<longleftrightarrow>
     (0 < pd_rbSize (d_sched_pdsch ue) \<longrightarrow> \<not> d_ul_failure ue \<and> dl_plan_ok elems (d_ctrl ue) (d_sched_pdsch ue))"

text \<open>Overwriting the saved information of a process.\<close>

definition resave :: "'q dl_sched_ctrl \<Rightarrow> int \<Rightarrow> NR_sched_pdsch_t \<Rightarrow> 'q dl_sched_ctrl" where
  "resave c p s = c\<lparr>harq_processes := (harq_processes c)(p := (harq_processes c p)\<lparr>sched_pdsch := s\<rparr>)\<rparr>"

lemma resave_simps [simp]:
  "available_harq (resave c p s) = available_harq c" "feedback_harq (resave c p s) = feedback_harq c"
  "retrans_harq (resave c p s) = retrans_harq c"
  "harq_processes (resave c p s) q = (if q = p then (harq_processes c p)\<lparr>sched_pdsch := s\<rparr> else harq_processes c q)"
  by (simp_all add: resave_def)

lemma resave_inv: "harq_inv elems n rmax out (resave c p s) = harq_inv elems n rmax out c"
  by (auto simp: harq_inv_def Let_def)

lemma resave_saved:
  assumes "dl_saved elems c" and "dl_harq_pid s = dl_harq_pid (sched_pdsch (harq_processes c p))"
    and "pd_tb_size s = pd_tb_size (sched_pdsch (harq_processes c p))"
  shows "dl_saved elems (resave c p s)"
  using assms by (auto simp: dl_saved_def)

section \<open>Single steps\<close>

text \<open>
  What no step of a pass changes in a UE, and the two kinds of change: bookkeeping that keeps processes
  and plan, and the step of a retransmission for the process at the head of its list.
\<close>

definition dl_same :: "'q dl_ue \<Rightarrow> 'q dl_ue \<Rightarrow> bool" where
  "dl_same a b \<longleftrightarrow> d_rnti b = d_rnti a \<and> d_ul_failure b = d_ul_failure a \<and> d_bwp b = d_bwp a \<and>
     d_feedback_disabled b = d_feedback_disabled a \<and> d_common_ss b = d_common_ss a \<and> d_coresetid b = d_coresetid a \<and>
     d_pdcch_rb_start b = d_pdcch_rb_start a \<and> d_initial_dl_BWPSize b = d_initial_dl_BWPSize a"

lemma dl_same_refl [simp]: "dl_same a a"
  by (simp add: dl_same_def)

lemma dl_same_trans: "dl_same a b \<Longrightarrow> dl_same b c \<Longrightarrow> dl_same a c"
  by (simp add: dl_same_def)

lemma dl_same_upd [simp]:
  "dl_same a (b\<lparr>d_ctrl := c\<rparr>) = dl_same a b" "dl_same a (b\<lparr>d_sched_pdsch := s\<rparr>) = dl_same a b"
  "dl_same a (b\<lparr>d_dl_thr_ue := t\<rparr>) = dl_same a b" "dl_same a (b\<lparr>d_bler_mcs := m\<rparr>) = dl_same a b"
  "dl_same a (b\<lparr>d_dl_cce_fail := k\<rparr>) = dl_same a b" "dl_same a (b\<lparr>d_cce_index := k\<rparr>) = dl_same a b"
  "dl_same a (b\<lparr>d_sched_pucch := u\<rparr>) = dl_same a b"
  by (simp_all add: dl_same_def)

lemma dl_same_bwp: "dl_same a b \<Longrightarrow> get_pdsch_bwp_start_size C (Some b) = get_pdsch_bwp_start_size C (Some a)"
  by (simp add: dl_same_def get_pdsch_bwp_start_size_def Let_def)

definition retx_step :: "'q dl_ue \<Rightarrow> int \<Rightarrow> bool \<Rightarrow> 'q dl_ue \<Rightarrow> bool" where
  "retx_step a pid gr b \<longleftrightarrow>
     (\<exists>ri. dl_harq_pid ri = dl_harq_pid (sched_pdsch (harq_processes (d_ctrl a) pid)) \<and>
        pd_tb_size ri = pd_tb_size (sched_pdsch (harq_processes (d_ctrl a) pid)) \<and>
        d_ctrl b = resave (d_ctrl a) pid ri \<and>
        (if gr then dl_harq_pid (d_sched_pdsch b) = dl_harq_pid ri \<and> pd_tb_size (d_sched_pdsch b) = pd_tb_size ri
         else d_sched_pdsch b = d_sched_pdsch a))"

lemma dl_retx_place_saved:
  assumes "dl_retx_place L C msk ue slot pid = Some (ri, st)"
  shows "dl_harq_pid ri = dl_harq_pid (sched_pdsch (harq_processes (d_ctrl ue) pid)) \<and>
    pd_tb_size ri = pd_tb_size (sched_pdsch (harq_processes (d_ctrl ue) pid))"
  using assms by (auto simp: dl_retx_place_def dl_retx_new_tda_def Let_def split: if_splits prod.splits)

lemma dl_find_pucch_same:
  assumes "dl_find_pucch E frame slot ue pid cce x = Some (x', ue', alloc)"
  shows "\<exists>u. ue' = ue\<lparr>d_sched_pucch := u\<rparr>"
proof -
  have "ue' = ue \<or> (\<exists>u. ue' = ue\<lparr>d_sched_pucch := u\<rparr>)"
    using assms by (auto simp: dl_find_pucch_def Let_def split: if_splits prod.splits)
  moreover have "ue = ue\<lparr>d_sched_pucch := d_sched_pucch ue\<rparr>" by simp
  ultimately show ?thesis by metis
qed

lemma upd_dl_ue_simps [simp]:
  "dm_ues (upd_dl_ue i ue m) = (dm_ues m)[i := ue]" "dm_vrb_map (upd_dl_ue i ue m) = dm_vrb_map m"
  "dm_rest (upd_dl_ue i ue m) = dm_rest m" "dm_assoc (upd_dl_ue i ue m) = dm_assoc m"
  "dm_dl (upd_dl_ue i ue m) = dm_dl m" "dm_runtime (upd_dl_ue i ue m) = dm_runtime m"
  by (simp_all add: upd_dl_ue_def)

lemma dl_reset_beam_simps [simp]:
  "dm_ues (dl_reset_beam E f s ue nb m) = dm_ues m" "dm_vrb_map (dl_reset_beam E f s ue nb m) = dm_vrb_map m"
  "dm_assoc (dl_reset_beam E f s ue nb m) = dm_assoc m" "dm_dl (dl_reset_beam E f s ue nb m) = dm_dl m"
  "dm_runtime (dl_reset_beam E f s ue nb m) = dm_runtime m"
  by (simp_all add: dl_reset_beam_def)

text \<open>The state of the MAC but for UEs, maps and the opaque rest.\<close>

definition dm_policies :: "('q, 'x) dl_mac \<Rightarrow> assoc_table \<times> runtime_table \<times> dl_state" where
  "dm_policies m = (dm_assoc m, dm_runtime m, dm_dl m)"

lemma dm_policies_simps [simp]:
  "dm_policies (upd_dl_ue i ue m) = dm_policies m" "dm_policies (m\<lparr>dm_rest := x\<rparr>) = dm_policies m"
  "dm_policies (m\<lparr>dm_vrb_map := v\<rparr>) = dm_policies m" "dm_policies (dl_reset_beam E f s ue nb m) = dm_policies m"
  by (simp_all add: dm_policies_def)

text \<open>
  A step at UE \<open>i\<close>: only this UE changes, and maps of used blocks change when something is granted.
\<close>

definition only_ue :: "nat \<Rightarrow> ('q, 'x) dl_mac \<Rightarrow> 'q dl_ue \<Rightarrow> ('q, 'x) dl_mac \<Rightarrow> bool" where
  "only_ue i m ue m' \<longleftrightarrow> dm_ues m' = (dm_ues m)[i := ue] \<and> dm_policies m' = dm_policies m \<and> dl_same (dm_ues m ! i) ue"

lemma dl_pucch_failed_only:
  "i < length (dm_ues m) \<Longrightarrow>
   \<exists>u. dm_ues (dl_pucch_failed E f s i cce m) = (dm_ues m)[i := (dm_ues m ! i)\<lparr>d_sched_pucch := u\<rparr>] \<and>
     dm_policies (dl_pucch_failed E f s i cce m) = dm_policies m \<and>
     dm_vrb_map (dl_pucch_failed E f s i cce m) = dm_vrb_map m"
  by (auto simp: dl_pucch_failed_def Let_def split: prod.split)

lemma allocate_dl_outcome:
  assumes "allocate_dl_retransmission E C frame slot i beam pid m = (g, m')" and "i < length (dm_ues m)"
  shows "\<exists>ue. only_ue i m ue m' \<and> (ue = dm_ues m ! i \<and> g = None \<or> retx_step (dm_ues m ! i) pid (g \<noteq> None) ue) \<and>
    (g = None \<longrightarrow> dm_vrb_map m' = dm_vrb_map m)"
proof -
  let ?ue = "dm_ues m ! i"
  show ?thesis
  proof (cases "dl_retx_place (de_lib E) C (dm_vrb_map m beam) ?ue slot pid")
    case None
    then show ?thesis using assms
      by (intro exI [of _ ?ue]) (auto simp: allocate_dl_retransmission_def only_ue_def Let_def)
  next
    case (Some r)
    obtain ri st where r: "r = (ri, st)" by (cases r)
    note sv = dl_retx_place_saved [OF Some [unfolded r]]
    let ?c = "resave (d_ctrl ?ue) pid ri" and ?ue1 = "?ue\<lparr>d_ctrl := resave (d_ctrl ?ue) pid ri\<rparr>"
    obtain x cce where cce: "de_get_cce_index E (dm_rest m) (d_rnti ?ue) slot beam = (x, cce)" by fastforce
    let ?m1 = "(upd_dl_ue i ?ue1 m)\<lparr>dm_rest := x\<rparr>"
    have eq: "(g, m') =
       (if cce < 0 then (None, upd_dl_ue i (?ue1\<lparr>d_dl_cce_fail := d_dl_cce_fail ?ue + 1\<rparr>) ?m1)
        else case dl_find_pucch E frame slot ?ue1 pid cce x of
               None \<Rightarrow> (None, dl_pucch_failed E frame slot i cce ?m1)
             | Some (x, ue, alloc) \<Rightarrow>
                 let bi = get_pdsch_bwp_start_size C (Some ue);
                     s = ri\<lparr>pd_rbStart := st - bwpStart bi, pd_pucch_allocation := alloc, pd_bwp_info := bi\<rparr>
                 in (Some (pd_rbSize s), (upd_dl_ue i (ue\<lparr>d_cce_index := cce, d_sched_pdsch := s\<rparr>) ?m1)\<lparr>
                       dm_rest := de_fill_pdcch_vrb_map E x (d_rnti ue) cce beam,
                       dm_vrb_map := (dm_vrb_map m)(beam := dl_retx_mark (de_lib E) ri st (dm_vrb_map m beam))\<rparr>))"
      unfolding assms(1) [symmetric] allocate_dl_retransmission_def Let_def Some [unfolded r] option.case prod.case
        resave_def [symmetric]
      by (simp add: cce cong: if_cong option.case_cong prod.case_cong split del: if_split)
    consider (cce) "g = None" "m' = upd_dl_ue i (?ue1\<lparr>d_dl_cce_fail := d_dl_cce_fail ?ue + 1\<rparr>) ?m1"
      | (pucch) "g = None" "m' = dl_pucch_failed E frame slot i cce ?m1"
      | (grant) x' ue' alloc bi s where "dl_find_pucch E frame slot ?ue1 pid cce x = Some (x', ue', alloc)"
        "s = ri\<lparr>pd_rbStart := st - bwpStart bi, pd_pucch_allocation := alloc, pd_bwp_info := bi\<rparr>"
        "g = Some (pd_rbSize s)" "m' = (upd_dl_ue i (ue'\<lparr>d_cce_index := cce, d_sched_pdsch := s\<rparr>) ?m1)\<lparr>
                       dm_rest := de_fill_pdcch_vrb_map E x' (d_rnti ue') cce beam,
                       dm_vrb_map := (dm_vrb_map m)(beam := dl_retx_mark (de_lib E) ri st (dm_vrb_map m beam))\<rparr>"
      using eq by (auto simp: Let_def split: if_splits option.splits prod.splits)
    then show ?thesis
    proof cases
      case cce
      then show ?thesis using sv assms(2)
        by (intro exI [of _ "?ue1\<lparr>d_dl_cce_fail := d_dl_cce_fail ?ue + 1\<rparr>"]) (auto simp: only_ue_def retx_step_def)
    next
      case pucch
      obtain u where u: "dm_ues m' = (dm_ues m)[i := ?ue1\<lparr>d_sched_pucch := u\<rparr>]" "dm_policies m' = dm_policies m"
        "dm_vrb_map m' = dm_vrb_map m"
        using dl_pucch_failed_only [of i ?m1 E frame slot cce] assms(2) pucch(2) by auto
      then show ?thesis using sv pucch(1)
        by (intro exI [of _ "?ue1\<lparr>d_sched_pucch := u\<rparr>"]) (auto simp: only_ue_def retx_step_def)
    next
      case grant
      obtain u where u: "ue' = ?ue1\<lparr>d_sched_pucch := u\<rparr>" using dl_find_pucch_same [OF grant(1)] by blast
      show ?thesis using sv grant u
        by (intro exI [of _ "ue'\<lparr>d_cce_index := cce, d_sched_pdsch := s\<rparr>"]) (auto simp: only_ue_def retx_step_def)
    qed
  qed
qed

section \<open>The loop over the connected UEs\<close>

definition first_step :: "('q, 'x) dl_env \<Rightarrow> 'q dl_ue \<Rightarrow> 'q dl_ue \<Rightarrow> bool" where
  "first_step E a b \<longleftrightarrow>
     d_ctrl b = d_ctrl a \<and> pd_rbSize (d_sched_pdsch b) = pd_rbSize (d_sched_pdsch a) \<or>
     (\<exists>pid ri. pid = nl_head (de_lists E) (retrans_harq (d_ctrl a)) \<and> 0 \<le> pid \<and>
        dl_harq_pid ri = dl_harq_pid (sched_pdsch (harq_processes (d_ctrl a) pid)) \<and>
        pd_tb_size ri = pd_tb_size (sched_pdsch (harq_processes (d_ctrl a) pid)) \<and> d_ctrl b = resave (d_ctrl a) pid ri \<and>
        (pd_rbSize (d_sched_pdsch b) = pd_rbSize (d_sched_pdsch a) \<or>
         dl_harq_pid (d_sched_pdsch b) = dl_harq_pid ri \<and> pd_tb_size (d_sched_pdsch b) = pd_tb_size ri))"

lemma dl_new_candidate_outcome:
  assumes "i < length (dm_ues (ds_mac st))"
  shows "\<exists>ue c. only_ue i (ds_mac st) ue (ds_mac (dl_new_candidate E C f s i st)) \<and>
    d_ctrl ue = d_ctrl (dm_ues (ds_mac st) ! i) \<and>
    pd_rbSize (d_sched_pdsch ue) = pd_rbSize (d_sched_pdsch (dm_ues (ds_mac st) ! i)) \<and>
    dm_vrb_map (ds_mac (dl_new_candidate E C f s i st)) = dm_vrb_map (ds_mac st) \<and>
    ds_UE_sched (dl_new_candidate E C f s i st) = ds_UE_sched st @ [c] \<and> us_UE c = i"
  using assms by (auto simp: dl_new_candidate_def only_ue_def Let_def split: prod.split)

lemma pf_dl_ue_outcome:
  assumes i: "i < length (dm_ues (ds_mac st))"
  shows "\<exists>ue. only_ue i (ds_mac st) ue (ds_mac (pf_dl_ue E C f s i st)) \<and>
    first_step E (dm_ues (ds_mac st) ! i) ue \<and> (d_ul_failure ue \<longrightarrow> ue = dm_ues (ds_mac st) ! i) \<and>
    (nl_head (de_lists E) (retrans_harq (d_ctrl (dm_ues (ds_mac st) ! i))) < 0 \<longrightarrow>
       dm_vrb_map (ds_mac (pf_dl_ue E C f s i st)) = dm_vrb_map (ds_mac st)) \<and>
    (ds_UE_sched (pf_dl_ue E C f s i st) = ds_UE_sched st \<or>
     (\<exists>c. ds_UE_sched (pf_dl_ue E C f s i st) = ds_UE_sched st @ [c] \<and> us_UE c = i \<and> \<not> d_ul_failure ue))"
proof (cases "d_ul_failure (dm_ues (ds_mac st) ! i)")
  case True
  then show ?thesis using i by (intro exI [of _ "dm_ues (ds_mac st) ! i"])
    (simp add: pf_dl_ue_def Let_def only_ue_def first_step_def)
next
  case False
  let ?ue = "dm_ues (ds_mac st) ! i"
  define pid where "pid = nl_head (de_lists E) (retrans_harq (d_ctrl ?ue))"
  define ue1 where "ue1 = ?ue\<lparr>d_sched_pdsch := (d_sched_pdsch ?ue)\<lparr>dl_harq_pid := pid\<rparr>,
                    d_dl_thr_ue := update_thr (d_dl_thr_ue ?ue) (d_current_bytes ?ue)\<rparr>"
  define m1 where "m1 = upd_dl_ue i ue1 (ds_mac st)"
  obtain x beam nb where b: "de_beam_allocation E (dm_rest m1) f s (d_beam_index ue1) = (x, beam, nb)"
    by (metis prod_cases3)
  let ?m2 = "m1\<lparr>dm_rest := x\<rparr>"
  obtain g m3 where a: "(if 0 \<le> beam then allocate_dl_retransmission E C f s i beam pid ?m2 else (None, ?m2)) = (g, m3)"
    by fastforce
  define st1 where "st1 = st\<lparr>ds_mac := m1\<rparr>"
  have eq: "pf_dl_ue E C f s i st =
     (if dl_total_rem_ues C st1 = 0 then st1
      else if 0 \<le> pid then
        (case g of None \<Rightarrow> st1\<lparr>ds_mac := dl_reset_beam E f s ue1 nb m3\<rparr>
         | Some rbs \<Rightarrow> st1\<lparr>ds_mac := m3, ds_n_rb_sched := (ds_n_rb_sched st)(beam := ds_n_rb_sched st beam - rbs),
                        ds_remainUEs := (ds_remainUEs st)(beam := ds_remainUEs st beam - 1)\<rparr>)
      else if nl_head (de_lists E) (available_harq (d_ctrl ue1)) < 0 then st1
      else if d_num_total_bytes ue1 = 0 \<and> \<not> dl_ta_due ue1 f then st1
      else dl_new_candidate E C f s i st1)"
    unfolding pf_dl_ue_def Let_def if_not_P [OF False] pid_def [symmetric] ue1_def [symmetric] m1_def [symmetric]
      st1_def [symmetric] b prod.case a by (simp add: st1_def cong: if_cong option.case_cong)
  have same1: "dl_same ?ue ue1" "d_ctrl ue1 = d_ctrl ?ue" "pd_rbSize (d_sched_pdsch ue1) = pd_rbSize (d_sched_pdsch ?ue)"
    "\<not> d_ul_failure ue1" using False by (simp_all add: ue1_def)
  have m1: "dm_ues m1 = (dm_ues (ds_mac st))[i := ue1]" "dm_policies m1 = dm_policies (ds_mac st)"
    "dm_vrb_map m1 = dm_vrb_map (ds_mac st)" "dm_ues m1 ! i = ue1" "i < length (dm_ues m1)"
    using i by (simp_all add: m1_def)
  let ?st = "pf_dl_ue E C f s i st"
  consider (quiet) "?st = st1"
    | (retx) "0 \<le> pid" "dm_ues (ds_mac ?st) = dm_ues m3" "dm_policies (ds_mac ?st) = dm_policies m3"
        "dm_vrb_map (ds_mac ?st) = dm_vrb_map m3" "ds_UE_sched ?st = ds_UE_sched st"
    | (cand) "?st = dl_new_candidate E C f s i st1"
    using eq by (auto simp: st1_def split: if_splits option.splits)
  then show ?thesis
  proof cases
    case quiet
    then show ?thesis using same1 m1 by (intro exI [of _ ue1]) (simp add: st1_def only_ue_def first_step_def)
  next
    case cand
    obtain ue c where c: "only_ue i m1 ue (ds_mac ?st)" "d_ctrl ue = d_ctrl ue1"
      "pd_rbSize (d_sched_pdsch ue) = pd_rbSize (d_sched_pdsch ue1)" "dm_vrb_map (ds_mac ?st) = dm_vrb_map m1"
      "ds_UE_sched ?st = ds_UE_sched st @ [c]" "us_UE c = i"
      using dl_new_candidate_outcome [of i st1 E C f s] m1(4,5) unfolding cand by (auto simp: st1_def)
    have "only_ue i (ds_mac st) ue (ds_mac ?st)" "\<not> d_ul_failure ue"
      using c(1) m1(1,2,4) same1(1,4) by (auto simp: only_ue_def dl_same_def)
    then show ?thesis using c same1 m1 by (intro exI [of _ ue]) (auto simp: first_step_def)
  next
    case retx
    have "\<exists>ue. only_ue i m1 ue m3 \<and> (ue = ue1 \<and> g = None \<or> retx_step ue1 pid (g \<noteq> None) ue)"
    proof (cases "0 \<le> beam")
      case True
      then have "allocate_dl_retransmission E C f s i beam pid ?m2 = (g, m3)" using a by simp
      from allocate_dl_outcome [OF this] m1(4,5) show ?thesis by (auto simp: only_ue_def)
    next
      case False
      then show ?thesis using a m1(1,4) by (intro exI [of _ ue1]) (auto simp: only_ue_def)
    qed
    then obtain ue where ue: "only_ue i m1 ue m3" "ue = ue1 \<or> (\<exists>gr. retx_step ue1 pid gr ue)" by blast
    have "only_ue i (ds_mac st) ue (ds_mac ?st)" "\<not> d_ul_failure ue"
      using ue(1) retx(2,3) m1(1,2,4) same1(1,4) by (auto simp: only_ue_def dl_same_def)
    moreover have "first_step E ?ue ue"
      using ue(2) same1(2,3) retx(1) unfolding first_step_def retx_step_def pid_def by (auto split: if_splits)
    ultimately show ?thesis using retx(1,5) by (intro exI [of _ ue]) (auto simp: pid_def)
  qed
qed

section \<open>The loop over the candidates\<close>

lemma dl_size_grant_frame:
  assumes "s = dl_size_grant L assoc t ue frame k place alloc"
  shows "dl_harq_pid s = dl_harq_pid (d_sched_pdsch ue)" "pd_tda_info s = pd_tda_info (d_sched_pdsch ue)"
    "pd_bwp_info s = pd_bwp_info (d_sched_pdsch ue)" "pd_rbStart s = fst place" "pd_pucch_allocation s = alloc"
    "pd_tb_size s = dl_tb_bytes L s"
  using assms by (auto simp: dl_size_grant_def dl_tb_bytes_def Let_def split: prod.split)

lemma dl_size_grant_size:
  assumes "find_nb_rb_law L" and "1 \<le> k" "k \<le> n" and "s = dl_size_grant L assoc t ue frame k (st, n) alloc"
    and "pol = rk_slice_policy_get (rk_slice_assoc_get_dl_id assoc (d_rnti ue))"
  shows "0 < pd_rbSize s \<and> pd_rbSize s \<le> n \<and> (0 < dl_rb_cap pol \<longrightarrow> pd_rbSize s \<le> dl_rb_cap pol) \<and>
    (dl_rb_cap pol \<le> 0 \<longrightarrow> min (dl_rb_floor pol) n \<le> pd_rbSize s)"
proof -
  obtain Qm R ly sy dm bytes where "pd_rbSize s = apply_floor_cap (dl_rb_floor pol) (dl_rb_cap pol) n
      (snd (snd (nr_find_nb_rb L Qm R True ly sy dm bytes k n)))"
  proof -
    have "\<exists>Qm R ly sy dm bytes. pd_rbSize s = apply_floor_cap (dl_rb_floor pol) (dl_rb_cap pol) n
        (snd (snd (nr_find_nb_rb L Qm R True ly sy dm bytes k n)))"
      unfolding assms(4,5) dl_size_grant_def Let_def by (simp add: split_beta split del: if_split) (intro exI, rule refl)
    then show thesis using that by blast
  qed
  moreover have "k \<le> snd (snd (nr_find_nb_rb L Qm R True ly sy dm bytes k n))"
    "snd (snd (nr_find_nb_rb L Qm R True ly sy dm bytes k n)) \<le> n"
    using assms(1-3) unfolding find_nb_rb_law_def by blast+
  ultimately show ?thesis
    using apply_floor_cap_range [of "snd (snd (nr_find_nb_rb L Qm R True ly sy dm bytes k n))" n
        "dl_rb_floor pol" "dl_rb_cap pol"] assms(2) by auto
qed

definition second_step :: "('q, 'x) dl_env \<Rightarrow> 'q dl_ue \<Rightarrow> 'q dl_ue \<Rightarrow> bool" where
  "second_step E a b \<longleftrightarrow> d_ctrl b = d_ctrl a \<and>
     (d_sched_pdsch b = d_sched_pdsch a \<or>
      0 \<le> dl_harq_pid (d_sched_pdsch b) \<and> dl_harq_pid (d_sched_pdsch b) = nl_head (de_lists E) (available_harq (d_ctrl a)))"

text \<open>The grant of a new transmission with the blocks it takes.\<close>

definition dl_min_rb :: "('q, 'x) dl_mac \<Rightarrow> 'q dl_ue \<Rightarrow> int" where
  "dl_min_rb m ue = rk_ue_dl_get_min_grant_prb (g_rk_ue_dl_tbl (dm_dl m)) (d_rnti ue) 5"

definition new_grant :: "('q, 'x) dl_env \<Rightarrow> dl_cfg \<Rightarrow> int \<Rightarrow> ('q, 'x) dl_mac \<Rightarrow> int \<Rightarrow> 'q dl_ue \<Rightarrow> ('q, 'x) dl_mac \<Rightarrow> bool" where
  "new_grant E C frame m beam ue m' \<longleftrightarrow>
     (\<exists>a place alloc. let s = d_sched_pdsch ue; bits = dl_grant_bits E (pd_tda_info s) in
        dl_same a ue \<and> s = dl_size_grant (de_lib E) (dm_assoc m) (g_rk_ue_dl_tbl (dm_dl m)) a frame (dl_min_rb m ue) place alloc \<and>
        pd_bwp_info s = get_pdsch_bwp_start_size C (Some ue) \<and>
        dl_find_rbs (dm_vrb_map m beam) bits (pd_bwp_info s) (dl_min_rb m ue) = Some place \<and>
        dm_vrb_map m' = (dm_vrb_map m)(beam := dl_mark s bits (dm_vrb_map m beam)))"

lemma pf_dl_grant_outcome:
  assumes run: "pf_dl_grant E C f s cand st = Inr st'" and i: "us_UE cand < length (dm_ues (ds_mac st))"
  shows "\<exists>ue. only_ue (us_UE cand) (ds_mac st) ue (ds_mac st') \<and> second_step E (dm_ues (ds_mac st) ! us_UE cand) ue \<and>
    (dm_vrb_map (ds_mac st') = dm_vrb_map (ds_mac st) \<and>
       pd_rbSize (d_sched_pdsch ue) = pd_rbSize (d_sched_pdsch (dm_ues (ds_mac st) ! us_UE cand)) \<or>
     (\<exists>beam. 0 \<le> beam \<and> fst (snd (de_beam_allocation E (dm_rest (ds_mac st)) f s (d_beam_index (dm_ues (ds_mac st) ! us_UE cand)))) = beam \<and>
        new_grant E C f (ds_mac st) beam ue (ds_mac st')))"
proof -
  let ?i = "us_UE cand" and ?m = "ds_mac st"
  define ue where "ue = dm_ues ?m ! ?i"
  define k where "k = dl_min_rb ?m ue"
  define pid where "pid = nl_head (de_lists E) (available_harq (d_ctrl ue))"
  obtain x beam nb where b: "de_beam_allocation E (dm_rest ?m) f s (d_beam_index ue) = (x, beam, nb)"
    by (metis prod_cases3)
  define ti where "ti = get_dl_tda_info (de_lib E) ue (get_dl_tda C s)"
  define bi where "bi = get_pdsch_bwp_start_size C (Some ue)"
  define sp where "sp = (d_sched_pdsch ue)\<lparr>dl_harq_pid := pid, pd_time_domain_allocation := get_dl_tda C s,
     pd_tda_info := ti, pd_bwp_info := bi\<rparr>"
  define ue1 where "ue1 = ue\<lparr>d_sched_pdsch := sp\<rparr>"
  obtain x2 cce where cce: "de_get_cce_index E x (d_rnti ue1) s beam = (x2, cce)" by fastforce
  let ?mq = "?m\<lparr>dm_rest := x\<rparr>" and ?m1 = "upd_dl_ue ?i ue1 (?m\<lparr>dm_rest := x\<rparr>)"
  let ?m2 = "?m1\<lparr>dm_rest := x2\<rparr>"
  define bits where "bits = dl_grant_bits E ti"
  let ?vrb = "dm_vrb_map ?m"
  define quiet1 where "quiet1 = st\<lparr>ds_mac := ?mq\<rparr>"
  define quiet2 where "quiet2 = st\<lparr>ds_mac := dl_reset_beam E f s ue nb ?mq\<rparr>"
  define nofit where "nofit = st\<lparr>ds_mac := ?m1\<rparr>"
  define nocce where "nocce = st\<lparr>ds_mac := dl_reset_beam E f s ue1 nb
    (upd_dl_ue ?i (ue1\<lparr>d_dl_cce_fail := d_dl_cce_fail ue1 + 1\<rparr>) ?m2)\<rparr>"
  define nopucch where "nopucch = st\<lparr>ds_mac := dl_reset_beam E f s ue1 nb (dl_pucch_failed E f s ?i cce ?m2)\<rparr>"
  define size where "size = (\<lambda>ue2 place alloc. dl_size_grant (de_lib E) (dm_assoc ?m) (g_rk_ue_dl_tbl (dm_dl ?m)) ue2 f k place alloc)"
  define granted_st where "granted_st = (\<lambda>x3 ue2 sg. st\<lparr>ds_mac := (upd_dl_ue ?i (ue2\<lparr>d_cce_index := cce, d_sched_pdsch := sg\<rparr>) ?m2)\<lparr>
                         dm_rest := de_fill_pdcch_vrb_map E x3 (d_rnti ue2) cce beam,
                         dm_vrb_map := ?vrb(beam := dl_mark sg bits (?vrb beam))\<rparr>,
                       ds_n_rb_sched := (ds_n_rb_sched st)(beam := ds_n_rb_sched st beam - pd_rbSize sg),
                       ds_remainUEs := (ds_remainUEs st)(beam := ds_remainUEs st beam - 1)\<rparr>)"
  have eq: "Inr st' =
     (if pid < 0 then Inr st
      else if beam < 0 then Inr quiet1
      else if ds_remainUEs st beam = 0 \<or> ds_n_rb_sched st beam < k then Inr quiet2
      else if \<not> valid_tda ti then Inl InvalidTda
      else case dl_find_rbs (?vrb beam) bits bi k of
          None \<Rightarrow> Inr nofit
        | Some place \<Rightarrow>
            if cce < 0 then Inr nocce
            else case dl_find_pucch E f s ue1 pid cce x2 of
                None \<Rightarrow> Inr nopucch
              | Some (x3, ue2, alloc) \<Rightarrow> Inr (granted_st x3 ue2 (size ue2 place alloc)))"
    unfolding run [symmetric] pf_dl_grant_def Let_def ue_def [symmetric] dl_min_rb_def [symmetric] k_def [symmetric]
      pid_def [symmetric] b prod.case ti_def [symmetric] bits_def [symmetric] bi_def [symmetric]
    by (simp add: sp_def [symmetric] ue1_def [symmetric] cce quiet1_def quiet2_def nofit_def nocce_def nopucch_def
        size_def granted_st_def cong: if_cong option.case_cong prod.case_cong split del: if_split)
  have same: "dl_same (dm_ues ?m ! ?i) ue1" "d_ctrl ue1 = d_ctrl ue" by (simp_all add: ue1_def ue_def)
  have spf: "dl_harq_pid sp = pid" "pd_rbSize sp = pd_rbSize (d_sched_pdsch ue)" "pd_tda_info sp = ti" "pd_bwp_info sp = bi"
    by (simp_all add: sp_def)
  let ?Q = "\<lambda>u. only_ue ?i ?m u (ds_mac st') \<and> second_step E (dm_ues ?m ! ?i) u \<and> dm_vrb_map (ds_mac st') = ?vrb \<and>
     pd_rbSize (d_sched_pdsch u) = pd_rbSize (d_sched_pdsch (dm_ues ?m ! ?i))"
  consider (quiet) "ds_mac st' = ?m \<or> ds_mac st' = ?mq \<or> ds_mac st' = dl_reset_beam E f s ue nb ?mq"
    | (none) "0 \<le> pid" "ds_mac st' = ?m1"
    | (cce) "0 \<le> pid" "ds_mac st' = dl_reset_beam E f s ue1 nb (upd_dl_ue ?i (ue1\<lparr>d_dl_cce_fail := d_dl_cce_fail ue1 + 1\<rparr>) ?m2)"
    | (pucch) "0 \<le> pid" "ds_mac st' = dl_reset_beam E f s ue1 nb (dl_pucch_failed E f s ?i cce ?m2)"
    | (grant) place x3 ue2 alloc sg where "0 \<le> pid" "0 \<le> beam" "dl_find_rbs (?vrb beam) bits bi k = Some place"
        "dl_find_pucch E f s ue1 pid cce x2 = Some (x3, ue2, alloc)"
        "sg = dl_size_grant (de_lib E) (dm_assoc ?m) (g_rk_ue_dl_tbl (dm_dl ?m)) ue2 f k place alloc"
        "ds_mac st' = (upd_dl_ue ?i (ue2\<lparr>d_cce_index := cce, d_sched_pdsch := sg\<rparr>) ?m2)\<lparr>
                         dm_rest := de_fill_pdcch_vrb_map E x3 (d_rnti ue2) cce beam,
                         dm_vrb_map := ?vrb(beam := dl_mark sg bits (?vrb beam))\<rparr>"
  proof -
    consider "st' = st" | "st' = quiet1" | "st' = quiet2" | "0 \<le> pid" "st' = nofit" | "0 \<le> pid" "st' = nocce"
      | "0 \<le> pid" "st' = nopucch"
      | place x3 ue2 alloc where "0 \<le> pid" "0 \<le> beam" "dl_find_rbs (?vrb beam) bits bi k = Some place"
        "dl_find_pucch E f s ue1 pid cce x2 = Some (x3, ue2, alloc)" "st' = granted_st x3 ue2 (size ue2 place alloc)"
      using eq by (auto split: if_split_asm option.split_asm prod.split_asm)
    then show thesis
    proof cases
      case 7
      show thesis by (rule that(5) [OF 7(1-4) refl]) (simp add: 7(5) granted_st_def size_def)
    next
      case 1
      show thesis by (rule that(1)) (use 1 in \<open>simp_all add: quiet1_def quiet2_def nofit_def nocce_def nopucch_def\<close>)
    next
      case 2
      show thesis by (rule that(1)) (use 2 in \<open>simp_all add: quiet1_def quiet2_def nofit_def nocce_def nopucch_def\<close>)
    next
      case 3
      show thesis by (rule that(1)) (use 3 in \<open>simp_all add: quiet1_def quiet2_def nofit_def nocce_def nopucch_def\<close>)
    next
      case 4
      show thesis by (rule that(2)) (use 4 in \<open>simp_all add: quiet1_def quiet2_def nofit_def nocce_def nopucch_def\<close>)
    next
      case 5
      show thesis by (rule that(3)) (use 5 in \<open>simp_all add: quiet1_def quiet2_def nofit_def nocce_def nopucch_def\<close>)
    next
      case 6
      show thesis by (rule that(4)) (use 6 in \<open>simp_all add: quiet1_def quiet2_def nofit_def nocce_def nopucch_def\<close>)
    qed
  qed
  then show ?thesis
  proof cases
    case quiet
    then have "?Q ue" by (auto simp: only_ue_def second_step_def ue_def)
    then show ?thesis by blast
  next
    case none
    then have "?Q ue1" using same spf by (auto simp: only_ue_def second_step_def ue_def [symmetric] ue1_def pid_def)
    then show ?thesis by blast
  next
    case cce
    then have "?Q (ue1\<lparr>d_dl_cce_fail := d_dl_cce_fail ue1 + 1\<rparr>)"
      using same spf by (auto simp: only_ue_def second_step_def ue_def [symmetric] ue1_def pid_def)
    then show ?thesis by blast
  next
    case pucch
    obtain u where "dm_ues (dl_pucch_failed E f s ?i cce ?m2) = (dm_ues ?m2)[?i := (dm_ues ?m2 ! ?i)\<lparr>d_sched_pucch := u\<rparr>]"
      "dm_policies (dl_pucch_failed E f s ?i cce ?m2) = dm_policies ?m2"
      "dm_vrb_map (dl_pucch_failed E f s ?i cce ?m2) = dm_vrb_map ?m2"
      using dl_pucch_failed_only [of ?i ?m2 E f s cce] i by auto
    then have "?Q (ue1\<lparr>d_sched_pucch := u\<rparr>)"
      using same spf i pucch by (auto simp: only_ue_def second_step_def ue_def [symmetric] ue1_def pid_def)
    then show ?thesis by blast
  next
    case grant
    obtain u where u: "ue2 = ue1\<lparr>d_sched_pucch := u\<rparr>" using dl_find_pucch_same [OF grant(4)] by blast
    let ?u = "ue2\<lparr>d_cce_index := cce, d_sched_pdsch := sg\<rparr>"
    note sg = dl_size_grant_frame [OF grant(5)]
    have sg': "dl_harq_pid sg = pid" "pd_tda_info sg = ti" "pd_bwp_info sg = bi" using sg spf by (simp_all add: u ue1_def)
    have su: "dl_same (dm_ues ?m ! ?i) ?u" "dl_same ue ?u" using same by (simp_all add: u ue_def)
    have km: "dl_min_rb ?m ?u = k" using su(2) by (simp add: k_def dl_min_rb_def dl_same_def)
    have "only_ue ?i ?m ?u (ds_mac st')" using grant(6) su by (simp add: only_ue_def)
    moreover have "second_step E (dm_ues ?m ! ?i) ?u"
      using grant(1) sg'(1) by (simp add: second_step_def u ue1_def ue_def [symmetric] pid_def [symmetric])
    moreover have "new_grant E C f ?m beam ?u (ds_mac st')"
      unfolding new_grant_def Let_def km
      using grant(3,5,6) sg' su bi_def dl_same_bwp [OF su(2), of C]
      by (intro exI [of _ ue2] exI [of _ place] exI [of _ alloc]) (simp add: bits_def)
    ultimately show ?thesis using grant(2) b unfolding ue_def [symmetric]
      by (intro exI [of _ ?u]) simp
  qed
qed

lemma pf_dl_grant_error: "pf_dl_grant E C f s cand st = Inl e \<Longrightarrow> e = InvalidTda"
  by (auto simp: pf_dl_grant_def Let_def split: if_splits option.splits prod.splits)

end
