(* ===== verification/DlGuarantees.thy ===== *)
theory DlGuarantees imports DlPass begin

text \<open>
  What the downlink scheduler guarantees: the plan of a pass is executable and \<^verbatim>\<open>nr_schedule_ue_spec\<close>
  keeps the HARQ processes, the saved transport blocks and the requests consistent.
\<close>

section \<open>The plan of a pass\<close>

lemma head_mem:
  assumes "nr_list_laws N elems" and "0 \<le> nl_head N q"
  shows "nl_head N q \<in> set (elems q)"
  using assms nr_list_lawsD(1) [OF assms(1), of q] by (auto split: list.splits)

lemma first_step_ok:
  assumes laws: "nr_list_laws (de_lists E) elems" and step: "first_step E a b" "d_ul_failure b \<longrightarrow> b = a"
    and ok: "dl_ue_ok elems n rmax a"
  shows "dl_ue_ok elems n rmax b \<and> (pd_rbSize (d_sched_pdsch a) \<le> 0 \<longrightarrow> dl_planned elems b)"
proof -
  consider "d_ctrl b = d_ctrl a" "pd_rbSize (d_sched_pdsch b) = pd_rbSize (d_sched_pdsch a)"
    | pid ri where "pid = nl_head (de_lists E) (retrans_harq (d_ctrl a))" "0 \<le> pid"
    "dl_harq_pid ri = dl_harq_pid (sched_pdsch (harq_processes (d_ctrl a) pid))"
    "pd_tb_size ri = pd_tb_size (sched_pdsch (harq_processes (d_ctrl a) pid))"
    "d_ctrl b = resave (d_ctrl a) pid ri"
    "pd_rbSize (d_sched_pdsch b) = pd_rbSize (d_sched_pdsch a) \<or>
      dl_harq_pid (d_sched_pdsch b) = dl_harq_pid ri \<and> pd_tb_size (d_sched_pdsch b) = pd_tb_size ri"
    using step(1) unfolding first_step_def by blast
  then show ?thesis
  proof cases
    case 1
    then show ?thesis using ok by (auto simp: dl_ue_ok_def dl_planned_def)
  next
    case 2
    have mem: "pid \<in> set (elems (retrans_harq (d_ctrl a)))" using head_mem [OF laws] 2(1,2) by simp
    then have pid: "dl_harq_pid ri = pid" using ok 2(3) by (simp add: dl_ue_ok_def dl_saved_def)
    have "dl_ue_ok elems n rmax b"
      using ok 2 by (simp add: dl_ue_ok_def resave_inv resave_saved)
    moreover have "pd_rbSize (d_sched_pdsch a) \<le> 0 \<longrightarrow> dl_planned elems b"
    proof (cases "d_ul_failure b")
      case True
      then have "b = a" using step(2) by blast
      then show ?thesis by (simp add: dl_planned_def)
    next
      case False
      then show ?thesis using mem pid 2(5,6) by (auto simp: dl_planned_def dl_plan_ok_def)
    qed
    ultimately show ?thesis by blast
  qed
qed

lemma second_step_ok:
  assumes laws: "nr_list_laws (de_lists E) elems" and step: "second_step E a b"
    and ok: "dl_ue_ok elems n rmax a" "dl_planned elems a" "\<not> d_ul_failure b"
  shows "dl_ue_ok elems n rmax b \<and> dl_planned elems b"
  using step ok head_mem [OF laws, of "available_harq (d_ctrl a)"] unfolding second_step_def
  by (auto simp: dl_ue_ok_def dl_planned_def dl_plan_ok_def)

text \<open>Before UE \<open>i\<close> of the first loop: the UEs from \<open>i\<close> on are not planned yet.\<close>

definition dl_ues_ok :: "('q \<Rightarrow> int list) \<Rightarrow> int \<Rightarrow> int \<Rightarrow> nat \<Rightarrow> 'q dl_ue list \<Rightarrow> bool" where
  "dl_ues_ok elems n rmax i ues \<longleftrightarrow>
     (\<forall>k < length ues. dl_ue_ok elems n rmax (ues ! k) \<and> dl_planned elems (ues ! k) \<and>
        (i \<le> k \<longrightarrow> pd_rbSize (d_sched_pdsch (ues ! k)) \<le> 0))"

definition candidates_ok :: "nat \<Rightarrow> ('q, 'x) dl_pf_state \<Rightarrow> bool" where
  "candidates_ok len st \<longleftrightarrow> 
     (\<forall>c \<in> set (ds_UE_sched st). us_UE c < len \<and> \<not> d_ul_failure (dm_ues (ds_mac st) ! us_UE c))"

lemma pf_dl_ue_inv:
  assumes laws: "nr_list_laws (de_lists E) elems" and inv: "dl_ues_ok elems n rmax i (dm_ues (ds_mac st))"
    and i: "i < length (dm_ues (ds_mac st))" and c: "candidates_ok (length (dm_ues (ds_mac st))) st"
  shows "dl_ues_ok elems n rmax (i + 1) (dm_ues (ds_mac (pf_dl_ue E C f s i st))) \<and>
    length (dm_ues (ds_mac (pf_dl_ue E C f s i st))) = length (dm_ues (ds_mac st)) \<and>
    candidates_ok (length (dm_ues (ds_mac st))) (pf_dl_ue E C f s i st)"
proof -
  obtain ue where ue: "only_ue i (ds_mac st) ue (ds_mac (pf_dl_ue E C f s i st))" "first_step E (dm_ues (ds_mac st) ! i) ue"
    "d_ul_failure ue \<longrightarrow> ue = dm_ues (ds_mac st) ! i"
    "ds_UE_sched (pf_dl_ue E C f s i st) = ds_UE_sched st \<or>
     (\<exists>c. ds_UE_sched (pf_dl_ue E C f s i st) = ds_UE_sched st @ [c] \<and> us_UE c = i \<and> \<not> d_ul_failure ue)"
    using pf_dl_ue_outcome [OF i, of E C f s] by metis
  have "dl_ue_ok elems n rmax ue \<and> dl_planned elems ue"
    using first_step_ok [OF laws ue(2,3)] inv i by (auto simp: dl_ues_ok_def)
  then show ?thesis using inv ue(1,4) i c
    by (auto simp: dl_ues_ok_def only_ue_def nth_list_update candidates_ok_def dl_same_def)
qed

text \<open>The sorted array is a permutation of the candidates.\<close>

definition dl_qsort_perm :: "('q, 'x) dl_env \<Rightarrow> bool" where
  "dl_qsort_perm E \<longleftrightarrow> (\<forall>cmp xs. mset (de_qsort E cmp xs) = mset xs)"

lemma dl_qsort_set: "dl_qsort_perm E \<Longrightarrow> set (de_qsort E cmp xs) = set xs"
  unfolding dl_qsort_perm_def by (metis set_mset_mset)

lemma pf_dl_grant_inv:
  assumes laws: "nr_list_laws (de_lists E) elems" and inv: "dl_ues_ok elems n rmax (length (dm_ues (ds_mac st))) (dm_ues (ds_mac st))"
    and i: "us_UE c < length (dm_ues (ds_mac st))" "\<not> d_ul_failure (dm_ues (ds_mac st) ! us_UE c)"
    and run: "pf_dl_grant E C f s c st = Inr st'"
  shows "dl_ues_ok elems n rmax (length (dm_ues (ds_mac st'))) (dm_ues (ds_mac st')) \<and>
    map d_ul_failure (dm_ues (ds_mac st')) = map d_ul_failure (dm_ues (ds_mac st))"
proof -
  obtain ue where ue: "only_ue (us_UE c) (ds_mac st) ue (ds_mac st')" "second_step E (dm_ues (ds_mac st) ! us_UE c) ue"
    using pf_dl_grant_outcome [OF run i(1)] by blast
  have "dl_ue_ok elems n rmax ue \<and> dl_planned elems ue"
    using second_step_ok [OF laws ue(2)] inv i ue(1) by (auto simp: dl_ues_ok_def only_ue_def dl_same_def)
  moreover have "map d_ul_failure (dm_ues (ds_mac st')) = map d_ul_failure (dm_ues (ds_mac st))"
    using ue(1) i(1) by (intro nth_equalityI) (auto simp: only_ue_def dl_same_def nth_list_update)
  ultimately show ?thesis using inv ue(1) i by (auto simp: dl_ues_ok_def only_ue_def nth_list_update)
qed

lemma pf_dl_inv:
  assumes laws: "nr_list_laws (de_lists E) elems" "dl_qsort_perm E"
    and inv: "dl_ues_ok elems n rmax 0 (dm_ues mac)" and run: "pf_dl E C stat file f s d rbs mac = Inr mac'"
  shows "dl_ues_ok elems n rmax (length (dm_ues mac')) (dm_ues mac') \<and> length (dm_ues mac') = length (dm_ues mac)"
proof -
  let ?len = "length (dm_ues mac)"
  let ?st = "\<lparr>ds_mac = mac\<lparr>dm_dl := rk_ue_dl_reload_if_needed False stat file (dm_dl mac)\<rparr>,
     ds_remainUEs = (\<lambda>_. d), ds_n_rb_sched = rbs, ds_UE_sched = []\<rparr>"
  define st1 where "st1 = fold (pf_dl_ue E C f s) [0..<?len] ?st"
  let ?P = "\<lambda>i st. dl_ues_ok elems n rmax i (dm_ues (ds_mac st)) \<and> length (dm_ues (ds_mac st)) = ?len \<and> candidates_ok ?len st"
  have one: "?P ?len st1" unfolding st1_def
  proof (rule fold_upt_inv [where P = ?P])
    show "?P 0 ?st" using inv by (simp add: candidates_ok_def)
    show "?P (i + 1) (pf_dl_ue E C f s i st)" if "i < ?len" "?P i st" for i st
      using pf_dl_ue_inv [OF laws(1), of n rmax i st C f s] that by auto
  qed
  obtain st2 where st2: "fold_res (pf_dl_grant E C f s) (de_qsort E dl_comparator (ds_UE_sched st1)) st1 = Inr st2"
    "mac' = ds_mac st2"
    using run unfolding pf_dl_def Let_def by (auto simp: st1_def split: sum.splits)
  let ?R = "\<lambda>st. dl_ues_ok elems n rmax ?len (dm_ues (ds_mac st)) \<and> length (dm_ues (ds_mac st)) = ?len \<and>
    map d_ul_failure (dm_ues (ds_mac st)) = map d_ul_failure (dm_ues (ds_mac st1))"
  have "?R st2"
  proof (rule fold_res_inv [OF st2(1)])
    show "?R st1" using one by simp
    show "?R st'" if "c \<in> set (de_qsort E dl_comparator (ds_UE_sched st1))" "?R st" "pf_dl_grant E C f s c st = Inr st'" for c st st'
    proof -
      have c: "us_UE c < ?len" "\<not> d_ul_failure (dm_ues (ds_mac st1) ! us_UE c)"
        using that(1) one dl_qsort_set [OF laws(2)] by (auto simp: candidates_ok_def)
      then have "\<not> d_ul_failure (dm_ues (ds_mac st) ! us_UE c)"
        using that(2) one by (metis (no_types, lifting) nth_map)
      then have r: "dl_ues_ok elems n rmax (length (dm_ues (ds_mac st'))) (dm_ues (ds_mac st'))"
        "map d_ul_failure (dm_ues (ds_mac st')) = map d_ul_failure (dm_ues (ds_mac st))"
        using pf_dl_grant_inv [OF laws(1) _ _ _ that(3), of n rmax] that(2) c by auto
      then show ?thesis using that(2) map_eq_imp_length_eq [OF r(2)] by simp
    qed
  qed
  then show ?thesis using st2(2) by simp
qed

lemma dl_store_keeps:
  "d_ctrl (dl_store_ue E x f ue) = d_ctrl ue" "d_sched_pdsch (dl_store_ue E x f ue) = d_sched_pdsch ue"
  "d_rnti (dl_store_ue E x f ue) = d_rnti ue" "d_ul_failure (dl_store_ue E x f ue) = d_ul_failure ue"
proof -
  have *: "d_ctrl (dl_store_lc E x f c u) = d_ctrl u \<and> d_sched_pdsch (dl_store_lc E x f c u) = d_sched_pdsch u \<and>
      d_rnti (dl_store_lc E x f c u) = d_rnti u \<and> d_ul_failure (dl_store_lc E x f c u) = d_ul_failure u" for c u
    by (simp add: dl_store_lc_def Let_def)
  have "d_ctrl (fold (dl_store_lc E x f) cs u) = d_ctrl u \<and> d_sched_pdsch (fold (dl_store_lc E x f) cs u) = d_sched_pdsch u \<and>
      d_rnti (fold (dl_store_lc E x f) cs u) = d_rnti u \<and> d_ul_failure (fold (dl_store_lc E x f) cs u) = d_ul_failure u" for cs u
    by (induction cs arbitrary: u) (simp_all add: *)
  then show "d_ctrl (dl_store_ue E x f ue) = d_ctrl ue" "d_sched_pdsch (dl_store_ue E x f ue) = d_sched_pdsch ue"
    "d_rnti (dl_store_ue E x f ue) = d_rnti ue" "d_ul_failure (dl_store_ue E x f ue) = d_ul_failure ue"
    by (simp_all add: dl_store_ue_def)
qed

lemma nr_dlsch_preprocessor_inv:
  assumes laws: "nr_list_laws (de_lists E) elems" "dl_qsort_perm E"
    and inv: "dl_ues_ok elems n rmax 0 (dm_ues mac)" and run: "nr_dlsch_preprocessor E C stat file f s mac = Inr mac'"
  shows "dl_ues_ok elems n rmax (length (dm_ues mac')) (dm_ues mac') \<and> length (dm_ues mac') = length (dm_ues mac)"
proof (cases "dm_ues mac = []")
  case True
  then show ?thesis using run by (simp add: nr_dlsch_preprocessor_def dl_ues_ok_def)
next
  case False
  have "dl_ues_ok elems n rmax 0 (dm_ues (nr_store_dlsch_buffer E f mac))"
    using inv by (simp add: nr_store_dlsch_buffer_def dl_ues_ok_def dl_ue_ok_def dl_planned_def dl_store_keeps)
  from pf_dl_inv [OF laws this] run False show ?thesis
    by (fastforce simp: nr_dlsch_preprocessor_def nr_store_dlsch_buffer_def Let_def)
qed

end
