(* ===== verification/DlSlot.thy ===== *)
theory DlSlot imports DlGuarantees begin

text \<open>
  A slot of the downlink: the facts about the execution of a plan, from the FAPI requests and the
  transport block of one UE to the invariant of \<^verbatim>\<open>nr_schedule_ue_spec\<close>.
\<close>

section \<open>Requests\<close>

fun pdschs :: "'d dl_tti_pdu list \<Rightarrow> pdsch_pdu_rel15 list" where
  "pdschs [] = []"
| "pdschs (PdcchPdu c ds # req) = pdschs req"
| "pdschs (PdschPdu p # req) = p # pdschs req"

fun dcis :: "'d dl_tti_pdu list \<Rightarrow> 'd list" where
  "dcis [] = []"
| "dcis (PdcchPdu c ds # req) = ds @ dcis req"
| "dcis (PdschPdu p # req) = dcis req"

lemma pdschs_append [simp]: "pdschs (xs @ ys) = pdschs xs @ pdschs ys"
  by (induction xs rule: pdschs.induct) simp_all

lemma dcis_append [simp]: "dcis (xs @ ys) = dcis xs @ dcis ys"
  by (induction xs rule: dcis.induct) simp_all

text \<open>The index of PDCCH PDUs points to them.\<close>

definition pdcch_ok :: "('q, 'x, 'd) dl_slot \<Rightarrow> bool" where
  "pdcch_ok sl \<longleftrightarrow>
     (\<forall>c k. sl_pdcch_pdu_idx sl c = Some k \<longrightarrow>
        k < length (sl_dl_req sl) \<and> (\<exists>ds. sl_dl_req sl ! k = PdcchPdu c ds))"

lemma add_dci_effect:
  assumes "k < length req" and "req ! k = PdcchPdu c ds"
  shows "pdschs (add_dci k d req) = pdschs req \<and> length (dcis (add_dci k d req)) = length (dcis req) + 1 \<and>
    length (add_dci k d req) = length req \<and>
    (\<forall>j c' ds'. j < length req \<and> req ! j = PdcchPdu c' ds' \<longrightarrow> (\<exists>ds''. add_dci k d req ! j = PdcchPdu c' ds''))"
proof -
  have split: "req = take k req @ PdcchPdu c ds # drop (Suc k) req"
    using assms id_take_nth_drop by fastforce
  have eq: "add_dci k d req = take k req @ PdcchPdu c (ds @ [d]) # drop (Suc k) req"
    using assms by (simp add: add_dci_def upd_conv_take_nth_drop)
  have "pdschs (add_dci k d req) = pdschs req" by (subst split) (simp add: eq)
  moreover have "length (dcis (add_dci k d req)) = length (dcis req) + 1" by (subst split) (simp add: eq)
  ultimately show ?thesis using assms by (auto simp: add_dci_def nth_list_update)
qed

lemma dl_fapi_effect:
  assumes ok: "pdcch_ok sl" and run: "dl_fapi Q C ue s pid pucch sl = (sl', idx)"
  shows "sl_mac sl' = sl_mac sl \<and> sl_tx_req sl' = sl_tx_req sl \<and> idx = sl_pdu_index sl \<and> sl_pdu_index sl' = idx + 1 \<and>
    pdcch_ok sl' \<and> length (dcis (sl_dl_req sl')) = length (dcis (sl_dl_req sl)) + 1 \<and>
    (\<exists>p. pdschs (sl_dl_req sl') = pdschs (sl_dl_req sl) @ [p] \<and> pp_pduIndex p = idx \<and> pp_TBSize p = pd_tb_size s \<and>
       pp_rnti p = d_rnti ue \<and> pp_rbStart p = pd_rbStart s \<and> pp_rbSize p = pd_rbSize s)"
proof -
  obtain k sl1 where k: "pdcch_pdu_of (d_coresetid ue) sl = (k, sl1)" by fastforce
  have sl1: "sl_mac sl1 = sl_mac sl" "sl_tx_req sl1 = sl_tx_req sl" "sl_pdu_index sl1 = sl_pdu_index sl"
    "pdschs (sl_dl_req sl1) = pdschs (sl_dl_req sl)" "dcis (sl_dl_req sl1) = dcis (sl_dl_req sl)" "pdcch_ok sl1"
    and at: "\<exists>ds. k < length (sl_dl_req sl1) \<and> sl_dl_req sl1 ! k = PdcchPdu (d_coresetid ue) ds"
    using k ok by (auto simp: pdcch_pdu_of_def pdcch_ok_def nth_append less_SucI split: option.splits if_splits)
  define p where "p = prepare_pdsch_pdu Q C (Some ue) s False (round (harq_processes (d_ctrl ue) pid)) (d_rnti ue)
    (d_beam_index ue) (min (case d_maxMIMO_Layers ue of None \<Rightarrow> 1 | Some l \<Rightarrow> l) 4) (sl_pdu_index sl)"
  define d where "d = make_dl_dci Q ue p s pucch pid"
  let ?req = "sl_dl_req sl1 @ [PdschPdu p]"
  have sl': "sl' = sl1\<lparr>sl_dl_req := add_dci k d ?req, sl_pdu_index := sl_pdu_index sl + 1\<rparr>" "idx = sl_pdu_index sl"
    using run k sl1(3) by (auto simp: dl_fapi_def Let_def p_def [symmetric] d_def [symmetric])
  obtain ds where ds: "k < length ?req" "?req ! k = PdcchPdu (d_coresetid ue) ds"
    using at by (auto simp: nth_append)
  note a = add_dci_effect [OF ds, of d]
  have "pdcch_ok sl'"
    unfolding pdcch_ok_def
  proof (intro allI impI)
    fix c j
    assume "sl_pdcch_pdu_idx sl' c = Some j"
    then have "sl_pdcch_pdu_idx sl1 c = Some j" by (simp add: sl'(1))
    then obtain ds' where "j < length (sl_dl_req sl1)" "sl_dl_req sl1 ! j = PdcchPdu c ds'"
      using sl1(6) by (auto simp: pdcch_ok_def)
    then have "j < length ?req" "?req ! j = PdcchPdu c ds'" by (simp_all add: nth_append)
    then show "j < length (sl_dl_req sl') \<and> (\<exists>ds. sl_dl_req sl' ! j = PdcchPdu c ds)"
      using a by (simp add: sl'(1))
  qed
  moreover have "pp_pduIndex p = sl_pdu_index sl" "pp_TBSize p = pd_tb_size s" "pp_rnti p = d_rnti ue"
    "pp_rbStart p = pd_rbStart s" "pp_rbSize p = pd_rbSize s"
    by (simp_all add: p_def prepare_pdsch_pdu_def Let_def split: prod.split)
  ultimately show ?thesis using a sl1 sl' by simp
qed

section \<open>Transport blocks\<close>

definition tb_laws :: "'r tb_env \<Rightarrow> dl_cfg \<Rightarrow> bool" where
  "tb_laws T C \<longleftrightarrow> dl_enc_laws (tb_enc T) \<and> rlc_law (tb_rlc T) \<and> \<not> dcfg_phy_test C \<and> \<not> dcfg_do_ra C"

lemma dl_build_tb_length:
  assumes "tb_laws T C" and "dl_build_tb T C ue TBS r = Inr res"
  shows "length (tb_bytes res) = TBS"
proof (cases "0 < d_num_total_bytes ue")
  case True
  then show ?thesis using dl_build_tb_data [OF _ _ True assms(2)] assms(1) by (auto simp: tb_laws_def)
next
  case False
  then show ?thesis using dl_build_tb_empty [OF _ False _ _ assms(2)] assms(1) by (auto simp: tb_laws_def)
qed

lemma dl_build_tb_positive: "dl_build_tb T C ue TBS r = Inr res \<Longrightarrow> 0 < TBS"
  by (cases "nr_write_ce_dlsch_pdu (tb_enc T) C ue 255 None") (auto simp: dl_build_tb_def Let_def split: if_splits)

lemma dl_build_tb_error: "dl_build_tb T C ue TBS r = Inl e \<Longrightarrow> e = TaCommandTooLarge \<or> e = TbsTooSmall"
  by (cases "ce_ta (tb_enc T) C ue")
    (auto simp: dl_build_tb_def nr_write_ce_dlsch_pdu_def ce_ta_def Let_def split: if_splits prod.splits)

section \<open>One UE\<close>

definition dl_slot_errors :: "dl_error set" where
  "dl_slot_errors = {TaCommandTooLarge, TbsTooSmall, BadResourceAllocation}"

lemma dl_ue_prepare_keeps [simp]:
  "d_ctrl (dl_ue_prepare f ue) = d_ctrl ue" "d_sched_pdsch (dl_ue_prepare f ue) = d_sched_pdsch ue"
  "d_rnti (dl_ue_prepare f ue) = d_rnti ue" "d_bwp (dl_ue_prepare f ue) = d_bwp ue"
  "d_sched_pucch (dl_ue_prepare f ue) = d_sched_pucch ue" "d_ul_failure (dl_ue_prepare f ue) = d_ul_failure ue"
  by (simp_all add: dl_ue_prepare_def Let_def)

definition store_tb :: "'q dl_sched_ctrl \<Rightarrow> int \<Rightarrow> u8 list \<Rightarrow> NR_sched_pdsch_t \<Rightarrow> 'q dl_sched_ctrl" where
  "store_tb c p t s = c\<lparr>harq_processes := (harq_processes c)(p := (harq_processes c p)\<lparr>transportBlock := t, sched_pdsch := s\<rparr>)\<rparr>"

lemma store_tb_inv: "harq_inv elems n rmax out (store_tb c p t s) = harq_inv elems n rmax out c"
  by (auto simp: harq_inv_def store_tb_def Let_def)

lemma dl_initial_tx_effect:
  assumes "tb_laws T C" and "dl_initial_tx T C f s ue sp pid sl = Inr (ue', sl')"
  shows "\<exists>t x. length t = nat (pd_tb_size sp) \<and> 0 < pd_tb_size sp \<and> d_ctrl ue' = store_tb (d_ctrl ue) pid t sp \<and>
    d_rnti ue' = d_rnti ue \<and> d_ul_failure ue' = d_ul_failure ue \<and>
    sl_dl_req sl' = sl_dl_req sl \<and> sl_tx_req sl' = sl_tx_req sl \<and> sl_pdu_index sl' = sl_pdu_index sl \<and>
    sl_pdcch_pdu_idx sl' = sl_pdcch_pdu_idx sl \<and>
    sl_mac sl' = (sl_mac sl)\<lparr>dm_rest := x,
      dm_runtime := rk_slice_runtime_note_dl_grant (dm_runtime (sl_mac sl)) (d_rnti ue) (f * dcfg_slots_frame C + s)\<rparr>"
proof -
  obtain tb where tb: "dl_build_tb T C ue (nat (pd_tb_size sp)) (dm_rest (sl_mac sl)) = Inr tb"
    using assms(2) by (auto simp: dl_initial_tx_def split: sum.splits)
  note len = dl_build_tb_length [OF assms(1) tb] dl_build_tb_positive [OF tb]
  show ?thesis
    using assms(2) len unfolding dl_initial_tx_def tb
    by (intro exI [of _ "tb_bytes tb"] exI [of _ "tb_state tb"]) (auto simp: Let_def store_tb_def split: if_splits)
qed

lemma dl_initial_tx_error: "dl_initial_tx T C f s ue sp pid sl = Inl e \<Longrightarrow> e \<in> dl_slot_errors"
  by (auto simp: dl_initial_tx_def dl_slot_errors_def Let_def split: sum.splits dest: dl_build_tb_error)

text \<open>A planned grant is either refused by an assertion on its size or executed completely.\<close>

definition grant_done ::
    "('q \<Rightarrow> int list) \<Rightarrow> dl_cfg \<Rightarrow> int \<Rightarrow> int \<Rightarrow> nat \<Rightarrow> 'q dl_ue \<Rightarrow> ('q, 'x, 'd) dl_slot \<Rightarrow> 'q dl_ue \<Rightarrow> ('q, 'x, 'd) dl_slot \<Rightarrow> bool"
where
  "grant_done elems C f s i ue sl ue' sl' \<longleftrightarrow>
     (let sp = d_sched_pdsch ue; pid = dl_harq_pid sp; old = harq_processes (d_ctrl ue) pid; new = harq_processes (d_ctrl ue') pid;
          resent = (0 \<le> pd_pucch_allocation sp \<and> pid \<in> set (elems (retrans_harq (d_ctrl ue)))) in
      dm_ues (sl_mac sl') = (dm_ues (sl_mac sl))[i := ue'] \<and> pd_rbSize (d_sched_pdsch ue') = 0 \<and>
      (\<exists>p t. pdschs (sl_dl_req sl') = pdschs (sl_dl_req sl) @ [p] \<and> sl_tx_req sl' = sl_tx_req sl @ [t] \<and>
         length (dcis (sl_dl_req sl')) = length (dcis (sl_dl_req sl)) + 1 \<and>
         pp_pduIndex p = sl_pdu_index sl \<and> tx_PDU_index t = sl_pdu_index sl \<and> sl_pdu_index sl' = sl_pdu_index sl + 1 \<and>
         pp_rnti p = d_rnti ue \<and> pp_rbStart p = pd_rbStart sp \<and> pp_rbSize p = pd_rbSize sp \<and>
         pp_TBSize p = int (length (tx_data t)) \<and> tx_data t = transportBlock new \<and>
         (if resent then tx_data t = transportBlock old \<and> ndi new = ndi old \<and> dm_runtime (sl_mac sl') = dm_runtime (sl_mac sl)
          else dm_runtime (sl_mac sl') = rk_slice_runtime_note_dl_grant (dm_runtime (sl_mac sl)) (d_rnti ue)
                 (f * dcfg_slots_frame C + s) \<and> sched_pdsch new = sp)))"

text \<open>The HARQ part of a planned grant.\<close>

definition granted_ctrl ::
    "('q \<Rightarrow> int list) \<Rightarrow> int \<Rightarrow> int \<Rightarrow> 'q dl_sched_ctrl \<Rightarrow> int \<Rightarrow> bool \<Rightarrow> 'q dl_sched_ctrl \<Rightarrow> bool" where
  "granted_ctrl elems n rmax c pid fb c' \<longleftrightarrow> harq_inv elems n rmax {} c' \<and>
     (if fb then elems (feedback_harq c') = elems (feedback_harq c) @ [pid] \<and>
        round (harq_processes c' pid) = round (harq_processes c pid) \<and> ndi (harq_processes c' pid) = ndi (harq_processes c pid)
      else elems (feedback_harq c') = elems (feedback_harq c) \<and> round (harq_processes c' pid) = 0) \<and>
     (\<forall>q. sched_pdsch (harq_processes c' q) = sched_pdsch (harq_processes c q) \<and>
        transportBlock (harq_processes c' q) = transportBlock (harq_processes c q)) \<and>
     set (elems (retrans_harq c')) = set (elems (retrans_harq c)) - {pid}"

lemma planned_grant:
  assumes laws: "nr_list_laws N elems" and n: "n \<le> 128" "0 < rmax" and inv: "harq_inv elems n rmax {} c"
    and plan: "dl_plan_ok elems c sp" and pid: "pid = dl_harq_pid sp"
  shows "\<exists>c'. dl_harq_grant N c pid pucch = Inr (c', pid) \<and> granted_ctrl elems n rmax c pid (pucch \<noteq> None) c' \<and>
    0 \<le> pid \<and> to_i8 pid = pid"
proof -
  have mem: "pid \<in> set (elems (available_harq c)) \<or> pid \<in> set (elems (retrans_harq c))"
    using plan pid by (auto simp: dl_plan_ok_def)
  then have r: "0 \<le> pid" "pid < n" using harq_inv_range(2,3) [OF inv, of pid] by auto
  then have g: "grantable elems c pid" "granted elems c pid = pid" "to_i8 pid = pid" "-128 \<le> pid" "pid < 128"
    using mem n by (auto simp: grantable_def granted_def to_i8_id)
  from dl_harq_grant_inv [OF laws inv n g(1,4,5), of pucch]
  obtain c' where c': "dl_harq_grant N c pid pucch = Inr (c', pid)" "harq_inv elems n rmax {} c'"
    "if pucch = None then ndi (harq_processes c' pid) = ndi (harq_processes c pid) XOR 1 \<and>
       round (harq_processes c' pid) = 0 \<and> elems (feedback_harq c') = elems (feedback_harq c)
     else elems (feedback_harq c') = elems (feedback_harq c) @ [pid] \<and>
       round (harq_processes c' pid) = round (harq_processes c pid)"
    "\<forall>q. sched_pdsch (harq_processes c' q) = sched_pdsch (harq_processes c q) \<and>
       transportBlock (harq_processes c' q) = transportBlock (harq_processes c q)"
    "set (elems (retrans_harq c')) = set (elems (retrans_harq c)) - {pid}"
    unfolding g(2) by blast
  have "pucch \<noteq> None \<longrightarrow> ndi (harq_processes c' pid) = ndi (harq_processes c pid)"
    using c'(1) r g(3) by (auto simp: dl_harq_grant_def Let_def split: if_splits)
  then show ?thesis using c' r g(3) by (intro exI [of _ c']) (auto simp: granted_ctrl_def split: if_splits)
qed

text \<open>The saved information stays right when that of the granted process is.\<close>

lemma granted_saved:
  assumes "granted_ctrl elems n rmax c pid fb c'" and "dl_saved elems c"
    and "\<forall>q. q \<noteq> pid \<longrightarrow> harq_processes c'' q = harq_processes c' q" "feedback_harq c'' = feedback_harq c'"
      "retrans_harq c'' = retrans_harq c'" "dl_harq_pid (sched_pdsch (harq_processes c'' pid)) = pid"
      "int (length (transportBlock (harq_processes c'' pid))) = pd_tb_size (sched_pdsch (harq_processes c'' pid))"
  shows "dl_saved elems c''"
  unfolding dl_saved_def
proof
  fix q
  assume q: "q \<in> set (elems (feedback_harq c'')) \<union> set (elems (retrans_harq c''))"
  show "dl_harq_pid (sched_pdsch (harq_processes c'' q)) = q \<and>
      int (length (transportBlock (harq_processes c'' q))) = pd_tb_size (sched_pdsch (harq_processes c'' q))"
  proof (cases "q = pid")
    case False
    then have "q \<in> set (elems (feedback_harq c)) \<union> set (elems (retrans_harq c))"
      using q assms(1,4,5) by (auto simp: granted_ctrl_def split: if_splits)
    then show ?thesis using assms(1-3) False by (simp add: dl_saved_def granted_ctrl_def)
  qed (simp add: assms)
qed

text \<open>The step of a planned grant, with its HARQ part and its requests done.\<close>

definition exec_ue :: "int \<Rightarrow> 'q dl_ue \<Rightarrow> 'q dl_sched_ctrl \<Rightarrow> 'q dl_ue" where
  "exec_ue f ue c' =
     (let u = dl_ue_prepare f ue; r = round (harq_processes c' (dl_harq_pid (d_sched_pdsch ue)))
      in u\<lparr>d_ctrl := c', d_rounds := (d_rounds u)(r := d_rounds u r + 1)\<rparr>)"

lemma exec_ue_simps [simp]:
  "d_ctrl (exec_ue f ue c') = c'" "d_sched_pdsch (exec_ue f ue c') = d_sched_pdsch ue"
  "d_rnti (exec_ue f ue c') = d_rnti ue" "d_total_rbs_retx (exec_ue f ue c') = d_total_rbs_retx ue"
  by (simp_all add: exec_ue_def dl_ue_prepare_def Let_def)

definition exec_pucch :: "'q dl_ue \<Rightarrow> (int \<times> int) option" where
  "exec_pucch ue = (let a = pd_pucch_allocation (d_sched_pdsch ue) in if a < 0 then None else Some (d_sched_pucch ue a))"

definition exec_tx ::
    "'x tb_env \<Rightarrow> dl_cfg \<Rightarrow> int \<Rightarrow> int \<Rightarrow> 'q dl_ue \<Rightarrow> 'q dl_sched_ctrl \<Rightarrow> ('q, 'x, 'd) dl_slot \<Rightarrow>
     dl_error + ('q dl_ue \<times> ('q, 'x, 'd) dl_slot)" where
  "exec_tx T C f s ue c' sl =
     (let sp = d_sched_pdsch ue; pid = dl_harq_pid sp; u = (exec_ue f ue c')\<lparr>d_tpc1 := 1\<rparr>
      in if round (harq_processes c' pid) \<noteq> 0 then dl_retx u sp pid sl else dl_initial_tx T C f s u sp pid sl)"

lemma dl_ue_spec_eq:
  assumes "\<not> d_ul_failure ue" "0 < pd_rbSize (d_sched_pdsch ue)" and ue: "ue = dm_ues (sl_mac sl) ! i"
    and sp: "sp = d_sched_pdsch ue" "pid = dl_harq_pid sp" "0 \<le> pid" "to_i8 pid = pid"
    and g: "dl_harq_grant (de_lists E) (d_ctrl ue) pid (exec_pucch ue) = Inr (c', pid)"
    and fapi: "dl_fapi Q C (exec_ue f ue c') sp pid (exec_pucch ue) sl = (sl1, idx)"
  shows "dl_ue_spec E Q T C f s i sl =
     (if \<not> dl_resourceAllocationType1 (d_bwp ue) then Inl BadResourceAllocation
      else case exec_tx T C f s ue c' sl1 of Inl e \<Rightarrow> Inl e
       | Inr (ue, sl) \<Rightarrow> Inr (sl\<lparr>sl_tx_req := sl_tx_req sl @ [\<lparr>tx_PDU_index = idx,
             tx_data = take (nat (pd_tb_size sp)) (transportBlock (harq_processes (d_ctrl ue) pid))\<rparr>],
           sl_tx_time := (f, s), sl_mac := upd_dl_ue i (ue\<lparr>d_sched_pdsch := sp\<lparr>pd_rbSize := 0\<rparr>\<rparr>) (sl_mac sl)\<rparr>))"
proof -
  let ?r = "round (harq_processes c' pid)"
  have u: "(dl_ue_prepare f ue)\<lparr>d_ctrl := c', d_sched_pdsch := sp,
      d_rounds := (d_rounds (dl_ue_prepare f ue))(?r := d_rounds (dl_ue_prepare f ue) ?r + 1)\<rparr> = exec_ue f ue c'"
    using sp(1,2) by (simp add: exec_ue_def dl_ue_prepare_def Let_def)
  have pe: "exec_pucch ue = (if pd_pucch_allocation sp < 0 then None else Some (d_sched_pucch ue (pd_pucch_allocation sp)))"
    by (simp add: exec_pucch_def sp(1) Let_def)
  have tx: "exec_tx T C f s ue c' sl1 = (if ?r \<noteq> 0 then dl_retx ((exec_ue f ue c')\<lparr>d_tpc1 := 1\<rparr>) sp pid sl1
      else dl_initial_tx T C f s ((exec_ue f ue c')\<lparr>d_tpc1 := 1\<rparr>) sp pid sl1)"
    by (simp add: exec_tx_def sp(1,2) Let_def)
  show ?thesis
    using assms(1-2) sp(1,3)
    unfolding dl_ue_spec_def Let_def ue [symmetric] dl_ue_prepare_keeps sp(1) [symmetric] sp(2) [symmetric] pe [symmetric]
    by (simp add: g sp(4) u fapi tx cong: if_cong sum.case_cong prod.case_cong split del: if_split)
qed

text \<open>The two kinds of transmission, for a process that the HARQ part has moved.\<close>

lemma exec_resend:
  assumes ok: "dl_ue_ok elems n rmax ue" and plan: "dl_plan_ok elems (d_ctrl ue) (d_sched_pdsch ue)"
    and g: "granted_ctrl elems n rmax (d_ctrl ue) pid (exec_pucch ue \<noteq> None) c'" "pid = dl_harq_pid (d_sched_pdsch ue)"
    and r: "round (harq_processes c' pid) \<noteq> 0"
  shows "\<exists>u. exec_tx T C f s ue c' sl = Inr (u, sl\<lparr>sl_used_prb := sl_used_prb sl + pd_rbSize (d_sched_pdsch ue)\<rparr>) \<and>
    d_ctrl u = c' \<and> dl_saved elems c' \<and> pid \<in> set (elems (retrans_harq (d_ctrl ue))) \<and> exec_pucch ue \<noteq> None \<and>
    int (length (transportBlock (harq_processes c' pid))) = pd_tb_size (d_sched_pdsch ue) \<and> d_ul_failure u = d_ul_failure ue"
proof -
  let ?c = "d_ctrl ue" and ?sp = "d_sched_pdsch ue"
  have inv: "harq_inv elems n rmax {} ?c" and saved: "dl_saved elems ?c" using ok by (simp_all add: dl_ue_ok_def)
  have fb: "exec_pucch ue \<noteq> None" "round (harq_processes ?c pid) \<noteq> 0"
    using g(1) r by (auto simp: granted_ctrl_def split: if_splits)
  then have "pid \<notin> set (elems (available_harq ?c))" using harq_inv_range(2) [OF inv, of pid] by auto
  then have R: "pid \<in> set (elems (retrans_harq ?c))" "pd_tb_size ?sp = pd_tb_size (sched_pdsch (harq_processes ?c pid))"
    using plan by (auto simp: dl_plan_ok_def g(2))
  have keep: "sched_pdsch (harq_processes c' q) = sched_pdsch (harq_processes ?c q) \<and>
      transportBlock (harq_processes c' q) = transportBlock (harq_processes ?c q)" for q
    using g(1) by (simp add: granted_ctrl_def)
  have sv: "dl_harq_pid (sched_pdsch (harq_processes c' pid)) = pid"
    "int (length (transportBlock (harq_processes c' pid))) = pd_tb_size (sched_pdsch (harq_processes c' pid))"
    using saved R(1) keep [of pid] by (simp_all add: dl_saved_def)
  have "dl_saved elems c'" using granted_saved [OF g(1) saved _ refl refl sv] by simp
  then show ?thesis using R fb(1) sv keep [of pid] r
    by (simp add: exec_tx_def dl_retx_def g(2) [symmetric] Let_def) (simp add: exec_ue_def Let_def)
qed

lemma exec_initial:
  assumes laws: "tb_laws T C" and saved: "dl_saved elems (d_ctrl ue)"
    and g: "granted_ctrl elems n rmax (d_ctrl ue) pid fb c'" "pid = dl_harq_pid (d_sched_pdsch ue)"
    and r: "round (harq_processes c' pid) = 0" and run: "exec_tx T C f s ue c' sl = Inr (u, sl')"
  shows "\<exists>t x. length t = nat (pd_tb_size (d_sched_pdsch ue)) \<and> 0 < pd_tb_size (d_sched_pdsch ue) \<and>
    d_ctrl u = store_tb c' pid t (d_sched_pdsch ue) \<and> dl_saved elems (d_ctrl u) \<and> d_ul_failure u = d_ul_failure ue \<and>
    sl_dl_req sl' = sl_dl_req sl \<and> sl_tx_req sl' = sl_tx_req sl \<and> sl_pdu_index sl' = sl_pdu_index sl \<and>
    sl_pdcch_pdu_idx sl' = sl_pdcch_pdu_idx sl \<and>
    sl_mac sl' = (sl_mac sl)\<lparr>dm_rest := x,
      dm_runtime := rk_slice_runtime_note_dl_grant (dm_runtime (sl_mac sl)) (d_rnti ue) (f * dcfg_slots_frame C + s)\<rparr>"
proof -
  let ?sp = "d_sched_pdsch ue"
  have uf: "d_ul_failure (exec_ue f ue c') = d_ul_failure ue" by (simp add: exec_ue_def Let_def)
  have "dl_initial_tx T C f s ((exec_ue f ue c')\<lparr>d_tpc1 := 1\<rparr>) ?sp pid sl = Inr (u, sl')"
    using run r by (simp add: exec_tx_def g(2) [symmetric] Let_def)
  from dl_initial_tx_effect [OF laws this]
  obtain t x where t: "length t = nat (pd_tb_size ?sp)" "0 < pd_tb_size ?sp" "d_ctrl u = store_tb c' pid t ?sp"
    "d_ul_failure u = d_ul_failure ue"
    "sl_dl_req sl' = sl_dl_req sl" "sl_tx_req sl' = sl_tx_req sl" "sl_pdu_index sl' = sl_pdu_index sl"
    "sl_pdcch_pdu_idx sl' = sl_pdcch_pdu_idx sl"
    "sl_mac sl' = (sl_mac sl)\<lparr>dm_rest := x,
      dm_runtime := rk_slice_runtime_note_dl_grant (dm_runtime (sl_mac sl)) (d_rnti ue) (f * dcfg_slots_frame C + s)\<rparr>"
    using uf by auto
  have "dl_saved elems (store_tb c' pid t ?sp)"
    by (rule granted_saved [OF g(1) saved]) (use t(1,2) g(2) in \<open>simp_all add: store_tb_def\<close>)
  then show ?thesis using t by auto
qed

lemma exec_tx_error:
  assumes "exec_tx T C f s ue c' sl = Inl e" and "round (harq_processes c' (dl_harq_pid (d_sched_pdsch ue))) = 0"
  shows "e \<in> dl_slot_errors"
  using assms dl_initial_tx_error by (auto simp: exec_tx_def Let_def)

lemma dl_ue_grant:
  assumes laws: "nr_list_laws (de_lists E) elems" "tb_laws T C" and n: "n \<le> 128" "0 < rmax"
    and pdcch: "pdcch_ok sl" and i: "i < length (dm_ues (sl_mac sl))" and ue: "ue = dm_ues (sl_mac sl) ! i"
    and ok: "dl_ue_ok elems n rmax ue" "dl_planned elems ue" and planned: "0 < pd_rbSize (d_sched_pdsch ue)"
  shows "case dl_ue_spec E Q T C f s i sl of Inl e \<Rightarrow> e \<in> dl_slot_errors
    | Inr sl' \<Rightarrow> pdcch_ok sl' \<and> (\<exists>ue'. dl_ue_ok elems n rmax ue' \<and> grant_done elems C f s i ue sl ue' sl')"
proof -
  define sp where "sp = d_sched_pdsch ue"
  define pid where "pid = dl_harq_pid sp"
  have nf: "\<not> d_ul_failure ue" and plan: "dl_plan_ok elems (d_ctrl ue) sp"
    using ok(2) planned by (simp_all add: dl_planned_def sp_def)
  have inv: "harq_inv elems n rmax {} (d_ctrl ue)" and saved: "dl_saved elems (d_ctrl ue)"
    using ok(1) by (simp_all add: dl_ue_ok_def)
  obtain c' where c': "dl_harq_grant (de_lists E) (d_ctrl ue) pid (exec_pucch ue) = Inr (c', pid)"
    "granted_ctrl elems n rmax (d_ctrl ue) pid (exec_pucch ue \<noteq> None) c'" "0 \<le> pid" "to_i8 pid = pid"
    using planned_grant [OF laws(1) n inv plan pid_def] by blast
  have inv': "harq_inv elems n rmax {} c'" using c'(2) by (simp add: granted_ctrl_def)
  obtain sl1 idx where fapi: "dl_fapi Q C (exec_ue f ue c') sp pid (exec_pucch ue) sl = (sl1, idx)" by fastforce
  note fe = dl_fapi_effect [OF pdcch fapi]
  obtain p where p: "pdschs (sl_dl_req sl1) = pdschs (sl_dl_req sl) @ [p]" "pp_pduIndex p = idx" "pp_TBSize p = pd_tb_size sp"
    "pp_rnti p = d_rnti ue" "pp_rbStart p = pd_rbStart sp" "pp_rbSize p = pd_rbSize sp"
    using fe by auto
  note eq = dl_ue_spec_eq [OF nf planned ue sp_def pid_def c'(3,4,1) fapi, where T = T and s = s]
  have fb: "exec_pucch ue \<noteq> None \<longleftrightarrow> 0 \<le> pd_pucch_allocation sp" by (simp add: exec_pucch_def sp_def Let_def)
  note d = pdcch_ok_def grant_done_def Let_def sp_def [symmetric] pid_def [symmetric]
  show ?thesis
  proof (cases "dl_resourceAllocationType1 (d_bwp ue)")
    case False
    then show ?thesis using eq by (simp add: dl_slot_errors_def)
  next
    case type1: True
    show ?thesis
    proof (cases "round (harq_processes c' pid) = 0")
      case False
      from exec_resend [OF ok(1) plan [unfolded sp_def] c'(2) pid_def [unfolded sp_def] False, of T C f s sl1]
      obtain u where u: "exec_tx T C f s ue c' sl1 = Inr (u, sl1\<lparr>sl_used_prb := sl_used_prb sl1 + pd_rbSize sp\<rparr>)"
        "d_ctrl u = c'" "dl_saved elems c'" "pid \<in> set (elems (retrans_harq (d_ctrl ue)))" "exec_pucch ue \<noteq> None"
        "int (length (transportBlock (harq_processes c' pid))) = pd_tb_size sp"
        unfolding sp_def by blast
      let ?u3 = "u\<lparr>d_sched_pdsch := sp\<lparr>pd_rbSize := 0\<rparr>\<rparr>"
      have "dl_ue_ok elems n rmax ?u3" using inv' u(2,3) by (simp add: dl_ue_ok_def)
      then show ?thesis
        unfolding eq u(1) using type1 fe p u(2-) fb c'(2) by (auto simp: d granted_ctrl_def intro!: exI [of _ ?u3])
    next
      case True
      have notres: "\<not> (0 \<le> pd_pucch_allocation sp \<and> pid \<in> set (elems (retrans_harq (d_ctrl ue))))"
        using c'(2) True fb harq_inv_range(3) [OF inv, of pid] by (auto simp: granted_ctrl_def split: if_splits)
      show ?thesis
      proof (cases "exec_tx T C f s ue c' sl1")
        case (Inl e)
        then have "e \<in> dl_slot_errors" using exec_tx_error True by (simp add: pid_def sp_def)
        then show ?thesis using eq type1 Inl by simp
      next
        case (Inr res)
        obtain u sl2 where u: "res = (u, sl2)" by (cases res)
        obtain t x where t: "length t = nat (pd_tb_size sp)" "0 < pd_tb_size sp" "d_ctrl u = store_tb c' pid t sp"
          "dl_saved elems (d_ctrl u)" "sl_dl_req sl2 = sl_dl_req sl1" "sl_tx_req sl2 = sl_tx_req sl1"
          "sl_pdu_index sl2 = sl_pdu_index sl1" "sl_pdcch_pdu_idx sl2 = sl_pdcch_pdu_idx sl1"
          "sl_mac sl2 = (sl_mac sl1)\<lparr>dm_rest := x, dm_runtime := rk_slice_runtime_note_dl_grant (dm_runtime (sl_mac sl1))
             (d_rnti ue) (f * dcfg_slots_frame C + s)\<rparr>"
          using exec_initial [OF laws(2) saved c'(2) pid_def [unfolded sp_def] True Inr [unfolded u]] unfolding sp_def by blast
        let ?u3 = "u\<lparr>d_sched_pdsch := sp\<lparr>pd_rbSize := 0\<rparr>\<rparr>"
        have "dl_ue_ok elems n rmax ?u3" using inv' t(3,4) by (simp add: dl_ue_ok_def store_tb_inv)
        then show ?thesis
          unfolding eq Inr u using type1 fe p t notres by (auto simp: d store_tb_def intro!: exI [of _ ?u3])
      qed
    qed
  qed
qed

section \<open>The slot\<close>

text \<open>The request of a slot grows by pairs of a PDSCH PDU and its transport block, each with a DCI.\<close>

definition tx_matches :: "pdsch_pdu_rel15 \<Rightarrow> tx_pdu \<Rightarrow> bool" where
  "tx_matches p t \<longleftrightarrow> pp_pduIndex p = tx_PDU_index t \<and> pp_TBSize p = int (length (tx_data t))"

definition requests_grown :: "('q, 'x, 'd) dl_slot \<Rightarrow> ('q, 'x, 'd) dl_slot \<Rightarrow> bool" where
  "requests_grown sl sl' \<longleftrightarrow>
     (\<exists>ps ts. pdschs (sl_dl_req sl') = pdschs (sl_dl_req sl) @ ps \<and> sl_tx_req sl' = sl_tx_req sl @ ts \<and>
        list_all2 tx_matches ps ts \<and> length (dcis (sl_dl_req sl')) = length (dcis (sl_dl_req sl)) + length ps \<and>
        map pp_pduIndex ps = map (\<lambda>k. sl_pdu_index sl + int k) [0..<length ps] \<and>
        sl_pdu_index sl' = sl_pdu_index sl + int (length ps))"

lemma requests_grown_refl [simp]: "requests_grown sl sl"
  by (simp add: requests_grown_def)

lemma requests_grown_mac [simp]: "requests_grown sl (sl'\<lparr>sl_mac := m\<rparr>) = requests_grown sl sl'"
  "requests_grown sl (sl'\<lparr>sl_total_prb := k\<rparr>) = requests_grown sl sl'"
  "requests_grown (sl\<lparr>sl_mac := m\<rparr>) sl' = requests_grown sl sl'"
  "requests_grown (sl\<lparr>sl_total_prb := k\<rparr>) sl' = requests_grown sl sl'"
  by (simp_all add: requests_grown_def)

lemma requests_grown_snoc:
  assumes "requests_grown sl sl1" and "pdschs (sl_dl_req sl2) = pdschs (sl_dl_req sl1) @ [p]"
    and "sl_tx_req sl2 = sl_tx_req sl1 @ [t]" and "tx_matches p t" and "pp_pduIndex p = sl_pdu_index sl1"
    and "length (dcis (sl_dl_req sl2)) = length (dcis (sl_dl_req sl1)) + 1" and "sl_pdu_index sl2 = sl_pdu_index sl1 + 1"
  shows "requests_grown sl sl2"
proof -
  obtain ps ts where g: "pdschs (sl_dl_req sl1) = pdschs (sl_dl_req sl) @ ps" "sl_tx_req sl1 = sl_tx_req sl @ ts"
    "list_all2 tx_matches ps ts" "length (dcis (sl_dl_req sl1)) = length (dcis (sl_dl_req sl)) + length ps"
    "map pp_pduIndex ps = map (\<lambda>k. sl_pdu_index sl + int k) [0..<length ps]"
    "sl_pdu_index sl1 = sl_pdu_index sl + int (length ps)"
    using assms(1) unfolding requests_grown_def by blast
  show ?thesis unfolding requests_grown_def
    using g assms(2-7) by (intro exI [of _ "ps @ [p]"] exI [of _ "ts @ [t]"]) (simp add: list_all2_appendI)
qed

lemma grant_done_grown:
  assumes "grant_done elems C f s i ue sl ue' sl'" and "requests_grown sl0 sl"
  shows "requests_grown sl0 sl'"
proof -
  obtain p t where "pdschs (sl_dl_req sl') = pdschs (sl_dl_req sl) @ [p]" "sl_tx_req sl' = sl_tx_req sl @ [t]"
    "length (dcis (sl_dl_req sl')) = length (dcis (sl_dl_req sl)) + 1" "pp_pduIndex p = sl_pdu_index sl"
    "tx_PDU_index t = sl_pdu_index sl" "sl_pdu_index sl' = sl_pdu_index sl + 1" "pp_TBSize p = int (length (tx_data t))"
    using assms(1) unfolding grant_done_def Let_def by blast
  then show ?thesis
    by (intro requests_grown_snoc [OF assms(2), where p = p and t = t]) (simp_all only: tx_matches_def)
qed

text \<open>Between slots every UE is in order and nothing is planned.\<close>

definition dl_slot_ok :: "('q \<Rightarrow> int list) \<Rightarrow> int \<Rightarrow> int \<Rightarrow> ('q, 'x, 'd) dl_slot \<Rightarrow> bool" where
  "dl_slot_ok elems n rmax sl \<longleftrightarrow> pdcch_ok sl \<and> dl_ues_ok elems n rmax 0 (dm_ues (sl_mac sl))"

text \<open>While the UEs are executed: those below \<open>i\<close> are done, the others still have their plan.\<close>

definition exec_inv ::
    "('q \<Rightarrow> int list) \<Rightarrow> int \<Rightarrow> int \<Rightarrow> nat \<Rightarrow> ('q, 'x, 'd) dl_slot \<Rightarrow> nat \<Rightarrow> ('q, 'x, 'd) dl_slot \<Rightarrow> bool" where
  "exec_inv elems n rmax len sl0 i sl \<longleftrightarrow>
     pdcch_ok sl \<and> requests_grown sl0 sl \<and> length (dm_ues (sl_mac sl)) = len \<and>
     (\<forall>k < len. dl_ue_ok elems n rmax (dm_ues (sl_mac sl) ! k) \<and> dl_planned elems (dm_ues (sl_mac sl) ! k) \<and>
        (k < i \<longrightarrow> pd_rbSize (d_sched_pdsch (dm_ues (sl_mac sl) ! k)) \<le> 0))"

lemma dl_ue_spec_inv:
  assumes laws: "nr_list_laws (de_lists E) elems" "tb_laws T C" and n: "n \<le> 128" "0 < rmax"
    and inv: "exec_inv elems n rmax len sl0 i sl" and i: "i < len"
  shows "case dl_ue_spec E Q T C f s i sl of Inl e \<Rightarrow> e \<in> dl_slot_errors
    | Inr sl' \<Rightarrow> exec_inv elems n rmax len sl0 (i + 1) sl'"
proof -
  let ?ue = "dm_ues (sl_mac sl) ! i"
  have len: "i < length (dm_ues (sl_mac sl))" using inv i by (simp add: exec_inv_def)
  have ok: "dl_ue_ok elems n rmax ?ue" "dl_planned elems ?ue" and pdcch: "pdcch_ok sl"
    using inv i by (simp_all add: exec_inv_def)
  have step: "exec_inv elems n rmax len sl0 (i + 1) sl'"
    if "dm_ues (sl_mac sl') = (dm_ues (sl_mac sl))[i := ue']" "dl_ue_ok elems n rmax ue'" "pd_rbSize (d_sched_pdsch ue') \<le> 0"
      "pdcch_ok sl'" "requests_grown sl0 sl'" for ue' sl'
    using inv that i by (auto simp: exec_inv_def nth_list_update dl_planned_def less_Suc_eq)
  show ?thesis
  proof (cases "0 < pd_rbSize (d_sched_pdsch ?ue)")
    case True
    note g = dl_ue_grant [OF laws n pdcch len refl ok True, where Q = Q and f = f and s = s]
    show ?thesis
    proof (cases "dl_ue_spec E Q T C f s i sl")
      case (Inr sl')
      with g obtain ue' where ue': "pdcch_ok sl'" "dl_ue_ok elems n rmax ue'" "grant_done elems C f s i ?ue sl ue' sl'" by auto
      then have "requests_grown sl0 sl'" using grant_done_grown inv by (auto simp: exec_inv_def)
      then show ?thesis using step [of sl' ue'] ue' Inr by (simp add: grant_done_def Let_def)
    qed (use g in simp)
  next
    case False
    show ?thesis
    proof (cases "d_ul_failure ?ue \<and> \<not> dcfg_phy_test C")
      case True
      have "exec_inv elems n rmax len sl0 (i + 1) sl"
        using step [of sl ?ue] ok False pdcch inv by (simp add: exec_inv_def)
      then show ?thesis using True by (simp add: dl_ue_spec_def)
    next
      case run: False
      let ?sl = "sl\<lparr>sl_mac := upd_dl_ue i (dl_ue_prepare f ?ue) (sl_mac sl)\<rparr>"
      have "exec_inv elems n rmax len sl0 (i + 1) ?sl"
        using step [of ?sl "dl_ue_prepare f ?ue"] ok False inv by (simp add: exec_inv_def dl_ue_ok_def pdcch_ok_def)
      then show ?thesis using run False by (auto simp: dl_ue_spec_def Let_def)
    qed
  qed
qed

lemma nr_schedule_ue_spec_inv:
  assumes laws: "nr_list_laws (de_lists E) elems" "dl_qsort_perm E" "tb_laws T C" and n: "n \<le> 128" "0 < rmax"
    and ok: "dl_slot_ok elems n rmax sl"
  shows "case nr_schedule_ue_spec E Q T C stat file f s sl of Inl e \<Rightarrow> e = InvalidTda \<or> e \<in> dl_slot_errors
    | Inr sl' \<Rightarrow> dl_slot_ok elems n rmax sl' \<and> requests_grown sl sl'"
proof (cases "pl_is_dl_slot Q s")
  case False
  then show ?thesis using ok by (simp add: nr_schedule_ue_spec_def)
next
  case dl: True
  show ?thesis
  proof (cases "nr_dlsch_preprocessor E C stat file f s (sl_mac sl)")
    case (Inl e)
    then have "e = InvalidTda"
      by (auto simp: nr_dlsch_preprocessor_def pf_dl_def Let_def dest!: fold_res_Inl pf_dl_grant_error
          split: if_splits sum.splits)
    then show ?thesis using Inl dl by (simp add: nr_schedule_ue_spec_def)
  next
    case (Inr mac)
    note m = nr_dlsch_preprocessor_inv [OF laws(1,2) _ Inr, of n rmax]
    let ?sl = "sl\<lparr>sl_mac := mac, sl_total_prb := sl_total_prb sl + dcfg_initial_bw C\<rparr>" and ?len = "length (dm_ues mac)"
    have start: "exec_inv elems n rmax ?len sl 0 ?sl"
      using m ok by (auto simp: dl_slot_ok_def exec_inv_def dl_ues_ok_def pdcch_ok_def requests_grown_def)
    have "case fold_res (dl_ue_spec E Q T C f s) [0..<?len] ?sl of Inl e \<Rightarrow> e \<in> dl_slot_errors
      | Inr sl' \<Rightarrow> exec_inv elems n rmax ?len sl ?len sl'"
      by (rule fold_res_upt [where P = "exec_inv elems n rmax ?len sl", OF start]) (rule dl_ue_spec_inv [OF laws(1,3) n])
    then show ?thesis using dl Inr
      by (auto simp: nr_schedule_ue_spec_def exec_inv_def dl_slot_ok_def dl_ues_ok_def split: sum.split)
  qed
qed

end
