(* ===== verification/DlExclusive.thy ===== *)
theory DlExclusive imports DlSlot begin

text \<open>
  Resource blocks are granted exclusively: with one beam and a bandwidth part that starts at 0, the new
  transmissions of a pass of \<^verbatim>\<open>pf_dl\<close> lie inside their bandwidth parts, on blocks that nobody used
  before, and no two of them share a block and a symbol.
\<close>

section \<open>A found run is free\<close>

lemma dl_find_rbs_spec:
  assumes "dl_find_rbs msk bits bi k = Some (st, n)" and "2 \<le> k"
  shows "0 \<le> st \<and> st + n \<le> bwpSize bi \<and> k \<le> n \<and> all_free (bwp_used msk bits bi) st n"
proof -
  let ?u = "bwp_used msk bits bi"
  have st: "st = scan_while ?u (bwpSize bi - 1) 0"
    and n: "n = scan_while (\<lambda>k. \<not> ?u (st + k)) (bwpSize bi - 1 - st + 1) 1" and le: "k \<le> n"
    using assms(1) by (auto simp: dl_find_rbs_def Let_def split: if_splits)
  have "0 \<le> st" unfolding st by (rule scan_while_ge)
  have m: "1 < bwpSize bi - 1 - st + 1"
  proof (rule ccontr)
    assume "\<not> ?thesis"
    then have "n = 1" unfolding n by (intro scan_while_over) simp
    then show False using le assms(2) by simp
  qed
  have "n \<le> bwpSize bi - 1 - st + 1" unfolding n by (rule scan_while_le) (use m in simp)
  moreover have free: "\<not> ?u st" using scan_while_stops [of ?u "bwpSize bi - 1" 0] m st by simp
  have "\<not> ?u j" if "st \<le> j" "j < st + n" for j
  proof (cases "j = st")
    case False
    then have "\<not> ?u (st + (j - st))"
      using scan_while_passed [of 1 "j - st" "\<lambda>k. \<not> ?u (st + k)" "bwpSize bi - 1 - st + 1"] that n by simp
    then show ?thesis by simp
  qed (simp add: free)
  ultimately show ?thesis using \<open>0 \<le> st\<close> le by (auto simp: all_free_def)
qed

section \<open>The invariant of the second loop\<close>

text \<open>The symbols and blocks of the grant of a UE, in carrier coordinates when the part starts at 0.\<close>

definition ue_bits :: "('q, 'x) dl_env \<Rightarrow> 'q dl_ue \<Rightarrow> u16" where
  "ue_bits E ue = dl_grant_bits E (pd_tda_info (d_sched_pdsch ue))"

definition ue_blocks :: "'q dl_ue \<Rightarrow> int set" where
  "ue_blocks ue = {pd_rbStart (d_sched_pdsch ue)..<pd_rbStart (d_sched_pdsch ue) + pd_rbSize (d_sched_pdsch ue)}"

definition grant_placed ::
    "('q, 'x) dl_env \<Rightarrow> dl_cfg \<Rightarrow> assoc_table \<Rightarrow> prb_map \<Rightarrow> prb_map \<Rightarrow> 'q dl_ue \<Rightarrow> bool" where
  "grant_placed E C assoc vrb0 vrb ue \<longleftrightarrow>
     ue_blocks ue \<subseteq> {0..<bwpSize (get_pdsch_bwp_start_size C (Some ue))} \<and>
     (let cap = dl_rb_cap (rk_slice_policy_get (rk_slice_assoc_get_dl_id assoc (d_rnti ue))) in
      0 < cap \<longrightarrow> pd_rbSize (d_sched_pdsch ue) \<le> cap) \<and>
     (\<forall>b \<in> ue_blocks ue. vrb0 b AND ue_bits E ue = 0 \<and> vrb b AND ue_bits E ue = ue_bits E ue)"

definition disjoint_grants :: "('q, 'x) dl_env \<Rightarrow> 'q dl_ue \<Rightarrow> 'q dl_ue \<Rightarrow> bool" where
  "disjoint_grants E a b \<longleftrightarrow> (ue_blocks a \<inter> ue_blocks b = {} \<or> ue_bits E a AND ue_bits E b = 0)"

lemma ue_blocks_empty: "pd_rbSize (d_sched_pdsch ue) \<le> 0 \<Longrightarrow> ue_blocks ue = {}"
  by (simp add: ue_blocks_def)

lemma disjoint_grants_sym: "disjoint_grants E a b = disjoint_grants E b a"
  by (auto simp: disjoint_grants_def and.commute)

text \<open>\<open>cs\<close> are the candidates still to come; the UEs have been checked to start at block 0.\<close>

definition excl_inv ::
    "('q, 'x) dl_env \<Rightarrow> dl_cfg \<Rightarrow> ('q, 'x) dl_mac \<Rightarrow> dl_UEsched_t list \<Rightarrow> ('q, 'x) dl_mac \<Rightarrow> bool" where
  "excl_inv E C mac cs m \<longleftrightarrow>
     length (dm_ues m) = length (dm_ues mac) \<and> dm_policies m = dm_policies mac \<and>
     (\<forall>k < length (dm_ues mac). dl_same (dm_ues mac ! k) (dm_ues m ! k)) \<and>
     distinct (map us_UE cs) \<and>
     (\<forall>c \<in> set cs. us_UE c < length (dm_ues mac) \<and> pd_rbSize (d_sched_pdsch (dm_ues m ! us_UE c)) \<le> 0) \<and>
     (\<forall>k < length (dm_ues mac). 0 < pd_rbSize (d_sched_pdsch (dm_ues m ! k)) \<longrightarrow>
        grant_placed E C (dm_assoc mac) (dm_vrb_map mac 0) (dm_vrb_map m 0) (dm_ues m ! k)) \<and>
     (\<forall>j < length (dm_ues mac). \<forall>k < length (dm_ues mac). j \<noteq> k \<longrightarrow> disjoint_grants E (dm_ues m ! j) (dm_ues m ! k)) \<and>
     (\<forall>b. dm_vrb_map m 0 b AND dm_vrb_map mac 0 b = dm_vrb_map mac 0 b)"

lemma and_zero_sub: "a AND m = a \<Longrightarrow> m AND b = 0 \<Longrightarrow> a AND b = (0 :: 'a :: len word)"
  by (metis and.assoc and_zero_eq)

text \<open>A grant of UE \<open>k\<close> in a map whose entries contain those before the pass.\<close>

lemma new_grant_placed:
  assumes law: "find_nb_rb_law (de_lib E)" and g: "new_grant E C f m beam ue m'"
    and start: "bwpStart (get_pdsch_bwp_start_size C (Some ue)) = 0" and min: "2 \<le> dl_min_rb m ue"
  shows "0 < pd_rbSize (d_sched_pdsch ue) \<and>
    ue_blocks ue \<subseteq> {0..<bwpSize (get_pdsch_bwp_start_size C (Some ue))} \<and>
    (let cap = dl_rb_cap (rk_slice_policy_get (rk_slice_assoc_get_dl_id (dm_assoc m) (d_rnti ue))) in
      0 < cap \<longrightarrow> pd_rbSize (d_sched_pdsch ue) \<le> cap) \<and>
    (\<forall>b \<in> ue_blocks ue. dm_vrb_map m beam b AND ue_bits E ue = 0) \<and>
    (\<forall>b. dm_vrb_map m' beam b = (if b \<in> ue_blocks ue then dm_vrb_map m beam b OR ue_bits E ue else dm_vrb_map m beam b))"
proof -
  define s where "s = d_sched_pdsch ue"
  obtain a st n alloc where d: "dl_same a ue"
    "s = dl_size_grant (de_lib E) (dm_assoc m) (g_rk_ue_dl_tbl (dm_dl m)) a f (dl_min_rb m ue) (st, n) alloc"
    "pd_bwp_info s = get_pdsch_bwp_start_size C (Some ue)"
    "dl_find_rbs (dm_vrb_map m beam) (ue_bits E ue) (pd_bwp_info s) (dl_min_rb m ue) = Some (st, n)"
    "dm_vrb_map m' = (dm_vrb_map m)(beam := dl_mark s (ue_bits E ue) (dm_vrb_map m beam))"
    using g unfolding new_grant_def Let_def s_def ue_bits_def by (metis prod.collapse)
  note f = dl_find_rbs_spec [OF d(4) min]
  define pol where "pol = rk_slice_policy_get (rk_slice_assoc_get_dl_id (dm_assoc m) (d_rnti a))"
  have "1 \<le> dl_min_rb m ue" "dl_min_rb m ue \<le> n" using f min by simp_all
  note sz = dl_size_grant_size [OF law this d(2) pol_def]
  have st: "pd_rbStart s = st" using dl_size_grant_frame(4) [OF d(2)] by simp
  have blocks: "b \<in> ue_blocks ue \<longleftrightarrow> st \<le> b \<and> b < st + pd_rbSize s" for b
    by (auto simp: ue_blocks_def s_def [symmetric] st)
  have rn: "d_rnti a = d_rnti ue" using d(1) by (simp add: dl_same_def)
  have "dm_vrb_map m beam b AND ue_bits E ue = 0" if "b \<in> ue_blocks ue" for b
    using f sz that blocks start d(3) by (auto simp: all_free_def bwp_used_def rb_used_def)
  moreover have "dm_vrb_map m' beam b = (if b \<in> ue_blocks ue then dm_vrb_map m beam b OR ue_bits E ue else dm_vrb_map m beam b)" for b
    using d(3,5) start st by (auto simp: dl_mark_def mark_rbs_eq blocks)
  ultimately show ?thesis using sz f d(3) blocks rn unfolding pol_def s_def [symmetric] by auto
qed

text \<open>The cell before a pass: one beam, and parts that start at 0 with a minimum grant of two blocks.\<close>

definition dl_one_beam :: "('q, 'x) dl_env \<Rightarrow> bool" where
  "dl_one_beam E \<longleftrightarrow> (\<forall>x f s b. fst (snd (de_beam_allocation E x f s b)) \<le> 0)"

definition excl_cell :: "dl_cfg \<Rightarrow> ('q, 'x) dl_mac \<Rightarrow> bool" where
  "excl_cell C mac \<longleftrightarrow>
     (\<forall>ue \<in> set (dm_ues mac). bwpStart (get_pdsch_bwp_start_size C (Some ue)) = 0 \<and> 2 \<le> dl_min_rb mac ue)"

lemma or_and_absorb: "v AND b = b \<Longrightarrow> (v OR w) AND b = (b :: 'a :: len word)"
  by (auto simp: bit_eq_iff bit_and_iff bit_or_iff)

lemma excl_step_quiet:
  assumes inv: "excl_inv E C mac (c # cs) m" and o: "only_ue (us_UE c) m ue m'"
    and v: "dm_vrb_map m' = dm_vrb_map m" and z: "pd_rbSize (d_sched_pdsch ue) = pd_rbSize (d_sched_pdsch (dm_ues m ! us_UE c))"
  shows "excl_inv E C mac cs m'"
proof -
  let ?i = "us_UE c"
  have i: "?i < length (dm_ues m)" "pd_rbSize (d_sched_pdsch ue) \<le> 0"
    using inv z by (simp_all add: excl_inv_def)
  have at: "dm_ues m' ! k = (if k = ?i then ue else dm_ues m ! k)" for k
    using o i by (simp add: only_ue_def)
  have dis: "disjoint_grants E ue u" "disjoint_grants E u ue" for u
    using ue_blocks_empty [OF i(2)] by (simp_all add: disjoint_grants_def)
  have same: "dl_same (dm_ues m ! ?i) ue" using o by (simp add: only_ue_def)
  have "pd_rbSize (d_sched_pdsch (dm_ues m' ! us_UE d)) \<le> 0" if "d \<in> set cs" for d
    using inv that i(2) by (simp add: excl_inv_def at)
  moreover have "length (dm_ues m') = length (dm_ues m)" "dm_policies m' = dm_policies m"
    using o by (simp_all add: only_ue_def)
  ultimately show ?thesis
    using inv i(2) dis v dl_same_trans [OF _ same] unfolding excl_inv_def at by auto
qed

lemma excl_step_grant:
  assumes law: "find_nb_rb_law (de_lib E)" and cell: "excl_cell C mac"
    and inv: "excl_inv E C mac (c # cs) m" and o: "only_ue (us_UE c) m ue m'" and g: "new_grant E C f m 0 ue m'"
  shows "excl_inv E C mac cs m'"
proof -
  let ?i = "us_UE c" and ?n = "length (dm_ues mac)"
  have i: "?i < ?n" "length (dm_ues m) = ?n" "dm_policies m = dm_policies mac" "dl_same (dm_ues mac ! ?i) (dm_ues m ! ?i)"
    and ns: "?i \<notin> us_UE ` set cs" "distinct (map us_UE cs)"
    using inv by (simp_all add: excl_inv_def)
  have at: "dm_ues m' ! k = (if k = ?i then ue else dm_ues m ! k)" for k
    using o i by (simp add: only_ue_def)
  have same: "dl_same (dm_ues mac ! ?i) ue" using o i(4) dl_same_trans by (auto simp: only_ue_def)
  have pol: "dm_assoc m = dm_assoc mac" "dm_dl m = dm_dl mac" using i(3) by (simp_all add: dm_policies_def)
  have mem: "dm_ues mac ! ?i \<in> set (dm_ues mac)" using i(1) by simp
  have "bwpStart (get_pdsch_bwp_start_size C (Some ue)) = 0" "2 \<le> dl_min_rb m ue"
    using cell mem dl_same_bwp [OF same, of C] same pol by (auto simp: excl_cell_def dl_min_rb_def dl_same_def)
  note pl = new_grant_placed [OF law g this]
  have bl: "dm_vrb_map m' 0 b = (if b \<in> ue_blocks ue then dm_vrb_map m 0 b OR ue_bits E ue else dm_vrb_map m 0 b)" for b
    using pl by blast
  have sub: "dm_vrb_map m 0 b AND dm_vrb_map mac 0 b = dm_vrb_map mac 0 b" for b using inv by (simp add: excl_inv_def)
  have old: "grant_placed E C (dm_assoc mac) (dm_vrb_map mac 0) (dm_vrb_map m 0) (dm_ues m ! k)"
    if "k < ?n" "0 < pd_rbSize (d_sched_pdsch (dm_ues m ! k))" for k
    using inv that unfolding excl_inv_def by blast
  have keep: "dm_vrb_map m' 0 b AND w = w" if "dm_vrb_map m 0 b AND w = w" for b w
    using that by (simp add: bl or_and_absorb)
  have mine: "grant_placed E C (dm_assoc mac) (dm_vrb_map mac 0) (dm_vrb_map m' 0) ue"
  proof -
    have "dm_vrb_map mac 0 b AND ue_bits E ue = 0" if "b \<in> ue_blocks ue" for b
      using and_zero_sub [of "dm_vrb_map mac 0 b" "dm_vrb_map m 0 b" "ue_bits E ue"] sub [of b] pl that
      by (simp add: and.commute)
    then show ?thesis using pl pol(1) by (simp add: grant_placed_def bl and.commute [of "_ OR _"])
  qed
  have placed: "grant_placed E C (dm_assoc mac) (dm_vrb_map mac 0) (dm_vrb_map m' 0) (dm_ues m' ! k)"
    if "k < ?n" "0 < pd_rbSize (d_sched_pdsch (dm_ues m' ! k))" for k
    using old [of k] that mine keep by (auto simp: at grant_placed_def split: if_splits)
  have free: "disjoint_grants E ue (dm_ues m ! k)" if "k < ?n" for k
  proof (cases "0 < pd_rbSize (d_sched_pdsch (dm_ues m ! k))")
    case True
    have "ue_bits E (dm_ues m ! k) AND ue_bits E ue = 0" if "b \<in> ue_blocks ue" "b \<in> ue_blocks (dm_ues m ! k)" for b
      using and_zero_sub [of "ue_bits E (dm_ues m ! k)" "dm_vrb_map m 0 b" "ue_bits E ue"] that pl
        old [OF \<open>k < ?n\<close> True] by (simp add: grant_placed_def and.commute)
    then show ?thesis by (auto simp: disjoint_grants_def and.commute)
  qed (simp add: disjoint_grants_def ue_blocks_empty)
  have dis: "disjoint_grants E (dm_ues m' ! j) (dm_ues m' ! k)" if "j < ?n" "k < ?n" "j \<noteq> k" for j k
  proof -
    have "disjoint_grants E (dm_ues m ! j) (dm_ues m ! k)" using inv that by (simp add: excl_inv_def)
    then show ?thesis using that free [of j] free [of k] by (auto simp: at disjoint_grants_sym [of E _ ue])
  qed
  have "pd_rbSize (d_sched_pdsch (dm_ues m' ! us_UE d)) \<le> 0 \<and> us_UE d < ?n" if "d \<in> set cs" for d
  proof -
    have "us_UE d \<noteq> ?i" using that ns(1) by (metis imageI)
    then show ?thesis using inv that by (simp add: excl_inv_def at)
  qed
  moreover have "dl_same (dm_ues mac ! k) (dm_ues m' ! k)" if "k < ?n" for k
    using inv that same by (auto simp: excl_inv_def at)
  moreover have "length (dm_ues m') = ?n" "dm_policies m' = dm_policies mac"
    using o i by (simp_all add: only_ue_def)
  ultimately show ?thesis unfolding excl_inv_def using placed dis ns(2) keep [OF sub] by blast
qed

lemma excl_step:
  assumes "find_nb_rb_law (de_lib E)" and "excl_cell C mac" and "dl_one_beam E"
    and inv: "excl_inv E C mac (c # cs) (ds_mac st)" and run: "pf_dl_grant E C f s c st = Inr st'"
  shows "excl_inv E C mac cs (ds_mac st')"
proof -
  have "us_UE c < length (dm_ues (ds_mac st))" using inv by (simp add: excl_inv_def)
  from pf_dl_grant_outcome [OF run this] obtain ue where ue: "only_ue (us_UE c) (ds_mac st) ue (ds_mac st')"
    "dm_vrb_map (ds_mac st') = dm_vrb_map (ds_mac st) \<and>
       pd_rbSize (d_sched_pdsch ue) = pd_rbSize (d_sched_pdsch (dm_ues (ds_mac st) ! us_UE c)) \<or>
     (\<exists>beam. 0 \<le> beam \<and> fst (snd (de_beam_allocation E (dm_rest (ds_mac st)) f s (d_beam_index (dm_ues (ds_mac st) ! us_UE c)))) = beam \<and>
        new_grant E C f (ds_mac st) beam ue (ds_mac st'))" by blast
  from ue(2) show ?thesis
  proof
    assume "dm_vrb_map (ds_mac st') = dm_vrb_map (ds_mac st) \<and>
       pd_rbSize (d_sched_pdsch ue) = pd_rbSize (d_sched_pdsch (dm_ues (ds_mac st) ! us_UE c))"
    then show ?thesis using excl_step_quiet [OF inv ue(1)] by blast
  next
    assume "\<exists>beam. 0 \<le> beam \<and> fst (snd (de_beam_allocation E (dm_rest (ds_mac st)) f s (d_beam_index (dm_ues (ds_mac st) ! us_UE c)))) = beam \<and>
        new_grant E C f (ds_mac st) beam ue (ds_mac st')"
    then have "new_grant E C f (ds_mac st) 0 ue (ds_mac st')"
      using assms(3) unfolding dl_one_beam_def by (metis order_antisym)
    then show ?thesis by (rule excl_step_grant [OF assms(1,2) inv ue(1)])
  qed
qed

section \<open>The pass\<close>

text \<open>A cell in which no process waits for retransmission and nothing is planned.\<close>

definition dl_idle :: "('q, 'x) dl_env \<Rightarrow> 'q dl_ue \<Rightarrow> bool" where
  "dl_idle E ue \<longleftrightarrow> nl_head (de_lists E) (retrans_harq (d_ctrl ue)) < 0 \<and> pd_rbSize (d_sched_pdsch ue) \<le> 0"

text \<open>Before UE \<open>i\<close> of the first loop.\<close>

definition first_inv :: "('q, 'x) dl_env \<Rightarrow> ('q, 'x) dl_mac \<Rightarrow> nat \<Rightarrow> ('q, 'x) dl_pf_state \<Rightarrow> bool" where
  "first_inv E mac i st \<longleftrightarrow>
     (let m = ds_mac st; n = length (dm_ues mac) in
      length (dm_ues m) = n \<and> dm_policies m = dm_policies mac \<and> dm_vrb_map m = dm_vrb_map mac \<and>
      (\<forall>k < n. dl_same (dm_ues mac ! k) (dm_ues m ! k) \<and> dl_idle E (dm_ues m ! k)) \<and>
      distinct (map us_UE (ds_UE_sched st)) \<and> (\<forall>c \<in> set (ds_UE_sched st). us_UE c < i))"

lemma first_inv_step:
  assumes inv: "first_inv E mac i st" and i: "i < length (dm_ues mac)"
  shows "first_inv E mac (i + 1) (pf_dl_ue E C f s i st)"
proof -
  let ?st = "pf_dl_ue E C f s i st" and ?a = "dm_ues (ds_mac st) ! i"
  have len: "i < length (dm_ues (ds_mac st))" and idle: "dl_idle E ?a" using inv i by (simp_all add: first_inv_def Let_def)
  from pf_dl_ue_outcome [OF len, of E C f s] idle obtain ue where
    ue: "only_ue i (ds_mac st) ue (ds_mac ?st)" "first_step E ?a ue" "dm_vrb_map (ds_mac ?st) = dm_vrb_map (ds_mac st)"
    and c: "ds_UE_sched ?st = ds_UE_sched st \<or> (\<exists>c. ds_UE_sched ?st = ds_UE_sched st @ [c] \<and> us_UE c = i)"
    unfolding dl_idle_def by blast
  have "dl_idle E ue" using ue(2) idle by (auto simp: first_step_def dl_idle_def)
  then have "\<forall>k < length (dm_ues mac). dl_same (dm_ues mac ! k) (dm_ues (ds_mac ?st) ! k) \<and> dl_idle E (dm_ues (ds_mac ?st) ! k)"
    using inv ue(1) len dl_same_trans by (auto simp: first_inv_def Let_def only_ue_def nth_list_update)
  moreover have "distinct (map us_UE (ds_UE_sched ?st)) \<and> (\<forall>c \<in> set (ds_UE_sched ?st). us_UE c < i + 1)"
    using c inv by (fastforce simp: first_inv_def Let_def)
  ultimately show ?thesis using inv ue(1,3) by (simp add: first_inv_def only_ue_def Let_def)
qed

lemma pf_dl_excl:
  assumes laws: "find_nb_rb_law (de_lib E)" "dl_qsort_perm E" "dl_one_beam E"
    and cell: "excl_cell C (mac\<lparr>dm_dl := rk_ue_dl_reload_if_needed False stat file (dm_dl mac)\<rparr>)"
      "\<forall>ue \<in> set (dm_ues mac). dl_idle E ue"
    and run: "pf_dl E C stat file f s d rbs mac = Inr mac'"
  shows "excl_inv E C (mac\<lparr>dm_dl := rk_ue_dl_reload_if_needed False stat file (dm_dl mac)\<rparr>) [] mac'"
proof -
  let ?len = "length (dm_ues mac)"
  define m0 where "m0 = mac\<lparr>dm_dl := rk_ue_dl_reload_if_needed False stat file (dm_dl mac)\<rparr>"
  have m0: "dm_ues m0 = dm_ues mac" by (simp add: m0_def)
  define st0 where "st0 = \<lparr>ds_mac = m0, ds_remainUEs = (\<lambda>_. d), ds_n_rb_sched = rbs, ds_UE_sched = []\<rparr>"
  define st1 where "st1 = fold (pf_dl_ue E C f s) [0..<?len] st0"
  obtain st2 where st2: "fold_res (pf_dl_grant E C f s) (de_qsort E dl_comparator (ds_UE_sched st1)) st1 = Inr st2"
    "mac' = ds_mac st2"
    using run unfolding pf_dl_def Let_def m0_def [symmetric] st0_def [symmetric] m0 st1_def [symmetric]
    by (auto split: sum.splits)
  have one: "first_inv E m0 ?len st1" unfolding st1_def
  proof (rule fold_upt_inv [where P = "first_inv E m0"])
    show "first_inv E m0 0 st0" using cell(2) by (simp add: first_inv_def st0_def m0)
    show "first_inv E m0 (i + 1) (pf_dl_ue E C f s i st)" if "i < ?len" "first_inv E m0 i st" for i st
      using first_inv_step [OF that(2)] that(1) m0 by simp
  qed
  let ?cs = "de_qsort E dl_comparator (ds_UE_sched st1)"
  have mset: "mset ?cs = mset (ds_UE_sched st1)" using laws(2) by (simp add: dl_qsort_perm_def)
  then have "mset (map us_UE ?cs) = mset (map us_UE (ds_UE_sched st1))" by simp
  then have "distinct (map us_UE ?cs)" using one mset_eq_imp_distinct_iff by (fastforce simp: first_inv_def Let_def)
  moreover have "set ?cs = set (ds_UE_sched st1)" using mset by (metis set_mset_mset)
  ultimately have start: "excl_inv E C m0 ?cs (ds_mac st1)"
    using one m0 unfolding excl_inv_def first_inv_def Let_def
    by (auto simp: dl_idle_def disjoint_grants_def ue_blocks_def)
  have "excl_inv E C m0 [] (ds_mac st2)"
    by (rule fold_res_rest [where J = "\<lambda>cs st. excl_inv E C m0 cs (ds_mac st)", OF st2(1) start])
      (rule excl_step [OF laws(1) cell(1) [folded m0_def] laws(3)])
  then show ?thesis by (simp add: m0_def st2(2))
qed

end
