(* ===== verification/DlExample.thy ===== *)
theory DlExample imports DlExclusive begin

text \<open>
  A downlink cell on which the properties of the downlink are instantiated: one beam, 24 resource
  blocks, UEs with two HARQ processes and one logical channel, and simple functions for what other
  files provide.  The lemmas evaluate a slot step by step.
\<close>

section \<open>The cell\<close>

definition dl_lib_example :: "int list dl_lib" where
  "dl_lib_example = \<lparr>ul_phy = phy_example, SL_to_bitmap = sl_example,
     nr_find_nb_rb = (\<lambda>_ _ _ _ _ _ _ lo hi. (True, 10, lo)),
     get_ul_dmrs_params = (\<lambda>_ _ _. NR_pusch_dmrs_t.make 0 1 1 0 0 0 0 0 0 False),
     get_NTN_Koffset = 0, MAX_FRAME_NUMBER = 1024,
     get_dl_tda_info = (\<lambda>_ _. tda_example), get_dl_dmrs_params = (\<lambda>_ _ _. NR_pdsch_dmrs_t.make 0 1 0 0 0 0 1 False),
     nr_get_Qm_dl = (\<lambda>_ _. 8), nr_get_code_rate_dl = (\<lambda>_ _. 100), get_dl_nrOfLayers = (\<lambda>_. 1),
     get_pm_index = (\<lambda>_ _. 0)\<rparr>"

definition dl_cfg_example :: dl_cfg where
  "dl_cfg_example = \<lparr>dcfg_is_tdd = False, dcfg_slot_idx = (\<lambda>s. s), dcfg_num_dl_symbols = (\<lambda>_. 14),
     dcfg_is_mixed_slot = (\<lambda>_. False), dcfg_sched_csirs = 0, dcfg_slots_frame = 20, dcfg_cset0_bwp_start = 0,
     dcfg_cset0_bwp_size = 0, dcfg_harq_round_max = 4, dcfg_bler_max_mcs = 9, dcfg_num_beams = 1, dcfg_bw = 48,
     dcfg_NR_NB_REG_PER_CCE = 6, dcfg_MAX_DCI_CORESET = 10, dcfg_tag_Id = 0, dcfg_phy_test = False,
     dcfg_do_ra = False, dcfg_ssb_scs = 1, dcfg_physCellId = 0, dcfg_initial_bw = 48\<rparr>"

definition dl_env_example :: "(int list, unit) dl_env" where
  "dl_env_example = \<lparr>de_lib = dl_lib_example, de_lists = list_ops, de_qsort = (\<lambda>cmp xs. xs),
     de_beam_allocation = (\<lambda>x f s b. (x, 0, False)), de_reset_beam_status = (\<lambda>x f s b nb. x),
     de_get_cce_index = (\<lambda>x r s b. (x, 2)), de_fill_pdcch_vrb_map = (\<lambda>x r c b. x),
     de_get_mcs_from_bler = (\<lambda>x ue m f. (x, 9, 9)), de_nr_get_pucch_resource = (\<lambda>ue c. 0),
     de_nr_acknack_scheduling = (\<lambda>x ue f s r. (x, d_sched_pucch ue, 0)),
     de_nr_mac_rlc_status_ind = (\<lambda>x r f l. \<lparr>bytes_in_buffer = 3, pdus_in_buffer = 1\<rparr>), de_DL_SCH_LCID_DTCH = 4\<rparr>"

text \<open>Every process has a saved transport block of 5 bytes; those of \<open>R\<close> wait for their retransmission.\<close>

definition dl_ctrl_example :: "int list \<Rightarrow> int list \<Rightarrow> int list dl_sched_ctrl" where
  "dl_ctrl_example A R = \<lparr>available_harq = A, feedback_harq = [], retrans_harq = R,
     harq_processes = (\<lambda>p. \<lparr>is_waiting = False, ndi = 0, round = (if p \<in> set R then 1 else 0), feedback_frame = 0,
       feedback_slot = 0, sched_pdsch = no_pdsch\<lparr>pd_rbSize := 5, pd_tb_size := 5, dl_harq_pid := p, pd_nrOfLayers := 1,
         pd_tda_info := tda_example\<rparr>, transportBlock = [1, 2, 3, 4, 5]\<rparr>),
     dl_errors = 0\<rparr>"

definition dl_ue_example :: "u16 \<Rightarrow> int list \<Rightarrow> int list \<Rightarrow> int list dl_ue" where
  "dl_ue_example rnti A R = \<lparr>d_rnti = rnti, d_ul_failure = False, d_beam_index = 0, d_dl_thr_ue = FFin False 1,
     d_current_bytes = 0, d_current_rbs = 0, d_total_bytes = 0, d_total_rbs = 0, d_total_rbs_retx = 0,
     d_total_sdu_bytes = 0, d_num_mac_sdu = 0, d_lc_bytes = (\<lambda>_. 0), d_rounds = (\<lambda>_. 0),
     d_ctrl = dl_ctrl_example A R, d_sched_pdsch = no_pdsch,
     d_lc_config = [\<lparr>lc_lcid = 4, lc_suspended = False\<rparr>], d_rlc_status = (\<lambda>_. \<lparr>bytes_in_buffer = 0, pdus_in_buffer = 0\<rparr>),
     d_num_total_bytes = 0, d_dl_pdus_total = 0, d_transm_interrupt = False, d_ta_frame = 0, d_ta_apply = False,
     d_ta_update = 31, d_mac_ce_ctrl = \<lparr>pdcch_state_ind = None, SP_CSI_reporting_pucch = None,
       pdsch_TCI_States_ActDeact = None, aperi_CSI_trigger = None, sp_zp_csi_rs = None, csi_im = None\<rparr>,
     d_dl_max_mcs = 28, d_bler_mcs = 9, d_dl_cce_fail = 0, d_cce_index = 0, d_tpc1 = 0,
     d_sched_pucch = (\<lambda>_. (1, 7)), d_feedback_disabled = (\<lambda>_. False),
     d_bwp = \<lparr>dl_BWPStart = 0, dl_BWPSize = 48, is_dci_1_0 = False, dl_scs = 1, dl_mcsTableIdx = 0,
       dl_cyclicprefix = None, dl_dataScramblingId = None, dl_resourceAllocationType1 = True\<rparr>,
     d_common_ss = False, d_coresetid = 1, d_pdcch_rb_start = 0, d_initial_dl_BWPSize = 48, d_dl_bw_tbslbrm = 48,
     d_maxMIMO_Layers = None\<rparr>"

definition dl_mac_example :: "int list dl_ue list \<Rightarrow> (int list, unit) dl_mac" where
  "dl_mac_example ues = \<lparr>dm_ues = ues, dm_vrb_map = (\<lambda>_ _. 0), dm_assoc = g_rk_slice_assoc_init,
     dm_runtime = g_rk_slice_runtime_init, dm_dl = dl_state_init, dm_rest = ()\<rparr>"

text \<open>Subheaders as they are on the air; RLC always has the three bytes 1, 2, 3 for a large enough request.\<close>

definition dl_enc_example :: dl_enc where
  "dl_enc_example = \<lparr>subheader_fixed = (\<lambda>l. [word_of_int l]),
     subheader_short = (\<lambda>l n. [word_of_int l, word_of_int n]),
     subheader_long = (\<lambda>l n. [64 OR word_of_int l, word_of_int (n div 256), word_of_int n]),
     enc_TA = (\<lambda>ta tag. [word_of_int (ta + 64 * tag)]),
     enc_TCI_PDCCH = (\<lambda>_ _ _ _. [0, 0]), enc_PUCCH_CSI_REPORTING = (\<lambda>_ _ _. [0, 0]),
     enc_TCI_PDSCH_APERIODIC_CSI = (\<lambda>_ _. [0]), enc_SP_ZP_CSI_RS = (\<lambda>_ _ _ _. [0, 0]),
     enc_CSI_RS_CSI_IM = (\<lambda>_ _ _ _ _ _. [0, 0, 0]), enc_TCI_S = (\<lambda>_. [0]),
     DL_SCH_LCID_DRX = 60, DL_SCH_LCID_TA_COMMAND = 61, DL_SCH_LCID_CON_RES_ID = 62,
     DL_SCH_LCID_TCI_STATE_IND_UE_SPEC_PDCCH = 52, DL_SCH_LCID_SP_CSI_REP_PUCCH_ACT = 51,
     DL_SCH_LCID_TCI_STATE_ACT_UE_SPEC_PDSCH = 53, DL_SCH_LCID_APERIODIC_CSI_TRI_STATE_SUBSEL = 54,
     DL_SCH_LCID_SP_ZP_CSI_RS_RES_SET_ACT = 48, DL_SCH_LCID_SP_CSI_RS_CSI_IM_RES_SET_ACT = 55,
     DL_SCH_LCID_PADDING = 63\<rparr>"

definition tb_env_example :: "unit tb_env" where
  "tb_env_example = \<lparr>tb_enc = dl_enc_example,
     tb_rlc = (\<lambda>r rnti lcid n. (r, if lcid = 4 then take n [1, 2, 3] else [])),
     tb_rand = (\<lambda>n. replicate n 0), tb_addr = 0\<rparr>"

definition pdu_lib_example :: "(int list, u16) pdu_lib" where
  "pdu_lib_example = \<lparr>nr_get_rv = (\<lambda>r. r), set_dl_ptrs_values = (\<lambda>_ _ _ _ _. (False, no_ptrs)),
     nr_compute_tbslbrm = (\<lambda>_ _ _. 0), get_BG = (\<lambda>_ _. 1), make_dl_dci = (\<lambda>ue _ _ _ _. d_rnti ue),
     pl_is_dl_slot = (\<lambda>s. s < 7)\<rparr>"

definition dl_slot_example :: "int list dl_ue list \<Rightarrow> (int list, unit, u16) dl_slot" where
  "dl_slot_example ues = \<lparr>sl_mac = dl_mac_example ues, sl_dl_req = [], sl_tx_req = [], sl_tx_time = (0, 0),
     sl_pdcch_pdu_idx = (\<lambda>_. None), sl_pdu_index = 0, sl_total_prb = 0, sl_used_prb = 0\<rparr>"

section \<open>Its laws\<close>

lemma dl_example_laws:
  "nr_list_laws (de_lists dl_env_example) (\<lambda>q. q)" "dl_qsort_perm dl_env_example" "tb_laws tb_env_example dl_cfg_example"
  "find_nb_rb_law (de_lib dl_env_example)" "dl_one_beam dl_env_example"
  by (simp_all add: dl_env_example_def list_ops_laws dl_qsort_perm_def tb_laws_def dl_enc_laws_def dl_enc_example_def
      tb_env_example_def rlc_law_def dl_cfg_example_def find_nb_rb_law_def dl_lib_example_def dl_one_beam_def)

lemma dl_ctrl_example_ok:
  "harq_inv (\<lambda>q. q) 2 4 {} (dl_ctrl_example [0, 1] [])" "harq_inv (\<lambda>q. q) 2 4 {} (dl_ctrl_example [1] [0])"
  "dl_saved (\<lambda>q. q) (dl_ctrl_example A R)"
  by (auto simp: harq_inv_def dl_ctrl_example_def dl_saved_def no_pdsch_def NR_sched_pdsch_t.make_def Let_def)

section \<open>Running it\<close>

lemma dl_example_find:
  "find_run (rb_used (\<lambda>_. 0) b) 47 5 0 = Some 0"
  "dl_find_rbs (\<lambda>_. 0) b \<lparr>bwpStart = 0, bwpSize = 48\<rparr> 5 = Some (0, 48)"
proof -
  have u: "rb_used (\<lambda>_. 0) b = (\<lambda>_. False)" "bwp_used (\<lambda>_. 0) b \<lparr>bwpStart = 0, bwpSize = 48\<rparr> = (\<lambda>_. False)"
    by (simp_all add: fun_eq_iff rb_used_def bwp_used_def)
  show "find_run (rb_used (\<lambda>_. 0) b) 47 5 0 = Some 0" unfolding u by code_simp
  show "dl_find_rbs (\<lambda>_. 0) b \<lparr>bwpStart = 0, bwpSize = 48\<rparr> 5 = Some (0, 48)" unfolding dl_find_rbs_def u by code_simp
qed

lemma dl_example_marked:
  "dl_find_rbs (mark_rbs (sl_example 0 14) 0 5 0 (\<lambda>_. 0)) (sl_example 0 14) \<lparr>bwpStart = 0, bwpSize = 48\<rparr> 5 = Some (5, 43)"
  by code_simp

lemma dl_example_pol:
  "rk_ue_dl_get_min_grant_prb (g_rk_ue_dl_tbl dl_state_init) 7 5 = 5"
  "dl_rb_floor (rk_slice_policy_get (rk_slice_assoc_get_dl_id g_rk_slice_assoc_init 7)) = 0"
  "dl_rb_cap (rk_slice_policy_get (rk_slice_assoc_get_dl_id g_rk_slice_assoc_init 7)) = 0"
  "rk_ue_dl_get_min_grant_prb (g_rk_ue_dl_tbl dl_state_init) 9 5 = 5"
  "dl_rb_floor (rk_slice_policy_get (rk_slice_assoc_get_dl_id g_rk_slice_assoc_init 9)) = 0"
  "dl_rb_cap (rk_slice_policy_get (rk_slice_assoc_get_dl_id g_rk_slice_assoc_init 9)) = 0"
  by code_simp+

lemma apply_floor_cap_0: "apply_floor_cap 0 0 av n = n"
  by (simp add: apply_floor_cap_def)

lemmas dl_example_defs = dl_env_example_def dl_cfg_example_def dl_mac_example_def dl_ue_example_def dl_ctrl_example_def
  dl_lib_example_def phy_example_def tda_example_def no_pdsch_def NR_sched_pdsch_t.make_def NR_pdsch_dmrs_t.make_def
  list_ops_def pdu_lib_example_def dl_slot_example_def tb_env_example_def dl_enc_example_def

lemmas dl_pass_defs = nr_dlsch_preprocessor_def nr_store_dlsch_buffer_def dl_store_ue_def dl_store_lc_def pf_dl_def
  rk_ue_dl_reload_if_needed_def pf_dl_ue_def dl_total_rem_ues_def allocate_dl_retransmission_def dl_retx_place_def
  dl_retx_reuse_def dl_ta_due_def dl_new_candidate_def pf_dl_grant_def dl_size_grant_def dl_tb_bytes_def
  get_pdsch_bwp_start_size_def get_dl_tda_def dl_find_pucch_def upd_dl_ue_def dl_retx_mark_def dl_mark_def
  dl_grant_bits_def Let_def dl_example_find dl_example_marked dl_example_pol apply_floor_cap_0

lemma to_i8_0: "to_i8 0 = 0"
  by (simp add: to_i8_id)

lemmas dl_exec_defs = to_i8_0 nr_schedule_ue_spec_def dl_ue_spec_def dl_ue_prepare_def dl_harq_grant_def dl_fapi_def pdcch_pdu_of_def
  add_dci_def prepare_pdsch_pdu_def dl_retx_def dl_initial_tx_def dl_build_tb_def nr_write_ce_dlsch_pdu_def
  ce_drx_def ce_ta_def ce_con_res_def ce_tci_pdcch_def ce_sp_csi_def ce_states_def ce_sp_zp_def ce_csi_im_def
  dl_padding_def lc_loop.simps low_bits_def

text \<open>A retransmission and a new transmission in one slot, and two new transmissions in one pass.\<close>

lemma dl_example_slot:
  "\<exists>sl'. nr_schedule_ue_spec dl_env_example pdu_lib_example tb_env_example dl_cfg_example None None 5 3
     (dl_slot_example [dl_ue_example 7 [1] [0], dl_ue_example 9 [0, 1] []]) = Inr sl' \<and>
   map tx_data (sl_tx_req sl') = [[1, 2, 3, 4, 5], [68, 0, 2, 1, 2]] \<and> map pp_rbStart (pdschs (sl_dl_req sl')) = [0, 5] \<and>
   dcis (sl_dl_req sl') = [7, 9]"
  by (simp add: dl_example_defs dl_pass_defs dl_exec_defs)

lemma dl_example_pass:
  "\<exists>mac'. nr_dlsch_preprocessor dl_env_example dl_cfg_example None None 5 3
     (dl_mac_example [dl_ue_example 7 [0, 1] [], dl_ue_example 9 [0, 1] []]) = Inr mac' \<and>
   map (\<lambda>ue. (pd_rbStart (d_sched_pdsch ue), pd_rbSize (d_sched_pdsch ue))) (dm_ues mac') = [(0, 5), (5, 5)]"
  by (simp add: dl_example_defs dl_pass_defs)

end
