(* ===== verification/DlObeys.thy ===== *)
theory DlObeys imports DlExclusive begin

text \<open>
  New downlink grants obey the policies: whatever the other UEs, beams and retransmissions do, the new
  transmission of a UE respects the cap of its slice and the MCS limit of its own policy, as the tables
  hold them after the reload at the start of the pass.
\<close>

section \<open>One grant\<close>

definition dl_waits :: "('q, 'x) dl_env \<Rightarrow> 'q dl_ue \<Rightarrow> bool" where
  "dl_waits E ue \<longleftrightarrow> 0 \<le> nl_head (de_lists E) (retrans_harq (d_ctrl ue))"

definition dl_obeys :: "assoc_table \<Rightarrow> dl_table \<Rightarrow> 'q dl_ue \<Rightarrow> bool" where
  "dl_obeys assoc t ue \<longleftrightarrow>
     (let s = d_sched_pdsch ue; cap = dl_rb_cap (rk_slice_policy_get (rk_slice_assoc_get_dl_id assoc (d_rnti ue))) in
      pd_mcs s \<le> rk_ue_dl_get_max_mcs t (d_rnti ue) 28 \<and> (0 < cap \<longrightarrow> pd_rbSize s \<le> cap))"

lemma dl_size_grant_limits:
  assumes "s = dl_size_grant L assoc t ue f k place alloc"
    and "pol = rk_slice_policy_get (rk_slice_assoc_get_dl_id assoc (d_rnti ue))"
  shows "pd_mcs s \<le> rk_ue_dl_get_max_mcs t (d_rnti ue) 28" "0 < dl_rb_cap pol \<Longrightarrow> pd_rbSize s \<le> dl_rb_cap pol"
  unfolding assms dl_size_grant_def Let_def
  by (simp_all add: split_beta apply_floor_cap_le)

lemma new_grant_obeys:
  assumes "new_grant E C f m beam ue m'"
  shows "dl_obeys (dm_assoc m) (g_rk_ue_dl_tbl (dm_dl m)) ue"
proof -
  obtain a place alloc where a: "dl_same a ue" "d_sched_pdsch ue =
      dl_size_grant (de_lib E) (dm_assoc m) (g_rk_ue_dl_tbl (dm_dl m)) a f (dl_min_rb m ue) place alloc"
    using assms unfolding new_grant_def Let_def by blast
  have "d_rnti a = d_rnti ue" using a(1) by (simp add: dl_same_def)
  then show ?thesis
    using dl_size_grant_limits [OF a(2) refl] by (simp add: dl_obeys_def Let_def)
qed

section \<open>The pass\<close>

text \<open>The UEs that do not wait for a retransmission have no grant.\<close>

definition dl_unplanned :: "('q, 'x) dl_env \<Rightarrow> 'q dl_ue \<Rightarrow> bool" where
  "dl_unplanned E ue \<longleftrightarrow> dl_waits E ue \<or> pd_rbSize (d_sched_pdsch ue) \<le> 0"

lemma first_step_unplanned:
  assumes "first_step E a b" and "dl_unplanned E a"
  shows "dl_unplanned E b"
  using assms unfolding first_step_def dl_unplanned_def dl_waits_def by auto

definition first_plan :: "('q, 'x) dl_env \<Rightarrow> ('q, 'x) dl_mac \<Rightarrow> nat \<Rightarrow> ('q, 'x) dl_pf_state \<Rightarrow> bool" where
  "first_plan E mac i st \<longleftrightarrow>
     length (dm_ues (ds_mac st)) = length (dm_ues mac) \<and> dm_policies (ds_mac st) = dm_policies mac \<and>
     list_all (dl_unplanned E) (dm_ues (ds_mac st)) \<and>
     distinct (map us_UE (ds_UE_sched st)) \<and> (\<forall>c \<in> set (ds_UE_sched st). us_UE c < i)"

lemma list_all_upd: "list_all P xs \<Longrightarrow> P x \<Longrightarrow> list_all P (xs[i := x])"
  by (auto simp: list_all_iff dest: set_update_subset_insert [THEN subsetD])

lemma first_plan_step:
  assumes inv: "first_plan E mac i st" and i: "i < length (dm_ues mac)"
  shows "first_plan E mac (i + 1) (pf_dl_ue E C f s i st)"
proof -
  let ?st = "pf_dl_ue E C f s i st"
  have len: "i < length (dm_ues (ds_mac st))" using inv i by (simp add: first_plan_def)
  obtain ue where ue: "only_ue i (ds_mac st) ue (ds_mac ?st)" "first_step E (dm_ues (ds_mac st) ! i) ue"
    and c: "ds_UE_sched ?st = ds_UE_sched st \<or> (\<exists>c. ds_UE_sched ?st = ds_UE_sched st @ [c] \<and> us_UE c = i)"
    using pf_dl_ue_outcome [OF len, of E C f s] by blast
  have "dl_unplanned E ue"
    using first_step_unplanned [OF ue(2)] inv len by (simp add: first_plan_def list_all_length)
  then have "list_all (dl_unplanned E) (dm_ues (ds_mac ?st))"
    using inv ue(1) by (simp add: first_plan_def only_ue_def list_all_upd)
  moreover have "distinct (map us_UE (ds_UE_sched ?st)) \<and> (\<forall>c \<in> set (ds_UE_sched ?st). us_UE c < i + 1)"
    using c inv by (fastforce simp: first_plan_def)
  ultimately show ?thesis using inv ue(1) by (simp add: first_plan_def only_ue_def)
qed

text \<open>\<open>cs\<close> are the candidates still to come.\<close>

definition obey_inv ::
    "('q, 'x) dl_env \<Rightarrow> ('q, 'x) dl_mac \<Rightarrow> dl_UEsched_t list \<Rightarrow> ('q, 'x) dl_mac \<Rightarrow> bool" where
  "obey_inv E mac cs m \<longleftrightarrow>
     length (dm_ues m) = length (dm_ues mac) \<and> dm_policies m = dm_policies mac \<and>
     distinct (map us_UE cs) \<and>
     (\<forall>c \<in> set cs. us_UE c < length (dm_ues mac) \<and> dl_unplanned E (dm_ues m ! us_UE c)) \<and>
     list_all (\<lambda>ue. dl_unplanned E ue \<or> dl_obeys (dm_assoc mac) (g_rk_ue_dl_tbl (dm_dl mac)) ue) (dm_ues m)"

lemma obey_step:
  assumes inv: "obey_inv E mac (c # cs) (ds_mac st)" and run: "pf_dl_grant E C f s c st = Inr st'"
  shows "obey_inv E mac cs (ds_mac st')"
proof -
  let ?m = "ds_mac st" and ?m' = "ds_mac st'" and ?i = "us_UE c"
  have i: "?i < length (dm_ues ?m)" "dl_unplanned E (dm_ues ?m ! ?i)" "dm_policies ?m = dm_policies mac"
    and ns: "?i \<notin> us_UE ` set cs" using inv by (auto simp: obey_inv_def)
  obtain ue where ue: "only_ue ?i ?m ue ?m'" "second_step E (dm_ues ?m ! ?i) ue"
    "pd_rbSize (d_sched_pdsch ue) = pd_rbSize (d_sched_pdsch (dm_ues ?m ! ?i)) \<or>
     (\<exists>beam. new_grant E C f ?m beam ue ?m')"
    using pf_dl_grant_outcome [OF run i(1)] by blast
  have pol: "dm_assoc ?m = dm_assoc mac" "dm_dl ?m = dm_dl mac" using i(3) by (simp_all add: dm_policies_def)
  have w: "dl_waits E ue = dl_waits E (dm_ues ?m ! ?i)" using ue(2) by (simp add: second_step_def dl_waits_def)
  have "dl_unplanned E ue \<or> dl_obeys (dm_assoc mac) (g_rk_ue_dl_tbl (dm_dl mac)) ue"
    using ue(3) i(2) w new_grant_obeys [of E C f ?m _ ue ?m'] by (auto simp: dl_unplanned_def pol)
  moreover have "dm_ues ?m' = (dm_ues ?m)[?i := ue]" "dm_policies ?m' = dm_policies ?m"
    using ue(1) by (simp_all add: only_ue_def)
  moreover have "dl_unplanned E (dm_ues ?m ! us_UE d) \<and> us_UE d < length (dm_ues mac) \<and> us_UE d \<noteq> ?i" if "d \<in> set cs" for d
    using inv that ns by (auto simp: obey_inv_def) (metis imageI)
  ultimately show ?thesis
    using inv unfolding obey_inv_def by (auto simp: list_all_upd nth_list_update)
qed

lemma pf_dl_obeys:
  assumes qsort: "dl_qsort_perm E" and start: "list_all (dl_unplanned E) (dm_ues mac)"
    and run: "pf_dl E C stat file f s d rbs mac = Inr mac'"
  shows "length (dm_ues mac') = length (dm_ues mac) \<and>
    list_all (\<lambda>ue. dl_unplanned E ue \<or> dl_obeys (dm_assoc mac)
      (g_rk_ue_dl_tbl (rk_ue_dl_reload_if_needed False stat file (dm_dl mac))) ue) (dm_ues mac')"
proof -
  let ?len = "length (dm_ues mac)"
  define m0 where "m0 = mac\<lparr>dm_dl := rk_ue_dl_reload_if_needed False stat file (dm_dl mac)\<rparr>"
  have m0: "dm_ues m0 = dm_ues mac" by (simp add: m0_def)
  define st0 where "st0 = \<lparr>ds_mac = m0, ds_remainUEs = (\<lambda>_. d), ds_n_rb_sched = rbs, ds_UE_sched = []\<rparr>"
  define st1 where "st1 = fold (pf_dl_ue E C f s) [0..<?len] st0"
  obtain st2 where st2: "fold_res (pf_dl_grant E C f s) (de_qsort E dl_comparator (ds_UE_sched st1)) st1 = Inr st2"
    "mac' = ds_mac st2"
    using run unfolding pf_dl_def Let_def m0_def [symmetric] st0_def [symmetric] m0 st1_def [symmetric]
    by (auto split: sum.splits)
  have one: "first_plan E m0 ?len st1" unfolding st1_def
  proof (rule fold_upt_inv [where P = "first_plan E m0"])
    show "first_plan E m0 0 st0" using start by (simp add: first_plan_def st0_def m0)
    show "first_plan E m0 (i + 1) (pf_dl_ue E C f s i st)" if "i < ?len" "first_plan E m0 i st" for i st
      using first_plan_step [OF that(2)] that(1) m0 by simp
  qed
  let ?cs = "de_qsort E dl_comparator (ds_UE_sched st1)"
  have mset: "mset ?cs = mset (ds_UE_sched st1)" using qsort by (simp add: dl_qsort_perm_def)
  then have "mset (map us_UE ?cs) = mset (map us_UE (ds_UE_sched st1))" by simp
  then have "distinct (map us_UE ?cs)" using one mset_eq_imp_distinct_iff by (fastforce simp: first_plan_def)
  moreover have "set ?cs = set (ds_UE_sched st1)" using mset by (metis set_mset_mset)
  ultimately have "obey_inv E m0 ?cs (ds_mac st1)"
    using one m0 unfolding obey_inv_def first_plan_def by (auto simp: list_all_iff)
  then have "obey_inv E m0 [] (ds_mac st2)"
    by (rule fold_res_rest [where J = "\<lambda>cs st. obey_inv E m0 cs (ds_mac st)", OF st2(1)]) (rule obey_step)
  then show ?thesis by (simp add: obey_inv_def m0_def st2(2))
qed

lemma preprocessor_obeys:
  assumes "dl_qsort_perm E" and "list_all (\<lambda>ue. pd_rbSize (d_sched_pdsch ue) \<le> 0) (dm_ues mac)"
    and run: "nr_dlsch_preprocessor E C stat file f s mac = Inr mac'"
  shows "list_all (\<lambda>ue. dl_unplanned E ue \<or> dl_obeys (dm_assoc mac)
      (g_rk_ue_dl_tbl (rk_ue_dl_reload_if_needed False stat file (dm_dl mac))) ue) (dm_ues mac')"
proof (cases "dm_ues mac = []")
  case True
  then show ?thesis using run by (simp add: nr_dlsch_preprocessor_def)
next
  case False
  let ?m = "nr_store_dlsch_buffer E f mac"
  have m: "dm_dl ?m = dm_dl mac" "dm_assoc ?m = dm_assoc mac"
    "dm_ues ?m = map (dl_store_ue E (dm_rest mac) f) (dm_ues mac)"
    by (simp_all add: nr_store_dlsch_buffer_def)
  have "list_all (dl_unplanned E) (dm_ues ?m)"
    using assms(2) by (simp add: m list_all_iff dl_unplanned_def dl_store_keeps)
  moreover obtain d where "pf_dl E C stat file f s d (\<lambda>_. dcfg_bw C) ?m = Inr mac'"
    using run False by (auto simp: nr_dlsch_preprocessor_def Let_def)
  ultimately show ?thesis using pf_dl_obeys [OF assms(1)] by (fastforce simp: m)
qed

end
