(* ===== verification/FrameTime.thy ===== *)
theory FrameTime imports Prelude "HOL-Library.Signed_Division" begin

text \<open>
  Frame and slot arithmetic of \<^verbatim>\<open>gnb_patch/gNB_scheduler_ulsch.c\<close>: the system frame number wraps
  after \<^verbatim>\<open>MAX_FRAME_NUMBER\<close> frames (a macro of OpenAirInterface, the parameter \<open>maxf\<close>; the code
  itself writes 1024 and 512 in \<^verbatim>\<open>fs_get_diff\<close>).  \<open>n\<close> is \<^verbatim>\<open>fs->numb_slots_frame\<close>.
  The theory ends with the test whether a UE is due for an uplink grant.
\<close>

section \<open>Operations\<close>

record fsn_t =
  fs_f :: int
  fs_s :: int

text \<open>\<open>delta\<close> is unsigned, so the sums are computed modulo \<open>2 ^ 32\<close>.\<close>

definition fs_add_delta :: "int \<Rightarrow> int \<Rightarrow> int \<Rightarrow> fsn_t \<Rightarrow> fsn_t" where
  "fs_add_delta maxf n delta fsn =
     (let sd = (fs_s fsn + delta) mod 2 ^ 32
      in \<lparr>fs_f = ((fs_f fsn + sd div n) mod 2 ^ 32) mod maxf, fs_s = sd mod n\<rparr>)"

definition fs_get_diff :: "int \<Rightarrow> fsn_t \<Rightarrow> fsn_t \<Rightarrow> int" where
  "fs_get_diff n a b =
     (let diff = (fs_f a * n + fs_s a) - (fs_f b * n + fs_s b)
      in if diff < - 512 * n then diff + 1024 * n
         else if 512 * n < diff then diff - 1024 * n else diff)"

definition fs_get_max :: "int \<Rightarrow> fsn_t \<Rightarrow> fsn_t \<Rightarrow> fsn_t" where
  "fs_get_max n a b = (if fs_get_diff n a b \<le> 0 then b else a)"

section \<open>Ticks\<close>

text \<open>The absolute slot number within one period of 1024 frames.\<close>

definition fs_ok :: "int \<Rightarrow> fsn_t \<Rightarrow> bool" where
  "fs_ok n a \<longleftrightarrow> 0 \<le> fs_f a \<and> fs_f a < 1024 \<and> 0 \<le> fs_s a \<and> fs_s a < n"

definition tick :: "int \<Rightarrow> fsn_t \<Rightarrow> int" where
  "tick n a = fs_f a * n + fs_s a"

lemma tick_bounds: "fs_ok n a \<Longrightarrow> 0 \<le> tick n a \<and> tick n a < 1024 * n"
proof -
  assume a: "fs_ok n a"
  have "fs_f a * n \<le> 1023 * n" using a by (intro mult_right_mono) (simp_all add: fs_ok_def)
  moreover have "0 \<le> fs_f a * n" using a by (auto simp: fs_ok_def)
  ultimately show ?thesis using a unfolding fs_ok_def tick_def by (intro conjI) linarith+
qed

lemma tick_inj: "fs_ok n a \<Longrightarrow> fs_ok n b \<Longrightarrow> tick n a = tick n b \<Longrightarrow> a = b"
proof -
  assume a: "fs_ok n a" and b: "fs_ok n b" and t: "tick n a = tick n b"
  have "fs_f x = tick n x div n \<and> fs_s x = tick n x mod n" if "fs_ok n x" for x
    using that by (simp add: fs_ok_def tick_def)
  then show ?thesis using a b t by (metis fsn_t.equality unit.exhaust)
qed

lemma frame_mod:
  assumes "0 < n" and "0 \<le> r" and "r < n"
  shows "(F * n + r) mod (1024 * n) = (F mod 1024) * n + (r :: int)"
proof -
  obtain q m where F: "F = 1024 * q + m" "0 \<le> m" "m < 1024"
    using div_mult_mod_eq [of F 1024] pos_mod_bound [of 1024 F] pos_mod_sign [of 1024 F]
    by (metis mult.commute zero_less_numeral)
  have "m * n \<le> 1023 * n" using F assms(1) by (intro mult_right_mono) auto
  then have "m * n + r < 1024 * n" using assms(3) by linarith
  moreover have "0 \<le> m * n" using F assms(1) by simp
  moreover have "F * n + r = (m * n + r) + q * (1024 * n)" by (simp add: F(1) algebra_simps)
  then have "(F * n + r) mod (1024 * n) = (m * n + r) mod (1024 * n)" by (simp only: mod_mult_self1)
  ultimately show ?thesis using F assms(2) by simp
qed

lemma add_delta_eq:
  assumes a: "fs_ok n a" and d: "0 \<le> d" "d + n \<le> 2 ^ 31"
  shows "fs_add_delta 1024 n d a = \<lparr>fs_f = (fs_f a + (fs_s a + d) div n) mod 1024, fs_s = (fs_s a + d) mod n\<rparr>"
proof -
  have n: "0 < n" using a by (auto simp: fs_ok_def)
  let ?sd = "fs_s a + d"
  have sd: "?sd mod 2 ^ 32 = ?sd" using a d by (simp add: fs_ok_def)
  have "?sd div n \<le> ?sd" using a d n zdiv_mono2 [of ?sd 1 n] by (simp add: fs_ok_def)
  then have f: "(fs_f a + ?sd div n) mod 2 ^ 32 = fs_f a + ?sd div n"
    using a d n by (intro mod_pos_pos_trivial) (auto simp: fs_ok_def pos_imp_zdiv_nonneg_iff)
  show ?thesis unfolding fs_add_delta_def Let_def sd f ..
qed

lemma add_delta_ok_tick:
  assumes a: "fs_ok n a" and d: "0 \<le> d" "d + n \<le> 2 ^ 31"
  shows "fs_ok n (fs_add_delta 1024 n d a)"
    and "tick n (fs_add_delta 1024 n d a) = (tick n a + d) mod (1024 * n)"
proof -
  have n: "0 < n" using a by (auto simp: fs_ok_def)
  let ?sd = "fs_s a + d"
  let ?F = "fs_f a + ?sd div n"
  note eq = add_delta_eq [OF a d]
  show "fs_ok n (fs_add_delta 1024 n d a)" using n by (simp add: eq fs_ok_def)
  have "tick n a + d = ?F * n + ?sd mod n" by (simp add: tick_def algebra_simps)
  moreover have "(?F * n + ?sd mod n) mod (1024 * n) = (?F mod 1024) * n + ?sd mod n"
    using n by (intro frame_mod) simp_all
  ultimately show "tick n (fs_add_delta 1024 n d a) = (tick n a + d) mod (1024 * n)"
    by (simp only: eq) (simp only: tick_def [of n "\<lparr>fs_f = ?F mod 1024, fs_s = ?sd mod n\<rparr>"] fsn_t.simps)
qed

lemma get_diff_tick: "fs_get_diff n a b = (let d = tick n a - tick n b in
    if d < - 512 * n then d + 1024 * n else if 512 * n < d then d - 1024 * n else d)"
  by (simp add: fs_get_diff_def tick_def)

section \<open>Whether a UE is due\<close>

record ue_due =
  due_last_ul_frame :: int
  due_last_ul_slot :: int
  due_estimated_ul_buffer :: int
  due_sched_ul_bytes :: int
  due_SR :: bool

record frame_structure_t =
  numb_slots_frame :: int
  numb_slots_period :: int
  is_tdd :: bool

text \<open>
  \<open>first_ul_slot\<close> is \<^verbatim>\<open>get_first_ul_slot(fs, false)\<close>, a function of another file.  The inactivity
  is unsigned, so its product with the slots per frame is reduced modulo \<open>2 ^ 32\<close>.
\<close>

definition nr_UE_is_to_be_scheduled ::
    "int \<Rightarrow> frame_structure_t \<Rightarrow> ue_due \<Rightarrow> int \<Rightarrow> int \<Rightarrow> int \<Rightarrow> bool" where
  "nr_UE_is_to_be_scheduled first_ul_slot fs ue frame slot ulsch_max_frame_inactivity =
     (let n = numb_slots_frame fs;
          now = frame * n + slot;
          num_slots_per_period = numb_slots_period fs;
          last_ul_slot = (if is_tdd fs then first_ul_slot else due_last_ul_slot ue);
          last_ul_sched = due_last_ul_frame ue * n + last_ul_slot;
          diff = (now - last_ul_sched + 1024 * n) smod (1024 * n);
          has_data = due_sched_ul_bytes ue < due_estimated_ul_buffer ue;
          limit = (if 0 < ulsch_max_frame_inactivity then (ulsch_max_frame_inactivity * n) mod 2 ^ 32
                   else num_slots_per_period);
          high_inactivity = limit \<le> diff mod 2 ^ 32
      in has_data \<or> due_SR ue \<or> high_inactivity)"

section \<open>Properties\<close>

text \<open>
  Frame arithmetic is exact modulo the period of 1024 frames: adding a delta to a valid time
  gives a valid time whose slot number is the sum modulo the period, and subtracting the original
  time gives the delta back for every delta of less than half a period.
\<close>

lemma fs_add_diff:
  assumes "fs_ok n a" and "0 \<le> d" and "d < 512 * n" and "n \<le> 160"
  shows "fs_ok n (fs_add_delta 1024 n d a) \<and>
    tick n (fs_add_delta 1024 n d a) = (tick n a + d) mod (1024 * n) \<and>
    fs_get_diff n (fs_add_delta 1024 n d a) a = d"
proof -
  have n: "0 < n" using assms(1) by (auto simp: fs_ok_def)
  have d: "d + n \<le> 2 ^ 31" using assms by simp
  note t = add_delta_ok_tick [OF assms(1,2) d]
  have b: "0 \<le> tick n a" "tick n a < 1024 * n" using tick_bounds [OF assms(1)] by auto
  have "(tick n a + d) mod (1024 * n) = (if tick n a + d < 1024 * n then tick n a + d else tick n a + d - 1024 * n)"
  proof (cases "tick n a + d < 1024 * n")
    case False
    then have "(tick n a + d) mod (1024 * n) = (tick n a + d - 1024 * n) mod (1024 * n)"
      by (simp add: mod_diff_right_eq [symmetric])
    also have "\<dots> = tick n a + d - 1024 * n" using False b assms(2,3) n by (intro mod_pos_pos_trivial) auto
    finally show ?thesis using False by simp
  qed (use b assms(2) in simp)
  then have "fs_get_diff n (fs_add_delta 1024 n d a) a = d"
    using assms(2,3) n by (auto simp: get_diff_tick t Let_def)
  with t show ?thesis by simp
qed

text \<open>
  \<^verbatim>\<open>fs_get_diff\<close> is the signed distance on the circle of slots, and \<^verbatim>\<open>fs_get_max\<close> picks the argument
  that is not behind the other.
\<close>

lemma fs_diff_circle:
  assumes "fs_ok n a" and "fs_ok n b"
  shows "(fs_get_diff n a b - (tick n a - tick n b)) mod (1024 * n) = 0 \<and>
    \<bar>fs_get_diff n a b\<bar> \<le> 512 * n \<and> (fs_get_diff n a b = 0 \<longleftrightarrow> a = b) \<and>
    fs_get_diff n b a = - fs_get_diff n a b \<and>
    0 \<le> fs_get_diff n (fs_get_max n a b) a \<and> 0 \<le> fs_get_diff n (fs_get_max n a b) b"
proof -
  have n: "0 < n" using assms(1) by (auto simp: fs_ok_def)
  have b: "0 \<le> tick n a" "tick n a < 1024 * n" "0 \<le> tick n b" "tick n b < 1024 * n"
    using tick_bounds [OF assms(1)] tick_bounds [OF assms(2)] by auto
  have anti: "fs_get_diff n b a = - fs_get_diff n a b" using n by (auto simp: get_diff_tick Let_def)
  have zero: "fs_get_diff n x x = 0" for x using n by (simp add: get_diff_tick)
  have "fs_get_diff n a b = 0 \<longleftrightarrow> tick n a = tick n b" using b by (auto simp: get_diff_tick Let_def)
  moreover have "\<bar>fs_get_diff n a b\<bar> \<le> 512 * n" using b by (auto simp: get_diff_tick Let_def)
  moreover have "(fs_get_diff n a b - (tick n a - tick n b)) mod (1024 * n) = 0"
    by (auto simp: get_diff_tick Let_def)
  moreover have "0 \<le> fs_get_diff n (fs_get_max n a b) a \<and> 0 \<le> fs_get_diff n (fs_get_max n a b) b"
    using anti zero by (auto simp: fs_get_max_def)
  ultimately show ?thesis using anti tick_inj [OF assms] by auto
qed



end
