(* ===== verification/UlSched.thy ===== *)
theory UlSched imports UlGrant FrameTime begin

text \<open>
  The uplink scheduler of \<^verbatim>\<open>gnb_patch/gNB_scheduler_ulsch.c\<close>: \<^verbatim>\<open>allocate_ul_retransmission\<close>,
  \<^verbatim>\<open>post_process_ulsch\<close> and the proportional fair pass \<^verbatim>\<open>pf_ul\<close> over the connected UEs, with every
  change of UE, resource map, slice counters and FAPI request.
  The state \<open>ul_mac\<close> keeps the connected UEs, the maps of used resource blocks per beam, the tables of
  the slice and link adaptation policies and the PUSCH requests of future slots; the rest of the MAC
  (beams, PDCCH occupancy, DCIs) is the opaque component \<open>m_rest\<close>, which only the functions of other
  files in \<open>ul_env\<close> read and change.
\<close>

section \<open>State\<close>

record ul_pdu =
  pdu_rnti :: u16
  pdu_harq_id :: int
  pdu_round :: int
  pdu_sched :: NR_sched_pusch_t

record ('q, 'x) ul_mac =
  m_ues :: "'q ul_ue list"
  m_vrb_map_UL :: "int \<Rightarrow> prb_map"
  m_assoc :: assoc_table
  m_runtime :: runtime_table
  m_la :: la_state
  m_ul_req :: "int \<Rightarrow> ul_pdu list"
  m_rest :: 'x

record ul_cfg =
  cfg_fs :: frame_structure_t
  cfg_first_ul_slot :: int
  cfg_min_grant_prb :: int
  cfg_max_frame_inactivity :: int
  cfg_harq_round_max :: int
  cfg_bler_max_mcs :: int
  cfg_disable_harq :: bool
  cfg_MAX_BWP_SIZE :: int
  cfg_max_pdus :: nat

text \<open>
  Functions of other files.  A beam allocation returns the index (negative for none) and whether the
  beam is new; \<open>get_mcs_from_bler\<close> also returns the MCS it stores for the UE; the two buffer
  indices are \<^verbatim>\<open>ul_buffer_index\<close> for the sizes of the resource map and of the request ring; \<open>emit_dci\<close>
  stands for the construction of the PDCCH and DCI of a grant (\<^verbatim>\<open>emit_uldci\<close> of UlDci).
\<close>

record ('q, 'x) ul_env =
  e_lib :: ul_lib
  e_lists :: "'q nr_list_ops"
  e_qsort :: "(ul_UEsched_t \<Rightarrow> ul_UEsched_t \<Rightarrow> int) \<Rightarrow> ul_UEsched_t list \<Rightarrow> ul_UEsched_t list"
  beam_allocation_procedure :: "'x \<Rightarrow> int \<Rightarrow> int \<Rightarrow> int \<Rightarrow> 'x \<times> int \<times> bool"
  reset_beam_status :: "'x \<Rightarrow> int \<Rightarrow> int \<Rightarrow> int \<Rightarrow> bool \<Rightarrow> 'x"
  get_cce_index :: "'x \<Rightarrow> u16 \<Rightarrow> int \<Rightarrow> int \<Rightarrow> 'x \<times> int"
  fill_pdcch_vrb_map :: "'x \<Rightarrow> u16 \<Rightarrow> int \<Rightarrow> int \<Rightarrow> 'x"
  get_mcs_from_bler :: "'x \<Rightarrow> 'q ul_ue \<Rightarrow> int \<Rightarrow> int \<Rightarrow> 'x \<times> int \<times> int"
  get_ul_nrOfLayers :: "'q ul_ue \<Rightarrow> int"
  vrb_buffer_index :: "int \<Rightarrow> int \<Rightarrow> int"
  req_buffer_index :: "int \<Rightarrow> int \<Rightarrow> int"
  is_ul_slot :: "int \<Rightarrow> bool"
  emit_dci :: "'x \<Rightarrow> 'q ul_ue \<Rightarrow> NR_sched_pusch_t \<Rightarrow> int \<Rightarrow> 'x"

datatype ul_error =
  HarqError harq_error | PowerError ph_error | PfTbsIndex | BadHarqPid | TooManyPdus | BadCount | BadTda | NotUlSlot

text \<open>Where and when a pass schedules: the current slot and the slot and TDA of the PUSCH.\<close>

record ul_pass =
  p_frame :: int
  p_slot :: int
  p_tda :: int
  p_tda_info :: NR_tda_info_t
  p_num_beams :: nat

definition pass_time :: "('q, 'x) ul_env \<Rightarrow> ul_cfg \<Rightarrow> ul_pass \<Rightarrow> int \<times> int" where
  "pass_time E C p = pusch_time (e_lib E) (numb_slots_frame (cfg_fs C)) (p_frame p) (p_slot p) (p_tda_info p)"

section \<open>Access to the state\<close>

definition upd_ue :: "nat \<Rightarrow> 'q ul_ue \<Rightarrow> ('q, 'x) ul_mac \<Rightarrow> ('q, 'x) ul_mac" where
  "upd_ue i ue mac = mac\<lparr>m_ues := (m_ues mac)[i := ue]\<rparr>"

text \<open>\<^verbatim>\<open>rballoc_mask\<close>: the map of a beam from the slot's offset on.\<close>

definition vrb_base :: "('q, 'x) ul_env \<Rightarrow> ul_cfg \<Rightarrow> ul_pass \<Rightarrow> int" where
  "vrb_base E C p = (let (f, s) = pass_time E C p in vrb_buffer_index E f s * cfg_MAX_BWP_SIZE C)"

definition rballoc_mask :: "('q, 'x) ul_env \<Rightarrow> ul_cfg \<Rightarrow> ul_pass \<Rightarrow> ('q, 'x) ul_mac \<Rightarrow> int \<Rightarrow> prb_map" where
  "rballoc_mask E C p mac beam = (\<lambda>rb. m_vrb_map_UL mac beam (vrb_base E C p + rb))"

definition mark_grant ::
    "('q, 'x) ul_env \<Rightarrow> ul_cfg \<Rightarrow> ul_pass \<Rightarrow> int \<Rightarrow> NR_sched_pusch_t \<Rightarrow> u16 \<Rightarrow> ('q, 'x) ul_mac \<Rightarrow> ('q, 'x) ul_mac" where
  "mark_grant E C p beam sched bits mac =
     mac\<lparr>m_vrb_map_UL := (m_vrb_map_UL mac)(beam :=
       mark_rbs bits (bwpStart (bwp_info sched)) (sp_rbSize sched) (vrb_base E C p + sp_rbStart sched)
         (m_vrb_map_UL mac beam))\<rparr>"

definition grant_bits :: "('q, 'x) ul_env \<Rightarrow> NR_tda_info_t \<Rightarrow> u16" where
  "grant_bits E ti = SL_to_bitmap (e_lib E) (startSymbolIndex ti) (nrOfSymbols ti)"

text \<open>Reset the beams of a UE that is skipped: that of the PUSCH, that of the DCI.\<close>

definition reset_pusch_beam where
  "reset_pusch_beam E C p ue new_beam mac =
     (let (f, s) = pass_time E C p
      in mac\<lparr>m_rest := reset_beam_status E (m_rest mac) f s (u_beam_index ue) new_beam\<rparr>)"

definition reset_dci_beam where
  "reset_dci_beam E p ue new_beam mac =
     mac\<lparr>m_rest := reset_beam_status E (m_rest mac) (p_frame p) (p_slot p) (u_beam_index ue) new_beam\<rparr>"

section \<open>Committing a grant\<close>

text \<open>\<^verbatim>\<open>post_process_ulsch\<close>.\<close>

definition post_process_ulsch ::
    "('q, 'x) ul_env \<Rightarrow> ul_cfg \<Rightarrow> nat \<Rightarrow> NR_sched_pusch_t \<Rightarrow> ('q, 'x) ul_mac \<Rightarrow> ul_error + ('q, 'x) ul_mac"
where
  "post_process_ulsch E C i sched mac =
     (let ue = (m_ues mac ! i)\<lparr>u_SR := False\<rparr> in
      case ul_harq_grant (e_lists E) (cfg_disable_harq C) (cfg_harq_round_max C) (u_ctrl ue) sched of
        Inl e \<Rightarrow> Inl (HarqError e)
      | Inr (ctrl, sched) \<Rightarrow>
          let harq_id = to_i8 (ul_harq_pid sched);
              r = round (harq_processes ctrl harq_id);
              ue = ue\<lparr>u_ctrl := ctrl, u_rounds := (u_rounds ue)(r := u_rounds ue r + 1)\<rparr>;
              ue = (if r = 0
                    then ue\<lparr>u_total_bytes_scheduled := u_total_bytes_scheduled ue + sp_tb_size sched,
                            u_total_rbs := u_total_rbs ue + sp_rbSize sched\<rparr>
                    else ue\<lparr>u_total_rbs_retx := u_total_rbs_retx ue + sp_rbSize sched\<rparr>);
              ue = ue\<lparr>u_current_bytes := to_u32 (sp_tb_size sched), u_current_rbs := sp_rbSize sched,
                      u_last_ul_frame := sp_frame sched, u_last_ul_slot := sp_slot sched\<rparr>;
              idx = req_buffer_index E (sp_frame sched) (sp_slot sched);
              pdu = \<lparr>pdu_rnti = u_rnti ue, pdu_harq_id = harq_id, pdu_round = r, pdu_sched = sched\<rparr>
          in if cfg_max_pdus C \<le> length (m_ul_req mac idx) then Inl TooManyPdus
             else Inr (mac\<lparr>
               m_ues := (m_ues mac)[i := ue\<lparr>u_tpc0 := 1\<rparr>],
               m_runtime := rk_slice_runtime_note_ul_grant (m_runtime mac) (u_rnti ue)
                 (sp_frame sched * numb_slots_frame (cfg_fs C) + sp_slot sched),
               m_ul_req := (m_ul_req mac)(idx := m_ul_req mac idx @ [pdu]),
               m_rest := emit_dci E (m_rest mac) ue sched harq_id\<rparr>))"

section \<open>Retransmissions\<close>

text \<open>\<^verbatim>\<open>allocate_ul_retransmission\<close>; the first result tells whether it was granted.\<close>

definition allocate_ul_retransmission ::
    "('q, 'x) ul_env \<Rightarrow> ul_cfg \<Rightarrow> ul_pass \<Rightarrow> int \<Rightarrow> int \<Rightarrow> nat \<Rightarrow> int \<Rightarrow> ('q, 'x) ul_mac \<Rightarrow>
     ul_error + (bool \<times> ('q, 'x) ul_mac)" where
  "allocate_ul_retransmission E C p beam dci_beam i harq_pid mac =
     (let ue = m_ues mac ! i in
      case ul_retx_alloc (e_lib E) (rballoc_mask E C p mac beam) ue (numb_slots_frame (cfg_fs C))
             (p_frame p) (p_slot p) harq_pid (p_tda p) (p_tda_info p) of
        Inl e \<Rightarrow> Inl (HarqError e)
      | Inr None \<Rightarrow> Inr (False, mac)
      | Inr (Some new_sched) \<Rightarrow>
          let (x, CCEIndex) = get_cce_index E (m_rest mac) (u_rnti ue) (p_slot p) dci_beam;
              mac = mac\<lparr>m_rest := x\<rparr>
          in if CCEIndex < 0 then Inr (False, upd_ue i (ue\<lparr>u_ul_cce_fail := u_ul_cce_fail ue + 1\<rparr>) mac)
             else
               let mac = upd_ue i (ue\<lparr>u_cce_index := CCEIndex\<rparr>) mac;
                   mac = mac\<lparr>m_rest := fill_pdcch_vrb_map E (m_rest mac) (u_rnti ue) CCEIndex dci_beam\<rparr>
               in case post_process_ulsch E C i new_sched mac of
                    Inl e \<Rightarrow> Inl e
                  | Inr mac \<Rightarrow>
                      Inr (True, mark_grant E C p beam new_sched (grant_bits E (tda_info new_sched)) mac))"

section \<open>The candidates of a pass\<close>

text \<open>
  The local variables of \<^verbatim>\<open>pf_ul\<close> with the MAC: the grants left per beam, the resource blocks left per
  beam, the array of candidates, and whether anything was scheduled.
\<close>

record ('q, 'x) pf_state =
  s_mac :: "('q, 'x) ul_mac"
  remainUEs :: "int \<Rightarrow> int"
  n_rb_sched :: "int \<Rightarrow> int"
  UE_sched :: "ul_UEsched_t list"
  scheduled_something :: bool

definition total_rem_ues :: "ul_pass \<Rightarrow> ('q, 'x) pf_state \<Rightarrow> int" where
  "total_rem_ues p st = (\<Sum>b \<leftarrow> [0..<p_num_beams p]. remainUEs st (int b))"

text \<open>The table \<^verbatim>\<open>ul_pf_tbs\<close> of \<^verbatim>\<open>nr_init_ulsch_preprocessor\<close>; \<open>None\<close> is an index out of its bounds.\<close>

definition ul_pf_tbs :: "phy_lib \<Rightarrow> int \<Rightarrow> int \<Rightarrow> u32 option" where
  "ul_pf_tbs L mcsTableIdx mcs =
     (if 0 \<le> mcsTableIdx \<and> mcsTableIdx < 5 \<and> 0 \<le> mcs \<and> mcs < 29
      then if 27 < mcs \<and> (mcsTableIdx = 1 \<or> mcsTableIdx = 3 \<or> mcsTableIdx = 4) then Some 0
           else Some (to_u32 (nr_compute_tbs L (uint (nr_get_Qm_ul L mcs mcsTableIdx))
                  (uint (nr_get_code_rate_ul L mcs mcsTableIdx)) 1 10 0 1 div 8))
      else None)"

definition ue_due_of :: "'q ul_ue \<Rightarrow> ue_due" where
  "ue_due_of ue = \<lparr>due_last_ul_frame = u_last_ul_frame ue, due_last_ul_slot = u_last_ul_slot ue,
     due_estimated_ul_buffer = u_estimated_ul_buffer ue,
     due_sched_ul_bytes = sched_ul_bytes (u_ctrl ue), due_SR = u_SR ue\<rparr>"

text \<open>The coefficient of a candidate, with the multipliers of its slice and of its own policy.\<close>

definition ul_coefficient :: "('q, 'x) ul_mac \<Rightarrow> 'q ul_ue \<Rightarrow> u32 \<Rightarrow> int \<Rightarrow> fl" where
  "ul_coefficient mac ue tbs now_tick =
     (let t = g_tbl (m_la mac); rnti = u_rnti ue; B = pending_bytes ue;
          pol = rk_slice_policy_get (rk_slice_assoc_get_ul_id (m_assoc mac) rnti);
          eff_maxcg = rk_ue_la_get_ul_maxcg_override t rnti (-1);
          maxcg = (if 0 < eff_maxcg then eff_maxcg else ul_max_consecutive_grants pol);
          throttled = rk_slice_runtime_ul_should_throttle (m_runtime mac) rnti now_tick maxcg
      in final_coeff (coeff_of tbs (u_ul_thr_ue ue)) (ul_weight_mul pol)
           (small_burst_hit (rk_ue_la_get_ul_small_burst_bytes t rnti 0) B)
           (rk_ue_la_get_ul_small_burst_mul t rnti (f32 1)) throttled
           (rk_ue_la_get_ul_sched_mul t rnti (f32 1)))"

text \<open>A UE with a free HARQ process: it becomes a candidate if it has data or is due.\<close>

definition ul_new_candidate ::
    "('q, 'x) ul_env \<Rightarrow> ul_cfg \<Rightarrow> ul_pass \<Rightarrow> bool \<Rightarrow> bool \<Rightarrow> nat \<Rightarrow> ('q, 'x) pf_state \<Rightarrow> ul_error + ('q, 'x) pf_state"
where
  "ul_new_candidate E C p dci_new new_beam i st =
     (let mac = s_mac st; ue = m_ues mac ! i; t = g_tbl (m_la mac); rnti = u_rnti ue;
          (sched_frame, sched_slot) = pass_time E C p;
          B = pending_bytes ue;
          do_sched = nr_UE_is_to_be_scheduled (cfg_first_ul_slot C) (cfg_fs C) (ue_due_of ue) sched_frame sched_slot
            (rk_ue_la_get_ulsch_max_frame_inactivity t rnti (cfg_max_frame_inactivity C))
      in if (B = 0 \<and> \<not> do_sched) \<or> u_transm_interrupt ue
         then Inr (st\<lparr>s_mac := reset_dci_beam E p ue dci_new (reset_pusch_beam E C p ue new_beam mac)\<rparr>)
         else
           let mcs_table = ul_mcs_table (u_bwp ue);
               max_mcs = rk_ue_la_get_ul_max_mcs t rnti (cfg_bler_max_mcs C)
                 (if mcs_table = 0 \<or> mcs_table = 2 then 28 else 27);
               (x, bler_mcs, mcs) =
                 (if cfg_harq_round_max C = 1 then (m_rest mac, max_mcs, max_mcs)
                  else get_mcs_from_bler E (m_rest mac) ue max_mcs (p_frame p));
               ue = ue\<lparr>u_bler_mcs := bler_mcs\<rparr>;
               mac = upd_ue i ue (mac\<lparr>m_rest := x\<rparr>)
           in case ul_pf_tbs (ul_phy (e_lib E)) mcs_table mcs of
                None \<Rightarrow> Inl PfTbsIndex
              | Some tbs \<Rightarrow>
                  let c = \<lparr>coef = ul_coefficient mac ue tbs
                              (sched_frame * numb_slots_frame (cfg_fs C) + sched_slot),
                           us_UE = i, sched_inactive = (B = 0 \<and> do_sched), selected_mcs = mcs\<rparr>
                  in Inr (st\<lparr>s_mac := mac, UE_sched := UE_sched st @ [c]\<rparr>))"

text \<open>The body of the loop over the connected UEs.\<close>

definition pf_ul_ue ::
    "('q, 'x) ul_env \<Rightarrow> ul_cfg \<Rightarrow> ul_pass \<Rightarrow> nat \<Rightarrow> ('q, 'x) pf_state \<Rightarrow> ul_error + ('q, 'x) pf_state" where
  "pf_ul_ue E C p i st =
     (let ue = m_ues (s_mac st) ! i in
      if u_ul_failure ue then Inr st
      else
        let ue = ue\<lparr>u_ul_thr_ue := update_thr (u_ul_thr_ue ue) (u_current_bytes ue),
                    u_current_bytes := 0, u_current_rbs := 0\<rparr>;
            mac = upd_ue i ue (s_mac st);
            st = st\<lparr>s_mac := mac\<rparr>
        in if total_rem_ues p st = 0 then Inr st
           else
             let (x, dci_beam, dci_new) =
                   beam_allocation_procedure E (m_rest mac) (p_frame p) (p_slot p) (u_beam_index ue);
                 mac = mac\<lparr>m_rest := x\<rparr>
             in if dci_beam < 0 then Inr (st\<lparr>s_mac := mac\<rparr>)
                else
                  let (f, s) = pass_time E C p;
                      (x, beam, new_beam) = beam_allocation_procedure E (m_rest mac) f s (u_beam_index ue);
                      mac = mac\<lparr>m_rest := x\<rparr>
                  in if beam < 0 then Inr (st\<lparr>s_mac := reset_dci_beam E p ue dci_new mac\<rparr>)
                     else
                       let pid = nl_head (e_lists E) (retrans_harq (u_ctrl ue)) in
                       if 0 \<le> pid then
                         (case allocate_ul_retransmission E C p beam dci_beam i pid mac of
                            Inl e \<Rightarrow> Inl e
                          | Inr (False, mac) \<Rightarrow>
                              Inr (st\<lparr>s_mac := reset_dci_beam E p ue dci_new (reset_pusch_beam E C p ue new_beam mac)\<rparr>)
                          | Inr (True, mac) \<Rightarrow>
                              Inr (st\<lparr>s_mac := mac, remainUEs := (remainUEs st)(beam := remainUEs st beam - 1),
                                      scheduled_something := True\<rparr>))
                       else if pid \<noteq> -1 then Inl BadHarqPid
                       else if nl_head (e_lists E) (available_harq (u_ctrl ue)) < 0
                       then Inr (st\<lparr>s_mac := reset_dci_beam E p ue dci_new (reset_pusch_beam E C p ue new_beam mac)\<rparr>)
                       else ul_new_candidate E C p dci_new new_beam i (st\<lparr>s_mac := mac\<rparr>))"

section \<open>Granting the candidates\<close>

text \<open>The body of the loop over the sorted candidates.\<close>

definition pf_ul_grant ::
    "('q, 'x) ul_env \<Rightarrow> ul_cfg \<Rightarrow> ul_pass \<Rightarrow> ul_UEsched_t \<Rightarrow> ('q, 'x) pf_state \<Rightarrow> ul_error + ('q, 'x) pf_state" where
  "pf_ul_grant E C p cand st =
     (let mac = s_mac st; i = us_UE cand; ue = m_ues mac ! i;
          eff_min_rb = rk_ue_la_get_min_grant_prb (g_tbl (m_la mac)) (u_rnti ue) (cfg_min_grant_prb C);
          (f, s) = pass_time E C p;
          (x, beam, new_beam) = beam_allocation_procedure E (m_rest mac) f s (u_beam_index ue);
          mac = mac\<lparr>m_rest := x\<rparr>
      in if beam < 0 then Inr (st\<lparr>s_mac := mac\<rparr>)
         else if remainUEs st beam = 0 \<or> n_rb_sched st beam < eff_min_rb
         then Inr (st\<lparr>s_mac := reset_pusch_beam E C p ue new_beam mac\<rparr>)
         else
           let (x, dci_beam, dci_new) =
                 beam_allocation_procedure E (m_rest mac) (p_frame p) (p_slot p) (u_beam_index ue);
               mac = mac\<lparr>m_rest := x\<rparr>
           in if dci_beam < 0 then Inr (st\<lparr>s_mac := reset_pusch_beam E C p ue new_beam mac\<rparr>)
              else
                let (x, CCEIndex) = get_cce_index E (m_rest mac) (u_rnti ue) (p_slot p) dci_beam;
                    mac = mac\<lparr>m_rest := x\<rparr>
                in if CCEIndex < 0
                   then Inr (st\<lparr>s_mac := reset_pusch_beam E C p ue new_beam (reset_dci_beam E p ue dci_new
                          (upd_ue i (ue\<lparr>u_ul_cce_fail := u_ul_cce_fail ue + 1\<rparr>) mac))\<rparr>)
                   else
                     let bits = grant_bits E (p_tda_info p) in
                     (case ul_find_rbs (rballoc_mask E C p mac beam) bits (get_pusch_bwp_start_size ue) eff_min_rb
                             (sched_inactive cand) of
                        None \<Rightarrow>
                          Inr (st\<lparr>s_mac := reset_pusch_beam E C p ue new_beam (reset_dci_beam E p ue dci_new mac)\<rparr>)
                      | Some place \<Rightarrow>
                          (case ul_size_grant (e_lib E) (m_assoc mac) ue cand eff_min_rb place (f, s)
                                  (get_ul_nrOfLayers E ue) (p_tda_info p) (p_tda p) of
                             Inl e \<Rightarrow> Inl (PowerError e)
                           | Inr (sched, bler_mcs) \<Rightarrow>
                               let mac = upd_ue i (ue\<lparr>u_bler_mcs := bler_mcs, u_cce_index := CCEIndex\<rparr>) mac;
                                   mac = mac\<lparr>m_rest := fill_pdcch_vrb_map E (m_rest mac) (u_rnti ue) CCEIndex dci_beam\<rparr>
                               in (case post_process_ulsch E C i sched mac of
                                     Inl e \<Rightarrow> Inl e
                                   | Inr mac \<Rightarrow>
                                       Inr (st\<lparr>s_mac := mark_grant E C p beam sched bits mac,
                                               n_rb_sched := (n_rb_sched st)(beam := n_rb_sched st beam - sp_rbSize sched),
                                               remainUEs := (remainUEs st)(beam := remainUEs st beam - 1),
                                               scheduled_something := True\<rparr>)))))"

section \<open>The pass\<close>

text \<open>
  \<^verbatim>\<open>pf_ul\<close>: reload the policy file (\<open>now_ms\<close>, \<open>stat\<close> and \<open>file\<close> are what the clock and the file
  system answer), collect candidates, sort, grant, and return how many UEs were scheduled.
\<close>

definition pf_ul ::
    "('q, 'x) ul_env \<Rightarrow> ul_cfg \<Rightarrow> int \<Rightarrow> (int \<times> int) option \<Rightarrow> string option \<Rightarrow> ul_pass \<Rightarrow> int \<Rightarrow> (int \<Rightarrow> int) \<Rightarrow>
     ('q, 'x) ul_mac \<Rightarrow> ul_error + (int \<times> ('q, 'x) ul_mac)" where
  "pf_ul E C now_ms stat cfg_file p max_num_ue rbs mac =
     (if \<not> valid_tda (p_tda_info p) then Inl BadTda
      else if \<not> is_ul_slot E (snd (pass_time E C p)) then Inl NotUlSlot
      else
        let mac = mac\<lparr>m_la := rk_ue_la_reload_if_needed now_ms stat cfg_file (m_la mac)\<rparr>;
            st = \<lparr>s_mac = mac, remainUEs = (\<lambda>_. max_num_ue), n_rb_sched = rbs, UE_sched = [],
                  scheduled_something = False\<rparr>
        in case fold_res (pf_ul_ue E C p) [0..<length (m_ues mac)] st of
             Inl e \<Rightarrow> Inl e
           | Inr st \<Rightarrow>
               (case fold_res (pf_ul_grant E C p) (e_qsort E ul_comparator (UE_sched st)) st of
                  Inl e \<Rightarrow> Inl e
                | Inr st \<Rightarrow>
                    let num_ue_sched = int (p_num_beams p) * max_num_ue - total_rem_ues p st in
                    if (num_ue_sched = 0 \<and> \<not> scheduled_something st) \<or> (0 < num_ue_sched \<and> scheduled_something st)
                    then Inr (num_ue_sched, s_mac st) else Inl BadCount))"

end
