(* ===== verification/UlRun.thy ===== *)
theory UlRun imports UlSched begin

text \<open>
  What a pass of the uplink scheduler can do, as an inductive relation: \<open>ul_run\<close> strings together
  bookkeeping of UEs, changes of the opaque rest, and grants, and lists the PUSCH PDUs of the grants.
  Every successful \<^verbatim>\<open>pf_ul\<close> is such a run, so the guarantees of a pass are inductions over runs.
\<close>

section \<open>Runs\<close>

text \<open>What the bookkeeping of a UE does not change.\<close>

definition core :: "'q ul_ue \<Rightarrow> 'q ul_ue" where
  "core ue = ue\<lparr>u_ul_thr_ue := fl_zero, u_current_bytes := 0, u_current_rbs := 0, u_bler_mcs := 0,
     u_ul_cce_fail := 0, u_cce_index := 0\<rparr>"

definition same_core :: "'q ul_ue \<Rightarrow> 'q ul_ue \<Rightarrow> bool" where
  "same_core a b \<longleftrightarrow> core a = core b"

lemma same_core_refl [simp]: "same_core a a"
  by (simp add: same_core_def)

lemma same_core_trans: "same_core a b \<Longrightarrow> same_core b c \<Longrightarrow> same_core a c"
  by (simp add: same_core_def)

lemma same_coreD:
  assumes "same_core a b"
  shows "u_rnti a = u_rnti b" "u_ul_failure a = u_ul_failure b" "u_ctrl a = u_ctrl b"
    "u_bwp a = u_bwp b" "u_common_ss a = u_common_ss b" "u_initial_ul_BWPSize a = u_initial_ul_BWPSize b"
  using assms by (cases a; cases b; simp add: same_core_def core_def)+

lemma same_core_upd [simp]:
  "same_core a (b\<lparr>u_ul_thr_ue := t\<rparr>) = same_core a b"
  "same_core a (b\<lparr>u_current_bytes := n\<rparr>) = same_core a b"
  "same_core a (b\<lparr>u_current_rbs := i\<rparr>) = same_core a b"
  "same_core a (b\<lparr>u_bler_mcs := i\<rparr>) = same_core a b"
  "same_core a (b\<lparr>u_ul_cce_fail := i\<rparr>) = same_core a b"
  "same_core a (b\<lparr>u_cce_index := i\<rparr>) = same_core a b"
  by (cases b; simp add: same_core_def core_def)+

definition pass_index :: "('q, 'x) ul_env \<Rightarrow> ul_cfg \<Rightarrow> ul_pass \<Rightarrow> int" where
  "pass_index E C p = (let (f, s) = pass_time E C p in req_buffer_index E f s)"

definition pass_tick :: "('q, 'x) ul_env \<Rightarrow> ul_cfg \<Rightarrow> ul_pass \<Rightarrow> int" where
  "pass_tick E C p = (let (f, s) = pass_time E C p in f * numb_slots_frame (cfg_fs C) + s)"

text \<open>The decision of a retransmission and that of a new transmission, for UE \<open>i\<close>.\<close>

definition retx_decision ::
    "('q, 'x) ul_env \<Rightarrow> ul_cfg \<Rightarrow> ul_pass \<Rightarrow> ('q, 'x) ul_mac \<Rightarrow> int \<Rightarrow> nat \<Rightarrow> NR_sched_pusch_t \<Rightarrow> bool" where
  "retx_decision E C p mac beam i sched \<longleftrightarrow>
     (\<exists>ue pid. same_core ue (m_ues mac ! i) \<and> pid = nl_head (e_lists E) (retrans_harq (u_ctrl ue)) \<and> 0 \<le> pid \<and>
        ul_retx_alloc (e_lib E) (rballoc_mask E C p mac beam) ue (numb_slots_frame (cfg_fs C)) (p_frame p)
          (p_slot p) pid (p_tda p) (p_tda_info p) = Inr (Some sched))"

text \<open>
  \<^verbatim>\<open>get_mcs_from_bler\<close> stays within the maximum it is given; with that, the MCS of a new transmission
  is limited by the policy of the UE.
\<close>

definition mcs_law :: "('q, 'x) ul_env \<Rightarrow> bool" where
  "mcs_law E \<longleftrightarrow> (\<forall>x ue max_mcs f. snd (snd (get_mcs_from_bler E x ue max_mcs f)) \<le> max_mcs)"

definition ul_mcs_limit :: "ul_cfg \<Rightarrow> la_state \<Rightarrow> u16 \<Rightarrow> int" where
  "ul_mcs_limit C la rnti = rk_ue_la_get_ul_max_mcs (g_tbl la) rnti (cfg_bler_max_mcs C) 28"

lemma la_max_mcs_mono:
  "m \<le> m' \<Longrightarrow> rk_ue_la_get_ul_max_mcs t r d m \<le> rk_ue_la_get_ul_max_mcs t r d m'"
  by (auto simp: rk_ue_la_get_ul_max_mcs_def Let_def)

definition new_decision ::
    "('q, 'x) ul_env \<Rightarrow> ul_cfg \<Rightarrow> ul_pass \<Rightarrow> ('q, 'x) ul_mac \<Rightarrow> int \<Rightarrow> nat \<Rightarrow> NR_sched_pusch_t \<Rightarrow> bool" where
  "new_decision E C p mac beam i sched \<longleftrightarrow>
     (\<exists>ue cand place bm. same_core ue (m_ues mac ! i) \<and>
        (let k = rk_ue_la_get_min_grant_prb (g_tbl (m_la mac)) (u_rnti ue) (cfg_min_grant_prb C) in
         ul_find_rbs (rballoc_mask E C p mac beam) (grant_bits E (p_tda_info p)) (get_pusch_bwp_start_size ue) k
           (sched_inactive cand) = Some place \<and>
         ul_size_grant (e_lib E) (m_assoc mac) ue cand k place (pass_time E C p) (get_ul_nrOfLayers E ue)
           (p_tda_info p) (p_tda p) = Inr (sched, bm) \<and>
         (mcs_law E \<longrightarrow> selected_mcs cand \<le> ul_mcs_limit C (m_la mac) (u_rnti ue))))"

text \<open>
  What the functions of other files can do to the opaque rest.
\<close>

definition rest_step :: "('q, 'x) ul_env \<Rightarrow> 'x \<Rightarrow> 'x \<Rightarrow> bool" where
  "rest_step E x y \<longleftrightarrow>
     (\<exists>f s b. y = fst (beam_allocation_procedure E x f s b)) \<or>
     (\<exists>f s b n. y = reset_beam_status E x f s b n) \<or>
     (\<exists>r s d. y = fst (get_cce_index E x r s d)) \<or>
     (\<exists>r c d. y = fill_pdcch_vrb_map E x r c d) \<or>
     (\<exists>ue mcs f. y = fst (get_mcs_from_bler E x ue mcs f))"

abbreviation rest_run :: "('q, 'x) ul_env \<Rightarrow> 'x \<Rightarrow> 'x \<Rightarrow> bool" where
  "rest_run E \<equiv> (rest_step E)\<^sup>*\<^sup>*"

lemma rest_step_intros:
  "rest_step E x (reset_beam_status E x f s b n)" "rest_step E x (fill_pdcch_vrb_map E x r c d)"
  "beam_allocation_procedure E x f s b = (y, z) \<Longrightarrow> rest_step E x y"
  "get_cce_index E x r s d = (y, c) \<Longrightarrow> rest_step E x y"
  "get_mcs_from_bler E x ue mcs f = (y, w) \<Longrightarrow> rest_step E x y"
  unfolding rest_step_def by (metis fst_conv)+

lemma rest_run_fill: "rest_run E x (fill_pdcch_vrb_map E x r c d)"
  by (rule r_into_rtranclp) (rule rest_step_intros(2))

inductive ul_run ::
    "('q, 'x) ul_env \<Rightarrow> ul_cfg \<Rightarrow> ul_pass \<Rightarrow> ('q, 'x) ul_mac \<Rightarrow> ul_pdu list \<Rightarrow> ('q, 'x) ul_mac \<Rightarrow> bool"
  for E C p mac where
  start: "ul_run E C p mac [] mac"
| rest: "ul_run E C p mac ps m \<Longrightarrow> rest_run E (m_rest m) x \<Longrightarrow> ul_run E C p mac ps (m\<lparr>m_rest := x\<rparr>)"
| book: "\<lbrakk>ul_run E C p mac ps m; i < length (m_ues m); \<not> u_ul_failure (m_ues m ! i); same_core (m_ues m ! i) ue\<rbrakk>
    \<Longrightarrow> ul_run E C p mac ps (upd_ue i ue m)"
| retx: "\<lbrakk>ul_run E C p mac ps m; i < length (m_ues m); \<not> u_ul_failure (m_ues m ! i);
     retx_decision E C p m beam i sched; post_process_ulsch E C i sched m = Inr m'\<rbrakk>
    \<Longrightarrow> ul_run E C p mac (ps @ [last (m_ul_req m' (pass_index E C p))])
          (mark_grant E C p beam sched (grant_bits E (tda_info sched)) m')"
| new: "\<lbrakk>ul_run E C p mac ps m; i < length (m_ues m); \<not> u_ul_failure (m_ues m ! i);
     new_decision E C p m beam i sched; post_process_ulsch E C i sched m = Inr m'\<rbrakk>
    \<Longrightarrow> ul_run E C p mac (ps @ [last (m_ul_req m' (pass_index E C p))])
          (mark_grant E C p beam sched (grant_bits E (p_tda_info p)) m')"

lemma ul_run_trans: "ul_run E C p m ps m' \<Longrightarrow> ul_run E C p mac qs m \<Longrightarrow> ul_run E C p mac (qs @ ps) m'"
proof (induction rule: ul_run.induct)
  case start
  then show ?case by simp
next
  case (rest ps m x)
  then show ?case by (blast intro: ul_run.rest)
next
  case (book ps m i ue)
  then show ?case by (intro ul_run.book)
next
  case (retx ps m i beam sched m')
  then show ?case using ul_run.retx [of E C p mac "qs @ ps" m i beam sched m'] by simp
next
  case (new ps m i beam sched m')
  then show ?case using ul_run.new [of E C p mac "qs @ ps" m i beam sched m'] by simp
qed

section \<open>The effect of a commit\<close>

lemma post_process_effect:
  assumes "post_process_ulsch E C i sched m = Inr m'"
  shows "\<exists>ctrl sched' ue'. ul_harq_grant (e_lists E) (cfg_disable_harq C) (cfg_harq_round_max C) (u_ctrl (m_ues m ! i)) sched =
      Inr (ctrl, sched') \<and>
    m_ues m' = (m_ues m)[i := ue'] \<and> u_ctrl ue' = ctrl \<and> u_rnti ue' = u_rnti (m_ues m ! i) \<and>
    u_ul_failure ue' = u_ul_failure (m_ues m ! i) \<and>
    m_vrb_map_UL m' = m_vrb_map_UL m \<and> m_assoc m' = m_assoc m \<and> m_la m' = m_la m \<and>
    m_runtime m' = rk_slice_runtime_note_ul_grant (m_runtime m) (u_rnti (m_ues m ! i))
      (sp_frame sched' * numb_slots_frame (cfg_fs C) + sp_slot sched') \<and>
    m_ul_req m' = (m_ul_req m)(req_buffer_index E (sp_frame sched') (sp_slot sched') :=
      m_ul_req m (req_buffer_index E (sp_frame sched') (sp_slot sched')) @
        [\<lparr>pdu_rnti = u_rnti (m_ues m ! i), pdu_harq_id = to_i8 (ul_harq_pid sched'),
          pdu_round = round (harq_processes ctrl (to_i8 (ul_harq_pid sched'))), pdu_sched = sched'\<rparr>])"
  using assms unfolding post_process_ulsch_def
  by (auto simp: Let_def split: sum.splits prod.splits if_splits)

lemma ul_harq_grant_sched:
  assumes "ul_harq_grant N d rmax c sched = Inr (c', sched')"
  shows "\<exists>q. sched' = sched\<lparr>ul_harq_pid := q\<rparr>"
proof -
  have "sched' = sched \<or> (\<exists>q. sched' = sched\<lparr>ul_harq_pid := q\<rparr>)"
    using assms unfolding ul_harq_grant_def Let_def by (auto split: if_splits prod.splits)
  moreover have "sched = sched\<lparr>ul_harq_pid := ul_harq_pid sched\<rparr>" by simp
  ultimately show ?thesis by metis
qed

lemma retx_decision_time:
  assumes "retx_decision E C p m beam i sched"
  shows "(sp_frame sched, sp_slot sched) = pass_time E C p"
proof -
  obtain f s where t: "pass_time E C p = (f, s)" by fastforce
  then show ?thesis using assms unfolding retx_decision_def pass_time_def
    by (auto simp: ul_retx_alloc_def ul_retx_reuse_def ul_retx_new_tda_def Let_def split: if_splits prod.splits)
qed

lemma new_decision_time:
  assumes "new_decision E C p m beam i sched"
  shows "(sp_frame sched, sp_slot sched) = pass_time E C p"
  using assms ul_size_grant_frame unfolding new_decision_def Let_def
  by (metis prod.collapse)

section \<open>The effect of a run\<close>

definition noted :: "('q, 'x) ul_env \<Rightarrow> ul_cfg \<Rightarrow> ul_pass \<Rightarrow> ul_pdu list \<Rightarrow> runtime_table \<Rightarrow> runtime_table" where
  "noted E C p ps t = fold (\<lambda>pdu t. rk_slice_runtime_note_ul_grant t (pdu_rnti pdu) (pass_tick E C p)) ps t"

definition run_effect ::
    "('q, 'x) ul_env \<Rightarrow> ul_cfg \<Rightarrow> ul_pass \<Rightarrow> ('q, 'x) ul_mac \<Rightarrow> ul_pdu list \<Rightarrow> ('q, 'x) ul_mac \<Rightarrow> bool" where
  "run_effect E C p mac ps m \<longleftrightarrow>
     m_ul_req m = (m_ul_req mac)(pass_index E C p := m_ul_req mac (pass_index E C p) @ ps) \<and>
     m_runtime m = noted E C p ps (m_runtime mac) \<and> m_assoc m = m_assoc mac \<and> m_la m = m_la mac \<and>
     length (m_ues m) = length (m_ues mac) \<and>
     (\<forall>i < length (m_ues mac). u_rnti (m_ues m ! i) = u_rnti (m_ues mac ! i) \<and>
        u_ul_failure (m_ues m ! i) = u_ul_failure (m_ues mac ! i) \<and>
        (u_ul_failure (m_ues mac ! i) \<longrightarrow> m_ues m ! i = m_ues mac ! i)) \<and>
     (\<forall>b j bits. rb_used (m_vrb_map_UL mac b) bits j \<longrightarrow> rb_used (m_vrb_map_UL m b) bits j)"

lemma mark_grant_simps [simp]:
  "m_ues (mark_grant E C p b s bits m) = m_ues m" "m_assoc (mark_grant E C p b s bits m) = m_assoc m"
  "m_runtime (mark_grant E C p b s bits m) = m_runtime m" "m_la (mark_grant E C p b s bits m) = m_la m"
  "m_ul_req (mark_grant E C p b s bits m) = m_ul_req m"
  by (simp_all add: mark_grant_def)

lemma mark_grant_mono: "rb_used (m_vrb_map_UL m b') k j \<Longrightarrow> rb_used (m_vrb_map_UL (mark_grant E C p b s bits m) b') k j"
  by (auto simp: mark_grant_def rb_used_mark_mono)

lemma noted_snoc: "noted E C p (ps @ [q]) t = rk_slice_runtime_note_ul_grant (noted E C p ps t) (pdu_rnti q) (pass_tick E C p)"
  by (simp add: noted_def)

lemma commit_effect:
  assumes eff: "run_effect E C p mac ps m" and i: "i < length (m_ues m)" "\<not> u_ul_failure (m_ues m ! i)"
    and time: "(sp_frame sched, sp_slot sched) = pass_time E C p"
    and pp: "post_process_ulsch E C i sched m = Inr m'"
  shows "run_effect E C p mac (ps @ [last (m_ul_req m' (pass_index E C p))]) (mark_grant E C p beam sched bits m')"
proof -
  obtain ctrl sched' ue' where e:
    "ul_harq_grant (e_lists E) (cfg_disable_harq C) (cfg_harq_round_max C) (u_ctrl (m_ues m ! i)) sched = Inr (ctrl, sched')"
    "m_ues m' = (m_ues m)[i := ue']" "u_rnti ue' = u_rnti (m_ues m ! i)" "u_ul_failure ue' = u_ul_failure (m_ues m ! i)"
    "m_vrb_map_UL m' = m_vrb_map_UL m" "m_assoc m' = m_assoc m" "m_la m' = m_la m"
    "m_runtime m' = rk_slice_runtime_note_ul_grant (m_runtime m) (u_rnti (m_ues m ! i))
      (sp_frame sched' * numb_slots_frame (cfg_fs C) + sp_slot sched')"
    "m_ul_req m' = (m_ul_req m)(req_buffer_index E (sp_frame sched') (sp_slot sched') :=
      m_ul_req m (req_buffer_index E (sp_frame sched') (sp_slot sched')) @
        [\<lparr>pdu_rnti = u_rnti (m_ues m ! i), pdu_harq_id = to_i8 (ul_harq_pid sched'),
          pdu_round = round (harq_processes ctrl (to_i8 (ul_harq_pid sched'))), pdu_sched = sched'\<rparr>])"
    using post_process_effect [OF pp] by blast
  have "sp_frame sched' = sp_frame sched" "sp_slot sched' = sp_slot sched"
    using ul_harq_grant_sched [OF e(1)] by auto
  then have ix: "req_buffer_index E (sp_frame sched') (sp_slot sched') = pass_index E C p"
    and tk: "sp_frame sched' * numb_slots_frame (cfg_fs C) + sp_slot sched' = pass_tick E C p"
    unfolding pass_index_def pass_tick_def time [symmetric] by simp_all
  let ?q = "last (m_ul_req m' (pass_index E C p))"
  have q: "pdu_rnti ?q = u_rnti (m_ues m ! i)" "m_ul_req m' = (m_ul_req m)(pass_index E C p := m_ul_req m (pass_index E C p) @ [?q])"
    using e(9) unfolding ix by simp_all
  have ues: "u_rnti (m_ues m' ! k) = u_rnti (m_ues m ! k) \<and> u_ul_failure (m_ues m' ! k) = u_ul_failure (m_ues m ! k) \<and>
      (u_ul_failure (m_ues m ! k) \<longrightarrow> m_ues m' ! k = m_ues m ! k)" for k
    using e(2-4) i by (cases "k = i") simp_all
  have len: "length (m_ues m') = length (m_ues m)" using e(2) by simp
  have mono: "rb_used (m_vrb_map_UL m b) k j \<Longrightarrow> rb_used (m_vrb_map_UL (mark_grant E C p beam sched bits m') b) k j" for b k j
    using mark_grant_mono [of m' b k j] e(5) by simp
  have run: "m_runtime m' = noted E C p (ps @ [?q]) (m_runtime mac)"
    using eff e(8) tk q(1) by (simp add: noted_snoc run_effect_def)
  have req: "m_ul_req m' = (m_ul_req mac)(pass_index E C p := m_ul_req mac (pass_index E C p) @ (ps @ [?q]))"
  proof -
    have "m_ul_req m = (m_ul_req mac)(pass_index E C p := m_ul_req mac (pass_index E C p) @ ps)"
      using eff by (simp add: run_effect_def)
    then show ?thesis by (subst q(2)) simp
  qed
  show ?thesis
    unfolding run_effect_def mark_grant_simps
    using eff [unfolded run_effect_def] ues len mono run req e(6,7) by auto
qed

lemma run_has_effect: "ul_run E C p mac ps m \<Longrightarrow> run_effect E C p mac ps m"
proof (induction rule: ul_run.induct)
  case start
  then show ?case by (simp add: run_effect_def noted_def)
next
  case (rest ps m x)
  then show ?case by (simp add: run_effect_def)
next
  case (book ps m i ue)
  then show ?case using same_coreD(1,2) [OF book(4)] by (auto simp: run_effect_def upd_ue_def nth_list_update)
next
  case (retx ps m i beam sched m')
  then show ?case using commit_effect retx_decision_time by blast
next
  case (new ps m i beam sched m')
  then show ?case using commit_effect new_decision_time by blast
qed

section \<open>HARQ processes and caps along a run\<close>

definition ues_inv :: "('q \<Rightarrow> int list) \<Rightarrow> int \<Rightarrow> int \<Rightarrow> ('q, 'x) ul_mac \<Rightarrow> bool" where
  "ues_inv elems n rmax m \<longleftrightarrow> (\<forall>ue \<in> set (m_ues m). harq_inv elems n rmax {} (u_ctrl ue))"

text \<open>A PDU of the first round respects the cap of its UE's slice; no PDU is beyond the last round.\<close>

definition pdu_ok :: "assoc_table \<Rightarrow> int \<Rightarrow> ul_pdu \<Rightarrow> bool" where
  "pdu_ok assoc rmax q \<longleftrightarrow> 0 \<le> pdu_round q \<and> pdu_round q < rmax \<and>
     (let cap = ul_rb_cap (rk_slice_policy_get (rk_slice_assoc_get_ul_id assoc (pdu_rnti q))) in
      pdu_round q = 0 \<and> 0 < cap \<longrightarrow> sp_rbSize (pdu_sched q) \<le> cap)"

text \<open>Its MCS respects the policy of the UE.\<close>

definition pdu_mcs_ok :: "('q, 'x) ul_env \<Rightarrow> ul_cfg \<Rightarrow> la_state \<Rightarrow> ul_pdu \<Rightarrow> bool" where
  "pdu_mcs_ok E C la q \<longleftrightarrow>
     (mcs_law E \<and> pdu_round q = 0 \<longrightarrow> sp_mcs (pdu_sched q) \<le> ul_mcs_limit C la (pdu_rnti q))"

lemma commit_harq:
  assumes laws: "nr_list_laws (e_lists E) elems" and C: "\<not> cfg_disable_harq C" "0 < cfg_harq_round_max C" and n: "n \<le> 128"
    and inv: "ues_inv elems n (cfg_harq_round_max C) m" and i: "i < length (m_ues m)"
    and pid: "grantable elems (u_ctrl (m_ues m ! i)) (ul_harq_pid sched)" "-128 \<le> ul_harq_pid sched" "ul_harq_pid sched < 128"
    and time: "(sp_frame sched, sp_slot sched) = pass_time E C p"
    and pp: "post_process_ulsch E C i sched m = Inr m'"
  shows "ues_inv elems n (cfg_harq_round_max C) m' \<and>
    (let q = last (m_ul_req m' (pass_index E C p)); c = u_ctrl (m_ues m ! i) in
      pdu_rnti q = u_rnti (m_ues m ! i) \<and> sp_rbSize (pdu_sched q) = sp_rbSize sched \<and>
      sp_mcs (pdu_sched q) = sp_mcs sched \<and>
      pdu_round q = round (harq_processes c (granted elems c (ul_harq_pid sched))) \<and>
      0 \<le> pdu_round q \<and> pdu_round q < cfg_harq_round_max C)"
proof -
  let ?c = "u_ctrl (m_ues m ! i)" and ?r = "cfg_harq_round_max C"
  have c: "harq_inv elems n ?r {} ?c" using inv i by (simp add: ues_inv_def)
  obtain c' s' where g: "ul_harq_grant (e_lists E) False ?r ?c sched = Inr (c', s')"
    "ul_harq_pid s' = granted elems ?c (ul_harq_pid sched)" "harq_inv elems n ?r {} c'"
    "round (harq_processes c' (ul_harq_pid s')) = round (harq_processes ?c (ul_harq_pid s'))"
    using ul_harq_grant_inv [OF laws c n C(2) pid] by blast
  note t = take_harq_inv [OF laws c pid(1) refl C(2)]
  obtain ue' where e: "m_ues m' = (m_ues m)[i := ue']" "u_ctrl ue' = c'"
    "m_ul_req m' = (m_ul_req m)(req_buffer_index E (sp_frame s') (sp_slot s') :=
      m_ul_req m (req_buffer_index E (sp_frame s') (sp_slot s')) @
        [\<lparr>pdu_rnti = u_rnti (m_ues m ! i), pdu_harq_id = to_i8 (ul_harq_pid s'),
          pdu_round = round (harq_processes c' (to_i8 (ul_harq_pid s'))), pdu_sched = s'\<rparr>])"
    using post_process_effect [OF pp] g(1) C(1) by auto
  have s': "sp_frame s' = sp_frame sched" "sp_slot s' = sp_slot sched" "sp_rbSize s' = sp_rbSize sched"
    "sp_mcs s' = sp_mcs sched"
    using ul_harq_grant_sched [OF g(1)] by auto
  have ix: "req_buffer_index E (sp_frame s') (sp_slot s') = pass_index E C p"
    unfolding pass_index_def time [symmetric] s' by simp
  have i8: "to_i8 (ul_harq_pid s') = ul_harq_pid s'" using t n unfolding g(2) by (simp add: to_i8_id)
  have "ues_inv elems n ?r m'"
    using inv e(1,2) g(3) set_update_subset_insert [of "m_ues m" i ue'] by (auto simp: ues_inv_def)
  then show ?thesis using e(3) g(2,4) t s' i8 unfolding ix by (simp add: Let_def)
qed

lemma empty_available:
  assumes "nr_list_laws N elems" and "ul_harq_grant N d rmax c sched = Inr r" and "ul_harq_pid sched = -1"
  shows "elems (available_harq c) \<noteq> []"
proof
  assume "elems (available_harq c) = []"
  then have "nl_head N (available_harq c) = -1" using nr_list_lawsD(1) [OF assms(1), of "available_harq c"] by simp
  then show False using assms(2,3) by (simp add: ul_harq_grant_def to_i8_def)
qed

lemma run_harq:
  assumes laws: "nr_list_laws (e_lists E) elems" and C: "\<not> cfg_disable_harq C" "0 < cfg_harq_round_max C" and n: "n \<le> 128"
    and run: "ul_run E C p mac ps m" and start: "ues_inv elems n (cfg_harq_round_max C) mac"
  shows "ues_inv elems n (cfg_harq_round_max C) m \<and> list_all (pdu_ok (m_assoc mac) (cfg_harq_round_max C)) ps \<and>
    list_all (pdu_mcs_ok E C (m_la mac)) ps"
  using run
proof (induction rule: ul_run.induct)
  case start
  then show ?case using assms(6) by simp
next
  case (rest ps m x)
  then show ?case by (simp add: ues_inv_def)
next
  case (book ps m i ue)
  have "u_ctrl ue = u_ctrl (m_ues m ! i)" using same_coreD(3) [OF book(4)] by simp
  then have "harq_inv elems n (cfg_harq_round_max C) {} (u_ctrl ue)" using book by (simp add: ues_inv_def)
  then show ?case using book set_update_subset_insert [of "m_ues m" i ue] by (auto simp: ues_inv_def upd_ue_def)
next
  case (retx ps m i beam sched m')
  obtain ue pid where d: "same_core ue (m_ues m ! i)" "pid = nl_head (e_lists E) (retrans_harq (u_ctrl ue))" "0 \<le> pid"
    "ul_retx_alloc (e_lib E) (rballoc_mask E C p m beam) ue (numb_slots_frame (cfg_fs C)) (p_frame p)
          (p_slot p) pid (p_tda p) (p_tda_info p) = Inr (Some sched)"
    using retx(4) unfolding retx_decision_def by blast
  let ?c = "u_ctrl (m_ues m ! i)"
  have c: "harq_inv elems n (cfg_harq_round_max C) {} ?c" using retx by (simp add: ues_inv_def)
  have pid: "ul_harq_pid sched = pid"
    using d(4) by (auto simp: ul_retx_alloc_def ul_retx_reuse_def ul_retx_new_tda_def Let_def split: if_splits prod.splits)
  have mem: "pid \<in> set (elems (retrans_harq ?c))"
    using d(2,3) same_coreD(3) [OF d(1)] nr_list_lawsD(1) [OF laws, of "retrans_harq ?c"]
    by (auto split: list.splits)
  note r = harq_inv_range(3) [OF c mem]
  then have g: "grantable elems ?c pid" "0 < round (harq_processes ?c pid)" "pid < n"
    using mem by (auto simp: grantable_def)
  show ?case
    using commit_harq [OF laws C n _ retx(2) _ _ _ retx_decision_time [OF retx(4)] retx(5)] retx(6) pid g d(3) n
    by (auto simp: Let_def pdu_ok_def pdu_mcs_ok_def granted_def ues_inv_def)
next
  case (new ps m i beam sched m')
  have eff: "run_effect E C p mac ps m" using new(1) by (rule run_has_effect)
  obtain ue cand place bm where d: "same_core ue (m_ues m ! i)"
    "ul_size_grant (e_lib E) (m_assoc m) ue cand (rk_ue_la_get_min_grant_prb (g_tbl (m_la m)) (u_rnti ue) (cfg_min_grant_prb C))
       place (pass_time E C p) (get_ul_nrOfLayers E ue) (p_tda_info p) (p_tda p) = Inr (sched, bm)"
    "mcs_law E \<longrightarrow> selected_mcs cand \<le> ul_mcs_limit C (m_la m) (u_rnti ue)"
    using new(4) unfolding new_decision_def Let_def by blast
  obtain f s where t: "pass_time E C p = (f, s)" by fastforce
  have pid: "ul_harq_pid sched = -1" using ul_size_grant_frame [OF d(2) [unfolded t] refl] by simp
  have cap: "0 < ul_rb_cap pol \<longrightarrow> sp_rbSize sched \<le> ul_rb_cap pol"
    if "pol = rk_slice_policy_get (rk_slice_assoc_get_ul_id (m_assoc mac) (u_rnti (m_ues m ! i)))" for pol
    using ul_size_grant_frame [OF d(2) [unfolded t] refl] same_coreD(1) [OF d(1)] eff that by (simp add: run_effect_def)
  have mcs: "mcs_law E \<longrightarrow> sp_mcs sched \<le> ul_mcs_limit C (m_la mac) (u_rnti (m_ues m ! i))"
    using ul_size_grant_mcs [OF d(2)] d(3) same_coreD(1) [OF d(1)] eff by (auto simp: run_effect_def)
  let ?c = "u_ctrl (m_ues m ! i)"
  have "elems (available_harq ?c) \<noteq> []"
    using post_process_effect [OF new(5)] empty_available [OF laws _ pid] by blast
  then have g: "grantable elems ?c (ul_harq_pid sched)" by (simp add: grantable_def pid)
  show ?case
    using commit_harq [OF laws C n _ new(2) g _ _ new_decision_time [OF new(4)] new(5)] new(6) pid cap mcs
    by (auto simp: Let_def pdu_ok_def pdu_mcs_ok_def ues_inv_def)
qed

end
