(* ===== verification/UlPass.thy ===== *)
theory UlPass imports UlRun begin

text \<open>
  Every successful \<^verbatim>\<open>pf_ul\<close> is a run of \<^verbatim>\<open>UlRun\<close> with as many PUSCH PDUs as it reports, and
  the guarantees of runs therefore hold of the scheduler.
\<close>

section \<open>Bookkeeping\<close>

lemma rballoc_mask_simps [simp]:
  "rballoc_mask E C p (m\<lparr>m_rest := x\<rparr>) = rballoc_mask E C p m"
  "rballoc_mask E C p (upd_ue i ue m) = rballoc_mask E C p m"
  by (simp_all add: rballoc_mask_def upd_ue_def fun_eq_iff)

lemma upd_ue_simps [simp]:
  "m_ues (upd_ue i ue m) = (m_ues m)[i := ue]" "m_assoc (upd_ue i ue m) = m_assoc m"
  "m_la (upd_ue i ue m) = m_la m" "m_rest (upd_ue i ue m) = m_rest m"
  by (simp_all add: upd_ue_def)

lemma ul_run_reset:
  assumes "ul_run E C p mac ps m"
  shows "ul_run E C p mac ps (reset_pusch_beam E C p ue nb m)" "ul_run E C p mac ps (reset_dci_beam E p ue nb m)"
  using assms by (auto simp: reset_pusch_beam_def reset_dci_beam_def Let_def
      intro!: ul_run.rest rest_step_intros(1) split: prod.splits)

lemma ul_run_same_ues:
  assumes "ul_run E C p mac ps m"
  shows "length (m_ues m) = length (m_ues mac)"
    "i < length (m_ues mac) \<Longrightarrow> u_ul_failure (m_ues m ! i) = u_ul_failure (m_ues mac ! i)"
  using run_has_effect [OF assms] by (auto simp: run_effect_def)

section \<open>Retransmissions\<close>

lemma allocate_run:
  assumes run: "allocate_ul_retransmission E C p beam dci i pid mac = Inr (b, m')"
    and i: "i < length (m_ues mac)" "\<not> u_ul_failure (m_ues mac ! i)"
    and pid: "pid = nl_head (e_lists E) (retrans_harq (u_ctrl (m_ues mac ! i)))" "0 \<le> pid"
  shows "\<exists>ps. ul_run E C p mac ps m' \<and> length ps = (if b then 1 else 0)"
proof -
  let ?alloc = "ul_retx_alloc (e_lib E) (rballoc_mask E C p mac beam) (m_ues mac ! i) (numb_slots_frame (cfg_fs C))
      (p_frame p) (p_slot p) pid (p_tda p) (p_tda_info p)"
  note start = ul_run.start [of E C p mac]
  consider (none) "?alloc = Inr None" | (some) sched where "?alloc = Inr (Some sched)"
    using run by (auto simp: allocate_ul_retransmission_def Let_def split: sum.splits option.splits)
  then show ?thesis
  proof cases
    case none
    then show ?thesis using run start by (auto simp: allocate_ul_retransmission_def Let_def)
  next
    case some
    obtain x cce where cce: "get_cce_index E (m_rest mac) (u_rnti (m_ues mac ! i)) (p_slot p) dci = (x, cce)" by fastforce
    let ?ue = "m_ues mac ! i"
    have x: "rest_run E (m_rest mac) x" using rest_step_intros(4) [OF cce] by simp
    have r1: "ul_run E C p mac [] (upd_ue i (?ue\<lparr>u_ul_cce_fail := n\<rparr>) (mac\<lparr>m_rest := x\<rparr>))" for n
      using ul_run.book [OF ul_run.rest [OF start x]] i by simp
    let ?m = "upd_ue i (?ue\<lparr>u_cce_index := cce\<rparr>) (mac\<lparr>m_rest := x\<rparr>)"
    let ?m2 = "?m\<lparr>m_rest := fill_pdcch_vrb_map E x (u_rnti ?ue) cce dci\<rparr>"
    have r2: "ul_run E C p mac [] ?m2"
      by (rule ul_run.rest, rule ul_run.book [OF ul_run.rest [OF start x]]) (use i in \<open>simp_all add: rest_run_fill\<close>)
    show ?thesis
    proof (cases "cce < 0")
      case True
      then show ?thesis using run some cce r1 by (auto simp: allocate_ul_retransmission_def Let_def)
    next
      case False
      then obtain m'' where m'': "post_process_ulsch E C i sched ?m2 = Inr m''" "b"
        "m' = mark_grant E C p beam sched (grant_bits E (tda_info sched)) m''"
        using run some cce by (auto simp: allocate_ul_retransmission_def Let_def split: sum.splits)
      have "retx_decision E C p ?m2 beam i sched"
        unfolding retx_decision_def using some pid i by (intro exI [of _ ?ue] exI [of _ pid]) simp
      from ul_run.retx [OF r2 _ _ this m''(1)] show ?thesis using i m'' by auto
    qed
  qed
qed

section \<open>The invariant of a pass\<close>

text \<open>The beam allocation returns no index beyond the beams of the cell.\<close>

definition beam_law :: "('q, 'x) ul_env \<Rightarrow> nat \<Rightarrow> bool" where
  "beam_law E nb \<longleftrightarrow> (\<forall>x f s b. fst (snd (beam_allocation_procedure E x f s b)) < int nb)"

text \<open>A candidate is a connected UE; its MCS respects the policy of the UE.\<close>

definition cand_ok :: "('q, 'x) ul_env \<Rightarrow> ul_cfg \<Rightarrow> ('q, 'x) ul_mac \<Rightarrow> ul_UEsched_t \<Rightarrow> bool" where
  "cand_ok E C mac c \<longleftrightarrow> us_UE c < length (m_ues mac) \<and> \<not> u_ul_failure (m_ues mac ! us_UE c) \<and>
     (mcs_law E \<longrightarrow> selected_mcs c \<le> ul_mcs_limit C (m_la mac) (u_rnti (m_ues mac ! us_UE c)))"

definition pass_inv ::
    "('q, 'x) ul_env \<Rightarrow> ul_cfg \<Rightarrow> ul_pass \<Rightarrow> int \<Rightarrow> ('q, 'x) ul_mac \<Rightarrow> ul_pdu list \<Rightarrow> ('q, 'x) pf_state \<Rightarrow> bool" where
  "pass_inv E C p max_num_ue mac ps st \<longleftrightarrow>
     ul_run E C p mac ps (s_mac st) \<and>
     (\<forall>c \<in> set (UE_sched st). cand_ok E C mac c) \<and>
     total_rem_ues p st = int (p_num_beams p) * max_num_ue - int (length ps) \<and>
     scheduled_something st = (ps \<noteq> []) \<and> (p_num_beams p = 1 \<longrightarrow> 0 \<le> remainUEs st 0)"

lemma sum_upd_beam:
  assumes "0 \<le> b" "b < int n"
  shows "(\<Sum>k \<leftarrow> [0..<n]. (f(b := f b - 1)) (int k)) = (\<Sum>k \<leftarrow> [0..<n]. f (int k)) - (1 :: int)"
  using assms
proof (induction n)
  case 0
  then show ?case by simp
next
  case (Suc n)
  show ?case
  proof (cases "b = int n")
    case True
    then show ?thesis by (auto intro!: arg_cong [where f = sum_list])
  next
    case False
    then show ?thesis using Suc by simp
  qed
qed

text \<open>Quiet steps, and the two ways to grant.\<close>

lemma pass_inv_quiet:
  assumes "pass_inv E C p n mac ps st" and "ul_run E C p (s_mac st) [] m"
  shows "pass_inv E C p n mac ps (st\<lparr>s_mac := m\<rparr>)"
  using assms ul_run_trans [of E C p "s_mac st" "[]" m mac ps] by (auto simp: pass_inv_def total_rem_ues_def)

lemma pass_inv_grant:
  assumes inv: "pass_inv E C p n mac ps st" and run: "ul_run E C p (s_mac st) [q] m" and beam: "0 \<le> b" "b < int (p_num_beams p)"
    and left: "p_num_beams p = 1 \<Longrightarrow> remainUEs st 0 \<noteq> 0"
    and st': "s_mac st' = m" "remainUEs st' = (remainUEs st)(b := remainUEs st b - 1)" "scheduled_something st'"
      "UE_sched st' = UE_sched st"
  shows "pass_inv E C p n mac (ps @ [q]) st'"
proof -
  have "ul_run E C p mac (ps @ [q]) m"
    using inv ul_run_trans [OF run, of mac ps] by (simp add: pass_inv_def)
  moreover have "total_rem_ues p st' = int (p_num_beams p) * n - int (length (ps @ [q]))"
    using inv st'(2) sum_upd_beam [OF beam, of "remainUEs st"] by (simp add: total_rem_ues_def pass_inv_def del: fun_upd_apply)
  moreover have "p_num_beams p = 1 \<longrightarrow> 0 \<le> remainUEs st' 0"
  proof
    assume one: "p_num_beams p = 1"
    then have "b = 0" using beam by simp
    then show "0 \<le> remainUEs st' 0" using inv left [OF one] st'(2) one by (simp add: pass_inv_def)
  qed
  ultimately show ?thesis using inv st' by (simp add: pass_inv_def)
qed

lemma pass_inv_ues:
  assumes "pass_inv E C p n mac ps st"
  shows "length (m_ues (s_mac st)) = length (m_ues mac)"
    "i < length (m_ues mac) \<Longrightarrow> u_ul_failure (m_ues (s_mac st) ! i) = u_ul_failure (m_ues mac ! i)"
    "i < length (m_ues mac) \<Longrightarrow> u_rnti (m_ues (s_mac st) ! i) = u_rnti (m_ues mac ! i)"
    "m_la (s_mac st) = m_la mac"
  using assms run_has_effect [of E C p mac ps "s_mac st"] by (auto simp: pass_inv_def run_effect_def)

lemma ul_new_candidate_cases:
  assumes "ul_new_candidate E C p dn nb i st = Inr st'"
  shows "st' = st\<lparr>s_mac := reset_dci_beam E p (m_ues (s_mac st) ! i) dn (reset_pusch_beam E C p (m_ues (s_mac st) ! i) nb (s_mac st))\<rparr> \<or>
    (\<exists>x bm c. rest_run E (m_rest (s_mac st)) x \<and> us_UE c = i \<and>
      (mcs_law E \<longrightarrow> selected_mcs c \<le> ul_mcs_limit C (m_la (s_mac st)) (u_rnti (m_ues (s_mac st) ! i))) \<and> st' = st\<lparr>s_mac := upd_ue i ((m_ues (s_mac st) ! i)\<lparr>u_bler_mcs := bm\<rparr>) ((s_mac st)\<lparr>m_rest := x\<rparr>),
      UE_sched := UE_sched st @ [c]\<rparr>)"
proof -
  let ?ue = "m_ues (s_mac st) ! i"
  obtain f s where t: "pass_time E C p = (f, s)" by fastforce
  let ?due = "nr_UE_is_to_be_scheduled (cfg_first_ul_slot C) (cfg_fs C) (ue_due_of ?ue) f s
            (rk_ue_la_get_ulsch_max_frame_inactivity (g_tbl (m_la (s_mac st))) (u_rnti ?ue) (cfg_max_frame_inactivity C))"
  show ?thesis
  proof (cases "(pending_bytes ?ue = 0 \<and> \<not> ?due) \<or> u_transm_interrupt ?ue")
    case True
    then have "st' = st\<lparr>s_mac := reset_dci_beam E p ?ue dn (reset_pusch_beam E C p ?ue nb (s_mac st))\<rparr>"
      using assms t by (auto simp: ul_new_candidate_def Let_def)
    then show ?thesis by blast
  next
    case False
    let ?max = "rk_ue_la_get_ul_max_mcs (g_tbl (m_la (s_mac st))) (u_rnti ?ue) (cfg_bler_max_mcs C)
                 (if ul_mcs_table (u_bwp ?ue) = 0 \<or> ul_mcs_table (u_bwp ?ue) = 2 then 28 else 27)"
    obtain x bm mcs where m: "(if cfg_harq_round_max C = 1 then (m_rest (s_mac st), ?max, ?max)
        else get_mcs_from_bler E (m_rest (s_mac st)) ?ue ?max (p_frame p)) = (x, bm, mcs)"
      by (metis prod_cases3)
    then have x: "rest_run E (m_rest (s_mac st)) x"
      using rest_step_intros(5) [of E "m_rest (s_mac st)"] by (auto split: if_split_asm)
    have limit: "mcs_law E \<longrightarrow> mcs \<le> ul_mcs_limit C (m_la (s_mac st)) (u_rnti ?ue)"
    proof
      assume law: "mcs_law E"
      have "mcs \<le> ?max"
      proof (cases "cfg_harq_round_max C = 1")
        case False
        have "snd (snd (get_mcs_from_bler E (m_rest (s_mac st)) ?ue ?max (p_frame p))) \<le> ?max"
          using law unfolding mcs_law_def by blast
        then show ?thesis using m False by simp
      qed (use m in simp)
      also have "?max \<le> ul_mcs_limit C (m_la (s_mac st)) (u_rnti ?ue)"
        unfolding ul_mcs_limit_def by (rule la_max_mcs_mono) simp
      finally show "mcs \<le> ul_mcs_limit C (m_la (s_mac st)) (u_rnti ?ue)" .
    qed
    have "\<exists>c. us_UE c = i \<and> selected_mcs c = mcs \<and> st' = st\<lparr>s_mac := upd_ue i (?ue\<lparr>u_bler_mcs := bm\<rparr>) ((s_mac st)\<lparr>m_rest := x\<rparr>),
        UE_sched := UE_sched st @ [c]\<rparr>"
    proof (cases "ul_pf_tbs (ul_phy (e_lib E)) (ul_mcs_table (u_bwp ?ue)) mcs")
      case None
      then show ?thesis using assms False unfolding ul_new_candidate_def Let_def t m prod.case by simp
    next
      case (Some tbs)
      note eq = assms [unfolded ul_new_candidate_def Let_def t m prod.case if_not_P [OF False] Some option.case sum.inject(2)]
      show ?thesis by (rule exI, rule conjI [OF _ conjI [OF _ eq [symmetric]]]) simp_all
    qed
    then show ?thesis using x limit by blast
  qed
qed

lemma new_candidate_inv:
  assumes inv: "pass_inv E C p n mac ps st" and i: "i < length (m_ues mac)" "\<not> u_ul_failure (m_ues mac ! i)"
    and run: "ul_new_candidate E C p dn nb i st = Inr st'"
  shows "pass_inv E C p n mac ps st'"
proof -
  let ?m = "s_mac st"
  note ues = pass_inv_ues [OF inv]
  have start: "ul_run E C p ?m [] ?m" by (rule ul_run.start)
  consider (skip) "st' = st\<lparr>s_mac := reset_dci_beam E p (m_ues ?m ! i) dn (reset_pusch_beam E C p (m_ues ?m ! i) nb ?m)\<rparr>"
    | (cand) x bm c where "rest_run E (m_rest ?m) x" "us_UE c = i"
      "mcs_law E \<longrightarrow> selected_mcs c \<le> ul_mcs_limit C (m_la ?m) (u_rnti (m_ues ?m ! i))"
      "st' = st\<lparr>s_mac := upd_ue i ((m_ues ?m ! i)\<lparr>u_bler_mcs := bm\<rparr>) (?m\<lparr>m_rest := x\<rparr>), UE_sched := UE_sched st @ [c]\<rparr>"
    using ul_new_candidate_cases [OF run] by blast
  then show ?thesis
  proof cases
    case skip
    then show ?thesis using pass_inv_quiet [OF inv ul_run_reset(2) [OF ul_run_reset(1) [OF start]]] by simp
  next
    case cand
    have "ul_run E C p ?m [] (upd_ue i ((m_ues ?m ! i)\<lparr>u_bler_mcs := bm\<rparr>) (?m\<lparr>m_rest := x\<rparr>))"
      by (rule ul_run.book [OF ul_run.rest [OF start cand(1)]]) (use i ues in simp_all)
    moreover have "cand_ok E C mac c" using cand(2,3) i ues by (simp add: cand_ok_def)
    ultimately show ?thesis
      using pass_inv_quiet [OF inv] cand(4) by (auto simp: pass_inv_def total_rem_ues_def)
  qed
qed

section \<open>The loop over the connected UEs\<close>

lemma pf_ul_ue_inv:
  assumes inv: "pass_inv E C p n mac ps st" and beams: "beam_law E (p_num_beams p)"
    and i: "i < length (m_ues mac)" and run: "pf_ul_ue E C p i st = Inr st'"
  shows "\<exists>ps'. pass_inv E C p n mac ps' st'"
proof (cases "u_ul_failure (m_ues (s_mac st) ! i)")
  case True
  then show ?thesis using run inv by (auto simp: pf_ul_ue_def Let_def)
next
  case False
  note ues = pass_inv_ues [OF inv]
  have ok: "\<not> u_ul_failure (m_ues mac ! i)" using False ues(2) [OF i] by simp
  define ue where "ue = (m_ues (s_mac st) ! i)\<lparr>u_ul_thr_ue := update_thr (u_ul_thr_ue (m_ues (s_mac st) ! i))
    (u_current_bytes (m_ues (s_mac st) ! i)), u_current_bytes := 0, u_current_rbs := 0\<rparr>"
  define m1 where "m1 = upd_ue i ue (s_mac st)"
  have r1: "ul_run E C p (s_mac st) [] m1"
    unfolding m1_def ue_def by (rule ul_run.book [OF ul_run.start]) (use i ues False in simp_all)
  obtain x1 dci dn where b1: "beam_allocation_procedure E (m_rest m1) (p_frame p) (p_slot p) (u_beam_index ue) = (x1, dci, dn)"
    by (metis prod_cases3)
  obtain f s where t: "pass_time E C p = (f, s)" by fastforce
  obtain x2 beam nb where b2: "beam_allocation_procedure E x1 f s (u_beam_index ue) = (x2, beam, nb)"
    by (metis prod_cases3)
  let ?m2 = "m1\<lparr>m_rest := x1\<rparr>" and ?m3 = "m1\<lparr>m_rest := x2\<rparr>"
  have x: "rest_run E (m_rest m1) x1" "rest_run E (m_rest m1) x2"
    using rest_step_intros(3) [OF b1] rest_step_intros(3) [OF b2] by (auto intro: rtranclp.rtrancl_into_rtrancl)
  have r2: "ul_run E C p (s_mac st) [] ?m2" and r3: "ul_run E C p (s_mac st) [] ?m3"
    by (rule ul_run.rest [OF r1], rule x)+
  let ?st3 = "st\<lparr>s_mac := ?m3\<rparr>"
  have inv3: "pass_inv E C p n mac ps ?st3" by (rule pass_inv_quiet [OF inv r3])
  have ue3: "m_ues ?m3 ! i = ue" using i ues by (simp add: m1_def)
  have bl: "beam < int (p_num_beams p)"
    using beams b2 unfolding beam_law_def by (metis fst_conv snd_conv)
  let ?pid = "nl_head (e_lists E) (retrans_harq (u_ctrl ue))"
  have eq: "Inr st' =
     (if total_rem_ues p (st\<lparr>s_mac := m1\<rparr>) = 0 then Inr (st\<lparr>s_mac := m1\<rparr>)
      else if dci < 0 then Inr (st\<lparr>s_mac := ?m2\<rparr>)
      else if beam < 0 then Inr (st\<lparr>s_mac := reset_dci_beam E p ue dn ?m3\<rparr>)
      else if 0 \<le> ?pid then
        (case allocate_ul_retransmission E C p beam dci i ?pid ?m3 of
           Inl e \<Rightarrow> Inl e
         | Inr (False, m) \<Rightarrow> Inr (st\<lparr>s_mac := reset_dci_beam E p ue dn (reset_pusch_beam E C p ue nb m)\<rparr>)
         | Inr (True, m) \<Rightarrow> Inr (st\<lparr>s_mac := m, remainUEs := (remainUEs st)(beam := remainUEs st beam - 1),
              scheduled_something := True\<rparr>))
      else if ?pid \<noteq> -1 then Inl BadHarqPid
      else if nl_head (e_lists E) (available_harq (u_ctrl ue)) < 0
      then Inr (st\<lparr>s_mac := reset_dci_beam E p ue dn (reset_pusch_beam E C p ue nb ?m3)\<rparr>)
      else ul_new_candidate E C p dn nb i ?st3)"
    using run [symmetric] unfolding pf_ul_ue_def Let_def if_not_P [OF False] ue_def [symmetric] m1_def [symmetric] b1 t prod.case
    by (simp add: b2 cong: if_cong sum.case_cong prod.case_cong bool.case_cong split del: if_split)
  note reset = ul_run_reset [where ue = ue]
  consider (full) "st' = st\<lparr>s_mac := m1\<rparr>"
    | (nodci) "st' = st\<lparr>s_mac := ?m2\<rparr>"
    | (nobeam) "st' = st\<lparr>s_mac := reset_dci_beam E p ue dn ?m3\<rparr>"
    | (retx) b m' where "0 \<le> ?pid" "allocate_ul_retransmission E C p beam dci i ?pid ?m3 = Inr (b, m')"
        "total_rem_ues p (st\<lparr>s_mac := m1\<rparr>) \<noteq> 0" "0 \<le> beam"
        "st' = (if b then st\<lparr>s_mac := m', remainUEs := (remainUEs st)(beam := remainUEs st beam - 1), scheduled_something := True\<rparr>
               else st\<lparr>s_mac := reset_dci_beam E p ue dn (reset_pusch_beam E C p ue nb m')\<rparr>)"
    | (nofree) "st' = st\<lparr>s_mac := reset_dci_beam E p ue dn (reset_pusch_beam E C p ue nb ?m3)\<rparr>"
    | (cand) "ul_new_candidate E C p dn nb i ?st3 = Inr st'"
    using eq by (auto split: if_split_asm sum.split_asm prod.split_asm bool.split_asm)
  then show ?thesis
  proof cases
    case full
    then show ?thesis using pass_inv_quiet [OF inv r1] by blast
  next
    case nodci
    then show ?thesis using pass_inv_quiet [OF inv r2] by blast
  next
    case nobeam
    then show ?thesis using pass_inv_quiet [OF inv reset(2) [OF r3]] by blast
  next
    case retx
    obtain qs where qs: "ul_run E C p ?m3 qs m'" "length qs = (if b then 1 else 0)"
      using allocate_run [OF retx(2)] i ok ues ue3 retx(1) pass_inv_ues [OF inv3] by auto
    have run: "ul_run E C p (s_mac st) qs m'" using ul_run_trans [OF qs(1) r3] by simp
    show ?thesis
    proof (cases b)
      case True
      then obtain q where q: "qs = [q]" using qs(2) by (cases qs) auto
      have left: "p_num_beams p = 1 \<Longrightarrow> remainUEs st 0 \<noteq> 0" using retx(3) by (simp add: total_rem_ues_def)
      have "pass_inv E C p n mac (ps @ [q]) st'"
        by (rule pass_inv_grant [OF inv run [unfolded q] retx(4) bl left]) (use retx(5) True in simp_all)
      then show ?thesis by blast
    next
      case False
      then have "ul_run E C p (s_mac st) [] m'" using run qs by simp
      then show ?thesis using pass_inv_quiet [OF inv reset(2) [OF reset(1)]] retx(5) False by auto
    qed
  next
    case nofree
    then show ?thesis using pass_inv_quiet [OF inv reset(2) [OF reset(1) [OF r3]]] by blast
  next
    case cand
    then show ?thesis using new_candidate_inv [OF inv3 i ok] by blast
  qed
qed

section \<open>The loop over the candidates\<close>

lemma pf_ul_grant_eq:
  assumes "ue = m_ues (s_mac st) ! us_UE cand"
    and "k = rk_ue_la_get_min_grant_prb (g_tbl (m_la (s_mac st))) (u_rnti ue) (cfg_min_grant_prb C)"
    and "pass_time E C p = (f, s)"
    and "beam_allocation_procedure E (m_rest (s_mac st)) f s (u_beam_index ue) = (x1, beam, nb)"
    and "beam_allocation_procedure E x1 (p_frame p) (p_slot p) (u_beam_index ue) = (x2, dci, dn)"
    and "get_cce_index E x2 (u_rnti ue) (p_slot p) dci = (x3, cce)" and "bits = grant_bits E (p_tda_info p)"
  shows "pf_ul_grant E C p cand st =
     (if beam < 0 then Inr (st\<lparr>s_mac := (s_mac st)\<lparr>m_rest := x1\<rparr>\<rparr>)
      else if remainUEs st beam = 0 \<or> n_rb_sched st beam < k
      then Inr (st\<lparr>s_mac := reset_pusch_beam E C p ue nb ((s_mac st)\<lparr>m_rest := x1\<rparr>)\<rparr>)
      else if dci < 0 then Inr (st\<lparr>s_mac := reset_pusch_beam E C p ue nb ((s_mac st)\<lparr>m_rest := x2\<rparr>)\<rparr>)
      else if cce < 0 then Inr (st\<lparr>s_mac := reset_pusch_beam E C p ue nb (reset_dci_beam E p ue dn (upd_ue (us_UE cand) (ue\<lparr>u_ul_cce_fail := u_ul_cce_fail ue + 1\<rparr>) ((s_mac st)\<lparr>m_rest := x3\<rparr>)))\<rparr>)
      else
        (case ul_find_rbs (rballoc_mask E C p (s_mac st) beam) bits (get_pusch_bwp_start_size ue) k (sched_inactive cand) of
           None \<Rightarrow> Inr (st\<lparr>s_mac := reset_pusch_beam E C p ue nb (reset_dci_beam E p ue dn ((s_mac st)\<lparr>m_rest := x3\<rparr>))\<rparr>)
         | Some place \<Rightarrow>
             (case ul_size_grant (e_lib E) (m_assoc (s_mac st)) ue cand k place (f, s)
                     (get_ul_nrOfLayers E ue) (p_tda_info p) (p_tda p) of
                Inl e \<Rightarrow> Inl (PowerError e)
              | Inr (sched, bm) \<Rightarrow>
                  (case post_process_ulsch E C (us_UE cand) sched ((upd_ue (us_UE cand) (ue\<lparr>u_bler_mcs := bm, u_cce_index := cce\<rparr>) ((s_mac st)\<lparr>m_rest := x3\<rparr>))
                        \<lparr>m_rest := fill_pdcch_vrb_map E x3 (u_rnti ue) cce dci\<rparr>) of
                     Inl e \<Rightarrow> Inl e
                   | Inr m \<Rightarrow> Inr (st\<lparr>s_mac := mark_grant E C p beam sched bits m,
                              n_rb_sched := (n_rb_sched st)(beam := n_rb_sched st beam - sp_rbSize sched),
                              remainUEs := (remainUEs st)(beam := remainUEs st beam - 1),
                              scheduled_something := True\<rparr>)))))"
  unfolding pf_ul_grant_def Let_def assms(1) [symmetric] assms(2) [symmetric] assms(3) assms(7) [symmetric] prod.case
  by (simp add: assms(4-6) cong: if_cong sum.case_cong prod.case_cong option.case_cong split del: if_split)

lemma pf_ul_grant_inv:
  assumes inv: "pass_inv E C p n mac ps st" and beams: "beam_law E (p_num_beams p)"
    and cand: "cand_ok E C mac cand"
    and run: "pf_ul_grant E C p cand st = Inr st'"
  shows "\<exists>ps'. pass_inv E C p n mac ps' st'"
proof -
  note ues = pass_inv_ues [OF inv]
  have i: "us_UE cand < length (m_ues mac)" "\<not> u_ul_failure (m_ues mac ! us_UE cand)"
    using cand by (simp_all add: cand_ok_def)
  let ?i = "us_UE cand" and ?mac = "s_mac st"
  define ue where "ue = m_ues ?mac ! ?i"
  define k where "k = rk_ue_la_get_min_grant_prb (g_tbl (m_la ?mac)) (u_rnti ue) (cfg_min_grant_prb C)"
  have mcs: "mcs_law E \<longrightarrow> selected_mcs cand \<le> ul_mcs_limit C (m_la ?mac) (u_rnti ue)"
    using cand i ues by (simp add: cand_ok_def ue_def)
  define bits where "bits = grant_bits E (p_tda_info p)"
  obtain f s where t: "pass_time E C p = (f, s)" by fastforce
  obtain x1 beam nb where b1: "beam_allocation_procedure E (m_rest ?mac) f s (u_beam_index ue) = (x1, beam, nb)"
    by (metis prod_cases3)
  obtain x2 dci dn where b2: "beam_allocation_procedure E x1 (p_frame p) (p_slot p) (u_beam_index ue) = (x2, dci, dn)"
    by (metis prod_cases3)
  obtain x3 cce where c: "get_cce_index E x2 (u_rnti ue) (p_slot p) dci = (x3, cce)" by fastforce
  let ?m = "\<lambda>x. ?mac\<lparr>m_rest := x\<rparr>"
  define X where "X = {x. rest_run E (m_rest ?mac) x}"
  have X: "x1 \<in> X" "x2 \<in> X" "x3 \<in> X"
    using rest_step_intros(3) [OF b1] rest_step_intros(3) [OF b2] rest_step_intros(4) [OF c]
    by (auto simp: X_def intro: rtranclp.rtrancl_into_rtrancl)
  have r: "ul_run E C p ?mac [] (?m x)" if "x \<in> X" for x
    by (rule ul_run.rest [OF ul_run.start]) (use that in \<open>simp add: X_def\<close>)
  have bl: "beam < int (p_num_beams p)"
    using beams b1 unfolding beam_law_def by (metis fst_conv snd_conv)
  let ?fail = "upd_ue ?i (ue\<lparr>u_ul_cce_fail := u_ul_cce_fail ue + 1\<rparr>) (?m x3)"
  have rf: "ul_run E C p ?mac [] ?fail"
    by (rule ul_run.book [OF r [OF X(3)]]) (use i ues in \<open>simp_all add: ue_def\<close>)
  let ?booked = "\<lambda>bm. (upd_ue ?i (ue\<lparr>u_bler_mcs := bm, u_cce_index := cce\<rparr>) (?m x3))
      \<lparr>m_rest := fill_pdcch_vrb_map E x3 (u_rnti ue) cce dci\<rparr>"
  have r5: "ul_run E C p ?mac [] (?booked bm)" for bm
    by (rule ul_run.rest, rule ul_run.book [OF r [OF X(3)]]) (use i ues in \<open>simp_all add: ue_def rest_run_fill\<close>)
  note eq = pf_ul_grant_eq [OF ue_def k_def t b1 b2 c bits_def, unfolded run]
  let ?Q = "\<lambda>st'. \<exists>ps'. pass_inv E C p n mac ps' st'"
  have quiet: "?Q (st\<lparr>s_mac := ?m x\<rparr>)" "?Q (st\<lparr>s_mac := reset_pusch_beam E C p ue nb (?m x)\<rparr>)"
    "?Q (st\<lparr>s_mac := reset_pusch_beam E C p ue nb (reset_dci_beam E p ue dn ?fail)\<rparr>)"
    "?Q (st\<lparr>s_mac := reset_pusch_beam E C p ue nb (reset_dci_beam E p ue dn (?m x))\<rparr>)" if "x \<in> X" for x
    using that pass_inv_quiet [OF inv r] pass_inv_quiet [OF inv ul_run_reset(1) [OF r]]
      pass_inv_quiet [OF inv ul_run_reset(1) [OF ul_run_reset(2) [OF rf]]]
      pass_inv_quiet [OF inv ul_run_reset(1) [OF ul_run_reset(2) [OF r]]] by blast+
  show ?thesis
  proof (cases "beam < 0 \<or> remainUEs st beam = 0 \<or> n_rb_sched st beam < k \<or> dci < 0 \<or> cce < 0")
    case True
    then have "st' = st\<lparr>s_mac := ?m x1\<rparr> \<or> st' = st\<lparr>s_mac := reset_pusch_beam E C p ue nb (?m x1)\<rparr> \<or>
      st' = st\<lparr>s_mac := reset_pusch_beam E C p ue nb (?m x2)\<rparr> \<or>
      st' = st\<lparr>s_mac := reset_pusch_beam E C p ue nb (reset_dci_beam E p ue dn ?fail)\<rparr>"
      using eq by (simp split: if_split_asm)
    then show ?thesis using quiet X by blast
  next
    case False
    consider (full) "st' = st\<lparr>s_mac := reset_pusch_beam E C p ue nb (reset_dci_beam E p ue dn (?m x3))\<rparr>"
      | (grant) place sched bm m where
        "ul_find_rbs (rballoc_mask E C p ?mac beam) bits (get_pusch_bwp_start_size ue) k (sched_inactive cand) = Some place"
        "ul_size_grant (e_lib E) (m_assoc ?mac) ue cand k place (f, s) (get_ul_nrOfLayers E ue) (p_tda_info p) (p_tda p) =
          Inr (sched, bm)" "post_process_ulsch E C ?i sched (?booked bm) = Inr m"
        "st' = st\<lparr>s_mac := mark_grant E C p beam sched bits m,
           n_rb_sched := (n_rb_sched st)(beam := n_rb_sched st beam - sp_rbSize sched),
           remainUEs := (remainUEs st)(beam := remainUEs st beam - 1), scheduled_something := True\<rparr>"
      using eq False by (cases "ul_find_rbs (rballoc_mask E C p ?mac beam) bits (get_pusch_bwp_start_size ue) k (sched_inactive cand)")
        (simp_all split: sum.split_asm prod.split_asm)
    then show ?thesis
    proof cases
      case full
      then show ?thesis using quiet X by blast
    next
      case grant
      have "new_decision E C p (?booked bm) beam ?i sched"
        unfolding new_decision_def Let_def t
        by (intro exI [of _ ue] exI [of _ cand] exI [of _ place] exI [of _ bm])
          (use grant(1,2) i ues(1-3) mcs in \<open>simp add: ue_def [symmetric] k_def [symmetric] bits_def [symmetric]\<close>)
      from ul_run.new [OF r5 _ _ this grant(3)]
      obtain q where q: "ul_run E C p ?mac [q] (mark_grant E C p beam sched bits m)"
        using i ues by (auto simp: bits_def ue_def)
      have left: "p_num_beams p = 1 \<Longrightarrow> remainUEs st 0 \<noteq> 0"
        using False bl by (cases "beam = 0") auto
      have "pass_inv E C p n mac (ps @ [q]) st'"
        by (rule pass_inv_grant [OF inv q _ bl left]) (use False grant(4) in simp_all)
      then show ?thesis by blast
    qed
  qed
qed

section \<open>The pass\<close>

text \<open>The sorted array holds nothing but candidates.\<close>

definition qsort_members :: "('q, 'x) ul_env \<Rightarrow> bool" where
  "qsort_members E \<longleftrightarrow> (\<forall>cmp xs. set (e_qsort E cmp xs) \<subseteq> set xs)"

lemma pf_ul_inv:
  assumes laws: "beam_law E (p_num_beams p)" "qsort_members E" and pos: "0 \<le> max_num_ue"
    and l: "fold_res (pf_ul_ue E C p) [0..<length (m_ues mac)]
       \<lparr>s_mac = mac, remainUEs = (\<lambda>_. max_num_ue), n_rb_sched = rbs, UE_sched = [], scheduled_something = False\<rparr> = Inr st"
    and g: "fold_res (pf_ul_grant E C p) (e_qsort E ul_comparator (UE_sched st)) st = Inr st'"
  shows "\<exists>ps. pass_inv E C p max_num_ue mac ps st'"
proof -
  have sum: "(\<Sum>b \<leftarrow> [0..<k]. max_num_ue) = int k * max_num_ue" for k
    by (induction k) (simp_all add: algebra_simps)
  have start: "\<exists>ps. pass_inv E C p max_num_ue mac ps
      \<lparr>s_mac = mac, remainUEs = (\<lambda>_. max_num_ue), n_rb_sched = rbs, UE_sched = [], scheduled_something = False\<rparr>"
    using pos by (intro exI [of _ "[]"]) (simp add: pass_inv_def total_rem_ues_def sum ul_run.start)
  have inv: "\<exists>ps. pass_inv E C p max_num_ue mac ps st"
    using l start
  proof (rule fold_res_inv [where P = "\<lambda>st. \<exists>ps. pass_inv E C p max_num_ue mac ps st"], goal_cases)
    case (1 i s s')
    then show ?case using pf_ul_ue_inv [OF _ laws(1)] by (metis atLeastLessThan_iff set_upt)
  qed
  have cands: "cand_ok E C mac c" if "c \<in> set (e_qsort E ul_comparator (UE_sched st))" for c
    using that inv laws(2) unfolding qsort_members_def pass_inv_def by blast
  show ?thesis
    using g inv
  proof (rule fold_res_inv [where P = "\<lambda>st. \<exists>ps. pass_inv E C p max_num_ue mac ps st"], goal_cases)
    case (1 c s s')
    then show ?case using pf_ul_grant_inv [OF _ laws(1)] cands by metis
  qed
qed

lemma pass_inv_count:
  assumes "pass_inv E C p n mac ps st"
  shows "int (p_num_beams p) * n - total_rem_ues p st = int (length ps)" "scheduled_something st = (ps \<noteq> [])"
    "p_num_beams p = 1 \<Longrightarrow> int (length ps) \<le> n"
proof -
  show "int (p_num_beams p) * n - total_rem_ues p st = int (length ps)" "scheduled_something st = (ps \<noteq> [])"
    using assms by (auto simp: pass_inv_def)
  assume one: "p_num_beams p = 1"
  then have "total_rem_ues p st = remainUEs st 0" by (simp add: total_rem_ues_def)
  then show "int (length ps) \<le> n" using assms one by (simp add: pass_inv_def)
qed

text \<open>The state a pass starts from: the MAC with the policy table reloaded.\<close>

definition la_reloaded :: "int \<Rightarrow> (int \<times> int) option \<Rightarrow> string option \<Rightarrow> ('q, 'x) ul_mac \<Rightarrow> ('q, 'x) ul_mac" where
  "la_reloaded now_ms stat cfg_file mac = mac\<lparr>m_la := rk_ue_la_reload_if_needed now_ms stat cfg_file (m_la mac)\<rparr>"

lemma pf_ul_is_run:
  assumes laws: "beam_law E (p_num_beams p)" "qsort_members E" and pos: "0 \<le> max_num_ue"
    and run: "pf_ul E C now_ms stat cfg_file p max_num_ue rbs mac = Inr (n, mac')"
  shows "\<exists>ps. ul_run E C p (la_reloaded now_ms stat cfg_file mac) ps mac' \<and> n = int (length ps) \<and>
    (p_num_beams p = 1 \<longrightarrow> n \<le> max_num_ue)"
proof -
  let ?mac = "la_reloaded now_ms stat cfg_file mac"
  let ?st = "\<lparr>s_mac = ?mac, remainUEs = (\<lambda>_. max_num_ue), n_rb_sched = rbs, UE_sched = [], scheduled_something = False\<rparr>"
  have len: "length (m_ues ?mac) = length (m_ues mac)" by (simp add: la_reloaded_def)
  obtain st st' where l: "fold_res (pf_ul_ue E C p) [0..<length (m_ues ?mac)] ?st = Inr st"
    and g: "fold_res (pf_ul_grant E C p) (e_qsort E ul_comparator (UE_sched st)) st = Inr st'"
    and n: "n = int (p_num_beams p) * max_num_ue - total_rem_ues p st'" "mac' = s_mac st'"
    using run unfolding len by (auto simp: pf_ul_def Let_def la_reloaded_def split: if_splits sum.splits)
  obtain ps where "pass_inv E C p max_num_ue ?mac ps st'" using pf_ul_inv [OF laws pos l g] by blast
  then show ?thesis using pass_inv_count [of E C p max_num_ue ?mac ps st'] n by (auto simp: pass_inv_def)
qed

text \<open>
  The assertions of \<^verbatim>\<open>pf_ul\<close> itself: valid TDA, uplink slot, and the count of scheduled UEs at its
  end.  None of the functions it calls reports them, and the last one cannot fail.
\<close>

definition pf_ul_asserts :: "ul_error set" where
  "pf_ul_asserts = {BadTda, NotUlSlot, BadCount}"

lemma post_process_no_assert:
  "post_process_ulsch E C i sched m \<noteq> Inl BadTda"
  "post_process_ulsch E C i sched m \<noteq> Inl NotUlSlot"
  "post_process_ulsch E C i sched m \<noteq> Inl BadCount"
  by (auto simp: post_process_ulsch_def Let_def split: sum.splits prod.splits if_splits)

lemma allocate_no_assert:
  "allocate_ul_retransmission E C p beam dci i pid m \<noteq> Inl BadTda"
  "allocate_ul_retransmission E C p beam dci i pid m \<noteq> Inl NotUlSlot"
  "allocate_ul_retransmission E C p beam dci i pid m \<noteq> Inl BadCount"
  by (auto simp: allocate_ul_retransmission_def Let_def post_process_no_assert
      split: sum.splits option.splits prod.splits if_splits)

lemma new_candidate_no_assert:
  "ul_new_candidate E C p dn nb i st \<noteq> Inl BadTda"
  "ul_new_candidate E C p dn nb i st \<noteq> Inl NotUlSlot"
  "ul_new_candidate E C p dn nb i st \<noteq> Inl BadCount"
  by (simp_all add: ul_new_candidate_def Let_def split: option.split prod.split)

lemma pf_ul_ue_no_assert: "pf_ul_ue E C p i st = Inl e \<Longrightarrow> e \<notin> pf_ul_asserts"
  by (auto simp: pf_ul_ue_def Let_def pf_ul_asserts_def allocate_no_assert new_candidate_no_assert
      split: if_split_asm sum.split_asm prod.split_asm bool.split_asm)

lemma pf_ul_grant_no_assert: "pf_ul_grant E C p cand st = Inl e \<Longrightarrow> e \<notin> pf_ul_asserts"
  by (auto simp: pf_ul_grant_def Let_def pf_ul_asserts_def post_process_no_assert
      split: if_split_asm sum.split_asm prod.split_asm option.split_asm)

lemma pf_ul_count:
  assumes laws: "beam_law E (p_num_beams p)" "qsort_members E" and pos: "0 \<le> max_num_ue"
    and ok: "valid_tda (p_tda_info p)" "is_ul_slot E (snd (pass_time E C p))" and e: "e \<in> pf_ul_asserts"
  shows "pf_ul E C now_ms stat cfg_file p max_num_ue rbs mac \<noteq> Inl e"
proof
  assume bad: "pf_ul E C now_ms stat cfg_file p max_num_ue rbs mac = Inl e"
  let ?mac = "la_reloaded now_ms stat cfg_file mac"
  let ?st = "\<lparr>s_mac = ?mac, remainUEs = (\<lambda>_. max_num_ue), n_rb_sched = rbs, UE_sched = [], scheduled_something = False\<rparr>"
  have len: "length (m_ues ?mac) = length (m_ues mac)" by (simp add: la_reloaded_def)
  have "fold_res (pf_ul_ue E C p) [0..<length (m_ues ?mac)] ?st \<noteq> Inl e"
    "fold_res (pf_ul_grant E C p) cs st \<noteq> Inl e" for cs st
    using fold_res_Inl pf_ul_ue_no_assert pf_ul_grant_no_assert e by metis+
  with bad ok obtain st st' where l: "fold_res (pf_ul_ue E C p) [0..<length (m_ues ?mac)] ?st = Inr st"
    and g: "fold_res (pf_ul_grant E C p) (e_qsort E ul_comparator (UE_sched st)) st = Inr st'"
    and n: "\<not> (let k = int (p_num_beams p) * max_num_ue - total_rem_ues p st' in
      (k = 0 \<and> \<not> scheduled_something st') \<or> (0 < k \<and> scheduled_something st'))"
    unfolding len by (auto simp: pf_ul_def Let_def la_reloaded_def split: if_splits sum.splits)
  obtain ps where "pass_inv E C p max_num_ue ?mac ps st'" using pf_ul_inv [OF laws pos l g] by blast
  then show False using pass_inv_count(1,2) [of E C p max_num_ue ?mac ps st'] n by (auto simp: Let_def)
qed

end
