(* ===== verification/UlGuarantees.thy ===== *)
theory UlGuarantees imports UlPass begin

text \<open>
  What a pass of the uplink scheduler guarantees: it is a sequence of legal steps, its effect on the
  state is confined to its own PUSCH slot, it keeps the HARQ processes of every UE in order and it
  respects the caps of the slices.
\<close>

section \<open>A cell to instantiate the properties on\<close>

text \<open>The construction of DCIs and the rest of the MAC are left open.\<close>

definition ul_env_example_with ::
    "('x \<Rightarrow> int list ul_ue \<Rightarrow> NR_sched_pusch_t \<Rightarrow> int \<Rightarrow> 'x) \<Rightarrow> (int list, 'x) ul_env" where
  "ul_env_example_with emit = \<lparr>e_lib = ul_lib_example, e_lists = list_ops, e_qsort = (\<lambda>cmp. isort_by cmp),
     beam_allocation_procedure = (\<lambda>x f s b. (x, 0, False)), reset_beam_status = (\<lambda>x f s b n. x),
     get_cce_index = (\<lambda>x r s b. (x, 0)), fill_pdcch_vrb_map = (\<lambda>x r c b. x),
     get_mcs_from_bler = (\<lambda>x ue m f. (x, 9, 9)), get_ul_nrOfLayers = (\<lambda>ue. 1),
     vrb_buffer_index = (\<lambda>f s. s), req_buffer_index = (\<lambda>f s. s), is_ul_slot = (\<lambda>s. s = 3),
     emit_dci = emit\<rparr>"

abbreviation ul_env_example :: "(int list, unit) ul_env" where
  "ul_env_example \<equiv> ul_env_example_with (\<lambda>x ue s h. ())"

definition ul_cfg_example :: ul_cfg where
  "ul_cfg_example = \<lparr>cfg_fs = \<lparr>numb_slots_frame = 20, numb_slots_period = 10, is_tdd = True\<rparr>,
     cfg_first_ul_slot = 3, cfg_min_grant_prb = 5, cfg_max_frame_inactivity = 10, cfg_harq_round_max = 4,
     cfg_bler_max_mcs = 20, cfg_disable_harq = False, cfg_MAX_BWP_SIZE = 275, cfg_max_pdus = 8\<rparr>"

definition ul_pass_example :: ul_pass where
  "ul_pass_example = \<lparr>p_frame = 1, p_slot = 0, p_tda = 0, p_tda_info = tda_example, p_num_beams = 1\<rparr>"

definition ul_mac_example_with :: "'x \<Rightarrow> (int list, 'x) ul_mac" where
  "ul_mac_example_with x = \<lparr>m_ues = [ul_ue_example 0], m_vrb_map_UL = (\<lambda>b i. 0), m_assoc = g_rk_slice_assoc_init,
     m_runtime = g_rk_slice_runtime_init, m_la = la_state_init, m_ul_req = (\<lambda>i. []), m_rest = x\<rparr>"

abbreviation ul_mac_example :: "(int list, unit) ul_mac" where
  "ul_mac_example \<equiv> ul_mac_example_with ()"

lemma ul_example_laws:
  "beam_law (ul_env_example_with emit) (p_num_beams ul_pass_example)" "qsort_members (ul_env_example_with emit)"
  "nr_list_laws (e_lists (ul_env_example_with emit)) (\<lambda>q. q)"
proof -
  show "beam_law (ul_env_example_with emit) (p_num_beams ul_pass_example)"
    by (simp add: beam_law_def ul_env_example_with_def ul_pass_example_def)
  have "set (isort_by cmp xs) = set xs" for cmp :: "ul_UEsched_t \<Rightarrow> ul_UEsched_t \<Rightarrow> int" and xs
    by (metis mset_isort_by set_mset_mset)
  then show "qsort_members (ul_env_example_with emit)" by (simp add: qsort_members_def ul_env_example_with_def)
  show "nr_list_laws (e_lists (ul_env_example_with emit)) (\<lambda>q. q)" by (simp add: ul_env_example_with_def list_ops_laws)
qed

lemma ul_env_sel:
  "e_lib (ul_env_example_with emit) = ul_lib_example"
  "e_lists (ul_env_example_with emit) = list_ops"
  "e_qsort (ul_env_example_with emit) = (\<lambda>cmp. isort_by cmp)"
  "beam_allocation_procedure (ul_env_example_with emit) x f s b = (x, 0, False)"
  "reset_beam_status (ul_env_example_with emit) x f s b nw = x"
  "get_cce_index (ul_env_example_with emit) x r s b = (x, 0)"
  "fill_pdcch_vrb_map (ul_env_example_with emit) x r k b = x"
  "get_mcs_from_bler (ul_env_example_with emit) x ue m f = (x, 9, 9)"
  "get_ul_nrOfLayers (ul_env_example_with emit) ue = 1"
  "vrb_buffer_index (ul_env_example_with emit) f s = s"
  "req_buffer_index (ul_env_example_with emit) f s = s"
  "is_ul_slot (ul_env_example_with emit) s = (s = 3)"
  "emit_dci (ul_env_example_with emit) = emit"
  by (simp_all add: ul_env_example_with_def)

lemma ul_cfg_sel:
  "cfg_fs ul_cfg_example = \<lparr>numb_slots_frame = 20, numb_slots_period = 10, is_tdd = True\<rparr>"
  "cfg_first_ul_slot ul_cfg_example = 3"
  "cfg_min_grant_prb ul_cfg_example = 5"
  "cfg_max_frame_inactivity ul_cfg_example = 10"
  "cfg_harq_round_max ul_cfg_example = 4"
  "cfg_bler_max_mcs ul_cfg_example = 20"
  "cfg_disable_harq ul_cfg_example = False"
  "cfg_MAX_BWP_SIZE ul_cfg_example = 275"
  "cfg_max_pdus ul_cfg_example = 8"
  by (simp_all add: ul_cfg_example_def)

lemma ul_pass_sel:
  "p_frame ul_pass_example = 1"
  "p_slot ul_pass_example = 0"
  "p_tda ul_pass_example = 0"
  "p_tda_info ul_pass_example = tda_example"
  "p_num_beams ul_pass_example = 1"
  by (simp_all add: ul_pass_example_def)

lemma ul_mac_sel:
  "m_ues (ul_mac_example_with x0) = [ul_ue_example 0]"
  "m_vrb_map_UL (ul_mac_example_with x0) = (\<lambda>b i. 0)"
  "m_assoc (ul_mac_example_with x0) = g_rk_slice_assoc_init"
  "m_runtime (ul_mac_example_with x0) = g_rk_slice_runtime_init"
  "m_la (ul_mac_example_with x0) = la_state_init"
  "m_ul_req (ul_mac_example_with x0) = (\<lambda>i. [])" "m_rest (ul_mac_example_with x0) = x0"
  by (simp_all add: ul_mac_example_with_def)

lemma ul_ue_sel:
  "u_rnti (ul_ue_example st) = 7"
  "u_ul_failure (ul_ue_example st) = False"
  "u_beam_index (ul_ue_example st) = 0"
  "u_ctrl (ul_ue_example st) = ul_example [0, 1] [] []"
  "u_estimated_ul_buffer (ul_ue_example st) = 100"
  "u_pcmax (ul_ue_example st) = 0"
  "u_ph (ul_ue_example st) = 0"
  "u_transm_interrupt (ul_ue_example st) = False"
  "ul_mcs_table (u_bwp (ul_ue_example st)) = 0"
  "u_bler_mcs (ul_ue_example st) = 9"
  by (simp_all add: ul_ue_example_def)

lemma ul_harq_sel:
  "nl_head list_ops (x # xs) = x" "nl_head list_ops [] = -1" "available_harq (ul_example A F R) = A"
  "feedback_harq (ul_example A F R) = F" "retrans_harq (ul_example A F R) = R" "sched_ul_bytes (ul_example A F R) = 0"
  "ul_phy ul_lib_example = phy_example" "round (harq_processes (ul_example A F R) q) = (if q \<in> set A then 0 else 1)"
  by (simp_all add: list_ops_def ul_example_def ul_lib_example_def)

lemmas ul_example_sel = ul_env_sel ul_cfg_sel ul_pass_sel ul_mac_sel ul_ue_sel ul_harq_sel

lemma post_process_example:
  assumes "u_ctrl (m_ues m ! 0) = ul_example [0, 1] [] []" and "ul_harq_pid sched = -1" and "\<forall>i. m_ul_req m i = []"
  shows "\<exists>m'. post_process_ulsch (ul_env_example_with emit) ul_cfg_example 0 sched m = Inr m'"
proof -
  have "\<exists>c s. ul_harq_grant list_ops False 4 (ul_example [0, 1] [] []) sched = Inr (c, s)"
    using assms(2) by (simp add: ul_harq_grant_def list_ops_def ul_example_def to_i8_def Let_def)
  then show ?thesis using assms(1,3) by (auto simp: post_process_ulsch_def ul_example_sel Let_def)
qed

lemma pf_ul_example_any:
  assumes "0 < d" and "5 \<le> rb"
  shows "\<exists>mac'. pf_ul (ul_env_example_with emit) ul_cfg_example 0 None None ul_pass_example d (\<lambda>b. rb) (ul_mac_example_with x0) = Inr (1, mac')"
proof -
  have t: "pass_time (ul_env_example_with emit) ul_cfg_example ul_pass_example = (1, 3)"
    by (simp add: pass_time_def pusch_time_def ul_env_example_with_def ul_cfg_example_def ul_pass_example_def
        ul_lib_example_def tda_example_def)
  have min: "rk_ue_la_get_min_grant_prb (g_tbl la_state_init) 7 5 = 5" by code_simp
  have max: "rk_ue_la_get_ul_max_mcs (g_tbl la_state_init) 7 20 28 = 20" by code_simp
  have tbs: "ul_pf_tbs phy_example 0 9 = Some 0" by code_simp
  let ?st = "\<lparr>s_mac = (ul_mac_example_with x0), remainUEs = (\<lambda>_. d), n_rb_sched = (\<lambda>_. rb), UE_sched = [], scheduled_something = False\<rparr>"
  obtain c m x where ue: "pf_ul_ue (ul_env_example_with emit) ul_cfg_example ul_pass_example 0 ?st = Inr (?st\<lparr>s_mac := m, UE_sched := [c]\<rparr>)"
    "us_UE c = 0" "\<not> sched_inactive c" "m = upd_ue 0 ((ul_ue_example 0)\<lparr>u_ul_thr_ue := x, u_current_bytes := 0, u_current_rbs := 0, u_bler_mcs := 9\<rparr>) ((ul_mac_example_with x0)\<lparr>m_rest := x0\<rparr>)"
    using min max tbs assms
    by (simp add: pf_ul_ue_def ul_new_candidate_def t Let_def total_rem_ues_def upd_ue_def pending_bytes_def ul_example_sel)
  have find: "ul_find_rbs (\<lambda>i. 0) (grant_bits (ul_env_example_with emit) tda_example) \<lparr>bwpStart = 0, bwpSize = 20\<rparr> 5 False = Some (0, 20)"
    by code_simp
  have bwp: "get_pusch_bwp_start_size ((ul_ue_example 0)\<lparr>u_ul_thr_ue := x, u_current_bytes := 0, u_current_rbs := 0, u_bler_mcs := 9\<rparr>) =
      \<lparr>bwpStart = 0, bwpSize = 20\<rparr>"
    by (simp add: get_pusch_bwp_start_size_def ul_ue_example_def)
  let ?ue = "(ul_ue_example 0)\<lparr>u_ul_thr_ue := x, u_current_bytes := 0, u_current_rbs := 0, u_bler_mcs := 9\<rparr>"
  obtain sched bm where size: "ul_size_grant ul_lib_example g_rk_slice_assoc_init ?ue c 5 (0, 20) (1, 3) 1 tda_example 0 = Inr (sched, bm)"
    by (simp add: ul_size_grant_def ul_limit_power_def Let_def split_beta ul_example_sel)
  have pid: "ul_harq_pid sched = -1" using ul_size_grant_frame [OF size refl] by simp
  let ?booked = "upd_ue 0 (?ue\<lparr>u_bler_mcs := bm, u_cce_index := 0\<rparr>) (m\<lparr>m_rest := x0\<rparr>)\<lparr>m_rest := x0\<rparr>"
  obtain m' where m': "post_process_ulsch (ul_env_example_with emit) ul_cfg_example 0 sched ?booked = Inr m'"
    using post_process_example [of ?booked sched] pid by (auto simp: ue(4) ul_example_sel upd_ue_def)
  have "\<exists>st2. pf_ul_grant (ul_env_example_with emit) ul_cfg_example ul_pass_example c (?st\<lparr>s_mac := m, UE_sched := [c]\<rparr>) = Inr st2 \<and>
      remainUEs st2 0 = d - 1 \<and> scheduled_something st2"
    using min find bwp ue(2,3) size m' assms
    by (simp add: pf_ul_grant_def t Let_def ue(4) upd_ue_def ul_example_sel rballoc_mask_def vrb_base_def
        ul_mac_example_with_def)
  then obtain st2 where st2: "pf_ul_grant (ul_env_example_with emit) ul_cfg_example ul_pass_example c (?st\<lparr>s_mac := m, UE_sched := [c]\<rparr>) = Inr st2"
    "remainUEs st2 0 = d - 1" "scheduled_something st2" by blast
  have "(ul_mac_example_with x0)\<lparr>m_la := rk_ue_la_reload_if_needed 0 None None la_state_init\<rparr> = (ul_mac_example_with x0)"
    by (simp add: rk_ue_la_reload_if_needed_def ul_mac_example_with_def la_state_init_def)
  then show ?thesis
    using ue(1) st2 by (simp add: pf_ul_def t ul_example_sel tda_example_def total_rem_ues_def)
qed

lemma pf_ul_example:
  "\<exists>mac'. pf_ul ul_env_example ul_cfg_example 0 None None ul_pass_example 2 (\<lambda>b. 20) ul_mac_example = Inr (1, mac')"
  by (rule pf_ul_example_any) simp_all

section \<open>Properties\<close>

text \<open>
  C0. Every successful pass of \<^verbatim>\<open>pf_ul\<close> refines the step relation of the scheduler: it starts from the
  state with the policy file reloaded and strings together bookkeeping of UEs without uplink failure
  and commits of decided retransmissions and new transmissions, and the number it returns is the
  number of grants; with a single beam it never exceeds the number of DCIs it was given.
\<close>

theorem pf_ul_refines_run:
  assumes "beam_law E (p_num_beams p)" and "qsort_members E" and "0 \<le> max_num_ue"
    and "pf_ul E C now_ms stat cfg_file p max_num_ue rbs mac = Inr (n, mac')"
  shows "\<exists>ps. ul_run E C p (la_reloaded now_ms stat cfg_file mac) ps mac' \<and> n = int (length ps) \<and>
    (p_num_beams p = 1 \<longrightarrow> n \<le> max_num_ue)"
  using pf_ul_is_run [OF assms] .

theorem pf_ul_refines_run_witness:
  "\<exists>q mac'. ul_run ul_env_example ul_cfg_example ul_pass_example (la_reloaded 0 None None ul_mac_example) [q] mac'"
proof -
  obtain mac' where "pf_ul ul_env_example ul_cfg_example 0 None None ul_pass_example 2 (\<lambda>b. 20) ul_mac_example = Inr (1, mac')"
    using pf_ul_example by blast
  from pf_ul_refines_run [OF ul_example_laws(1,2) _ this]
  obtain ps where "ul_run ul_env_example ul_cfg_example ul_pass_example (la_reloaded 0 None None ul_mac_example) ps mac'"
    "1 = int (length ps)" by auto
  then show ?thesis by (cases ps) auto
qed

text \<open>
  C29. The effect of a pass: exactly the request of the PUSCH slot grows, by one PDU per scheduled UE,
  behind those already in it; every grant is noted once, at the tick of that slot, in the counters of
  the slices; associations stay; a UE with uplink failure stays as it is and no UE changes its
  identity; and no resource block that was in use becomes free.
\<close>

theorem pf_ul_effect:
  assumes "beam_law E (p_num_beams p)" and "qsort_members E" and "0 \<le> max_num_ue"
    and "pf_ul E C now_ms stat cfg_file p max_num_ue rbs mac = Inr (n, mac')"
  shows "\<exists>ps. n = int (length ps) \<and>
    m_ul_req mac' = (m_ul_req mac)(pass_index E C p := m_ul_req mac (pass_index E C p) @ ps) \<and>
    m_runtime mac' = fold (\<lambda>pdu t. rk_slice_runtime_note_ul_grant t (pdu_rnti pdu) (pass_tick E C p)) ps (m_runtime mac) \<and>
    m_assoc mac' = m_assoc mac \<and> m_la mac' = rk_ue_la_reload_if_needed now_ms stat cfg_file (m_la mac) \<and>
    map u_rnti (m_ues mac') = map u_rnti (m_ues mac) \<and>
    (\<forall>i < length (m_ues mac). u_ul_failure (m_ues mac ! i) \<longrightarrow> m_ues mac' ! i = m_ues mac ! i) \<and>
    (\<forall>b j bits. rb_used (m_vrb_map_UL mac b) bits j \<longrightarrow> rb_used (m_vrb_map_UL mac' b) bits j)"
proof -
  obtain ps where r: "ul_run E C p (la_reloaded now_ms stat cfg_file mac) ps mac'" "n = int (length ps)"
    using pf_ul_is_run [OF assms] by blast
  have "map u_rnti (m_ues mac') = map u_rnti (m_ues mac)"
    using run_has_effect [OF r(1)] by (intro nth_equalityI) (auto simp: run_effect_def la_reloaded_def)
  then show ?thesis
    using run_has_effect [OF r(1)] r(2)
    by (intro exI [of _ ps]) (auto simp: run_effect_def la_reloaded_def noted_def)
qed

theorem pf_ul_effect_witness:
  "\<exists>q mac'. pf_ul ul_env_example ul_cfg_example 0 None None ul_pass_example 2 (\<lambda>b. 20) ul_mac_example = Inr (1, mac') \<and>
    m_ul_req mac' 3 = [q] \<and>
    m_runtime mac' = rk_slice_runtime_note_ul_grant g_rk_slice_runtime_init (pdu_rnti q)
      (pass_tick ul_env_example ul_cfg_example ul_pass_example)"
proof -
  have ix: "pass_index ul_env_example ul_cfg_example ul_pass_example = 3"
    by (simp add: pass_index_def pass_time_def pusch_time_def ul_example_sel ul_lib_example_def tda_example_def)
  obtain mac' where pf: "pf_ul ul_env_example ul_cfg_example 0 None None ul_pass_example 2 (\<lambda>b. 20) ul_mac_example = Inr (1, mac')"
    using pf_ul_example by blast
  obtain ps where ps: "1 = int (length ps)" "m_ul_req mac' = (m_ul_req ul_mac_example)(3 := m_ul_req ul_mac_example 3 @ ps)"
    "m_runtime mac' = fold (\<lambda>pdu t. rk_slice_runtime_note_ul_grant t (pdu_rnti pdu)
      (pass_tick ul_env_example ul_cfg_example ul_pass_example)) ps (m_runtime ul_mac_example)"
    using pf_ul_effect [OF ul_example_laws(1,2) _ pf, unfolded ix] by auto
  obtain q where "ps = [q]" using ps(1) by (cases ps) auto
  then show ?thesis using ps pf by (auto simp: ul_example_sel)
qed

text \<open>
  Along a pass the HARQ processes of every UE stay partitioned into free, waiting for feedback and
  waiting for retransmission, with rounds below the limit, and every PUSCH the pass requests is of a
  round below the limit and, in the first round, no larger than the cap of the slice its UE is
  associated with.
\<close>

lemma pf_ul_keeps_harq:
  assumes "beam_law E (p_num_beams p)" and "qsort_members E" and "0 \<le> max_num_ue"
    and "nr_list_laws (e_lists E) elems" and "\<not> cfg_disable_harq C" and "0 < cfg_harq_round_max C" and "k \<le> 128"
    and "\<forall>ue \<in> set (m_ues mac). harq_inv elems k (cfg_harq_round_max C) {} (u_ctrl ue)"
    and "pf_ul E C now_ms stat cfg_file p max_num_ue rbs mac = Inr (n, mac')"
  shows "(\<forall>ue \<in> set (m_ues mac'). harq_inv elems k (cfg_harq_round_max C) {} (u_ctrl ue)) \<and>
    (\<exists>ps. m_ul_req mac' (pass_index E C p) = m_ul_req mac (pass_index E C p) @ ps \<and>
      (\<forall>q \<in> set ps. 0 \<le> pdu_round q \<and> pdu_round q < cfg_harq_round_max C \<and>
        (let cap = ul_rb_cap (rk_slice_policy_get (rk_slice_assoc_get_ul_id (m_assoc mac) (pdu_rnti q)))
         in pdu_round q = 0 \<and> 0 < cap \<longrightarrow> sp_rbSize (pdu_sched q) \<le> cap)))"
proof -
  let ?mac = "la_reloaded now_ms stat cfg_file mac"
  obtain ps where r: "ul_run E C p ?mac ps mac'" using pf_ul_is_run [OF assms(1-3,9)] by blast
  have "ues_inv elems k (cfg_harq_round_max C) ?mac" using assms(8) by (simp add: ues_inv_def la_reloaded_def)
  from run_harq [OF assms(4-7) r this] run_has_effect [OF r] show ?thesis
    by (auto simp: ues_inv_def run_effect_def la_reloaded_def list_all_iff pdu_ok_def)
qed

end
