(* ===== verification/EndToEnd.thy ===== *)
theory EndToEnd imports CtlProps DlExample DlObeys UlGuarantees begin

text \<open>
  From a command at the controller to the grants of the schedulers: the binding reaches the gNB in an
  E2 control message, the posture in the state file, and both limit every new transmission of the UE.
\<close>

section \<open>A UE with a binding and a posture\<close>

text \<open>Requests about one UE leave the postures alone unless they set or clear one.\<close>

interpretation kept: ctl_invariant "\<lambda>c. UE_UL_LA_REGISTRY c = reg \<and> ue_la_file c = txt0" "\<lambda>_. False" for reg txt0
  by unfold_locales (auto simp: clear_ue_posture_snapshot_def)

text \<open>
  \<open>c'\<close> is the controller after it has confirmed the binding of the UE \<open>r\<close> to the slices \<open>dl\<close> and \<open>ul\<close>,
  and \<open>n\<close> is a gNB that has answered.
\<close>

definition confirmed ::
    "assoc_table ctl_env \<Rightarrow> dict \<Rightarrow> assoc_table ctl \<Rightarrow> int \<Rightarrow> int \<Rightarrow> int \<Rightarrow> nat \<Rightarrow> assoc_table ctl \<Rightarrow> bool" where
  "confirmed env req c r dl ul n c' \<longleftrightarrow>
     py_int (dget req ''rnti'') = Some r \<and> py_int (dget req ''dl_id'') = Some dl \<and>
     py_int (dget_or req ''ul_id'' (dget req ''dl_id'')) = Some ul \<and>
     r < 65536 \<and> dl < 65536 \<and> ul < 65536 \<and>
     make_assoc env r dl ul = Some \<lparr>a_rnti = r, a_dl_id = dl, a_ul_id = ul\<rparr> \<and>
     distinct (get_target_nodes env) \<and> (\<forall>n. node_ready (to_u16 r) (ran c n)) \<and>
     (\<exists>d. do_ue_slice_assoc env req c = (c', Inr d) \<and> replied_ok d) \<and>
     n \<in> set (get_target_nodes env) \<and> node_answers env (assoc_msg r dl ul) (ran c n)"

lemma confirmed_enforces:
  "agent_runs env \<Longrightarrow> confirmed env req c r dl ul n c' \<Longrightarrow>
    enforces (ran c' n) (to_u16 r) (known_slice dl) (known_slice ul)"
  unfolding confirmed_def using binding_at_nodes by blast

lemma confirmed_positive: "confirmed env req c r dl ul n c' \<Longrightarrow> 0 < r \<and> 0 < dl \<and> 0 < ul \<and> r < 65536"
  unfolding confirmed_def by (metis assoc_success)

text \<open>The slices of the gNB have positive caps, except slice 0, which has none.\<close>

lemma enforced_caps:
  assumes "enforces t w dl ul"
  shows "dl_rb_cap (rk_slice_policy_get (rk_slice_assoc_get_dl_id t w)) = hp_rb_cap (build_half_policy_dl dl)"
    "ul_rb_cap (rk_slice_policy_get (rk_slice_assoc_get_ul_id t w)) = hp_rb_cap (build_half_policy_ul ul)"
  using assms by (simp_all add: enforces_def build_binding_runtime_def rk_slice_assoc_get_dl_rb_cap_def
      rk_slice_assoc_get_ul_rb_cap_def Let_def)

text \<open>The state file holds the postures as soon as there is one.\<close>

lemma confirmed_file:
  assumes "list_all (\<lambda>(env, line). ue_la_written env) ls" and c: "c = serve_all ls (ctl_start env0 old rn)"
    and conf: "confirmed env req c r dl ul n c'" and p: "posture_of c r \<noteq> no_posture"
  shows "ctl_typed c'" "ue_la_file c' = Some (write_ue_la_state (UE_UL_LA_REGISTRY c'))"
    "UE_UL_LA_REGISTRY c' = UE_UL_LA_REGISTRY c"
proof -
  have c': "c' = fst (do_ue_slice_assoc env req c)" using conf by (auto simp: confirmed_def)
  have "ctl_typed c" unfolding c by (rule typed.inv_serve_all) (simp_all add: ctl_typed_def list_all_iff)
  then show "ctl_typed c'" unfolding c' by (rule typed.inv_assoc)
  have k: "UE_UL_LA_REGISTRY c' = UE_UL_LA_REGISTRY c" "ue_la_file c' = ue_la_file c"
    using kept.inv_assoc [of c "UE_UL_LA_REGISTRY c" "ue_la_file c" env req] by (simp_all add: c')
  then show "UE_UL_LA_REGISTRY c' = UE_UL_LA_REGISTRY c" by simp
  have "file_follows old c" unfolding c
  proof (rule follows.inv_serve_all)
    show "list_all (ue_la_written \<circ> fst) ls" using assms(1) by (auto simp: list_all_iff)
  qed (simp add: file_follows_def)
  moreover have "UE_UL_LA_REGISTRY c \<noteq> []" using p by (auto simp: posture_of_def)
  ultimately show "ue_la_file c' = Some (write_ue_la_state (UE_UL_LA_REGISTRY c'))"
    by (simp add: file_follows_def k)
qed

text \<open>Both tables of a gNB that reads this file answer the posture.\<close>

definition la_due :: "int \<Rightarrow> int \<times> int \<Rightarrow> la_state \<Rightarrow> bool" where
  "la_due now mtime s \<longleftrightarrow> la_inv (g_tbl s) \<and> 100 \<le> now - g_last_check_ms s \<and>
     mtime \<noteq> (g_last_mtime_sec s, g_last_mtime_nsec s)"

definition dl_due :: "int \<times> int \<Rightarrow> dl_state \<Rightarrow> bool" where
  "dl_due stat s \<longleftrightarrow> dl_inv (g_rk_ue_dl_tbl s) \<and>
     (g_rk_ue_dl_loaded s = 0 \<or> fst stat \<noteq> g_rk_ue_dl_mtime s \<or> snd stat \<noteq> g_rk_ue_dl_size s)"

lemma due_init: "la_due 500 (3, 4) la_state_init" "dl_due (3, 40) dl_state_init"
  by (simp_all add: la_due_def dl_due_def la_state_init_inv dl_state_init_inv)
    (simp_all add: la_state_init_def dl_state_init_def)

lemma confirmed_posture:
  assumes "list_all (\<lambda>(env, line). ue_la_written env) ls" and "c = serve_all ls (ctl_start env0 old rn)"
    and conf: "confirmed env req c r dl ul n c'" and "posture_of c r \<noteq> no_posture"
    and fits: "registry_fits (UE_UL_LA_REGISTRY c)"
  shows "la_due now mtime s \<Longrightarrow>
      ul_in_force (posture_of c r) (g_tbl (rk_ue_la_reload_if_needed now (Some mtime) (ue_la_file c') s)) (to_u16 r)"
    and "dl_due stat s' \<Longrightarrow> dl_in_force (posture_of c r)
      (g_rk_ue_dl_tbl (rk_ue_dl_reload_if_needed False (Some stat) (ue_la_file c') s')) (to_u16 r)"
proof -
  note kf = confirmed_file [OF assms(1-4)]
  have p: "posture_of c' = posture_of c" using posture_of_cong kf(3) .
  have r: "0 < r" "r < 65536" using confirmed_positive [OF conf] by simp_all
  have both: "ul_in_force (posture_of c r) (g_tbl (rk_ue_la_reload_if_needed now (Some mtime) (ue_la_file c') s)) (to_u16 r) \<and>
    dl_in_force (posture_of c r) (g_rk_ue_dl_tbl (rk_ue_dl_reload_if_needed False (Some stat) (ue_la_file c') s')) (to_u16 r)"
    if "la_due now mtime s" "dl_due stat s'" and "fst mtime = fst stat" for now mtime s stat s'
    using registry_in_force [of c' "ue_la_file c'" s s' now "fst mtime" "snd mtime" "snd stat" r] that kf(1,2) fits r
    by (cases mtime; cases stat; simp add: kf(3) p la_due_def dl_due_def)
  show "la_due now mtime s \<Longrightarrow>
      ul_in_force (posture_of c r) (g_tbl (rk_ue_la_reload_if_needed now (Some mtime) (ue_la_file c') s)) (to_u16 r)"
    using both [of now mtime s "(fst mtime, 0)" dl_state_init]
    by (simp add: dl_due_def dl_state_init_inv) (simp add: dl_state_init_def)
  have "la_due 500 (fst stat, 1) la_state_init"
    by (simp add: la_due_def la_state_init_inv) (simp add: la_state_init_def)
  then show "dl_due stat s' \<Longrightarrow> dl_in_force (posture_of c r)
      (g_rk_ue_dl_tbl (rk_ue_dl_reload_if_needed False (Some stat) (ue_la_file c') s')) (to_u16 r)"
    using both by simp
qed

section \<open>An example\<close>

text \<open>The controller of the examples: one posture command and one binding.\<close>

definition example_requests :: "(assoc_table ctl_env \<times> json option) list" where
  "example_requests = [(example_env, Some (JObj example_posture_req))]"

definition example_ctl :: "assoc_table ctl" where
  "example_ctl = serve_all example_requests (ctl_start example_env None (\<lambda>_. g_rk_slice_assoc_init))"

lemma example_ctl_fields:
  "UE_UL_LA_REGISTRY example_ctl = [(9, example_posture)]" "ran example_ctl = (\<lambda>_. g_rk_slice_assoc_init)"
proof -
  let ?c = "ctl_start example_env None (\<lambda>_. g_rk_slice_assoc_init)"
  have eq: "example_ctl = fst (do_set_ue_ul_la example_env example_posture_req ?c)"
    by (simp add: example_ctl_def example_requests_def serve_all_def serve_line_def handle_def dget_or_def
        example_posture_req_def split: prod.split sum.split)
  have 1: "py_int (dget example_posture_req ''rnti'') = Some 9" "ue_la_written example_env"
    by (simp_all add: example_posture_req_def dget_def example_env_def)
  have p: "example_posture \<noteq> no_posture" by (simp add: example_posture_def no_posture_def)
  have up: "posture_update (posture_of ?c 9) example_posture = example_posture"
    by (simp add: posture_of_def posture_update_def example_posture_def no_posture_def newer_def)
  show "UE_UL_LA_REGISTRY example_ctl = [(9, example_posture)]"
    using set_posture_accepted [OF 1 example_build p, of ?c] by (metis eq fst_conv up ctl_start_fields(2) AList.update.simps(1))
  have "ran example_ctl = ran ?c" 
    using set_posture_accepted [OF 1 example_build p, of ?c] by (metis eq fst_conv)
  then show "ran example_ctl = (\<lambda>_. g_rk_slice_assoc_init)"
    by (simp add: ctl_start_def load_profiles_def ctl_init_def state_put_def example_env_def Let_def)
qed

lemma example_confirmed:
  obtains c' where "confirmed example_env example_bind_req example_ctl 9 3 5 0 c'"
    "ran c' 0 = rk_slice_assoc_update_by_rnti g_rk_slice_assoc_init 9 3 5"
proof -
  obtain c' d where "do_ue_slice_assoc example_env example_bind_req example_ctl = (c', Inr d)" "replied_ok d"
    "ran c' 0 = rk_slice_assoc_update_by_rnti (ran example_ctl 0) (to_u16 9) (to_i32 3) (to_i32 5)"
    using example_bind_runs [of example_ctl] by blast
  then show ?thesis
    by (intro that [of c']) (simp_all add: confirmed_def example_bind example_ctl_fields node_answers_def to_u16_def to_i32_id i32_range_def)
qed

lemma example_hyps:
  "list_all (\<lambda>(env, line). ue_la_written env) example_requests"
  "example_ctl = serve_all example_requests (ctl_start example_env None (\<lambda>_. g_rk_slice_assoc_init))"
  "posture_of example_ctl 9 \<noteq> no_posture" "registry_fits (UE_UL_LA_REGISTRY example_ctl)"
  "posture_of example_ctl 9 = example_posture"
  by (rule example_ctl_def | simp add: example_requests_def example_env_def posture_of_def example_ctl_fields
      registry_fits_def posture_fits_def posture_ok_def i32_opt_def i32_range_def example_posture_def no_posture_def)+

text \<open>The table of the gNB after the binding, and a pass of either scheduler for the bound UE.\<close>

abbreviation bound_assoc :: assoc_table where
  "bound_assoc \<equiv> rk_slice_assoc_update_by_rnti g_rk_slice_assoc_init 9 3 5"

lemma bound_dl:
  "dl_rb_floor (rk_slice_policy_get (rk_slice_assoc_get_dl_id bound_assoc 9)) = 12"
  "dl_rb_cap (rk_slice_policy_get (rk_slice_assoc_get_dl_id bound_assoc 9)) = 50"
  "dl_weight_mul (rk_slice_policy_get (rk_slice_assoc_get_dl_id bound_assoc 9)) = f32 10"
  "dl_max_consecutive_grants (rk_slice_policy_get (rk_slice_assoc_get_dl_id bound_assoc 9)) = 0"
  by code_simp+

definition example_dl_mac :: "(int list, unit) dl_mac" where
  "example_dl_mac = (dl_mac_example [dl_ue_example 9 [0, 1] []])\<lparr>dm_assoc := bound_assoc\<rparr>"

lemma example_dl_pass:
  assumes "dl_in_force example_posture (g_rk_ue_dl_tbl (rk_ue_dl_reload_if_needed False (Some (3, 40)) cfg_file dl_state_init)) 9"
  shows "\<exists>mac'. nr_dlsch_preprocessor dl_env_example dl_cfg_example (Some (3, 40)) cfg_file 5 3 example_dl_mac = Inr mac' \<and>
    (\<exists>ue. dm_ues mac' = [ue] \<and> d_rnti ue = 9 \<and> d_ctrl ue = dl_ctrl_example [0, 1] [] \<and> pd_rbSize (d_sched_pdsch ue) = 12)"
proof -
  define s where "s = rk_ue_dl_reload_if_needed False (Some (3, 40)) cfg_file dl_state_init"
  have g: "rk_ue_dl_get_max_mcs (g_rk_ue_dl_tbl s) 9 = (\<lambda>d. 7)"
    "rk_ue_dl_get_min_grant_prb (g_rk_ue_dl_tbl s) 9 = (\<lambda>d. d)"
    "rk_ue_dl_get_sched_mul (g_rk_ue_dl_tbl s) 9 = (\<lambda>d. d)"
    "rk_ue_dl_get_small_burst_bytes (g_rk_ue_dl_tbl s) 9 = (\<lambda>d. d)"
    "rk_ue_dl_get_small_burst_mul (g_rk_ue_dl_tbl s) 9 = (\<lambda>d. d)"
    "rk_ue_dl_get_maxcg_override (g_rk_ue_dl_tbl s) 9 = (\<lambda>d. d)"
    using assms unfolding s_def [symmetric]
    by (simp_all add: dl_in_force_def example_posture_def no_posture_def fun_eq_iff set_to_def dl_mul_of_def)
  have find: "dl_find_rbs (\<lambda>_. 0) b \<lparr>bwpStart = 0, bwpSize = 48\<rparr> 12 = Some (0, 48)" for b
  proof -
    have u: "bwp_used (\<lambda>_. 0) b \<lparr>bwpStart = 0, bwpSize = 48\<rparr> = (\<lambda>_. False)"
      by (simp add: fun_eq_iff bwp_used_def rb_used_def)
    show ?thesis unfolding dl_find_rbs_def u by code_simp
  qed
  have floor: "apply_floor_cap 12 50 48 5 = 12" by (simp add: apply_floor_cap_def)
  show ?thesis
    unfolding example_dl_mac_def
    by (simp add: s_def [symmetric] g bound_dl dl_example_defs dl_pass_defs(1-5) dl_pass_defs(7-) floor)
qed

text \<open>The outer loop of the link adaptation would like MCS 20.\<close>

definition ul_env_bounded :: "(int list, unit) ul_env" where
  "ul_env_bounded = ul_env_example\<lparr>get_mcs_from_bler := (\<lambda>x ue m f. (x, min 20 m, min 20 m))\<rparr>"

definition example_ul_mac :: "(int list, unit) ul_mac" where
  "example_ul_mac = ul_mac_example\<lparr>m_ues := [(ul_ue_example 0)\<lparr>u_rnti := 9\<rparr>], m_assoc := bound_assoc\<rparr>"

lemma ul_bounded_laws:
  "beam_law ul_env_bounded (p_num_beams ul_pass_example)" "qsort_members ul_env_bounded"
  "nr_list_laws (e_lists ul_env_bounded) (\<lambda>q. q)" "mcs_law ul_env_bounded"
  using ul_example_laws [of "\<lambda>x ue s h. ()"]
  by (simp_all add: ul_env_bounded_def beam_law_def qsort_members_def mcs_law_def)

lemma bound_ul:
  "ul_rb_floor (rk_slice_policy_get (rk_slice_assoc_get_ul_id bound_assoc 9)) = 12"
  "ul_rb_cap (rk_slice_policy_get (rk_slice_assoc_get_ul_id bound_assoc 9)) = 50"
  by code_simp+

lemma post_process_bounded:
  assumes "u_ctrl (m_ues m ! 0) = ul_example [0, 1] [] []" "u_rnti (m_ues m ! 0) = 9" "ul_harq_pid sched = -1"
    "sp_slot sched = 3" "\<forall>i. m_ul_req m i = []"
  shows "\<exists>m' q. post_process_ulsch ul_env_bounded ul_cfg_example 0 sched m = Inr m' \<and>
    m_ul_req m' 3 = [q] \<and> pdu_rnti q = 9 \<and> pdu_round q = 0"
proof -
  obtain ctl s where h: "ul_harq_grant list_ops False 4 (ul_example [0, 1] [] []) sched = Inr (ctl, s)"
    "round (harq_processes ctl (to_i8 (ul_harq_pid s))) = 0" "sp_slot s = 3"
    using assms(3,4) by (simp add: ul_harq_grant_def list_ops_def ul_example_def to_i8_def Let_def)
  then show ?thesis using assms by (auto simp: post_process_ulsch_def ul_env_bounded_def ul_example_sel Let_def)
qed

lemma example_ul_pass:
  assumes "ul_in_force example_posture (g_tbl (rk_ue_la_reload_if_needed 500 (Some (3, 4)) cfg_file la_state_init)) 9"
  shows "\<exists>mac' q. pf_ul ul_env_bounded ul_cfg_example 500 (Some (3, 4)) cfg_file ul_pass_example 2 (\<lambda>b. 20) example_ul_mac = Inr (1, mac') \<and>
    m_ul_req mac' 3 = [q] \<and> pdu_rnti q = 9 \<and> pdu_round q = 0"
proof -
  define s where "s = rk_ue_la_reload_if_needed 500 (Some (3, 4)) cfg_file la_state_init"
  have g: "rk_ue_la_get_ul_max_mcs (g_tbl s) 9 = (\<lambda>d m. max 0 (min m 12))"
    "rk_ue_la_get_min_grant_prb (g_tbl s) 9 = (\<lambda>d. d)"
    using assms unfolding s_def [symmetric]
    by (simp_all add: ul_in_force_def example_posture_def no_posture_def fun_eq_iff set_to_def)
  have t: "pass_time ul_env_bounded ul_cfg_example ul_pass_example = (1, 3)"
    by (simp add: pass_time_def pusch_time_def ul_env_bounded_def ul_env_example_with_def ul_cfg_example_def ul_pass_example_def
        ul_lib_example_def tda_example_def)
  let ?mac = "example_ul_mac\<lparr>m_la := s\<rparr>" and ?ue0 = "(ul_ue_example 0)\<lparr>u_rnti := 9\<rparr>"
  let ?st = "\<lparr>s_mac = ?mac, remainUEs = (\<lambda>_. 2), n_rb_sched = (\<lambda>_. 20), UE_sched = [], scheduled_something = False\<rparr>"
  have tbs: "ul_pf_tbs phy_example 0 12 \<noteq> None" by code_simp
  note sel = ul_env_bounded_def example_ul_mac_def ul_example_sel
  obtain c m x where ue: "pf_ul_ue ul_env_bounded ul_cfg_example ul_pass_example 0 ?st = Inr (?st\<lparr>s_mac := m, UE_sched := [c]\<rparr>)"
    "us_UE c = 0" "\<not> sched_inactive c"
    "m = upd_ue 0 (?ue0\<lparr>u_ul_thr_ue := x, u_current_bytes := 0, u_current_rbs := 0, u_bler_mcs := 12\<rparr>) (?mac\<lparr>m_rest := ()\<rparr>)"
    using g tbs t
    by (auto simp: pf_ul_ue_def ul_new_candidate_def Let_def total_rem_ues_def upd_ue_def pending_bytes_def sel)
  have find: "ul_find_rbs (\<lambda>i. 0) (grant_bits ul_env_bounded tda_example) \<lparr>bwpStart = 0, bwpSize = 20\<rparr> 5 False = Some (0, 20)"
    by code_simp
  let ?ue = "?ue0\<lparr>u_ul_thr_ue := x, u_current_bytes := 0, u_current_rbs := 0, u_bler_mcs := 12\<rparr>"
  have bwp: "get_pusch_bwp_start_size ?ue = \<lparr>bwpStart = 0, bwpSize = 20\<rparr>"
    by (simp add: get_pusch_bwp_start_size_def ul_ue_example_def)
  obtain sched bm where size: "ul_size_grant ul_lib_example bound_assoc ?ue c 5 (0, 20) (1, 3) 1 tda_example 0 = Inr (sched, bm)"
    by (simp add: ul_size_grant_def ul_limit_power_def Let_def split_beta ul_example_sel)
  have frame: "ul_harq_pid sched = -1" "sp_slot sched = 3" using ul_size_grant_frame [OF size refl] by simp_all
  let ?booked = "upd_ue 0 (?ue\<lparr>u_bler_mcs := bm, u_cce_index := 0\<rparr>) (m\<lparr>m_rest := ()\<rparr>)\<lparr>m_rest := ()\<rparr>"
  obtain m' q where m': "post_process_ulsch ul_env_bounded ul_cfg_example 0 sched ?booked = Inr m'"
    "m_ul_req m' 3 = [q]" "pdu_rnti q = 9" "pdu_round q = 0"
    using post_process_bounded [of ?booked sched] frame by (auto simp: ue(4) sel upd_ue_def)
  have "\<exists>st2. pf_ul_grant ul_env_bounded ul_cfg_example ul_pass_example c (?st\<lparr>s_mac := m, UE_sched := [c]\<rparr>) = Inr st2 \<and>
      remainUEs st2 0 = 1 \<and> scheduled_something st2 \<and> m_ul_req (s_mac st2) = m_ul_req m'"
    using g find bwp ue(2,3) size m'(1) t
    by (simp add: pf_ul_grant_def Let_def ue(4) upd_ue_def sel rballoc_mask_def vrb_base_def mark_grant_def
        ul_mac_example_with_def)
  then obtain st2 where "pf_ul_grant ul_env_bounded ul_cfg_example ul_pass_example c (?st\<lparr>s_mac := m, UE_sched := [c]\<rparr>) = Inr st2"
    "remainUEs st2 0 = 1" "scheduled_something st2" "m_ul_req (s_mac st2) = m_ul_req m'" by blast
  then show ?thesis
    using ue(1) t m'(2-) by (simp add: pf_ul_def s_def [symmetric] sel tda_example_def total_rem_ues_def)
qed

section \<open>Properties\<close>

text \<open>
  C7. What an operator sets is what the downlink scheduler does: after any requests, a binding that the
  controller has confirmed and a posture that it holds for this UE limit every new transmission that
  the scheduler of an answering gNB grants to the UE in a pass that reloads the state file.  The grant
  is no larger than the cap the controller lists for the slice (slice 0 has none), and its MCS is at
  most the one of the posture.
\<close>

theorem downlink_obeys_controller:
  assumes "list_all (\<lambda>(env, line). ue_la_written env) ls" and "c = serve_all ls (ctl_start env0 old rn)"
    and "agent_runs env" and "confirmed env req c r dl ul n c'" and "posture_of c r \<noteq> no_posture"
    and "registry_fits (UE_UL_LA_REGISTRY c)"
    and "dm_assoc mac = ran c' n" and "dl_due stat (dm_dl mac)" and "dl_qsort_perm E"
    and "\<forall>ue \<in> set (dm_ues mac). pd_rbSize (d_sched_pdsch ue) \<le> 0"
    and "nr_dlsch_preprocessor E C (Some stat) (ue_la_file c') f s mac = Inr mac'"
    and "ue \<in> set (dm_ues mac')" and "d_rnti ue = to_u16 r"
    and "nl_head (de_lists E) (retrans_harq (d_ctrl ue)) < 0" and "0 < pd_rbSize (d_sched_pdsch ue)"
  shows "(let cap = hp_rb_cap (build_half_policy_dl (known_slice dl))
          in 0 < cap \<longrightarrow> pd_rbSize (d_sched_pdsch ue) \<le> cap) \<and>
    pd_mcs (d_sched_pdsch ue) \<le> (case p_dl_max_mcs (posture_of c r) of None \<Rightarrow> 28 | Some m \<Rightarrow> m)"
proof -
  have "dl_obeys (dm_assoc mac) (g_rk_ue_dl_tbl (rk_ue_dl_reload_if_needed False (Some stat) (ue_la_file c') (dm_dl mac))) ue"
    using preprocessor_obeys [OF assms(9) _ assms(11)] assms(10,12,14,15)
    by (auto simp: list_all_iff dl_unplanned_def dl_waits_def)
  then show ?thesis
    using confirmed_posture(2) [OF assms(1,2,4-6,8)] enforced_caps(1) [OF confirmed_enforces [OF assms(3,4)]]
    by (simp add: dl_obeys_def Let_def assms(7,13) dl_in_force_def set_to_def)
qed

theorem downlink_obeys_controller_witness:
  "\<exists>c' mac' ue. confirmed example_env example_bind_req example_ctl 9 3 5 0 c' \<and>
     nr_dlsch_preprocessor dl_env_example dl_cfg_example (Some (3, 40)) (ue_la_file c') 5 3 example_dl_mac = Inr mac' \<and>
     dm_ues mac' = [ue] \<and> pd_rbSize (d_sched_pdsch ue) = 12 \<and> pd_mcs (d_sched_pdsch ue) \<le> 7"
proof -
  obtain c' where c: "confirmed example_env example_bind_req example_ctl 9 3 5 0 c'" "ran c' 0 = bound_assoc"
    by (rule example_confirmed)
  have nine: "to_u16 9 = 9" by (simp add: to_u16_def)
  have "dl_in_force example_posture (g_rk_ue_dl_tbl (rk_ue_dl_reload_if_needed False (Some (3, 40)) (ue_la_file c') dl_state_init)) 9"
    using confirmed_posture(2) [OF example_hyps(1,2) c(1) example_hyps(3,4) due_init(2)] by (simp add: nine example_hyps(5))
  then obtain mac' ue where run:
    "nr_dlsch_preprocessor dl_env_example dl_cfg_example (Some (3, 40)) (ue_la_file c') 5 3 example_dl_mac = Inr mac'"
    and ue: "dm_ues mac' = [ue]" "d_rnti ue = 9" "d_ctrl ue = dl_ctrl_example [0, 1] []" "pd_rbSize (d_sched_pdsch ue) = 12"
    using example_dl_pass by blast
  have mac: "dm_assoc example_dl_mac = ran c' 0" "dl_due (3, 40) (dm_dl example_dl_mac)"
    "\<forall>ue \<in> set (dm_ues example_dl_mac). pd_rbSize (d_sched_pdsch ue) \<le> 0"
    using due_init(2) by (simp_all add: c(2) example_dl_mac_def dl_mac_example_def dl_ue_example_def no_pdsch_def NR_sched_pdsch_t.make_def)
  have wait: "nl_head (de_lists dl_env_example) (retrans_harq (d_ctrl ue)) < 0"
    by (simp add: ue dl_env_example_def dl_ctrl_example_def list_ops_def)
  have "pd_mcs (d_sched_pdsch ue) \<le> 7"
    using downlink_obeys_controller [OF example_hyps(1,2) example_bind(1) c(1) example_hyps(3,4) mac(1,2)
        dl_example_laws(2) mac(3) run _ _ wait] ue
    by (simp add: nine example_hyps(5)) (simp add: example_posture_def)
  then show ?thesis using c(1) run ue by blast
qed

text \<open>
  C8. The same holds in the uplink: every PUSCH that a pass requests for the UE in its first round is no
  larger than the cap the controller lists for its uplink slice, and its MCS is at most the one of
  the posture, or of the cell without one, provided that the outer loop of the link adaptation keeps
  to the maximum it is given.
\<close>

theorem uplink_obeys_controller:
  assumes "list_all (\<lambda>(env, line). ue_la_written env) ls" and "c = serve_all ls (ctl_start env0 old rn)"
    and "agent_runs env" and "confirmed env req c r dl ul n c'" and "posture_of c r \<noteq> no_posture"
    and "registry_fits (UE_UL_LA_REGISTRY c)"
    and "m_assoc mac = ran c' n" and "la_due now mtime (m_la mac)"
    and "beam_law E (p_num_beams p)" and "qsort_members E" and "mcs_law E" and "0 \<le> max_num_ue"
    and "nr_list_laws (e_lists E) elems" and "\<not> cfg_disable_harq C" and "0 < cfg_harq_round_max C" and "k \<le> 128"
    and "\<forall>ue \<in> set (m_ues mac). harq_inv elems k (cfg_harq_round_max C) {} (u_ctrl ue)"
    and "pf_ul E C now (Some mtime) (ue_la_file c') p max_num_ue rbs mac = Inr (num, mac')"
  shows "\<exists>ps. m_ul_req mac' (pass_index E C p) = m_ul_req mac (pass_index E C p) @ ps \<and>
    (\<forall>q \<in> set ps. pdu_rnti q = to_u16 r \<and> pdu_round q = 0 \<longrightarrow>
       (let cap = hp_rb_cap (build_half_policy_ul (known_slice ul))
        in 0 < cap \<longrightarrow> sp_rbSize (pdu_sched q) \<le> cap) \<and>
       sp_mcs (pdu_sched q) \<le>
         (case p_ul_max_mcs (posture_of c r) of None \<Rightarrow> max 0 (min 28 (cfg_bler_max_mcs C)) | Some m \<Rightarrow> m))"
proof -
  let ?mac = "la_reloaded now (Some mtime) (ue_la_file c') mac"
  obtain ps where run: "ul_run E C p ?mac ps mac'" using pf_ul_is_run [OF assms(9,10,12,18)] by blast
  have "ues_inv elems k (cfg_harq_round_max C) ?mac" using assms(17) by (simp add: ues_inv_def la_reloaded_def)
  note harq = run_harq [OF assms(13-16) run this]
  have ps: "m_ul_req mac' (pass_index E C p) = m_ul_req mac (pass_index E C p) @ ps"
    using run_has_effect [OF run] by (simp add: run_effect_def la_reloaded_def)
  let ?t = "g_tbl (rk_ue_la_reload_if_needed now (Some mtime) (ue_la_file c') (m_la mac))"
  have max: "rk_ue_la_get_ul_max_mcs ?t (to_u16 r) (cfg_bler_max_mcs C) 28 =
      max 0 (min 28 (set_to (p_ul_max_mcs (posture_of c r)) (cfg_bler_max_mcs C)))"
    using confirmed_posture(1) [OF assms(1,2,4-6,8)] by (simp add: ul_in_force_def)
  have "posture_valid (posture_of c r)"
    using confirmed_file(1) [OF assms(1,2,4,5)] confirmed_file(3) [OF assms(1,2,4,5)] assms(5)
    by (auto simp: ctl_typed_def posture_of_def list_all_iff split: option.splits dest!: map_of_SomeD)
  then have limit: "max 0 (min 28 (set_to (p_ul_max_mcs (posture_of c r)) d)) \<le>
      (case p_ul_max_mcs (posture_of c r) of None \<Rightarrow> max 0 (min 28 d) | Some m \<Rightarrow> m)" for d
    by (auto simp: posture_valid_iff in_range_def set_to_def split: option.split)
  have "(let cap = hp_rb_cap (build_half_policy_ul (known_slice ul)) in 0 < cap \<longrightarrow> sp_rbSize (pdu_sched q) \<le> cap) \<and>
      sp_mcs (pdu_sched q) \<le>
        (case p_ul_max_mcs (posture_of c r) of None \<Rightarrow> max 0 (min 28 (cfg_bler_max_mcs C)) | Some m \<Rightarrow> m)"
    if q: "q \<in> set ps" "pdu_rnti q = to_u16 r" "pdu_round q = 0" for q
  proof -
    have "pdu_ok (ran c' n) (cfg_harq_round_max C) q"
      "pdu_mcs_ok E C (rk_ue_la_reload_if_needed now (Some mtime) (ue_la_file c') (m_la mac)) q"
      using harq assms(7) q(1) by (simp_all add: list_all_iff la_reloaded_def)
    then show ?thesis
      using enforced_caps(2) [OF confirmed_enforces [OF assms(3,4)]] assms(11) q(2,3)
      by (auto simp: pdu_ok_def pdu_mcs_ok_def Let_def ul_mcs_limit_def max intro: order_trans [OF _ limit])
  qed
  then show ?thesis using ps by blast
qed

theorem uplink_obeys_controller_witness:
  "\<exists>c' mac' q. confirmed example_env example_bind_req example_ctl 9 3 5 0 c' \<and>
     pf_ul ul_env_bounded ul_cfg_example 500 (Some (3, 4)) (ue_la_file c') ul_pass_example 2 (\<lambda>b. 20) example_ul_mac =
       Inr (1, mac') \<and>
     m_ul_req mac' 3 = [q] \<and> pdu_rnti q = 9 \<and> sp_rbSize (pdu_sched q) \<le> 50 \<and> sp_mcs (pdu_sched q) \<le> 12"
proof -
  obtain c' where c: "confirmed example_env example_bind_req example_ctl 9 3 5 0 c'" "ran c' 0 = bound_assoc"
    by (rule example_confirmed)
  have nine: "to_u16 9 = 9" by (simp add: to_u16_def)
  have "ul_in_force example_posture (g_tbl (rk_ue_la_reload_if_needed 500 (Some (3, 4)) (ue_la_file c') la_state_init)) 9"
    using confirmed_posture(1) [OF example_hyps(1,2) c(1) example_hyps(3,4) due_init(1)] by (simp add: nine example_hyps(5))
  then obtain mac' q where run:
    "pf_ul ul_env_bounded ul_cfg_example 500 (Some (3, 4)) (ue_la_file c') ul_pass_example 2 (\<lambda>b. 20) example_ul_mac = Inr (1, mac')"
    and q: "m_ul_req mac' 3 = [q]" "pdu_rnti q = 9" "pdu_round q = 0"
    using example_ul_pass by blast
  have mac: "m_assoc example_ul_mac = ran c' 0" "la_due 500 (3, 4) (m_la example_ul_mac)" "m_ul_req example_ul_mac 3 = []"
    using due_init(1) by (simp_all add: c(2) example_ul_mac_def ul_mac_sel)
  have "harq_inv (\<lambda>q. q) 2 4 {} (ul_example [0, 1] [] [])" by (auto simp: harq_inv_def ul_example_def Let_def)
  then have harq: "\<forall>ue \<in> set (m_ues example_ul_mac). harq_inv (\<lambda>q. q) 2 (cfg_harq_round_max ul_cfg_example) {} (u_ctrl ue)"
    by (simp add: example_ul_mac_def ul_example_sel)
  have ix: "pass_index ul_env_bounded ul_cfg_example ul_pass_example = 3"
    by (simp add: pass_index_def pass_time_def pusch_time_def ul_env_bounded_def ul_example_sel ul_lib_example_def tda_example_def)
  have cap: "hp_rb_cap (build_half_policy_ul (known_slice 5)) = 50"
    by (simp add: known_slice_def build_half_policy_ul_def get_slice_runtime_def SLICE_RUNTIME_TABLE_def slice_runtime.defs)
  have cfg: "\<not> cfg_disable_harq ul_cfg_example" "0 < cfg_harq_round_max ul_cfg_example" "(2::int) \<le> 128" "0 \<le> (2::int)"
    by (simp_all add: ul_cfg_sel)
  have "sp_rbSize (pdu_sched q) \<le> 50 \<and> sp_mcs (pdu_sched q) \<le> 12"
    using uplink_obeys_controller [OF example_hyps(1,2) example_bind(1) c(1) example_hyps(3,4) mac(1,2)
        ul_bounded_laws(1,2,4) cfg(4) ul_bounded_laws(3) cfg(1-3) harq run] q
    by (simp add: nine example_hyps(5) ix mac(3) cap) (simp add: example_posture_def)
  then show ?thesis using c(1) run q by blast
qed

end
