(* ===== verification/StateWriter.thy ===== *)
theory StateWriter imports CtlPosture begin

text \<open>
  The state file under concurrent requests.  Every connection of the controller has its own thread,
  so that two posture commands can be in \<^verbatim>\<open>_write_ue_la_state_atomic\<close> at the same time: the
  registry and the rendering of its text are under a lock, writing and renaming the one temporary
  file are not.  The steps below interleave the threads; the file system is a table of inodes with
  the names of the temporary and of the state file, as POSIX \<^verbatim>\<open>open\<close>, \<^verbatim>\<open>write\<close> and \<^verbatim>\<open>rename\<close>
  treat them.
\<close>

section \<open>Threads and files\<close>

datatype posture_cmd = SetPosture int posture | ClearPosture int

text \<open>The update of the registry under the lock.\<close>

fun apply_cmd :: "posture_cmd \<Rightarrow> registry \<Rightarrow> registry" where
  "apply_cmd (SetPosture r p) reg =
     AList.update r (posture_update (case map_of reg r of None \<Rightarrow> no_posture | Some q \<Rightarrow> q) p) reg"
| "apply_cmd (ClearPosture r) reg = AList.delete r reg"

text \<open>It is the update that the handlers make.\<close>

lemma posture_registry_frame [simp]:
  "UE_UL_LA_REGISTRY (state_put kw c) = UE_UL_LA_REGISTRY c"
  "UE_UL_LA_REGISTRY (touch_ue env r meta kw c) = UE_UL_LA_REGISTRY c"
  "UE_UL_LA_REGISTRY (clear_ue_posture_snapshot r c) = UE_UL_LA_REGISTRY c"
  "UE_UL_LA_REGISTRY (fst (write_ue_la_state_atomic env c)) = UE_UL_LA_REGISTRY c"
  by (simp_all add: state_put_def touch_ue_def clear_ue_posture_snapshot_def write_ue_la_state_atomic_def)

lemma set_applies:
  assumes "py_int (dget req ''rnti'') = Some r" and "build_ue_posture_entry req = Inr p"
    and "posture_dict p \<noteq> []"
  shows "UE_UL_LA_REGISTRY (fst (do_set_ue_ul_la env req c)) =
    apply_cmd (SetPosture r p) (UE_UL_LA_REGISTRY c)"
proof -
  have "dget req ''rnti'' \<noteq> JNull" using assms(1) by auto
  with assms show ?thesis
    by (simp add: do_set_ue_ul_la_def resolve_control_rnti_def posture_of_def Let_def
        write_ue_la_state_atomic_def)
qed

lemma clear_applies:
  assumes "py_int (dget req ''rnti'') = Some r"
  shows "UE_UL_LA_REGISTRY (fst (do_clear_ue_ul_la env req c)) =
    apply_cmd (ClearPosture r) (UE_UL_LA_REGISTRY c)"
proof -
  have "dget req ''rnti'' \<noteq> JNull" using assms by auto
  with assms show ?thesis
    by (simp add: do_clear_ue_ul_la_def resolve_control_rnti_def Let_def write_ue_la_state_atomic_def)
qed

text \<open>
  Where a thread is: before the update, before the text is rendered, with the rendered text, with
  the temporary file open and some of the text written, at the end, or after \<^verbatim>\<open>os.replace\<close> raised.
\<close>

datatype wpc = Ready posture_cmd | Updated | Rendered string | Writing nat string nat | Done | Failed

record wsys =
  w_reg :: registry
  w_inode :: "nat \<Rightarrow> string"
  w_next :: nat
  w_tmp :: "nat option"
  w_path :: "nat option"
  w_threads :: "wpc list"

text \<open>What a reader of the state file gets.\<close>

definition shown :: "wsys \<Rightarrow> string option" where
  "shown s = map_option (w_inode s) (w_path s)"

text \<open>A write at an offset; a gap behind the end of the file is filled with NUL.\<close>

definition write_at :: "nat \<Rightarrow> string \<Rightarrow> string \<Rightarrow> string" where
  "write_at off chunk old =
     take off (old @ replicate (off - length old) (CHR 0x00)) @ chunk @ drop (off + length chunk) old"

definition at_pc :: "wsys \<Rightarrow> nat \<Rightarrow> wpc \<Rightarrow> bool" where
  "at_pc s i pc \<longleftrightarrow> i < length (w_threads s) \<and> w_threads s ! i = pc"

definition go :: "nat \<Rightarrow> wpc \<Rightarrow> wsys \<Rightarrow> wsys" where
  "go i pc s = s\<lparr>w_threads := (w_threads s)[i := pc]\<rparr>"

definition open_tmp :: "wsys \<Rightarrow> wsys \<times> nat" where
  "open_tmp s =
     (case w_tmp s of
        Some k \<Rightarrow> (s\<lparr>w_inode := (w_inode s)(k := [])\<rparr>, k)
      | None \<Rightarrow> (s\<lparr>w_inode := (w_inode s)(w_next s := []), w_tmp := Some (w_next s),
                  w_next := Suc (w_next s)\<rparr>, w_next s))"

inductive wstep :: "wsys \<Rightarrow> wsys \<Rightarrow> bool" where
  update: "at_pc s i (Ready cmd) \<Longrightarrow> wstep s (go i Updated (s\<lparr>w_reg := apply_cmd cmd (w_reg s)\<rparr>))"
| render: "at_pc s i Updated \<Longrightarrow> wstep s (go i (Rendered (write_ue_la_state (w_reg s))) s)"
| open_file: "at_pc s i (Rendered tx) \<Longrightarrow> open_tmp s = (s', k) \<Longrightarrow> wstep s (go i (Writing k tx 0) s')"
| write_chunk: "at_pc s i (Writing k tx off) \<Longrightarrow> 0 < n \<Longrightarrow> off + n \<le> length tx \<Longrightarrow>
    wstep s (go i (Writing k tx (off + n))
      (s\<lparr>w_inode := (w_inode s)(k := write_at off (take n (drop off tx)) (w_inode s k))\<rparr>))"
| replace: "at_pc s i (Writing k tx (length tx)) \<Longrightarrow> w_tmp s = Some k' \<Longrightarrow>
    wstep s (go i Done (s\<lparr>w_path := Some k', w_tmp := None\<rparr>))"
| missing: "at_pc s i (Writing k tx (length tx)) \<Longrightarrow> w_tmp s = None \<Longrightarrow> wstep s (go i Failed s)"

inductive_cases wstep_elim: "wstep s s'"

text \<open>Runs through states that satisfy \<open>P\<close>, with the registries that held on the way.\<close>

inductive wruns :: "(wsys \<Rightarrow> bool) \<Rightarrow> wsys \<Rightarrow> registry list \<Rightarrow> wsys \<Rightarrow> bool" for P s0 where
  start: "P s0 \<Longrightarrow> wruns P s0 [w_reg s0] s0"
| step: "wruns P s0 rs s \<Longrightarrow> wstep s s' \<Longrightarrow> P s' \<Longrightarrow> wruns P s0 (rs @ [w_reg s']) s'"

text \<open>The start, with the state file and perhaps a temporary file of an earlier controller.\<close>

definition winit :: "registry \<Rightarrow> string option \<Rightarrow> string option \<Rightarrow> posture_cmd list \<Rightarrow> wsys" where
  "winit reg old stale cmds =
     \<lparr>w_reg = reg, w_inode = (\<lambda>k. case (if k = 0 then old else stale) of None \<Rightarrow> [] | Some tx \<Rightarrow> tx),
      w_next = 2, w_tmp = map_option (\<lambda>_. 1) stale, w_path = map_option (\<lambda>_. 0) old,
      w_threads = map Ready cmds\<rparr>"

section \<open>One command at a time\<close>

fun in_flight :: "wpc \<Rightarrow> bool" where
  "in_flight Updated = True"
| "in_flight (Rendered _) = True"
| "in_flight (Writing _ _ _) = True"
| "in_flight _ = False"

definition serial :: "wsys \<Rightarrow> bool" where
  "serial s \<longleftrightarrow> (\<forall>i < length (w_threads s). \<forall>j < length (w_threads s).
     in_flight (w_threads s ! i) \<and> in_flight (w_threads s ! j) \<longrightarrow> i = j)"

definition quiet :: "wsys \<Rightarrow> bool" where
  "quiet s \<longleftrightarrow> list_all (\<lambda>t. \<not> in_flight t) (w_threads s)"

fun thread_ok :: "wsys \<Rightarrow> wpc \<Rightarrow> bool" where
  "thread_ok s (Rendered tx) = (tx = write_ue_la_state (w_reg s))"
| "thread_ok s (Writing k tx off) =
     (tx = write_ue_la_state (w_reg s) \<and> w_tmp s = Some k \<and> off \<le> length tx \<and>
      w_inode s k = take off tx)"
| "thread_ok s Failed = False"
| "thread_ok s _ = True"

definition files_ok :: "wsys \<Rightarrow> bool" where
  "files_ok s \<longleftrightarrow> (case w_path s of None \<Rightarrow> True | Some k \<Rightarrow> k < w_next s \<and> w_tmp s \<noteq> Some k) \<and>
     (case w_tmp s of None \<Rightarrow> True | Some k \<Rightarrow> k < w_next s)"

definition winv :: "wsys \<Rightarrow> bool" where
  "winv s \<longleftrightarrow> files_ok s \<and> list_all (thread_ok s) (w_threads s)"

lemma files_ok_cong:
  "w_path s' = w_path s \<Longrightarrow> w_tmp s' = w_tmp s \<Longrightarrow> w_next s' = w_next s \<Longrightarrow> files_ok s' = files_ok s"
  by (simp add: files_ok_def split: option.split)

lemma thread_ok_idle: "\<not> in_flight t \<Longrightarrow> t \<noteq> Failed \<Longrightarrow> thread_ok s t"
  by (cases t) auto

text \<open>When one thread moves and is in flight before or after, the others are idle.\<close>

lemma winv_go:
  assumes "winv s" and "files_ok s'" and i: "i < length (w_threads s)"
    and "serial (go i pc s')" and "w_threads s' = w_threads s" and "thread_ok s' pc"
    and "in_flight pc \<or> serial s \<and> in_flight (w_threads s ! i)"
  shows "winv (go i pc s')"
proof -
  have idle: "\<not> in_flight (w_threads s ! j)" if j: "j < length (w_threads s)" "j \<noteq> i" for j
  proof (cases "in_flight pc")
    case True
    have g: "w_threads (go i pc s') = (w_threads s)[i := pc]" using assms(5) by (simp add: go_def)
    show ?thesis
      using assms(4) [unfolded serial_def g, rule_format, of i j] i j True by auto
  next
    case False
    then have "serial s" "in_flight (w_threads s ! i)" using assms(7) by simp_all
    then show ?thesis using i j unfolding serial_def by blast
  qed
  have same: "thread_ok (go i pc s') t = thread_ok s' t" for t by (cases t) (simp_all add: go_def)
  have "thread_ok s' ((w_threads s)[i := pc] ! j)" if j: "j < length (w_threads s)" for j
  proof (cases "j = i")
    case True
    then show ?thesis using assms(6) i by simp
  next
    case False
    have "w_threads s ! j \<noteq> Failed" using assms(1) j by (auto simp: winv_def list_all_length)
    then show ?thesis using thread_ok_idle idle [OF j False] False by simp
  qed
  then have "list_all (thread_ok s') ((w_threads s)[i := pc])" by (simp add: list_all_length)
  then show ?thesis
    using assms(2,5) same files_ok_cong [of "go i pc s'" s']
    by (simp add: winv_def list_all_iff) (simp add: go_def)
qed

lemma write_at_end: "length old = off \<Longrightarrow> write_at off chunk old = old @ chunk"
  by (simp add: write_at_def)

lemma shown_go [simp]: "shown (go i pc s) = shown s"
  by (simp add: shown_def go_def)

lemma go_fields [simp]:
  "w_reg (go i pc s) = w_reg s" "w_tmp (go i pc s) = w_tmp s" "w_path (go i pc s) = w_path s"
  "w_inode (go i pc s) = w_inode s" "w_next (go i pc s) = w_next s"
  "w_threads (go i pc s) = (w_threads s)[i := pc]"
  by (simp_all add: go_def)

lemma shown_other:
  "files_ok s \<Longrightarrow> w_tmp s = Some k \<Longrightarrow> shown (s\<lparr>w_inode := (w_inode s)(k := x)\<rparr>) = shown s"
  by (auto simp: shown_def files_ok_def split: option.splits)

lemma open_tmp_result:
  assumes "files_ok s" and "open_tmp s = (s', k)"
  shows "files_ok s'" "w_tmp s' = Some k" "w_inode s' k = []" "w_reg s' = w_reg s" "shown s' = shown s"
    "w_threads s' = w_threads s"
  using assms by (auto simp: open_tmp_def files_ok_def shown_def split: option.splits)

lemma at_pcD: "at_pc s i pc \<Longrightarrow> i < length (w_threads s) \<and> w_threads s ! i = pc"
  by (simp add: at_pc_def)

lemma at_pc_ok: "winv s \<Longrightarrow> at_pc s i pc \<Longrightarrow> thread_ok s pc"
  by (auto simp: winv_def list_all_length at_pc_def)

text \<open>A step keeps the invariant and shows the old text, or the text of the registry in a replace.\<close>

lemma winv_step:
  assumes "wstep s s'" and inv: "winv s" and ser: "serial s" "serial s'"
  shows "winv s' \<and> (shown s' = shown s \<or> shown s' = Some (write_ue_la_state (w_reg s')))"
  using assms(1) ser(2)
proof (cases rule: wstep.cases)
  case (update i cmd)
  have "files_ok (s\<lparr>w_reg := apply_cmd cmd (w_reg s)\<rparr>)" 
    using inv files_ok_cong [of "s\<lparr>w_reg := apply_cmd cmd (w_reg s)\<rparr>" s] by (simp add: winv_def)
  then have "winv s'"
    unfolding update(1) using inv at_pcD [OF update(2)] ser(2) [unfolded update(1)]
    by (intro winv_go [where s = s]) simp_all
  then show ?thesis by (simp add: update(1) shown_def)
next
  case (render i)
  have "winv s'"
    unfolding render(1) using inv at_pcD [OF render(2)] ser(2) [unfolded render(1)]
    by (intro winv_go [where s = s]) (simp_all add: winv_def)
  then show ?thesis by (simp add: render(1))
next
  case (open_file i tx s1 k)
  have f: "files_ok s" using inv by (simp add: winv_def)
  note opn = open_tmp_result [OF f open_file(3)]
  have "winv s'"
    unfolding open_file(1) using inv at_pcD [OF open_file(2)] ser(2) [unfolded open_file(1)] opn at_pc_ok [OF inv open_file(2)]
    by (intro winv_go [where s = s]) simp_all
  then show ?thesis by (simp add: open_file(1) opn)
next
  case (write_chunk i k tx off n)
  have f: "files_ok s" using inv by (simp add: winv_def)
  have t: "tx = write_ue_la_state (w_reg s)" "w_tmp s = Some k" "w_inode s k = take off tx"
    using at_pc_ok [OF inv write_chunk(2)] by simp_all
  let ?s1 = "s\<lparr>w_inode := (w_inode s)(k := write_at off (take n (drop off tx)) (w_inode s k))\<rparr>"
  have w: "write_at off (take n (drop off tx)) (w_inode s k) = take (off + n) tx"
    using write_chunk(4) by (simp add: t(3) write_at_end take_add)
  have "files_ok ?s1" using f files_ok_cong [of ?s1 s] by simp
  then have "winv s'"
    unfolding write_chunk(1) using inv at_pcD [OF write_chunk(2)] ser(2) [unfolded write_chunk(1)] t w write_chunk(4)
    by (intro winv_go [where s = s]) simp_all
  then show ?thesis by (simp add: write_chunk(1) shown_other [OF f t(2)])
next
  case (replace i k tx k')
  have f: "files_ok s" using inv by (simp add: winv_def)
  have t: "tx = write_ue_la_state (w_reg s)" "w_tmp s = Some k" "w_inode s k = tx"
    using at_pc_ok [OF inv replace(2)] by simp_all
  have "files_ok (s\<lparr>w_path := Some k', w_tmp := None\<rparr>)"
    using f replace(3) by (auto simp: files_ok_def)
  then have "winv s'"
    unfolding replace(1) using inv at_pcD [OF replace(2)] ser replace(1)
    by (intro winv_go [where s = s]) simp_all
  then show ?thesis using t replace(3) by (simp add: replace(1) shown_def)
next
  case (missing i k tx)
  then show ?thesis using at_pc_ok [OF inv missing(2)] by simp
qed

lemma in_flight_go: "i < length (w_threads s) \<Longrightarrow> in_flight pc \<Longrightarrow> \<not> quiet (go i pc s)"
  by (auto simp: quiet_def list_all_length)

text \<open>After a step a thread is in flight, or it was the step that put the current text in place.\<close>

lemma step_shows:
  assumes "wstep s s'" and "winv s"
  shows "\<not> quiet s' \<or> shown s' = Some (write_ue_la_state (w_reg s'))"
  using assms(1)
proof (cases rule: wstep.cases)
  case (replace i k tx k')
  then show ?thesis using at_pc_ok [OF assms(2) replace(2)] by (simp add: shown_def)
next
  case (missing i k tx)
  then show ?thesis using at_pc_ok [OF assms(2) missing(2)] by simp
next
  case (open_file i tx s1 k)
  have "w_threads s1 = w_threads s"
    using open_file(3) by (auto simp: open_tmp_def split: option.splits)
  then show ?thesis using in_flight_go [of i s1] at_pcD [OF open_file(2)] by (simp add: open_file(1))
next
  case (update i cmd)
  then show ?thesis
    using in_flight_go [of i "s\<lparr>w_reg := apply_cmd cmd (w_reg s)\<rparr>" Updated] by (simp add: at_pc_def)
next
  case (render i)
  then show ?thesis using in_flight_go [of i s "Rendered (write_ue_la_state (w_reg s))"] by (simp add: at_pc_def)
next
  case (write_chunk i k tx off n)
  then show ?thesis using in_flight_go [of i _ "Writing k tx (off + n)"] by (simp add: at_pc_def)
qed

text \<open>A serial system that is not finished can go on.\<close>

lemma serial_go:
  assumes "serial s" and "w_threads s' = w_threads s" and "in_flight (w_threads s ! i) \<or> quiet s"
    and "i < length (w_threads s)"
  shows "serial (go i pc s')"
proof -
  have idle: "\<not> in_flight (w_threads s ! j)" if "j < length (w_threads s)" "j \<noteq> i" for j
    using assms that by (auto simp: serial_def quiet_def list_all_length)
  show ?thesis
    unfolding serial_def
  proof (intro allI impI)
    fix j k
    assume *: "j < length (w_threads (go i pc s'))" "k < length (w_threads (go i pc s'))"
      "in_flight (w_threads (go i pc s') ! j) \<and> in_flight (w_threads (go i pc s') ! k)"
    have "l = i" if "l < length (w_threads s)" "in_flight ((w_threads s)[i := pc] ! l)" for l
      using idle [of l] that by (cases "l = i") auto
    then show "j = k" using * assms(2) by auto
  qed
qed

lemma serial_progress:
  assumes "winv s" and "serial s" and "\<not> list_all (\<lambda>t. t = Done) (w_threads s)"
  shows "\<exists>s'. wstep s s' \<and> serial s'"
proof (cases "quiet s")
  case True
  then obtain i where i: "i < length (w_threads s)" "w_threads s ! i \<noteq> Done" "\<not> in_flight (w_threads s ! i)"
    using assms(3) by (auto simp: quiet_def list_all_length)
  moreover have "w_threads s ! i \<noteq> Failed" using assms(1) i by (auto simp: winv_def list_all_length)
  ultimately obtain cmd where "w_threads s ! i = Ready cmd" by (cases "w_threads s ! i") auto
  then have "wstep s (go i Updated (s\<lparr>w_reg := apply_cmd cmd (w_reg s)\<rparr>))"
    using i by (intro update) (simp add: at_pc_def)
  moreover have "serial (go i Updated (s\<lparr>w_reg := apply_cmd cmd (w_reg s)\<rparr>))"
    using i True assms(2) by (intro serial_go [where s = s]) simp_all
  ultimately show ?thesis by blast
next
  case False
  then obtain i where i: "i < length (w_threads s)" "in_flight (w_threads s ! i)"
    by (auto simp: quiet_def list_all_length)
  note go = serial_go [OF assms(2) _ disjI1 [OF i(2)] i(1)]
  show ?thesis
  proof (cases "w_threads s ! i")
    case Updated
    then show ?thesis using render [of s i] go [of s] i by (auto simp: at_pc_def)
  next
    case (Rendered tx)
    obtain s1 k where o: "open_tmp s = (s1, k)" by fastforce
    then have "w_threads s1 = w_threads s" by (auto simp: open_tmp_def split: option.splits)
    then show ?thesis using open_file [of s i tx, OF _ o] go [of s1] i Rendered by (auto simp: at_pc_def)
  next
    case (Writing k tx off)
    have pc: "at_pc s i (Writing k tx off)" using Writing i by (simp add: at_pc_def)
    have t: "w_tmp s = Some k" "off \<le> length tx" using at_pc_ok [OF assms(1) pc] by auto
    show ?thesis
    proof (cases "off = length tx")
      case True
      then show ?thesis
        using replace [of s i k tx k] pc t go [of "s\<lparr>w_path := Some k, w_tmp := None\<rparr>"] by auto
    next
      case False
      have "0 < length tx - off" "off + (length tx - off) \<le> length tx" using t(2) False by simp_all
      let ?s1 = "s\<lparr>w_inode := (w_inode s)(k := write_at off (take (length tx - off) (drop off tx)) (w_inode s k))\<rparr>"
      have "wstep s (go i (Writing k tx (off + (length tx - off))) ?s1)"
        using \<open>0 < length tx - off\<close> \<open>off + (length tx - off) \<le> length tx\<close> by (rule write_chunk [OF pc])
      then show ?thesis using go [of ?s1] by auto
    qed
  qed (use i in simp_all)
qed

text \<open>
  C10. Posture commands that are served one after the other replace the state file atomically: in every
  reachable state, also in the middle of a command, a reader gets the file of the start or the
  complete text of a registry that held at some time; whenever no command is in progress it is the
  text of the current registry (or nothing has happened); no rename ever fails; and an unfinished
  command can always proceed.  A temporary file that an earlier controller left does no harm.
\<close>

theorem serial_writers_atomic:
  assumes "wruns serial (winit reg old stale cmds) rs s"
  shows "(shown s = old \<or> shown s \<in> Some ` write_ue_la_state ` set rs) \<and>
    (\<not> quiet s \<or> shown s = Some (write_ue_la_state (w_reg s)) \<or> w_reg s = reg \<and> shown s = old) \<and>
    Failed \<notin> set (w_threads s) \<and>
    (list_all (\<lambda>t. t = Done) (w_threads s) \<or> (\<exists>s'. wstep s s' \<and> serial s'))"
proof -
  have "winv s \<and> serial s \<and> (shown s = old \<or> shown s \<in> Some ` write_ue_la_state ` set rs) \<and>
      (\<not> quiet s \<or> shown s = Some (write_ue_la_state (w_reg s)) \<or> w_reg s = reg \<and> shown s = old)"
    using assms
  proof (induction rule: wruns.induct)
    case start
    have "shown (winit reg old stale cmds) = old" by (cases old) (simp_all add: shown_def winit_def)
    moreover have "winv (winit reg old stale cmds)"
      by (auto simp: winv_def files_ok_def winit_def list_all_iff split: option.split)
    ultimately show ?case using start by (simp add: winit_def)
  next
    case (step rs s s')
    then have inv: "winv s" "serial s" by simp_all
    show ?case
      using winv_step [OF step(2) inv step(3)] step_shows [OF step(2) inv(1)] step(3) step.IH by auto
  qed
  then show ?thesis using serial_progress [of s] by (auto simp: winv_def list_all_iff)
qed

theorem serial_writers_atomic_witness:
  "\<exists>rs s. wruns serial (winit [] (Some ''x'') (Some ''stale'') [ClearPosture 9]) rs s \<and> shown s = Some [] \<and>
     (shown s = Some ''x'' \<or> shown s \<in> Some ` write_ue_la_state ` set rs) \<and> Failed \<notin> set (w_threads s)"
proof -
  have empty: "write_ue_la_state [] = []" by (simp add: write_ue_la_state_def)
  let ?s0 = "winit [] (Some ''x'') (Some ''stale'') [ClearPosture 9]"
  let ?s1 = "go 0 Updated (?s0\<lparr>w_reg := []\<rparr>)"
  let ?s2 = "go 0 (Rendered []) ?s1"
  let ?s3 = "go 0 (Writing 1 [] 0) (fst (open_tmp ?s2))"
  let ?s4 = "go 0 Done (?s3\<lparr>w_path := Some 1, w_tmp := None\<rparr>)"
  have opened: "open_tmp ?s2 = (fst (open_tmp ?s2), 1)" by (simp add: open_tmp_def winit_def go_def)
  have "wstep ?s0 ?s1" using update [of ?s0 0 "ClearPosture 9"] by (simp add: at_pc_def winit_def)
  moreover have "wstep ?s1 ?s2" using render [of ?s1 0] by (simp add: at_pc_def empty winit_def)
  moreover have "wstep ?s2 ?s3" by (rule open_file [OF _ opened]) (simp add: at_pc_def winit_def)
  moreover have "wstep ?s3 ?s4"
    using replace [of ?s3 0 1 "[]" 1] by (simp add: at_pc_def winit_def open_tmp_def go_def)
  moreover have "serial ?s0" "serial ?s1" "serial ?s2" "serial ?s3" "serial ?s4"
    by (simp_all add: serial_def winit_def go_def open_tmp_def)
  ultimately have "\<exists>rs. wruns serial ?s0 rs ?s4" by (meson wruns.intros)
  then obtain rs where run: "wruns serial ?s0 rs ?s4" ..
  have "shown ?s4 = Some []" by (simp add: shown_def winit_def go_def open_tmp_def)
  then show ?thesis using run serial_writers_atomic [OF run] by blast
qed

section \<open>Overlapping commands\<close>

text \<open>A thread that is not disturbed publishes its text.\<close>

lemma write_all:
  assumes "at_pc s i (Writing k tx 0)"
  shows "\<exists>s'. wstep\<^sup>*\<^sup>* s s' \<and> (w_inode s k = [] \<longrightarrow> w_inode s' k = tx) \<and>
    w_reg s' = w_reg s \<and> w_tmp s' = w_tmp s \<and>
    w_threads s' = (w_threads s)[i := Writing k tx (length tx)]"
proof (cases "tx = []")
  case True
  then have "w_threads s = (w_threads s)[i := Writing k tx (length tx)]"
    using at_pcD [OF assms] by (metis list.size(3) list_update_id)
  then show ?thesis using True by (intro exI [of _ s]) simp
next
  case False
  let ?s1 = "s\<lparr>w_inode := (w_inode s)(k := write_at 0 (take (length tx) (drop 0 tx)) (w_inode s k))\<rparr>"
  have "wstep s (go i (Writing k tx (0 + length tx)) ?s1)"
    using False by (intro write_chunk [OF assms]) simp_all
  then show ?thesis
    by (intro exI [of _ "go i (Writing k tx (0 + length tx)) ?s1"]) (simp add: write_at_def)
qed

lemma publish:
  assumes "at_pc s i (Rendered tx)" and "w_tmp s = None"
  shows "\<exists>s'. wstep\<^sup>*\<^sup>* s s' \<and> shown s' = Some tx \<and> w_tmp s' = None \<and> w_reg s' = w_reg s \<and>
    w_threads s' = (w_threads s)[i := Done]"
proof -
  obtain s1 k where o: "open_tmp s = (s1, k)" by fastforce
  have s1: "w_tmp s1 = Some k" "w_inode s1 k = []" "w_reg s1 = w_reg s" "w_threads s1 = w_threads s"
    using o assms(2) by (auto simp: open_tmp_def)
  let ?s2 = "go i (Writing k tx 0) s1"
  have pc: "at_pc ?s2 i (Writing k tx 0)" using assms(1) s1 by (simp add: at_pc_def)
  have 2: "wstep s ?s2" using open_file [OF assms(1) o] .
  obtain s3 where 3: "wstep\<^sup>*\<^sup>* ?s2 s3" "w_inode s3 k = tx" "w_reg s3 = w_reg ?s2" "w_tmp s3 = w_tmp ?s2"
      "w_threads s3 = (w_threads ?s2)[i := Writing k tx (length tx)]"
    using write_all [OF pc] s1 by auto
  then have pc3: "at_pc s3 i (Writing k tx (length tx))" using pc by (simp add: at_pc_def)
  have 4: "wstep s3 (go i Done (s3\<lparr>w_path := Some k, w_tmp := None\<rparr>))"
    using 3 s1 by (intro replace [OF pc3]) simp_all
  have "wstep\<^sup>*\<^sup>* s (go i Done (s3\<lparr>w_path := Some k, w_tmp := None\<rparr>))"
    using converse_rtranclp_into_rtranclp [of wstep, OF 2] 3(1) 4 by (meson rtranclp.rtrancl_into_rtrancl)
  then show ?thesis using 3 s1 by (intro exI) (auto simp: shown_def)
qed

text \<open>Two commands up to the point where both have rendered their text, the first one first.\<close>

lemma both_rendered:
  obtains s where "wstep\<^sup>*\<^sup>* (winit reg old None [c0, c1]) s" "w_tmp s = None"
    "w_reg s = apply_cmd c1 (apply_cmd c0 reg)"
    "w_threads s = [Rendered (write_ue_la_state (apply_cmd c0 reg)),
       Rendered (write_ue_la_state (apply_cmd c1 (apply_cmd c0 reg)))]"
proof -
  let ?s0 = "winit reg old None [c0, c1]"
  let ?s1 = "go 0 Updated (?s0\<lparr>w_reg := apply_cmd c0 (w_reg ?s0)\<rparr>)"
  let ?s2 = "go 0 (Rendered (write_ue_la_state (w_reg ?s1))) ?s1"
  let ?s3 = "go 1 Updated (?s2\<lparr>w_reg := apply_cmd c1 (w_reg ?s2)\<rparr>)"
  let ?s4 = "go 1 (Rendered (write_ue_la_state (w_reg ?s3))) ?s3"
  have "wstep ?s0 ?s1" by (rule update) (simp add: at_pc_def winit_def)
  moreover have "wstep ?s1 ?s2" by (rule render) (simp add: at_pc_def winit_def)
  moreover have "wstep ?s2 ?s3" by (rule update) (simp add: at_pc_def winit_def)
  moreover have "wstep ?s3 ?s4" by (rule render) (simp add: at_pc_def winit_def)
  ultimately have "wstep\<^sup>*\<^sup>* ?s0 ?s4" by (meson converse_rtranclp_into_rtranclp rtranclp.rtrancl_refl)
  then show ?thesis by (rule that) (simp_all add: winit_def)
qed

text \<open>
  Overlapping commands lose an update of the file: both finish without an error, the registry has both
  updates, and the file stays at the text of the first one until the next command.
\<close>

theorem writers_lose_update:
  "\<exists>s. wstep\<^sup>*\<^sup>* (winit reg old None [c0, c1]) s \<and> w_threads s = [Done, Done] \<and>
     w_reg s = apply_cmd c1 (apply_cmd c0 reg) \<and> shown s = Some (write_ue_la_state (apply_cmd c0 reg))"
proof -
  obtain s where s: "wstep\<^sup>*\<^sup>* (winit reg old None [c0, c1]) s" "w_tmp s = None"
    "w_reg s = apply_cmd c1 (apply_cmd c0 reg)"
    "w_threads s = [Rendered (write_ue_la_state (apply_cmd c0 reg)),
       Rendered (write_ue_la_state (apply_cmd c1 (apply_cmd c0 reg)))]"
    by (rule both_rendered)
  obtain s1 where s1: "wstep\<^sup>*\<^sup>* s s1" "w_tmp s1 = None" "w_reg s1 = w_reg s"
    "w_threads s1 = (w_threads s)[1 := Done]"
    using publish [of s 1 "write_ue_la_state (apply_cmd c1 (apply_cmd c0 reg))"] s by (auto simp: at_pc_def)
  obtain s2 where s2: "wstep\<^sup>*\<^sup>* s1 s2" "shown s2 = Some (write_ue_la_state (apply_cmd c0 reg))"
    "w_reg s2 = w_reg s1" "w_threads s2 = (w_threads s1)[0 := Done]"
    using publish [of s1 0 "write_ue_la_state (apply_cmd c0 reg)"] s s1 by (auto simp: at_pc_def)
  have "wstep\<^sup>*\<^sup>* (winit reg old None [c0, c1]) s2"
    using s(1) s1(1) s2(1) by (meson rtranclp_trans)
  then show ?thesis using s s1 s2 by (intro exI [of _ s2]) simp
qed

text \<open>
  They can also share the temporary file, so that the rename of the second one raises.
\<close>

theorem writers_can_fail:
  "\<exists>s. wstep\<^sup>*\<^sup>* (winit reg old None [c0, c1]) s \<and> w_threads s = [Done, Failed]"
proof -
  let ?t0 = "write_ue_la_state (apply_cmd c0 reg)" and ?t1 = "write_ue_la_state (apply_cmd c1 (apply_cmd c0 reg))"
  obtain s where s: "wstep\<^sup>*\<^sup>* (winit reg old None [c0, c1]) s" "w_tmp s = None"
    "w_threads s = [Rendered ?t0, Rendered ?t1]"
    by (rule both_rendered)
  obtain s1 k where 1: "open_tmp s = (s1, k)" "w_tmp s1 = Some k" "w_threads s1 = w_threads s"
    using s(2) by (auto simp: open_tmp_def)
  obtain s2 where 2: "wstep s s2" "w_tmp s2 = Some k" "w_threads s2 = [Writing k ?t0 0, Rendered ?t1]"
    using open_file [of s 0 ?t0, OF _ 1(1)] 1 s(3) that [of "go 0 (Writing k ?t0 0) s1"]
    by (simp add: at_pc_def)
  obtain s3 where 3: "open_tmp s2 = (s3, k)" "w_tmp s3 = Some k" "w_threads s3 = w_threads s2"
    using 2(2) by (auto simp: open_tmp_def)
  obtain s4 where 4: "wstep s2 s4" "w_tmp s4 = Some k" "w_threads s4 = [Writing k ?t0 0, Writing k ?t1 0]"
    using open_file [of s2 1 ?t1, OF _ 3(1)] 2 3 that [of "go 1 (Writing k ?t1 0) s3"]
    by (simp add: at_pc_def)
  have pc4: "at_pc s4 0 (Writing k ?t0 0)" using 4(3) by (simp add: at_pc_def)
  obtain s5 where 5: "wstep\<^sup>*\<^sup>* s4 s5" "w_tmp s5 = Some k"
    "w_threads s5 = [Writing k ?t0 (length ?t0), Writing k ?t1 0]"
    using write_all [OF pc4] 4 by auto
  have pc5: "at_pc s5 1 (Writing k ?t1 0)" using 5(3) by (simp add: at_pc_def)
  obtain s6 where 6: "wstep\<^sup>*\<^sup>* s5 s6" "w_tmp s6 = Some k"
    "w_threads s6 = [Writing k ?t0 (length ?t0), Writing k ?t1 (length ?t1)]"
    using write_all [OF pc5] 5 by auto
  obtain s7 where 7: "wstep s6 s7" "w_tmp s7 = None" "w_threads s7 = [Done, Writing k ?t1 (length ?t1)]"
    using replace [of s6 0 k ?t0 k] 6 that [of "go 0 Done (s6\<lparr>w_path := Some k, w_tmp := None\<rparr>)"]
    by (simp add: at_pc_def)
  have 8: "wstep s7 (go 1 Failed s7)"
    using 7 by (intro missing [of s7 1 k ?t1]) (simp_all add: at_pc_def)
  have "wstep\<^sup>*\<^sup>* (winit reg old None [c0, c1]) (go 1 Failed s7)"
    using s(1) 2(1) 4(1) 5(1) 6(1) 7(1) 8 by (meson rtranclp.rtrancl_into_rtrancl rtranclp_trans)
  then show ?thesis using 7(3) by (intro exI [of _ "go 1 Failed s7"]) simp
qed

end
