(* ===== verification/SrsPrecoder.thy ===== *)
theory SrsPrecoder imports PowerLimit "HOL-Library.Signed_Division" begin

text \<open>
  The choice of the uplink precoder from a sounding reference signal, in
  \<^verbatim>\<open>gnb_patch/gNB_scheduler_ulsch.c\<close>: the power of a channel (\<^verbatim>\<open>calc_power_complex\<close>), the product of
  a coefficient with a precoder weight (\<^verbatim>\<open>nr_h_times_w\<close>), how many precoders a configuration allows
  (\<^verbatim>\<open>get_max_tpmi\<close>), the precoder tables of TS 38.211 (\<^verbatim>\<open>get_precoder_matrix_coef\<close>) and the search for
  the best precoder (\<^verbatim>\<open>nr_srs_tpmi_estimation\<close>).
  A read outside a table, a division by zero and a failed assertion are errors.
\<close>

section \<open>Data\<close>

record c16_t =
  c_r :: int
  c_i :: int

datatype srs_error = InvalidPrecoder | OutOfTable | DivByZero | NullMaxRank | UnsupportedLayers | InvalidSrsUsage

text \<open>The enumerations of the RRC configuration, by the values the code names.\<close>

datatype tx_config = nonCodebook | OtherTxConfig int
datatype codebook_subset = nonCoherent | partialAndNonCoherent | OtherSubset int
datatype full_power = fullpowerMode1 | OtherFullPower int

text \<open>Pointers that may be \<open>NULL\<close> are options; \<open>ul_FullPowerTransmission\<close> is reached through \<open>ext1\<close>.\<close>

record srs_pusch_config = NR_PUSCH_Config_t +
  txConfig :: "tx_config option"
  maxRank :: "int option"
  ul_FullPowerTransmission :: "full_power option"
  codebookSubset :: "codebook_subset option"

record srs_iq_matrix =
  num_gnb_antenna_elements :: int
  num_ue_srs_ports :: int
  num_prgs :: int
  channel_matrix :: "int \<Rightarrow> c16_t"

section \<open>Channel power\<close>

text \<open>The sums are 64-bit and cannot overflow; the quotients are stored in 32 bits.\<close>

definition component_power :: "int list \<Rightarrow> u32" where
  "component_power xs =
     (let size = int (length xs);
          sum_x = sum_list xs;
          sum_x2 = sum_list (map (\<lambda>x. x * x) xs)
      in to_u32 (sum_x2 sdiv size - (sum_x sdiv size) * (sum_x sdiv size)))"

definition calc_power_complex :: "int list \<Rightarrow> int list \<Rightarrow> srs_error + u32" where
  "calc_power_complex xs ys =
     (if length xs = 0 then Inl DivByZero
      else let power_re = component_power xs; power_im = component_power ys in Inr (power_re + power_im))"

section \<open>Precoder weights\<close>

definition nr_h_times_w :: "c16_t \<Rightarrow> char \<Rightarrow> srs_error + c16_t" where
  "nr_h_times_w h w =
     (if w = CHR ''0'' then Inr \<lparr>c_r = 0, c_i = 0\<rparr>
      else if w = CHR ''1'' then Inr \<lparr>c_r = c_r h, c_i = c_i h\<rparr>
      else if w = CHR ''n'' then Inr \<lparr>c_r = to_i16 (- c_r h), c_i = to_i16 (- c_i h)\<rparr>
      else if w = CHR ''j'' then Inr \<lparr>c_r = to_i16 (- c_i h), c_i = c_r h\<rparr>
      else if w = CHR ''o'' then Inr \<lparr>c_r = c_i h, c_i = to_i16 (- c_r h)\<rparr>
      else Inl InvalidPrecoder)"

definition table_38211_6_3_1_5_1 :: "string list list" where
  "table_38211_6_3_1_5_1 =
  [[''1'', ''0''], [''0'', ''1''],
   [''1'', ''1''], [''1'', ''n''],
   [''1'', ''j''], [''1'', ''o'']]"

definition table_38211_6_3_1_5_2 :: "string list list" where
  "table_38211_6_3_1_5_2 =
  [[''1'', ''0'', ''0'', ''0''], [''0'', ''1'', ''0'', ''0''],
   [''0'', ''0'', ''1'', ''0''], [''0'', ''0'', ''0'', ''1''],
   [''1'', ''0'', ''1'', ''0''], [''1'', ''0'', ''n'', ''0''],
   [''1'', ''0'', ''j'', ''0''], [''1'', ''0'', ''o'', ''0''],
   [''0'', ''1'', ''0'', ''1''], [''0'', ''1'', ''0'', ''n''],
   [''0'', ''1'', ''0'', ''j''], [''0'', ''1'', ''0'', ''o''],
   [''1'', ''1'', ''1'', ''n''], [''1'', ''1'', ''j'', ''j''],
   [''1'', ''1'', ''n'', ''1''], [''1'', ''1'', ''o'', ''o''],
   [''1'', ''j'', ''1'', ''j''], [''1'', ''j'', ''j'', ''1''],
   [''1'', ''j'', ''n'', ''o''], [''1'', ''j'', ''o'', ''n''],
   [''1'', ''n'', ''1'', ''1''], [''1'', ''n'', ''j'', ''o''],
   [''1'', ''n'', ''n'', ''n''], [''1'', ''n'', ''o'', ''j''],
   [''1'', ''o'', ''1'', ''o''], [''1'', ''o'', ''j'', ''n''],
   [''1'', ''o'', ''n'', ''j''], [''1'', ''o'', ''o'', ''1'']]"

definition table_38211_6_3_1_5_3 :: "string list list" where
  "table_38211_6_3_1_5_3 =
  [[''1'', ''0'', ''0'', ''0''], [''0'', ''1'', ''0'', ''0''],
   [''0'', ''0'', ''1'', ''0''], [''0'', ''0'', ''0'', ''1''],
   [''1'', ''0'', ''1'', ''0''], [''1'', ''0'', ''n'', ''0''],
   [''1'', ''0'', ''j'', ''0''], [''1'', ''0'', ''o'', ''0''],
   [''0'', ''1'', ''0'', ''1''], [''0'', ''1'', ''0'', ''n''],
   [''0'', ''1'', ''0'', ''j''], [''0'', ''1'', ''0'', ''o''],
   [''1'', ''1'', ''1'', ''1''], [''1'', ''1'', ''j'', ''j''],
   [''1'', ''1'', ''n'', ''n''], [''1'', ''1'', ''o'', ''o''],
   [''1'', ''j'', ''1'', ''j''], [''1'', ''j'', ''j'', ''n''],
   [''1'', ''j'', ''n'', ''o''], [''1'', ''j'', ''o'', ''1''],
   [''1'', ''n'', ''1'', ''n''], [''1'', ''n'', ''j'', ''o''],
   [''1'', ''n'', ''n'', ''1''], [''1'', ''n'', ''o'', ''j''],
   [''1'', ''o'', ''1'', ''o''], [''1'', ''o'', ''j'', ''1''],
   [''1'', ''o'', ''n'', ''j''], [''1'', ''o'', ''o'', ''n'']]"

definition table_38211_6_3_1_5_4 :: "string list list" where
  "table_38211_6_3_1_5_4 =
  [[''10'', ''01''], [''11'', ''1n''],
   [''11'', ''jo'']]"

definition table_38211_6_3_1_5_5 :: "string list list" where
  "table_38211_6_3_1_5_5 =
  [[''10'', ''01'', ''00'', ''00''], [''10'', ''00'', ''01'', ''00''],
   [''10'', ''00'', ''00'', ''01''], [''00'', ''10'', ''01'', ''00''],
   [''00'', ''10'', ''00'', ''01''], [''00'', ''00'', ''10'', ''01''],
   [''10'', ''01'', ''10'', ''0o''], [''10'', ''01'', ''10'', ''0j''],
   [''10'', ''01'', ''o0'', ''01''], [''10'', ''01'', ''o0'', ''0n''],
   [''10'', ''01'', ''n0'', ''0o''], [''10'', ''01'', ''n0'', ''0j''],
   [''10'', ''01'', ''j0'', ''01''], [''10'', ''01'', ''j0'', ''0n''],
   [''11'', ''11'', ''1n'', ''1n''], [''11'', ''11'', ''jo'', ''jo''],
   [''11'', ''jj'', ''1n'', ''jo''], [''11'', ''jj'', ''jo'', ''n1''],
   [''11'', ''nn'', ''1n'', ''n1''], [''11'', ''nn'', ''jo'', ''oj''],
   [''11'', ''oo'', ''1n'', ''oj''], [''11'', ''oo'', ''jo'', ''1n'']]"

text \<open>An entry of a table; C leaves an index outside it undefined.\<close>

definition table_at :: "string list list \<Rightarrow> int \<Rightarrow> int \<Rightarrow> int \<Rightarrow> srs_error + char" where
  "table_at t tpmi uI layer_idx =
     (if 0 \<le> tpmi \<and> nat tpmi < length t \<and> 0 \<le> uI \<and> nat uI < length (t ! nat tpmi) \<and>
         0 \<le> layer_idx \<and> nat layer_idx < length (t ! nat tpmi ! nat uI)
      then Inr (t ! nat tpmi ! nat uI ! nat layer_idx)
      else Inl OutOfTable)"

definition get_precoder_matrix_coef ::
    "int \<Rightarrow> int \<Rightarrow> bool \<Rightarrow> int \<Rightarrow> int \<Rightarrow> int \<Rightarrow> srs_error + char" where
  "get_precoder_matrix_coef ul_ri ports transform_precoding tpmi uI layer_idx =
     (if ul_ri = 0
      then if ports = 2 then table_at table_38211_6_3_1_5_1 tpmi uI layer_idx
           else if transform_precoding then table_at table_38211_6_3_1_5_2 tpmi uI layer_idx
           else table_at table_38211_6_3_1_5_3 tpmi uI layer_idx
      else if ul_ri = 1
      then if ports = 2 then table_at table_38211_6_3_1_5_4 tpmi uI layer_idx
           else table_at table_38211_6_3_1_5_5 tpmi uI layer_idx
      else Inl UnsupportedLayers)"

section \<open>How many precoders there are\<close>

text \<open>The branches for two and for four ports; the second result is \<open>additional_max_tpmi\<close>.\<close>

definition max_tpmi_2 :: "int \<Rightarrow> int \<Rightarrow> bool \<Rightarrow> codebook_subset option \<Rightarrow> int" where
  "max_tpmi_2 max_rank layers mode1 cbs =
     (if max_rank = 1 then
        (if mode1 then 2 else if cbs = Some nonCoherent then 1 else 5)
      else if mode1 then (if layers = 1 then 2 else 0)
      else if cbs = Some nonCoherent then (if layers = 1 then 1 else 0)
      else (if layers = 1 then 5 else 2))"

definition by_layers :: "int \<Rightarrow> int \<Rightarrow> int \<Rightarrow> int \<Rightarrow> int \<Rightarrow> int" where
  "by_layers layers a b c d =
     (if layers = 1 then a else if layers = 2 then b else if layers = 3 then c else if layers = 4 then d else 0)"

definition max_tpmi_4 :: "int \<Rightarrow> int \<Rightarrow> bool \<Rightarrow> codebook_subset option \<Rightarrow> int \<Rightarrow> int \<times> int" where
  "max_tpmi_4 max_rank layers mode1 cbs additional =
     (if max_rank = 1 then
        if mode1 then (if cbs = Some nonCoherent then (3, 13) else (15, additional))
        else if cbs = Some nonCoherent then (3, additional)
        else if cbs = Some partialAndNonCoherent then (11, additional)
        else (27, additional)
      else if mode1 then
        if max_rank = 2 then
          if cbs = Some nonCoherent
          then (if layers = 1 then 3 else 6, if layers = 1 then 13 else additional)
          else (if layers = 1 then 15 else 13, additional)
        else if cbs = Some nonCoherent
        then (by_layers layers 3 6 1 0, if layers = 1 then 13 else additional)
        else (by_layers layers 15 13 2 2, additional)
      else if cbs = Some nonCoherent then (by_layers layers 3 5 0 0, additional)
      else if cbs = Some partialAndNonCoherent then (by_layers layers 11 13 2 2, additional)
      else (by_layers layers 28 22 7 5, additional))"

definition get_max_tpmi :: "srs_pusch_config option \<Rightarrow> int \<Rightarrow> int \<Rightarrow> int \<Rightarrow> srs_error + (int \<times> int)" where
  "get_max_tpmi pusch_Config ports layers additional =
     (case pusch_Config of
        None \<Rightarrow> Inr (0, additional)
      | Some cfg \<Rightarrow>
          if txConfig cfg = Some nonCodebook \<or> ports = 1 then Inr (0, additional)
          else case maxRank cfg of
                 None \<Rightarrow> Inl NullMaxRank
               | Some max_rank \<Rightarrow>
                   let mode1 = (ul_FullPowerTransmission cfg = Some fullpowerMode1);
                       cbs = codebookSubset cfg
                   in if ports = 2 then Inr (max_tpmi_2 max_rank layers mode1 cbs, additional)
                      else if ports = 4 then Inr (max_tpmi_4 max_rank layers mode1 cbs additional)
                      else Inr (0, additional))"

section \<open>The estimation\<close>

text \<open>
  One coefficient of the precoded channel: the sum over the ports and the layers, in 16 bits.
  Indices are 16-bit, so they wrap for very large channels.
\<close>

definition precode_term ::
    "srs_iq_matrix \<Rightarrow> int \<Rightarrow> bool \<Rightarrow> int \<Rightarrow> int \<Rightarrow> int \<times> int \<Rightarrow> int \<times> int \<Rightarrow> srs_error + (int \<times> int)" where
  "precode_term ch ul_ri tp tpmi index_gI_pI = (\<lambda>(uI, layer_idx) (re, im).
     let index = uint16 (uI * num_gnb_antenna_elements ch * num_prgs ch + index_gI_pI) in
     case get_precoder_matrix_coef ul_ri (num_ue_srs_ports ch) tp tpmi (uI mod 256) layer_idx of
       Inl e \<Rightarrow> Inl e
     | Inr w \<Rightarrow>
         (case nr_h_times_w (channel_matrix ch index) w of
            Inl e \<Rightarrow> Inl e
          | Inr h_times_w \<Rightarrow> Inr (to_i16 (re + c_r h_times_w), to_i16 (im + c_i h_times_w))))"

definition precode_entry :: "srs_iq_matrix \<Rightarrow> int \<Rightarrow> bool \<Rightarrow> int \<Rightarrow> int \<Rightarrow> srs_error + (int \<times> int)" where
  "precode_entry ch ul_ri tp tpmi index_gI_pI =
     fold_res (precode_term ch ul_ri tp tpmi index_gI_pI)
       [(uI, l). uI \<leftarrow> [0..num_ue_srs_ports ch - 1], l \<leftarrow> [0..ul_ri]] (0, 0)"

text \<open>The precoded channel, in an array of the stack that the loop over the precoders reuses.\<close>

definition precode_channel ::
    "srs_iq_matrix \<Rightarrow> int \<Rightarrow> bool \<Rightarrow> int \<Rightarrow> (int \<Rightarrow> int \<times> int) \<Rightarrow> srs_error + (int \<Rightarrow> int \<times> int)" where
  "precode_channel ch ul_ri tp tpmi arr =
     fold_res (\<lambda>(pI, gI) arr.
         let index_gI_pI = uint16 (gI * num_prgs ch + pI) in
         case precode_entry ch ul_ri tp tpmi index_gI_pI of
           Inl e \<Rightarrow> Inl e
         | Inr v \<Rightarrow> Inr (arr(index_gI_pI := v)))
       [(pI, gI). pI \<leftarrow> [0..num_prgs ch - 1], gI \<leftarrow> [0..num_gnb_antenna_elements ch - 1]] arr"

definition array_power :: "srs_iq_matrix \<Rightarrow> (int \<Rightarrow> int \<times> int) \<Rightarrow> srs_error + u32" where
  "array_power ch arr =
     (let size = num_prgs ch * num_gnb_antenna_elements ch in
      calc_power_complex (map (fst \<circ> arr) [0..size - 1]) (map (snd \<circ> arr) [0..size - 1]))"

record tpmi_state =
  tpmi_sel :: int
  max_power :: u32
  precoded :: "int \<Rightarrow> int \<times> int"

definition tpmi_step :: "srs_iq_matrix \<Rightarrow> int \<Rightarrow> bool \<Rightarrow> int \<Rightarrow> tpmi_state \<Rightarrow> srs_error + tpmi_state" where
  "tpmi_step ch ul_ri tp tpmi s =
     (case precode_channel ch ul_ri tp tpmi (precoded s) of
        Inl e \<Rightarrow> Inl e
      | Inr arr \<Rightarrow>
          (case array_power ch arr of
             Inl e \<Rightarrow> Inl e
           | Inr p \<Rightarrow>
               Inr (if max_power s < p
                    then s\<lparr>precoded := arr, max_power := p, tpmi_sel := tpmi\<rparr>
                    else s\<lparr>precoded := arr\<rparr>)))"

text \<open>
  The loop over the precoders, which jumps from \<open>max_tpmi\<close> to the additional one.  Its 8-bit counter
  does not wrap because no bound exceeds 28.
\<close>

function tpmi_loop ::
    "srs_iq_matrix \<Rightarrow> int \<Rightarrow> bool \<Rightarrow> int \<Rightarrow> int \<Rightarrow> int \<Rightarrow> tpmi_state \<Rightarrow> srs_error + tpmi_state" where
  "tpmi_loop ch ul_ri tp max_tpmi end_tpmi_loop tpmi s =
     (if tpmi \<le> end_tpmi_loop \<and> 0 < end_tpmi_loop
      then let tpmi = (if max_tpmi < tpmi then end_tpmi_loop else tpmi) in
           case tpmi_step ch ul_ri tp tpmi s of
             Inl e \<Rightarrow> Inl e
           | Inr s \<Rightarrow> tpmi_loop ch ul_ri tp max_tpmi end_tpmi_loop (tpmi + 1) s
      else Inr s)"
  by pat_completeness auto
termination
  by (relation "measure (\<lambda>(_, _, _, _, e, t, _). nat (e + 1 - t))") (auto simp: Let_def)

definition nr_srs_tpmi_estimation ::
    "srs_pusch_config option \<Rightarrow> bool \<Rightarrow> srs_iq_matrix \<Rightarrow> int \<Rightarrow> (int \<Rightarrow> int \<times> int) \<Rightarrow> srs_error + int" where
  "nr_srs_tpmi_estimation pusch_Config transform_precoding ch ul_ri stack =
     (if 1 < ul_ri then Inr 0
      else case get_max_tpmi pusch_Config (num_ue_srs_ports ch) (ul_ri + 1) (-1) of
             Inl e \<Rightarrow> Inl e
           | Inr (max_tpmi, additional_max_tpmi) \<Rightarrow>
               let end_tpmi_loop = max additional_max_tpmi max_tpmi in
               (case tpmi_loop ch ul_ri transform_precoding max_tpmi end_tpmi_loop 0
                       \<lparr>tpmi_sel = 0, max_power = 0, precoded = stack\<rparr> of
                  Inl e \<Rightarrow> Inl e
                | Inr s \<Rightarrow> Inr (tpmi_sel s)))"

section \<open>Facts about the power\<close>

definition i16 :: "int \<Rightarrow> bool" where
  "i16 x \<longleftrightarrow> -32768 \<le> x \<and> x < 32768"

text \<open>The exact value, before it is stored in 32 bits.\<close>

definition spread :: "int list \<Rightarrow> int" where
  "spread xs = sum_list (map (\<lambda>x. x * x) xs) sdiv int (length xs) -
     (sum_list xs sdiv int (length xs)) * (sum_list xs sdiv int (length xs))"

lemma square_sum_le:
  fixes xs :: "int list"
  shows "(sum_list xs)\<^sup>2 \<le> int (length xs) * sum_list (map (\<lambda>x. x * x) xs)"
proof (induction xs)
  case Nil
  then show ?case by simp
next
  case (Cons a xs)
  define S where "S = sum_list xs"
  define Q where "Q = sum_list (map (\<lambda>x. x * x) xs)"
  define n where "n = int (length xs)"
  have IH: "S\<^sup>2 \<le> n * Q" using Cons.IH by (simp add: S_def Q_def n_def)
  have "2 * a * S \<le> n * (a * a) + Q"
  proof (cases "n = 0")
    case True
    then show ?thesis by (simp add: n_def S_def Q_def)
  next
    case False
    then have n: "0 < n" by (simp add: n_def)
    have "0 \<le> (n * a - S)\<^sup>2" by simp
    then have "2 * (n * a) * S \<le> n * a * (n * a) + S\<^sup>2"
      by (simp add: power2_eq_square algebra_simps)
    also have "\<dots> \<le> n * a * (n * a) + n * Q" using IH by simp
    finally have "n * (2 * a * S) \<le> n * (n * (a * a) + Q)" by (simp add: algebra_simps)
    then show ?thesis using n by (simp add: mult_le_cancel_left)
  qed
  then show ?case using IH
    by (simp add: S_def [symmetric] Q_def [symmetric] n_def [symmetric] power2_eq_square algebra_simps)
qed

lemma sdiv_nonneg: "0 \<le> a \<Longrightarrow> 0 < n \<Longrightarrow> a sdiv n = a div (n :: int)"
  by (cases "a = 0") (simp_all add: signed_divide_int_def)

lemma sdiv_square_le: "0 < n \<Longrightarrow> n * ((s sdiv n) * (s sdiv n)) * n \<le> s * (s :: int)"
proof -
  assume n: "0 < n"
  define q where "q = \<bar>s\<bar> div n"
  have q: "(s sdiv n) * (s sdiv n) = q * q"
    using n by (cases "s < 0"; cases "s = 0") (simp_all add: signed_divide_int_def q_def)
  have "0 \<le> q" using n by (simp add: q_def pos_imp_zdiv_nonneg_iff)
  moreover have "n * q \<le> \<bar>s\<bar>" unfolding q_def using n by (simp add: minus_mod_eq_mult_div [symmetric])
  ultimately have "(n * q) * (n * q) \<le> \<bar>s\<bar> * \<bar>s\<bar>" using n by (intro mult_mono) auto
  then show ?thesis unfolding q by (simp add: algebra_simps)
qed

lemma sum_squares_le:
  assumes "\<forall>x \<in> set xs. i16 x"
  shows "0 \<le> sum_list (map (\<lambda>x. x * x) xs) \<and> sum_list (map (\<lambda>x. x * x) xs) \<le> int (length xs) * 2 ^ 30"
  using assms
proof (induction xs)
  case Nil
  then show ?case by simp
next
  case (Cons a xs)
  have "a * a \<le> 2 ^ 30"
  proof -
    have "\<bar>a\<bar> * \<bar>a\<bar> \<le> 32768 * 32768" using Cons.prems by (intro mult_mono) (auto simp: i16_def)
    then show ?thesis by simp
  qed
  then show ?case using Cons by (simp add: algebra_simps)
qed

lemma spread_bounds:
  assumes "xs \<noteq> []" and "\<forall>x \<in> set xs. i16 x"
  shows "0 \<le> spread xs \<and> spread xs \<le> 2 ^ 30"
proof -
  define n where "n = int (length xs)"
  define S where "S = sum_list xs"
  define Q where "Q = sum_list (map (\<lambda>x. x * x) xs)"
  have n: "0 < n" using assms(1) by (simp add: n_def)
  have Q: "0 \<le> Q" "Q \<le> n * 2 ^ 30" using sum_squares_le [OF assms(2)] by (simp_all add: Q_def n_def)
  have le: "n * ((S sdiv n) * (S sdiv n)) \<le> Q"
  proof -
    have "n * ((S sdiv n) * (S sdiv n)) * n \<le> n * Q"
      using order_trans [OF sdiv_square_le [OF n, of S]] square_sum_le [of xs]
      by (simp add: S_def n_def Q_def power2_eq_square)
    then show ?thesis using n by (simp add: mult.commute [of n])
  qed
  then have "(S sdiv n) * (S sdiv n) \<le> Q div n" using n
    by (metis div_mult_self1_is_m zdiv_mono1 mult.commute nonzero_mult_div_cancel_left less_irrefl)
  moreover have "Q div n \<le> 2 ^ 30"
  proof -
    have "Q div n \<le> (n * 2 ^ 30) div n" using n Q(2) by (rule zdiv_mono1 [rotated])
    then show ?thesis using n by simp
  qed
  moreover have "0 \<le> (S sdiv n) * (S sdiv n)" by simp
  moreover have "spread xs = Q div n - (S sdiv n) * (S sdiv n)"
    by (simp only: spread_def S_def [symmetric] Q_def [symmetric] n_def [symmetric] sdiv_nonneg [OF Q(1) n])
  ultimately show ?thesis by linarith
qed

lemma component_power_spread:
  assumes "xs \<noteq> []" and "\<forall>x \<in> set xs. i16 x"
  shows "uint (component_power xs) = spread xs"
proof -
  have "component_power xs = word_of_int (spread xs)"
    by (simp only: component_power_def spread_def Let_def to_u32_def)
  then show ?thesis using spread_bounds [OF assms] by (simp add: uint_word_of_int)
qed

lemma spread_const: "xs \<noteq> [] \<Longrightarrow> \<forall>x \<in> set xs. x = a \<Longrightarrow> spread xs = 0"
proof -
  assume *: "xs \<noteq> []" "\<forall>x \<in> set xs. x = a"
  then have "xs = replicate (length xs) a" by (metis replicate_eqI)
  then obtain k where "xs = replicate k a" and "0 < k" using *(1) by (metis length_greater_0_conv)
  then show ?thesis
    by (cases "a = 0") (auto simp: spread_def sum_list_replicate signed_divide_int_def sgn_if abs_mult
        zero_less_mult_iff)
qed

section \<open>Facts about the tables\<close>

definition weight_ok :: "char \<Rightarrow> bool" where
  "weight_ok w \<longleftrightarrow> w \<in> set ''01njo''"

definition table_shape :: "string list list \<Rightarrow> nat \<Rightarrow> nat \<Rightarrow> nat \<Rightarrow> bool" where
  "table_shape t rows ports layers \<longleftrightarrow> length t = rows \<and>
     list_all (\<lambda>row. length row = ports \<and> list_all (\<lambda>p. length p = layers \<and> list_all weight_ok p) row) t"

lemma table_shapes:
  "table_shape table_38211_6_3_1_5_1 6 2 1" "table_shape table_38211_6_3_1_5_2 28 4 1"
  "table_shape table_38211_6_3_1_5_3 28 4 1" "table_shape table_38211_6_3_1_5_4 3 2 2"
  "table_shape table_38211_6_3_1_5_5 22 4 2"
  by (simp_all add: table_shape_def table_38211_6_3_1_5_1_def table_38211_6_3_1_5_2_def
      table_38211_6_3_1_5_3_def table_38211_6_3_1_5_4_def table_38211_6_3_1_5_5_def weight_ok_def)

lemma table_at_inside:
  assumes "table_shape t rows ports layers" and "0 \<le> i" "i < int rows" and "0 \<le> u" "u < int ports"
    and "0 \<le> l" "l < int layers"
  shows "\<exists>w. table_at t i u l = Inr w \<and> weight_ok w"
proof -
  have i: "nat i < length t" using assms by (simp add: table_shape_def nat_less_iff)
  then have r: "length (t ! nat i) = ports" "list_all (\<lambda>p. length p = layers \<and> list_all weight_ok p) (t ! nat i)"
    using assms(1) by (auto simp: table_shape_def list_all_length)
  have u: "nat u < length (t ! nat i)" using assms r by (simp add: nat_less_iff)
  then have "length (t ! nat i ! nat u) = layers" "list_all weight_ok (t ! nat i ! nat u)"
    using r(2) by (auto simp: list_all_length)
  moreover then have l: "nat l < length (t ! nat i ! nat u)" using assms by (simp add: nat_less_iff)
  ultimately have "weight_ok (t ! nat i ! nat u ! nat l)" by (simp add: list_all_length)
  then show ?thesis using assms i u l by (simp add: table_at_def)
qed

lemma table_at_outside: "table_shape t rows ports layers \<Longrightarrow> int rows \<le> i \<Longrightarrow> table_at t i u l = Inl OutOfTable"
  by (auto simp: table_at_def table_shape_def)

text \<open>The number of rows of the table that a rank and a number of ports select.\<close>

definition tpmi_rows :: "int \<Rightarrow> int \<Rightarrow> int" where
  "tpmi_rows ul_ri ports =
     (if ul_ri = 0 then if ports = 2 then 6 else 28 else if ports = 2 then 3 else 22)"

lemma coef_inside:
  assumes "ul_ri = 0 \<or> ul_ri = 1" and "ports = 2 \<or> ports = 4" and "0 \<le> tpmi" "tpmi < tpmi_rows ul_ri ports"
    and "0 \<le> u" "u < ports" and "0 \<le> l" "l \<le> ul_ri"
  shows "\<exists>w. get_precoder_matrix_coef ul_ri ports tp tpmi u l = Inr w \<and> weight_ok w"
  using assms table_at_inside [OF table_shapes(1), of tpmi u l] table_at_inside [OF table_shapes(2), of tpmi u l]
    table_at_inside [OF table_shapes(3), of tpmi u l] table_at_inside [OF table_shapes(4), of tpmi u l]
    table_at_inside [OF table_shapes(5), of tpmi u l]
  by (auto simp: get_precoder_matrix_coef_def tpmi_rows_def)

lemma coef_outside:
  assumes "ul_ri = 0 \<or> ul_ri = 1" and "tpmi_rows ul_ri ports \<le> tpmi"
  shows "get_precoder_matrix_coef ul_ri ports tp tpmi u l = Inl OutOfTable"
  using assms table_at_outside [OF table_shapes(1), of tpmi u l] table_at_outside [OF table_shapes(2), of tpmi u l]
    table_at_outside [OF table_shapes(3), of tpmi u l] table_at_outside [OF table_shapes(4), of tpmi u l]
    table_at_outside [OF table_shapes(5), of tpmi u l]
  by (auto simp: get_precoder_matrix_coef_def tpmi_rows_def split: if_splits)

lemma times_weight: "weight_ok w \<Longrightarrow> \<exists>c. nr_h_times_w h w = Inr c"
  by (auto simp: weight_ok_def nr_h_times_w_def)

section \<open>Facts about the precoded channel\<close>

definition channel_ok :: "srs_iq_matrix \<Rightarrow> bool" where
  "channel_ok ch \<longleftrightarrow> (num_ue_srs_ports ch = 2 \<or> num_ue_srs_ports ch = 4) \<and>
     0 < num_gnb_antenna_elements ch \<and> 0 < num_prgs ch \<and>
     num_prgs ch * num_gnb_antenna_elements ch \<le> 65536"

lemma entry_inside:
  assumes "channel_ok ch" and "ul_ri = 0 \<or> ul_ri = 1" and "0 \<le> tpmi" "tpmi < tpmi_rows ul_ri (num_ue_srs_ports ch)"
  shows "\<exists>v. precode_entry ch ul_ri tp tpmi i = Inr v \<and> i16 (fst v) \<and> i16 (snd v)"
proof -
  let ?xs = "[(uI, l). uI \<leftarrow> [0..num_ue_srs_ports ch - 1], l \<leftarrow> [0..ul_ri]]"
  have step: "\<exists>v. precode_term ch ul_ri tp tpmi i x s = Inr v \<and> i16 (fst v) \<and> i16 (snd v)"
    if x: "x \<in> set ?xs" for x s
  proof -
    obtain u l where ul: "x = (u, l)" "0 \<le> u" "u < num_ue_srs_ports ch" "0 \<le> l" "l \<le> ul_ri" using x by auto
    have m: "u mod 256 = u" using ul assms(1) by (auto simp: channel_ok_def)
    obtain w where w: "get_precoder_matrix_coef ul_ri (num_ue_srs_ports ch) tp tpmi u l = Inr w" "weight_ok w"
      using coef_inside [of ul_ri "num_ue_srs_ports ch" tpmi u l tp] assms ul by (auto simp: channel_ok_def)
    obtain re im where s: "s = (re, im)" by (cases s)
    obtain c where "nr_h_times_w (channel_matrix ch
        (uint16 (u * num_gnb_antenna_elements ch * num_prgs ch + i))) w = Inr c"
      using times_weight [OF w(2)] by blast
    then show ?thesis using to_i16_range by (simp add: precode_term_def ul(1) s m w(1) i16_def)
  qed
  have "\<exists>v. fold_res (precode_term ch ul_ri tp tpmi i) xs s = Inr v \<and> i16 (fst v) \<and> i16 (snd v)"
    if "set xs \<subseteq> set ?xs" "i16 (fst s)" "i16 (snd s)" for xs s
    using that
  proof (induction xs arbitrary: s)
    case Nil
    then show ?case by simp
  next
    case (Cons x xs)
    then obtain v where "precode_term ch ul_ri tp tpmi i x s = Inr v" "i16 (fst v)" "i16 (snd v)"
      using step [of x s] by auto
    then show ?case using Cons.IH [of v] Cons.prems(1) by auto
  qed
  from this [of ?xs "(0, 0)"] show ?thesis by (simp add: precode_entry_def i16_def)
qed

lemma entry_outside:
  assumes "channel_ok ch" and "ul_ri = 0 \<or> ul_ri = 1" and "tpmi_rows ul_ri (num_ue_srs_ports ch) \<le> tpmi"
  shows "precode_entry ch ul_ri tp tpmi i = Inl OutOfTable"
proof -
  have "[0..num_ue_srs_ports ch - 1] = 0 # [1..num_ue_srs_ports ch - 1]" and "[0..ul_ri] = 0 # [1..ul_ri]"
    using assms(1,2) by (auto simp: channel_ok_def upto_rec1)
  moreover have "precode_term ch ul_ri tp tpmi i x s = Inl OutOfTable" for x s
    using coef_outside [OF assms(2,3)] by (simp add: precode_term_def split_beta)
  ultimately show ?thesis by (simp add: precode_entry_def)
qed

definition entry_value :: "srs_iq_matrix \<Rightarrow> int \<Rightarrow> bool \<Rightarrow> int \<Rightarrow> int \<Rightarrow> int \<times> int" where
  "entry_value ch ul_ri tp tpmi i =
     (case precode_entry ch ul_ri tp tpmi i of Inr v \<Rightarrow> v | Inl _ \<Rightarrow> (0, 0))"

text \<open>The power a precoder achieves, a function of the channel alone.\<close>

definition precoded_power :: "srs_iq_matrix \<Rightarrow> int \<Rightarrow> bool \<Rightarrow> int \<Rightarrow> u32" where
  "precoded_power ch ul_ri tp tpmi =
     (let is = [0..num_prgs ch * num_gnb_antenna_elements ch - 1] in
      component_power (map (fst \<circ> entry_value ch ul_ri tp tpmi) is) +
      component_power (map (snd \<circ> entry_value ch ul_ri tp tpmi) is))"

lemma fold_upd: "fold (\<lambda>x arr. arr(h x := g (h x))) xs arr i = (if i \<in> h ` set xs then g i else arr i)"
  by (induction xs arbitrary: arr) auto

lemma index_surj:
  assumes "channel_ok ch" and "0 \<le> i" "i < num_prgs ch * num_gnb_antenna_elements ch"
  shows "i \<in> (\<lambda>(pI, gI). uint16 (gI * num_prgs ch + pI)) `
    set [(pI, gI). pI \<leftarrow> [0..num_prgs ch - 1], gI \<leftarrow> [0..num_gnb_antenna_elements ch - 1]]"
proof -
  let ?P = "num_prgs ch" and ?A = "num_gnb_antenna_elements ch"
  have P: "0 < ?P" and le: "?P * ?A \<le> 65536" using assms(1) by (simp_all add: channel_ok_def)
  have "i div ?P < ?A"
  proof (rule ccontr)
    assume "\<not> i div ?P < ?A"
    then have "?A * ?P \<le> i div ?P * ?P" using P by simp
    also have "\<dots> \<le> i" using P assms(2) by (metis div_mult_mod_eq le_add_same_cancel1 pos_mod_sign)
    finally show False using assms(3) by (simp add: mult.commute)
  qed
  moreover have "0 \<le> i div ?P" "0 \<le> i mod ?P" "i mod ?P < ?P" using P assms(2) by (simp_all add: pos_imp_zdiv_nonneg_iff)
  moreover have "i = uint16 (i div ?P * ?P + i mod ?P)" using assms(2,3) le by (simp add: uint16_def)
  ultimately show ?thesis by (intro image_eqI [where x = "(i mod ?P, i div ?P)"]) (auto simp: image_iff)
qed

lemma precode_inside:
  assumes "channel_ok ch" and "ul_ri = 0 \<or> ul_ri = 1" and "0 \<le> tpmi" "tpmi < tpmi_rows ul_ri (num_ue_srs_ports ch)"
  shows "\<exists>arr'. precode_channel ch ul_ri tp tpmi arr = Inr arr' \<and>
    array_power ch arr' = Inr (precoded_power ch ul_ri tp tpmi)"
proof -
  let ?is = "[(pI, gI). pI \<leftarrow> [0..num_prgs ch - 1], gI \<leftarrow> [0..num_gnb_antenna_elements ch - 1]]"
  let ?h = "\<lambda>(pI, gI). uint16 (gI * num_prgs ch + pI)"
  let ?g = "entry_value ch ul_ri tp tpmi"
  define arr' where "arr' = fold (\<lambda>x arr. arr(?h x := ?g (?h x))) ?is arr"
  have "precode_entry ch ul_ri tp tpmi i = Inr (?g i)" for i
    using entry_inside [OF assms, of tp i] by (auto simp: entry_value_def)
  then have 1: "precode_channel ch ul_ri tp tpmi arr = Inr arr'"
    unfolding precode_channel_def arr'_def by (intro fold_res_Inr) (auto simp: split_beta Let_def)
  have eq: "arr' i = ?g i" if "0 \<le> i" "i < num_prgs ch * num_gnb_antenna_elements ch" for i
    using index_surj [OF assms(1) that] unfolding arr'_def fold_upd by simp
  have "0 < num_prgs ch * num_gnb_antenna_elements ch" using assms(1) by (simp add: channel_ok_def)
  moreover have "map (fst \<circ> arr') [0..num_prgs ch * num_gnb_antenna_elements ch - 1] =
      map (fst \<circ> ?g) [0..num_prgs ch * num_gnb_antenna_elements ch - 1]"
    and "map (snd \<circ> arr') [0..num_prgs ch * num_gnb_antenna_elements ch - 1] =
      map (snd \<circ> ?g) [0..num_prgs ch * num_gnb_antenna_elements ch - 1]"
    by (auto simp: eq)
  ultimately have "array_power ch arr' = Inr (precoded_power ch ul_ri tp tpmi)"
    unfolding array_power_def precoded_power_def calc_power_complex_def Let_def by (simp del: map_eq_conv)
  with 1 show ?thesis by blast
qed

lemma precode_outside:
  assumes "channel_ok ch" and "ul_ri = 0 \<or> ul_ri = 1" and "tpmi_rows ul_ri (num_ue_srs_ports ch) \<le> tpmi"
  shows "precode_channel ch ul_ri tp tpmi arr = Inl OutOfTable"
proof -
  have "[0..num_prgs ch - 1] = 0 # [1..num_prgs ch - 1]"
    and "[0..num_gnb_antenna_elements ch - 1] = 0 # [1..num_gnb_antenna_elements ch - 1]"
    using assms(1) by (auto simp: channel_ok_def upto_rec1)
  then show ?thesis using entry_outside [OF assms] by (simp add: precode_channel_def)
qed

section \<open>Facts about the search\<close>

text \<open>\<open>sel\<close> is the first candidate of \<open>cs\<close> with the largest power; it stays 0 when all powers are 0.\<close>

definition best_of :: "(int \<Rightarrow> u32) \<Rightarrow> int list \<Rightarrow> int \<Rightarrow> bool" where
  "best_of f cs sel \<longleftrightarrow>
     (if \<forall>c \<in> set cs. f c = 0 then sel = 0
      else sel \<in> set cs \<and> (\<forall>c \<in> set cs. f c \<le> f sel \<and> (c < sel \<longrightarrow> f c < f sel)))"

definition best_so_far :: "(int \<Rightarrow> u32) \<Rightarrow> int list \<Rightarrow> int \<Rightarrow> u32 \<Rightarrow> bool" where
  "best_so_far f cs sel p \<longleftrightarrow> (\<forall>c \<in> set cs. f c \<le> p) \<and>
     (p = 0 \<and> sel = 0 \<or> 0 < p \<and> sel \<in> set cs \<and> f sel = p \<and> (\<forall>c \<in> set cs. c < sel \<longrightarrow> f c < p))"

lemma best_so_far_step:
  "best_so_far f cs sel p \<Longrightarrow> \<forall>c \<in> set cs. c < t \<Longrightarrow>
   best_so_far f (cs @ [t]) (if p < f t then t else sel) (if p < f t then f t else p)"
  by (auto simp: best_so_far_def intro: le_less_trans order_trans word_gt_0 simp: word_neq_0_conv)

lemma best_so_far_done: "best_so_far f cs sel p \<Longrightarrow> best_of f cs sel"
  by (auto simp: best_so_far_def best_of_def)

lemma step_inside:
  assumes "channel_ok ch" and "ul_ri = 0 \<or> ul_ri = 1" and "0 \<le> t" "t < tpmi_rows ul_ri (num_ue_srs_ports ch)"
    and "best_so_far (precoded_power ch ul_ri tp) cs (tpmi_sel s) (max_power s)" and "\<forall>c \<in> set cs. c < t"
  shows "\<exists>s'. tpmi_step ch ul_ri tp t s = Inr s' \<and>
    best_so_far (precoded_power ch ul_ri tp) (cs @ [t]) (tpmi_sel s') (max_power s')"
proof -
  obtain arr where "precode_channel ch ul_ri tp t (precoded s) = Inr arr"
    and "array_power ch arr = Inr (precoded_power ch ul_ri tp t)"
    using precode_inside [OF assms(1-4)] by blast
  then show ?thesis using best_so_far_step [OF assms(5,6)]
    by (cases "max_power s < precoded_power ch ul_ri tp t") (simp_all add: tpmi_step_def)
qed

definition tpmi_candidates :: "int \<Rightarrow> int \<Rightarrow> int list" where
  "tpmi_candidates max_tpmi additional =
     (if max additional max_tpmi \<le> 0 then []
      else [0..max_tpmi] @ (if max_tpmi < additional then [additional] else []))"

lemma loop_inside:
  assumes "channel_ok ch" and "ul_ri = 0 \<or> ul_ri = 1" and "e < tpmi_rows ul_ri (num_ue_srs_ports ch)"
    and "0 \<le> m" "m \<le> e" "0 < e" and "0 \<le> t" "t \<le> m + 1"
    and "best_so_far (precoded_power ch ul_ri tp) [0..t - 1] (tpmi_sel s) (max_power s)"
  shows "\<exists>s'. tpmi_loop ch ul_ri tp m e t s = Inr s' \<and>
    best_of (precoded_power ch ul_ri tp) (tpmi_candidates m e) (tpmi_sel s')"
  using assms(7-9)
proof (induction "nat (m + 1 - t)" arbitrary: t s)
  case 0
  then have t: "t = m + 1" by simp
  show ?case
  proof (cases "m < e")
    case True
    obtain s' where s': "tpmi_step ch ul_ri tp e s = Inr s'"
      "best_so_far (precoded_power ch ul_ri tp) ([0..m] @ [e]) (tpmi_sel s') (max_power s')"
      using step_inside [OF assms(1,2) _ assms(3), of tp "[0..m]" s] 0 t True assms(6) by auto
    have "tpmi_loop ch ul_ri tp m e (e + 1) s' = Inr s'" by (subst tpmi_loop.simps) simp
    then show ?thesis using s' True t assms(6) best_so_far_done [OF s'(2)]
      by (subst tpmi_loop.simps) (simp add: tpmi_candidates_def)
  next
    case False
    then show ?thesis using 0 t assms(5,6) best_so_far_done
      by (subst tpmi_loop.simps) (auto simp: tpmi_candidates_def)
  qed
next
  case (Suc k)
  then have t: "t \<le> m" by simp
  obtain s' where s': "tpmi_step ch ul_ri tp t s = Inr s'"
    "best_so_far (precoded_power ch ul_ri tp) ([0..t - 1] @ [t]) (tpmi_sel s') (max_power s')"
    using step_inside [OF assms(1,2) Suc.prems(1) _ Suc.prems(3)] t assms(3,5) by auto
  have l: "[0..t - 1] @ [t] = [0..t + 1 - 1]" using upto_rec2 [of 0 t] Suc.prems(1) by simp
  have k: "k = nat (m + 1 - (t + 1))" using Suc(2) by simp
  have "\<exists>s''. tpmi_loop ch ul_ri tp m e (t + 1) s' = Inr s'' \<and>
      best_of (precoded_power ch ul_ri tp) (tpmi_candidates m e) (tpmi_sel s'')"
    using Suc(1) [OF k, of s'] s'(2) t Suc.prems(1) unfolding l by simp
  then show ?case using s'(1) t assms(5,6) by (subst tpmi_loop.simps) simp
qed

lemma loop_outside:
  assumes "channel_ok ch" and "ul_ri = 0 \<or> ul_ri = 1" and "tpmi_rows ul_ri (num_ue_srs_ports ch) \<le> m"
    and "m \<le> e" "0 < e" and "0 \<le> t" "t \<le> tpmi_rows ul_ri (num_ue_srs_ports ch)"
  shows "tpmi_loop ch ul_ri tp m e t s = Inl OutOfTable"
  using assms(6,7)
proof (induction "nat (tpmi_rows ul_ri (num_ue_srs_ports ch) - t)" arbitrary: t s)
  case 0
  then show ?case using assms(3-5) precode_outside [OF assms(1,2)]
    by (subst tpmi_loop.simps) (simp add: tpmi_step_def)
next
  case (Suc k)
  then have t: "t < tpmi_rows ul_ri (num_ue_srs_ports ch)" by simp
  obtain arr where "precode_channel ch ul_ri tp t (precoded s) = Inr arr"
    and "array_power ch arr = Inr (precoded_power ch ul_ri tp t)"
    using precode_inside [OF assms(1,2) Suc.prems(1) t] by blast
  then obtain s' where s': "tpmi_step ch ul_ri tp t s = Inr s'" by (simp add: tpmi_step_def)
  have "k = nat (tpmi_rows ul_ri (num_ue_srs_ports ch) - (t + 1))" using Suc(2) by simp
  then have "tpmi_loop ch ul_ri tp m e (t + 1) s' = Inl OutOfTable"
    using Suc(1) t Suc.prems(1) by simp
  then show ?case using s' t assms(3-5) by (subst tpmi_loop.simps) simp
qed

section \<open>Facts about the number of precoders\<close>

text \<open>The configuration whose last TPMI is beyond the table: four ports, full coherence, rank above one.\<close>

definition overlong_codebook :: "srs_pusch_config option \<Rightarrow> int \<Rightarrow> bool" where
  "overlong_codebook pusch_Config ports \<longleftrightarrow>
     (case pusch_Config of
        None \<Rightarrow> False
      | Some cfg \<Rightarrow> ports = 4 \<and> txConfig cfg \<noteq> Some nonCodebook \<and> maxRank cfg \<noteq> Some 1 \<and>
          ul_FullPowerTransmission cfg \<noteq> Some fullpowerMode1 \<and>
          codebookSubset cfg \<noteq> Some nonCoherent \<and> codebookSubset cfg \<noteq> Some partialAndNonCoherent)"

text \<open>The rank the estimation is asked for is one the configuration allows.\<close>

definition rank_allowed :: "srs_pusch_config option \<Rightarrow> int \<Rightarrow> bool" where
  "rank_allowed pusch_Config ul_ri \<longleftrightarrow> (ul_ri = 0 \<or> ul_ri = 1) \<and>
     (\<forall>cfg. pusch_Config = Some cfg \<longrightarrow> (\<exists>r. maxRank cfg = Some r \<and> ul_ri < r))"

lemma max_tpmi_bounds:
  assumes "rank_allowed pc ul_ri" and "ports = 2 \<or> ports = 4"
  shows "\<exists>m a. get_max_tpmi pc ports (ul_ri + 1) (-1) = Inr (m, a) \<and> 0 \<le> m \<and>
    (if overlong_codebook pc ports then m = tpmi_rows ul_ri ports \<and> a = -1
     else max a m < tpmi_rows ul_ri ports)"
proof (cases pc)
  case None
  then show ?thesis using assms(2) by (auto simp: get_max_tpmi_def overlong_codebook_def tpmi_rows_def)
next
  case (Some cfg)
  then obtain r where r: "maxRank cfg = Some r" "ul_ri < r" using assms(1) by (auto simp: rank_allowed_def)
  have ri: "ul_ri = 0 \<or> ul_ri = 1" using assms(1) by (simp add: rank_allowed_def)
  show ?thesis
  proof (cases "txConfig cfg = Some nonCodebook")
    case True
    then show ?thesis using assms(2) Some by (auto simp: get_max_tpmi_def overlong_codebook_def tpmi_rows_def)
  next
    case False
    show ?thesis
      using assms(2) ri
      by (elim disjE) (simp_all add: False Some r(1) get_max_tpmi_def overlong_codebook_def tpmi_rows_def
          Let_def max_tpmi_2_def max_tpmi_4_def by_layers_def, insert r(2), auto)
  qed
qed

lemma estimation_inside:
  assumes "channel_ok ch" and "rank_allowed pc ul_ri" and "\<not> overlong_codebook pc (num_ue_srs_ports ch)"
  shows "\<exists>t m a. nr_srs_tpmi_estimation pc tp ch ul_ri stack = Inr t \<and>
    get_max_tpmi pc (num_ue_srs_ports ch) (ul_ri + 1) (-1) = Inr (m, a) \<and>
    max a m < tpmi_rows ul_ri (num_ue_srs_ports ch) \<and>
    best_of (precoded_power ch ul_ri tp) (tpmi_candidates m a) t"
proof -
  have ri: "ul_ri = 0 \<or> ul_ri = 1" using assms(2) by (simp add: rank_allowed_def)
  obtain m a where m: "get_max_tpmi pc (num_ue_srs_ports ch) (ul_ri + 1) (-1) = Inr (m, a)" "0 \<le> m"
      "max a m < tpmi_rows ul_ri (num_ue_srs_ports ch)"
    using max_tpmi_bounds [OF assms(2), of "num_ue_srs_ports ch"] assms(1,3) by (auto simp: channel_ok_def)
  define s where "s = \<lparr>tpmi_sel = 0, max_power = 0, precoded = stack\<rparr>"
  have b: "best_so_far f [0..0 - 1] (tpmi_sel s) (max_power s)" for f by (simp add: best_so_far_def s_def)
  have "\<exists>s'. tpmi_loop ch ul_ri tp m (max a m) 0 s = Inr s' \<and>
      best_of (precoded_power ch ul_ri tp) (tpmi_candidates m a) (tpmi_sel s')"
  proof (cases "0 < max a m")
    case True
    have "tpmi_candidates m (max a m) = tpmi_candidates m a" by (auto simp: tpmi_candidates_def)
    then show ?thesis using loop_inside [OF assms(1) ri m(3) m(2) _ True _ _ b] m(2) by simp
  next
    case False
    then have "tpmi_candidates m a = []" by (simp only: tpmi_candidates_def if_True not_less)
    then show ?thesis using False
      by (subst tpmi_loop.simps) (auto simp: best_of_def s_def)
  qed
  then obtain s' where "tpmi_loop ch ul_ri tp m (max a m) 0 s = Inr s'"
    and "best_of (precoded_power ch ul_ri tp) (tpmi_candidates m a) (tpmi_sel s')" by blast
  then show ?thesis using m(1,3) ri unfolding s_def
    by (intro exI [of _ "tpmi_sel s'"] exI [of _ m] exI [of _ a]) (auto simp: nr_srs_tpmi_estimation_def)
qed

lemma estimation_outside:
  assumes "channel_ok ch" and "rank_allowed pc ul_ri" and "overlong_codebook pc (num_ue_srs_ports ch)"
  shows "nr_srs_tpmi_estimation pc tp ch ul_ri stack = Inl OutOfTable"
proof -
  have ri: "ul_ri = 0 \<or> ul_ri = 1" using assms(2) by (simp add: rank_allowed_def)
  have rows: "0 < tpmi_rows ul_ri (num_ue_srs_ports ch)" by (simp add: tpmi_rows_def)
  have "get_max_tpmi pc (num_ue_srs_ports ch) (ul_ri + 1) (-1) =
      Inr (tpmi_rows ul_ri (num_ue_srs_ports ch), -1)"
    using max_tpmi_bounds [OF assms(2), of "num_ue_srs_ports ch"] assms(1,3) by (auto simp: channel_ok_def)
  then show ?thesis using ri loop_outside [OF assms(1) ri order_refl] rows
    by (auto simp: nr_srs_tpmi_estimation_def)
qed

section \<open>Properties\<close>

text \<open>
  The measure the code calls the power of the precoded channel is the truncated variance of the
  real parts plus that of the imaginary parts: for 16-bit samples it is never negative, each part
  is at most 2^30, so the 32-bit sum does not wrap, and it is 0 for a channel that is the same in
  every sample.  No samples at all divide by zero.
\<close>

lemma calc_power_bounds:
  assumes "length xs = length ys" and "\<forall>x \<in> set xs \<union> set ys. i16 x"
  shows "(xs = [] \<longrightarrow> calc_power_complex xs ys = Inl DivByZero) \<and>
    (xs \<noteq> [] \<longrightarrow> (\<exists>p. calc_power_complex xs ys = Inr p \<and> uint p = spread xs + spread ys \<and>
       0 \<le> spread xs \<and> spread xs \<le> 2 ^ 30 \<and> 0 \<le> spread ys \<and> spread ys \<le> 2 ^ 30 \<and>
       (\<forall>a b. set xs = {a} \<and> set ys = {b} \<longrightarrow> p = 0)))"
proof (cases "xs = []")
  case True
  then show ?thesis by (simp add: calc_power_complex_def)
next
  case False
  then have ne: "xs \<noteq> []" "ys \<noteq> []" using assms(1) by auto
  have "\<forall>x \<in> set xs. i16 x" and "\<forall>x \<in> set ys. i16 x" using assms(2) by auto
  note px = component_power_spread [OF ne(1) this(1)] spread_bounds [OF ne(1) this(1)]
    and py = component_power_spread [OF ne(2) this(2)] spread_bounds [OF ne(2) this(2)]
  have sum: "uint (component_power xs + component_power ys) = spread xs + spread ys"
    using px py by (simp add: uint_word_ariths)
  have "spread xs + spread ys = 0" if "set xs = {a}" "set ys = {b}" for a b
    using spread_const [OF ne(1), of a] spread_const [OF ne(2), of b] that by simp
  then have "component_power xs + component_power ys = 0" if "set xs = {a}" "set ys = {b}" for a b
    using sum that by (metis uint_0_iff)
  then show ?thesis using False sum px(2) py(2) by (auto simp: calc_power_complex_def)
qed

text \<open>
  C24. For a channel with two or four ports and an allowed rank, the estimation reads only rows that
  exist and returns one of them, unless the codebook is fully coherent with four ports, a maximum
  rank above one and no full power mode 1: then the number of precoders is one too many and the
  search always reads a row beyond the table of 28 or 22 rows.
\<close>

theorem tpmi_reads_in_bounds:
  assumes "channel_ok ch" and "rank_allowed pc ul_ri"
  shows "if overlong_codebook pc (num_ue_srs_ports ch)
    then nr_srs_tpmi_estimation pc tp ch ul_ri stack = Inl OutOfTable
    else \<exists>t. nr_srs_tpmi_estimation pc tp ch ul_ri stack = Inr t \<and> 0 \<le> t \<and>
           t < tpmi_rows ul_ri (num_ue_srs_ports ch)"
proof (cases "overlong_codebook pc (num_ue_srs_ports ch)")
  case True
  then show ?thesis using estimation_outside [OF assms] by simp
next
  case False
  obtain t m a where t: "nr_srs_tpmi_estimation pc tp ch ul_ri stack = Inr t"
    "max a m < tpmi_rows ul_ri (num_ue_srs_ports ch)"
    "best_of (precoded_power ch ul_ri tp) (tpmi_candidates m a) t"
    using estimation_inside [OF assms False] by blast
  have "0 \<le> t \<and> t < tpmi_rows ul_ri (num_ue_srs_ports ch)"
    using t(2,3) by (auto simp: best_of_def tpmi_candidates_def tpmi_rows_def split: if_splits)
  with t(1) False show ?thesis by auto
qed

definition codebook_example :: srs_pusch_config where
  "codebook_example = \<lparr>tp_pi2BPSK = False, has_deltaMCS = False, txConfig = None, maxRank = Some 2,
     ul_FullPowerTransmission = None, codebookSubset = None\<rparr>"

definition channel_example :: "int \<Rightarrow> srs_iq_matrix" where
  "channel_example ports = \<lparr>num_gnb_antenna_elements = 2, num_ue_srs_ports = ports, num_prgs = 1,
     channel_matrix = (\<lambda>i. if i = 0 then \<lparr>c_r = 4, c_i = 0\<rparr> else \<lparr>c_r = 0, c_i = 0\<rparr>)\<rparr>"

theorem tpmi_reads_in_bounds_witness:
  "nr_srs_tpmi_estimation (Some codebook_example) False (channel_example 4) 1 (\<lambda>_. (0, 0)) = Inl OutOfTable \<and>
   (\<exists>t. nr_srs_tpmi_estimation (Some codebook_example) False (channel_example 2) 1 (\<lambda>_. (0, 0)) = Inr t \<and> t < 3)"
  using tpmi_reads_in_bounds [of "channel_example 4" "Some codebook_example" 1 False "\<lambda>_. (0, 0)"]
    tpmi_reads_in_bounds [of "channel_example 2" "Some codebook_example" 1 False "\<lambda>_. (0, 0)"]
  by (auto simp: channel_example_def channel_ok_def codebook_example_def rank_allowed_def
      overlong_codebook_def tpmi_rows_def)

text \<open>
  C25. The estimation returns the first TPMI with the largest power of the precoded channel among
  those the configuration allows, the additional one of full power mode 1 included, whatever the
  uninitialised stack held; when every power is 0, as for a single sample, it returns TPMI 0.
  The power is the one of the code: the variance of the samples, not the mean of their squares.
\<close>

theorem tpmi_selects_best:
  assumes "channel_ok ch" and "rank_allowed pc ul_ri" and "\<not> overlong_codebook pc (num_ue_srs_ports ch)"
  shows "\<exists>t m a. nr_srs_tpmi_estimation pc tp ch ul_ri stack = Inr t \<and>
    get_max_tpmi pc (num_ue_srs_ports ch) (ul_ri + 1) (-1) = Inr (m, a) \<and>
    best_of (precoded_power ch ul_ri tp) (tpmi_candidates m a) t \<and>
    (num_prgs ch = 1 \<and> num_gnb_antenna_elements ch = 1 \<longrightarrow> t = 0)"
proof -
  obtain t m a where t: "nr_srs_tpmi_estimation pc tp ch ul_ri stack = Inr t"
    "get_max_tpmi pc (num_ue_srs_ports ch) (ul_ri + 1) (-1) = Inr (m, a)"
    "best_of (precoded_power ch ul_ri tp) (tpmi_candidates m a) t"
    using estimation_inside [OF assms] by blast
  have "component_power [x] = 0" for x
    using spread_const [of "[x]" x] by (simp only: component_power_def spread_def Let_def to_u32_def) simp
  then have "precoded_power ch ul_ri tp c = 0" if "num_prgs ch = 1" "num_gnb_antenna_elements ch = 1" for c
    using that by (simp add: precoded_power_def)
  then have "num_prgs ch = 1 \<and> num_gnb_antenna_elements ch = 1 \<longrightarrow> t = 0"
    using t(3) by (simp add: best_of_def)
  with t show ?thesis by blast
qed

theorem tpmi_selects_best_witness:
  "\<exists>t m a. nr_srs_tpmi_estimation (Some codebook_example) False (channel_example 2) 1 (\<lambda>_. (0, 0)) = Inr t \<and>
    get_max_tpmi (Some codebook_example) 2 2 (-1) = Inr (m, a) \<and>
    best_of (precoded_power (channel_example 2) 1 False) (tpmi_candidates m a) t"
  using tpmi_selects_best [of "channel_example 2" "Some codebook_example" 1 False "\<lambda>_. (0, 0)"]
  by (auto simp: channel_example_def channel_ok_def codebook_example_def rank_allowed_def overlong_codebook_def)

end
