(* ===== verification/SrsReport.thy ===== *)
theory SrsReport imports SrsPrecoder UlTda CString begin

text \<open>
  The indication of a sounding reference signal, \<^verbatim>\<open>handle_nr_srs_measurements\<close> in
  \<^verbatim>\<open>gnb_patch/gNB_scheduler_ulsch.c\<close>: beam management reports blacklist the resource blocks whose SNR
  is far below the wideband SNR, codebook reports choose rank and precoder.
  The unpacking of the two reports, the rank computation and the value of \<^verbatim>\<open>NR_SRS_SRI_0\<close> are code of
  other files and parameters (\<open>srs_lib\<close>).
\<close>

section \<open>Data\<close>

datatype srs_usage_t =
  usage_beamManagement | usage_codebook | usage_nonCodebook | usage_antennaSwitching | usage_other int

record srs_bf_report =
  prg_size :: int
  wide_band_snr :: int
  bf_num_prgs :: int
  rb_snr :: "int \<Rightarrow> int"

record srs_feedback_t =
  sri :: int
  ul_ri :: int
  srs_tpmi :: int

record srs_ue =
  ue_pusch_Config :: "srs_pusch_config option"
  transform_precoding :: bool
  srs_stats :: string
  srs_feedback :: srs_feedback_t

text \<open>The part of the MAC instance an indication touches; \<^verbatim>\<open>find_nr_UE\<close> looks an RNTI up.\<close>

record srs_mac =
  ul_prbblack_SNR_threshold :: int
  ulprbbl :: prb_map
  srs_ues :: "int \<Rightarrow> srs_ue option"

record 'v srs_indication =
  srs_rnti :: int
  timing_advance_offset :: int
  srs_usage :: srs_usage_t
  report_tlv :: 'v

record 'v srs_lib =
  unpack_bf :: "'v \<Rightarrow> srs_bf_report"
  unpack_iq :: "'v \<Rightarrow> srs_iq_matrix"
  nr_srs_ri_computation :: "srs_iq_matrix \<Rightarrow> srs_ue \<Rightarrow> int"
  NR_SRS_SRI_0 :: int

section \<open>The handler\<close>

definition snr_dB :: "int \<Rightarrow> int" where
  "snr_dB x = x div 2 - 64"

text \<open>The loop over the resource blocks, after the array has been cleared.\<close>

definition prbbl_update :: "int \<Rightarrow> srs_bf_report \<Rightarrow> prb_map \<Rightarrow> prb_map" where
  "prbbl_update threshold r bl =
     (let wide_band_snr_dB = snr_dB (wide_band_snr r);
          num_rbs = uint16 (prg_size r * bf_num_prgs r);
          cleared = fold (\<lambda>rb bl. bl(rb := 0)) [0..num_rbs - 1] bl
      in fold (\<lambda>rb bl.
           let snr = snr_dB (rb_snr r (rb div prg_size r)) in
           if snr < wide_band_snr_dB - threshold then bl(rb := 0x3FFF) else bl)
         [0..num_rbs - 1] cleared)"

definition srs_beam_management :: "int \<Rightarrow> srs_bf_report \<Rightarrow> srs_ue \<Rightarrow> srs_mac \<Rightarrow> srs_mac" where
  "srs_beam_management rnti r ue mac =
     (if wide_band_snr r = 0xFF then mac
      else mac\<lparr>
        srs_ues := (srs_ues mac)(rnti \<mapsto>
          ue\<lparr>srs_stats := ''UL-SNR '' @ int_str (snr_dB (wide_band_snr r)) @ '' dB''\<rparr>),
        ulprbbl := prbbl_update (ul_prbblack_SNR_threshold mac) r (ulprbbl mac)\<rparr>)"

definition srs_codebook ::
    "'v srs_lib \<Rightarrow> (int \<Rightarrow> int \<times> int) \<Rightarrow> int \<Rightarrow> srs_iq_matrix \<Rightarrow> srs_ue \<Rightarrow> srs_mac \<Rightarrow> srs_error + srs_mac"
where
  "srs_codebook L stack rnti ch ue mac =
     (let ri = nr_srs_ri_computation L ch ue in
      case nr_srs_tpmi_estimation (ue_pusch_Config ue) (transform_precoding ue) ch ri stack of
        Inl e \<Rightarrow> Inl e
      | Inr tpmi \<Rightarrow>
          Inr (mac\<lparr>srs_ues := (srs_ues mac)(rnti \<mapsto>
            ue\<lparr>srs_feedback := \<lparr>sri = NR_SRS_SRI_0 L, ul_ri = ri, srs_tpmi = tpmi\<rparr>,
               srs_stats := ''UL-RI '' @ int_str (ri + 1) @ '', TPMI '' @ int_str tpmi\<rparr>)\<rparr>))"

definition handle_nr_srs_measurements ::
    "'v srs_lib \<Rightarrow> (int \<Rightarrow> int \<times> int) \<Rightarrow> 'v srs_indication \<Rightarrow> srs_mac \<Rightarrow> srs_error + srs_mac"
where
  "handle_nr_srs_measurements L stack ind mac =
     (case srs_ues mac (srs_rnti ind) of
        None \<Rightarrow> Inr mac
      | Some ue \<Rightarrow>
          if timing_advance_offset ind = 0xFFFF then Inr mac
          else case srs_usage ind of
                 usage_beamManagement \<Rightarrow>
                   Inr (srs_beam_management (srs_rnti ind) (unpack_bf L (report_tlv ind)) ue mac)
               | usage_codebook \<Rightarrow>
                   srs_codebook L stack (srs_rnti ind) (unpack_iq L (report_tlv ind)) ue mac
               | usage_nonCodebook \<Rightarrow> Inr mac
               | usage_antennaSwitching \<Rightarrow> Inr mac
               | usage_other _ \<Rightarrow> Inl InvalidSrsUsage)"

section \<open>Facts\<close>

lemma fold_clear: "fold (\<lambda>rb bl. bl(rb := 0)) xs bl rb = (if rb \<in> set xs then 0 else bl rb)"
  by (induction xs arbitrary: bl) auto

lemma fold_mark:
  "fold (\<lambda>rb bl. if P rb then bl(rb := v) else bl) xs bl rb = (if rb \<in> set xs \<and> P rb then v else bl rb)"
  by (induction xs arbitrary: bl) auto

text \<open>Block \<open>rb\<close> of a report is much worse than the wideband SNR.\<close>

definition weak_rb :: "int \<Rightarrow> srs_bf_report \<Rightarrow> int \<Rightarrow> bool" where
  "weak_rb threshold r rb \<longleftrightarrow>
     snr_dB (rb_snr r (rb div prg_size r)) < snr_dB (wide_band_snr r) - threshold"

lemma prbbl_update_eq:
  "prbbl_update threshold r bl rb =
     (if 0 \<le> rb \<and> rb < uint16 (prg_size r * bf_num_prgs r)
      then if weak_rb threshold r rb then 0x3FFF else 0 else bl rb)"
  unfolding prbbl_update_def Let_def weak_rb_def fold_mark by (auto simp: fold_clear)

section \<open>Properties\<close>

text \<open>
  A valid beam management report of a known UE rewrites the blacklist: of the blocks the report
  covers exactly those whose SNR is more than the threshold below the wideband SNR are marked as
  taken, all others are cleared, and blocks beyond the report keep their mark.
\<close>

lemma srs_blacklist:
  assumes "srs_ues mac (srs_rnti ind) = Some ue" and "timing_advance_offset ind \<noteq> 0xFFFF"
    and "srs_usage ind = usage_beamManagement" and "r = unpack_bf L (report_tlv ind)"
    and "wide_band_snr r \<noteq> 0xFF"
  shows "\<exists>mac'. handle_nr_srs_measurements L stack ind mac = Inr mac' \<and>
    (\<forall>rb. ulprbbl mac' rb =
      (if 0 \<le> rb \<and> rb < uint16 (prg_size r * bf_num_prgs r)
       then if weak_rb (ul_prbblack_SNR_threshold mac) r rb then 0x3FFF else 0
       else ulprbbl mac rb)) \<and>
    (\<forall>n. n \<noteq> srs_rnti ind \<longrightarrow> srs_ues mac' n = srs_ues mac n) \<and>
    map_option srs_feedback (srs_ues mac' (srs_rnti ind)) = Some (srs_feedback ue)"
  using assms by (simp add: handle_nr_srs_measurements_def srs_beam_management_def prbbl_update_eq)

text \<open>
  No other indication touches the blacklist, and one that is invalid (unknown UE, invalid timing
  advance or SNR, an unsupported usage) changes nothing.  A codebook report only rewrites the
  feedback and the statistics of its own UE, with a TPMI of the table when the rank is allowed.
\<close>

lemma srs_other_reports:
  assumes "handle_nr_srs_measurements L stack ind mac = Inr mac'"
  shows "(srs_usage ind \<noteq> usage_beamManagement \<longrightarrow> ulprbbl mac' = ulprbbl mac) \<and>
    (srs_ues mac (srs_rnti ind) = None \<or> timing_advance_offset ind = 0xFFFF \<or>
     srs_usage ind = usage_nonCodebook \<or> srs_usage ind = usage_antennaSwitching \<or>
     srs_usage ind = usage_beamManagement \<and> wide_band_snr (unpack_bf L (report_tlv ind)) = 0xFF
       \<longrightarrow> mac' = mac) \<and>
    (\<forall>n. n \<noteq> srs_rnti ind \<longrightarrow> srs_ues mac' n = srs_ues mac n) \<and>
    (\<forall>ue ue' ch. srs_usage ind = usage_codebook \<and> timing_advance_offset ind \<noteq> 0xFFFF \<and>
       srs_ues mac (srs_rnti ind) = Some ue \<and> srs_ues mac' (srs_rnti ind) = Some ue' \<and>
       ch = unpack_iq L (report_tlv ind) \<and> channel_ok ch \<and>
       rank_allowed (ue_pusch_Config ue) (nr_srs_ri_computation L ch ue) \<longrightarrow>
         ul_ri (srs_feedback ue') = nr_srs_ri_computation L ch ue \<and>
         0 \<le> srs_tpmi (srs_feedback ue') \<and>
         srs_tpmi (srs_feedback ue') < tpmi_rows (ul_ri (srs_feedback ue')) (num_ue_srs_ports ch))"
proof -
  have tpmi: "0 \<le> t \<and> t < tpmi_rows ri (num_ue_srs_ports ch)"
    if "nr_srs_tpmi_estimation pc tp ch ri stack = Inr t" "channel_ok ch" "rank_allowed pc ri" for pc tp ch ri t
  proof (cases "overlong_codebook pc (num_ue_srs_ports ch)")
    case True
    then show ?thesis using estimation_outside [OF that(2,3)] that(1) by simp
  next
    case False
    from estimation_inside [OF that(2,3) this, of tp stack] that(1)
    show ?thesis by (auto simp: best_of_def tpmi_candidates_def tpmi_rows_def split: if_splits)
  qed
  show ?thesis
    using assms
    by (auto simp: handle_nr_srs_measurements_def srs_beam_management_def srs_codebook_def Let_def
        split: option.splits if_splits srs_usage_t.splits sum.splits dest!: tpmi)
qed

end
