(* ===== verification/MacPdu.thy ===== *)
theory MacPdu imports Harq PowerLimit begin

text \<open>
  Uplink MAC PDUs, \<^verbatim>\<open>gnb_patch/gNB_scheduler_ulsch.c\<close>: the subheader decoder, the look-ahead
  for a C-RNTI, the buffer status estimates and the loop over the sub-PDUs.
  A PDU is a region of byte memory \<open>mem\<close> from address \<open>p\<close>; nothing stops the code from reading
  past its end, so the theorems say when it does.  The LCID values, the bit layout of the control
  elements and the buffer size tables come from OpenAirInterface headers: they are the fields of
  \<open>mac_env\<close>.  Deliveries to RLC are recorded in the state in the order of the calls.
\<close>

section \<open>What the code takes from other files\<close>

record mac_env =
  UL_SCH_LCID_CCCH_64_BITS :: int
  UL_SCH_LCID_SRB1 :: int
  UL_SCH_LCID_SRB2 :: int
  UL_SCH_LCID_DTCH :: int
  UL_SCH_LCID_L_TRUNCATED_BSR :: int
  UL_SCH_LCID_L_BSR :: int
  UL_SCH_LCID_CCCH_48_BITS_REDCAP :: int
  UL_SCH_LCID_CCCH_48_BITS :: int
  UL_SCH_LCID_SINGLE_ENTRY_PHR :: int
  UL_SCH_LCID_C_RNTI :: int
  UL_SCH_LCID_S_TRUNCATED_BSR :: int
  UL_SCH_LCID_S_BSR :: int
  UL_SCH_LCID_PADDING :: int
  UL_SCH_LCID_RECOMMENDED_BITRATE_QUERY :: int
  UL_SCH_LCID_MULTI_ENTRY_PHR_4_OCT :: int
  UL_SCH_LCID_CONFIGURED_GRANT_CONFIRMATION :: int
  UL_SCH_LCID_MULTI_ENTRY_PHR_1_OCT :: int
  phr_PH :: "u8 \<Rightarrow> int"
  phr_PCMAX :: "u8 \<Rightarrow> int"
  bsr_Buffer_size :: "u8 \<Rightarrow> int"
  bsr_LcgID :: "u8 \<Rightarrow> nat \<Rightarrow> bool"
  get_short_bsr_value :: "int \<Rightarrow> int"
  get_long_bsr_value :: "int \<Rightarrow> int"
  NR_SHORT_BSR_TABLE_SIZE :: int
  NR_LONG_BSR_TABLE_SIZE :: int
  env_phy :: phy_lib

text \<open>
  The part of the UE that the loop reads and writes.  \<open>lc_config\<close> is \<open>None\<close> for a logical channel
  that is not configured and otherwise says whether it is suspended; \<open>ra_idle\<close> says that there is a
  random access record in state \<^verbatim>\<open>nrRA_gNB_IDLE\<close>; \<open>rrc_ready\<close> is the result of
  \<^verbatim>\<open>prepare_initial_ul_rrc_message\<close>.
\<close>

record mac_ue =
  CellGroup :: bool
  ra_idle :: bool
  rrc_ready :: bool
  is_redcap :: bool
  lc_config :: "int \<Rightarrow> bool option"
  ul_scs :: nat
  ul_pusch_Config :: "NR_PUSCH_Config_t option"
  ul_sched_pusch :: "int \<Rightarrow> NR_sched_pusch_t"
  estimated_ul_buffer :: int
  ph :: int
  ph0 :: int
  pcmax :: int
  total_sdu_bytes :: int
  lc_bytes :: "int \<Rightarrow> int"
  num_mac_sdu :: int
  rlc_data_ind :: "(int \<times> u8 list) list"

type_synonym memory = "nat \<Rightarrow> u8"

section \<open>Subheaders\<close>

text \<open>The result is the header length, the LCID and the payload length (\<open>len0\<close> is kept if none is set).\<close>

definition decode_ul_mac_sub_pdu_header :: "mac_env \<Rightarrow> memory \<Rightarrow> nat \<Rightarrow> nat \<Rightarrow> nat \<times> int \<times> nat" where
  "decode_ul_mac_sub_pdu_header E mem p len0 =
     (let lcid = uint (mem p AND 0x3F) in
      if lcid = UL_SCH_LCID_CCCH_64_BITS E then (1, lcid, 8)
      else if lcid = UL_SCH_LCID_SRB1 E \<or> lcid = UL_SCH_LCID_SRB2 E \<or>
        UL_SCH_LCID_DTCH E \<le> lcid \<and> lcid \<le> UL_SCH_LCID_DTCH E + 28 \<or>
        lcid = UL_SCH_LCID_L_TRUNCATED_BSR E \<or> lcid = UL_SCH_LCID_L_BSR E
      then if mem p AND 0x40 \<noteq> 0
           then (3, lcid, unat (mem (p + 1)) * 256 + unat (mem (p + 2)))
           else (2, lcid, unat (mem (p + 1)))
      else if lcid = UL_SCH_LCID_CCCH_48_BITS_REDCAP E \<or> lcid = UL_SCH_LCID_CCCH_48_BITS E then (1, lcid, 6)
      else if lcid = UL_SCH_LCID_SINGLE_ENTRY_PHR E \<or> lcid = UL_SCH_LCID_C_RNTI E then (1, lcid, 2)
      else if lcid = UL_SCH_LCID_S_TRUNCATED_BSR E \<or> lcid = UL_SCH_LCID_S_BSR E then (1, lcid, 1)
      else (1, lcid, len0))"

lemma header_len_pos: "decode_ul_mac_sub_pdu_header E mem p len0 = (h, l, m) \<Longrightarrow> 1 \<le> h \<and> h \<le> 3"
  by (auto simp: decode_ul_mac_sub_pdu_header_def Let_def split: if_splits)

text \<open>The C-RNTI read from a C-RNTI control element, 0 if the PDU has none or is malformed.\<close>

function lcid_crnti_lookahead :: "mac_env \<Rightarrow> memory \<Rightarrow> nat \<Rightarrow> nat \<Rightarrow> u16" where
  "lcid_crnti_lookahead E mem pdu pdu_len =
     (if \<not> 0 < pdu_len then 0
      else let (mac_subheader_len, lcid, mac_len) = decode_ul_mac_sub_pdu_header E mem pdu 0 in
           if pdu_len < mac_subheader_len + mac_len then 0
           else if lcid = UL_SCH_LCID_C_RNTI E
           then push_bit 8 (ucast (mem (pdu + 1))) OR ucast (mem (pdu + 2))
           else if lcid = UL_SCH_LCID_PADDING E then 0
           else lcid_crnti_lookahead E mem (pdu + (mac_len + mac_subheader_len))
                  (pdu_len - (mac_len + mac_subheader_len)))"
  by pat_completeness auto
termination
proof (relation "measure (\<lambda>(E, mem, p, n). n)", goal_cases)
  case (2 E mem pdu pdu_len x h y lcid len)
  then show ?case using header_len_pos [of E mem pdu 0 h lcid len] by auto
qed simp

declare lcid_crnti_lookahead.simps [simp del]

section \<open>Buffer status reports\<close>

definition overestim_bsr_index :: "int \<Rightarrow> int" where
  "overestim_bsr_index real_index = (if 0 < real_index then real_index + 1 else real_index)"

definition estimate_ul_buffer_short_bsr :: "mac_env \<Rightarrow> memory \<Rightarrow> nat \<Rightarrow> int" where
  "estimate_ul_buffer_short_bsr E mem bsr =
     (let rep_idx = bsr_Buffer_size E (mem bsr);
          estim_idx = overestim_bsr_index rep_idx;
          idx = min estim_idx (NR_SHORT_BSR_TABLE_SIZE E - 1)
      in get_short_bsr_value E idx)"

text \<open>One payload byte follows for each active group; the loop counts them in \<open>m\<close>.\<close>

fun long_bsr_loop :: "mac_env \<Rightarrow> memory \<Rightarrow> nat \<Rightarrow> nat list \<Rightarrow> nat \<Rightarrow> int \<Rightarrow> int" where
  "long_bsr_loop E mem bsr [] m estim_size = estim_size"
| "long_bsr_loop E mem bsr (n # ns) m estim_size =
     (if \<not> bsr_LcgID E (mem bsr) n then long_bsr_loop E mem bsr ns m estim_size
      else let rep_idx = uint (mem (bsr + 1 + m));
               idx = min (overestim_bsr_index rep_idx) (NR_LONG_BSR_TABLE_SIZE E - 1)
           in long_bsr_loop E mem bsr ns (m + 1) (estim_size + get_long_bsr_value E idx))"

definition estimate_ul_buffer_long_bsr :: "mac_env \<Rightarrow> memory \<Rightarrow> nat \<Rightarrow> int" where
  "estimate_ul_buffer_long_bsr E mem bsr = long_bsr_loop E mem bsr [0..<8] 0 0"

section \<open>The sub-PDU loop\<close>

datatype mac_error = AssertCellGroup | AssertCRnti

text \<open>What a sub-PDU does: go on with the next one, return a code, or stop at an assertion.\<close>

datatype subpdu_result = Continue mac_ue int | Return mac_ue int | Abort mac_error

definition deliver :: "int \<Rightarrow> memory \<Rightarrow> nat \<Rightarrow> nat \<Rightarrow> mac_ue \<Rightarrow> mac_ue" where
  "deliver lcid mem p len ue = ue\<lparr>rlc_data_ind := rlc_data_ind ue @ [(lcid, map mem [p..<p + len])]\<rparr>"

definition process_ccch :: "mac_env \<Rightarrow> memory \<Rightarrow> nat \<Rightarrow> nat \<Rightarrow> nat \<Rightarrow> int \<Rightarrow> int \<Rightarrow> mac_ue \<Rightarrow> subpdu_result" where
  "process_ccch E mem p hdr len lcid sdus ue =
     (if lcid = UL_SCH_LCID_CCCH_64_BITS E \<and> (\<forall>b \<in> set (map mem [p..<p + (hdr + len)]). b = 0)
      then Return ue 0
      else let ue = (if lcid = UL_SCH_LCID_CCCH_48_BITS_REDCAP E then ue\<lparr>is_redcap := True\<rparr> else ue)
           in Continue (if rrc_ready ue then deliver 0 mem (p + hdr) len ue else ue) sdus)"

definition process_srb :: "memory \<Rightarrow> nat \<Rightarrow> nat \<Rightarrow> nat \<Rightarrow> int \<Rightarrow> int \<Rightarrow> mac_ue \<Rightarrow> subpdu_result" where
  "process_srb mem p hdr len lcid sdus ue =
     (if \<not> CellGroup ue then Abort AssertCellGroup
      else if lc_config ue lcid = None \<or> lc_config ue lcid = Some True then Continue ue sdus
      else let ue = deliver lcid mem (p + hdr) len ue
           in Continue (ue\<lparr>total_sdu_bytes := total_sdu_bytes ue + int len,
                lc_bytes := (lc_bytes ue)(lcid := lc_bytes ue lcid + int len)\<rparr>) sdus)"

definition process_drb :: "memory \<Rightarrow> nat \<Rightarrow> nat \<Rightarrow> nat \<Rightarrow> int \<Rightarrow> int \<Rightarrow> mac_ue \<Rightarrow> subpdu_result" where
  "process_drb mem p hdr len lcid sdus ue =
     (if lc_config ue lcid = None \<or> lc_config ue lcid = Some True then Continue ue sdus
      else let ue = deliver lcid mem (p + hdr) len
                 (ue\<lparr>lc_bytes := (lc_bytes ue)(lcid := lc_bytes ue lcid + int len)\<rparr>)
           in Continue (ue\<lparr>estimated_ul_buffer :=
                (if int len \<le> estimated_ul_buffer ue then estimated_ul_buffer ue - int len else 0)\<rparr>)
                (sdus + 1))"

definition process_phr :: "mac_env \<Rightarrow> memory \<Rightarrow> nat \<Rightarrow> nat \<Rightarrow> int \<Rightarrow> int \<Rightarrow> mac_ue \<Rightarrow> subpdu_result" where
  "process_phr E mem p hdr harq_pid sdus ue =
     (if harq_pid < 0 then Return ue 0
      else
        let s = ul_sched_pusch ue harq_pid;
            raw = phr_PH E (mem (p + hdr));
            PCMAX = phr_PCMAX E (mem (p + hdr + 1));
            PH = (if raw < 55 then raw - 32 else if raw < 63 then 24 + (raw - 55) * 2 else 38);
            has_delta = (case ul_pusch_Config ue of None \<Rightarrow> False | Some c \<Rightarrow> has_deltaMCS c)
        in Continue (ue\<lparr>
             ph := PH + compute_ph_factor (env_phy E) (ul_scs ue) (sp_tb_size s * 8) (sp_rbSize s)
                          (sp_nrOfLayers s) (nrOfSymbols (tda_info s))
                          (num_dmrs_symb (dmrs_info s) * N_PRB_DMRS (dmrs_info s)) has_delta True,
             ph0 := PH, pcmax := PCMAX - 29\<rparr>) sdus)"

definition process_subpdu ::
    "mac_env \<Rightarrow> memory \<Rightarrow> nat \<Rightarrow> nat \<Rightarrow> int \<Rightarrow> nat \<Rightarrow> int \<Rightarrow> int \<Rightarrow> mac_ue \<Rightarrow> subpdu_result" where
  "process_subpdu E mem p hdr lcid len harq_pid sdus ue =
     (if lcid = UL_SCH_LCID_CCCH_64_BITS E \<or> lcid = UL_SCH_LCID_CCCH_48_BITS_REDCAP E \<or>
        lcid = UL_SCH_LCID_CCCH_48_BITS E
      then process_ccch E mem p hdr len lcid sdus ue
      else if lcid = UL_SCH_LCID_SRB1 E \<or> lcid = UL_SCH_LCID_SRB2 E
      then process_srb mem p hdr len lcid sdus ue
      else if UL_SCH_LCID_DTCH E \<le> lcid \<and> lcid \<le> UL_SCH_LCID_DTCH E + 28
      then process_drb mem p hdr len lcid sdus ue
      else if lcid = UL_SCH_LCID_RECOMMENDED_BITRATE_QUERY E \<or>
        lcid = UL_SCH_LCID_MULTI_ENTRY_PHR_4_OCT E \<or>
        lcid = UL_SCH_LCID_CONFIGURED_GRANT_CONFIRMATION E \<or>
        lcid = UL_SCH_LCID_MULTI_ENTRY_PHR_1_OCT E
      then Continue ue sdus
      else if lcid = UL_SCH_LCID_SINGLE_ENTRY_PHR E then process_phr E mem p hdr harq_pid sdus ue
      else if lcid = UL_SCH_LCID_C_RNTI E
      then (if ra_idle ue then Abort AssertCRnti else Continue ue sdus)
      else if lcid = UL_SCH_LCID_S_TRUNCATED_BSR E \<or> lcid = UL_SCH_LCID_S_BSR E
      then Continue (ue\<lparr>estimated_ul_buffer := estimate_ul_buffer_short_bsr E mem (p + hdr)\<rparr>) sdus
      else if lcid = UL_SCH_LCID_L_TRUNCATED_BSR E \<or> lcid = UL_SCH_LCID_L_BSR E
      then Continue (ue\<lparr>estimated_ul_buffer := estimate_ul_buffer_long_bsr E mem (p + hdr)\<rparr>) sdus
      else if lcid = UL_SCH_LCID_PADDING E then Return ue 0
      else Return ue (-1))"

function nr_process_mac_pdu ::
    "mac_env \<Rightarrow> memory \<Rightarrow> nat \<Rightarrow> nat \<Rightarrow> int \<Rightarrow> int \<Rightarrow> mac_ue \<Rightarrow> mac_error + (mac_ue \<times> int)" where
  "nr_process_mac_pdu E mem pduP pdu_len harq_pid sdus ue =
     (if \<not> 0 < pdu_len then Inr (ue\<lparr>num_mac_sdu := num_mac_sdu ue + sdus\<rparr>, 0)
      else let (hdr, lcid, len) = decode_ul_mac_sub_pdu_header E mem pduP 0 in
           if pdu_len < hdr + len then Inr (ue, 0)
           else case process_subpdu E mem pduP hdr lcid len harq_pid sdus ue of
                  Abort e \<Rightarrow> Inl e
                | Return ue rc \<Rightarrow> Inr (ue, rc)
                | Continue ue sdus \<Rightarrow>
                    nr_process_mac_pdu E mem (pduP + (hdr + len)) (pdu_len - (hdr + len)) harq_pid sdus ue)"
  by pat_completeness auto
termination
proof (relation "measure (\<lambda>(E, mem, p, n, h, s, ue). n)", goal_cases)
  case (2 E mem pduP pdu_len harq_pid sdus ue x hdr y lcid len ue' sdus')
  then show ?case using header_len_pos [of E mem pduP 0 hdr lcid len] by auto
qed simp

declare nr_process_mac_pdu.simps [simp del]

section \<open>What the decoder may read\<close>

text \<open>
  The labels of the \<^verbatim>\<open>switch\<close> statements are distinct six-bit values, as the compiler requires.
\<close>

definition lcid_labels :: "mac_env \<Rightarrow> int list" where
  "lcid_labels E =
     [UL_SCH_LCID_CCCH_64_BITS E, UL_SCH_LCID_SRB1 E, UL_SCH_LCID_SRB2 E,
      UL_SCH_LCID_L_TRUNCATED_BSR E, UL_SCH_LCID_L_BSR E, UL_SCH_LCID_CCCH_48_BITS_REDCAP E,
      UL_SCH_LCID_CCCH_48_BITS E, UL_SCH_LCID_SINGLE_ENTRY_PHR E, UL_SCH_LCID_C_RNTI E,
      UL_SCH_LCID_S_TRUNCATED_BSR E, UL_SCH_LCID_S_BSR E, UL_SCH_LCID_PADDING E,
      UL_SCH_LCID_RECOMMENDED_BITRATE_QUERY E, UL_SCH_LCID_MULTI_ENTRY_PHR_4_OCT E,
      UL_SCH_LCID_CONFIGURED_GRANT_CONFIRMATION E, UL_SCH_LCID_MULTI_ENTRY_PHR_1_OCT E]"

definition lcids_ok :: "mac_env \<Rightarrow> bool" where
  "lcids_ok E \<longleftrightarrow> distinct (lcid_labels E) \<and> list_all (\<lambda>l. 0 \<le> l \<and> l < 64) (lcid_labels E) \<and>
     0 \<le> UL_SCH_LCID_DTCH E \<and> UL_SCH_LCID_DTCH E + 28 < 64 \<and>
     list_all (\<lambda>l. l < UL_SCH_LCID_DTCH E \<or> UL_SCH_LCID_DTCH E + 28 < l) (lcid_labels E)"

definition agree :: "memory \<Rightarrow> memory \<Rightarrow> nat \<Rightarrow> nat \<Rightarrow> bool" where
  "agree mem mem' p n \<longleftrightarrow> (\<forall>i. p \<le> i \<and> i < p + n \<longrightarrow> mem i = mem' i)"

lemma agree_sub: "agree mem mem' p n \<Longrightarrow> p \<le> q \<Longrightarrow> q + m \<le> p + n \<Longrightarrow> agree mem mem' q m"
  by (auto simp: agree_def)

lemma agreeD: "agree mem mem' p n \<Longrightarrow> p \<le> i \<Longrightarrow> i < p + n \<Longrightarrow> mem i = mem' i"
  by (simp add: agree_def)

text \<open>
  The length bytes may lie outside the PDU; then either reading makes the sub-PDU too long.
\<close>

lemma header_agree:
  assumes ag: "agree mem mem' p n" and n: "0 < n"
    and d: "decode_ul_mac_sub_pdu_header E mem p len0 = (h, l, m)"
    and d': "decode_ul_mac_sub_pdu_header E mem' p len0 = (h', l', m')"
  shows "(h, l, m) = (h', l', m') \<or> n < h + m \<and> n < h' + m'"
proof -
  have b0: "mem' p = mem p" using agreeD [OF ag, of p] n by simp
  then have hl: "h' = h" using d d' by (auto simp: decode_ul_mac_sub_pdu_header_def Let_def split: if_splits)
  show ?thesis
  proof (cases "h \<le> n")
    case True
    then have "h \<ge> 2 \<longrightarrow> mem' (p + 1) = mem (p + 1)" and "h \<ge> 3 \<longrightarrow> mem' (p + 2) = mem (p + 2)"
      using agreeD [OF ag] by auto
    then show ?thesis using d d' b0
      by (auto simp: decode_ul_mac_sub_pdu_header_def Let_def split: if_splits)
  next
    case False
    then show ?thesis using hl by simp
  qed
qed

lemma crnti_header:
  assumes "lcids_ok E" and "decode_ul_mac_sub_pdu_header E mem p len0 = (h, UL_SCH_LCID_C_RNTI E, m)"
  shows "h = 1 \<and> m = 2"
  using assms unfolding lcids_ok_def lcid_labels_def
  by (simp add: decode_ul_mac_sub_pdu_header_def Let_def split: if_splits)

lemma lookahead_agree:
  "lcids_ok E \<Longrightarrow> agree mem mem' p n \<Longrightarrow> lcid_crnti_lookahead E mem p n = lcid_crnti_lookahead E mem' p n"
proof (induction E mem p n rule: lcid_crnti_lookahead.induct)
  case (1 E mem p n)
  show ?case
  proof (cases "0 < n")
    case True
    obtain h l m where d: "decode_ul_mac_sub_pdu_header E mem p 0 = (h, l, m)" by (metis prod_cases3)
    obtain h' l' m' where d': "decode_ul_mac_sub_pdu_header E mem' p 0 = (h', l', m')" by (metis prod_cases3)
    note ag = "1.prems"(2)
    show ?thesis
    proof (cases "n < h + m \<and> n < h' + m'")
      case True
      then show ?thesis using \<open>0 < n\<close>
        by (simp add: lcid_crnti_lookahead.simps [of E mem p n] lcid_crnti_lookahead.simps [of E mem' p n] d d')
    next
      case False
      then have same: "h' = h" "l' = l" "m' = m" using header_agree [OF ag True d d'] by auto
      have fit: "\<not> n < h + m" using False same by simp
      consider (crnti) "l = UL_SCH_LCID_C_RNTI E" | (pad) "l \<noteq> UL_SCH_LCID_C_RNTI E" "l = UL_SCH_LCID_PADDING E"
        | (next_pdu) "l \<noteq> UL_SCH_LCID_C_RNTI E" "l \<noteq> UL_SCH_LCID_PADDING E" by blast
      then show ?thesis
      proof cases
        case crnti
        then have "h = 1" "m = 2" using crnti_header [OF "1.prems"(1)] d by auto
        then have "mem' (p + 1) = mem (p + 1)" "mem' (p + 2) = mem (p + 2)"
          using agreeD [OF ag] fit by auto
        then show ?thesis using crnti fit same \<open>0 < n\<close>
          by (simp add: lcid_crnti_lookahead.simps [of E mem p n] lcid_crnti_lookahead.simps [of E mem' p n] d d')
      next
        case pad
        then show ?thesis using fit same \<open>0 < n\<close>
          by (simp add: lcid_crnti_lookahead.simps [of E mem p n] lcid_crnti_lookahead.simps [of E mem' p n] d d')
      next
        case next_pdu
        have "agree mem mem' (p + (m + h)) (n - (m + h))"
          using fit by (intro agree_sub [OF ag]) auto
        then have "lcid_crnti_lookahead E mem (p + (m + h)) (n - (m + h)) =
            lcid_crnti_lookahead E mem' (p + (m + h)) (n - (m + h))"
          using "1.IH" [OF _ d [symmetric] refl refl] "1.prems"(1) next_pdu fit \<open>0 < n\<close> by simp
        then show ?thesis using next_pdu fit same \<open>0 < n\<close>
          by (simp add: lcid_crnti_lookahead.simps [of E mem p n] lcid_crnti_lookahead.simps [of E mem' p n] d d')
      qed
    qed
  next
    case False
    then show ?thesis by (simp add: lcid_crnti_lookahead.simps)
  qed
qed

lemma padding_label:
  assumes "lcids_ok E"
  defines "l \<equiv> UL_SCH_LCID_PADDING E"
  shows "l \<noteq> UL_SCH_LCID_CCCH_64_BITS E \<and> l \<noteq> UL_SCH_LCID_SRB1 E \<and> l \<noteq> UL_SCH_LCID_SRB2 E \<and>
    l \<noteq> UL_SCH_LCID_L_TRUNCATED_BSR E \<and> l \<noteq> UL_SCH_LCID_L_BSR E \<and>
    l \<noteq> UL_SCH_LCID_CCCH_48_BITS_REDCAP E \<and> l \<noteq> UL_SCH_LCID_CCCH_48_BITS E \<and>
    l \<noteq> UL_SCH_LCID_SINGLE_ENTRY_PHR E \<and> l \<noteq> UL_SCH_LCID_C_RNTI E \<and>
    l \<noteq> UL_SCH_LCID_S_TRUNCATED_BSR E \<and> l \<noteq> UL_SCH_LCID_S_BSR E \<and>
    l \<noteq> UL_SCH_LCID_RECOMMENDED_BITRATE_QUERY E \<and> l \<noteq> UL_SCH_LCID_MULTI_ENTRY_PHR_4_OCT E \<and>
    l \<noteq> UL_SCH_LCID_CONFIGURED_GRANT_CONFIRMATION E \<and> l \<noteq> UL_SCH_LCID_MULTI_ENTRY_PHR_1_OCT E \<and>
    \<not> (UL_SCH_LCID_DTCH E \<le> l \<and> l \<le> UL_SCH_LCID_DTCH E + 28)"
proof -
  let ?before = "[UL_SCH_LCID_CCCH_64_BITS E, UL_SCH_LCID_SRB1 E, UL_SCH_LCID_SRB2 E,
      UL_SCH_LCID_L_TRUNCATED_BSR E, UL_SCH_LCID_L_BSR E, UL_SCH_LCID_CCCH_48_BITS_REDCAP E,
      UL_SCH_LCID_CCCH_48_BITS E, UL_SCH_LCID_SINGLE_ENTRY_PHR E, UL_SCH_LCID_C_RNTI E,
      UL_SCH_LCID_S_TRUNCATED_BSR E, UL_SCH_LCID_S_BSR E]"
  let ?after = "[UL_SCH_LCID_RECOMMENDED_BITRATE_QUERY E, UL_SCH_LCID_MULTI_ENTRY_PHR_4_OCT E, UL_SCH_LCID_CONFIGURED_GRANT_CONFIRMATION E,
      UL_SCH_LCID_MULTI_ENTRY_PHR_1_OCT E]"
  have "lcid_labels E = ?before @ l # ?after" by (simp add: lcid_labels_def l_def)
  then have "distinct (?before @ l # ?after)" and dtch: "l < UL_SCH_LCID_DTCH E \<or> UL_SCH_LCID_DTCH E + 28 < l"
    using assms(1) by (simp_all only: lcids_ok_def list_all_append list.pred_inject(2))
  then have "l \<notin> set ?before" and "l \<notin> set ?after" by (simp_all only: distinct_append distinct.simps) auto
  moreover have "\<not> (UL_SCH_LCID_DTCH E \<le> l \<and> l \<le> UL_SCH_LCID_DTCH E + 28)" using dtch by linarith
  ultimately show ?thesis by simp
qed

section \<open>A PDU of data sub-PDUs\<close>

text \<open>The encoding of one SDU: a one-byte length if it suffices, otherwise two bytes with the F bit.\<close>

definition enc_sdu :: "int \<times> u8 list \<Rightarrow> u8 list" where
  "enc_sdu s = (case s of (lcid, bs) \<Rightarrow>
     if length bs < 256 then word_of_int lcid # of_nat (length bs) # bs
     else (word_of_int lcid OR 0x40) # of_nat (length bs div 256) # of_nat (length bs mod 256) # bs)"

definition holds :: "memory \<Rightarrow> nat \<Rightarrow> u8 list \<Rightarrow> bool" where
  "holds mem p bs \<longleftrightarrow> map mem [p..<p + length bs] = bs"

lemma holds_Nil [simp]: "holds mem p []"
  by (simp add: holds_def)

lemma holds_Cons [simp]: "holds mem p (b # bs) \<longleftrightarrow> mem p = b \<and> holds mem (p + 1) bs"
proof -
  have "[p..<p + length (b # bs)] = p # [p + 1..<p + 1 + length bs]"
    using upt_conv_Cons [of p "p + length (b # bs)"] by simp
  then show ?thesis by (auto simp: holds_def)
qed

lemma holds_append [simp]: "holds mem p (xs @ ys) \<longleftrightarrow> holds mem p xs \<and> holds mem (p + length xs) ys"
  by (induction xs arbitrary: p) auto

lemma lcid_bits:
  assumes "0 \<le> l" and "l < 64"
  shows "uint ((word_of_int l :: u8) AND 0x3F) = l" "(word_of_int l :: u8) AND 0x40 = 0"
    "uint ((word_of_int l OR 0x40 :: u8) AND 0x3F) = l" "(word_of_int l OR 0x40 :: u8) AND 0x40 \<noteq> 0"
proof -
  have all: "list_all (\<lambda>l. uint ((word_of_int l :: u8) AND 0x3F) = l \<and> (word_of_int l :: u8) AND 0x40 = 0 \<and>
      uint ((word_of_int l OR 0x40 :: u8) AND 0x3F) = l \<and> (word_of_int l OR 0x40 :: u8) AND 0x40 \<noteq> 0) [0..63]"
    by code_simp
  have "l \<in> set [0..63]" using assms by simp
  with all show "uint ((word_of_int l :: u8) AND 0x3F) = l" "(word_of_int l :: u8) AND 0x40 = 0"
    "uint ((word_of_int l OR 0x40 :: u8) AND 0x3F) = l" "(word_of_int l OR 0x40 :: u8) AND 0x40 \<noteq> 0"
    unfolding list_all_iff by blast+
qed

lemma u8_unat: "k < 256 \<Longrightarrow> unat (of_nat k :: u8) = k"
  by (simp add: unat_of_nat)

definition drb_ok :: "mac_env \<Rightarrow> int \<Rightarrow> bool" where
  "drb_ok E l \<longleftrightarrow> UL_SCH_LCID_DTCH E \<le> l \<and> l \<le> UL_SCH_LCID_DTCH E + 28"

lemma drb_label:
  assumes "lcids_ok E" and "drb_ok E l"
  shows "l \<notin> set (lcid_labels E)" and "0 \<le> l" and "l < 64"
  using assms by (auto simp: lcids_ok_def drb_ok_def list_all_iff)

lemma header_enc:
  assumes E: "lcids_ok E" and l: "drb_ok E l" and len: "length bs < 65536"
    and mem: "holds mem p (enc_sdu (l, bs))"
  shows "\<exists>h. decode_ul_mac_sub_pdu_header E mem p 0 = (h, l, length bs) \<and>
    h + length bs = length (enc_sdu (l, bs)) \<and> holds mem (p + h) bs"
proof -
  note lab = drb_label [OF E l] and bits = lcid_bits [OF drb_label(2,3) [OF E l]]
  have ne: "l \<noteq> UL_SCH_LCID_CCCH_64_BITS E" using lab(1) by (auto simp: lcid_labels_def)
  show ?thesis
  proof (cases "length bs < 256")
    case True
    then have m: "mem p = word_of_int l" "mem (p + 1) = of_nat (length bs)" "holds mem (p + 2) bs"
      using mem by (simp_all add: enc_sdu_def numeral_2_eq_2)
    then have "decode_ul_mac_sub_pdu_header E mem p 0 = (2, l, length bs)"
      using l ne True bits by (simp add: decode_ul_mac_sub_pdu_header_def Let_def drb_ok_def u8_unat)
    then show ?thesis using m True by (simp add: enc_sdu_def)
  next
    case False
    then have m: "mem p = word_of_int l OR 0x40" "mem (p + 1) = of_nat (length bs div 256)"
      "mem (p + 2) = of_nat (length bs mod 256)" "holds mem (p + 3) bs"
      using mem by (simp_all add: enc_sdu_def numeral_2_eq_2 numeral_3_eq_3)
    have d: "length bs div 256 < 256" using len by (simp add: less_mult_imp_div_less)
    have "decode_ul_mac_sub_pdu_header E mem p 0 =
        (3, l, unat (of_nat (length bs div 256) :: u8) * 256 + unat (of_nat (length bs mod 256) :: u8))"
      using l ne bits m by (simp add: decode_ul_mac_sub_pdu_header_def Let_def drb_ok_def)
    also have "unat (of_nat (length bs div 256) :: u8) * 256 + unat (of_nat (length bs mod 256) :: u8) = length bs"
      using d by (simp only: u8_unat) simp
    finally show ?thesis using m False by (simp add: enc_sdu_def)
  qed
qed

text \<open>What one delivered SDU does to the UE.\<close>

definition got_sdu :: "int \<times> u8 list \<Rightarrow> mac_ue \<Rightarrow> mac_ue" where
  "got_sdu s ue = (case s of (l, bs) \<Rightarrow>
     ue\<lparr>rlc_data_ind := rlc_data_ind ue @ [(l, bs)],
        lc_bytes := (lc_bytes ue)(l := lc_bytes ue l + int (length bs)),
        estimated_ul_buffer := (if int (length bs) \<le> estimated_ul_buffer ue
          then estimated_ul_buffer ue - int (length bs) else 0)\<rparr>)"

lemma process_enc:
  assumes E: "lcids_ok E" and l: "drb_ok E l" and conf: "lc_config ue l = Some False"
    and bs: "holds mem (p + h) bs"
  shows "process_subpdu E mem p h l (length bs) pid k ue = Continue (got_sdu (l, bs) ue) (k + 1)"
proof -
  have "l \<notin> set (lcid_labels E)" by (rule drb_label(1) [OF E l])
  then show ?thesis using l conf bs
    by (simp add: lcid_labels_def process_subpdu_def process_drb_def drb_ok_def deliver_def got_sdu_def
        holds_def Let_def)
qed

lemma process_sdus:
  assumes E: "lcids_ok E" and ok: "list_all (\<lambda>(l, bs). drb_ok E l \<and> lc_config ue l = Some False \<and>
      length bs < 65536) sdus"
    and mem: "holds mem p (concat (map enc_sdu sdus))"
    and n: "length (concat (map enc_sdu sdus)) \<le> n"
  shows "nr_process_mac_pdu E mem p n pid k ue =
    nr_process_mac_pdu E mem (p + length (concat (map enc_sdu sdus)))
      (n - length (concat (map enc_sdu sdus))) pid (k + int (length sdus)) (fold got_sdu sdus ue)"
  using ok mem n
proof (induction sdus arbitrary: p n k ue)
  case (Cons s sdus)
  obtain l bs where s: "s = (l, bs)" by (cases s)
  have l: "drb_ok E l" "lc_config ue l = Some False" "length bs < 65536" using Cons.prems(1) by (simp_all add: s)
  have m: "holds mem p (enc_sdu (l, bs))" "holds mem (p + length (enc_sdu (l, bs))) (concat (map enc_sdu sdus))"
    using Cons.prems(2) by (simp_all add: s)
  obtain h where h: "decode_ul_mac_sub_pdu_header E mem p 0 = (h, l, length bs)"
      "h + length bs = length (enc_sdu (l, bs))" "holds mem (p + h) bs"
    using header_enc [OF E l(1,3) m(1)] by blast
  have "0 < length (enc_sdu (l, bs))" by (simp add: enc_sdu_def)
  then have pos: "0 < n"
    using Cons.prems(3) unfolding s list.map concat.simps length_append by linarith
  let ?p = "p + length (enc_sdu (l, bs))" and ?n = "n - length (enc_sdu (l, bs))"
  have "nr_process_mac_pdu E mem p n pid k ue = nr_process_mac_pdu E mem ?p ?n pid (k + 1) (got_sdu (l, bs) ue)"
    using h(1,2) pos Cons.prems(3) process_enc [OF E l(1,2) h(3)]
    by (subst nr_process_mac_pdu.simps) (simp add: s)
  also have "\<dots> = nr_process_mac_pdu E mem (?p + length (concat (map enc_sdu sdus)))
      (?n - length (concat (map enc_sdu sdus))) pid (k + 1 + int (length sdus)) (fold got_sdu sdus (got_sdu (l, bs) ue))"
    using Cons.prems(1,3) m(2) by (intro Cons.IH) (simp_all add: s got_sdu_def)
  finally show ?case by (simp add: s algebra_simps)
qed simp

lemma got_sdus:
  "rlc_data_ind (fold got_sdu sdus ue) = rlc_data_ind ue @ sdus"
  "0 \<le> estimated_ul_buffer ue \<Longrightarrow> estimated_ul_buffer (fold got_sdu sdus ue) =
     max 0 (estimated_ul_buffer ue - int (sum_list (map (length \<circ> snd) sdus)))"
  "num_mac_sdu (fold got_sdu sdus ue) = num_mac_sdu ue"
  by (induction sdus arbitrary: ue) (auto simp: got_sdu_def split: prod.splits)

section \<open>How far the loop reads\<close>

lemma agree_map: "agree mem mem' p n \<Longrightarrow> p \<le> q \<Longrightarrow> q + m \<le> p + n \<Longrightarrow> map mem' [q..<q + m] = map mem [q..<q + m]"
  by (auto simp: agreeD [symmetric])

lemma long_bsr_agree:
  "agree mem mem' bsr (2 + m + length ns) \<Longrightarrow> long_bsr_loop E mem bsr ns m s = long_bsr_loop E mem' bsr ns m s"
proof (induction ns arbitrary: m s)
  case (Cons n ns)
  have "mem' bsr = mem bsr" and "mem' (bsr + 1 + m) = mem (bsr + 1 + m)"
    using agreeD [OF Cons.prems] by auto
  moreover have "agree mem mem' bsr (2 + m + length ns)" "agree mem mem' bsr (2 + (m + 1) + length ns)"
    by (rule agree_sub [OF Cons.prems], simp_all)+
  ultimately show ?case using Cons.IH by (simp add: Let_def)
qed simp

lemma subpdu_agree:
  assumes ag: "agree mem mem' p (h + len + 10)"
  shows "process_subpdu E mem p h l len pid k ue = process_subpdu E mem' p h l len pid k ue"
proof -
  have m1: "map mem' [p + h..<p + h + len] = map mem [p + h..<p + h + len]"
    by (rule agree_map [OF ag]) simp_all
  have m2: "map mem' [p..<p + (h + len)] = map mem [p..<p + (h + len)]"
    by (rule agree_map [OF ag]) simp_all
  note m = m1 m2
  have b: "mem' (p + h) = mem (p + h)" "mem' (p + h + 1) = mem (p + h + 1)"
    using agreeD [OF ag] by auto
  have "agree mem mem' (p + h) (2 + 0 + length [0..<8])"
    by (rule agree_sub [OF ag]) simp_all
  then have bsr: "estimate_ul_buffer_long_bsr E mem (p + h) = estimate_ul_buffer_long_bsr E mem' (p + h)"
    unfolding estimate_ul_buffer_long_bsr_def by (rule long_bsr_agree)
  have sb: "estimate_ul_buffer_short_bsr E mem (p + h) = estimate_ul_buffer_short_bsr E mem' (p + h)"
    by (simp add: estimate_ul_buffer_short_bsr_def b)
  have "process_ccch E mem p h len l k ue = process_ccch E mem' p h len l k ue"
    "process_srb mem p h len l k ue = process_srb mem' p h len l k ue"
    "process_drb mem p h len l k ue = process_drb mem' p h len l k ue"
    "process_phr E mem p h pid k ue = process_phr E mem' p h pid k ue"
    unfolding process_ccch_def process_srb_def process_drb_def process_phr_def deliver_def m b by (rule refl)+
  then show ?thesis unfolding process_subpdu_def bsr sb by (simp only:)
qed

lemma process_agree:
  "agree mem mem' p (n + 10) \<Longrightarrow>
   nr_process_mac_pdu E mem p n pid k ue = nr_process_mac_pdu E mem' p n pid k ue"
proof (induction E mem p n pid k ue rule: nr_process_mac_pdu.induct)
  case (1 E mem p n pid k ue)
  show ?case
  proof (cases "0 < n")
    case True
    obtain h l m where d: "decode_ul_mac_sub_pdu_header E mem p 0 = (h, l, m)" by (metis prod_cases3)
    obtain h' l' m' where d': "decode_ul_mac_sub_pdu_header E mem' p 0 = (h', l', m')" by (metis prod_cases3)
    have ag: "agree mem mem' p n" by (rule agree_sub [OF "1.prems"]) simp_all
    show ?thesis
    proof (cases "n < h + m \<and> n < h' + m'")
      case True
      then show ?thesis using \<open>0 < n\<close>
        by (simp add: nr_process_mac_pdu.simps [of E mem p n] nr_process_mac_pdu.simps [of E mem' p n] d d')
    next
      case False
      then have same: "h' = h" "l' = l" "m' = m" using header_agree [OF ag True d d'] by auto
      have fit: "\<not> n < h + m" using False same by simp
      have sub: "process_subpdu E mem' p h l m pid k ue = process_subpdu E mem p h l m pid k ue"
        using fit by (intro subpdu_agree [symmetric] agree_sub [OF "1.prems"]) simp_all
      show ?thesis
      proof (cases "process_subpdu E mem p h l m pid k ue")
        case (Continue ue' k')
        have "agree mem mem' (p + (h + m)) (n - (h + m) + 10)"
          using fit by (intro agree_sub [OF "1.prems"]) auto
        then have "nr_process_mac_pdu E mem (p + (h + m)) (n - (h + m)) pid k' ue' =
            nr_process_mac_pdu E mem' (p + (h + m)) (n - (h + m)) pid k' ue'"
          using "1.IH" [OF _ d [symmetric] refl refl _ Continue] fit \<open>0 < n\<close> by simp
        then show ?thesis using fit same \<open>0 < n\<close> Continue sub
          by (simp add: nr_process_mac_pdu.simps [of E mem p n] nr_process_mac_pdu.simps [of E mem' p n] d d')
      qed (use fit same \<open>0 < n\<close> sub in \<open>simp_all add: nr_process_mac_pdu.simps [of E mem p n]
          nr_process_mac_pdu.simps [of E mem' p n] d d'\<close>)
    qed
  next
    case False
    then show ?thesis by (simp add: nr_process_mac_pdu.simps)
  qed
qed

section \<open>Padding\<close>

lemma padding_header:
  assumes E: "lcids_ok E" and b: "mem q = word_of_int (UL_SCH_LCID_PADDING E)"
  shows "decode_ul_mac_sub_pdu_header E mem q 0 = (1, UL_SCH_LCID_PADDING E, 0)"
proof -
  have "0 \<le> UL_SCH_LCID_PADDING E" "UL_SCH_LCID_PADDING E < 64"
    using E by (simp_all add: lcids_ok_def lcid_labels_def)
  from lcid_bits(1) [OF this] show ?thesis using b
    by (simp add: decode_ul_mac_sub_pdu_header_def Let_def padding_label [OF E])
qed

lemma process_padding:
  assumes "lcids_ok E" and "mem q = word_of_int (UL_SCH_LCID_PADDING E)" and "0 < n"
  shows "nr_process_mac_pdu E mem q n pid k u = Inr (u, 0)"
proof -
  have "process_subpdu E mem q 1 (UL_SCH_LCID_PADDING E) 0 pid k u = Return u 0"
    by (simp add: process_subpdu_def padding_label [OF assms(1)])
  then show ?thesis using padding_header [of E mem q, OF assms(1,2)] assms(3)
    by (subst nr_process_mac_pdu.simps) simp
qed

section \<open>PDUs of a UE with a cell group\<close>

text \<open>
  The two assertions of the MAC PDU loop: an SRB of a UE without cell group, and a C-RNTI while the
  random access is idle.
\<close>

definition mac_ok :: "mac_ue \<Rightarrow> bool" where
  "mac_ok ue \<longleftrightarrow> CellGroup ue \<and> \<not> ra_idle ue"

fun subpdu_keeps :: "subpdu_result \<Rightarrow> bool" where
  "subpdu_keeps (Continue ue k) = mac_ok ue"
| "subpdu_keeps (Return ue rc) = mac_ok ue"
| "subpdu_keeps (Abort e) = False"

lemma deliver_mac_ok [simp]: "mac_ok (deliver l mem p len ue) = mac_ok ue"
  by (simp add: mac_ok_def deliver_def)

lemma ccch_keeps: "mac_ok ue \<Longrightarrow> subpdu_keeps (process_ccch E mem p h len l k ue)"
  by (simp add: process_ccch_def Let_def) (simp add: mac_ok_def)

lemma srb_keeps: "mac_ok ue \<Longrightarrow> subpdu_keeps (process_srb mem p h len l k ue)"
  using deliver_mac_ok [of l mem "p + h" len ue] by (simp add: process_srb_def Let_def mac_ok_def)

lemma drb_keeps: "mac_ok ue \<Longrightarrow> subpdu_keeps (process_drb mem p h len l k ue)"
  by (simp add: process_drb_def Let_def) (simp add: mac_ok_def deliver_def)

lemma phr_keeps: "mac_ok ue \<Longrightarrow> subpdu_keeps (process_phr E mem p h pid k ue)"
  by (simp add: process_phr_def Let_def mac_ok_def)

lemma subpdu_no_abort:
  assumes "mac_ok ue"
  shows "subpdu_keeps (process_subpdu E mem p h l len pid k ue)"
  using assms by (simp add: process_subpdu_def ccch_keeps srb_keeps drb_keeps phr_keeps)
    (simp add: mac_ok_def)

lemma mac_pdu_no_abort:
  "mac_ok ue \<Longrightarrow> \<exists>ue' rc. nr_process_mac_pdu E mem p n pid k ue = Inr (ue', rc) \<and> mac_ok ue'"
proof (induction E mem p n pid k ue rule: nr_process_mac_pdu.induct)
  case (1 E mem p n pid k ue)
  obtain h l m where d: "decode_ul_mac_sub_pdu_header E mem p 0 = (h, l, m)" by (metis prod_cases3)
  show ?case
  proof (cases "0 < n \<and> \<not> n < h + m")
    case True
    have keeps: "subpdu_keeps (process_subpdu E mem p h l m pid k ue)" by (rule subpdu_no_abort [OF "1.prems"])
    show ?thesis
    proof (cases "process_subpdu E mem p h l m pid k ue")
      case (Continue ue' k')
      then show ?thesis using True keeps "1.IH" [of "(h, l, m)" h "(l, m)" l m ue' k'] d
        by (subst nr_process_mac_pdu.simps) auto
    qed (use True keeps d in \<open>(subst nr_process_mac_pdu.simps, simp)+\<close>)
  next
    case False
    then show ?thesis using "1.prems" d
      by (cases "0 < n") (subst nr_process_mac_pdu.simps, simp add: mac_ok_def)+
  qed
qed

section \<open>Properties\<close>

text \<open>The values of 3GPP TS 38.321 with small tables, as an example environment.\<close>

definition env_example :: mac_env where
  "env_example = \<lparr>UL_SCH_LCID_CCCH_64_BITS = 0, UL_SCH_LCID_SRB1 = 1, UL_SCH_LCID_SRB2 = 2,
     UL_SCH_LCID_DTCH = 4, UL_SCH_LCID_L_TRUNCATED_BSR = 60, UL_SCH_LCID_L_BSR = 62,
     UL_SCH_LCID_CCCH_48_BITS_REDCAP = 35, UL_SCH_LCID_CCCH_48_BITS = 52,
     UL_SCH_LCID_SINGLE_ENTRY_PHR = 57, UL_SCH_LCID_C_RNTI = 58, UL_SCH_LCID_S_TRUNCATED_BSR = 59,
     UL_SCH_LCID_S_BSR = 61, UL_SCH_LCID_PADDING = 63, UL_SCH_LCID_RECOMMENDED_BITRATE_QUERY = 53,
     UL_SCH_LCID_MULTI_ENTRY_PHR_4_OCT = 54, UL_SCH_LCID_CONFIGURED_GRANT_CONFIRMATION = 55,
     UL_SCH_LCID_MULTI_ENTRY_PHR_1_OCT = 56, phr_PH = (\<lambda>b. uint (b AND 0x3F)),
     phr_PCMAX = (\<lambda>b. uint (b AND 0x3F)), bsr_Buffer_size = (\<lambda>b. uint (b AND 0x1F)),
     bsr_LcgID = (\<lambda>b n. bit b n), get_short_bsr_value = (\<lambda>i. 10 * i), get_long_bsr_value = (\<lambda>i. 10 * i),
     NR_SHORT_BSR_TABLE_SIZE = 32, NR_LONG_BSR_TABLE_SIZE = 256, env_phy = phy_example\<rparr>"

lemma env_example_ok: "lcids_ok env_example"
  by (simp add: lcids_ok_def lcid_labels_def env_example_def)

definition ue_example :: mac_ue where
  "ue_example = \<lparr>CellGroup = True, ra_idle = False, rrc_ready = True, is_redcap = False,
     lc_config = (\<lambda>l. Some False), ul_scs = 1, ul_pusch_Config = None, ul_sched_pusch = (\<lambda>p. no_sched),
     estimated_ul_buffer = 5, ph = 0, ph0 = 0, pcmax = 0, total_sdu_bytes = 0, lc_bytes = (\<lambda>l. 0),
     num_mac_sdu = 0, rlc_data_ind = []\<rparr>"

text \<open>
  The look-ahead for a C-RNTI is memory safe in its result: although the subheader decoder may
  read up to two bytes past the end of the PDU, the answer depends on the bytes of the PDU only.
\<close>

lemma lookahead_in_bounds:
  assumes "lcids_ok E" and "\<forall>i. p \<le> i \<and> i < p + n \<longrightarrow> mem i = mem' i"
  shows "lcid_crnti_lookahead E mem p n = lcid_crnti_lookahead E mem' p n"
  using assms by (intro lookahead_agree) (simp_all add: agree_def)

text \<open>
  C20. Data round trip: a PDU that consists of data sub-PDUs of configured, active radio bearers,
  encoded with one or two length bytes as their size requires and optionally followed by padding,
  delivers exactly these SDUs to RLC in their order, and lowers the buffer estimate by their total
  size, not below zero.  The SDUs are counted in the statistics only when there is no padding.
\<close>

theorem data_pdu_roundtrip:
  assumes "lcids_ok E" and "0 \<le> estimated_ul_buffer ue"
    and "list_all (\<lambda>(l, bs). UL_SCH_LCID_DTCH E \<le> l \<and> l \<le> UL_SCH_LCID_DTCH E + 28 \<and>
      lc_config ue l = Some False \<and> length bs < 65536) sdus"
    and "map mem [p..<p + n] = concat (map enc_sdu sdus) @ padding"
    and "padding = [] \<or> hd padding = word_of_int (UL_SCH_LCID_PADDING E)"
  shows "\<exists>ue'. nr_process_mac_pdu E mem p n pid 0 ue = Inr (ue', 0) \<and>
    rlc_data_ind ue' = rlc_data_ind ue @ sdus \<and>
    estimated_ul_buffer ue' = max 0 (estimated_ul_buffer ue - int (sum_list (map (length \<circ> snd) sdus))) \<and>
    num_mac_sdu ue' = num_mac_sdu ue + (if padding = [] then int (length sdus) else 0)"
proof -
  let ?b = "concat (map enc_sdu sdus)"
  have n: "n = length (?b @ padding)" using assms(4) by (metis length_map length_upt diff_add_inverse)
  have h: "holds mem p (?b @ padding)" using assms(4) by (simp only: holds_def n [symmetric])
  have ok: "list_all (\<lambda>(l, bs). drb_ok E l \<and> lc_config ue l = Some False \<and> length bs < 65536) sdus"
    using assms(3) by (auto simp: drb_ok_def list_all_iff)
  define q where "q = p + length ?b"
  have eq: "nr_process_mac_pdu E mem p n pid 0 ue =
      nr_process_mac_pdu E mem q (length padding) pid (int (length sdus)) (fold got_sdu sdus ue)"
    using process_sdus [OF assms(1) ok, of mem p n pid 0] h by (simp add: n q_def)
  show ?thesis
  proof (cases padding)
    case Nil
    have "nr_process_mac_pdu E mem q 0 pid k u = Inr (u\<lparr>num_mac_sdu := num_mac_sdu u + k\<rparr>, 0)" for k u
      by (subst nr_process_mac_pdu.simps) simp
    then show ?thesis unfolding eq Nil using got_sdus assms(2) by simp
  next
    case (Cons b bs)
    then have b: "mem q = word_of_int (UL_SCH_LCID_PADDING E)" using h assms(5) by (simp add: q_def)
    then have "nr_process_mac_pdu E mem q (length padding) pid k u = Inr (u, 0)" for k u
      using Cons by (intro process_padding [OF assms(1)]) simp_all
    then show ?thesis unfolding eq using got_sdus assms(2) Cons by simp
  qed
qed

theorem data_pdu_roundtrip_witness:
  "\<exists>ue'. nr_process_mac_pdu env_example (\<lambda>i. [4, 3, 7, 8, 9, 63] ! i) 0 6 0 0 ue_example = Inr (ue', 0) \<and>
    rlc_data_ind ue' = [(4, [7, 8, 9])] \<and> estimated_ul_buffer ue' = 2"
proof -
  have "map (\<lambda>i. [4, 3, 7, 8, 9, 63] ! i) [0..<0 + 6] = concat (map enc_sdu [(4, [7, 8, 9 :: u8])]) @ [63]"
    by (simp add: enc_sdu_def upt_rec)
  from data_pdu_roundtrip [OF env_example_ok _ _ this, of ue_example 0]
  show ?thesis by (auto simp: ue_example_def env_example_def)
qed

text \<open>
  The loop over the sub-PDUs reads past the PDU, but not far: its result depends on the PDU and
  at most ten bytes after it.  This bound is not slack: a long BSR whose length byte is smaller
  than its bitmap demands is estimated from bytes outside the PDU, so two memories that agree on
  the PDU can give different estimates.
\<close>

lemma mac_pdu_overread:
  "((\<forall>i. p \<le> i \<and> i < p + (n + 10) \<longrightarrow> mem i = mem' i) \<longrightarrow>
     nr_process_mac_pdu E mem p n pid k ue = nr_process_mac_pdu E mem' p n pid k ue) \<and>
   (\<exists>m m' :: memory. (\<forall>i < 3. m i = m' i) \<and>
     nr_process_mac_pdu env_example m 0 3 0 0 ue_example \<noteq> nr_process_mac_pdu env_example m' 0 3 0 0 ue_example)"
proof -
  define m :: "u8 \<Rightarrow> memory" where "m x = (\<lambda>i. if i = 0 then 62 else if i < 3 then 1 else x)" for x
  define est where "est r = (case r of Inr (u, _) \<Rightarrow> estimated_ul_buffer u | Inl _ \<Rightarrow> -1)"
    for r :: "mac_error + mac_ue \<times> int"
  have "est (nr_process_mac_pdu env_example (m 1) 0 3 0 0 ue_example) = 20"
    and "est (nr_process_mac_pdu env_example (m 0) 0 3 0 0 ue_example) = 0"
    unfolding m_def est_def by code_simp+
  then have "nr_process_mac_pdu env_example (m 1) 0 3 0 0 ue_example \<noteq>
      nr_process_mac_pdu env_example (m 0) 0 3 0 0 ue_example" by auto
  moreover have "\<forall>i < 3. m 1 i = m 0 i" by (simp add: m_def)
  ultimately show ?thesis using process_agree [of mem mem' p n E pid k ue]
    unfolding agree_def by blast
qed

end
