(* ===== verification/UlPreprocessor.thy ===== *)
theory UlPreprocessor imports UlPass "HOL-Library.Monad_Syntax" begin

text \<open>
  \<^verbatim>\<open>nr_ulsch_preprocessor\<close> of \<^verbatim>\<open>gnb_patch/gNB_scheduler_ulsch.c\<close>: in every downlink slot it walks over
  the uplink slots that can still be reached, chooses a TDA for each and runs \<^verbatim>\<open>pf_ul\<close>, until the
  DCIs are used up, nothing is left to schedule or no TDA reaches far enough; and
  \<^verbatim>\<open>nr_schedule_ulsch\<close>, which calls it.  Both loops of the code are partial functions: \<open>None\<close> is a
  loop that never ends.
\<close>

section \<open>Parameters and state\<close>

record ul_pp_cfg =
  pc_minRXTXTIME :: int
  pc_num_beams :: nat
  pc_carrierBandwidth :: int
  pc_NR_NB_REG_PER_CCE :: int
  pc_MAX_DCI_CORESET :: int
  pc_num_dl_slots :: int
  pc_tdd_slot_bitmap :: "int \<Rightarrow> tdd_bitmap_t"
  pc_ul_tda :: "NR_tda_info_t list"
  pc_ulprbbl :: prb_map
  is_dl_slot :: "int \<Rightarrow> bool"

text \<open>What the clock and the file system answer to the reload of the \<open>k\<close>-th pass.\<close>

type_synonym observations = "nat \<Rightarrow> int \<times> (int \<times> int) option \<times> string option"

datatype ul_pp_error = TdaError ul_tda_error | PfError ul_error | AssertK2 | AssertChosenTda | AssertTdaIndex

section \<open>The time of the next PUSCH\<close>

text \<open>Skip to the next uplink slot.\<close>

partial_function (option) skip_to_ul :: "(int \<Rightarrow> bool) \<Rightarrow> int \<Rightarrow> int \<Rightarrow> fsn_t \<Rightarrow> fsn_t option" where
  "skip_to_ul is_ul maxf n nxt =
     (if is_ul (fs_s nxt) then Some nxt else skip_to_ul is_ul maxf n (fs_add_delta maxf n 1 nxt))"

declare skip_to_ul.simps [code]

definition max_dci_of :: "ul_pp_cfg \<Rightarrow> int" where
  "max_dci_of P =
     (let average_agg_level = 4
      in min (pc_carrierBandwidth P div (average_agg_level * pc_NR_NB_REG_PER_CCE P)) (pc_MAX_DCI_CORESET P))"

definition last_dl_of :: "ul_cfg \<Rightarrow> ul_pp_cfg \<Rightarrow> int \<Rightarrow> bool" where
  "last_dl_of C P slot \<longleftrightarrow> slot mod numb_slots_period (cfg_fs C) = pc_num_dl_slots P - 1"

section \<open>The choice of a TDA\<close>

text \<open>
  For a PUSCH \<open>k\<close> slots ahead at \<open>nxt\<close>: the index of the chosen TDA and the length of its free run,
  or \<open>None\<close> when no TDA reaches the slot.
\<close>

definition choose_tda ::
    "('q, 'x) ul_env \<Rightarrow> ul_cfg \<Rightarrow> ul_pp_cfg \<Rightarrow> ('q, 'x) ul_mac \<Rightarrow> fsn_t \<Rightarrow> int \<Rightarrow> ul_pp_error + (nat \<times> int) option" where
  "choose_tda E C P mac nxt k =
     (let sl = SL_to_bitmap (e_lib E);
          ulb = slot_ul_bitmap sl (numb_slots_period (cfg_fs C)) (pc_tdd_slot_bitmap P) (fs_s nxt);
          vrb = (\<lambda>rb. m_vrb_map_UL mac 0 (vrb_buffer_index E (fs_f nxt) (fs_s nxt) * cfg_MAX_BWP_SIZE C + rb))
      in case get_num_ul_tda sl (pc_ul_tda P) ulb k of
           Inl e \<Rightarrow> Inl (TdaError e)
         | Inr (_, None) \<Rightarrow> Inr None
         | Inr (n_tda, Some i) \<Rightarrow>
             (case get_best_ul_tda sl vrb (pc_ulprbbl P) (take n_tda (drop i (pc_ul_tda P))) 0 (pc_carrierBandwidth P) of
                Inl e \<Rightarrow> Inl (TdaError e)
              | Inr (b, _, rb_len) \<Rightarrow>
                  let tda = i + b in
                  if \<not> valid_tda (pc_ul_tda P ! tda) then Inl AssertChosenTda
                  else if \<not> tda < 16 then Inl AssertTdaIndex
                  else Inr (Some (tda, rb_len))))"

section \<open>The loop\<close>

text \<open>One round: \<open>Inl\<close> is an error, \<open>Inr (Inl r)\<close> leaves the loop, \<open>Inr (Inr r)\<close> goes on.\<close>

definition ul_pp_round ::
    "('q, 'x) ul_env \<Rightarrow> ul_cfg \<Rightarrow> ul_pp_cfg \<Rightarrow> int \<times> (int \<times> int) option \<times> string option \<Rightarrow> int \<Rightarrow> int \<Rightarrow> int \<Rightarrow> fsn_t \<Rightarrow>
     ('q, 'x) ul_mac \<Rightarrow> ul_pp_error + ((fsn_t \<times> ('q, 'x) ul_mac) + (int \<times> fsn_t \<times> ('q, 'x) ul_mac))" where
  "ul_pp_round E C P obs frame slot max_dci nxt mac =
     (let n = numb_slots_frame (cfg_fs C); maxf = MAX_FRAME_NUMBER (e_lib E) in
      if \<not> is_dl_slot P slot then Inr (Inl (nxt, mac))
      else
        let k2 = fs_get_diff n nxt \<lparr>fs_f = frame, fs_s = slot\<rparr> - get_NTN_Koffset (e_lib E) in
        if \<not> 0 < k2 then Inl AssertK2
        else case choose_tda E C P mac nxt k2 of
               Inl e \<Rightarrow> Inl e
             | Inr None \<Rightarrow> Inr (Inl (nxt, mac))
             | Inr (Some (tda, rb_len)) \<Rightarrow>
                 let p = \<lparr>p_frame = frame, p_slot = slot, p_tda = int tda, p_tda_info = pc_ul_tda P ! tda,
                          p_num_beams = pc_num_beams P\<rparr>;
                     (now_ms, stat, cfg_file) = obs
                 in case pf_ul E C now_ms stat cfg_file p max_dci (\<lambda>_. rb_len) mac of
                      Inl e \<Rightarrow> Inl (PfError e)
                    | Inr (sched, mac) \<Rightarrow>
                        if sched = 0 \<and> \<not> last_dl_of C P slot then Inr (Inl (nxt, mac))
                        else Inr (Inr (max_dci - sched, fs_add_delta maxf n 1 nxt, mac)))"

partial_function (option) ul_pp_loop ::
    "('q, 'x) ul_env \<Rightarrow> ul_cfg \<Rightarrow> ul_pp_cfg \<Rightarrow> observations \<Rightarrow> int \<Rightarrow> int \<Rightarrow> nat \<Rightarrow> int \<Rightarrow> fsn_t \<Rightarrow> ('q, 'x) ul_mac \<Rightarrow>
     (ul_pp_error + (fsn_t \<times> ('q, 'x) ul_mac)) option" where
  "ul_pp_loop E C P obs frame slot k max_dci nxt mac =
     (if \<not> 0 < max_dci then Some (Inr (nxt, mac))
      else
        let n = numb_slots_frame (cfg_fs C); maxf = MAX_FRAME_NUMBER (e_lib E);
            min_next = fs_add_delta maxf n (pc_minRXTXTIME P + get_NTN_Koffset (e_lib E)) \<lparr>fs_f = frame, fs_s = slot\<rparr>
        in do {
             nxt \<leftarrow> skip_to_ul (is_ul_slot E) maxf n (fs_get_max n nxt min_next);
             case ul_pp_round E C P (obs k) frame slot max_dci nxt mac of
               Inl e \<Rightarrow> Some (Inl e)
             | Inr r \<Rightarrow>
                 (case r of
                    Inl done \<Rightarrow> Some (Inr done)
                  | Inr (max_dci, nxt, mac) \<Rightarrow> ul_pp_loop E C P obs frame slot (k + 1) max_dci nxt mac)
           })"

declare ul_pp_loop.simps [code]

text \<open>\<^verbatim>\<open>nr_mac->ul_next\<close> is the second component of the state.\<close>

definition nr_ulsch_preprocessor where
  "nr_ulsch_preprocessor E C P obs frame slot ul_next mac =
     ul_pp_loop E C P obs frame slot 0 (max_dci_of P) ul_next mac"

record ul_dci_req_head =
  req_SFN :: int
  req_Slot :: int

text \<open>\<^verbatim>\<open>nr_schedule_ulsch\<close>: stamp the request and call the preprocessor \<^verbatim>\<open>pre_processor_ul\<close> points to.\<close>

definition nr_schedule_ulsch ::
    "(int \<Rightarrow> int \<Rightarrow> 's \<Rightarrow> 'r) \<Rightarrow> int \<Rightarrow> int \<Rightarrow> 's \<Rightarrow> ul_dci_req_head \<times> 'r" where
  "nr_schedule_ulsch pre_processor_ul frame slot s =
     (\<lparr>req_SFN = frame, req_Slot = slot\<rparr>, pre_processor_ul frame slot s)"

end
