(* ===== verification/UlSlot.thy ===== *)
theory UlSlot imports UlGuarantees UlPreprocessor begin

text \<open>
  The uplink scheduler over a whole slot: the loops of \<^verbatim>\<open>nr_ulsch_preprocessor\<close> end, every pass it runs
  is for an uplink slot that the UEs reach, its assertions hold, and the DCIs of all passes together
  stay within the budget.
\<close>

section \<open>Times relative to the current slot\<close>

text \<open>How many slots \<open>a\<close> lies after \<open>c\<close>, on the circle of 1024 frames.\<close>

definition off :: "int \<Rightarrow> fsn_t \<Rightarrow> fsn_t \<Rightarrow> int" where
  "off n a c = (tick n a - tick n c) mod (1024 * n)"

lemma off_bounds: "fs_ok n a \<Longrightarrow> 0 \<le> off n a c \<and> off n a c < 1024 * n"
proof -
  assume "fs_ok n a"
  then have "0 < 1024 * n" by (auto simp: fs_ok_def)
  then show ?thesis unfolding off_def using pos_mod_sign pos_mod_bound by blast
qed

lemma off_self [simp]: "off n c c = 0"
  by (simp add: off_def)

lemma off_add:
  assumes "fs_ok n a" and "0 \<le> d" and "d + n \<le> 2 ^ 31"
  shows "off n (fs_add_delta 1024 n d a) c = (off n a c + d) mod (1024 * n)"
proof -
  have "((tick n a + d) mod (1024 * n) - tick n c) mod (1024 * n) = ((tick n a - tick n c) mod (1024 * n) + d) mod (1024 * n)"
    unfolding mod_diff_left_eq mod_add_left_eq by (rule arg_cong [where f = "\<lambda>x. x mod (1024 * n)"]) simp
  then show ?thesis by (simp add: off_def add_delta_ok_tick [OF assms])
qed

lemma off_add_small:
  assumes "fs_ok n a" and "0 \<le> d" and "d + n \<le> 2 ^ 31" and "off n a c + d < 1024 * n"
  shows "off n (fs_add_delta 1024 n d a) c = off n a c + d"
  using off_add [OF assms(1-3)] off_bounds [OF assms(1), of c] assms(2,4) by simp

lemma off_trans:
  assumes "fs_ok n a" and "0 \<le> off n a b + off n b c" and "off n a b + off n b c < 1024 * n"
  shows "off n a c = off n a b + off n b c"
proof -
  have "(off n a b + off n b c) mod (1024 * n) = off n a c"
    unfolding off_def mod_add_eq by (rule arg_cong [where f = "\<lambda>x. x mod (1024 * n)"]) simp
  then show ?thesis using assms by simp
qed

lemma diff_off:
  assumes a: "fs_ok n a" and c: "fs_ok n c"
  shows "fs_get_diff n a c = off n a c \<or> fs_get_diff n a c = off n a c - 1024 * n"
    "\<bar>fs_get_diff n a c\<bar> \<le> 512 * n"
proof -
  let ?d = "tick n a - tick n c"
  have n: "0 < n" using a by (auto simp: fs_ok_def)
  have b: "- (1024 * n) < ?d" "?d < 1024 * n" using tick_bounds [OF a] tick_bounds [OF c] by auto
  have "?d mod (1024 * n) = (if 0 \<le> ?d then ?d else ?d + 1024 * n)"
  proof (cases "0 \<le> ?d")
    case True
    then show ?thesis using b by simp
  next
    case False
    have "?d mod (1024 * n) = (?d + 1024 * n) mod (1024 * n)" by simp
    also have "\<dots> = ?d + 1024 * n" using False b n by (intro mod_pos_pos_trivial) auto
    finally show ?thesis using False by simp
  qed
  then have o: "off n a c = (if 0 \<le> ?d then ?d else ?d + 1024 * n)" by (simp add: off_def)
  show "fs_get_diff n a c = off n a c \<or> fs_get_diff n a c = off n a c - 1024 * n"
    "\<bar>fs_get_diff n a c\<bar> \<le> 512 * n"
    unfolding o get_diff_tick Let_def using b n by auto
qed

lemma add_diff_inverse:
  assumes a: "fs_ok n a" and c: "fs_ok n c" and d: "0 \<le> fs_get_diff n a c" and n: "n \<le> 160"
  shows "fs_add_delta 1024 n (fs_get_diff n a c) c = a"
proof -
  have n0: "0 < n" using a by (auto simp: fs_ok_def)
  note b = diff_off [OF a c] off_bounds [OF a, of c]
  have eq: "fs_get_diff n a c = off n a c" using b d by auto
  have small: "fs_get_diff n a c + n \<le> 2 ^ 31" using b(2) n by simp
  have "(tick n c + off n a c) mod (1024 * n) = tick n a"
    using tick_bounds [OF a] unfolding off_def mod_add_right_eq by simp
  then have "tick n (fs_add_delta 1024 n (fs_get_diff n a c) c) = tick n a"
    using add_delta_ok_tick(2) [OF c d small] by (simp add: eq)
  then show ?thesis using tick_inj add_delta_ok_tick(1) [OF c d small] a by blast
qed

section \<open>The search for an uplink slot ends\<close>

lemma add_delta_0: "fs_ok n a \<Longrightarrow> n \<le> 160 \<Longrightarrow> fs_add_delta 1024 n 0 a = a"
  using add_delta_ok_tick [of n a 0] tick_inj [of n "fs_add_delta 1024 n 0 a" a] tick_bounds [of n a] by simp

lemma add_delta_add:
  assumes a: "fs_ok n a" and d: "0 \<le> d" "0 \<le> e" "d + e + n \<le> 2 ^ 31"
  shows "fs_add_delta 1024 n e (fs_add_delta 1024 n d a) = fs_add_delta 1024 n (d + e) a"
proof -
  have small: "d + n \<le> 2 ^ 31" "e + n \<le> 2 ^ 31" "0 \<le> d + e" using d by auto
  note t = add_delta_ok_tick [OF a d(1) small(1)]
  note u = add_delta_ok_tick [OF t(1) d(2) small(2)] and v = add_delta_ok_tick [OF a small(3) d(3)]
  show ?thesis
    by (rule tick_inj [OF u(1) v(1)]) (simp only: u(2) v(2) t(2) mod_add_left_eq add.assoc)
qed

lemma skip_to_ul_steps:
  assumes s: "0 \<le> s" "s < n" "is_ul s" and n: "n \<le> 160"
  shows "fs_ok n nxt \<Longrightarrow> (s - fs_s nxt) mod n = int m \<Longrightarrow>
    \<exists>j. skip_to_ul is_ul 1024 n nxt = Some (fs_add_delta 1024 n j nxt) \<and> is_ul (fs_s (fs_add_delta 1024 n j nxt)) \<and>
      0 \<le> j \<and> j \<le> int m"
proof (induction m arbitrary: nxt)
  case 0
  have "s mod n = fs_s nxt mod n" using 0(2) by (simp add: mod_eq_dvd_iff dvd_eq_mod_eq_0)
  then have "fs_s nxt = s" using 0(1) s by (simp add: fs_ok_def)
  then have "skip_to_ul is_ul 1024 n nxt = Some nxt" "is_ul (fs_s nxt)"
    using s(3) by (subst skip_to_ul.simps, simp_all)
  then show ?case using add_delta_0 [OF 0(1) n] by (intro exI [of _ 0]) simp
next
  case (Suc m)
  show ?case
  proof (cases "is_ul (fs_s nxt)")
    case True
    then have "skip_to_ul is_ul 1024 n nxt = Some nxt" by (subst skip_to_ul.simps) simp
    then show ?thesis using True add_delta_0 [OF Suc(2) n] by (intro exI [of _ 0]) simp
  next
    case False
    let ?nxt = "fs_add_delta 1024 n 1 nxt"
    have small: "1 + n \<le> 2 ^ 31" using n by simp
    have ok: "fs_ok n ?nxt" by (rule add_delta_ok_tick(1) [OF Suc(2) _ small]) simp
    have "fs_s nxt + 1 < 2 ^ 32" using Suc(2) n by (simp add: fs_ok_def)
    then have "fs_s ?nxt = (fs_s nxt + 1) mod n" using Suc(2) by (simp add: fs_add_delta_def Let_def fs_ok_def)
    then have "(s - fs_s ?nxt) mod n = ((s - fs_s nxt) mod n - 1) mod n"
      unfolding mod_diff_left_eq by (simp add: mod_diff_right_eq) (rule arg_cong [where f = "\<lambda>x. x mod n"], simp)
    also have "\<dots> = int m"
    proof -
      have "int (Suc m) < n" using Suc(3) s pos_mod_bound [of n "s - fs_s nxt"] by linarith
      then show ?thesis unfolding Suc(3) by simp
    qed
    finally obtain j where j: "skip_to_ul is_ul 1024 n ?nxt = Some (fs_add_delta 1024 n j ?nxt)"
      "is_ul (fs_s (fs_add_delta 1024 n j ?nxt))" "0 \<le> j" "j \<le> int m"
      using Suc(1) [OF ok] by blast
    have "int m < n" using Suc(3) s pos_mod_bound [of n "s - fs_s nxt"] by linarith
    then have "fs_add_delta 1024 n j ?nxt = fs_add_delta 1024 n (1 + j) nxt"
      using j n by (intro add_delta_add [OF Suc(2)]) auto
    moreover have "skip_to_ul is_ul 1024 n nxt = skip_to_ul is_ul 1024 n ?nxt"
      using False by (subst skip_to_ul.simps) simp
    ultimately show ?thesis using j by (intro exI [of _ "1 + j"]) simp
  qed
qed

lemma skip_to_ul_some:
  assumes ok: "fs_ok n nxt" and n: "n \<le> 160" and s: "0 \<le> s" "s < n" "is_ul s"
  shows "\<exists>j. skip_to_ul is_ul 1024 n nxt = Some (fs_add_delta 1024 n j nxt) \<and>
    is_ul (fs_s (fs_add_delta 1024 n j nxt)) \<and> fs_ok n (fs_add_delta 1024 n j nxt) \<and> 0 \<le> j \<and> j < n"
proof -
  have m: "0 \<le> (s - fs_s nxt) mod n" "(s - fs_s nxt) mod n < n" using s by simp_all
  then obtain j where j: "skip_to_ul is_ul 1024 n nxt = Some (fs_add_delta 1024 n j nxt)"
    "is_ul (fs_s (fs_add_delta 1024 n j nxt))" "0 \<le> j" "j \<le> int (nat ((s - fs_s nxt) mod n))"
    using skip_to_ul_steps [where s = s and n = n and is_ul = is_ul and nxt = nxt and m = "nat ((s - fs_s nxt) mod n)"] s n ok by auto
  then show ?thesis using m n add_delta_ok_tick(1) [OF ok, of j] by (intro exI [of _ j]) simp
qed

section \<open>The setting of a slot\<close>

definition min_rxtx :: "('q, 'x) ul_env \<Rightarrow> ul_pp_cfg \<Rightarrow> int" where
  "min_rxtx E P = pc_minRXTXTIME P + get_NTN_Koffset (e_lib E)"

text \<open>
  What the configuration of the cell promises: 1024 frames of \<open>n\<close> slots, some of them uplink, valid
  TDAs sorted by k2 that reach at most \<open>B\<close> slots ahead, and distances well below half the circle.
\<close>

definition cell_law :: "('q, 'x) ul_env \<Rightarrow> ul_cfg \<Rightarrow> ul_pp_cfg \<Rightarrow> int \<Rightarrow> bool" where
  "cell_law E C P B \<longleftrightarrow>
     (let n = numb_slots_frame (cfg_fs C); koffset = get_NTN_Koffset (e_lib E) in
      0 < n \<and> n \<le> 160 \<and> MAX_FRAME_NUMBER (e_lib E) = 1024 \<and> 0 \<le> koffset \<and> 0 < pc_minRXTXTIME P \<and>
      min_rxtx E P < 511 * n \<and> (\<exists>s. 0 \<le> s \<and> s < n \<and> is_ul_slot E s) \<and>
      tdas_ok (pc_ul_tda P) \<and> length (pc_ul_tda P) \<le> 16 \<and> (\<forall>t \<in> set (pc_ul_tda P). k2 t + koffset \<le> B) \<and> B + n < 512 * n)"

text \<open>The uplink slot a round looks at.\<close>

definition round_slot :: "('q, 'x) ul_env \<Rightarrow> ul_cfg \<Rightarrow> ul_pp_cfg \<Rightarrow> fsn_t \<Rightarrow> fsn_t \<Rightarrow> fsn_t option" where
  "round_slot E C P cur nxt =
     (let n = numb_slots_frame (cfg_fs C); maxf = MAX_FRAME_NUMBER (e_lib E)
      in skip_to_ul (is_ul_slot E) maxf n (fs_get_max n nxt (fs_add_delta maxf n (min_rxtx E P) cur)))"

lemma ul_pp_loop_step:
  "ul_pp_loop E C P obs frame slot k max_dci nxt mac =
     (if \<not> 0 < max_dci then Some (Inr (nxt, mac))
      else case round_slot E C P \<lparr>fs_f = frame, fs_s = slot\<rparr> nxt of
             None \<Rightarrow> None
           | Some nxt \<Rightarrow>
               (case ul_pp_round E C P (obs k) frame slot max_dci nxt mac of
                  Inl e \<Rightarrow> Some (Inl e)
                | Inr (Inl r) \<Rightarrow> Some (Inr r)
                | Inr (Inr (max_dci, nxt, mac)) \<Rightarrow> ul_pp_loop E C P obs frame slot (k + 1) max_dci nxt mac))"
  by (subst ul_pp_loop.simps) (simp add: round_slot_def min_rxtx_def Let_def split: option.split)

lemma round_slot_some:
  assumes law: "cell_law E C P B" and ok: "fs_ok (numb_slots_frame (cfg_fs C)) nxt" "fs_ok (numb_slots_frame (cfg_fs C)) cur"
  shows "\<exists>r. round_slot E C P cur nxt = Some r \<and> fs_ok (numb_slots_frame (cfg_fs C)) r \<and> is_ul_slot E (fs_s r) \<and>
    min_rxtx E P \<le> off (numb_slots_frame (cfg_fs C)) r cur \<and>
    (min_rxtx E P < off (numb_slots_frame (cfg_fs C)) nxt cur \<and> off (numb_slots_frame (cfg_fs C)) nxt cur \<le> B + 1 \<longrightarrow>
      off (numb_slots_frame (cfg_fs C)) nxt cur \<le> off (numb_slots_frame (cfg_fs C)) r cur)"
proof -
  define n where "n = numb_slots_frame (cfg_fs C)"
  define M where "M = min_rxtx E P"
  note law' = law [unfolded cell_law_def Let_def, folded n_def M_def]
  have n: "0 < n" "n \<le> 160" "MAX_FRAME_NUMBER (e_lib E) = 1024" and M: "0 < M" "M < 511 * n" and B: "B + n < 512 * n"
    using law' by (auto simp: M_def min_rxtx_def)
  note ok = ok [folded n_def]
  let ?min = "fs_add_delta 1024 n M cur"
  have small: "0 \<le> M" "M + n \<le> 2 ^ 31" using M n by auto
  have min: "fs_ok n ?min" "off n ?min cur = M"
    using add_delta_ok_tick(1) [OF ok(2) small] off_add_small [OF ok(2) small, of cur] M n by auto
  define r0 where "r0 = fs_get_max n nxt ?min"
  note d = diff_off [OF ok(1) min(1)] off_bounds [OF ok(1), of ?min]
  have r0: "fs_ok n r0" "off n r0 ?min \<le> 512 * n"
    using ok(1) min(1) d n off_self [of n ?min] by (auto simp: r0_def fs_get_max_def)
  have o0: "off n r0 cur = off n r0 ?min + M"
    using off_trans [OF r0(1), of ?min cur] min(2) off_bounds [OF r0(1), of ?min] r0(2) M n by simp
  obtain s where s: "0 \<le> s" "s < n" "is_ul_slot E s" using law' by blast
  obtain j where j: "skip_to_ul (is_ul_slot E) 1024 n r0 = Some (fs_add_delta 1024 n j r0)"
    "is_ul_slot E (fs_s (fs_add_delta 1024 n j r0))" "fs_ok n (fs_add_delta 1024 n j r0)" "0 \<le> j" "j < n"
    using skip_to_ul_some [where is_ul = "is_ul_slot E", OF r0(1) n(2) s] by blast
  have o: "off n (fs_add_delta 1024 n j r0) cur = off n r0 cur + j"
    using off_add_small [OF r0(1) j(4), of cur] j(5) o0 r0(2) M n by simp
  have same: "r0 = nxt" if "M < off n nxt cur" "off n nxt cur \<le> B + 1"
  proof -
    have "off n nxt cur = (off n nxt ?min + off n ?min cur) mod (1024 * n)"
      unfolding off_def mod_add_eq by (rule arg_cong [where f = "\<lambda>x. x mod (1024 * n)"]) simp
    then have eq: "off n nxt cur = (off n nxt ?min + M) mod (1024 * n)" by (simp only: min(2))
    have "off n nxt ?min + M < 1024 * n"
    proof (rule ccontr)
      assume over: "\<not> off n nxt ?min + M < 1024 * n"
      have "(off n nxt ?min + M) mod (1024 * n) = (off n nxt ?min + M - 1024 * n) mod (1024 * n)" by simp
      also have "\<dots> = off n nxt ?min + M - 1024 * n"
        using over d(3) M n by (intro mod_pos_pos_trivial) auto
      finally show False using eq that(1) d(3) by linarith
    qed
    then have "off n nxt ?min = off n nxt cur - M" using eq d(3) M by simp
    moreover have "- (512 * n) \<le> fs_get_diff n nxt ?min" using d(2) by (simp add: abs_le_iff)
    ultimately have "0 < fs_get_diff n nxt ?min" using d(1) that B n(1) M by (elim disjE) linarith+
    then show ?thesis by (simp add: r0_def fs_get_max_def)
  qed
  show ?thesis
    unfolding round_slot_def Let_def n(3) n_def [symmetric] M_def [symmetric] r0_def [symmetric]
    using j o o0 same off_bounds [OF r0(1), of ?min] by auto
qed

text \<open>
  Where \<^verbatim>\<open>ul_next\<close> can be at the start of a slot: at or before the first slot the UEs can reach, or
  not further ahead than one slot past the reach of the TDAs, or at an uplink slot a little later.
\<close>

definition next_near :: "('q, 'x) ul_env \<Rightarrow> ul_cfg \<Rightarrow> ul_pp_cfg \<Rightarrow> int \<Rightarrow> fsn_t \<Rightarrow> fsn_t \<Rightarrow> bool" where
  "next_near E C P B cur nxt \<longleftrightarrow>
     (let n = numb_slots_frame (cfg_fs C) in
      off n nxt cur \<le> B + 1 \<or> (is_ul_slot E (fs_s nxt) \<and> off n nxt cur \<le> max B (min_rxtx E P) + n))"

definition next_behind :: "('q, 'x) ul_env \<Rightarrow> ul_cfg \<Rightarrow> ul_pp_cfg \<Rightarrow> fsn_t \<Rightarrow> fsn_t \<Rightarrow> bool" where
  "next_behind E C P cur nxt \<longleftrightarrow>
     fs_get_diff (numb_slots_frame (cfg_fs C)) nxt
       (fs_add_delta 1024 (numb_slots_frame (cfg_fs C)) (min_rxtx E P) cur) \<le> 0"

lemma round_slot_near:
  assumes law: "cell_law E C P B" and ok: "fs_ok (numb_slots_frame (cfg_fs C)) nxt" "fs_ok (numb_slots_frame (cfg_fs C)) cur"
    and near: "next_near E C P B cur nxt \<or> next_behind E C P cur nxt"
    and r: "round_slot E C P cur nxt = Some r"
  shows "off (numb_slots_frame (cfg_fs C)) r cur \<le> max B (min_rxtx E P) + numb_slots_frame (cfg_fs C)"
    "get_NTN_Koffset (e_lib E) < fs_get_diff (numb_slots_frame (cfg_fs C)) r cur"
proof -
  define n where "n = numb_slots_frame (cfg_fs C)"
  define M where "M = min_rxtx E P"
  note law' = law [unfolded cell_law_def Let_def, folded n_def M_def]
  have n: "0 < n" "n \<le> 160" "MAX_FRAME_NUMBER (e_lib E) = 1024" and M: "0 < M" "M < 511 * n" and B: "B + n < 512 * n"
    using law' by (auto simp: M_def min_rxtx_def)
  note ok = ok [folded n_def]
  let ?min = "fs_add_delta 1024 n M cur"
  have small: "0 \<le> M" "M + n \<le> 2 ^ 31" using M n by auto
  have min: "fs_ok n ?min" "off n ?min cur = M"
    using add_delta_ok_tick(1) [OF ok(2) small] off_add_small [OF ok(2) small, of cur] M n by auto
  define r0 where "r0 = fs_get_max n nxt ?min"
  obtain s where s: "0 \<le> s" "s < n" "is_ul_slot E s" using law' by blast
  have r0: "fs_ok n r0" using ok(1) min(1) by (simp add: r0_def fs_get_max_def)
  obtain j where j: "r = fs_add_delta 1024 n j r0" "0 \<le> j" "j < n"
    using skip_to_ul_some [where is_ul = "is_ul_slot E", OF r0 n(2) s] r
    unfolding round_slot_def Let_def n(3) n_def [symmetric] M_def [symmetric] r0_def [symmetric] by auto
  have j0: "r = r0" if "is_ul_slot E (fs_s r0)"
    using r that unfolding round_slot_def Let_def n(3) n_def [symmetric] M_def [symmetric] r0_def [symmetric]
    by (subst (asm) skip_to_ul.simps) simp
  have smallj: "j + n \<le> 2 ^ 31" using j n by simp
  have o: "off n r cur = off n r0 cur + j" if "off n r0 cur < 1023 * n"
    using off_add_small [OF r0 j(2) smallj, of cur] that j n by simp
  consider (min) "r0 = ?min" | (nxt) "r0 = nxt" "next_near E C P B cur nxt"
    using near by (cases "fs_get_diff n nxt ?min \<le> 0") (auto simp: next_behind_def r0_def fs_get_max_def n_def M_def)
  then have le: "off n r cur \<le> max B M + n"
  proof cases
    case min
    then show ?thesis using o j min M B n assms by (simp add: \<open>off n ?min cur = M\<close>)
  next
    case nxt
    show ?thesis
    proof (cases "off n nxt cur \<le> B + 1")
      case True
      then show ?thesis using o nxt j B n by simp
    next
      case False
      then show ?thesis using nxt j0 by (auto simp: next_near_def Let_def n_def M_def)
    qed
  qed
  then show "off (numb_slots_frame (cfg_fs C)) r cur \<le> max B (min_rxtx E P) + numb_slots_frame (cfg_fs C)"
    by (simp add: n_def M_def)
  have rok: "fs_ok n r" "M \<le> off n r cur"
    using round_slot_some [OF law, folded n_def M_def, OF ok] r by auto
  have "fs_get_diff n r cur = off n r cur"
  proof -
    have "off n r cur < 512 * n" using le B M by simp
    then have "\<bar>off n r cur - 1024 * n\<bar> > 512 * n" using n by simp
    then show ?thesis using diff_off [OF rok(1) ok(2)] by auto
  qed
  then show "get_NTN_Koffset (e_lib E) < fs_get_diff (numb_slots_frame (cfg_fs C)) r cur"
    using rok(2) law by (simp add: n_def M_def min_rxtx_def cell_law_def Let_def)
qed

section \<open>A round\<close>

lemma choose_tda_some:
  assumes tdas: "tdas_ok (pc_ul_tda P)" and c: "choose_tda E C P mac nxt k = Inr (Some (tda, len))"
  shows "tda < length (pc_ul_tda P)" "k2 (pc_ul_tda P ! tda) = k" "valid_tda (pc_ul_tda P ! tda)"
proof -
  define sl where "sl = SL_to_bitmap (e_lib E)"
  define ulb where "ulb = slot_ul_bitmap sl (numb_slots_period (cfg_fs C)) (pc_tdd_slot_bitmap P) (fs_s nxt)"
  define vrb where "vrb = (\<lambda>rb. m_vrb_map_UL mac 0 (vrb_buffer_index E (fs_f nxt) (fs_s nxt) * cfg_MAX_BWP_SIZE C + rb))"
  note def = choose_tda_def Let_def sl_def [symmetric] ulb_def [symmetric] vrb_def [symmetric]
  obtain n i b st where g: "get_num_ul_tda sl (pc_ul_tda P) ulb k = Inr (n, Some i)"
    and best: "get_best_ul_tda sl vrb (pc_ulprbbl P) (take n (drop i (pc_ul_tda P))) 0 (pc_carrierBandwidth P) = Inr (b, st, len)"
    and tda: "tda = i + b" "valid_tda (pc_ul_tda P ! (i + b))"
    using c unfolding def by (auto split: sum.splits prod.splits option.splits if_splits)
  have blk: "0 < n" "i + n \<le> length (pc_ul_tda P)" "\<And>j. i \<le> j \<Longrightarrow> j < i + n \<Longrightarrow> k2 (pc_ul_tda P ! j) = k"
    using num_ul_tda_block [OF tdas, of sl ulb k] g by blast+
  have "b < length (take n (drop i (pc_ul_tda P))) \<or> b = 0"
    using get_best_ul_tda_ok [OF best] by (auto simp: choice_ok_def)
  then have "b < n" using blk by auto
  then show "tda < length (pc_ul_tda P)" "k2 (pc_ul_tda P ! tda) = k" "valid_tda (pc_ul_tda P ! tda)"
    using blk tda by auto
qed

text \<open>The pass that a round runs.\<close>

definition round_pass :: "ul_pp_cfg \<Rightarrow> int \<Rightarrow> int \<Rightarrow> nat \<Rightarrow> ul_pass" where
  "round_pass P frame slot tda = \<lparr>p_frame = frame, p_slot = slot, p_tda = int tda, p_tda_info = pc_ul_tda P ! tda,
     p_num_beams = pc_num_beams P\<rparr>"

lemma pass_on_time:
  assumes law: "cell_law E C P B" and ok: "fs_ok (numb_slots_frame (cfg_fs C)) nxt"
      "fs_ok (numb_slots_frame (cfg_fs C)) \<lparr>fs_f = frame, fs_s = slot\<rparr>"
    and k: "0 < k" "k = fs_get_diff (numb_slots_frame (cfg_fs C)) nxt \<lparr>fs_f = frame, fs_s = slot\<rparr> - get_NTN_Koffset (e_lib E)"
    and c: "choose_tda E C P mac nxt k = Inr (Some (tda, len))"
  shows "pass_time E C (round_pass P frame slot tda) = (fs_f nxt, fs_s nxt)"
    "off (numb_slots_frame (cfg_fs C)) nxt \<lparr>fs_f = frame, fs_s = slot\<rparr> \<le> B"
    "valid_tda (p_tda_info (round_pass P frame slot tda))"
proof -
  define n where "n = numb_slots_frame (cfg_fs C)"
  let ?cur = "\<lparr>fs_f = frame, fs_s = slot\<rparr>"
  note law' = law [unfolded cell_law_def Let_def, folded n_def]
  note ok = ok [folded n_def]
  note t = choose_tda_some [OF _ c]
  have tdas: "tdas_ok (pc_ul_tda P)" and n: "0 < n" "n \<le> 160" using law' by auto
  define d where "d = fs_get_diff n nxt ?cur"
  have d: "k2 (pc_ul_tda P ! tda) + get_NTN_Koffset (e_lib E) = d" "0 \<le> d" "d \<le> B"
    using t [OF tdas] k law' bspec [of "set (pc_ul_tda P)" "\<lambda>t. k2 t + get_NTN_Koffset (e_lib E) \<le> B" "pc_ul_tda P ! tda"]
    by (auto simp: d_def n_def)
  have small: "d + n \<le> 2 ^ 31" using diff_off(2) [OF ok] n by (simp add: d_def)
  have inv: "fs_add_delta 1024 n d ?cur = nxt"
    using add_diff_inverse [OF ok] d(2) n(2) by (simp add: d_def)
  have "slot + k2 (pc_ul_tda P ! tda) + get_NTN_Koffset (e_lib E) = slot + d" using d(1) by simp
  then show "pass_time E C (round_pass P frame slot tda) = (fs_f nxt, fs_s nxt)"
    using add_delta_eq [OF ok(2) d(2) small] inv law'
    by (auto simp: pass_time_def pusch_time_def round_pass_def n_def [symmetric] Let_def add.assoc)
  have "off n nxt ?cur = d" using diff_off(1) [OF ok] off_bounds [OF ok(1), of ?cur] d(2) by (auto simp: d_def)
  then show "off (numb_slots_frame (cfg_fs C)) nxt ?cur \<le> B" using d(3) by (simp add: n_def)
  show "valid_tda (p_tda_info (round_pass P frame slot tda))" using t(3) [OF tdas] by (simp add: round_pass_def)
qed

lemma ul_pp_round_cases:
  assumes "ul_pp_round E C P obs frame slot max_dci nxt mac = Inr r"
  shows "r = Inl (nxt, mac) \<or>
    (\<exists>k tda len now_ms stat cfg_file sched m. 0 < k \<and>
       k = fs_get_diff (numb_slots_frame (cfg_fs C)) nxt \<lparr>fs_f = frame, fs_s = slot\<rparr> - get_NTN_Koffset (e_lib E) \<and>
       choose_tda E C P mac nxt k = Inr (Some (tda, len)) \<and> obs = (now_ms, stat, cfg_file) \<and>
       pf_ul E C now_ms stat cfg_file (round_pass P frame slot tda) max_dci (\<lambda>_. len) mac = Inr (sched, m) \<and>
       r = (if sched = 0 \<and> \<not> last_dl_of C P slot then Inl (nxt, m)
            else Inr (max_dci - sched, fs_add_delta (MAX_FRAME_NUMBER (e_lib E)) (numb_slots_frame (cfg_fs C)) 1 nxt, m)))"
  using assms unfolding ul_pp_round_def Let_def round_pass_def [symmetric]
  by (auto split: if_split_asm sum.split_asm option.split_asm prod.split_asm)

lemma count_tda_error: "count_tda sl ulb k tdas = Inl e \<Longrightarrow> e = AssertTdaFits"
  by (induction sl ulb k tdas rule: count_tda.induct) (auto split: if_splits sum.splits)

lemma get_num_ul_tda_error:
  assumes "tdas_ok tdas" and "get_num_ul_tda sl tdas ulb k = Inl e"
  shows "e = AssertTdaFits"
proof -
  obtain i where i: "first_tda sl ulb k 0 tdas = Inr (Some i)"
    using assms(2) first_tda_no_error [OF assms(1)] by (auto simp: get_num_ul_tda_def split: sum.splits option.splits)
  have "i < length tdas" using first_tda_Some [OF i] by auto
  then show ?thesis
    using assms(2) i count_tda_run [of sl ulb k "drop (i + 1) tdas"]
    by (force simp: get_num_ul_tda_def Let_def dest: count_tda_error split: sum.splits if_splits)
qed

text \<open>With an ordered TDA list the only assertion that can fail is that all TDAs of a k2 fit the slot.\<close>

lemma choose_tda_error:
  assumes law: "cell_law E C P B" and c: "choose_tda E C P mac nxt k = Inl e"
  shows "e = TdaError AssertTdaFits"
proof -
  define sl where "sl = SL_to_bitmap (e_lib E)"
  define ulb where "ulb = slot_ul_bitmap sl (numb_slots_period (cfg_fs C)) (pc_tdd_slot_bitmap P) (fs_s nxt)"
  define vrb where "vrb = (\<lambda>rb. m_vrb_map_UL mac 0 (vrb_buffer_index E (fs_f nxt) (fs_s nxt) * cfg_MAX_BWP_SIZE C + rb))"
  note def = choose_tda_def Let_def sl_def [symmetric] ulb_def [symmetric] vrb_def [symmetric]
  have tdas: "tdas_ok (pc_ul_tda P)" "length (pc_ul_tda P) \<le> 16" using law by (auto simp: cell_law_def Let_def)
  show ?thesis
  proof (cases "get_num_ul_tda sl (pc_ul_tda P) ulb k")
    case (Inl e')
    then show ?thesis using c get_num_ul_tda_error [OF tdas(1) Inl] unfolding def by simp
  next
    case (Inr x)
    then obtain n i where g: "get_num_ul_tda sl (pc_ul_tda P) ulb k = Inr (n, Some i)"
      using c unfolding def by (cases x; cases "snd x") auto
    then have blk: "0 < n" "i + n \<le> length (pc_ul_tda P)"
      using num_ul_tda_block [OF tdas(1), of sl ulb k] by blast+
    let ?tdas = "take n (drop i (pc_ul_tda P))"
    obtain b st len where best: "get_best_ul_tda sl vrb (pc_ulprbbl P) ?tdas 0 (pc_carrierBandwidth P) = Inr (b, st, len)"
    proof -
      have "length ?tdas \<le> 16" using tdas(2) by simp
      then show ?thesis using that by (simp add: get_best_ul_tda_def Let_def)
    qed
    have "b < length ?tdas \<or> b = 0" using get_best_ul_tda_ok [OF best] by (auto simp: choice_ok_def)
    then have "i + b < length (pc_ul_tda P)" using blk by auto
    then have "valid_tda (pc_ul_tda P ! (i + b))" "i + b < 16" using tdas by (auto simp: tdas_ok_def list_all_length)
    then show ?thesis using c unfolding def by (simp add: g best)
  qed
qed

section \<open>The next round\<close>

lemma ul_pp_round_next:
  assumes law: "cell_law E C P B" and ok: "fs_ok (numb_slots_frame (cfg_fs C)) nxt"
      "fs_ok (numb_slots_frame (cfg_fs C)) \<lparr>fs_f = frame, fs_s = slot\<rparr>"
    and r: "ul_pp_round E C P obs frame slot max_dci nxt mac = Inr (Inr (max_dci', nxt', mac'))"
  shows "fs_ok (numb_slots_frame (cfg_fs C)) nxt'"
    "off (numb_slots_frame (cfg_fs C)) nxt' \<lparr>fs_f = frame, fs_s = slot\<rparr> =
       off (numb_slots_frame (cfg_fs C)) nxt \<lparr>fs_f = frame, fs_s = slot\<rparr> + 1"
    "off (numb_slots_frame (cfg_fs C)) nxt' \<lparr>fs_f = frame, fs_s = slot\<rparr> \<le> B + 1"
proof -
  obtain k tda len where k: "0 < k"
     "k = fs_get_diff (numb_slots_frame (cfg_fs C)) nxt \<lparr>fs_f = frame, fs_s = slot\<rparr> - get_NTN_Koffset (e_lib E)"
     "choose_tda E C P mac nxt k = Inr (Some (tda, len))"
     and nxt': "nxt' = fs_add_delta (MAX_FRAME_NUMBER (e_lib E)) (numb_slots_frame (cfg_fs C)) 1 nxt"
    using ul_pp_round_cases [OF r] by (auto split: if_splits)
  note b = pass_on_time(2) [OF law ok k]
  have law': "MAX_FRAME_NUMBER (e_lib E) = 1024" "B + numb_slots_frame (cfg_fs C) < 512 * numb_slots_frame (cfg_fs C)"
    "0 < numb_slots_frame (cfg_fs C)" "numb_slots_frame (cfg_fs C) \<le> 160"
    using law by (auto simp: cell_law_def Let_def)
  then have small: "1 + numb_slots_frame (cfg_fs C) \<le> 2 ^ 31" by simp
  show "fs_ok (numb_slots_frame (cfg_fs C)) nxt'"
    using add_delta_ok_tick(1) [OF ok(1) _ small] by (simp add: nxt' law'(1))
  show o: "off (numb_slots_frame (cfg_fs C)) nxt' \<lparr>fs_f = frame, fs_s = slot\<rparr> =
      off (numb_slots_frame (cfg_fs C)) nxt \<lparr>fs_f = frame, fs_s = slot\<rparr> + 1"
    using off_add_small [OF ok(1) _ small] b law' by (simp add: nxt')
  show "off (numb_slots_frame (cfg_fs C)) nxt' \<lparr>fs_f = frame, fs_s = slot\<rparr> \<le> B + 1" using o b by simp
qed

section \<open>What a slot schedules\<close>

text \<open>
  The passes of one slot, each with the PDUs it requests: every pass is a run that starts with the
  policy table reloaded and schedules for an uplink slot.
\<close>

inductive ul_passes ::
    "('q, 'x) ul_env \<Rightarrow> ul_cfg \<Rightarrow> int \<Rightarrow> int \<Rightarrow> ('q, 'x) ul_mac \<Rightarrow> (ul_pass \<times> ul_pdu list) list \<Rightarrow> ('q, 'x) ul_mac \<Rightarrow> bool"
  for E C frame slot mac where
  none: "ul_passes E C frame slot mac [] mac"
| pass: "\<lbrakk>ul_passes E C frame slot mac xs m; p_frame p = frame; p_slot p = slot; is_ul_slot E (snd (pass_time E C p));
     ul_run E C p (la_reloaded now_ms stat cfg_file m) ps m'\<rbrakk>
    \<Longrightarrow> ul_passes E C frame slot mac (xs @ [(p, ps)]) m'"

definition num_pdus :: "(ul_pass \<times> ul_pdu list) list \<Rightarrow> int" where
  "num_pdus xs = (\<Sum>x \<leftarrow> xs. int (length (snd x)))"

lemma num_pdus_simps [simp]: "num_pdus [] = 0" "num_pdus (xs @ [(p, ps)]) = num_pdus xs + int (length ps)"
  by (simp_all add: num_pdus_def)

lemma ul_pp_round_pass:
  assumes law: "cell_law E C P B" and ok: "fs_ok (numb_slots_frame (cfg_fs C)) nxt"
      "fs_ok (numb_slots_frame (cfg_fs C)) \<lparr>fs_f = frame, fs_s = slot\<rparr>" "is_ul_slot E (fs_s nxt)"
    and laws: "beam_law E (pc_num_beams P)" "qsort_members E" and pos: "0 \<le> max_dci"
    and xs: "ul_passes E C frame slot mac0 xs mac"
    and pf: "0 < k" "k = fs_get_diff (numb_slots_frame (cfg_fs C)) nxt \<lparr>fs_f = frame, fs_s = slot\<rparr> - get_NTN_Koffset (e_lib E)"
      "choose_tda E C P mac nxt k = Inr (Some (tda, len))"
      "pf_ul E C now_ms stat cfg_file (round_pass P frame slot tda) max_dci rbs mac = Inr (sched, m)"
  shows "\<exists>ps. ul_passes E C frame slot mac0 (xs @ [(round_pass P frame slot tda, ps)]) m \<and> sched = int (length ps) \<and>
    (pc_num_beams P = 1 \<longrightarrow> sched \<le> max_dci)"
proof -
  let ?p = "round_pass P frame slot tda"
  have p: "p_num_beams ?p = pc_num_beams P" "p_frame ?p = frame" "p_slot ?p = slot" by (simp_all add: round_pass_def)
  note t = pass_on_time(1) [OF law ok(1,2) pf(1-3)]
  have b: "beam_law E (p_num_beams ?p)" using laws(1) p by simp
  from pf_ul_is_run [OF b laws(2) pos pf(4)] obtain ps where
    "ul_run E C ?p (la_reloaded now_ms stat cfg_file mac) ps m" "sched = int (length ps)"
    "pc_num_beams P = 1 \<longrightarrow> sched \<le> max_dci" using p by auto
  then show ?thesis using ul_passes.pass [OF xs p(2,3)] t ok(3) by (intro exI [of _ ps]) auto
qed

text \<open>What is known when the loop returns.\<close>

definition slot_result ::
    "('q, 'x) ul_env \<Rightarrow> ul_cfg \<Rightarrow> ul_pp_cfg \<Rightarrow> int \<Rightarrow> int \<Rightarrow> int \<Rightarrow> int \<Rightarrow> bool \<Rightarrow> ('q, 'x) ul_mac \<Rightarrow> (ul_pass \<times> ul_pdu list) list \<Rightarrow>
     ul_pp_error + (fsn_t \<times> ('q, 'x) ul_mac) \<Rightarrow> bool" where
  "slot_result E C P B frame slot max_dci near mac xs r \<longleftrightarrow>
     (case r of
        Inl e \<Rightarrow> e = TdaError AssertTdaFits \<or> (\<not> near \<and> e = AssertK2) \<or> (\<exists>e'. e = PfError e' \<and> e' \<notin> pf_ul_asserts)
      | Inr (nxt', mac') \<Rightarrow>
          fs_ok (numb_slots_frame (cfg_fs C)) nxt' \<and>
          (near \<longrightarrow> next_near E C P B \<lparr>fs_f = frame, fs_s = slot\<rparr> nxt' \<and>
             min_rxtx E P \<le> off (numb_slots_frame (cfg_fs C)) nxt' \<lparr>fs_f = frame, fs_s = slot\<rparr>) \<and>
          (\<exists>ys. ul_passes E C frame slot mac (xs @ ys) mac' \<and>
             (pc_num_beams P = 1 \<longrightarrow> num_pdus ys \<le> max 0 max_dci)))"

lemma slot_result_round:
  assumes law: "cell_law E C P B" and cur: "fs_ok (numb_slots_frame (cfg_fs C)) \<lparr>fs_f = frame, fs_s = slot\<rparr>"
    and laws: "beam_law E (pc_num_beams P)" "qsort_members E"
    and nxt: "fs_ok (numb_slots_frame (cfg_fs C)) nxt" and xs: "ul_passes E C frame slot mac0 xs mac" and pos: "0 < max_dci"
    and near: "near \<Longrightarrow> next_near E C P B \<lparr>fs_f = frame, fs_s = slot\<rparr> nxt \<or> next_behind E C P \<lparr>fs_f = frame, fs_s = slot\<rparr> nxt"
    and r: "round_slot E C P \<lparr>fs_f = frame, fs_s = slot\<rparr> nxt = Some r"
  shows "case ul_pp_round E C P obs frame slot max_dci r mac of
      Inl e \<Rightarrow> slot_result E C P B frame slot max_dci near mac0 xs (Inl e)
    | Inr (Inl res) \<Rightarrow> slot_result E C P B frame slot max_dci near mac0 xs (Inr res)
    | Inr (Inr (d, nxt', mac')) \<Rightarrow>
        fs_ok (numb_slots_frame (cfg_fs C)) nxt' \<and>
        next_near E C P B \<lparr>fs_f = frame, fs_s = slot\<rparr> nxt' \<and>
        min_rxtx E P \<le> off (numb_slots_frame (cfg_fs C)) nxt' \<lparr>fs_f = frame, fs_s = slot\<rparr> \<and>
        (\<exists>p ps. ul_passes E C frame slot mac0 (xs @ [(p, ps)]) mac' \<and> d = max_dci - int (length ps) \<and>
          (pc_num_beams P = 1 \<longrightarrow> 0 \<le> d))"
proof -
  let ?n = "numb_slots_frame (cfg_fs C)" and ?cur = "\<lparr>fs_f = frame, fs_s = slot\<rparr>"
  have rs: "fs_ok ?n r" "is_ul_slot E (fs_s r)" "min_rxtx E P \<le> off ?n r ?cur"
    using round_slot_some [OF law nxt cur] r by auto
  have rn: "near \<Longrightarrow> next_near E C P B ?cur r \<and> get_NTN_Koffset (e_lib E) < fs_get_diff ?n r ?cur"
    using round_slot_near [OF law nxt cur near r] rs(2) by (auto simp: next_near_def Let_def)
  note ok = rs(1) cur rs(2)
  have pos': "0 \<le> max_dci" using pos by simp
  show ?thesis
  proof (cases "ul_pp_round E C P obs frame slot max_dci r mac")
    case (Inl e)
    have "e = TdaError AssertTdaFits \<or> (\<not> near \<and> e = AssertK2) \<or> (\<exists>e'. e = PfError e' \<and> e' \<notin> pf_ul_asserts)"
    proof -
      let ?k = "fs_get_diff ?n r ?cur - get_NTN_Koffset (e_lib E)"
      consider (k2) "e = AssertK2" "\<not> 0 < ?k" | (tda) "choose_tda E C P mac r ?k = Inl e"
        | (pf) tda len now_ms stat cfg_file e' where "0 < ?k" "choose_tda E C P mac r ?k = Inr (Some (tda, len))"
          "pf_ul E C now_ms stat cfg_file (round_pass P frame slot tda) max_dci (\<lambda>_. len) mac = Inl e'" "e = PfError e'"
        using Inl unfolding ul_pp_round_def Let_def round_pass_def [symmetric]
        by (auto split: if_split_asm sum.split_asm option.split_asm prod.split_asm)
      then show ?thesis
      proof cases
        case k2
        then show ?thesis using rn by auto
      next
        case tda
        then show ?thesis using choose_tda_error [OF law] by blast
      next
        case pf
        note t = pass_on_time [OF law ok(1,2) pf(1) refl pf(2)]
        have b: "beam_law E (p_num_beams (round_pass P frame slot tda))" using laws(1) by (simp add: round_pass_def)
        have "e' \<notin> pf_ul_asserts"
          using pf_ul_count [OF b laws(2) pos'] t(1,3) ok(3) pf(3) by (metis snd_conv)
        then show ?thesis using pf(4) by blast
      qed
    qed
    then show ?thesis using Inl by (simp add: slot_result_def)
  next
    case (Inr res)
    show ?thesis
    proof (cases "res = Inl (r, mac)")
      case True
      then show ?thesis using Inr rs rn xs by (auto simp: slot_result_def intro!: exI [of _ "[]"])
    next
      case False
      then obtain k tda len now_ms stat cfg_file sched m where k: "0 < k"
        "k = fs_get_diff ?n r ?cur - get_NTN_Koffset (e_lib E)" "choose_tda E C P mac r k = Inr (Some (tda, len))"
        "pf_ul E C now_ms stat cfg_file (round_pass P frame slot tda) max_dci (\<lambda>_. len) mac = Inr (sched, m)"
        "res = (if sched = 0 \<and> \<not> last_dl_of C P slot then Inl (r, m)
            else Inr (max_dci - sched, fs_add_delta (MAX_FRAME_NUMBER (e_lib E)) ?n 1 r, m))"
        using ul_pp_round_cases [OF Inr] by blast
      obtain ps where ps: "ul_passes E C frame slot mac0 (xs @ [(round_pass P frame slot tda, ps)]) m"
        "sched = int (length ps)" "pc_num_beams P = 1 \<longrightarrow> sched \<le> max_dci"
        using ul_pp_round_pass [OF law ok laws pos' xs k(1-4)] by blast
      show ?thesis
      proof (cases "sched = 0 \<and> \<not> last_dl_of C P slot")
        case True
        then have "num_pdus [(round_pass P frame slot tda, ps)] \<le> max 0 max_dci" using ps pos by (simp add: num_pdus_def)
        then show ?thesis using Inr k(5) True rs rn ps
          by (auto simp: slot_result_def intro!: exI [of _ "[(round_pass P frame slot tda, ps)]"])
      next
        case False
        then have eq: "ul_pp_round E C P obs frame slot max_dci r mac =
            Inr (Inr (max_dci - sched, fs_add_delta (MAX_FRAME_NUMBER (e_lib E)) ?n 1 r, m))" using Inr k(5) by simp
        note nx = ul_pp_round_next [OF law ok(1,2) eq]
        show ?thesis using eq nx rs(3) ps by (auto simp: next_near_def Let_def)
      qed
    qed
  qed
qed

lemma slot_result_more:
  assumes "slot_result E C P B frame slot d near mac (xs @ [(p, ps)]) r" and "d = max_dci - int (length ps)"
    and "pc_num_beams P = 1 \<longrightarrow> 0 \<le> d"
  shows "slot_result E C P B frame slot max_dci near mac xs r"
proof (cases r)
  case (Inl e)
  then show ?thesis using assms by (simp add: slot_result_def)
next
  case (Inr y)
  obtain nxt' mac' where y: "y = (nxt', mac')" by fastforce
  obtain ys where ys: "ul_passes E C frame slot mac (xs @ ((p, ps) # ys)) mac'" "pc_num_beams P = 1 \<longrightarrow> num_pdus ys \<le> max 0 d"
    using assms(1) Inr y by (auto simp: slot_result_def)
  have "pc_num_beams P = 1 \<longrightarrow> num_pdus ((p, ps) # ys) \<le> max 0 max_dci"
    using ys(2) assms(2,3) by (auto simp: num_pdus_def)
  then show ?thesis using assms(1) ys(1) Inr y by (auto simp: slot_result_def intro!: exI [of _ "(p, ps) # ys"])
qed

lemma slot_result_done:
  assumes "fs_ok (numb_slots_frame (cfg_fs C)) nxt" and "ul_passes E C frame slot mac0 xs mac"
    and "near \<Longrightarrow> next_near E C P B \<lparr>fs_f = frame, fs_s = slot\<rparr> nxt \<and>
      min_rxtx E P \<le> off (numb_slots_frame (cfg_fs C)) nxt \<lparr>fs_f = frame, fs_s = slot\<rparr>"
  shows "slot_result E C P B frame slot max_dci near mac0 xs (Inr (nxt, mac))"
  using assms by (auto simp: slot_result_def intro!: exI [of _ "[]"])

lemma slot_result_weaken: "slot_result E C P B frame slot d True mac xs r \<Longrightarrow> slot_result E C P B frame slot d near mac xs r"
  by (auto simp: slot_result_def split: sum.splits)

text \<open>
  The loop from the second round on: every further round looks at a later slot, and the TDAs reach
  only \<open>B\<close> slots ahead.
\<close>

lemma ul_pp_loop_near:
  assumes law: "cell_law E C P B" and cur: "fs_ok (numb_slots_frame (cfg_fs C)) \<lparr>fs_f = frame, fs_s = slot\<rparr>"
    and laws: "beam_law E (pc_num_beams P)" "qsort_members E"
  shows "fs_ok (numb_slots_frame (cfg_fs C)) nxt \<Longrightarrow> ul_passes E C frame slot mac0 xs mac \<Longrightarrow>
    min_rxtx E P < off (numb_slots_frame (cfg_fs C)) nxt \<lparr>fs_f = frame, fs_s = slot\<rparr> \<Longrightarrow>
    off (numb_slots_frame (cfg_fs C)) nxt \<lparr>fs_f = frame, fs_s = slot\<rparr> \<le> B + 1 \<Longrightarrow>
    nat (B + 2 - off (numb_slots_frame (cfg_fs C)) nxt \<lparr>fs_f = frame, fs_s = slot\<rparr>) \<le> m \<Longrightarrow>
    \<exists>res. ul_pp_loop E C P obs frame slot k max_dci nxt mac = Some res \<and>
      slot_result E C P B frame slot max_dci True mac0 xs res"
proof (induction m arbitrary: k max_dci nxt mac xs)
  case 0
  then show ?case by simp
next
  case (Suc m)
  let ?n = "numb_slots_frame (cfg_fs C)" and ?cur = "\<lparr>fs_f = frame, fs_s = slot\<rparr>"
  have near: "next_near E C P B ?cur nxt" using Suc.prems by (simp add: next_near_def)
  show ?case
  proof (cases "0 < max_dci")
    case False
    then show ?thesis
      using slot_result_done [OF Suc.prems(1,2)] near Suc.prems(3) by (subst ul_pp_loop_step) simp
  next
    case True
    obtain r where r: "round_slot E C P ?cur nxt = Some r" "fs_ok ?n r" "off ?n nxt ?cur \<le> off ?n r ?cur"
      using round_slot_some [OF law Suc.prems(1) cur] Suc.prems(3,4) by blast
    note round = slot_result_round [OF law cur laws Suc.prems(1,2) True _ r(1), of True "obs k"]
    show ?thesis
    proof (cases "\<exists>d x m'. ul_pp_round E C P (obs k) frame slot max_dci r mac = Inr (Inr (d, x, m'))")
      case False
      then show ?thesis
        using round near True r(1) by (subst ul_pp_loop_step) (auto split: sum.split_asm sum.split)
    next
      case True
      then obtain d x m' where g: "ul_pp_round E C P (obs k) frame slot max_dci r mac = Inr (Inr (d, x, m'))" by blast
      note nx = ul_pp_round_next [OF law r(2) cur g]
      obtain p ps where ps: "ul_passes E C frame slot mac0 (xs @ [(p, ps)]) m'" "d = max_dci - int (length ps)"
        "pc_num_beams P = 1 \<longrightarrow> 0 \<le> d" using round near g by auto
      obtain res where res: "ul_pp_loop E C P obs frame slot (k + 1) d x m' = Some res"
        "slot_result E C P B frame slot d True mac0 (xs @ [(p, ps)]) res"
        using Suc.IH [OF nx(1) ps(1) _ nx(3)] nx(2) r(3) Suc.prems(3,5) by fastforce
      then show ?thesis
        using \<open>0 < max_dci\<close> r(1) g slot_result_more [OF res(2) ps(2,3)] by (subst ul_pp_loop_step) simp
    qed
  qed
qed

lemma ul_pp_loop_result:
  assumes law: "cell_law E C P B" and cur: "fs_ok (numb_slots_frame (cfg_fs C)) \<lparr>fs_f = frame, fs_s = slot\<rparr>"
    and laws: "beam_law E (pc_num_beams P)" "qsort_members E" and nxt: "fs_ok (numb_slots_frame (cfg_fs C)) nxt"
    and near: "near \<Longrightarrow> next_near E C P B \<lparr>fs_f = frame, fs_s = slot\<rparr> nxt \<or> next_behind E C P \<lparr>fs_f = frame, fs_s = slot\<rparr> nxt"
    and pos: "0 < max_dci"
  shows "\<exists>res. ul_pp_loop E C P obs frame slot k max_dci nxt mac = Some res \<and>
    slot_result E C P B frame slot max_dci near mac [] res"
proof -
  let ?n = "numb_slots_frame (cfg_fs C)" and ?cur = "\<lparr>fs_f = frame, fs_s = slot\<rparr>"
  have none: "ul_passes E C frame slot mac [] mac" by (rule ul_passes.none)
  obtain r where r: "round_slot E C P ?cur nxt = Some r" "fs_ok ?n r" "min_rxtx E P \<le> off ?n r ?cur"
    using round_slot_some [OF law nxt cur] by blast
  note round = slot_result_round [where near = near and obs = "obs k", OF law cur laws nxt none pos near r(1)]
  show ?thesis
  proof (cases "\<exists>d x m'. ul_pp_round E C P (obs k) frame slot max_dci r mac = Inr (Inr (d, x, m'))")
    case False
    then show ?thesis
      using round pos r(1) by (subst ul_pp_loop_step) (auto split: sum.split_asm sum.split)
  next
    case True
    then obtain d x m' where g: "ul_pp_round E C P (obs k) frame slot max_dci r mac = Inr (Inr (d, x, m'))" by blast
    note nx = ul_pp_round_next [OF law r(2) cur g]
    obtain p ps where ps: "ul_passes E C frame slot mac [(p, ps)] m'" "d = max_dci - int (length ps)"
      "pc_num_beams P = 1 \<longrightarrow> 0 \<le> d" using round g by auto
    obtain res where res: "ul_pp_loop E C P obs frame slot (k + 1) d x m' = Some res"
      "slot_result E C P B frame slot d True mac [(p, ps)] res"
      using ul_pp_loop_near [OF law cur laws nx(1) ps(1) _ nx(3) order_refl] nx(2) r(3) by fastforce
    have "slot_result E C P B frame slot max_dci near mac [] res"
      using slot_result_more [of E C P B frame slot d True mac "[]" p ps res max_dci] res(2) ps(2,3) slot_result_weaken
      by (metis append_Nil)
    then show ?thesis using pos r(1) g res(1) by (subst ul_pp_loop_step) simp
  qed
qed

section \<open>HARQ processes over a slot\<close>

lemma ul_passes_harq:
  assumes laws: "nr_list_laws (e_lists E) elems" "\<not> cfg_disable_harq C" "0 < cfg_harq_round_max C" "k \<le> 128"
    and run: "ul_passes E C frame slot mac xs m" and start: "ues_inv elems k (cfg_harq_round_max C) mac"
  shows "ues_inv elems k (cfg_harq_round_max C) m \<and> m_assoc m = m_assoc mac \<and>
    (\<forall>x \<in> set xs. list_all (pdu_ok (m_assoc mac) (cfg_harq_round_max C)) (snd x))"
  using run
proof (induction rule: ul_passes.induct)
  case none
  then show ?case using start by simp
next
  case (pass xs m p now_ms stat cfg_file ps m')
  let ?m = "la_reloaded now_ms stat cfg_file m"
  have m: "ues_inv elems k (cfg_harq_round_max C) ?m" "m_assoc ?m = m_assoc mac"
    using pass(6) by (auto simp: la_reloaded_def ues_inv_def)
  show ?case
    using run_harq [OF laws pass(5) m(1)] run_has_effect [OF pass(5)] pass(6) m(2) by (auto simp: run_effect_def)
qed

section \<open>From slot to slot\<close>

text \<open>A slot leaves \<^verbatim>\<open>ul_next\<close> where the next slot can start from.\<close>

lemma next_near_next_slot:
  assumes law: "cell_law E C P B" and cur: "fs_ok (numb_slots_frame (cfg_fs C)) cur"
    and near: "next_near E C P B cur nxt" "min_rxtx E P \<le> off (numb_slots_frame (cfg_fs C)) nxt cur"
    and nxt: "fs_ok (numb_slots_frame (cfg_fs C)) nxt"
  shows "next_near E C P B (fs_add_delta 1024 (numb_slots_frame (cfg_fs C)) 1 cur) nxt"
proof -
  let ?n = "numb_slots_frame (cfg_fs C)"
  have n: "0 < ?n" "?n \<le> 160" "0 < min_rxtx E P"
    using law by (auto simp: cell_law_def Let_def min_rxtx_def)
  then have small: "1 + ?n \<le> 2 ^ 31" by simp
  let ?cur = "fs_add_delta 1024 ?n 1 cur"
  note t = add_delta_ok_tick [OF cur zero_le_one small]
  have "off ?n nxt cur = (off ?n nxt ?cur + 1) mod (1024 * ?n)"
    unfolding off_def t(2) mod_diff_right_eq mod_add_left_eq by simp
  then have "off ?n nxt ?cur + 1 = off ?n nxt cur \<or> off ?n nxt cur = 0"
    using off_bounds [OF nxt, of ?cur] by (cases "off ?n nxt ?cur + 1 = 1024 * ?n") auto
  then have "off ?n nxt ?cur \<le> off ?n nxt cur" using near(2) n by auto
  then show ?thesis using near(1) by (auto simp: next_near_def Let_def)
qed

section \<open>A cell to instantiate the properties on\<close>

definition ul_pp_example :: ul_pp_cfg where
  "ul_pp_example = \<lparr>pc_minRXTXTIME = 2, pc_num_beams = 1, pc_carrierBandwidth = 24, pc_NR_NB_REG_PER_CCE = 6,
     pc_MAX_DCI_CORESET = 10, pc_num_dl_slots = 7,
     pc_tdd_slot_bitmap = (\<lambda>s. \<lparr>slot_kind = TDD_NR_UPLINK_SLOT, num_ul_symbols = 14\<rparr>),
     pc_ul_tda = [tda_example], pc_ulprbbl = (\<lambda>rb. 0), is_dl_slot = (\<lambda>s. s < 7)\<rparr>"

lemma ul_pp_sel:
  "pc_carrierBandwidth ul_pp_example = 24" "pc_MAX_DCI_CORESET ul_pp_example = 10" "pc_NR_NB_REG_PER_CCE ul_pp_example = 6"
  "is_dl_slot ul_pp_example s = (s < 7)" "pc_ul_tda ul_pp_example = [tda_example]" "pc_ulprbbl ul_pp_example = (\<lambda>rb. 0)"
  "pc_tdd_slot_bitmap ul_pp_example = (\<lambda>s. \<lparr>slot_kind = TDD_NR_UPLINK_SLOT, num_ul_symbols = 14\<rparr>)"
  "pc_minRXTXTIME ul_pp_example = 2" "pc_num_beams ul_pp_example = 1" "pc_num_dl_slots ul_pp_example = 7"
  by (simp_all add: ul_pp_example_def)

lemma ul_pp_example_law: "cell_law ul_env_example ul_cfg_example ul_pp_example 3"
  by (auto simp: cell_law_def min_rxtx_def ul_pp_example_def ul_example_sel ul_lib_example_def tdas_ok_def
      tda_example_def intro: exI [of _ 3])

lemma ul_pp_example_beams: "beam_law ul_env_example (pc_num_beams ul_pp_example)"
  by (simp add: ul_pp_example_def beam_law_def ul_example_sel)

lemma ul_pp_example_run:
  "\<exists>mac'. nr_ulsch_preprocessor ul_env_example ul_cfg_example ul_pp_example (\<lambda>k. (0, None, None)) 1 0
     \<lparr>fs_f = 0, fs_s = 0\<rparr> ul_mac_example = Some (Inr (\<lparr>fs_f = 1, fs_s = 4\<rparr>, mac')) \<and>
   m_ul_req mac' 3 \<noteq> []"
proof -
  let ?E = ul_env_example and ?C = ul_cfg_example and ?P = ul_pp_example
  have skip: "round_slot ?E ?C ?P \<lparr>fs_f = 1, fs_s = 0\<rparr> \<lparr>fs_f = 0, fs_s = 0\<rparr> = Some \<lparr>fs_f = 1, fs_s = 3\<rparr>"
  proof -
    have "fs_get_max 20 \<lparr>fs_f = 0, fs_s = 0\<rparr> (fs_add_delta 1024 20 2 \<lparr>fs_f = 1, fs_s = 0\<rparr>) = \<lparr>fs_f = 1, fs_s = 2\<rparr>"
      "fs_add_delta 1024 20 1 \<lparr>fs_f = 1, fs_s = 2\<rparr> = \<lparr>fs_f = 1, fs_s = 3\<rparr>" by code_simp+
    moreover have "skip_to_ul u 1024 20 \<lparr>fs_f = 1, fs_s = 2\<rparr> = Some \<lparr>fs_f = 1, fs_s = 3\<rparr>"
      if "\<not> u 2" "u 3" "fs_add_delta 1024 20 1 \<lparr>fs_f = 1, fs_s = 2\<rparr> = \<lparr>fs_f = 1, fs_s = 3\<rparr>" for u
      using that by (subst skip_to_ul.simps, subst skip_to_ul.simps) simp
    ultimately show ?thesis
      by (simp add: round_slot_def ul_example_sel min_rxtx_def ul_pp_sel ul_lib_example_def Let_def)
  qed
  have choose: "choose_tda ?E ?C ?P ul_mac_example \<lparr>fs_f = 1, fs_s = 3\<rparr> 3 = Inr (Some (0, 24))"
  proof -
    have "get_num_ul_tda sl_example [tda_example]
        (slot_ul_bitmap sl_example 10 (\<lambda>s. \<lparr>slot_kind = TDD_NR_UPLINK_SLOT, num_ul_symbols = 14\<rparr>) 3) 3 = Inr (1, Some 0)"
      by code_simp
    moreover have "get_best_ul_tda sl_example (\<lambda>rb. 0) (\<lambda>rb. 0) [tda_example] 0 24 = Inr (0, 0, 24)" by code_simp
    moreover have "valid_tda tda_example" by (simp add: tda_example_def)
    ultimately show ?thesis by (simp add: choose_tda_def ul_example_sel ul_pp_sel ul_lib_example_def Let_def)
  qed
  have pass: "round_pass ?P 1 0 0 = ul_pass_example" by (simp add: round_pass_def ul_pp_example_def ul_pass_example_def)
  obtain mac' where pf: "pf_ul ?E ?C 0 None None ul_pass_example 1 (\<lambda>b. 24) ul_mac_example = Inr (1, mac')"
    using pf_ul_example_any [of 1 24 "\<lambda>x ue s h. ()" "()"] by auto
  have stop: "ul_pp_loop ?E ?C ?P obs f s k 0 nxt mac = Some (Inr (nxt, mac))" for obs f s k nxt mac
    by (subst ul_pp_loop.simps) simp
  have "ul_pp_round ?E ?C ?P (0, None, None) 1 0 1 \<lparr>fs_f = 1, fs_s = 3\<rparr> ul_mac_example = Inr (Inr (0, \<lparr>fs_f = 1, fs_s = 4\<rparr>, mac'))"
    using choose pf unfolding ul_pp_round_def Let_def round_pass_def [symmetric]
    by (simp add: ul_example_sel ul_pp_sel ul_lib_example_def fs_get_diff_def fs_add_delta_def pass)
  then have "nr_ulsch_preprocessor ?E ?C ?P (\<lambda>k. (0, None, None)) 1 0 \<lparr>fs_f = 0, fs_s = 0\<rparr> ul_mac_example =
      Some (Inr (\<lparr>fs_f = 1, fs_s = 4\<rparr>, mac'))"
    unfolding nr_ulsch_preprocessor_def
    by (subst ul_pp_loop_step, subst skip) (simp add: max_dci_of_def ul_pp_sel stop)
  moreover have "m_ul_req mac' 3 \<noteq> []"
  proof -
    have ix: "pass_index ?E ?C ul_pass_example = 3"
      by (simp add: pass_index_def pass_time_def pusch_time_def ul_example_sel ul_lib_example_def tda_example_def)
    have "(0 :: int) \<le> 1" by simp
    from pf_ul_is_run [OF ul_example_laws(1,2) this pf] obtain ps where
      ps: "ul_run ?E ?C ul_pass_example (la_reloaded 0 None None ul_mac_example) ps mac'" "1 = int (length ps)" by blast
    have "m_ul_req mac' = (m_ul_req (la_reloaded 0 None None ul_mac_example))(3 :=
        m_ul_req (la_reloaded 0 None None ul_mac_example) 3 @ ps)"
      using run_has_effect [OF ps(1)] unfolding run_effect_def ix by blast
    then show ?thesis using ps(2) by auto
  qed
  ultimately show ?thesis by blast
qed

section \<open>Properties\<close>

text \<open>
  C31. The uplink scheduler of a slot always returns: the search for the next uplink slot ends within
  a frame, and the loop over the reachable uplink slots ends although a round that schedules nothing
  does not always leave it, because every further round looks at a later slot and the TDAs reach only
  a bounded number of slots ahead.
\<close>

theorem ul_slot_terminates:
  assumes "cell_law E C P B" and "beam_law E (pc_num_beams P)" and "qsort_members E"
    and "fs_ok (numb_slots_frame (cfg_fs C)) \<lparr>fs_f = frame, fs_s = slot\<rparr>" and "fs_ok (numb_slots_frame (cfg_fs C)) ul_next"
  shows "\<exists>res. nr_ulsch_preprocessor E C P obs frame slot ul_next mac = Some res"
proof (cases "0 < max_dci_of P")
  case True
  then show ?thesis
    using ul_pp_loop_result [where near = False, OF assms(1,4,2,3,5) _ True, of obs 0 mac] by (auto simp: nr_ulsch_preprocessor_def)
next
  case False
  then show ?thesis by (simp add: nr_ulsch_preprocessor_def ul_pp_loop.simps)
qed

theorem ul_slot_terminates_witness:
  "\<exists>res. nr_ulsch_preprocessor ul_env_example ul_cfg_example ul_pp_example (\<lambda>k. (0, None, None)) 1 0
     \<lparr>fs_f = 0, fs_s = 0\<rparr> ul_mac_example = Some res"
  by (rule ul_slot_terminates [OF ul_pp_example_law ul_pp_example_beams ul_example_laws(2)])
    (simp_all add: fs_ok_def ul_example_sel)

text \<open>
  C0. What the uplink scheduler of a slot does is a sequence of passes of \<^verbatim>\<open>pf_ul\<close>, each for an uplink
  slot that its TDA reaches from the current one; the passes keep the HARQ processes of every UE
  partitioned, every PUSCH they request respects the cap of its slice, and in a cell with one beam they
  request no more PUSCHs together than one slot can carry DCIs.
\<close>

theorem ul_slot_passes:
  assumes "cell_law E C P B" and "beam_law E (pc_num_beams P)" and "qsort_members E"
    and "fs_ok (numb_slots_frame (cfg_fs C)) \<lparr>fs_f = frame, fs_s = slot\<rparr>" and "fs_ok (numb_slots_frame (cfg_fs C)) ul_next"
    and "nr_list_laws (e_lists E) elems" and "\<not> cfg_disable_harq C" and "0 < cfg_harq_round_max C" and "k \<le> 128"
    and "ues_inv elems k (cfg_harq_round_max C) mac"
    and "nr_ulsch_preprocessor E C P obs frame slot ul_next mac = Some (Inr (nxt, mac'))"
  shows "\<exists>xs. ul_passes E C frame slot mac xs mac' \<and> ues_inv elems k (cfg_harq_round_max C) mac' \<and>
    (\<forall>x \<in> set xs. list_all (pdu_ok (m_assoc mac) (cfg_harq_round_max C)) (snd x)) \<and>
    (pc_num_beams P = 1 \<longrightarrow> num_pdus xs \<le> max 0 (max_dci_of P))"
proof (cases "0 < max_dci_of P")
  case True
  then obtain xs where "ul_passes E C frame slot mac xs mac'" "pc_num_beams P = 1 \<longrightarrow> num_pdus xs \<le> max 0 (max_dci_of P)"
    using ul_pp_loop_result [where near = False, OF assms(1,4,2,3,5) _ True, of obs 0 mac] assms(11)
    by (auto simp: nr_ulsch_preprocessor_def slot_result_def)
  then show ?thesis using ul_passes_harq [OF assms(6-9) _ assms(10)] by (intro exI [of _ xs]) auto
next
  case False
  then have "mac' = mac" using assms(11) by (simp add: nr_ulsch_preprocessor_def ul_pp_loop.simps)
  then show ?thesis using assms(10) ul_passes.none by (intro exI [of _ "[]"]) simp
qed

theorem ul_slot_passes_witness:
  "\<exists>mac' xs. ul_passes ul_env_example ul_cfg_example 1 0 ul_mac_example xs mac' \<and> m_ul_req mac' 3 \<noteq> [] \<and> num_pdus xs \<le> 1"
proof -
  obtain mac' where run: "nr_ulsch_preprocessor ul_env_example ul_cfg_example ul_pp_example (\<lambda>k. (0, None, None)) 1 0
     \<lparr>fs_f = 0, fs_s = 0\<rparr> ul_mac_example = Some (Inr (\<lparr>fs_f = 1, fs_s = 4\<rparr>, mac'))" and req: "m_ul_req mac' 3 \<noteq> []"
    using ul_pp_example_run by blast
  have "harq_inv (\<lambda>q. q) 2 4 {} (ul_example [0, 1] [] [])" by (auto simp: harq_inv_def ul_example_def Let_def)
  then have "ues_inv (\<lambda>q. q) 2 (cfg_harq_round_max ul_cfg_example) ul_mac_example" by (simp add: ues_inv_def ul_example_sel)
  moreover have "fs_ok 20 \<lparr>fs_f = 1, fs_s = 0\<rparr>" "fs_ok 20 \<lparr>fs_f = 0, fs_s = 0\<rparr>" by (simp_all add: fs_ok_def)
  moreover have "pc_num_beams ul_pp_example = 1" "max_dci_of ul_pp_example = 1"
    by (simp_all add: ul_pp_example_def max_dci_of_def)
  ultimately show ?thesis
    using ul_slot_passes [OF ul_pp_example_law ul_pp_example_beams ul_example_laws(2) _ _ ul_example_laws(3) _ _ _ _ run, of 2] req
    by (auto simp: ul_example_sel)
qed

text \<open>
  C0. The only assertion of \<^verbatim>\<open>nr_ulsch_preprocessor\<close> that can fail is that all TDAs of a k2 fit the
  uplink symbols of the slot, and the errors inside \<^verbatim>\<open>pf_ul\<close> are not its own assertions, as long as
  \<^verbatim>\<open>ul_next\<close> starts near the current slot; it then ends near it too, also seen from the next slot.
\<close>

theorem ul_slot_asserts:
  assumes "cell_law E C P B" and "beam_law E (pc_num_beams P)" and "qsort_members E" and "0 < max_dci_of P"
    and "fs_ok (numb_slots_frame (cfg_fs C)) \<lparr>fs_f = frame, fs_s = slot\<rparr>" and "fs_ok (numb_slots_frame (cfg_fs C)) ul_next"
    and "next_near E C P B \<lparr>fs_f = frame, fs_s = slot\<rparr> ul_next \<or> next_behind E C P \<lparr>fs_f = frame, fs_s = slot\<rparr> ul_next"
  shows "\<exists>res. nr_ulsch_preprocessor E C P obs frame slot ul_next mac = Some res \<and>
    (case res of
       Inl e \<Rightarrow> e = TdaError AssertTdaFits \<or> (\<exists>e'. e = PfError e' \<and> e' \<notin> {BadTda, NotUlSlot, BadCount})
     | Inr (nxt, mac') \<Rightarrow> next_near E C P B \<lparr>fs_f = frame, fs_s = slot\<rparr> nxt \<and>
         next_near E C P B (fs_add_delta 1024 (numb_slots_frame (cfg_fs C)) 1 \<lparr>fs_f = frame, fs_s = slot\<rparr>) nxt)"
proof -
  obtain res where res: "ul_pp_loop E C P obs frame slot 0 (max_dci_of P) ul_next mac = Some res"
    "slot_result E C P B frame slot (max_dci_of P) True mac [] res"
    using ul_pp_loop_result [where near = True, OF assms(1,5,2,3,6,7,4)] by blast
  then show ?thesis
    using next_near_next_slot [OF assms(1,5)]
    by (auto simp: nr_ulsch_preprocessor_def slot_result_def pf_ul_asserts_def split: sum.splits)
qed

theorem ul_slot_asserts_witness:
  "\<exists>res. nr_ulsch_preprocessor ul_env_example ul_cfg_example ul_pp_example (\<lambda>k. (0, None, None)) 1 0
     \<lparr>fs_f = 0, fs_s = 0\<rparr> ul_mac_example = Some res \<and>
   (case res of
      Inl e \<Rightarrow> e = TdaError AssertTdaFits \<or> (\<exists>e'. e = PfError e' \<and> e' \<notin> {BadTda, NotUlSlot, BadCount})
    | Inr (nxt, mac') \<Rightarrow> next_near ul_env_example ul_cfg_example ul_pp_example 3 \<lparr>fs_f = 1, fs_s = 0\<rparr> nxt)"
proof -
  have "next_behind ul_env_example ul_cfg_example ul_pp_example \<lparr>fs_f = 1, fs_s = 0\<rparr> \<lparr>fs_f = 0, fs_s = 0\<rparr>"
    by (simp add: next_behind_def min_rxtx_def ul_example_sel ul_pp_example_def ul_lib_example_def fs_get_diff_def fs_add_delta_def)
  moreover have "0 < max_dci_of ul_pp_example" by (simp add: max_dci_of_def ul_pp_example_def)
  moreover have "fs_ok 20 \<lparr>fs_f = 1, fs_s = 0\<rparr>" "fs_ok 20 \<lparr>fs_f = 0, fs_s = 0\<rparr>" by (simp_all add: fs_ok_def)
  ultimately show ?thesis
    using ul_slot_asserts [OF ul_pp_example_law ul_pp_example_beams ul_example_laws(2), of 1 0 "\<lparr>fs_f = 0, fs_s = 0\<rparr>"
        "\<lambda>k. (0, None, None)" ul_mac_example]
    by (fastforce simp: ul_example_sel split: sum.splits)
qed

end
