(* ===== verification/UlDci.thy ===== *)
theory UlDci imports UlGuarantees begin

text \<open>
  What a grant puts on the air: the PUSCH PDU (\<^verbatim>\<open>prepare_pusch_pdu\<close>) and the DCI in the PDCCH PDU of the
  UE's CORESET (the end of \<^verbatim>\<open>post_process_ulsch\<close>, \<^verbatim>\<open>gnb_patch/gNB_scheduler_ulsch.c\<close>).
  The scheduler of UlSched calls this part through \<open>emit_dci\<close>; here that parameter is filled in, with
  the part of the opaque rest that it writes, and every pass is shown to announce each of its PUSCHs by one DCI.
  The payload of a DCI and its place in the PDCCH are built by other files (\<open>make_ul_dci\<close>).
\<close>

section \<open>The PUSCH PDU\<close>

record pusch_ptrs_t =
  ptrs_freq_density :: int
  ptrs_time_density :: int
  ptrs_re_offset :: int
  num_ptrs_ports :: int
  ul_ptrs_power :: int

record nfapi_nr_pusch_pdu_t =
  pu_pdu_bit_map :: u16
  pu_rnti :: u16
  pu_handle :: int
  pu_bwp_size :: int
  pu_bwp_start :: int
  pu_subcarrier_spacing :: nat
  pu_cyclic_prefix :: int
  pu_target_code_rate :: u16
  pu_qam_mod_order :: u8
  pu_mcs_index :: int
  pu_mcs_table :: int
  pu_transform_precoding :: bool
  pu_data_scrambling_id :: int
  pu_nrOfLayers :: int
  pu_num_dmrs_cdm_grps_no_data :: int
  pu_dmrs_ports :: int
  pu_ul_dmrs_symb_pos :: int
  pu_dmrs_config_type :: int
  pu_scid :: int
  pu_pusch_identity :: int
  pu_ul_dmrs_scrambling_id :: int
  pu_resource_alloc :: int
  pu_rb_start :: int
  pu_rb_size :: int
  pu_vrb_to_prb_mapping :: int
  pu_frequency_hopping :: bool
  pu_start_symbol_index :: int
  pu_nr_of_symbols :: int
  pu_rv_index :: int
  pu_harq_process_id :: int
  pu_new_data_indicator :: int
  pu_tb_size :: int
  pu_num_cb :: int
  pu_num_prgs :: int
  pu_prg_size :: int
  pu_dig_bf_interface :: int
  pu_beam_idx :: int
  pu_low_papr_group_number :: int
  pu_low_papr_sequence_number :: int
  pu_ldpcBaseGraph :: int
  pu_tbSizeLbrmBytes :: int
  pu_ptrs :: pusch_ptrs_t

text \<open>
  What the configuration of a UE adds to \<open>ul_ue\<close>: optional fields of \<^verbatim>\<open>pusch_Config\<close> and \<^verbatim>\<open>sc_info\<close>,
  the CORESET, and the rank of the last SRS report.
\<close>

record ul_ue_cfg =
  dataScramblingIdentityPUSCH :: "int option"
  frequencyHopping :: bool
  rateMatching_PUSCH :: bool
  maxMIMO_Layers_PUSCH :: "int option"
  maxRank :: "int option"
  ul_bw_tbslbrm :: int
  controlResourceSetId :: int
  srs_ul_ri :: int

text \<open>
  Functions and constants of other files.  \<open>make_ul_dci\<close> stands for \<^verbatim>\<open>prepare_dci_pdu\<close>, \<^verbatim>\<open>config_uldci\<close> and
  \<^verbatim>\<open>fill_dci_pdu_rel15\<close>: it gets the UE, the PUSCH PDU, the TPMI unless that of the SRS report is used, the
  TDA, the power command and the new data indicator.
\<close>

record ('q, 'd) ul_dci_lib =
  PUSCH_PDU_BITMAP_PUSCH_DATA :: u16
  PUSCH_PDU_BITMAP_PUSCH_PTRS :: u16
  physCellId :: int
  nr_get_rv :: "int \<Rightarrow> int"
  get_BG :: "int \<Rightarrow> u16 \<Rightarrow> int"
  nr_compute_tbslbrm :: "int \<Rightarrow> int \<Rightarrow> int \<Rightarrow> int"
  set_ul_ptrs_values :: "NR_pusch_dmrs_t \<Rightarrow> int \<Rightarrow> int \<Rightarrow> int \<Rightarrow> int \<Rightarrow> bool \<times> pusch_ptrs_t"
  ue_cfg :: "u16 \<Rightarrow> ul_ue_cfg"
  make_ul_dci :: "'q ul_ue \<Rightarrow> nfapi_nr_pusch_pdu_t \<Rightarrow> int option \<Rightarrow> int \<Rightarrow> int \<Rightarrow> u8 \<Rightarrow> 'd"

definition no_ul_ptrs :: pusch_ptrs_t where
  "no_ul_ptrs = \<lparr>ptrs_freq_density = 0, ptrs_time_density = 0, ptrs_re_offset = 0, num_ptrs_ports = 0, ul_ptrs_power = 0\<rparr>"

text \<open>The number of layers for rate matching; \<open>None\<close> fails the assertion.\<close>

definition lbrm_layers :: "ul_ue_cfg \<Rightarrow> 'c option \<Rightarrow> int option" where
  "lbrm_layers u cfg =
     (case maxMIMO_Layers_PUSCH u of
        Some n \<Rightarrow> Some n
      | None \<Rightarrow> if cfg \<noteq> None then maxRank u else None)"

text \<open>The result is \<open>None\<close> when the assertion on the MIMO layers fails.\<close>

definition prepare_pusch_pdu ::
    "('q, 'd) ul_dci_lib \<Rightarrow> 'q ul_ue \<Rightarrow> NR_sched_pusch_t \<Rightarrow> bool \<Rightarrow> int \<Rightarrow> int \<Rightarrow> bool \<Rightarrow> u16 \<Rightarrow> nfapi_nr_pusch_pdu_t option"
where
  "prepare_pusch_pdu D ue s tp harq_id harq_round fh rnti =
     (let u = ue_cfg D rnti; ul_bwp = u_bwp ue; d = dmrs_info s; ti = tda_info s;
          (valid_ptrs_setup, ptrs) =
            (if has_ptrsConfig d
             then set_ul_ptrs_values D d (sp_rbSize s) (sp_mcs s) (ul_mcs_table ul_bwp) (nrOfSymbols ti)
             else (False, no_ul_ptrs));
          scrambling =
            (case pusch_Config ul_bwp of
               None \<Rightarrow> physCellId D
             | Some c \<Rightarrow> (case dataScramblingIdentityPUSCH u of None \<Rightarrow> physCellId D | Some i \<Rightarrow> i));
          bits = PUSCH_PDU_BITMAP_PUSCH_DATA D;
          bits = (if has_ptrsConfig d
                  then (if valid_ptrs_setup then bits OR PUSCH_PDU_BITMAP_PUSCH_PTRS D else bits)
                  else bits AND NOT (PUSCH_PDU_BITMAP_PUSCH_PTRS D));
          pdu = (\<lambda>lbrm. \<lparr>pu_pdu_bit_map = bits, pu_rnti = rnti, pu_handle = 0,
            pu_bwp_size = bwpSize (bwp_info s), pu_bwp_start = bwpStart (bwp_info s),
            pu_subcarrier_spacing = ul_scs ul_bwp, pu_cyclic_prefix = 0, pu_target_code_rate = sp_R s, pu_qam_mod_order = sp_Qm s,
            pu_mcs_index = sp_mcs s, pu_mcs_table = ul_mcs_table ul_bwp, pu_transform_precoding = tp,
            pu_data_scrambling_id = scrambling, pu_nrOfLayers = sp_nrOfLayers s,
            pu_num_dmrs_cdm_grps_no_data = num_dmrs_cdm_grps_no_data d, pu_dmrs_ports = 2 ^ nat (sp_nrOfLayers s) - 1,
            pu_ul_dmrs_symb_pos = ul_dmrs_symb_pos d, pu_dmrs_config_type = dmrs_config_type d, pu_scid = dmrs_scid d,
            pu_pusch_identity = pusch_identity d, pu_ul_dmrs_scrambling_id = dmrs_scrambling_id d,
            pu_resource_alloc = 1, pu_rb_start = sp_rbStart s, pu_rb_size = sp_rbSize s,
            pu_vrb_to_prb_mapping = 0, pu_frequency_hopping = fh,
            pu_start_symbol_index = startSymbolIndex ti, pu_nr_of_symbols = nrOfSymbols ti,
            pu_rv_index = nr_get_rv D (harq_round mod 4), pu_harq_process_id = harq_id,
            pu_new_data_indicator = (if harq_round = 0 then 1 else 0), pu_tb_size = sp_tb_size s,
            pu_num_cb = 0, pu_num_prgs = 1, pu_prg_size = bwpSize (bwp_info s), pu_dig_bf_interface = 1, pu_beam_idx = u_beam_index ue,
            pu_low_papr_group_number = (if tp then pusch_identity d mod 30 else 0),
            pu_low_papr_sequence_number = (if tp then low_papr_sequence_number d else 0),
            pu_ldpcBaseGraph = get_BG D (sp_tb_size s * 8) (sp_R s), pu_tbSizeLbrmBytes = lbrm, pu_ptrs = ptrs\<rparr>)
      in if \<not> rateMatching_PUSCH u then Some (pdu 0)
         else map_option (\<lambda>n. pdu (nr_compute_tbslbrm D (ul_mcs_table ul_bwp) (ul_bw_tbslbrm u) n))
                (lbrm_layers u (pusch_Config ul_bwp)))"

section \<open>PDCCH PDUs and DCIs\<close>

text \<open>
  \<open>ul_dci_req\<close> is the request: one PDCCH PDU per CORESET with its DCIs; \<open>pdcch_pdu_coreset\<close> is the table of pointers to
  them.  \<open>dci_abort\<close> is set by the failed assertion, with which the program stops.
\<close>

record ('d, 'y) ul_dci_state =
  ul_dci_req :: "(int \<times> 'd list) list"
  pdcch_pdu_coreset :: "int \<Rightarrow> nat option"
  dci_abort :: bool
  dci_rest :: 'y

definition pdcch_pdu_for :: "int \<Rightarrow> ('d, 'y) ul_dci_state \<Rightarrow> nat \<times> ('d, 'y) ul_dci_state" where
  "pdcch_pdu_for coresetid x =
     (case pdcch_pdu_coreset x coresetid of
        Some k \<Rightarrow> (k, x)
      | None \<Rightarrow>
          let k = length (ul_dci_req x)
          in (k, x\<lparr>ul_dci_req := ul_dci_req x @ [(coresetid, [])],
                   pdcch_pdu_coreset := (pdcch_pdu_coreset x)(coresetid := Some k)\<rparr>))"

text \<open>The end of \<^verbatim>\<open>post_process_ulsch\<close>, before the power command of the UE is reset.\<close>

definition ul_dci_of ::
    "('q, 'd) ul_dci_lib \<Rightarrow> 'q ul_ue \<Rightarrow> NR_sched_pusch_t \<Rightarrow> int \<Rightarrow> nfapi_nr_pusch_pdu_t \<Rightarrow> 'd" where
  "ul_dci_of D ue s harq_id p =
     make_ul_dci D ue p
       (if pu_nrOfLayers p \<noteq> srs_ul_ri (ue_cfg D (u_rnti ue)) + 1 then Some (tpmi s) else None)
       (time_domain_allocation s) (u_tpc0 ue) (ndi (harq_processes (u_ctrl ue) harq_id))"

definition pusch_pdu_of ::
    "('q, 'd) ul_dci_lib \<Rightarrow> 'q ul_ue \<Rightarrow> NR_sched_pusch_t \<Rightarrow> int \<Rightarrow> nfapi_nr_pusch_pdu_t option" where
  "pusch_pdu_of D ue s harq_id =
     prepare_pusch_pdu D ue s (ul_transform_precoding (u_bwp ue)) harq_id
       (round (harq_processes (u_ctrl ue) harq_id))
       (pusch_Config (u_bwp ue) \<noteq> None \<and> frequencyHopping (ue_cfg D (u_rnti ue))) (u_rnti ue)"

definition emit_uldci ::
    "('q, 'd) ul_dci_lib \<Rightarrow> ('d, 'y) ul_dci_state \<Rightarrow> 'q ul_ue \<Rightarrow> NR_sched_pusch_t \<Rightarrow> int \<Rightarrow> ('d, 'y) ul_dci_state" where
  "emit_uldci D x ue s harq_id =
     (case pusch_pdu_of D ue s harq_id of
        None \<Rightarrow> x\<lparr>dci_abort := True\<rparr>
      | Some p \<Rightarrow>
          let (k, x) = pdcch_pdu_for (controlResourceSetId (ue_cfg D (u_rnti ue))) x;
              (c, ds) = ul_dci_req x ! k
          in x\<lparr>ul_dci_req := (ul_dci_req x)[k := (c, ds @ [ul_dci_of D ue s harq_id p])]\<rparr>)"

section \<open>One DCI for each grant\<close>

text \<open>The table of pointers and the request fit together; the DCIs of a CORESET.\<close>

definition dci_ok :: "('d, 'y) ul_dci_state \<Rightarrow> bool" where
  "dci_ok x \<longleftrightarrow> (\<forall>c k. pdcch_pdu_coreset x c = Some k \<longleftrightarrow> k < length (ul_dci_req x) \<and> fst (ul_dci_req x ! k) = c)"

definition dcis_in :: "('d, 'y) ul_dci_state \<Rightarrow> int \<Rightarrow> 'd list" where
  "dcis_in x c = (case pdcch_pdu_coreset x c of None \<Rightarrow> [] | Some k \<Rightarrow> snd (ul_dci_req x ! k))"

lemma dci_ok_distinct:
  assumes "dci_ok x"
  shows "distinct (map fst (ul_dci_req x))"
proof (unfold distinct_conv_nth, intro allI impI)
  fix j k assume jk: "j < length (map fst (ul_dci_req x))" "k < length (map fst (ul_dci_req x))" "j \<noteq> k"
  then have "pdcch_pdu_coreset x (fst (ul_dci_req x ! j)) = Some j" "pdcch_pdu_coreset x (fst (ul_dci_req x ! k)) = Some k"
    using assms by (simp_all add: dci_ok_def)
  then show "map fst (ul_dci_req x) ! j \<noteq> map fst (ul_dci_req x) ! k" using jk by auto
qed

lemma pdcch_pdu_for_ok:
  assumes ok: "dci_ok x" and "pdcch_pdu_for c x = (k, x')"
  shows "dci_ok x' \<and> pdcch_pdu_coreset x' c = Some k \<and> dcis_in x' = dcis_in x \<and> dci_abort x' = dci_abort x"
proof (cases "pdcch_pdu_coreset x c")
  case None
  have new: "x' = x\<lparr>ul_dci_req := ul_dci_req x @ [(c, [])],
      pdcch_pdu_coreset := (pdcch_pdu_coreset x)(c := Some (length (ul_dci_req x)))\<rparr>" "k = length (ul_dci_req x)"
    using assms(2) None by (auto simp: pdcch_pdu_for_def Let_def)
  have "dci_ok x'" using ok None unfolding new dci_ok_def
    by (auto simp: nth_append less_Suc_eq) (metis option.distinct(1) option.inject)+
  moreover have "dcis_in x' d = dcis_in x d" for d
  proof (cases "pdcch_pdu_coreset x d")
    case (Some j)
    then have "j < length (ul_dci_req x)" using ok by (auto simp: dci_ok_def)
    then show ?thesis using Some None unfolding new by (auto simp: dcis_in_def nth_append)
  qed (simp add: new dcis_in_def)
  ultimately show ?thesis using new by auto
next
  case (Some j)
  then show ?thesis using assms by (simp add: pdcch_pdu_for_def)
qed

lemma emit_uldci_ok:
  assumes ok: "dci_ok x" and p: "pusch_pdu_of D ue s h = Some p"
  shows "dci_ok (emit_uldci D x ue s h) \<and> dci_abort (emit_uldci D x ue s h) = dci_abort x \<and>
    dcis_in (emit_uldci D x ue s h) = (\<lambda>c. dcis_in x c @
      (if c = controlResourceSetId (ue_cfg D (u_rnti ue)) then [ul_dci_of D ue s h p] else []))"
proof -
  let ?c = "controlResourceSetId (ue_cfg D (u_rnti ue))"
  obtain k y where y: "pdcch_pdu_for ?c x = (k, y)" by fastforce
  note y' = pdcch_pdu_for_ok [OF ok y]
  then have pk: "pdcch_pdu_coreset y ?c = Some k" by blast
  from y' have k: "k < length (ul_dci_req y)" "fst (ul_dci_req y ! k) = ?c" by (auto simp: dci_ok_def)
  have e: "emit_uldci D x ue s h =
      y\<lparr>ul_dci_req := (ul_dci_req y)[k := (?c, snd (ul_dci_req y ! k) @ [ul_dci_of D ue s h p])]\<rparr>"
    using k(2) by (cases "ul_dci_req y ! k") (simp add: emit_uldci_def p y Let_def)
  have "dci_ok (emit_uldci D x ue s h)"
    unfolding e using y' k by (auto simp: dci_ok_def nth_list_update)
  moreover have "dcis_in (emit_uldci D x ue s h) c = dcis_in y c @ (if c = ?c then [ul_dci_of D ue s h p] else [])" for c
  proof (cases "c = ?c")
    case True
    then show ?thesis using pk k unfolding e by (simp add: dcis_in_def)
  next
    case False
    have "pdcch_pdu_coreset y c \<noteq> Some k" using y' k(2) False by (auto simp: dci_ok_def)
    then show ?thesis unfolding e using False by (auto simp: dcis_in_def split: option.splits)
  qed
  ultimately show ?thesis using y' unfolding e by (simp add: fun_eq_iff)
qed

section \<open>Along a pass\<close>

text \<open>
  The functions of other files do not write the DCI request, and every UE with rate matching has its layers configured.
\<close>

definition dci_law :: "('q, ('d, 'y) ul_dci_state) ul_env \<Rightarrow> ('q, 'd) ul_dci_lib \<Rightarrow> bool" where
  "dci_law E D \<longleftrightarrow> emit_dci E = emit_uldci D \<and>
     (\<forall>x y. rest_step E x y \<longrightarrow> ul_dci_req y = ul_dci_req x \<and> pdcch_pdu_coreset y = pdcch_pdu_coreset x \<and>
        dci_abort y = dci_abort x) \<and>
     (\<forall>r. rateMatching_PUSCH (ue_cfg D r) \<longrightarrow> maxMIMO_Layers_PUSCH (ue_cfg D r) \<noteq> None)"

lemma dci_law_pdu: "dci_law E D \<Longrightarrow> \<exists>p. prepare_pusch_pdu D ue s tp h r fh rnti = Some p"
  by (auto simp: dci_law_def prepare_pusch_pdu_def lbrm_layers_def Let_def split: prod.splits option.splits)

text \<open>What a pass leaves as it is in a UE, up to the power command that a grant resets.\<close>

definition same_static :: "'q ul_ue \<Rightarrow> 'q ul_ue \<Rightarrow> bool" where
  "same_static ue0 ue \<longleftrightarrow> u_rnti ue = u_rnti ue0 \<and> u_bwp ue = u_bwp ue0 \<and> u_beam_index ue = u_beam_index ue0 \<and>
     (u_tpc0 ue = u_tpc0 ue0 \<or> u_tpc0 ue = 1)"

text \<open>
  The PUSCH PDU that belongs to an entry of the request, for the UE as it was before the pass; and the DCIs that announce it.
\<close>

definition pusch_of :: "('q, 'd) ul_dci_lib \<Rightarrow> 'q ul_ue \<Rightarrow> ul_pdu \<Rightarrow> nfapi_nr_pusch_pdu_t option" where
  "pusch_of D ue q =
     prepare_pusch_pdu D ue (pdu_sched q) (ul_transform_precoding (u_bwp ue)) (pdu_harq_id q) (pdu_round q)
       (pusch_Config (u_bwp ue) \<noteq> None \<and> frequencyHopping (ue_cfg D (u_rnti ue))) (u_rnti ue)"

definition announces :: "('q, 'd) ul_dci_lib \<Rightarrow> 'q ul_ue list \<Rightarrow> ul_pdu \<Rightarrow> 'd \<Rightarrow> bool" where
  "announces D ues q d \<longleftrightarrow>
     (\<exists>ue0 \<in> set ues. \<exists>ue p. same_static ue0 ue \<and> u_rnti ue0 = pdu_rnti q \<and> pusch_of D ue0 q = Some p \<and>
        d = ul_dci_of D ue (pdu_sched q) (pdu_harq_id q) p)"

lemma post_process_emits:
  assumes "post_process_ulsch E C i sched m = Inr m'" and i: "i < length (m_ues m)"
  shows "\<exists>ue q. m_ul_req m' = (m_ul_req m)(req_buffer_index E (sp_frame sched) (sp_slot sched) :=
        m_ul_req m (req_buffer_index E (sp_frame sched) (sp_slot sched)) @ [q]) \<and>
      m_ues m' = (m_ues m)[i := ue\<lparr>u_tpc0 := 1\<rparr>] \<and> pdu_rnti q = u_rnti ue \<and>
      pdu_round q = round (harq_processes (u_ctrl ue) (pdu_harq_id q)) \<and>
      m_rest m' = emit_dci E (m_rest m) ue (pdu_sched q) (pdu_harq_id q) \<and>
      u_rnti ue = u_rnti (m_ues m ! i) \<and> u_bwp ue = u_bwp (m_ues m ! i) \<and>
      u_beam_index ue = u_beam_index (m_ues m ! i) \<and> u_tpc0 ue = u_tpc0 (m_ues m ! i)"
proof -
  obtain ctrl sched' where g: "ul_harq_grant (e_lists E) (cfg_disable_harq C) (cfg_harq_round_max C)
      (u_ctrl (m_ues m ! i)) sched = Inr (ctrl, sched')"
    using assms(1) by (auto simp: post_process_ulsch_def Let_def split: sum.splits)
  have t: "sp_frame sched' = sp_frame sched" "sp_slot sched' = sp_slot sched"
    using ul_harq_grant_sched [OF g] by auto
  define h where "h = to_i8 (ul_harq_pid sched')"
  define k where "k = round (harq_processes ctrl h)"
  define ue1 where "ue1 = (m_ues m ! i)\<lparr>u_SR := False, u_ctrl := ctrl,
      u_rounds := (u_rounds (m_ues m ! i))(k := u_rounds (m_ues m ! i) k + 1)\<rparr>"
  define ue2 where "ue2 = (if k = 0
      then ue1\<lparr>u_total_bytes_scheduled := u_total_bytes_scheduled ue1 + sp_tb_size sched',
               u_total_rbs := u_total_rbs ue1 + sp_rbSize sched'\<rparr>
      else ue1\<lparr>u_total_rbs_retx := u_total_rbs_retx ue1 + sp_rbSize sched'\<rparr>)"
  define ue where "ue = ue2\<lparr>u_current_bytes := to_u32 (sp_tb_size sched'), u_current_rbs := sp_rbSize sched',
      u_last_ul_frame := sp_frame sched', u_last_ul_slot := sp_slot sched'\<rparr>"
  define q where "q = \<lparr>pdu_rnti = u_rnti ue, pdu_harq_id = h, pdu_round = k, pdu_sched = sched'\<rparr>"
  have ue: "u_rnti ue = u_rnti (m_ues m ! i)" "u_bwp ue = u_bwp (m_ues m ! i)"
    "u_beam_index ue = u_beam_index (m_ues m ! i)" "u_tpc0 ue = u_tpc0 (m_ues m ! i)" "u_ctrl ue = ctrl"
    by (simp_all add: ue_def ue2_def ue1_def)
  have "m_ul_req m' = (m_ul_req m)(req_buffer_index E (sp_frame sched) (sp_slot sched) :=
        m_ul_req m (req_buffer_index E (sp_frame sched) (sp_slot sched)) @ [q])"
    "m_ues m' = (m_ues m)[i := ue\<lparr>u_tpc0 := 1\<rparr>]" "m_rest m' = emit_dci E (m_rest m) ue sched' h"
    using assms(1)
    unfolding post_process_ulsch_def Let_def
    by (auto simp: q_def ue_def ue2_def ue1_def k_def h_def t g split: if_splits)
  then show ?thesis
    by (intro exI [of _ ue] exI [of _ q]) (simp add: ue q_def k_def)
qed

text \<open>What holds of every state of a pass, with the DCIs sent so far.\<close>

definition sent_dcis ::
    "('q, 'd) ul_dci_lib \<Rightarrow> ('q, ('d, 'y) ul_dci_state) ul_mac \<Rightarrow> ul_pdu list \<Rightarrow> 'd list \<Rightarrow>
     ('q, ('d, 'y) ul_dci_state) ul_mac \<Rightarrow> bool" where
  "sent_dcis D mac ps ds m \<longleftrightarrow>
     dci_ok (m_rest m) \<and> dci_abort (m_rest m) = dci_abort (m_rest mac) \<and>
     list_all2 same_static (m_ues mac) (m_ues m) \<and> list_all2 (announces D (m_ues mac)) ps ds \<and>
     (\<forall>c. dcis_in (m_rest m) c = dcis_in (m_rest mac) c @
        map snd (filter (\<lambda>(q, d). controlResourceSetId (ue_cfg D (pdu_rnti q)) = c) (zip ps ds)))"

lemma same_static_refl [simp]: "same_static ue ue"
  by (simp add: same_static_def)

lemma rest_run_keeps:
  assumes "dci_law E D"
  shows "rest_run E x y \<Longrightarrow> ul_dci_req y = ul_dci_req x \<and> pdcch_pdu_coreset y = pdcch_pdu_coreset x \<and>
    dci_abort y = dci_abort x"
  by (induction rule: rtranclp_induct) (use assms in \<open>auto simp: dci_law_def\<close>)

lemma sent_commit:
  assumes law: "dci_law E D" and sent: "sent_dcis D mac ps ds m" and i: "i < length (m_ues m)"
    and pp: "post_process_ulsch E C i sched m = Inr m'" and time: "(sp_frame sched, sp_slot sched) = pass_time E C p"
  shows "\<exists>d. sent_dcis D mac (ps @ [last (m_ul_req m' (pass_index E C p))]) (ds @ [d]) (mark_grant E C p beam sched bits m')"
proof -
  obtain ue q where e: "m_ul_req m' = (m_ul_req m)(req_buffer_index E (sp_frame sched) (sp_slot sched) :=
        m_ul_req m (req_buffer_index E (sp_frame sched) (sp_slot sched)) @ [q])"
      "m_ues m' = (m_ues m)[i := ue\<lparr>u_tpc0 := 1\<rparr>]" "pdu_rnti q = u_rnti ue"
      "pdu_round q = round (harq_processes (u_ctrl ue) (pdu_harq_id q))"
      "m_rest m' = emit_dci E (m_rest m) ue (pdu_sched q) (pdu_harq_id q)"
      "u_rnti ue = u_rnti (m_ues m ! i)" "u_bwp ue = u_bwp (m_ues m ! i)"
      "u_beam_index ue = u_beam_index (m_ues m ! i)" "u_tpc0 ue = u_tpc0 (m_ues m ! i)"
    using post_process_emits [OF pp i] by blast
  have "pass_index E C p = req_buffer_index E (sp_frame sched) (sp_slot sched)"
    unfolding pass_index_def time [symmetric] by simp
  then have last: "last (m_ul_req m' (pass_index E C p)) = q" using e(1) by simp
  have len: "i < length (m_ues mac)" and "same_static (m_ues mac ! i) (m_ues m ! i)"
    using sent i by (auto simp: sent_dcis_def list_all2_conv_all_nth)
  then have st: "same_static (m_ues mac ! i) ue" and st1: "same_static (m_ues mac ! i) (ue\<lparr>u_tpc0 := 1\<rparr>)"
    using e(6-9) by (auto simp: same_static_def)
  have eq: "pusch_pdu_of D ue (pdu_sched q) (pdu_harq_id q) = pusch_of D (m_ues mac ! i) q"
    using st e(4) unfolding pusch_pdu_of_def pusch_of_def same_static_def prepare_pusch_pdu_def by simp
  obtain pdu where pdu: "pusch_of D (m_ues mac ! i) q = Some pdu"
    using dci_law_pdu [OF law] unfolding pusch_of_def by blast
  define d where "d = ul_dci_of D ue (pdu_sched q) (pdu_harq_id q) pdu"
  have x: "m_rest m' = emit_uldci D (m_rest m) ue (pdu_sched q) (pdu_harq_id q)" using e(5) law by (simp add: dci_law_def)
  have ok: "dci_ok (m_rest m)" using sent by (simp add: sent_dcis_def)
  note em = emit_uldci_ok [OF ok, of D ue "pdu_sched q" "pdu_harq_id q", unfolded eq, OF pdu, folded x d_def]
  have "announces D (m_ues mac) q d"
    unfolding announces_def d_def using len st pdu e(3)
    by (intro bexI [of _ "m_ues mac ! i"] exI [of _ ue] exI [of _ pdu]) (auto simp: same_static_def)
  moreover have "list_all2 same_static (m_ues mac) ((m_ues m)[i := ue\<lparr>u_tpc0 := 1\<rparr>])"
    using sent st1 i by (auto simp: sent_dcis_def list_all2_conv_all_nth nth_list_update)
  moreover have "length ps = length ds" using sent by (auto simp: sent_dcis_def dest: list_all2_lengthD)
  ultimately have "sent_dcis D mac (ps @ [q]) (ds @ [d]) (mark_grant E C p beam sched bits m')"
    using sent em e(2,3) by (auto simp: sent_dcis_def mark_grant_def list_all2_appendI)
  then show ?thesis unfolding last by blast
qed

lemma run_dcis:
  assumes law: "dci_law E D" and ok: "dci_ok (m_rest mac)"
  shows "ul_run E C p mac ps m \<Longrightarrow> \<exists>ds. sent_dcis D mac ps ds m"
proof (induction rule: ul_run.induct)
  case start
  then show ?case using ok by (intro exI [of _ "[]"]) (simp add: sent_dcis_def list_all2_refl)
next
  case (rest ps m x)
  then obtain ds where "sent_dcis D mac ps ds m" by blast
  moreover have "dci_ok x = dci_ok (m_rest m)" "dcis_in x = dcis_in (m_rest m)" "dci_abort x = dci_abort (m_rest m)"
    using rest_run_keeps [OF law rest(2)] by (auto simp: dci_ok_def dcis_in_def fun_eq_iff split: option.split)
  ultimately have "sent_dcis D mac ps ds (m\<lparr>m_rest := x\<rparr>)" by (simp add: sent_dcis_def)
  then show ?case by blast
next
  case (book ps m i ue)
  then obtain ds where s: "sent_dcis D mac ps ds m" by blast
  have "same_static (m_ues m ! i) ue"
    using book(4) by (cases ue; cases "m_ues m ! i") (simp add: same_core_def core_def same_static_def)
  then have "list_all2 same_static (m_ues mac) ((m_ues m)[i := ue])"
    using s book(2) by (auto simp: sent_dcis_def list_all2_conv_all_nth nth_list_update same_static_def)
  then show ?case using s by (intro exI [of _ ds]) (simp add: sent_dcis_def upd_ue_def)
next
  case (retx ps m i beam sched m')
  then show ?case using sent_commit [OF law _ retx(2,5) retx_decision_time [OF retx(4)]] by blast
next
  case (new ps m i beam sched m')
  then show ?case using sent_commit [OF law _ new(2,5) new_decision_time [OF new(4)]] by blast
qed

lemma pusch_pdu_fields:
  assumes "pusch_of D ue q = Some p"
  shows "pu_rnti p = u_rnti ue" "pu_rb_start p = sp_rbStart (pdu_sched q)" "pu_rb_size p = sp_rbSize (pdu_sched q)"
    "pu_tb_size p = sp_tb_size (pdu_sched q)" "pu_mcs_index p = sp_mcs (pdu_sched q)"
    "pu_harq_process_id p = pdu_harq_id q" "pu_new_data_indicator p = (if pdu_round q = 0 then 1 else 0)"
  using assms
  by (auto simp: pusch_of_def prepare_pusch_pdu_def Let_def split: prod.splits if_splits option.splits)

section \<open>Properties\<close>

text \<open>
  C30. A pass of the uplink scheduler announces what it grants: the DCI request gets exactly one DCI for each
  PUSCH it adds to the request of the PUSCH slot, in the same order, in the PDCCH PDU of the UE's CORESET,
  built from the PUSCH PDU of that very grant and with the power command that was pending or with the
  neutral one.  Every CORESET has one PDCCH PDU, the DCIs that were there before stay in front, and the
  assertion on the MIMO layers does not fail for configured UEs.
\<close>

theorem pf_ul_announced:
  assumes "beam_law E (p_num_beams p)" and "qsort_members E" and "0 \<le> max_num_ue"
    and law: "dci_law E D" and ok: "dci_ok (m_rest mac)"
    and run: "pf_ul E C now_ms stat cfg_file p max_num_ue rbs mac = Inr (n, mac')"
  shows "\<exists>ps ds. m_ul_req mac' (pass_index E C p) = m_ul_req mac (pass_index E C p) @ ps \<and> n = int (length ps) \<and>
    list_all2 (announces D (m_ues mac)) ps ds \<and>
    (\<forall>c. dcis_in (m_rest mac') c = dcis_in (m_rest mac) c @
      map snd (filter (\<lambda>(q, d). controlResourceSetId (ue_cfg D (pdu_rnti q)) = c) (zip ps ds))) \<and>
    distinct (map fst (ul_dci_req (m_rest mac'))) \<and> dci_abort (m_rest mac') = dci_abort (m_rest mac)"
proof -
  let ?mac = "la_reloaded now_ms stat cfg_file mac"
  obtain ps where r: "ul_run E C p ?mac ps mac'" "n = int (length ps)"
    using pf_ul_is_run [OF assms(1-3) run] by blast
  have same: "m_rest ?mac = m_rest mac" "m_ues ?mac = m_ues mac" "m_ul_req ?mac = m_ul_req mac"
    by (simp_all add: la_reloaded_def)
  obtain ds where s: "sent_dcis D ?mac ps ds mac'"
    using run_dcis [OF law _ r(1)] ok same by auto
  moreover have "m_ul_req mac' (pass_index E C p) = m_ul_req mac (pass_index E C p) @ ps"
    using run_has_effect [OF r(1)] by (simp add: run_effect_def same)
  ultimately show ?thesis using r(2) dci_ok_distinct [of "m_rest mac'"] unfolding sent_dcis_def same by blast
qed

text \<open>The example cell with a DCI that names the RNTI and the number of blocks of the PUSCH.\<close>

definition dci_lib_example :: "(int list, u16 \<times> bool) ul_dci_lib" where
  "dci_lib_example = \<lparr>PUSCH_PDU_BITMAP_PUSCH_DATA = 1, PUSCH_PDU_BITMAP_PUSCH_PTRS = 4, physCellId = 0,
     nr_get_rv = (\<lambda>r. [0, 2, 3, 1] ! nat r), get_BG = (\<lambda>n R. 1), nr_compute_tbslbrm = (\<lambda>t b n. n),
     set_ul_ptrs_values = (\<lambda>d n mcs t l. (False, no_ul_ptrs)),
     ue_cfg = (\<lambda>r. \<lparr>dataScramblingIdentityPUSCH = None, frequencyHopping = False, rateMatching_PUSCH = True,
       maxMIMO_Layers_PUSCH = Some 1, maxRank = None, ul_bw_tbslbrm = 20, controlResourceSetId = 1, srs_ul_ri = 0\<rparr>),
     make_ul_dci = (\<lambda>ue p t tda tpc n. (pu_rnti p, pu_rb_size p = 0))\<rparr>"

definition dci_state_example :: "(u16 \<times> bool, unit) ul_dci_state" where
  "dci_state_example = \<lparr>ul_dci_req = [], pdcch_pdu_coreset = (\<lambda>c. None), dci_abort = False, dci_rest = ()\<rparr>"

lemma dci_law_example: "dci_law (ul_env_example_with (emit_uldci dci_lib_example)) dci_lib_example"
  by (auto simp: dci_law_def rest_step_def ul_env_sel dci_lib_example_def)

theorem pf_ul_announced_witness:
  "\<exists>mac' b. pf_ul (ul_env_example_with (emit_uldci dci_lib_example)) ul_cfg_example 0 None None ul_pass_example 2
      (\<lambda>b. 20) (ul_mac_example_with dci_state_example) = Inr (1, mac') \<and> dcis_in (m_rest mac') 1 = [(7, b)]"
proof -
  let ?E = "ul_env_example_with (emit_uldci dci_lib_example)" and ?mac = "ul_mac_example_with dci_state_example"
  obtain mac' where pf: "pf_ul ?E ul_cfg_example 0 None None ul_pass_example 2 (\<lambda>b. 20) ?mac = Inr (1, mac')"
    using pf_ul_example_any [of 2 20 "emit_uldci dci_lib_example" dci_state_example] by auto
  have ok: "dci_ok (m_rest ?mac)" by (simp add: dci_ok_def ul_mac_sel dci_state_example_def)
  from pf_ul_announced [OF ul_example_laws(1,2) _ dci_law_example ok pf]
  obtain ps ds where s: "1 = int (length ps)" "list_all2 (announces dci_lib_example (m_ues ?mac)) ps ds"
    "\<forall>c. dcis_in (m_rest mac') c = dcis_in (m_rest ?mac) c @
      map snd (filter (\<lambda>(q, d). controlResourceSetId (ue_cfg dci_lib_example (pdu_rnti q)) = c) (zip ps ds))"
    by auto
  then obtain q d where q: "ps = [q]" "ds = [d]" "announces dci_lib_example (m_ues ?mac) q d"
    by (cases ps; cases ds) auto
  have "fst d = 7"
    using q(3) pusch_pdu_fields(1) by (fastforce simp: announces_def ul_mac_sel ul_dci_of_def dci_lib_example_def ul_ue_sel)
  moreover have "dcis_in (m_rest mac') 1 = [d]"
    using s(3) q(1,2) by (simp add: dcis_in_def ul_mac_sel dci_state_example_def) (simp add: dci_lib_example_def)
  ultimately show ?thesis using pf by (cases d) auto
qed

end
