(* ===== verification/RxSdu.thy ===== *)
theory RxSdu imports UeLaPolicy MacPdu begin

text \<open>
  The reception of an uplink PDU, \<^verbatim>\<open>gnb_patch/gNB_scheduler_ulsch.c\<close>: \<^verbatim>\<open>_nr_rx_sdu\<close> for connected
  UEs (power control towards the target of the UE's link-adaptation policy, detection of lost PUSCH,
  the PDU itself and the HARQ feedback) and \<^verbatim>\<open>nr_rx_ra_sdu\<close> for UEs in random access (Msg3 and MsgA).
  UEs are reached through pointers, and two of them can be live at once, so \<open>rm_ue\<close> is a store
  from addresses to UEs.  The searches in the UE lists and the procedures of OpenAirInterface that
  change them are fields of \<open>rx_env\<close>; what they keep besides the UEs is the opaque \<open>rm_x\<close>.
\<close>

section \<open>State\<close>

datatype ra_type_t = RA_4_STEP | RA_2_STEP

text \<open>The states of a random access that this file names; the others are numbered.\<close>

datatype ra_state_t =
  nrRA_gNB_IDLE | nrRA_WAIT_Msg3 | nrRA_Msg3_retransmission | nrRA_Msg4 | nrRA_MsgB | nrRA_other nat

record NR_RA_t =
  ra_type :: ra_type_t
  ra_state :: ra_state_t
  cfra :: bool
  msg3_round :: int
  msg3_TPC :: int
  Msg3_frame :: int
  Msg3_slot :: int
  RA_rnti :: u16
  cont_res_id :: "u8 list"

text \<open>
  The UE: \<open>rx_ra\<close> is \<open>None\<close> when the pointer is NULL; \<open>rx_ctrl\<close> has the HARQ processes and \<open>rx_mac\<close>
  what the MAC PDU changes; the fields \<open>st_\<close> belong to \<^verbatim>\<open>mac_stats\<close>.
\<close>

record 'q rx_ue =
  rx_rnti :: u16
  rx_ra :: "NR_RA_t option"
  rx_ctrl :: "'q ul_sched_ctrl"
  rx_mac :: mac_ue
  UE_beam_index :: int
  reconfigSpCellConfig :: bool
  ul_failure :: bool
  tpc0 :: int
  pusch_snrx10 :: int
  ta_update :: int
  ta_frame :: int
  raw_rssi :: int
  pusch_consecutive_dtx_cnt :: int
  st_total_bytes :: int
  st_deltaMCS :: int
  st_NPRB :: int
  st_pusch_snrx10 :: int
  st_ulsch_DTX :: int

record ('q, 'x) rx_mac_inst =
  rm_ue :: "nat \<Rightarrow> 'q rx_ue"
  rm_la :: la_table
  rm_x :: 'x

record rx_cfg =
  rc_pusch_target_snrx10 :: int
  rc_pusch_rssi_threshold :: int
  rc_pusch_failure_thres :: int
  rc_harq_round_max :: int
  rc_disable_harq :: bool
  rc_phy_test :: bool
  rc_sa_mode :: bool

record ('q, 'x) rx_env =
  re_mac :: mac_env
  re_lists :: "'q nr_list_ops"
  find_nr_UE :: "('q, 'x) rx_mac_inst \<Rightarrow> u16 \<Rightarrow> nat option"
  find_ra_UE :: "('q, 'x) rx_mac_inst \<Rightarrow> u16 \<Rightarrow> nat option"
  nr_get_tpc :: "int \<Rightarrow> u8 \<Rightarrow> int \<Rightarrow> int \<Rightarrow> int"
  nr_limit_tpc :: "int \<Rightarrow> int \<Rightarrow> int \<Rightarrow> int"
  nr_mac_trigger_ul_failure :: "'q rx_ue \<Rightarrow> 'q rx_ue"
  nr_mac_reset_ul_failure :: "'q rx_ue \<Rightarrow> 'q rx_ue"
  reset_dl_harq_list :: "'q rx_ue \<Rightarrow> 'q rx_ue"
  reset_ul_harq_list :: "'q rx_ue \<Rightarrow> 'q rx_ue"
  process_addmod_bearers :: "'q rx_ue \<Rightarrow> 'q rx_ue"
  nr_release_ra_UE :: "('q, 'x) rx_mac_inst \<Rightarrow> u16 \<Rightarrow> ('q, 'x) rx_mac_inst"
  transition_ra_connected_nr_ue :: "('q, 'x) rx_mac_inst \<Rightarrow> nat \<Rightarrow> ('q, 'x) rx_mac_inst \<times> bool"
  delete_nr_ue_data :: "('q, 'x) rx_mac_inst \<Rightarrow> nat \<Rightarrow> ('q, 'x) rx_mac_inst"
  nr_mac_trigger_reconfiguration :: "('q, 'x) rx_mac_inst \<Rightarrow> nat \<Rightarrow> ('q, 'x) rx_mac_inst"
  configure_UE_BWP :: "('q, 'x) rx_mac_inst \<Rightarrow> nat \<Rightarrow> bool \<Rightarrow> ('q, 'x) rx_mac_inst"

text \<open>
  One call of \<^verbatim>\<open>nr_rx_sdu\<close>: \<open>rx_sdu\<close> is \<open>None\<close> when the PHY passes NULL (the CRC failed or nothing was
  received), otherwise the memory and the address of the PDU.
\<close>

record rx_ind =
  rx_frame :: int
  rx_slot :: int
  rx_ind_rnti :: u16
  rx_sdu :: "(memory \<times> nat) option"
  rx_sdu_len :: nat
  rx_harq_pid :: int
  rx_timing_advance :: u16
  rx_ul_cqi :: u8
  rx_rssi :: u16

datatype rx_error = RxNullRa | RxAssertHarqPid | RxMac mac_error | RxHarq harq_error

definition upd_rx :: "nat \<Rightarrow> ('q rx_ue \<Rightarrow> 'q rx_ue) \<Rightarrow> ('q, 'x) rx_mac_inst \<Rightarrow> ('q, 'x) rx_mac_inst" where
  "upd_rx a f m = m\<lparr>rm_ue := (rm_ue m)(a := f (rm_ue m a))\<rparr>"

definition upd_ra :: "nat \<Rightarrow> (NR_RA_t \<Rightarrow> NR_RA_t) \<Rightarrow> ('q, 'x) rx_mac_inst \<Rightarrow> ('q, 'x) rx_mac_inst" where
  "upd_ra a f = upd_rx a (\<lambda>ue. ue\<lparr>rx_ra := map_option f (rx_ra ue)\<rparr>)"

section \<open>The PDU of a UE\<close>

text \<open>
  \<^verbatim>\<open>nr_process_mac_pdu\<close> on the UE at an address: it looks at the random access and at the saved
  parameters of the HARQ processes.  Its result code is not used by the callers.
\<close>

definition mac_view :: "'q rx_ue \<Rightarrow> mac_ue" where
  "mac_view ue = (rx_mac ue)
     \<lparr>ra_idle := (case rx_ra ue of None \<Rightarrow> False | Some ra \<Rightarrow> ra_state ra = nrRA_gNB_IDLE),
      ul_sched_pusch := (\<lambda>pid. sched_pusch (harq_processes (rx_ctrl ue) pid))\<rparr>"

definition rx_process_pdu ::
    "('q, 'x) rx_env \<Rightarrow> ('q, 'x) rx_mac_inst \<Rightarrow> nat \<Rightarrow> memory \<Rightarrow> nat \<Rightarrow> nat \<Rightarrow> int \<Rightarrow> rx_error + ('q, 'x) rx_mac_inst"
where
  "rx_process_pdu E m a mem p len pid =
     (case nr_process_mac_pdu (re_mac E) mem p len pid 0 (mac_view (rm_ue m a)) of
        Inl e \<Rightarrow> Inl (RxMac e)
      | Inr (mu, rc) \<Rightarrow> Inr (upd_rx a (\<lambda>ue. ue\<lparr>rx_mac := mu\<rparr>) m))"

section \<open>Random access\<close>

definition handle_msg3_failed_rx ::
    "('q, 'x) rx_env \<Rightarrow> ('q, 'x) rx_mac_inst \<Rightarrow> nat \<Rightarrow> NR_RA_t \<Rightarrow> u16 \<Rightarrow> int \<Rightarrow> ('q, 'x) rx_mac_inst" where
  "handle_msg3_failed_rx E m a ra rnti harq_round_max =
     (if cfra ra then nr_release_ra_UE E m rnti
      else if harq_round_max - 1 \<le> msg3_round ra then nr_release_ra_UE E m rnti
      else upd_ra a (\<lambda>ra. ra\<lparr>msg3_round := msg3_round ra + 1, ra_state := nrRA_Msg3_retransmission\<rparr>) m)"

text \<open>No PDU: a failure only in the slot in which Msg3 was expected.\<close>

definition ra_nack ::
    "('q, 'x) rx_env \<Rightarrow> rx_cfg \<Rightarrow> ('q, 'x) rx_mac_inst \<Rightarrow> nat \<Rightarrow> NR_RA_t \<Rightarrow> rx_ind \<Rightarrow> ('q, 'x) rx_mac_inst" where
  "ra_nack E C m a ra i =
     (if ra_state ra \<noteq> nrRA_WAIT_Msg3 then m
      else if rx_frame i \<noteq> Msg3_frame ra \<or> rx_slot i \<noteq> Msg3_slot ra then m
      else
        let m = (if rx_ul_cqi i \<noteq> 0xff
                 then upd_ra a (\<lambda>ra. ra\<lparr>msg3_TPC := nr_get_tpc E (rc_pusch_target_snrx10 C) (rx_ul_cqi i) 30 0\<rparr>) m
                 else m)
        in handle_msg3_failed_rx E m a ra (rx_ind_rnti i) (rc_harq_round_max C))"

text \<open>The measurements that come with Msg3; the target is the one of the cell.\<close>

definition ra_measure :: "('q, 'x) rx_env \<Rightarrow> rx_cfg \<Rightarrow> rx_ind \<Rightarrow> int \<Rightarrow> 'q rx_ue \<Rightarrow> 'q rx_ue" where
  "ra_measure E C i pid ue =
     (let txpower = phr_txpower_calc (sched_pusch (harq_processes (rx_ctrl ue) pid));
          ue = (if rx_ul_cqi i \<noteq> 0xff
                then ue\<lparr>tpc0 := nr_get_tpc E (rc_pusch_target_snrx10 C) (rx_ul_cqi i) 30 txpower,
                        pusch_snrx10 := uint (rx_ul_cqi i) * 5 - 640 - txpower * 10\<rparr>
                else ue);
          ue = (if rx_timing_advance i \<noteq> 0xffff then ue\<lparr>ta_update := uint (rx_timing_advance i)\<rparr> else ue)
      in ue\<lparr>raw_rssi := uint (rx_rssi i)\<rparr>)"

definition ra_cfra_done :: "('q, 'x) rx_env \<Rightarrow> rx_cfg \<Rightarrow> ('q, 'x) rx_mac_inst \<Rightarrow> nat \<Rightarrow> ('q, 'x) rx_mac_inst" where
  "ra_cfra_done E C m a =
     (let m = upd_rx a (nr_mac_reset_ul_failure E) m;
          m = upd_rx a (reset_dl_harq_list E) m;
          m = upd_rx a (reset_ul_harq_list E) m;
          m = upd_rx a (process_addmod_bearers E) m;
          m = configure_UE_BWP E m a (rc_sa_mode C);
          (m, added) = transition_ra_connected_nr_ue E m a
      in if \<not> added then delete_nr_ue_data E m a else m)"

text \<open>A UE that is known already: the PDU belongs to the UE that the C-RNTI names.\<close>

definition ra_known_ue ::
    "('q, 'x) rx_env \<Rightarrow> ('q, 'x) rx_mac_inst \<Rightarrow> nat \<Rightarrow> nat \<Rightarrow> u16 \<Rightarrow> memory \<Rightarrow> nat \<Rightarrow> nat \<Rightarrow>
     rx_error + ('q, 'x) rx_mac_inst" where
  "ra_known_ue E m a old rnti mem p len =
     (let beam = UE_beam_index (rm_ue m a);
          m = upd_rx old (\<lambda>ue. ue\<lparr>UE_beam_index := beam\<rparr>) m;
          m = upd_rx old (nr_mac_reset_ul_failure E) m;
          m = upd_rx old (reset_dl_harq_list E) m;
          m = upd_rx old (reset_ul_harq_list E) m;
          m = (if \<not> reconfigSpCellConfig (rm_ue m old)
               then configure_UE_BWP E (nr_mac_trigger_reconfiguration E m old) old True
               else m);
          m = nr_release_ra_UE E m rnti
      in rx_process_pdu E m old mem p len (-1))"

text \<open>A new UE: the contention resolution identity is taken from the bytes after the first subheader.\<close>

definition ra_new_ue ::
    "('q, 'x) rx_env \<Rightarrow> ('q, 'x) rx_mac_inst \<Rightarrow> nat \<Rightarrow> memory \<Rightarrow> nat \<Rightarrow> nat \<Rightarrow> rx_error + ('q, 'x) rx_mac_inst" where
  "ra_new_ue E m a mem p len =
     (let m = upd_ra a (\<lambda>ra. ra\<lparr>cont_res_id := map mem [p + 1..<p + 7]\<rparr>) m
      in case rx_process_pdu E m a mem p len (-1) of
           Inl e \<Rightarrow> Inl e
         | Inr m \<Rightarrow> Inr (upd_ra a (\<lambda>ra. ra\<lparr>ra_state := (if ra_type ra = RA_2_STEP then nrRA_MsgB else nrRA_Msg4)\<rparr>) m))"

definition ra_contention ::
    "('q, 'x) rx_env \<Rightarrow> ('q, 'x) rx_mac_inst \<Rightarrow> nat \<Rightarrow> u16 \<Rightarrow> memory \<Rightarrow> nat \<Rightarrow> nat \<Rightarrow> rx_error + ('q, 'x) rx_mac_inst"
where
  "ra_contention E m a rnti mem p len =
     (let crnti = lcid_crnti_lookahead (re_mac E) mem p len
      in if crnti \<noteq> 0
         then case find_nr_UE E m crnti of
                None \<Rightarrow> Inr (nr_release_ra_UE E m rnti)
              | Some old \<Rightarrow> ra_known_ue E m a old rnti mem p len
         else ra_new_ue E m a mem p len)"

text \<open>\<open>pid\<close> has been converted to \<^verbatim>\<open>uint8_t\<close> by the call.\<close>

definition nr_rx_ra_sdu ::
    "('q, 'x) rx_env \<Rightarrow> rx_cfg \<Rightarrow> ('q, 'x) rx_mac_inst \<Rightarrow> rx_ind \<Rightarrow> int \<Rightarrow> rx_error + ('q, 'x) rx_mac_inst" where
  "nr_rx_ra_sdu E C m i pid =
     (let rnti = rx_ind_rnti i in
      case find_ra_UE E m rnti of
        None \<Rightarrow> Inr m
      | Some a \<Rightarrow>
          case rx_ra (rm_ue m a) of
            None \<Rightarrow> Inl RxNullRa
          | Some ra \<Rightarrow>
              if ra_type ra = RA_4_STEP \<and> ra_state ra \<noteq> nrRA_WAIT_Msg3 then Inr m
              else case rx_sdu i of
                     None \<Rightarrow> Inr (ra_nack E C m a ra i)
                   | Some (mem, p) \<Rightarrow>
                       if list_all (\<lambda>k. mem (p + k) = 0) [0..<rx_sdu_len i]
                       then Inr (handle_msg3_failed_rx E m a ra rnti (rc_harq_round_max C))
                       else if ra_type ra = RA_2_STEP \<and> RA_rnti ra \<noteq> rnti then Inr m
                       else
                         let m = upd_rx a (\<lambda>ue. ue\<lparr>ta_frame := rx_frame i\<rparr>) m
                         in if \<not> (0 \<le> pid \<and> pid < 8) then Inl RxAssertHarqPid
                            else
                              let m = upd_rx a (ra_measure E C i pid) m
                              in if cfra ra then Inr (ra_cfra_done E C m a)
                                 else ra_contention E m a rnti mem p (rx_sdu_len i))"

section \<open>Connected UEs\<close>

text \<open>Power control: towards \<open>target\<close>, but not up when the UE has no headroom left.\<close>

definition rx_power_control :: "('q, 'x) rx_env \<Rightarrow> rx_cfg \<Rightarrow> int \<Rightarrow> rx_ind \<Rightarrow> 'q rx_ue \<Rightarrow> 'q rx_ue" where
  "rx_power_control E C target i ue =
     (if 0 < uint (rx_rssi i)
      then
        let harq = harq_processes (rx_ctrl ue) (rx_harq_pid i);
            txpower = phr_txpower_calc (sched_pusch harq);
            ue = ue\<lparr>st_deltaMCS := txpower, st_NPRB := sp_rbSize (sched_pusch harq)\<rparr>;
            ue = (if rx_ul_cqi i \<noteq> 0xff then ue\<lparr>tpc0 := nr_get_tpc E target (rx_ul_cqi i) 30 txpower\<rparr> else ue);
            ue = (if ph (rx_mac ue) < 0 \<and> 1 < tpc0 ue then ue\<lparr>tpc0 := 1\<rparr> else ue);
            ue = ue\<lparr>tpc0 := nr_limit_tpc E (tpc0 ue) (uint (rx_rssi i)) (rc_pusch_rssi_threshold C)\<rparr>;
            ue = (if rx_timing_advance i \<noteq> 0xffff then ue\<lparr>ta_update := uint (rx_timing_advance i)\<rparr> else ue);
            ue = ue\<lparr>raw_rssi := uint (rx_rssi i), pusch_snrx10 := uint (rx_ul_cqi i) * 5 - 640 - txpower * 10\<rparr>
        in if round harq = 0 then ue\<lparr>st_pusch_snrx10 := pusch_snrx10 ue\<rparr> else ue
      else ue\<lparr>tpc0 := 1\<rparr>)"

text \<open>\<^verbatim>\<open>sched_ul_bytes -= sdu_lenP\<close> subtracts an unsigned number and is converted back to \<^verbatim>\<open>int\<close>.\<close>

definition rx_data :: "nat \<Rightarrow> 'q rx_ue \<Rightarrow> 'q rx_ue" where
  "rx_data len ue =
     (let b = to_i32 (sched_ul_bytes (rx_ctrl ue) - int len)
      in ue\<lparr>pusch_consecutive_dtx_cnt := 0,
            rx_ctrl := (rx_ctrl ue)\<lparr>sched_ul_bytes := (if b < 0 then 0 else b)\<rparr>\<rparr>)"

text \<open>A PUSCH without PDU: at low quality it counts as lost; after too many the UE is given up.\<close>

definition rx_missing :: "('q, 'x) rx_env \<Rightarrow> rx_cfg \<Rightarrow> u8 \<Rightarrow> 'q rx_ue \<Rightarrow> 'q rx_ue" where
  "rx_missing E C cqi ue =
     (let ue = (if cqi = 0xff \<or> cqi \<le> 128
                then ue\<lparr>pusch_consecutive_dtx_cnt := pusch_consecutive_dtx_cnt ue + 1,
                        st_ulsch_DTX := st_ulsch_DTX ue + 1\<rparr>
                else ue)
      in if \<not> rc_phy_test C \<and> rc_pusch_failure_thres C \<le> pusch_consecutive_dtx_cnt ue
         then nr_mac_trigger_ul_failure E ue else ue)"

definition rx_harq_feedback ::
    "('q, 'x) rx_env \<Rightarrow> rx_cfg \<Rightarrow> ('q, 'x) rx_mac_inst \<Rightarrow> nat \<Rightarrow> int \<Rightarrow> bool \<Rightarrow>
     (rx_error + ('q, 'x) rx_mac_inst) option" where
  "rx_harq_feedback E C m a pid crc_status =
     (case handle_nr_ul_harq (re_lists E) (rc_disable_harq C) (rc_harq_round_max C)
             (rx_ctrl (rm_ue m a)) pid crc_status of
        None \<Rightarrow> None
      | Some (Inl e) \<Rightarrow> Some (Inl (RxHarq e))
      | Some (Inr c) \<Rightarrow> Some (Inr (upd_rx a (\<lambda>ue. ue\<lparr>rx_ctrl := c\<rparr>) m)))"

definition rx_connected ::
    "('q, 'x) rx_env \<Rightarrow> rx_cfg \<Rightarrow> ('q, 'x) rx_mac_inst \<Rightarrow> nat \<Rightarrow> rx_ind \<Rightarrow> (rx_error + ('q, 'x) rx_mac_inst) option"
where
  "rx_connected E C m a i =
     (let target = rk_ue_la_get_pusch_target_snrx10 (rm_la m) (rx_ind_rnti i) (rc_pusch_target_snrx10 C);
          m = upd_rx a (\<lambda>ue. ue\<lparr>st_total_bytes := st_total_bytes ue + int (rx_sdu_len i)\<rparr>) m
      in if rx_harq_pid i < 0 then Some (Inr m)
         else
           let m = upd_rx a (rx_power_control E C target i) m;
               r = (case rx_sdu i of
                      Some (mem, p) \<Rightarrow>
                        rx_process_pdu E (upd_rx a (rx_data (rx_sdu_len i)) m) a mem p (rx_sdu_len i) (rx_harq_pid i)
                    | None \<Rightarrow> Inr (upd_rx a (rx_missing E C (rx_ul_cqi i)) m))
           in case r of
                Inl e \<Rightarrow> Some (Inl e)
              | Inr m \<Rightarrow> rx_harq_feedback E C m a (rx_harq_pid i) (rx_sdu i = None))"

text \<open>\<^verbatim>\<open>_nr_rx_sdu\<close>, which \<^verbatim>\<open>nr_rx_sdu\<close> calls under the scheduler's lock.\<close>

definition nr_rx_sdu ::
    "('q, 'x) rx_env \<Rightarrow> rx_cfg \<Rightarrow> ('q, 'x) rx_mac_inst \<Rightarrow> rx_ind \<Rightarrow> (rx_error + ('q, 'x) rx_mac_inst) option" where
  "nr_rx_sdu E C m i =
     (case find_nr_UE E m (rx_ind_rnti i) of
        Some a \<Rightarrow> rx_connected E C m a i
      | None \<Rightarrow> Some (nr_rx_ra_sdu E C m i (rx_harq_pid i mod 256)))"

end
