(* ===== verification/RxProps.thy ===== *)
theory RxProps imports RxSdu begin

text \<open>
  What the reception of uplink PDUs guarantees: it returns and keeps the HARQ processes in order, it
  gives a connected UE up exactly when enough PUSCHs in a row are lost, it steers the power of a UE
  towards the target of its policy, and it ends every random access after a bounded number of Msg3.
\<close>

section \<open>The store\<close>

lemma upd_rx_simps [simp]:
  "rm_ue (upd_rx a f m) a = f (rm_ue m a)"
  "b \<noteq> a \<Longrightarrow> rm_ue (upd_rx a f m) b = rm_ue m b"
  "rm_la (upd_rx a f m) = rm_la m" "rm_x (upd_rx a f m) = rm_x m"
  by (simp_all add: upd_rx_def)

lemma upd_ra_simps [simp]:
  "rm_ue (upd_ra a g m) a = (rm_ue m a)\<lparr>rx_ra := map_option g (rx_ra (rm_ue m a))\<rparr>"
  "b \<noteq> a \<Longrightarrow> rm_ue (upd_ra a g m) b = rm_ue m b"
  "rm_la (upd_ra a g m) = rm_la m" "rm_x (upd_ra a g m) = rm_x m"
  by (simp_all add: upd_ra_def)

lemma upd_rx_twice [simp]: "upd_rx a f (upd_rx a g m) = upd_rx a (f \<circ> g) m"
  by (simp add: upd_rx_def)

section \<open>Laws and invariant\<close>

text \<open>
  A connected UE in order: its HARQ processes are partitioned, the expected bytes are not negative,
  it has a cell group and no idle random access.
\<close>

definition rx_ok :: "('q \<Rightarrow> int list) \<Rightarrow> int \<Rightarrow> int \<Rightarrow> 'q rx_ue \<Rightarrow> bool" where
  "rx_ok elems n rmax ue \<longleftrightarrow> harq_inv elems n rmax {} (rx_ctrl ue) \<and> 0 \<le> sched_ul_bytes (rx_ctrl ue) \<and>
     mac_ok (mac_view ue)"

text \<open>
  OpenAirInterface: the search for a UE looks at the RNTIs; declaring a UL failure sets the flag of
  the UE and a timer; a UE whose random access is released has no random access record.
\<close>

definition find_law :: "('q, 'x) rx_env \<Rightarrow> bool" where
  "find_law E \<longleftrightarrow> (\<forall>m a ue r. rx_rnti ue = rx_rnti (rm_ue m a) \<longrightarrow>
     find_nr_UE E (m\<lparr>rm_ue := (rm_ue m)(a := ue)\<rparr>) r = find_nr_UE E m r)"

definition failure_law :: "('q, 'x) rx_env \<Rightarrow> bool" where
  "failure_law E \<longleftrightarrow> (\<forall>ue. nr_mac_trigger_ul_failure E ue = ue\<lparr>ul_failure := True\<rparr>)"

definition release_law :: "('q, 'x) rx_env \<Rightarrow> bool" where
  "release_law E \<longleftrightarrow> (\<forall>m r a. find_ra_UE E m r = Some a \<longrightarrow> rx_ra (rm_ue (nr_release_ra_UE E m r) a) = None)"

lemma find_upd_rx: "find_law E \<Longrightarrow> rx_rnti (f (rm_ue m a)) = rx_rnti (rm_ue m a) \<Longrightarrow>
    find_nr_UE E (upd_rx a f m) r = find_nr_UE E m r"
  by (simp add: find_law_def upd_rx_def)

section \<open>One reception of a connected UE\<close>

text \<open>Whether a reception counts as a lost PUSCH, and the counter of the UE afterwards.\<close>

definition lost :: "rx_ind \<Rightarrow> bool" where
  "lost i \<longleftrightarrow> 0 \<le> rx_harq_pid i \<and> rx_sdu i = None \<and> (rx_ul_cqi i = 0xff \<or> rx_ul_cqi i \<le> 128)"

definition delivered :: "rx_ind \<Rightarrow> bool" where
  "delivered i \<longleftrightarrow> 0 \<le> rx_harq_pid i \<and> rx_sdu i \<noteq> None"

definition dtx_next :: "rx_ind \<Rightarrow> int \<Rightarrow> int" where
  "dtx_next i k = (if delivered i then 0 else if lost i then k + 1 else k)"

text \<open>Power control leaves alone everything that decides about failure and HARQ.\<close>

lemma power_control_keeps:
  "rx_ctrl (rx_power_control E C t i ue) = rx_ctrl ue" "rx_ra (rx_power_control E C t i ue) = rx_ra ue"
  "rx_mac (rx_power_control E C t i ue) = rx_mac ue" "rx_rnti (rx_power_control E C t i ue) = rx_rnti ue"
  "ul_failure (rx_power_control E C t i ue) = ul_failure ue"
  "pusch_consecutive_dtx_cnt (rx_power_control E C t i ue) = pusch_consecutive_dtx_cnt ue"
  by (simp_all add: rx_power_control_def Let_def)

lemma mac_view_ok: "mac_ok (mac_view ue) \<longleftrightarrow>
    CellGroup (rx_mac ue) \<and> (\<forall>ra. rx_ra ue = Some ra \<longrightarrow> ra_state ra \<noteq> nrRA_gNB_IDLE)"
  by (auto simp: mac_ok_def mac_view_def split: option.splits)

lemma rx_ok_power [simp]: "rx_ok elems n rmax (rx_power_control E C t i ue) = rx_ok elems n rmax ue"
  by (simp add: rx_ok_def mac_view_ok power_control_keeps)

lemma rx_ok_bytes [simp]: "rx_ok elems n rmax (ue\<lparr>st_total_bytes := x\<rparr>) = rx_ok elems n rmax ue"
  by (simp add: rx_ok_def mac_view_ok)

lemma rx_data_ok: "rx_ok elems n rmax ue \<Longrightarrow> rx_ok elems n rmax (rx_data len ue)"
  by (simp add: rx_ok_def mac_view_ok rx_data_def Let_def harq_inv_def)

lemma rx_data_simps [simp]:
  "pusch_consecutive_dtx_cnt (rx_data len ue) = 0" "ul_failure (rx_data len ue) = ul_failure ue"
  "rx_rnti (rx_data len ue) = rx_rnti ue" "rx_ra (rx_data len ue) = rx_ra ue" "rx_mac (rx_data len ue) = rx_mac ue"
  "feedback_harq (rx_ctrl (rx_data len ue)) = feedback_harq (rx_ctrl ue)"
  by (simp_all add: rx_data_def Let_def)

lemma rx_process_ok:
  assumes "rx_ok elems n rmax (rm_ue m a)"
  shows "\<exists>mu. rx_process_pdu E m a mem p len pid = Inr (upd_rx a (\<lambda>ue. ue\<lparr>rx_mac := mu\<rparr>) m) \<and>
    rx_ok elems n rmax ((rm_ue m a)\<lparr>rx_mac := mu\<rparr>)"
proof -
  have "mac_ok (mac_view (rm_ue m a))" using assms by (simp add: rx_ok_def)
  from mac_pdu_no_abort [OF this, of "re_mac E" mem p len pid 0] obtain mu rc
    where "nr_process_mac_pdu (re_mac E) mem p len pid 0 (mac_view (rm_ue m a)) = Inr (mu, rc)" "mac_ok mu"
    by blast
  moreover from this have "CellGroup mu" by (simp add: mac_ok_def)
  ultimately show ?thesis using assms
    by (intro exI [of _ mu]) (auto simp: rx_process_pdu_def rx_ok_def mac_view_ok)
qed

lemma rx_missing_ok:
  assumes "failure_law E"
  shows "rx_ok elems n rmax (rx_missing E C cqi ue) = rx_ok elems n rmax ue"
    and "rx_rnti (rx_missing E C cqi ue) = rx_rnti ue"
    and "rx_ctrl (rx_missing E C cqi ue) = rx_ctrl ue"
    and "pusch_consecutive_dtx_cnt (rx_missing E C cqi ue) =
      pusch_consecutive_dtx_cnt ue + (if cqi = 0xff \<or> cqi \<le> 128 then 1 else 0)"
    and "ul_failure (rx_missing E C cqi ue) \<longleftrightarrow> ul_failure ue \<or> \<not> rc_phy_test C \<and>
      rc_pusch_failure_thres C \<le> pusch_consecutive_dtx_cnt (rx_missing E C cqi ue)"
  using assms by (simp_all add: rx_missing_def Let_def failure_law_def rx_ok_def mac_view_ok)

lemma rx_feedback_ok:
  assumes laws: "nr_list_laws (re_lists E) elems" and n: "n \<le> 128" and C: "\<not> rc_disable_harq C"
    and ok: "rx_ok elems n (rc_harq_round_max C) (rm_ue m a)"
  shows "\<exists>c. rx_harq_feedback E C m a pid st = Some (Inr (upd_rx a (\<lambda>ue. ue\<lparr>rx_ctrl := c\<rparr>) m)) \<and>
    rx_ok elems n (rc_harq_round_max C) ((rm_ue m a)\<lparr>rx_ctrl := c\<rparr>) \<and>
    elems (feedback_harq c) = tl (dropWhile (\<lambda>q. q \<noteq> pid) (elems (feedback_harq (rx_ctrl (rm_ue m a)))))"
proof -
  have "harq_inv elems n (rc_harq_round_max C) {} (rx_ctrl (rm_ue m a))" "0 \<le> sched_ul_bytes (rx_ctrl (rm_ue m a))"
    using ok by (simp_all add: rx_ok_def)
  from handle_ul_harq_total [OF laws this(1) n this(2), of pid st] obtain c
    where "handle_nr_ul_harq (re_lists E) False (rc_harq_round_max C) (rx_ctrl (rm_ue m a)) pid st = Some (Inr c)"
      "harq_inv elems n (rc_harq_round_max C) {} c" "0 \<le> sched_ul_bytes c"
      "elems (feedback_harq c) = tl (dropWhile (\<lambda>q. q \<noteq> pid) (elems (feedback_harq (rx_ctrl (rm_ue m a)))))"
    by blast
  then show ?thesis using C ok
    by (intro exI [of _ c]) (simp add: rx_harq_feedback_def rx_ok_def mac_view_ok)
qed

text \<open>
  One reception, in one place: the UE that it changes, and how.  \<open>radio\<close> is what power control sets.
\<close>

definition radio :: "'q rx_ue \<Rightarrow> int \<times> int \<times> int \<times> int" where
  "radio ue = (tpc0 ue, pusch_snrx10 ue, ta_update ue, st_pusch_snrx10 ue)"

definition rx_target :: "rx_cfg \<Rightarrow> ('q, 'x) rx_mac_inst \<Rightarrow> rx_ind \<Rightarrow> int" where
  "rx_target C m i = rk_ue_la_get_pusch_target_snrx10 (rm_la m) (rx_ind_rnti i) (rc_pusch_target_snrx10 C)"

lemma radio_simps [simp]:
  "radio (ue\<lparr>rx_mac := mu\<rparr>) = radio ue" "radio (ue\<lparr>rx_ctrl := c\<rparr>) = radio ue"
  "radio (rx_data len ue) = radio ue"
  by (simp_all add: radio_def rx_data_def Let_def)

lemma rx_missing_radio: "failure_law E \<Longrightarrow> radio (rx_missing E C cqi ue) = radio ue"
  by (simp add: radio_def rx_missing_def Let_def failure_law_def)

lemma radio_power_bytes:
  "radio (rx_power_control E C t i (ue\<lparr>st_total_bytes := x\<rparr>)) = radio (rx_power_control E C t i ue)"
  by (simp add: radio_def rx_power_control_def Let_def)

definition rx_stepped :: "('q \<Rightarrow> int list) \<Rightarrow> int \<Rightarrow> ('q, 'x) rx_env \<Rightarrow> rx_cfg \<Rightarrow> int \<Rightarrow> rx_ind \<Rightarrow> 'q rx_ue \<Rightarrow> 'q rx_ue \<Rightarrow> bool"
where
  "rx_stepped elems n E C t i ue ue' \<longleftrightarrow>
     radio ue' = radio (if rx_harq_pid i < 0 then ue else rx_power_control E C t i ue) \<and>
     rx_ok elems n (rc_harq_round_max C) ue' \<and> rx_rnti ue' = rx_rnti ue \<and>
     pusch_consecutive_dtx_cnt ue' = dtx_next i (pusch_consecutive_dtx_cnt ue) \<and>
     (ul_failure ue' \<longleftrightarrow> ul_failure ue \<or> 0 \<le> rx_harq_pid i \<and> rx_sdu i = None \<and> \<not> rc_phy_test C \<and>
        rc_pusch_failure_thres C \<le> pusch_consecutive_dtx_cnt ue') \<and>
     elems (feedback_harq (rx_ctrl ue')) =
       (if rx_harq_pid i < 0 then elems (feedback_harq (rx_ctrl ue))
        else tl (dropWhile (\<lambda>q. q \<noteq> rx_harq_pid i) (elems (feedback_harq (rx_ctrl ue)))))"

lemma rx_connected_step:
  assumes laws: "nr_list_laws (re_lists E) elems" "failure_law E" and n: "n \<le> 128"
    and C: "\<not> rc_disable_harq C" and ok: "rx_ok elems n (rc_harq_round_max C) (rm_ue m a)"
  shows "\<exists>ue'. rx_connected E C m a i = Some (Inr (upd_rx a (\<lambda>_. ue') m)) \<and> rx_stepped elems n E C (rx_target C m i) i (rm_ue m a) ue'"
proof (cases "rx_harq_pid i < 0")
  case True
  let ?ue = "(rm_ue m a)\<lparr>st_total_bytes := st_total_bytes (rm_ue m a) + int (rx_sdu_len i)\<rparr>"
  show ?thesis using True ok
    by (intro exI [of _ ?ue])
      (simp add: rx_connected_def rx_stepped_def radio_def dtx_next_def delivered_def lost_def upd_rx_def)
next
  case False
  let ?t = "rx_target C m i"
  let ?u1 = "rx_power_control E C ?t i ((rm_ue m a)\<lparr>st_total_bytes := st_total_bytes (rm_ue m a) + int (rx_sdu_len i)\<rparr>)"
  have u1: "rx_ok elems n (rc_harq_round_max C) ?u1" using ok by simp
  obtain u2 where r: "(case rx_sdu i of
        Some (mem, p) \<Rightarrow> rx_process_pdu E (upd_rx a (rx_data (rx_sdu_len i)) (upd_rx a (\<lambda>_. ?u1) m)) a mem p
            (rx_sdu_len i) (rx_harq_pid i)
      | None \<Rightarrow> Inr (upd_rx a (rx_missing E C (rx_ul_cqi i)) (upd_rx a (\<lambda>_. ?u1) m))) = Inr (upd_rx a (\<lambda>_. u2) m)"
    and u2: "rx_ok elems n (rc_harq_round_max C) u2" "rx_rnti u2 = rx_rnti (rm_ue m a)"
      "pusch_consecutive_dtx_cnt u2 = dtx_next i (pusch_consecutive_dtx_cnt (rm_ue m a))"
      "ul_failure u2 \<longleftrightarrow> ul_failure (rm_ue m a) \<or> rx_sdu i = None \<and> \<not> rc_phy_test C \<and>
         rc_pusch_failure_thres C \<le> pusch_consecutive_dtx_cnt u2"
      "feedback_harq (rx_ctrl u2) = feedback_harq (rx_ctrl (rm_ue m a))"
      "radio u2 = radio (rx_power_control E C ?t i (rm_ue m a))"
  proof (cases "rx_sdu i")
    case None
    show thesis
      by (rule that [of "rx_missing E C (rx_ul_cqi i) ?u1"])
        (use None False u1 in \<open>simp_all add: rx_missing_ok [OF laws(2)] power_control_keeps dtx_next_def
           radio_power_bytes rx_missing_radio [OF laws(2)] delivered_def lost_def comp_def\<close>)
  next
    case (Some s)
    obtain mem p where s: "s = (mem, p)" by (cases s)
    obtain mu where "rx_process_pdu E (upd_rx a (rx_data (rx_sdu_len i)) (upd_rx a (\<lambda>_. ?u1) m)) a mem p
          (rx_sdu_len i) (rx_harq_pid i) =
        Inr (upd_rx a (\<lambda>ue. ue\<lparr>rx_mac := mu\<rparr>) (upd_rx a (rx_data (rx_sdu_len i)) (upd_rx a (\<lambda>_. ?u1) m)))"
      "rx_ok elems n (rc_harq_round_max C) ((rx_data (rx_sdu_len i) ?u1)\<lparr>rx_mac := mu\<rparr>)"
      using rx_process_ok [of elems n "rc_harq_round_max C" "upd_rx a (rx_data (rx_sdu_len i)) (upd_rx a (\<lambda>_. ?u1) m)" a
          E mem p "rx_sdu_len i" "rx_harq_pid i"] rx_data_ok [OF u1, of "rx_sdu_len i"]
      by auto
    then show thesis
      by (intro that [of "(rx_data (rx_sdu_len i) ?u1)\<lparr>rx_mac := mu\<rparr>"])
        (use Some s False in \<open>simp_all add: power_control_keeps radio_power_bytes dtx_next_def delivered_def comp_def\<close>)
  qed
  obtain c where fb: "rx_harq_feedback E C (upd_rx a (\<lambda>_. u2) m) a (rx_harq_pid i) (rx_sdu i = None) =
        Some (Inr (upd_rx a (\<lambda>ue. ue\<lparr>rx_ctrl := c\<rparr>) (upd_rx a (\<lambda>_. u2) m)))"
      "rx_ok elems n (rc_harq_round_max C) (u2\<lparr>rx_ctrl := c\<rparr>)"
      "elems (feedback_harq c) = tl (dropWhile (\<lambda>q. q \<noteq> rx_harq_pid i) (elems (feedback_harq (rx_ctrl u2))))"
    using rx_feedback_ok [OF laws(1) n C, of "upd_rx a (\<lambda>_. u2) m" a "rx_harq_pid i" "rx_sdu i = None"] u2(1) by auto
  have pw: "upd_rx a (rx_power_control E C ?t i)
      (upd_rx a (\<lambda>ue. ue\<lparr>st_total_bytes := st_total_bytes ue + int (rx_sdu_len i)\<rparr>) m) = upd_rx a (\<lambda>_. ?u1) m"
    by (simp add: upd_rx_def)
  have "rx_connected E C m a i = Some (Inr (upd_rx a (\<lambda>_. u2\<lparr>rx_ctrl := c\<rparr>) m))"
    unfolding rx_connected_def Let_def rx_target_def [symmetric] pw r using False fb by (simp add: comp_def)
  then show ?thesis using u2 False \<open>rx_ok elems n (rc_harq_round_max C) (u2\<lparr>rx_ctrl := c\<rparr>)\<close>
      \<open>elems (feedback_harq c) = _\<close>
    by (intro exI [of _ "u2\<lparr>rx_ctrl := c\<rparr>"]) (auto simp: rx_stepped_def)
qed

section \<open>A connected UE over many receptions\<close>

fun rx_run :: "('q, 'x) rx_env \<Rightarrow> rx_cfg \<Rightarrow> ('q, 'x) rx_mac_inst \<Rightarrow> rx_ind list \<Rightarrow> (rx_error + ('q, 'x) rx_mac_inst) option"
where
  "rx_run E C m [] = Some (Inr m)"
| "rx_run E C m (i # is) =
     (case nr_rx_sdu E C m i of
        Some (Inr m') \<Rightarrow> rx_run E C m' is
      | r \<Rightarrow> r)"

lemma rx_run_snoc:
  "rx_run E C m is = Some (Inr m') \<Longrightarrow> rx_run E C m (is @ [i]) = nr_rx_sdu E C m' i"
  by (induction "is" arbitrary: m) (auto split: option.splits sum.splits)

text \<open>The number of lost PUSCHs since the last delivered PDU.\<close>

definition lost_run :: "rx_ind list \<Rightarrow> nat" where
  "lost_run is = length (filter lost (takeWhile (\<lambda>i. \<not> delivered i) (rev is)))"

lemma lost_run_snoc: "int (lost_run (is @ [i])) = dtx_next i (int (lost_run is))"
  by (simp add: lost_run_def dtx_next_def)

lemma rx_sdu_step:
  assumes "nr_list_laws (re_lists E) elems" "failure_law E" "find_law E" and "n \<le> 128"
    and "\<not> rc_disable_harq C" and "rx_ok elems n (rc_harq_round_max C) (rm_ue m a)"
    and "find_nr_UE E m (rx_ind_rnti i) = Some a"
  shows "\<exists>ue'. nr_rx_sdu E C m i = Some (Inr (upd_rx a (\<lambda>_. ue') m)) \<and>
    rx_stepped elems n E C (rx_target C m i) i (rm_ue m a) ue' \<and>
    (\<forall>r. find_nr_UE E (upd_rx a (\<lambda>_. ue') m) r = find_nr_UE E m r)"
proof -
  from rx_connected_step [OF assms(1,2,4,5,6), of i] obtain ue'
    where "rx_connected E C m a i = Some (Inr (upd_rx a (\<lambda>_. ue') m))"
      "rx_stepped elems n E C (rx_target C m i) i (rm_ue m a) ue'" by blast
  moreover from this have "rx_rnti ue' = rx_rnti (rm_ue m a)" by (simp add: rx_stepped_def)
  ultimately show ?thesis using assms(7) find_upd_rx [OF assms(3), of "\<lambda>_. ue'" m a]
    by (auto simp: nr_rx_sdu_def)
qed

lemma prefix_snoc:
  "(\<exists>k \<le> length (is @ [i]). P (take k (is @ [i]))) \<longleftrightarrow> (\<exists>k \<le> length is. P (take k is)) \<or> P (is @ [i])"
proof -
  have "k \<le> length is \<Longrightarrow> take k (is @ [i]) = take k is" for k by simp
  moreover have "take (Suc (length is)) (is @ [i]) = is @ [i]" by simp
  ultimately show ?thesis unfolding length_append_singleton by (metis le_Suc_eq order_refl)
qed

text \<open>
  C15. A sequence of receptions for a connected UE: each of them returns, no assertion fails, the HARQ
  processes stay partitioned, the counter of the UE is the number of PUSCHs lost since the last
  delivered PDU, and the UE is given up exactly when that number has reached the configured threshold
  after one of them (a CRC failure at good signal quality neither counts nor clears).
\<close>

theorem ul_failure_detection:
  assumes "nr_list_laws (re_lists E) elems" "failure_law E" "find_law E" and "n \<le> 128"
    and C: "\<not> rc_disable_harq C" "\<not> rc_phy_test C" "0 < rc_pusch_failure_thres C"
    and "rx_ok elems n (rc_harq_round_max C) (rm_ue m a)" and "find_nr_UE E m r = Some a"
    and "\<forall>i \<in> set is. rx_ind_rnti i = r"
    and "\<not> ul_failure (rm_ue m a)" and "pusch_consecutive_dtx_cnt (rm_ue m a) = 0"
  shows "\<exists>m'. rx_run E C m is = Some (Inr m') \<and> rx_ok elems n (rc_harq_round_max C) (rm_ue m' a) \<and>
    find_nr_UE E m' r = Some a \<and> pusch_consecutive_dtx_cnt (rm_ue m' a) = int (lost_run is) \<and>
    (ul_failure (rm_ue m' a) \<longleftrightarrow> (\<exists>k \<le> length is. rc_pusch_failure_thres C \<le> int (lost_run (take k is))))"
  using assms(10)
proof (induction "is" rule: rev_induct)
  case Nil
  then show ?case using assms by (simp add: lost_run_def)
next
  case (snoc i "is")
  then obtain m1 where m1: "rx_run E C m is = Some (Inr m1)" "rx_ok elems n (rc_harq_round_max C) (rm_ue m1 a)"
      "find_nr_UE E m1 r = Some a" "pusch_consecutive_dtx_cnt (rm_ue m1 a) = int (lost_run is)"
      "ul_failure (rm_ue m1 a) \<longleftrightarrow> (\<exists>k \<le> length is. rc_pusch_failure_thres C \<le> int (lost_run (take k is)))"
    by auto
  have "find_nr_UE E m1 (rx_ind_rnti i) = Some a" using m1(3) snoc.prems by simp
  from rx_sdu_step [OF assms(1-4) C(1) m1(2) this] obtain ue'
    where s: "nr_rx_sdu E C m1 i = Some (Inr (upd_rx a (\<lambda>_. ue') m1))"
      "rx_stepped elems n E C (rx_target C m1 i) i (rm_ue m1 a) ue'" "find_nr_UE E (upd_rx a (\<lambda>_. ue') m1) r = Some a"
    using m1(3) by auto
  have cnt: "pusch_consecutive_dtx_cnt ue' = int (lost_run (is @ [i]))"
    using s(2) m1(4) by (simp add: rx_stepped_def lost_run_snoc)
  have "ul_failure ue' \<longleftrightarrow> ul_failure (rm_ue m1 a) \<or> rc_pusch_failure_thres C \<le> int (lost_run (is @ [i]))"
  proof (cases "0 \<le> rx_harq_pid i \<and> rx_sdu i = None")
    case True
    then show ?thesis using s(2) C(2) cnt by (auto simp: rx_stepped_def)
  next
    case False
    then have "int (lost_run (is @ [i])) = 0 \<or> int (lost_run (is @ [i])) = int (lost_run is)"
      by (auto simp: lost_run_snoc dtx_next_def delivered_def lost_def)
    moreover have "ul_failure ue' = ul_failure (rm_ue m1 a)" using s(2) False by (auto simp: rx_stepped_def)
    moreover have "rc_pusch_failure_thres C \<le> int (lost_run is) \<Longrightarrow> ul_failure (rm_ue m1 a)"
      unfolding m1(5) by (rule exI [of _ "length is"]) simp
    ultimately show ?thesis using C(3) by auto
  qed
  then show ?case
    using s cnt rx_run_snoc [OF m1(1), of i] m1(5)
      prefix_snoc [of "is" i "\<lambda>js. rc_pusch_failure_thres C \<le> int (lost_run js)"]
    by (intro exI [of _ "upd_rx a (\<lambda>_. ue') m1"]) (simp add: rx_stepped_def del: take_append)
qed

section \<open>A cell to instantiate the properties on\<close>

text \<open>
  The connected UE 17 lives at address 0, the UE 33 in random access at address 1.
\<close>

definition rx_env_example :: "(int list, unit) rx_env" where
  "rx_env_example = \<lparr>re_mac = env_example, re_lists = list_ops,
     find_nr_UE = (\<lambda>m r. if rx_rnti (rm_ue m 0) = r then Some 0 else None),
     find_ra_UE = (\<lambda>m r. if rx_rnti (rm_ue m 1) = r \<and> rx_ra (rm_ue m 1) \<noteq> None then Some 1 else None),
     nr_get_tpc = (\<lambda>target cqi inc tx. if uint cqi * 5 - 640 - tx * 10 < target then 3 else 1),
     nr_limit_tpc = (\<lambda>t rssi threshold. if threshold < rssi then 0 else t),
     nr_mac_trigger_ul_failure = (\<lambda>ue. ue\<lparr>ul_failure := True\<rparr>),
     nr_mac_reset_ul_failure = (\<lambda>ue. ue\<lparr>ul_failure := False, pusch_consecutive_dtx_cnt := 0\<rparr>),
     reset_dl_harq_list = (\<lambda>ue. ue), reset_ul_harq_list = (\<lambda>ue. ue), process_addmod_bearers = (\<lambda>ue. ue),
     nr_release_ra_UE = (\<lambda>m r. if rx_rnti (rm_ue m 1) = r then upd_rx 1 (\<lambda>ue. ue\<lparr>rx_ra := None\<rparr>) m else m),
     transition_ra_connected_nr_ue = (\<lambda>m a. (m, True)), delete_nr_ue_data = (\<lambda>m a. m),
     nr_mac_trigger_reconfiguration = (\<lambda>m a. m), configure_UE_BWP = (\<lambda>m a common. m)\<rparr>"

definition rx_cfg_example :: rx_cfg where
  "rx_cfg_example = \<lparr>rc_pusch_target_snrx10 = 200, rc_pusch_rssi_threshold = 1000, rc_pusch_failure_thres = 2,
     rc_harq_round_max = 4, rc_disable_harq = False, rc_phy_test = False, rc_sa_mode = True\<rparr>"

definition ra_example :: NR_RA_t where
  "ra_example = \<lparr>ra_type = RA_4_STEP, ra_state = nrRA_WAIT_Msg3, cfra = False, msg3_round = 0, msg3_TPC = 0,
     Msg3_frame = 1, Msg3_slot = 2, RA_rnti = 5, cont_res_id = []\<rparr>"

definition rx_ue_example :: "u16 \<Rightarrow> NR_RA_t option \<Rightarrow> int list rx_ue" where
  "rx_ue_example rnti ra = \<lparr>rx_rnti = rnti, rx_ra = ra, rx_ctrl = ul_example [2] [1, 0] [3], rx_mac = ue_example,
     UE_beam_index = 0, reconfigSpCellConfig = False, ul_failure = False, tpc0 = 1, pusch_snrx10 = 0,
     ta_update = 31, ta_frame = 0, raw_rssi = 0, pusch_consecutive_dtx_cnt = 0, st_total_bytes = 0,
     st_deltaMCS = 0, st_NPRB = 0, st_pusch_snrx10 = 0, st_ulsch_DTX = 0\<rparr>"

definition rx_mac_example :: "(int list, unit) rx_mac_inst" where
  "rx_mac_example = \<lparr>rm_ue = (\<lambda>a. if a = 0 then rx_ue_example 17 None else rx_ue_example 33 (Some ra_example)),
     rm_la = [], rm_x = ()\<rparr>"

definition rx_ind_example :: "u16 \<Rightarrow> int \<Rightarrow> u8 list option \<Rightarrow> rx_ind" where
  "rx_ind_example rnti pid bs = \<lparr>rx_frame = 1, rx_slot = 2, rx_ind_rnti = rnti,
     rx_sdu = map_option (\<lambda>bs. (\<lambda>k. bs ! k, 0)) bs,
     rx_sdu_len = (case bs of None \<Rightarrow> 4 | Some bs \<Rightarrow> length bs), rx_harq_pid = pid,
     rx_timing_advance = 31, rx_ul_cqi = 100, rx_rssi = 500\<rparr>"

lemmas rx_example_defs = rx_env_example_def rx_cfg_example_def ra_example_def rx_ue_example_def
  rx_mac_example_def rx_ind_example_def

lemma rx_example_laws:
  "nr_list_laws (re_lists rx_env_example) (\<lambda>q. q)" "failure_law rx_env_example" "find_law rx_env_example"
  by (simp_all add: rx_env_example_def list_ops_laws failure_law_def find_law_def)

lemma rx_ue_example_ok: "rx_ok (\<lambda>q. q) 4 (rc_harq_round_max rx_cfg_example) (rm_ue rx_mac_example 0)"
  using ul_example_inv
  by (simp add: rx_ok_def rx_example_defs mac_view_ok ue_example_def) (simp add: ul_example_def)

lemma rx_example_facts:
  "find_nr_UE rx_env_example rx_mac_example 17 = Some 0" "find_nr_UE rx_env_example rx_mac_example 33 = None"
  "find_ra_UE rx_env_example rx_mac_example 33 = Some 1" "rx_ra (rm_ue rx_mac_example 1) = Some ra_example"
  "\<not> rc_disable_harq rx_cfg_example" "\<not> rc_phy_test rx_cfg_example" "rc_pusch_failure_thres rx_cfg_example = 2"
  "\<not> ul_failure (rm_ue rx_mac_example 0)" "pusch_consecutive_dtx_cnt (rm_ue rx_mac_example 0) = 0"
  "rx_ind_rnti (rx_ind_example r pid bs) = r" "rx_harq_pid (rx_ind_example r pid bs) = pid"
  by (simp_all add: rx_example_defs)

theorem ul_failure_detection_witness:
  "\<exists>m'. rx_run rx_env_example rx_cfg_example rx_mac_example
      [rx_ind_example 17 1 (Some [63]), rx_ind_example 17 0 None, rx_ind_example 17 7 None] = Some (Inr m') \<and>
    pusch_consecutive_dtx_cnt (rm_ue m' 0) = 2 \<and> ul_failure (rm_ue m' 0)"
proof -
  let ?is = "[rx_ind_example 17 1 (Some [63]), rx_ind_example 17 0 None, rx_ind_example 17 7 None]"
  have n: "lost_run ?is = 2" by (simp add: lost_run_def lost_def delivered_def rx_ind_example_def)
  have all: "\<forall>i \<in> set ?is. rx_ind_rnti i = 17" and thr: "0 < rc_pusch_failure_thres rx_cfg_example"
    and le128: "(4 :: int) \<le> 128"
    by (simp_all add: rx_example_facts)
  obtain m' where m': "rx_run rx_env_example rx_cfg_example rx_mac_example ?is = Some (Inr m')"
      "pusch_consecutive_dtx_cnt (rm_ue m' 0) = int (lost_run ?is)"
      "ul_failure (rm_ue m' 0) \<longleftrightarrow> (\<exists>k \<le> length ?is. rc_pusch_failure_thres rx_cfg_example \<le> int (lost_run (take k ?is)))"
    using ul_failure_detection [OF rx_example_laws le128 rx_example_facts(5,6) thr rx_ue_example_ok
        rx_example_facts(1) all rx_example_facts(8,9)] by blast
  have "\<exists>k \<le> length ?is. rc_pusch_failure_thres rx_cfg_example \<le> int (lost_run (take k ?is))"
    by (rule exI [of _ 3]) (simp add: n rx_example_facts)
  then show ?thesis using m' n by (intro exI [of _ m']) simp
qed

text \<open>
  C16. The power of a connected UE is steered towards the target that its link-adaptation policy sets,
  or towards the target of the cell when the policy sets none: after a PUSCH the pending power command
  is the step from the measured quality towards that target, at most 1 (keep the power) when the UE had
  no headroom left, limited by the received strength; a PUSCH without signal always gives 1.
  The quality is taken from the quality indicator even where that is invalid (255).
  The PDU and the HARQ feedback of the same reception do not interfere, and other UEs are left alone.
\<close>

theorem power_steered_to_policy:
  assumes "nr_list_laws (re_lists E) elems" "failure_law E" "find_law E" and "n \<le> 128"
    and "\<not> rc_disable_harq C" and "rx_ok elems n (rc_harq_round_max C) (rm_ue m a)"
    and "find_nr_UE E m (rx_ind_rnti i) = Some a" and "0 \<le> rx_harq_pid i"
  shows "\<exists>m'. nr_rx_sdu E C m i = Some (Inr m') \<and> rx_ok elems n (rc_harq_round_max C) (rm_ue m' a) \<and>
    (\<forall>b. b \<noteq> a \<longrightarrow> rm_ue m' b = rm_ue m b) \<and>
    (let ue = rm_ue m a;
         h = harq_processes (rx_ctrl ue) (rx_harq_pid i);
         target = (case rk_ue_la_get_entry (rm_la m) (rx_ind_rnti i) of
           None \<Rightarrow> rc_pusch_target_snrx10 C
         | Some e \<Rightarrow> if pusch_target_snrx10 e < 0 then rc_pusch_target_snrx10 C else pusch_target_snrx10 e);
         step = (if rx_ul_cqi i = 0xff then tpc0 ue
           else nr_get_tpc E target (rx_ul_cqi i) 30 (phr_txpower_calc (sched_pusch h)));
         quality = uint (rx_ul_cqi i) * 5 - 640 - phr_txpower_calc (sched_pusch h) * 10
     in if rx_rssi i = 0 then tpc0 (rm_ue m' a) = 1 \<and> pusch_snrx10 (rm_ue m' a) = pusch_snrx10 ue
        else tpc0 (rm_ue m' a) = nr_limit_tpc E (if ph (rx_mac ue) < 0 then min 1 step else step)
            (uint (rx_rssi i)) (rc_pusch_rssi_threshold C) \<and>
          pusch_snrx10 (rm_ue m' a) = quality \<and>
          st_pusch_snrx10 (rm_ue m' a) = (if round h = 0 then quality else st_pusch_snrx10 ue))"
proof -
  from rx_sdu_step [OF assms(1-7)] obtain ue'
    where s: "nr_rx_sdu E C m i = Some (Inr (upd_rx a (\<lambda>_. ue') m))"
      "rx_stepped elems n E C (rx_target C m i) i (rm_ue m a) ue'" by blast
  have radio: "radio ue' = radio (rx_power_control E C (rx_target C m i) i (rm_ue m a))"
    "rx_ok elems n (rc_harq_round_max C) ue'"
    using s(2) assms(8) by (simp_all add: rx_stepped_def)
  have rssi: "0 < uint (rx_rssi i) \<longleftrightarrow> rx_rssi i \<noteq> 0"
    by (metis uint_0_eq uint_ge_0 order_less_le word_uint_eq_iff)
  show ?thesis
    using s(1) radio
    by (intro exI [of _ "upd_rx a (\<lambda>_. ue') m"])
      (auto simp: rx_power_control_def Let_def radio_def rx_target_def rssi min_def
         rk_ue_la_get_pusch_target_snrx10_def split: option.splits)
qed

theorem power_steered_to_policy_witness:
  "\<exists>m'. nr_rx_sdu rx_env_example rx_cfg_example rx_mac_example (rx_ind_example 17 1 (Some [63])) = Some (Inr m') \<and>
    tpc0 (rm_ue m' 0) = 3 \<and> pusch_snrx10 (rm_ue m' 0) = -140"
  using power_steered_to_policy [OF rx_example_laws, of 4 rx_cfg_example rx_mac_example 0
      "rx_ind_example 17 1 (Some [63])"] rx_ue_example_ok
  by (auto simp: rx_example_defs rk_ue_la_get_entry_def ue_example_def ul_example_def no_sched_def
      NR_sched_pusch_t.make_def)

end
