(* ===== verification/RaProps.thy ===== *)
theory RaProps imports RxProps begin

text \<open>
  Random access in \<^verbatim>\<open>nr_rx_ra_sdu\<close>: a received Msg3 of a new UE moves the access on and delivers the
  CCCH SDU, a UE is released after a bounded number of failed Msg3, and the assertions of a reception.
\<close>

section \<open>Msg3 of a new UE\<close>

text \<open>The CCCH SDUs that fit into Msg3: 48 bits or 64 bits.\<close>

definition ccch_size :: "mac_env \<Rightarrow> int \<Rightarrow> nat \<Rightarrow> bool" where
  "ccch_size E l k \<longleftrightarrow> l = UL_SCH_LCID_CCCH_64_BITS E \<and> k = 8 \<or>
     (l = UL_SCH_LCID_CCCH_48_BITS E \<or> l = UL_SCH_LCID_CCCH_48_BITS_REDCAP E) \<and> k = 6"

lemma label_neq:
  assumes "lcids_ok E" and "i < 16" "j < 16" "i \<noteq> j"
  shows "lcid_labels E ! i \<noteq> lcid_labels E ! j"
proof -
  have "distinct (lcid_labels E)" using assms(1) unfolding lcids_ok_def by blast
  moreover have "length (lcid_labels E) = 16" by (simp add: lcid_labels_def)
  ultimately show ?thesis using assms(2-4) by (simp add: nth_eq_iff_index_eq)
qed

lemma label_nth:
  "lcid_labels E ! 0 = UL_SCH_LCID_CCCH_64_BITS E" "lcid_labels E ! 1 = UL_SCH_LCID_SRB1 E"
  "lcid_labels E ! 2 = UL_SCH_LCID_SRB2 E" "lcid_labels E ! 3 = UL_SCH_LCID_L_TRUNCATED_BSR E"
  "lcid_labels E ! 4 = UL_SCH_LCID_L_BSR E" "lcid_labels E ! 5 = UL_SCH_LCID_CCCH_48_BITS_REDCAP E"
  "lcid_labels E ! 6 = UL_SCH_LCID_CCCH_48_BITS E" "lcid_labels E ! 8 = UL_SCH_LCID_C_RNTI E"
  "lcid_labels E ! 11 = UL_SCH_LCID_PADDING E"
  by (simp_all add: lcid_labels_def)

lemma label_range:
  assumes "lcids_ok E" and "i < 16"
  shows "0 \<le> lcid_labels E ! i" "lcid_labels E ! i < 64"
    "\<not> (UL_SCH_LCID_DTCH E \<le> lcid_labels E ! i \<and> lcid_labels E ! i \<le> UL_SCH_LCID_DTCH E + 28)"
proof -
  have "lcid_labels E ! i \<in> set (lcid_labels E)" using assms(2) by (intro nth_mem) (simp add: lcid_labels_def)
  then show "0 \<le> lcid_labels E ! i" "lcid_labels E ! i < 64"
    "\<not> (UL_SCH_LCID_DTCH E \<le> lcid_labels E ! i \<and> lcid_labels E ! i \<le> UL_SCH_LCID_DTCH E + 28)"
    using assms(1) by (auto simp: lcids_ok_def list_all_iff)
qed

lemma ccch_index:
  assumes "ccch_size E l k"
  obtains "l = lcid_labels E ! 0" "k = 8" | i where "i = 5 \<or> i = 6" "l = lcid_labels E ! i" "k = 6"
  using assms unfolding ccch_size_def label_nth [symmetric] by metis

lemma ccch_label:
  assumes E: "lcids_ok E" and l: "ccch_size E l k"
  shows "0 \<le> l" "l < 64" "l \<noteq> UL_SCH_LCID_C_RNTI E" "l \<noteq> UL_SCH_LCID_PADDING E"
proof -
  obtain i where i: "i < 16" "i \<noteq> 8" "i \<noteq> 11" "l = lcid_labels E ! i"
    using l
  proof (cases rule: ccch_index)
    case 1
    then show thesis by (intro that [of 0]) simp_all
  next
    case (2 i)
    then show thesis by (intro that [of i]) auto
  qed
  show "0 \<le> l" "l < 64" using label_range [OF E i(1)] i(4) by simp_all
  show "l \<noteq> UL_SCH_LCID_C_RNTI E" "l \<noteq> UL_SCH_LCID_PADDING E"
    using label_neq [OF E i(1), of 8] label_neq [OF E i(1), of 11] i unfolding label_nth by simp_all
qed

lemma ccch_header:
  assumes E: "lcids_ok E" and l: "ccch_size E l k" and b: "mem p = word_of_int l"
  shows "decode_ul_mac_sub_pdu_header E mem p 0 = (1, l, k)"
proof -
  have lcid: "uint (mem p AND 0x3F) = l"
    unfolding b by (rule lcid_bits(1)) (use ccch_label [OF E l] in simp_all)
  show ?thesis using l
  proof (cases rule: ccch_index)
    case 1
    then have "l = UL_SCH_LCID_CCCH_64_BITS E" "k = 8" by (simp_all only: label_nth)
    then show ?thesis by (simp add: decode_ul_mac_sub_pdu_header_def Let_def lcid)
  next
    case (2 i)
    then have i: "i < 16" by auto
    have "l \<noteq> lcid_labels E ! j" if "j \<le> 4" for j
      unfolding 2(2) using that 2(1) by (intro label_neq [OF E i]) auto
    from this [of 0] this [of 1] this [of 2] this [of 3] this [of 4]
    have ne: "l \<noteq> UL_SCH_LCID_CCCH_64_BITS E" "l \<noteq> UL_SCH_LCID_SRB1 E" "l \<noteq> UL_SCH_LCID_SRB2 E"
      "l \<noteq> UL_SCH_LCID_L_TRUNCATED_BSR E" "l \<noteq> UL_SCH_LCID_L_BSR E"
      unfolding label_nth by simp_all
    have r: "\<not> (UL_SCH_LCID_DTCH E \<le> l \<and> l \<le> UL_SCH_LCID_DTCH E + 28)"
      unfolding 2(2) by (rule label_range(3) [OF E i])
    have "l = UL_SCH_LCID_CCCH_48_BITS_REDCAP E \<or> l = UL_SCH_LCID_CCCH_48_BITS E"
      using 2(1,2) by (elim disjE) (simp_all only: label_nth simp_thms)
    then show ?thesis
      unfolding decode_ul_mac_sub_pdu_header_def Let_def lcid using ne r 2(3) by (simp only: simp_thms if_True if_False)
  qed
qed

text \<open>What the CCCH SDU does to the UE.\<close>

definition got_ccch :: "mac_env \<Rightarrow> int \<Rightarrow> u8 list \<Rightarrow> mac_ue \<Rightarrow> mac_ue" where
  "got_ccch E l bs ue =
     (let ue = (if l = UL_SCH_LCID_CCCH_48_BITS_REDCAP E then ue\<lparr>is_redcap := True\<rparr> else ue)
      in if rrc_ready ue then ue\<lparr>rlc_data_ind := rlc_data_ind ue @ [(0, bs)]\<rparr> else ue)"

text \<open>A Msg3: the subheader, the SDU, and padding that starts with its own subheader.\<close>

definition msg3_pdu :: "mac_env \<Rightarrow> int \<Rightarrow> u8 list \<Rightarrow> u8 list \<Rightarrow> u8 list \<Rightarrow> bool" where
  "msg3_pdu E l bs padding pdu \<longleftrightarrow> pdu = word_of_int l # bs @ padding \<and> ccch_size E l (length bs) \<and>
     (\<exists>b \<in> set bs. b \<noteq> 0) \<and> (padding = [] \<or> hd padding = word_of_int (UL_SCH_LCID_PADDING E))"

lemma msg3_mem:
  assumes "msg3_pdu E l bs padding (map mem [p..<p + n])"
  shows "n = 1 + length bs + length padding" "mem p = word_of_int l" "map mem [p + 1..<p + 1 + length bs] = bs"
    and "padding \<noteq> [] \<Longrightarrow> mem (p + 1 + length bs) = word_of_int (UL_SCH_LCID_PADDING E)"
proof -
  have eq: "map mem [p..<p + n] = word_of_int l # bs @ padding" using assms by (simp add: msg3_pdu_def)
  from arg_cong [OF eq, of length] show n: "n = 1 + length bs + length padding" by simp
  have h: "holds mem p (word_of_int l # bs @ padding)" using eq n by (simp add: holds_def del: upt_Suc)
  then show "mem p = word_of_int l" by simp
  from h have "holds mem (p + 1) bs" by simp
  then show "map mem [p + 1..<p + 1 + length bs] = bs" unfolding holds_def .
  from h have "holds mem (p + 1 + length bs) padding" by simp
  then show "padding \<noteq> [] \<Longrightarrow> mem (p + 1 + length bs) = word_of_int (UL_SCH_LCID_PADDING E)"
    using assms by (cases padding) (auto simp: msg3_pdu_def)
qed

lemma msg3_no_crnti:
  assumes E: "lcids_ok E" and pdu: "msg3_pdu E l bs padding (map mem [p..<p + n])"
  shows "lcid_crnti_lookahead E mem p n = 0"
proof -
  note m = msg3_mem [OF pdu]
  have l: "ccch_size E l (length bs)" using pdu by (simp add: msg3_pdu_def)
  note d = ccch_header [of E l "length bs" mem p, OF E l m(2)]
  have "lcid_crnti_lookahead E mem p n = lcid_crnti_lookahead E mem (p + 1 + length bs) (length padding)"
    using d ccch_label(3,4) [OF E l] m(1)
    by (subst lcid_crnti_lookahead.simps) (simp add: add.commute)
  also have "\<dots> = 0"
  proof (cases "padding = []")
    case False
    show ?thesis using False padding_header [of E mem "p + 1 + length bs", OF E m(4) [OF False]] padding_label [OF E]
      by (subst lcid_crnti_lookahead.simps) simp
  qed (subst lcid_crnti_lookahead.simps, simp)
  finally show ?thesis .
qed

lemma msg3_processed:
  assumes E: "lcids_ok E" and pdu: "msg3_pdu E l bs padding (map mem [p..<p + n])"
  shows "nr_process_mac_pdu E mem p n pid 0 ue = Inr (got_ccch E l bs ue, 0)"
proof -
  note m = msg3_mem [OF pdu]
  have l: "ccch_size E l (length bs)" using pdu by (simp add: msg3_pdu_def)
  note d = ccch_header [of E l "length bs" mem p, OF E l m(2)]
  have "set bs \<subseteq> set (map mem [p..<p + (1 + length bs)])"
    by (subst m(3) [symmetric]) auto
  then have nz: "\<not> (\<forall>b \<in> set (map mem [p..<p + (1 + length bs)]). b = 0)"
    using pdu by (auto simp: msg3_pdu_def)
  have "process_subpdu E mem p 1 l (length bs) pid 0 ue = process_ccch E mem p 1 (length bs) l 0 ue"
    unfolding process_subpdu_def using l by (intro if_P) (auto simp: ccch_size_def)
  also have "\<dots> = Continue (got_ccch E l bs ue) 0"
    using nz m(3) by (simp add: process_ccch_def got_ccch_def deliver_def Let_def)
  finally have "nr_process_mac_pdu E mem p n pid 0 ue =
      nr_process_mac_pdu E mem (p + 1 + length bs) (length padding) pid 0 (got_ccch E l bs ue)"
    using d m(1) by (subst nr_process_mac_pdu.simps) simp
  also have "\<dots> = Inr (got_ccch E l bs ue, 0)"
  proof (cases "padding = []")
    case False
    then show ?thesis by (intro process_padding [of E mem "p + 1 + length bs", OF E m(4)]) simp_all
  qed (subst nr_process_mac_pdu.simps, simp)
  finally show ?thesis .
qed

lemma got_ccch_simps [simp]: "rx_ra (ue\<lparr>rx_mac := got_ccch E l bs mu\<rparr>) = rx_ra ue"
  by simp

text \<open>
  When a reception gets as far as the data: the access waits for Msg3 (or, for two steps, the RNTI is
  the one expected).
\<close>

definition expects_msg3 :: "NR_RA_t \<Rightarrow> u16 \<Rightarrow> bool" where
  "expects_msg3 ra rnti \<longleftrightarrow>
     (if ra_type ra = RA_4_STEP then ra_state ra = nrRA_WAIT_Msg3 else RA_rnti ra = rnti)"

lemma ra_sdu_eq:
  assumes "find_ra_UE E m (rx_ind_rnti i) = Some a" and "rx_ra (rm_ue m a) = Some ra"
    and "expects_msg3 ra (rx_ind_rnti i)" and "rx_sdu i = Some (mem, p)"
    and "\<not> list_all (\<lambda>k. mem (p + k) = 0) [0..<rx_sdu_len i]"
  shows "nr_rx_ra_sdu E C m i pid =
    (if \<not> (0 \<le> pid \<and> pid < 8) then Inl RxAssertHarqPid
     else let m' = upd_rx a (ra_measure E C i pid \<circ> (\<lambda>ue. ue\<lparr>ta_frame := rx_frame i\<rparr>)) m
          in if cfra ra then Inr (ra_cfra_done E C m' a)
             else ra_contention E m' a (rx_ind_rnti i) mem p (rx_sdu_len i))"
  using assms by (cases "ra_type ra") (simp_all add: nr_rx_ra_sdu_def expects_msg3_def Let_def)

lemma ra_measure_keeps [simp]:
  "rx_ra (ra_measure E C i pid ue) = rx_ra ue" "rx_mac (ra_measure E C i pid ue) = rx_mac ue"
  "rx_ctrl (ra_measure E C i pid ue) = rx_ctrl ue"
  by (simp_all add: ra_measure_def Let_def)

text \<open>
  C17. A Msg3 (or MsgA) of a new UE, in a contention-based access that expects it: a CCCH SDU of 48 or
  64 bits, with or without padding behind it.  The access moves on to Msg4 (or MsgB), the contention
  resolution identity becomes the first 48 bits of the SDU, the SDU goes to RRC once the UE has been
  announced there and nothing else is delivered, a reduced-capability UE is marked, the number of
  rounds and all other UEs are left alone.
\<close>

theorem msg3_accepted:
  assumes "lcids_ok (re_mac E)" and "find_nr_UE E m (rx_ind_rnti i) = None"
    and ra: "find_ra_UE E m (rx_ind_rnti i) = Some a" "rx_ra (rm_ue m a) = Some ra"
      "expects_msg3 ra (rx_ind_rnti i)" "\<not> cfra ra"
    and sdu: "rx_sdu i = Some (mem, p)"
    and pdu: "msg3_pdu (re_mac E) l bs padding (map mem [p..<p + rx_sdu_len i])"
    and pid: "0 \<le> rx_harq_pid i" "rx_harq_pid i < 8"
  shows "\<exists>m' ra'. nr_rx_sdu E C m i = Some (Inr m') \<and> rx_ra (rm_ue m' a) = Some ra' \<and>
    ra_state ra' = (if ra_type ra = RA_2_STEP then nrRA_MsgB else nrRA_Msg4) \<and>
    cont_res_id ra' = take 6 bs \<and> msg3_round ra' = msg3_round ra \<and>
    rlc_data_ind (rx_mac (rm_ue m' a)) = rlc_data_ind (rx_mac (rm_ue m a)) @
      (if rrc_ready (rx_mac (rm_ue m a)) then [(0, bs)] else []) \<and>
    (is_redcap (rx_mac (rm_ue m' a)) \<longleftrightarrow>
      is_redcap (rx_mac (rm_ue m a)) \<or> l = UL_SCH_LCID_CCCH_48_BITS_REDCAP (re_mac E)) \<and>
    (\<forall>b. b \<noteq> a \<longrightarrow> rm_ue m' b = rm_ue m b)"
proof -
  note mm = msg3_mem [OF pdu]
  have bs: "6 \<le> length bs" using pdu by (auto simp: msg3_pdu_def ccch_size_def)
  have "take 6 [p + 1..<p + 1 + length bs] = [p + 1..<p + 1 + 6]" using bs by (intro take_upt) simp
  moreover have "p + 1 + 6 = p + 7" by simp
  ultimately have "map mem [p + 1..<p + 7] = take 6 (map mem [p + 1..<p + 1 + length bs])"
    unfolding take_map by metis
  then have cont: "map mem [p + 1..<p + 7] = take 6 bs" unfolding mm(3) .
  obtain b where b: "b \<in> set (map mem [p + 1..<p + 1 + length bs])" "b \<noteq> 0"
    using pdu unfolding mm(3) msg3_pdu_def by blast
  then obtain k where "k \<in> set [p + 1..<p + 1 + length bs]" "mem k \<noteq> 0" unfolding set_map by blast
  then have "p + 1 \<le> k" "k < p + 1 + length bs" "mem k \<noteq> 0" unfolding set_upt atLeastLessThan_iff by blast+
  then have "k - p \<in> set [0..<rx_sdu_len i]" "mem (p + (k - p)) \<noteq> 0" using mm(1) by auto
  then have nz: "\<not> list_all (\<lambda>k. mem (p + k) = 0) [0..<rx_sdu_len i]" unfolding list_all_iff by blast
  let ?m1 = "upd_rx a (ra_measure E C i (rx_harq_pid i) \<circ> (\<lambda>ue. ue\<lparr>ta_frame := rx_frame i\<rparr>)) m"
  let ?m2 = "upd_ra a (\<lambda>ra. ra\<lparr>cont_res_id := take 6 bs\<rparr>) ?m1"
  let ?m3 = "upd_rx a (\<lambda>ue. ue\<lparr>rx_mac := got_ccch (re_mac E) l bs (mac_view (rm_ue ?m2 a))\<rparr>) ?m2"
  let ?m4 = "upd_ra a (\<lambda>ra. ra\<lparr>ra_state := (if ra_type ra = RA_2_STEP then nrRA_MsgB else nrRA_Msg4)\<rparr>) ?m3"
  have "rx_process_pdu E ?m2 a mem p (rx_sdu_len i) (-1) = Inr ?m3"
    using msg3_processed [OF assms(1) pdu] by (simp add: rx_process_pdu_def)
  then have "ra_contention E ?m1 a (rx_ind_rnti i) mem p (rx_sdu_len i) = Inr ?m4"
    unfolding ra_contention_def ra_new_ue_def cont Let_def msg3_no_crnti [OF assms(1) pdu] by simp
  then have "nr_rx_sdu E C m i = Some (Inr ?m4)"
    using ra_sdu_eq [OF ra(1-3) sdu nz] ra(4) pid assms(2) by (simp add: nr_rx_sdu_def Let_def)
  then show ?thesis using ra(2)
    by (intro exI [of _ ?m4]) (auto simp: got_ccch_def mac_view_def Let_def)
qed

lemma msg3_pdu_example:
  "msg3_pdu env_example 52 [1, 2, 3, 4, 5, 6] [63, 0] [52, 1, 2, 3, 4, 5, 6, 63, 0]"
  by (simp add: msg3_pdu_def ccch_size_def env_example_def)

theorem msg3_accepted_witness:
  "\<exists>m' ra'. nr_rx_sdu rx_env_example rx_cfg_example rx_mac_example
      (rx_ind_example 33 0 (Some [52, 1, 2, 3, 4, 5, 6, 63, 0])) = Some (Inr m') \<and>
    rx_ra (rm_ue m' 1) = Some ra' \<and> ra_state ra' = nrRA_Msg4 \<and> cont_res_id ra' = [1, 2, 3, 4, 5, 6] \<and>
    rlc_data_ind (rx_mac (rm_ue m' 1)) = [(0, [1, 2, 3, 4, 5, 6])]"
proof -
  define pdu :: "u8 list" where "pdu = [52, 1, 2, 3, 4, 5, 6, 63, 0]"
  let ?i = "rx_ind_example 33 0 (Some pdu)"
  have len: "rx_sdu_len ?i = length pdu" "rx_ind_rnti ?i = 33" by (simp_all add: rx_ind_example_def)
  have mem: "map ((!) pdu) [0..<0 + rx_sdu_len ?i] = pdu" unfolding len by (simp add: map_nth)
  have E: "lcids_ok (re_mac rx_env_example)" "re_mac rx_env_example = env_example"
    by (simp_all add: rx_env_example_def env_example_ok)
  have p: "msg3_pdu (re_mac rx_env_example) 52 [1, 2, 3, 4, 5, 6] [63, 0] (map ((!) pdu) [0..<0 + rx_sdu_len ?i])"
    unfolding mem E(2) unfolding pdu_def by (rule msg3_pdu_example)
  have ra: "expects_msg3 ra_example (rx_ind_rnti ?i)" "\<not> cfra ra_example" "0 \<le> rx_harq_pid ?i" "rx_harq_pid ?i < 8"
    "rx_sdu ?i = Some ((!) pdu, 0)"
    by (simp_all add: expects_msg3_def ra_example_def rx_ind_example_def)
  have f: "find_nr_UE rx_env_example rx_mac_example (rx_ind_rnti ?i) = None"
    "find_ra_UE rx_env_example rx_mac_example (rx_ind_rnti ?i) = Some 1"
    unfolding len by (rule rx_example_facts)+
  have ue: "rlc_data_ind (rx_mac (rm_ue rx_mac_example 1)) = []" "rrc_ready (rx_mac (rm_ue rx_mac_example 1))"
    "ra_type ra_example = RA_4_STEP"
    by (simp_all add: rx_mac_example_def rx_ue_example_def ue_example_def ra_example_def)
  from msg3_accepted [OF E(1) f rx_example_facts(4) ra(1,2,5) p ra(3,4), of rx_cfg_example]
  show ?thesis unfolding pdu_def [symmetric] by (auto simp: ue [unfolded One_nat_def])
qed

section \<open>Failed Msg3\<close>

text \<open>
  A reception that counts as a failed Msg3: nothing in the slot of Msg3, or a PDU of zeros only.
\<close>

definition msg3_fails :: "('q, 'x) rx_env \<Rightarrow> ('q, 'x) rx_mac_inst \<Rightarrow> nat \<Rightarrow> rx_ind \<Rightarrow> bool" where
  "msg3_fails E m a i \<longleftrightarrow> find_nr_UE E m (rx_ind_rnti i) = None \<and> find_ra_UE E m (rx_ind_rnti i) = Some a \<and>
     (\<exists>ra. rx_ra (rm_ue m a) = Some ra \<and> ra_state ra = nrRA_WAIT_Msg3 \<and>
        (case rx_sdu i of
           None \<Rightarrow> rx_frame i = Msg3_frame ra \<and> rx_slot i = Msg3_slot ra
         | Some (mem, p) \<Rightarrow> list_all (\<lambda>k. mem (p + k) = 0) [0..<rx_sdu_len i]))"

text \<open>
  The search for a UE in random access looks at the RNTI and at whether there is a record; a release
  removes the record.
\<close>

definition ra_law :: "('q, 'x) rx_env \<Rightarrow> bool" where
  "ra_law E \<longleftrightarrow> release_law E \<and>
     (\<forall>m a f r. rx_ra (rm_ue m a) \<noteq> None \<longrightarrow> find_ra_UE E (upd_ra a f m) r = find_ra_UE E m r)"

lemma msg3_failed:
  assumes law: "ra_law E" and f: "msg3_fails E m a i" and ra: "rx_ra (rm_ue m a) = Some ra"
  shows "\<exists>m'. nr_rx_sdu E C m i = Some (Inr m') \<and>
    (if cfra ra \<or> rc_harq_round_max C - 1 \<le> msg3_round ra then rx_ra (rm_ue m' a) = None
     else \<exists>ra'. rx_ra (rm_ue m' a) = Some ra' \<and> ra_state ra' = nrRA_Msg3_retransmission \<and>
       msg3_round ra' = msg3_round ra + 1 \<and> \<not> cfra ra')"
proof -
  let ?tpc = "\<lambda>ra. ra\<lparr>msg3_TPC := nr_get_tpc E (rc_pusch_target_snrx10 C) (rx_ul_cqi i) 30 0\<rparr>"
  define m1 where "m1 = (if rx_sdu i = None \<and> rx_ul_cqi i \<noteq> 0xff then upd_ra a ?tpc m else m)"
  have found: "find_ra_UE E m1 (rx_ind_rnti i) = Some a"
    using law f ra by (simp add: m1_def ra_law_def msg3_fails_def)
  have ra1: "\<exists>t. rx_ra (rm_ue m1 a) = Some (ra\<lparr>msg3_TPC := t\<rparr>)"
    using ra by (cases ra) (auto simp: m1_def)
  have "nr_rx_sdu E C m i = Some (Inr (handle_msg3_failed_rx E m1 a ra (rx_ind_rnti i) (rc_harq_round_max C)))"
    using f ra
    by (auto simp: msg3_fails_def nr_rx_sdu_def nr_rx_ra_sdu_def ra_nack_def m1_def Let_def split: option.splits)
  moreover have "rx_ra (rm_ue (nr_release_ra_UE E m1 (rx_ind_rnti i)) a) = None"
    using law found by (simp add: ra_law_def release_law_def)
  ultimately show ?thesis using ra1 by (auto simp: handle_msg3_failed_rx_def)
qed

text \<open>
  A series of failed Msg3 of one access.  Between two of them the rest of the MAC schedules the next
  transmission; it keeps the number of rounds and the kind of the access.
\<close>

inductive msg3_run :: "('q, 'x) rx_env \<Rightarrow> rx_cfg \<Rightarrow> nat \<Rightarrow> ('q, 'x) rx_mac_inst \<Rightarrow> nat \<Rightarrow> ('q, 'x) rx_mac_inst \<Rightarrow> bool"
  for E C a m where
  start: "msg3_run E C a m 0 m"
| failed: "msg3_run E C a m k m1 \<Longrightarrow> msg3_fails E m1 a i \<Longrightarrow> nr_rx_sdu E C m1 i = Some (Inr m2) \<Longrightarrow>
    rx_ra (rm_ue m2 a) = Some ra \<Longrightarrow> rx_ra (rm_ue m3 a) = Some ra' \<Longrightarrow>
    msg3_round ra' = msg3_round ra \<Longrightarrow> cfra ra' = cfra ra \<Longrightarrow> msg3_run E C a m (Suc k) m3"

lemma msg3_run_round:
  assumes "msg3_run E C a m k m'" and "ra_law E" and "rx_ra (rm_ue m a) = Some ra"
  shows "\<exists>ra'. rx_ra (rm_ue m' a) = Some ra' \<and> msg3_round ra' = msg3_round ra + int k \<and> cfra ra' = cfra ra \<and>
    (0 < k \<longrightarrow> \<not> cfra ra \<and> msg3_round ra + int k < rc_harq_round_max C)"
  using assms(1)
proof induction
  case start
  then show ?case using assms(3) by simp
next
  case (failed k m1 i m2 ra2 m3 ra3)
  then obtain ra1 where ra1: "rx_ra (rm_ue m1 a) = Some ra1" "msg3_round ra1 = msg3_round ra + int k"
      "cfra ra1 = cfra ra" by blast
  from msg3_failed [OF assms(2) failed.hyps(2) ra1(1), of C] failed.hyps(3,4)
  have "\<not> cfra ra1" "\<not> rc_harq_round_max C - 1 \<le> msg3_round ra1" "msg3_round ra2 = msg3_round ra1 + 1" "\<not> cfra ra2"
    by (auto split: if_splits)
  then show ?case using failed.hyps(5-7) ra1 by simp
qed

text \<open>
  C18. A random access ends: Msg3 of one access can fail and be retransmitted only while the number
  of rounds stays below the configured maximum, each failure counts exactly one round, a failure in
  the last round (or any failure of a contention-free access) releases the UE, and every earlier one
  asks for a retransmission.  So an access that starts in round 0 has at most as many failures as the
  maximum says, and the last of them releases it.
\<close>

theorem msg3_rounds_bounded:
  assumes "ra_law E" and "msg3_run E C a m k m'" and "rx_ra (rm_ue m a) = Some ra" and "msg3_round ra = 0"
  shows "int k < max 1 (rc_harq_round_max C) \<and>
    (\<exists>ra'. rx_ra (rm_ue m' a) = Some ra' \<and> msg3_round ra' = int k) \<and>
    (\<forall>i. msg3_fails E m' a i \<longrightarrow> (\<exists>m''. nr_rx_sdu E C m' i = Some (Inr m'') \<and>
      (if cfra ra \<or> rc_harq_round_max C - 1 \<le> int k then rx_ra (rm_ue m'' a) = None
       else \<exists>ra''. rx_ra (rm_ue m'' a) = Some ra'' \<and> ra_state ra'' = nrRA_Msg3_retransmission \<and>
         msg3_round ra'' = int k + 1)))"
proof (intro conjI allI impI)
  obtain ra' where ra': "rx_ra (rm_ue m' a) = Some ra'" "msg3_round ra' = int k" "cfra ra' = cfra ra"
      "0 < k \<longrightarrow> int k < rc_harq_round_max C"
    using msg3_run_round [OF assms(2,1,3)] assms(4) by auto
  then show "int k < max 1 (rc_harq_round_max C)" by (cases k) auto
  show "\<exists>ra'. rx_ra (rm_ue m' a) = Some ra' \<and> msg3_round ra' = int k" using ra' by blast
  fix i assume "msg3_fails E m' a i"
  from msg3_failed [OF assms(1) this ra'(1), of C] show "\<exists>m''. nr_rx_sdu E C m' i = Some (Inr m'') \<and>
      (if cfra ra \<or> rc_harq_round_max C - 1 \<le> int k then rx_ra (rm_ue m'' a) = None
       else \<exists>ra''. rx_ra (rm_ue m'' a) = Some ra'' \<and> ra_state ra'' = nrRA_Msg3_retransmission \<and>
         msg3_round ra'' = int k + 1)"
    unfolding ra'(2,3) by (auto split: if_splits)
qed

text \<open>In the example, a lost Msg3 is retransmitted: the next one is awaited in the same slot numbers.\<close>

definition msg3_again :: "(int list, unit) rx_mac_inst \<Rightarrow> (int list, unit) rx_mac_inst" where
  "msg3_again m = upd_ra 1 (\<lambda>ra. ra\<lparr>ra_state := nrRA_WAIT_Msg3\<rparr>) m"

lemma ra_law_example: "ra_law rx_env_example"
  by (auto simp: ra_law_def release_law_def rx_env_example_def upd_ra_def upd_rx_def split: if_splits)

lemma msg3_fails_example: "msg3_fails rx_env_example rx_mac_example 1 (rx_ind_example 33 0 None)"
  by (simp add: msg3_fails_def rx_example_facts) (simp add: rx_example_defs)

lemma msg3_run_example:
  "\<exists>m2. msg3_run rx_env_example rx_cfg_example 1 rx_mac_example 1 (msg3_again m2) \<and>
     nr_rx_sdu rx_env_example rx_cfg_example rx_mac_example (rx_ind_example 33 0 None) = Some (Inr m2)"
proof -
  from msg3_failed [OF ra_law_example msg3_fails_example rx_example_facts(4), of rx_cfg_example]
  obtain m2 ra' where m2: "nr_rx_sdu rx_env_example rx_cfg_example rx_mac_example (rx_ind_example 33 0 None) = Some (Inr m2)"
      "rx_ra (rm_ue m2 1) = Some ra'"
    by (auto simp: ra_example_def rx_cfg_example_def)
  have "rx_ra (rm_ue (msg3_again m2) 1) = Some (ra'\<lparr>ra_state := nrRA_WAIT_Msg3\<rparr>)"
    using m2(2) by (simp add: msg3_again_def)
  from msg3_run.failed [OF msg3_run.start msg3_fails_example m2 this]
  have "msg3_run rx_env_example rx_cfg_example 1 rx_mac_example (Suc 0) (msg3_again m2)" by simp
  then show ?thesis using m2(1) by auto
qed

theorem msg3_rounds_bounded_witness:
  "\<exists>m2 ra'. nr_rx_sdu rx_env_example rx_cfg_example rx_mac_example (rx_ind_example 33 0 None) = Some (Inr m2) \<and>
     rx_ra (rm_ue (msg3_again m2) 1) = Some ra' \<and> msg3_round ra' = 1"
proof -
  obtain m2 where m2: "msg3_run rx_env_example rx_cfg_example 1 rx_mac_example 1 (msg3_again m2)"
      "nr_rx_sdu rx_env_example rx_cfg_example rx_mac_example (rx_ind_example 33 0 None) = Some (Inr m2)"
    using msg3_run_example by blast
  have "msg3_round ra_example = 0" by (simp add: ra_example_def)
  from msg3_rounds_bounded [OF ra_law_example m2(1) rx_example_facts(4) this] m2(2) show ?thesis by auto
qed

section \<open>Assertions\<close>

lemma process_pdu_error: "rx_process_pdu E m a mem p n pid = Inl e \<Longrightarrow> \<exists>e'. e = RxMac e'"
  by (auto simp: rx_process_pdu_def split: sum.splits prod.splits)

lemma feedback_error: "rx_harq_feedback E C m a pid st = Some (Inl e) \<Longrightarrow> \<exists>e'. e = RxHarq e'"
  by (auto simp: rx_harq_feedback_def split: option.splits sum.splits)

lemma contention_no_pid_assert: "ra_contention E m a r mem p n \<noteq> Inl RxAssertHarqPid"
proof -
  have "ra_known_ue E m a old r mem p n \<noteq> Inl RxAssertHarqPid" for old
    by (auto simp: ra_known_ue_def Let_def dest: process_pdu_error)
  moreover have "ra_new_ue E m a mem p n \<noteq> Inl RxAssertHarqPid"
    by (auto simp: ra_new_ue_def Let_def dest: process_pdu_error split: sum.splits)
  ultimately show ?thesis by (simp add: ra_contention_def Let_def split: option.splits)
qed

lemma connected_no_pid_assert: "rx_connected E C m a i \<noteq> Some (Inl RxAssertHarqPid)"
  by (auto simp: rx_connected_def Let_def dest: process_pdu_error feedback_error
      split: option.splits sum.splits prod.splits if_splits)

text \<open>A reception in random access that has data to look at.\<close>

definition ra_has_data :: "('q, 'x) rx_env \<Rightarrow> ('q, 'x) rx_mac_inst \<Rightarrow> rx_ind \<Rightarrow> bool" where
  "ra_has_data E m i \<longleftrightarrow> (\<exists>a ra mem p. find_ra_UE E m (rx_ind_rnti i) = Some a \<and> rx_ra (rm_ue m a) = Some ra \<and>
     expects_msg3 ra (rx_ind_rnti i) \<and> rx_sdu i = Some (mem, p) \<and> (\<exists>k < rx_sdu_len i. mem (p + k) \<noteq> 0))"

lemma ra_no_data:
  assumes "\<not> ra_has_data E m i"
  shows "nr_rx_ra_sdu E C m i pid \<noteq> Inl RxAssertHarqPid"
proof (cases "find_ra_UE E m (rx_ind_rnti i)")
  case (Some a)
  show ?thesis
  proof (cases "rx_ra (rm_ue m a)")
    case ra: (Some ra)
    show ?thesis
    proof (cases "rx_sdu i")
      case (Some s)
      obtain mem p where s: "s = (mem, p)" by (cases s)
      have "\<not> expects_msg3 ra (rx_ind_rnti i) \<or> list_all (\<lambda>k. mem (p + k) = 0) [0..<rx_sdu_len i]"
        using assms \<open>find_ra_UE E m (rx_ind_rnti i) = Some a\<close> ra Some s
        by (auto simp: ra_has_data_def list_all_iff)
      then show ?thesis using \<open>find_ra_UE E m (rx_ind_rnti i) = Some a\<close> ra Some s
        by (cases "ra_type ra") (auto simp: nr_rx_ra_sdu_def expects_msg3_def Let_def)
    qed (use Some ra in \<open>simp add: nr_rx_ra_sdu_def Let_def\<close>)
  qed (use Some in \<open>simp add: nr_rx_ra_sdu_def\<close>)
qed (simp add: nr_rx_ra_sdu_def)

lemma ra_data:
  assumes "ra_has_data E m i"
  shows "nr_rx_ra_sdu E C m i pid = Inl RxAssertHarqPid \<longleftrightarrow> \<not> (0 \<le> pid \<and> pid < 8)"
proof -
  obtain a ra mem p where d: "find_ra_UE E m (rx_ind_rnti i) = Some a" "rx_ra (rm_ue m a) = Some ra"
      "expects_msg3 ra (rx_ind_rnti i)" "rx_sdu i = Some (mem, p)" "\<exists>k < rx_sdu_len i. mem (p + k) \<noteq> 0"
    using assms unfolding ra_has_data_def by blast
  then have "\<not> list_all (\<lambda>k. mem (p + k) = 0) [0..<rx_sdu_len i]" by (auto simp: list_all_iff)
  from ra_sdu_eq [OF d(1-4) this] show ?thesis by (simp add: Let_def contention_no_pid_assert)
qed

text \<open>
  The process number of a UE in random access is checked only after it has been converted to
  eight unsigned bits: exactly a PDU with signal that the access expects, with a number outside 0 to 7,
  fails the assertion and stops the gNB.  So does the value -1, with which a connected UE merely has
  its PDU ignored: a connected UE never runs into this assertion.
\<close>

lemma harq_pid_assertion:
  "nr_rx_sdu E C m i = Some (Inl RxAssertHarqPid) \<longleftrightarrow>
     find_nr_UE E m (rx_ind_rnti i) = None \<and>
     (\<exists>a ra mem p. find_ra_UE E m (rx_ind_rnti i) = Some a \<and> rx_ra (rm_ue m a) = Some ra \<and>
        expects_msg3 ra (rx_ind_rnti i) \<and> rx_sdu i = Some (mem, p) \<and>
        (\<exists>k < rx_sdu_len i. mem (p + k) \<noteq> 0)) \<and> 8 \<le> rx_harq_pid i mod 256"
proof (cases "find_nr_UE E m (rx_ind_rnti i)")
  case None
  then show ?thesis unfolding ra_has_data_def [symmetric]
    by (cases "ra_has_data E m i") (simp_all add: nr_rx_sdu_def ra_data ra_no_data linorder_not_less)
qed (simp add: nr_rx_sdu_def connected_no_pid_assert)

end
