(* ===== verification/DlAsserts.thy ===== *)
theory DlAsserts imports DlSlot begin

text \<open>
  The assertions of a downlink slot: which one fails can be read off the plan that the preprocessor
  leaves in the UEs, whatever the execution of the UEs before it does.
\<close>

section \<open>One UE\<close>

definition ce_bytes :: "dl_enc \<Rightarrow> dl_cfg \<Rightarrow> 'q dl_ue \<Rightarrow> nat" where
  "ce_bytes N C ue = (case nr_write_ce_dlsch_pdu N C ue 255 None of Inl e \<Rightarrow> 0 | Inr ces \<Rightarrow> length ces)"

text \<open>
  The assertion that fails for a UE with this plan.  Resource allocation type 0 is refused for every
  grant; a new transmission also needs a timing advance that can be encoded and a transport block
  with room behind the control elements.  A process that waited for its retransmission is only
  resent when its grant has a PUCCH; without one it carries a new block.
\<close>

definition dl_grant_error :: "('q \<Rightarrow> int list) \<Rightarrow> 'x tb_env \<Rightarrow> dl_cfg \<Rightarrow> int \<Rightarrow> 'q dl_ue \<Rightarrow> dl_error option" where
  "dl_grant_error elems T C f ue =
     (let s = d_sched_pdsch ue; u = dl_ue_prepare f ue;
          resent = (0 \<le> pd_pucch_allocation s \<and> dl_harq_pid s \<in> set (elems (retrans_harq (d_ctrl ue))))
      in if pd_rbSize s \<le> 0 then None
         else if \<not> dl_resourceAllocationType1 (d_bwp ue) then Some BadResourceAllocation
         else if resent then None
         else if d_ta_apply u \<and> 64 \<le> d_ta_update u then Some TaCommandTooLarge
         else if pd_tb_size s \<le> int (ce_bytes (tb_enc T) C u) then Some TbsTooSmall
         else None)"

lemma ce_bytes_cong:
  assumes "d_ta_apply u = d_ta_apply v" "d_ta_update u = d_ta_update v" "d_mac_ce_ctrl u = d_mac_ce_ctrl v"
  shows "nr_write_ce_dlsch_pdu N C u k i = nr_write_ce_dlsch_pdu N C v k i"
  using assms by (simp add: nr_write_ce_dlsch_pdu_def ce_ta_def)

lemma dl_build_tb_error_iff:
  "dl_build_tb T C ue TBS r = Inl e \<longleftrightarrow>
     (if d_ta_apply ue \<and> 64 \<le> d_ta_update ue then e = TaCommandTooLarge
      else TBS \<le> ce_bytes (tb_enc T) C ue \<and> e = TbsTooSmall)"
  by (cases "ce_ta (tb_enc T) C ue")
    (auto simp: dl_build_tb_def nr_write_ce_dlsch_pdu_def ce_ta_def ce_bytes_def Let_def split: if_splits prod.splits)

lemma exec_ue_ce [simp]:
  "d_ta_apply (exec_ue f ue c') = d_ta_apply (dl_ue_prepare f ue)"
  "d_ta_update (exec_ue f ue c') = d_ta_update (dl_ue_prepare f ue)"
  "d_mac_ce_ctrl (exec_ue f ue c') = d_mac_ce_ctrl (dl_ue_prepare f ue)"
  by (simp_all add: exec_ue_def Let_def)

lemma exec_initial_error:
  assumes "round (harq_processes c' (dl_harq_pid (d_sched_pdsch ue))) = 0"
  shows "exec_tx T C f s ue c' sl = Inl e \<longleftrightarrow>
     (if d_ta_apply (dl_ue_prepare f ue) \<and> 64 \<le> d_ta_update (dl_ue_prepare f ue) then e = TaCommandTooLarge
      else pd_tb_size (d_sched_pdsch ue) \<le> int (ce_bytes (tb_enc T) C (dl_ue_prepare f ue)) \<and> e = TbsTooSmall)"
proof -
  have ce: "ce_bytes N C ((exec_ue f ue c')\<lparr>d_tpc1 := 1\<rparr>) = ce_bytes N C (dl_ue_prepare f ue)" for N
    unfolding ce_bytes_def by (subst ce_bytes_cong [where v = "dl_ue_prepare f ue"]) simp_all
  have "exec_tx T C f s ue c' sl = Inl e \<longleftrightarrow>
      dl_build_tb T C ((exec_ue f ue c')\<lparr>d_tpc1 := 1\<rparr>) (nat (pd_tb_size (d_sched_pdsch ue))) (dm_rest (sl_mac sl)) = Inl e"
    using assms by (simp add: exec_tx_def dl_initial_tx_def Let_def split: sum.split)
  then show ?thesis by (simp add: dl_build_tb_error_iff ce nat_le_iff)
qed

lemma dl_ue_spec_error:
  assumes laws: "nr_list_laws (de_lists E) elems" "tb_laws T C" and n: "n \<le> 128" "0 < rmax"
    and pdcch: "pdcch_ok sl" and ue: "ue = dm_ues (sl_mac sl) ! i"
    and ok: "dl_ue_ok elems n rmax ue" "dl_planned elems ue"
  shows "dl_ue_spec E Q T C f s i sl = Inl e \<longleftrightarrow> dl_grant_error elems T C f ue = Some e"
proof (cases "0 < pd_rbSize (d_sched_pdsch ue)")
  case False
  then show ?thesis
    using ue by (auto simp: dl_ue_spec_def dl_grant_error_def Let_def)
next
  case planned: True
  define sp where "sp = d_sched_pdsch ue"
  define pid where "pid = dl_harq_pid sp"
  have nf: "\<not> d_ul_failure ue" and plan: "dl_plan_ok elems (d_ctrl ue) sp"
    using ok(2) planned by (simp_all add: dl_planned_def sp_def)
  have inv: "harq_inv elems n rmax {} (d_ctrl ue)" using ok(1) by (simp add: dl_ue_ok_def)
  obtain c' where c': "dl_harq_grant (de_lists E) (d_ctrl ue) pid (exec_pucch ue) = Inr (c', pid)"
    "granted_ctrl elems n rmax (d_ctrl ue) pid (exec_pucch ue \<noteq> None) c'" "0 \<le> pid" "to_i8 pid = pid"
    using planned_grant [OF laws(1) n inv plan pid_def] by blast
  obtain sl1 idx where fapi: "dl_fapi Q C (exec_ue f ue c') sp pid (exec_pucch ue) sl = (sl1, idx)" by fastforce
  have eq: "dl_ue_spec E Q T C f s i sl = Inl e \<longleftrightarrow>
      (if \<not> dl_resourceAllocationType1 (d_bwp ue) then e = BadResourceAllocation else exec_tx T C f s ue c' sl1 = Inl e)"
    unfolding dl_ue_spec_eq [OF nf planned ue sp_def pid_def c'(3,4,1) fapi, where T = T and s = s]
    by (auto split: sum.splits)
  have fb: "exec_pucch ue \<noteq> None \<longleftrightarrow> 0 \<le> pd_pucch_allocation sp" by (simp add: exec_pucch_def sp_def Let_def)
  have resent: "round (harq_processes c' pid) \<noteq> 0 \<longleftrightarrow>
      0 \<le> pd_pucch_allocation sp \<and> pid \<in> set (elems (retrans_harq (d_ctrl ue)))"
  proof
    assume "round (harq_processes c' pid) \<noteq> 0"
    from exec_resend [OF ok(1) plan [unfolded sp_def] c'(2) pid_def [unfolded sp_def] this, of T C f s sl1]
    show "0 \<le> pd_pucch_allocation sp \<and> pid \<in> set (elems (retrans_harq (d_ctrl ue)))" using fb by blast
  next
    assume "0 \<le> pd_pucch_allocation sp \<and> pid \<in> set (elems (retrans_harq (d_ctrl ue)))"
    then show "round (harq_processes c' pid) \<noteq> 0"
      using c'(2) fb harq_inv_range(3) [OF inv, of pid] by (auto simp: granted_ctrl_def split: if_splits)
  qed
  show ?thesis
  proof (cases "round (harq_processes c' pid) = 0")
    case True
    have "\<not> (0 \<le> pd_pucch_allocation sp \<and> pid \<in> set (elems (retrans_harq (d_ctrl ue))))" using resent True by simp
    then show ?thesis
      using planned eq exec_initial_error [OF True [unfolded pid_def sp_def], of T C f s sl1 e]
      by (auto simp: dl_grant_error_def Let_def sp_def [symmetric] pid_def [symmetric])
  next
    case False
    from exec_resend [OF ok(1) plan [unfolded sp_def] c'(2) pid_def [unfolded sp_def] False, of T C f s sl1]
    have "exec_tx T C f s ue c' sl1 \<noteq> Inl e" by auto
    then show ?thesis
      using planned eq resent False by (auto simp: dl_grant_error_def Let_def sp_def [symmetric] pid_def [symmetric])
  qed
qed

section \<open>The slot\<close>

lemma exec_keeps_ues:
  "dl_fapi Q C u sp pid pu sl = (sl1, idx) \<Longrightarrow> sl_mac sl1 = sl_mac sl"
  "dl_retx u sp pid sl = Inr (v, sl2) \<Longrightarrow> dm_ues (sl_mac sl2) = dm_ues (sl_mac sl)"
  "dl_initial_tx T C f s u sp pid sl = Inr (v, sl2) \<Longrightarrow> dm_ues (sl_mac sl2) = dm_ues (sl_mac sl)"
  by (auto simp: dl_fapi_def pdcch_pdu_of_def dl_retx_def dl_initial_tx_def Let_def
      split: if_splits option.splits sum.splits)

lemma dl_ue_spec_others:
  assumes "dl_ue_spec E Q T C f s i sl = Inr sl'"
  shows "\<exists>u. dm_ues (sl_mac sl') = (dm_ues (sl_mac sl))[i := u]"
  using assms
  by (auto simp: dl_ue_spec_def upd_dl_ue_def Let_def exec_keeps_ues
      intro: exI [of _ "dm_ues (sl_mac sl) ! i"] dest!: exec_keeps_ues split: if_split_asm sum.split_asm prod.split_asm)

lemma fold_res_first_error:
  assumes "P 0 st" and "\<And>i st. i < n \<Longrightarrow> P i st \<Longrightarrow> (\<forall>e. g i st = Inl e \<longleftrightarrow> err i = Some e) \<and> (\<forall>st'. g i st = Inr st' \<longrightarrow> P (i + 1) st')"
  shows "case fold_res g [0..<n] st of Inl e \<Rightarrow> \<exists>i < n. err i = Some e \<and> (\<forall>j < i. err j = None)
    | Inr st' \<Rightarrow> P n st' \<and> (\<forall>j < n. err j = None)"
  using assms
proof (induction n)
  case (Suc n)
  then have IH: "case fold_res g [0..<n] st of Inl e \<Rightarrow> \<exists>i < n. err i = Some e \<and> (\<forall>j < i. err j = None)
    | Inr st' \<Rightarrow> P n st' \<and> (\<forall>j < n. err j = None)" by simp
  show ?case
  proof (cases "fold_res g [0..<n] st")
    case (Inl e)
    then show ?thesis using IH by (auto simp: fold_res_append intro: less_SucI)
  next
    case (Inr st')
    then have st': "P n st'" "\<forall>j < n. err j = None" using IH by simp_all
    note step = Suc.prems(2) [of n st', OF lessI st'(1)]
    show ?thesis
    proof (cases "g n st'")
      case g: (Inl e)
      then have "err n = Some e" using step by blast
      then show ?thesis using Inr g st'(2) by (auto simp: fold_res_append)
    next
      case g: (Inr st2)
      have "err n = None"
      proof (rule ccontr)
        assume "err n \<noteq> None"
        then obtain e where "err n = Some e" by blast
        then show False using step g by auto
      qed
      then show ?thesis using Inr g st'(2) step by (auto simp: fold_res_append less_Suc_eq)
    qed
  qed
qed simp

lemma first_error_unique:
  fixes i i' :: nat
  assumes "err i = Some e" "\<forall>j < i. err j = None" "err i' = Some e'" "\<forall>j < i'. err j = None"
  shows "e = e'"
  using assms by (cases i i' rule: linorder_cases) auto

lemma slot_first_error:
  assumes laws: "nr_list_laws (de_lists E) elems" "dl_qsort_perm E" "tb_laws T C" and n: "n \<le> 128" "0 < rmax"
    and ok: "dl_slot_ok elems n rmax sl" and dl: "pl_is_dl_slot Q s"
    and plan: "nr_dlsch_preprocessor E C stat file0 f s (sl_mac sl) = Inr mac"
  shows "nr_schedule_ue_spec E Q T C stat file0 f s sl = Inl e \<longleftrightarrow>
    (\<exists>i < length (dm_ues mac). dl_grant_error elems T C f (dm_ues mac ! i) = Some e \<and>
       (\<forall>j < i. dl_grant_error elems T C f (dm_ues mac ! j) = None))"
proof -
  note m = nr_dlsch_preprocessor_inv [OF laws(1,2) _ plan, of n rmax]
  let ?sl = "sl\<lparr>sl_mac := mac, sl_total_prb := sl_total_prb sl + dcfg_initial_bw C\<rparr>" and ?len = "length (dm_ues mac)"
  let ?err = "\<lambda>i. dl_grant_error elems T C f (dm_ues mac ! i)"
  define P where "P = (\<lambda>i sl1. exec_inv elems n rmax ?len sl i sl1 \<and> (\<forall>k. i \<le> k \<and> k < ?len \<longrightarrow> dm_ues (sl_mac sl1) ! k = dm_ues mac ! k))"
  have start: "P 0 ?sl"
    using m ok by (auto simp: P_def dl_slot_ok_def exec_inv_def dl_ues_ok_def pdcch_ok_def requests_grown_def)
  have step: "(\<forall>e. dl_ue_spec E Q T C f s i sl1 = Inl e \<longleftrightarrow> ?err i = Some e) \<and>
      (\<forall>sl2. dl_ue_spec E Q T C f s i sl1 = Inr sl2 \<longrightarrow> P (i + 1) sl2)" if i: "i < ?len" and P: "P i sl1" for i sl1
  proof (intro conjI allI impI)
    have inv: "exec_inv elems n rmax ?len sl i sl1" and ue: "dm_ues mac ! i = dm_ues (sl_mac sl1) ! i"
      using P i by (simp_all add: P_def)
    show "dl_ue_spec E Q T C f s i sl1 = Inl e \<longleftrightarrow> ?err i = Some e" for e
      using inv i ue by (intro dl_ue_spec_error [OF laws(1,3) n _ ue]) (simp_all add: exec_inv_def)
    fix sl2 assume run: "dl_ue_spec E Q T C f s i sl1 = Inr sl2"
    obtain u where "dm_ues (sl_mac sl2) = (dm_ues (sl_mac sl1))[i := u]" using dl_ue_spec_others [OF run] by blast
    then show "P (i + 1) sl2"
      using dl_ue_spec_inv [OF laws(1,3) n inv i, of Q f s] run P by (simp add: P_def)
  qed
  have "case fold_res (dl_ue_spec E Q T C f s) [0..<?len] ?sl of
      Inl e \<Rightarrow> \<exists>i < ?len. ?err i = Some e \<and> (\<forall>j < i. ?err j = None) | Inr sl' \<Rightarrow> P ?len sl' \<and> (\<forall>j < ?len. ?err j = None)"
    by (rule fold_res_first_error [where P = P, OF start]) (rule step)
  then show ?thesis
    using dl plan first_error_unique [where err = ?err]
    by (cases "fold_res (dl_ue_spec E Q T C f s) [0..<?len] ?sl") (auto simp: nr_schedule_ue_spec_def)
qed

lemma planning_error:
  assumes "nr_dlsch_preprocessor E C stat file0 f s mac = Inl e"
  shows "e = InvalidTda \<and> (\<exists>ue. \<not> valid_tda (get_dl_tda_info (de_lib E) ue (get_dl_tda C s)))"
proof -
  have "e = InvalidTda \<and> (\<exists>ue. \<not> valid_tda (get_dl_tda_info (de_lib E) ue (get_dl_tda C s)))"
    if "pf_dl_grant E C f s c st = Inl e" for c st
    using that by (auto simp: pf_dl_grant_def Let_def split: if_splits option.splits prod.splits)
  then show ?thesis
    using assms by (auto simp: nr_dlsch_preprocessor_def pf_dl_def Let_def dest!: fold_res_Inl split: if_splits sum.splits)
qed

end
