(* ===== verification/DlProps.thy ===== *)
theory DlProps imports DlExample DlAsserts begin

text \<open>
  The properties of the downlink scheduler, with their instances on the example cell.
\<close>

section \<open>The slot\<close>

lemma dl_example_slot_ok: "dl_slot_ok (\<lambda>q. q) 2 4 (dl_slot_example [dl_ue_example 7 [1] [0], dl_ue_example 9 [0, 1] []])"
proof -
  have "dl_ue_ok (\<lambda>q. q) 2 4 (dl_ue_example 7 [1] [0])" "dl_ue_ok (\<lambda>q. q) 2 4 (dl_ue_example 9 [0, 1] [])"
    using dl_ctrl_example_ok by (simp_all add: dl_ue_ok_def dl_ue_example_def)
  then show ?thesis
    by (auto simp: dl_slot_ok_def dl_slot_example_def pdcch_ok_def dl_mac_example_def dl_ues_ok_def dl_planned_def
        less_Suc_eq dl_ue_example_def no_pdsch_def NR_sched_pdsch_t.make_def)
qed

text \<open>
  C34. Outside test mode a slot of the downlink keeps every UE in order: each HARQ process is in exactly one list with its
  waiting flag and a round below the maximum, a process in use has the parameters of its own transport
  block saved, and no grant is left over for the next slot.
\<close>

theorem dl_slot_invariant:
  assumes "nr_list_laws (de_lists E) elems" and "dl_qsort_perm E" and "tb_laws T C" and "n \<le> 128" and "0 < rmax"
    and "dl_slot_ok elems n rmax sl" and "nr_schedule_ue_spec E Q T C stat cfg_file frame slot sl = Inr sl'"
  shows "dl_slot_ok elems n rmax sl'"
  using nr_schedule_ue_spec_inv [OF assms(1-6), of Q stat cfg_file frame slot] assms(7) by simp

theorem dl_slot_invariant_witness:
  "\<exists>sl'. nr_schedule_ue_spec dl_env_example pdu_lib_example tb_env_example dl_cfg_example None None 5 3
     (dl_slot_example [dl_ue_example 7 [1] [0], dl_ue_example 9 [0, 1] []]) = Inr sl' \<and>
   length (sl_tx_req sl') = 2 \<and> dl_slot_ok (\<lambda>q. q) 2 4 sl'"
proof -
  obtain sl' where run: "nr_schedule_ue_spec dl_env_example pdu_lib_example tb_env_example dl_cfg_example None None 5 3
     (dl_slot_example [dl_ue_example 7 [1] [0], dl_ue_example 9 [0, 1] []]) = Inr sl'"
    and tx: "map tx_data (sl_tx_req sl') = [[1, 2, 3, 4, 5], [68, 0, 2, 1, 2]]"
    using dl_example_slot by (elim exE conjE)
  have "length (map tx_data (sl_tx_req sl')) = 2" unfolding tx by simp
  then have "length (sl_tx_req sl') = 2" by simp
  moreover have "dl_slot_ok (\<lambda>q. q) 2 4 sl'"
    by (rule dl_slot_invariant [OF dl_example_laws(1-3) _ _ dl_example_slot_ok run]) simp_all
  ultimately show ?thesis using run by (intro exI [of _ sl'] conjI)
qed

lemma dl_slot_example_one:
  assumes "dl_ue_ok (\<lambda>q. q) 2 4 ue" and "pd_rbSize (d_sched_pdsch ue) \<le> 0"
  shows "dl_slot_ok (\<lambda>q. q) 2 4 (dl_slot_example [ue])"
  using assms by (auto simp: dl_slot_ok_def dl_slot_example_def pdcch_ok_def dl_mac_example_def dl_ues_ok_def dl_planned_def)

text \<open>A TDA that is not valid, and UEs that run into the other assertions.\<close>

definition dl_env_no_tda :: "(int list, unit) dl_env" where
  "dl_env_no_tda = dl_env_example\<lparr>de_lib := dl_lib_example\<lparr>get_dl_tda_info := (\<lambda>_ _. tda_example\<lparr>valid_tda := False\<rparr>)\<rparr>\<rparr>"

definition dl_ue_large_ta :: "int list dl_ue" where
  "dl_ue_large_ta = (dl_ue_example 9 [0, 1] [])\<lparr>d_ta_apply := True, d_ta_update := 64\<rparr>"

definition dl_ue_many_ces :: "int list dl_ue" where
  "dl_ue_many_ces = (dl_ue_example 9 [0, 1] [])\<lparr>d_ta_apply := True,
     d_mac_ce_ctrl := \<lparr>pdcch_state_ind = Some \<lparr>psi_coresetId = 1, psi_servingCellId = 0, psi_tciStateId = 2\<rparr>,
       SP_CSI_reporting_pucch = None, pdsch_TCI_States_ActDeact = None, aperi_CSI_trigger = None, sp_zp_csi_rs = None,
       csi_im = None\<rparr>\<rparr>"

definition dl_ue_type0 :: "int list dl_ue" where
  "dl_ue_type0 = (dl_ue_example 9 [0, 1] [])\<lparr>d_bwp := (d_bwp (dl_ue_example 9 [0, 1] []))\<lparr>dl_resourceAllocationType1 := False\<rparr>\<rparr>"

lemma dl_failing_ok:
  "dl_slot_ok (\<lambda>q. q) 2 4 (dl_slot_example [dl_ue_example 9 [0, 1] []])"
  "dl_slot_ok (\<lambda>q. q) 2 4 (dl_slot_example [dl_ue_large_ta])"
  "dl_slot_ok (\<lambda>q. q) 2 4 (dl_slot_example [dl_ue_many_ces])"
  "dl_slot_ok (\<lambda>q. q) 2 4 (dl_slot_example [dl_ue_type0])"
  using dl_ctrl_example_ok
  by (auto intro!: dl_slot_example_one simp: dl_ue_large_ta_def dl_ue_many_ces_def dl_ue_type0_def dl_ue_ok_def
      dl_ue_example_def no_pdsch_def NR_sched_pdsch_t.make_def)

lemma dl_failing_plans:
  "nr_dlsch_preprocessor dl_env_no_tda dl_cfg_example None None 5 3 (dl_mac_example [dl_ue_example 9 [0, 1] []]) = Inl InvalidTda"
  "\<exists>mac. nr_dlsch_preprocessor dl_env_example dl_cfg_example None None 5 3 (dl_mac_example [dl_ue_large_ta]) = Inr mac \<and>
     map (dl_grant_error (\<lambda>q. q) tb_env_example dl_cfg_example 5) (dm_ues mac) = [Some TaCommandTooLarge]"
  "\<exists>mac. nr_dlsch_preprocessor dl_env_example dl_cfg_example None None 5 3 (dl_mac_example [dl_ue_many_ces]) = Inr mac \<and>
     map (dl_grant_error (\<lambda>q. q) tb_env_example dl_cfg_example 5) (dm_ues mac) = [Some TbsTooSmall]"
  "\<exists>mac. nr_dlsch_preprocessor dl_env_example dl_cfg_example None None 5 3 (dl_mac_example [dl_ue_type0]) = Inr mac \<and>
     map (dl_grant_error (\<lambda>q. q) tb_env_example dl_cfg_example 5) (dm_ues mac) = [Some BadResourceAllocation]"
     apply (simp add: dl_env_no_tda_def dl_example_defs dl_pass_defs)
    apply (simp add: dl_ue_large_ta_def dl_example_defs dl_pass_defs dl_grant_error_def dl_ue_prepare_def)
   apply (simp add: dl_ue_many_ces_def dl_example_defs dl_pass_defs dl_grant_error_def dl_ue_prepare_def ce_bytes_def dl_exec_defs)
  apply (simp add: dl_ue_type0_def dl_example_defs dl_pass_defs dl_grant_error_def dl_ue_prepare_def)
  done

text \<open>
  C40. Outside test mode the only assertions of the downlink that can fail in a slot are those on a valid
  TDA, on the size of a timing advance command, on a transport block larger than its control elements,
  and on the resource allocation type; a retransmission always has the size of its first transmission,
  and no process is granted that is not free or waiting for its retransmission.  Planning fails only for
  want of a valid TDA.  A slot that is planned fails exactly with the first of the others that the plan
  of some UE runs into, in the order of the UEs, whatever the execution of the UEs before it does.
\<close>

theorem dl_slot_asserts:
  assumes "nr_list_laws (de_lists E) elems" and "dl_qsort_perm E" and "tb_laws T C" and "n \<le> 128" and "0 < rmax"
    and "dl_slot_ok elems n rmax sl" and "pl_is_dl_slot Q slot"
  shows "(\<forall>e. nr_schedule_ue_spec E Q T C stat cfg_file frame slot sl = Inl e \<longrightarrow>
      e \<in> {InvalidTda, TaCommandTooLarge, TbsTooSmall, BadResourceAllocation}) \<and>
    (case nr_dlsch_preprocessor E C stat cfg_file frame slot (sl_mac sl) of
       Inl e \<Rightarrow> nr_schedule_ue_spec E Q T C stat cfg_file frame slot sl = Inl e \<and> e = InvalidTda \<and>
         (\<exists>ue. \<not> valid_tda (get_dl_tda_info (de_lib E) ue (get_dl_tda C slot)))
     | Inr mac \<Rightarrow> \<forall>e. nr_schedule_ue_spec E Q T C stat cfg_file frame slot sl = Inl e \<longleftrightarrow>
         (\<exists>i < length (dm_ues mac). dl_grant_error elems T C frame (dm_ues mac ! i) = Some e \<and>
            (\<forall>j < i. dl_grant_error elems T C frame (dm_ues mac ! j) = None)))"
proof -
  have "\<forall>e. nr_schedule_ue_spec E Q T C stat cfg_file frame slot sl = Inl e \<longrightarrow>
      e \<in> {InvalidTda, TaCommandTooLarge, TbsTooSmall, BadResourceAllocation}"
    using nr_schedule_ue_spec_inv [OF assms(1-6), of Q stat cfg_file frame slot] by (auto simp: dl_slot_errors_def)
  moreover have "case nr_dlsch_preprocessor E C stat cfg_file frame slot (sl_mac sl) of
       Inl e \<Rightarrow> nr_schedule_ue_spec E Q T C stat cfg_file frame slot sl = Inl e \<and> e = InvalidTda \<and>
         (\<exists>ue. \<not> valid_tda (get_dl_tda_info (de_lib E) ue (get_dl_tda C slot)))
     | Inr mac \<Rightarrow> \<forall>e. nr_schedule_ue_spec E Q T C stat cfg_file frame slot sl = Inl e \<longleftrightarrow>
         (\<exists>i < length (dm_ues mac). dl_grant_error elems T C frame (dm_ues mac ! i) = Some e \<and>
            (\<forall>j < i. dl_grant_error elems T C frame (dm_ues mac ! j) = None))"
  proof (cases "nr_dlsch_preprocessor E C stat cfg_file frame slot (sl_mac sl)")
    case (Inl e)
    then show ?thesis using planning_error [OF Inl] assms(7) by (simp add: nr_schedule_ue_spec_def)
  next
    case (Inr mac)
    then show ?thesis using slot_first_error [OF assms Inr] by simp
  qed
  ultimately show ?thesis ..
qed

theorem dl_slot_asserts_witness:
  "nr_schedule_ue_spec dl_env_no_tda pdu_lib_example tb_env_example dl_cfg_example None None 5 3
     (dl_slot_example [dl_ue_example 9 [0, 1] []]) = Inl InvalidTda \<and>
   nr_schedule_ue_spec dl_env_example pdu_lib_example tb_env_example dl_cfg_example None None 5 3
     (dl_slot_example [dl_ue_large_ta]) = Inl TaCommandTooLarge \<and>
   nr_schedule_ue_spec dl_env_example pdu_lib_example tb_env_example dl_cfg_example None None 5 3
     (dl_slot_example [dl_ue_many_ces]) = Inl TbsTooSmall \<and>
   nr_schedule_ue_spec dl_env_example pdu_lib_example tb_env_example dl_cfg_example None None 5 3
     (dl_slot_example [dl_ue_type0]) = Inl BadResourceAllocation"
proof -
  have mac: "sl_mac (dl_slot_example ues) = dl_mac_example ues" for ues by (simp add: dl_slot_example_def)
  have dl: "pl_is_dl_slot pdu_lib_example 3" by (simp add: pdu_lib_example_def)
  have n: "(2 :: int) \<le> 128" "(0 :: int) < 4" by simp_all
  have no_tda: "nr_list_laws (de_lists dl_env_no_tda) (\<lambda>q. q)" "dl_qsort_perm dl_env_no_tda"
    using dl_example_laws(1,2) by (simp_all add: dl_env_no_tda_def dl_qsort_perm_def)
  note failing = dl_slot_asserts [OF dl_example_laws(1-3) n _ dl, where stat = None and cfg_file = None and frame = 5]
  have first: "nr_schedule_ue_spec dl_env_example pdu_lib_example tb_env_example dl_cfg_example None None 5 3 (dl_slot_example [ue]) = Inl e"
    if "dl_slot_ok (\<lambda>q. q) 2 4 (dl_slot_example [ue])"
      "\<exists>mac. nr_dlsch_preprocessor dl_env_example dl_cfg_example None None 5 3 (dl_mac_example [ue]) = Inr mac \<and>
         map (dl_grant_error (\<lambda>q. q) tb_env_example dl_cfg_example 5) (dm_ues mac) = [Some e]" for ue e
    using that(2) failing [OF that(1)] by (auto simp: mac)
  show ?thesis
    using first [OF dl_failing_ok(2) dl_failing_plans(2)] first [OF dl_failing_ok(3) dl_failing_plans(3)]
      first [OF dl_failing_ok(4) dl_failing_plans(4)]
      dl_slot_asserts [OF no_tda dl_example_laws(3) n dl_failing_ok(1) dl, where stat = None and cfg_file = None and frame = 5]
      dl_failing_plans(1)
    by (simp add: mac)
qed

text \<open>
  C35. Outside test mode the requests of a slot belong together: every PDSCH PDU added to the downlink request has its own
  index, its own DCI, and a transport block in the transmission request with this index and exactly the
  announced size, in the same order.
\<close>

theorem dl_slot_requests:
  assumes "nr_list_laws (de_lists E) elems" and "dl_qsort_perm E" and "tb_laws T C" and "n \<le> 128" and "0 < rmax"
    and "dl_slot_ok elems n rmax sl" and "nr_schedule_ue_spec E Q T C stat cfg_file frame slot sl = Inr sl'"
  shows "\<exists>ps ts. pdschs (sl_dl_req sl') = pdschs (sl_dl_req sl) @ ps \<and> sl_tx_req sl' = sl_tx_req sl @ ts \<and>
    list_all2 tx_matches ps ts \<and> length (dcis (sl_dl_req sl')) = length (dcis (sl_dl_req sl)) + length ps \<and>
    map pp_pduIndex ps = map (\<lambda>k. sl_pdu_index sl + int k) [0..<length ps] \<and>
    sl_pdu_index sl' = sl_pdu_index sl + int (length ps)"
  using nr_schedule_ue_spec_inv [OF assms(1-6), of Q stat cfg_file frame slot] assms(7)
  by (simp add: requests_grown_def)

theorem dl_slot_requests_witness:
  "\<exists>sl'. nr_schedule_ue_spec dl_env_example pdu_lib_example tb_env_example dl_cfg_example None None 5 3
     (dl_slot_example [dl_ue_example 7 [1] [0], dl_ue_example 9 [0, 1] []]) = Inr sl' \<and>
   map pp_TBSize (pdschs (sl_dl_req sl')) = [5, 5] \<and> map pp_pduIndex (pdschs (sl_dl_req sl')) = [0, 1]"
proof -
  let ?sl = "dl_slot_example [dl_ue_example 7 [1] [0], dl_ue_example 9 [0, 1] []]"
  obtain sl' where run: "nr_schedule_ue_spec dl_env_example pdu_lib_example tb_env_example dl_cfg_example None None 5 3
     (dl_slot_example [dl_ue_example 7 [1] [0], dl_ue_example 9 [0, 1] []]) = Inr sl'"
    and tx: "map tx_data (sl_tx_req sl') = [[1, 2, 3, 4, 5], [68, 0, 2, 1, 2]]"
    using dl_example_slot by (elim exE conjE)
  obtain ps ts where g: "pdschs (sl_dl_req sl') = ps" "sl_tx_req sl' = ts" "list_all2 tx_matches ps ts"
    "map pp_pduIndex ps = map (\<lambda>k. 0 + int k) [0..<length ps]"
  proof -
    have 0: "pdschs (sl_dl_req ?sl) = []" "sl_tx_req ?sl = []" "sl_pdu_index ?sl = 0" by (simp_all add: dl_slot_example_def)
    have "(2 :: int) \<le> 128" "(0 :: int) < 4" by simp_all
    from dl_slot_requests [OF dl_example_laws(1-3) this dl_example_slot_ok run] show thesis
      unfolding 0 append_Nil by (elim exE conjE) (rule that)
  qed
  from g(3) have "map pp_TBSize ps = map (\<lambda>d. int (length d)) (map tx_data ts)"
    by (induction rule: list_all2_induct) (simp_all add: tx_matches_def)
  then have "map pp_TBSize ps = [5, 5]" unfolding tx [unfolded g(2)] by simp
  moreover from this have "length (map pp_TBSize ps) = 2" by simp
  then have "map pp_pduIndex ps = [0, 1]" using g(4) by (simp add: upt_rec)
  ultimately show ?thesis using run g(1) by (intro exI [of _ sl'] conjI) simp_all
qed

section \<open>One grant\<close>

text \<open>
  C36. Outside test mode executing the grant of a UE resets the grant, requests one PDSCH with its DCI and transport block,
  and either resends the saved block of a process that waited for its retransmission, with the same new
  data indicator and without a note in the slice counters, or builds a new block of the granted size,
  saves it with its parameters in the process, and notes the grant for the slice of the UE.
\<close>

theorem dl_grant_effect:
  assumes "nr_list_laws (de_lists E) elems" and "tb_laws T C" and "n \<le> 128" and "0 < rmax"
    and "pdcch_ok sl" and "i < length (dm_ues (sl_mac sl))" and "ue = dm_ues (sl_mac sl) ! i"
    and "dl_ue_ok elems n rmax ue" and "dl_planned elems ue" and "0 < pd_rbSize (d_sched_pdsch ue)"
  shows "case dl_ue_spec E Q T C frame slot i sl of
      Inl e \<Rightarrow> e \<in> {TaCommandTooLarge, TbsTooSmall, BadResourceAllocation}
    | Inr sl' \<Rightarrow> pdcch_ok sl' \<and> (\<exists>ue'. dl_ue_ok elems n rmax ue' \<and> grant_done elems C frame slot i ue sl ue' sl')"
  using dl_ue_grant [OF assms, where Q = Q and f = frame and s = slot] by (simp add: dl_slot_errors_def split: sum.splits)

definition dl_planned_example :: "int list dl_ue" where
  "dl_planned_example = (dl_ue_example 7 [1] [0])\<lparr>d_sched_pdsch :=
     (sched_pdsch (harq_processes (dl_ctrl_example [1] [0]) 0))\<lparr>pd_pucch_allocation := 0\<rparr>\<rparr>"

theorem dl_grant_effect_witness:
  "\<exists>sl' ue' t. dl_ue_spec dl_env_example pdu_lib_example tb_env_example dl_cfg_example 5 3 0
       (dl_slot_example [dl_planned_example]) = Inr sl' \<and>
     dm_ues (sl_mac sl') = [ue'] \<and> sl_tx_req sl' = [t] \<and> tx_data t = [1, 2, 3, 4, 5] \<and> pd_rbSize (d_sched_pdsch ue') = 0"
proof -
  let ?sl = "dl_slot_example [dl_planned_example]" and ?ue = dl_planned_example
  have run: "\<exists>sl'. dl_ue_spec dl_env_example pdu_lib_example tb_env_example dl_cfg_example 5 3 0 ?sl = Inr sl'"
    by (simp add: dl_planned_example_def dl_example_defs dl_pass_defs dl_exec_defs)
  then obtain sl' where sl': "dl_ue_spec dl_env_example pdu_lib_example tb_env_example dl_cfg_example 5 3 0 ?sl = Inr sl'"
    by blast
  have ok: "pdcch_ok ?sl" "0 < length (dm_ues (sl_mac ?sl))" "?ue = dm_ues (sl_mac ?sl) ! 0"
    by (simp_all add: pdcch_ok_def dl_slot_example_def dl_mac_example_def)
  have ue: "d_ctrl ?ue = dl_ctrl_example [1] [0]" "d_sched_pdsch ?ue =
      (sched_pdsch (harq_processes (dl_ctrl_example [1] [0]) 0))\<lparr>pd_pucch_allocation := 0\<rparr>" "\<not> d_ul_failure ?ue"
    by (simp_all add: dl_planned_example_def dl_ue_example_def)
  have uok: "dl_ue_ok (\<lambda>q. q) 2 4 ?ue" using dl_ctrl_example_ok by (simp add: dl_ue_ok_def ue)
  have "dl_planned (\<lambda>q. q) ?ue" "0 < pd_rbSize (d_sched_pdsch ?ue)"
    by (simp_all add: ue dl_planned_def dl_plan_ok_def dl_ctrl_example_def no_pdsch_def NR_sched_pdsch_t.make_def)
  from dl_grant_effect [OF dl_example_laws(1,3) _ _ ok uok this, where Q = pdu_lib_example and frame = 5 and slot = 3] sl'
  obtain ue' where "grant_done (\<lambda>q. q) dl_cfg_example 5 3 0 ?ue ?sl ue' sl'" by auto
  then have "dm_ues (sl_mac sl') = [ue']" "pd_rbSize (d_sched_pdsch ue') = 0"
    "\<exists>t. sl_tx_req sl' = [t] \<and> tx_data t = [1, 2, 3, 4, 5]"
    using ue by (auto simp: grant_done_def Let_def dl_slot_example_def dl_mac_example_def dl_ctrl_example_def no_pdsch_def
        NR_sched_pdsch_t.make_def)
  then show ?thesis using sl' by blast
qed

section \<open>The transport block\<close>

text \<open>
  C37. A transport block with data fills exactly the granted size: the control elements of the UE, then
  non-empty SDUs of its logical channels with waiting data, each behind a long subheader with its
  channel and length, then padding; the statistics count just these SDUs.  It fails only for a timing
  advance that has no encoding and for a size that does not exceed the control elements.
\<close>

theorem dl_transport_block:
  assumes "dl_enc_laws (tb_enc T)" and "rlc_law (tb_rlc T)" and "0 < d_num_total_bytes ue"
  shows "case dl_build_tb T C ue TBS r of
      Inl e \<Rightarrow> e = TaCommandTooLarge \<and> d_ta_apply ue \<and> 64 \<le> d_ta_update ue \<or>
        e = TbsTooSmall \<and> (\<exists>ces. nr_write_ce_dlsch_pdu (tb_enc T) C ue 255 None = Inr ces \<and> TBS \<le> length ces)
    | Inr res \<Rightarrow> length (tb_bytes res) = TBS \<and>
        (\<exists>ces ss. nr_write_ce_dlsch_pdu (tb_enc T) C ue 255 None = Inr ces \<and>
           (let sdus = concat (map (\<lambda>(lcid, d). subheader_long (tb_enc T) lcid (low_bits 16 (int (length d))) @ d) ss) in
            tb_bytes res = ces @ sdus @ dl_padding (tb_enc T) (TBS - length ces - length sdus)) \<and>
           (\<forall>(lcid, d) \<in> set ss. d \<noteq> [] \<and> lcid \<in> lc_lcid ` set (d_lc_config ue) \<and>
              bytes_in_buffer (d_rlc_status ue lcid) \<noteq> 0) \<and>
           tb_sdus res = int (length ss) \<and> tb_sdu_bytes res = (\<Sum>(lcid, d) \<leftarrow> ss. int (length d)) \<and>
           (\<forall>l. tb_lc_bytes res l = d_lc_bytes ue l + (\<Sum>(lcid, d) \<leftarrow> filter (\<lambda>s. fst s = l) ss. int (length d))))"
proof (cases "dl_build_tb T C ue TBS r")
  case (Inl e)
  then show ?thesis
    by (cases "ce_ta (tb_enc T) C ue")
      (auto simp: dl_build_tb_def nr_write_ce_dlsch_pdu_def ce_ta_def Let_def split: if_splits prod.splits)
next
  case (Inr res)
  have f: "(\<lambda>(lcid, d). subheader_long (tb_enc T) lcid (low_bits 16 (int (length d))) @ d) = sdu_pdu (tb_enc T)"
    "(\<lambda>(lcid :: int, d :: u8 list). int (length d)) = (\<lambda>s. int (length (snd s)))"
    by (auto simp: sdu_pdu_def split_beta)
  show ?thesis using dl_build_tb_data [OF assms Inr] Inr
    unfolding f Let_def by (auto simp: lc_sum_def sdu_sum_def split_beta)
qed

theorem dl_transport_block_witness:
  "\<exists>res. dl_build_tb tb_env_example dl_cfg_example ((dl_ue_example 9 [0, 1] [])\<lparr>d_num_total_bytes := 3,
       d_rlc_status := (\<lambda>_. \<lparr>bytes_in_buffer = 3, pdus_in_buffer = 1\<rparr>)\<rparr>) 7 () = Inr res \<and>
     tb_bytes res = [68, 0, 3, 1, 2, 3, 63] \<and> length (tb_bytes res) = 7"
proof -
  let ?ue = "(dl_ue_example 9 [0, 1] [])\<lparr>d_num_total_bytes := 3,
       d_rlc_status := (\<lambda>_. \<lparr>bytes_in_buffer = 3, pdus_in_buffer = 1\<rparr>)\<rparr>"
  have "\<exists>res. dl_build_tb tb_env_example dl_cfg_example ?ue 7 () = Inr res \<and> tb_bytes res = [68, 0, 3, 1, 2, 3, 63]"
    by (simp add: dl_exec_defs dl_example_defs Let_def)
  then obtain res where run: "dl_build_tb tb_env_example dl_cfg_example ?ue 7 () = Inr res"
    "tb_bytes res = [68, 0, 3, 1, 2, 3, 63]" by blast
  have "dl_enc_laws (tb_enc tb_env_example)" "rlc_law (tb_rlc tb_env_example)" "0 < d_num_total_bytes ?ue"
    using dl_example_laws(3) by (simp_all add: tb_laws_def)
  from dl_transport_block [OF this, of dl_cfg_example 7 "()"] run show ?thesis by auto
qed

section \<open>Where a retransmission goes\<close>

text \<open>The reference: try every start in turn.\<close>

definition first_free_run :: "(int \<Rightarrow> bool) \<Rightarrow> int \<Rightarrow> int \<Rightarrow> int \<Rightarrow> int option" where
  "first_free_run used lo hi need =
     find (\<lambda>s. s + need \<le> hi \<and> list_all (\<lambda>j. \<not> used j) [s..s + need - 1]) [lo..hi - 2]"

lemma find_upto_Some:
  assumes "find P [lo..h] = Some s"
  shows "lo \<le> s \<and> s \<le> h \<and> P s \<and> (\<forall>a. lo \<le> a \<and> a < s \<longrightarrow> \<not> P a)"
proof -
  obtain i where i: "i < length [lo..h]" "P ([lo..h] ! i)" "s = [lo..h] ! i" "\<forall>j < i. \<not> P ([lo..h] ! j)"
    using assms by (auto simp: find_Some_iff)
  then have s: "s = lo + int i" by (simp add: nth_upto)
  have "\<not> P a" if "lo \<le> a" "a < s" for a
    using i(4) [rule_format, of "nat (a - lo)"] that i(1) s by (simp add: nth_upto)
  then show ?thesis using i s by auto
qed

lemma find_run_reference:
  assumes "0 < need"
  shows "find_run used (hi - 1) need lo = first_free_run used lo hi need"
proof -
  have free: "list_all (\<lambda>j. \<not> used j) [s..s + need - 1] = all_free used s need" for s
    by (auto simp: list_all_iff all_free_def)
  let ?P = "\<lambda>s. s + need \<le> hi \<and> all_free used s need"
  have ref: "first_free_run used lo hi need = find ?P [lo..hi - 2]" by (simp add: first_free_run_def free)
  show ?thesis
  proof (cases "find_run used (hi - 1) need lo")
    case None
    have "find ?P [lo..hi - 2] = None"
      using find_run_None [OF None] by (auto simp: find_None_iff)
    then show ?thesis using None ref by simp
  next
    case (Some s)
    note f = find_run_Some [OF Some assms]
    have "find ?P [lo..hi - 2] \<noteq> None" using f by (auto simp: find_None_iff intro!: bexI [of _ s])
    then obtain t where t: "find ?P [lo..hi - 2] = Some t" by blast
    note g = find_upto_Some [OF t]
    have "\<not> t < s" using find_run_first [OF Some assms, of t] g by auto
    moreover have "\<not> s < t" using g f by auto
    ultimately show ?thesis using Some t ref by simp
  qed
qed

text \<open>
  C39. A retransmission with its old time-domain allocation goes to the first place a search over all
  starts finds, where as many blocks in a row are free as it needs, except that the last block of the
  part is never tried as a start.  What the code marks then is the blocks below the number of blocks it
  needs, from that start on: all of them only when it starts at block 0.
\<close>

theorem dl_retx_first_fit:
  assumes "0 < pd_rbSize retInfo" and "bits = SL_to_bitmap L (startSymbolIndex (pd_tda_info retInfo)) (nrOfSymbols (pd_tda_info retInfo))"
    and "bits \<noteq> 0"
  shows "dl_retx_reuse L msk bi retInfo =
      first_free_run (rb_used msk bits) (bwpStart bi) (bwpStart bi + bwpSize bi) (pd_rbSize retInfo) \<and>
    (\<forall>i. rb_used (dl_retx_mark L retInfo rbStart msk) bits i \<longleftrightarrow>
       rbStart \<le> i \<and> i < pd_rbSize retInfo \<or> rb_used msk bits i)"
  using find_run_reference [OF assms(1), of "rb_used msk bits" "bwpStart bi + bwpSize bi" "bwpStart bi"] assms(2,3)
  by (simp add: dl_retx_reuse_def dl_retx_mark_def rb_used_mark Let_def)

theorem dl_retx_first_fit_witness:
  "dl_retx_reuse dl_lib_example (\<lambda>i. if i < 10 then 1 else 0) \<lparr>bwpStart = 0, bwpSize = 48\<rparr>
     (no_pdsch\<lparr>pd_rbSize := 5\<rparr>) = Some 10 \<and>
   \<not> rb_used (dl_retx_mark dl_lib_example (no_pdsch\<lparr>pd_rbSize := 5\<rparr>) 10 (\<lambda>i. if i < 10 then 1 else 0)) (sl_example 0 14) 10"
proof -
  let ?m = "\<lambda>i :: int. if i < 10 then 1 else 0 :: u16" and ?bi = "\<lparr>bwpStart = 0, bwpSize = 48\<rparr> :: bwp_info_t"
  let ?s = "no_pdsch\<lparr>pd_rbSize := 5\<rparr>"
  have ti: "pd_tda_info ?s = \<lparr>valid_tda = True, k2 = 0, startSymbolIndex = 0, nrOfSymbols = 14\<rparr>" "0 < pd_rbSize ?s"
    by (simp_all add: no_pdsch_def NR_sched_pdsch_t.make_def)
  have bits: "sl_example 0 14 = SL_to_bitmap dl_lib_example (startSymbolIndex (pd_tda_info ?s)) (nrOfSymbols (pd_tda_info ?s))"
    by (simp add: dl_lib_example_def ti)
  have nz: "sl_example 0 14 \<noteq> 0" by code_simp
  have ref: "first_free_run (rb_used ?m (sl_example 0 14)) 0 48 5 = Some 10" by code_simp
  have "\<not> rb_used ?m (sl_example 0 14) 10" by code_simp
  then show ?thesis
    using dl_retx_first_fit [OF ti(2) bits nz, of ?m ?bi 10] ref by (simp add: no_pdsch_def NR_sched_pdsch_t.make_def)
qed

section \<open>Exclusive resource blocks\<close>

lemma dl_store_lc_same: "dl_same u (dl_store_lc E x f c v) = dl_same u v"
  by (simp add: dl_store_lc_def dl_same_def Let_def)

lemma dl_store_same: "dl_same ue (dl_store_ue E x f ue)"
proof -
  have "dl_same u v \<Longrightarrow> dl_same u (fold (dl_store_lc E x f) cs v)" for u v cs
    by (induction cs arbitrary: v) (simp_all add: dl_store_lc_same)
  then show ?thesis by (simp add: dl_store_ue_def dl_same_def)
qed

text \<open>
  C38. In a cell with one beam, bandwidth parts that start at 0 and minimum grants of at least two
  resource blocks, a slot in which no process waits for its retransmission grants them exclusively: every grant lies inside its bandwidth part,
  respects the cap of its slice, uses only blocks and symbols that were free before and marks them, and
  no two grants share a block and a symbol.
\<close>

theorem dl_grants_exclusive:
  assumes "find_nb_rb_law (de_lib E)" and "dl_qsort_perm E" and "dl_one_beam E"
    and "excl_cell C (mac\<lparr>dm_dl := rk_ue_dl_reload_if_needed False stat cfg_file (dm_dl mac)\<rparr>)"
    and "\<forall>ue \<in> set (dm_ues mac). dl_idle E ue"
    and "nr_dlsch_preprocessor E C stat cfg_file frame slot mac = Inr mac'"
  shows "length (dm_ues mac') = length (dm_ues mac) \<and>
    (\<forall>k < length (dm_ues mac'). 0 < pd_rbSize (d_sched_pdsch (dm_ues mac' ! k)) \<longrightarrow>
       grant_placed E C (dm_assoc mac) (dm_vrb_map mac 0) (dm_vrb_map mac' 0) (dm_ues mac' ! k)) \<and>
    (\<forall>j < length (dm_ues mac'). \<forall>k < length (dm_ues mac'). j \<noteq> k \<longrightarrow>
       disjoint_grants E (dm_ues mac' ! j) (dm_ues mac' ! k))"
proof (cases "dm_ues mac = []")
  case True
  then show ?thesis using assms(6) by (simp add: nr_dlsch_preprocessor_def)
next
  case False
  let ?m = "nr_store_dlsch_buffer E frame mac"
  have m: "dm_dl ?m = dm_dl mac" "dm_assoc ?m = dm_assoc mac" "dm_vrb_map ?m = dm_vrb_map mac"
    "dm_ues ?m = map (dl_store_ue E (dm_rest mac) frame) (dm_ues mac)"
    by (simp_all add: nr_store_dlsch_buffer_def)
  have "excl_cell C (?m\<lparr>dm_dl := rk_ue_dl_reload_if_needed False stat cfg_file (dm_dl ?m)\<rparr>)"
    using assms(4) by (simp add: excl_cell_def dl_min_rb_def m dl_store_keeps dl_same_bwp [OF dl_store_same])
  moreover have "\<forall>ue \<in> set (dm_ues ?m). dl_idle E ue" using assms(5) by (simp add: m dl_idle_def dl_store_keeps)
  moreover obtain d where "pf_dl E C stat cfg_file frame slot d (\<lambda>_. dcfg_bw C) ?m = Inr mac'"
    using assms(6) False by (auto simp: nr_dlsch_preprocessor_def Let_def)
  ultimately show ?thesis using pf_dl_excl [OF assms(1-3)] by (fastforce simp: excl_inv_def m)
qed

theorem dl_grants_exclusive_witness:
  "\<exists>a b. nr_dlsch_preprocessor dl_env_example dl_cfg_example None None 5 3
       (dl_mac_example [dl_ue_example 7 [0, 1] [], dl_ue_example 9 [0, 1] []]) = Inr a \<and> b = dm_ues a \<and>
     pd_rbSize (d_sched_pdsch (b ! 0)) = 5 \<and> pd_rbSize (d_sched_pdsch (b ! 1)) = 5 \<and> length b = 2 \<and>
     disjoint_grants dl_env_example (b ! 0) (b ! 1)"
proof -
  let ?ues = "[dl_ue_example 7 [0, 1] [], dl_ue_example 9 [0, 1] []]"
  obtain mac' where run: "nr_dlsch_preprocessor dl_env_example dl_cfg_example None None 5 3 (dl_mac_example ?ues) = Inr mac'"
    and sz: "map (\<lambda>ue. (pd_rbStart (d_sched_pdsch ue), pd_rbSize (d_sched_pdsch ue))) (dm_ues mac') = [(0, 5), (5, 5)]"
    using dl_example_pass by (elim exE conjE)
  have dl: "rk_ue_dl_reload_if_needed False None None s = s" for s by (simp add: rk_ue_dl_reload_if_needed_def)
  have "excl_cell dl_cfg_example ((dl_mac_example ?ues)\<lparr>dm_dl :=
      rk_ue_dl_reload_if_needed False None None (dm_dl (dl_mac_example ?ues))\<rparr>)"
    by (simp add: excl_cell_def dl dl_mac_example_def dl_min_rb_def dl_ue_example_def dl_example_pol get_pdsch_bwp_start_size_def)
  moreover have "\<forall>ue \<in> set (dm_ues (dl_mac_example ?ues)). dl_idle dl_env_example ue"
    by (simp add: dl_mac_example_def dl_idle_def dl_ue_example_def dl_ctrl_example_def dl_env_example_def list_ops_def
        no_pdsch_def NR_sched_pdsch_t.make_def)
  ultimately have e: "length (dm_ues mac') = 2"
    "\<forall>j < length (dm_ues mac'). \<forall>k < length (dm_ues mac'). j \<noteq> k \<longrightarrow>
       disjoint_grants dl_env_example (dm_ues mac' ! j) (dm_ues mac' ! k)"
    using dl_grants_exclusive [OF dl_example_laws(4,2,5) _ _ run] by (simp_all add: dl_mac_example_def)
  obtain u v where uv: "dm_ues mac' = [u, v]" using e(1) by (auto simp: numeral_2_eq_2 length_Suc_conv)
  have "disjoint_grants dl_env_example u v" using e(2) [rule_format, of 0 1] e(1) by (simp add: uv)
  then show ?thesis using run sz by (intro exI [of _ mac'] exI [of _ "[u, v]"] conjI) (simp_all add: uv)
qed

end
