(* ===== verification/Spec2Isabelle.thy ===== *)
theory Spec2Isabelle imports EndToEnd StateWriter SrsReport MacPdu UlSlot UlDci RaProps DlProps begin

text \<open>
  The program.

  User-RIC lets an agent steer single users of an OpenAirInterface gNB.  A controller
  (\<^verbatim>\<open>spark_ran_side/control_xapp.py\<close>) writes the wanted posture of every user to a state file and binds
  users to slices through E2 messages.  The patched gNB (\<^verbatim>\<open>gnb_patch/\<close>) reads the file in the MAC
  scheduler, keeps slice policies, and lets both decide about resource blocks, MCS, order and power.
  The C files of the patch replace whole files of the MAC scheduler, so most of their code is the
  scheduler itself; it is modelled together with the hooks of the patch.

  How the parts interact.

  (1) \<^verbatim>\<open>control_xapp.py\<close> serves requests of one JSON object per line.  It keeps a table of the users it
      has heard of, from which it picks the user a command is for, and a registry of postures.  A posture
      command updates the registry and replaces the state file, one line for each user; the uplink and the
      downlink loader of the gNB each read the same file into their own table when its stamp changes.
  (2) A slice command of the controller becomes an E2 slice control message to every connected node.
      It binds RNTIs to slices in the association table of \<^verbatim>\<open>rk_slice_policy.c\<close>;
      the policy of a slice gives weight, floor, cap and the limit of consecutive grants.
  (3) In every slot the preprocessors walk over the users in proportional fair order, weighted by slice and
      user policy, first for retransmissions and then for new data, and give each a transport block, limited
      by floor, cap, power headroom and free resource blocks.  Every grant takes a HARQ process and is noted
      in the runtime counters of the slice, which throttle the user later.
  (4) A received uplink PDU goes through power control and the MAC PDU decoder to RLC, updates the buffer
      estimate that the next pass sees, and returns its HARQ process or sends it to retransmission.
  (5) Sounding signals update the precoder and the blacklist of resource blocks.

  Conventions.

  A definition has the name of the C function, type or variable it models (a loop body or branch of a long
  function has a name of its own).  A \<^verbatim>\<open>struct\<close> is a record with the fields the code reads or writes, an
  array that is indexed in range is a function or a list, a pointer into a table is an index, \<^verbatim>\<open>NULL\<close> is
  \<^term>\<open>None\<close>.  \<^verbatim>\<open>uint8_t\<close>, \<^verbatim>\<open>uint16_t\<close> and \<^verbatim>\<open>uint32_t\<close> values are words where they can wrap; \<^verbatim>\<open>int\<close> is
  \<^typ>\<open>int\<close> with the conversions of Prelude where the code narrows a value; \<^verbatim>\<open>float\<close> and \<^verbatim>\<open>double\<close> are the
  binary formats of BinaryFloat with rounding.  A failed assertion or an access outside a table is the left
  side of a sum.  A loop whose end is not evident from its shape is a partial function, so that \<^term>\<open>None\<close>
  means it never ends, and a theorem shows when it ends.  Log output, measurements and locks are left out.
  Python values of the controller are the datatype \<open>json\<close>, dictionaries are association lists, \<^verbatim>\<open>int\<close> is
  \<^typ>\<open>int\<close>, \<^verbatim>\<open>float\<close> is the binary64 format, and an exception is the left side of a sum.
  What belongs to OpenAirInterface, FlexRIC, the C library's \<^verbatim>\<open>qsort\<close> or libm is a field of a record
  (\<open>phy_lib\<close>, \<open>nr_list_ops\<close>, \<open>ul_lib\<close>, \<open>ul_env\<close>, \<open>dl_lib\<close>, \<open>dl_env\<close>, \<open>dl_enc\<close>, \<open>mac_env\<close>, \<open>srs_lib\<close>,
  \<open>rx_env\<close>, \<open>ctl_env\<close>); the documented behaviour that a theorem needs is a named predicate (\<open>nr_list_laws\<close>,
  \<open>qsort_law\<close>, \<open>cell_law\<close>, \<open>dl_enc_laws\<close>, \<open>failure_law\<close> and others), and each of them is shown to hold of an example.

  The theories.

  Foundation.  Prelude: integer conversions, search and index loops.  SlotTable: find and find-or-allocate
  over an array of slots, and the locale \<open>rnti_store\<close> with the laws of a bounded store, interpreted for
  the association table and both override tables; the batch loops of the E2 handler and of both loaders are
  verified once in it.  BinaryFloat: floating point.  CString: \<^verbatim>\<open>fgets\<close>, \<^verbatim>\<open>strtok_r\<close>, \<^verbatim>\<open>atoi\<close> and relatives, with
  their round trips.

  Policies.  SlicePolicy (\<^verbatim>\<open>rk_slice_policy.c\<close>, \<^verbatim>\<open>rk_slice_policy.h\<close>): associations, policy table, runtime counters; the locale
  \<open>grant_counter\<close> counts the run of consecutive grants, interpreted for both directions.  UeLaPolicy
  (\<^verbatim>\<open>rk_ue_la_policy.c\<close>) and UeDlPolicy (\<^verbatim>\<open>rk_ue_dl_policy.c\<close>): the override tables, the line parser, the reload with
  clock and file stamp, the getters.  StateFile (\<^verbatim>\<open>control_xapp.py\<close>, \<^verbatim>\<open>_write_ue_la_state_atomic\<close>): the writer and its
  round trip through both loaders.  SliceAgent (\<^verbatim>\<open>ran_func_slice.c\<close>): the E2 callbacks.

  Controller (\<^verbatim>\<open>control_xapp.py\<close>).  PyValue: values, conversions.  Controller: the state, \<^verbatim>\<open>touch_ue\<close>,
  \<^verbatim>\<open>list_ues\<close>, \<^verbatim>\<open>resolve_control_rnti\<close>.  CtlPosture: \<^verbatim>\<open>_build_ue_posture_entry\<close>, the posture commands; the
  update of a posture is that of Python dictionaries.  CtlBinding: \<^verbatim>\<open>SLICE_RUNTIME_TABLE\<close>, profiles,
  \<^verbatim>\<open>control_slice_sm_safe\<close>, the commands that bind users and add slices.  CtlRequests: \<^verbatim>\<open>handle\<close> and the loop
  over the lines of a connection.  CtlTyped: the types of what the controller stores; the locale
  \<open>ctl_invariant\<close> carries an invariant through every handler, interpreted for the types, the state file and what
  a binding leaves alone.
  PostureText: bounds of the printed lines, so that a posture of C integers fits the line buffers of the loaders.
  CtlProps: a posture or a binding from the request to the getters that the schedulers call.  StateWriter: the
  writers of the state file as interleaved threads; atomic when commands do not overlap, and what goes wrong
  when they do.

  Shared by both schedulers.  FrameTime: frame and slot arithmetic and when a user is due.  PfOrder: throughput,
  coefficient, comparators, what \<^verbatim>\<open>qsort\<close> yields.  Harq: processes of both directions and the invariant that
  every process is in exactly one list.  RbSearch: scanning and marking of resource blocks.

  Uplink (\<^verbatim>\<open>gNB_scheduler_ulsch.c\<close>).  UlTda: \<^verbatim>\<open>get_num_ul_tda\<close>, \<^verbatim>\<open>get_max_rb_range\<close>, \<^verbatim>\<open>get_best_ul_tda\<close>.  PowerLimit:
  \<^verbatim>\<open>compute_ph_factor\<close>, \<^verbatim>\<open>nr_ue_max_mcs_min_rb\<close>.  UlGrant: place and size of a grant or a retransmission.  UlSched:
  \<^verbatim>\<open>allocate_ul_retransmission\<close>, \<^verbatim>\<open>post_process_ulsch\<close>, \<^verbatim>\<open>pf_ul\<close>.  UlRun, UlPass, UlGuarantees: a pass as a sequence of
  legal steps (an inductive relation), that every pass of the code is one, and what follows for HARQ, caps,
  requests and the resource map.  UlPreprocessor, UlSlot: \<^verbatim>\<open>nr_ulsch_preprocessor\<close>, \<^verbatim>\<open>nr_schedule_ulsch\<close>, their
  termination and assertions.  UlDci: \<^verbatim>\<open>prepare_pusch_pdu\<close>, the PDCCH PDUs and DCIs of a pass.
  MacPdu: subheaders, C-RNTI look-ahead, buffer status, \<^verbatim>\<open>nr_process_mac_pdu\<close> over a byte memory.
  RxSdu, RxProps, RaProps: \<^verbatim>\<open>_nr_rx_sdu\<close> and \<^verbatim>\<open>nr_rx_ra_sdu\<close> over a store of UEs; loss detection over
  sequences of receptions, power control, the rounds of Msg3.  SrsPrecoder, SrsReport: \<^verbatim>\<open>nr_srs_tpmi_estimation\<close>,
  \<^verbatim>\<open>handle_nr_srs_measurements\<close>.

  Downlink (\<^verbatim>\<open>gNB_scheduler_dlsch.c\<close>).  DlGrant: TDA, bandwidth part, the search for resource blocks, the size of a
  grant.  DlSched: \<^verbatim>\<open>allocate_dl_retransmission\<close>, \<^verbatim>\<open>pf_dl\<close>, the preprocessor.  DlPdu: control elements and transport
  block.  DlUeSpec: \<^verbatim>\<open>prepare_pdsch_pdu\<close>, \<^verbatim>\<open>nr_schedule_ue_spec\<close>.  DlPass, DlGuarantees, DlSlot: the plan of a pass is
  executable, and its execution keeps the HARQ invariant and the requests consistent.  DlAsserts: the assertion
  a slot fails with, read off its plan.  DlExclusive: no
  resource block is granted twice.  DlObeys: a new grant respects the policies of its UE.  DlExample, DlProps: an example cell and the properties.

  From command to grant.  EndToEnd: after any requests, a confirmed binding and a stored posture of a user limit the
  size and the MCS of its new grants in both directions, in every pass that reloads the state file.

  Bounds.

  Frames are counted modulo 1024; the circle of \<open>1024 * n\<close> slots is what UlSlot measures distances on, with the
  reach of the TDAs below half of it (\<open>cell_law\<close>).  HARQ identifiers are below 128 so that the conversion to
  \<^verbatim>\<open>int8_t\<close> keeps them (the code has 16 of them).  There is no fuel: loops are structural, have a measure, or
  are partial functions with a termination theorem (\<open>ul_harq_skip\<close>, \<open>skip_to_ul\<close>, \<open>ul_pp_loop\<close>).

  Not modelled.

  The RNTI watcher and the user-side server: log scraping, measurements and network I/O in Python, which reach the
  rest only through requests to the controller.  Of the controller: sockets, \<^verbatim>\<open>json.loads\<close>, log output, the
  xApp SDK (nodes, timeouts and the effect of a message on a node are parameters) and \<^verbatim>\<open>policy_to_capacity_slices\<close> and
  \<^verbatim>\<open>policy_to_rate_slices\<close>, which nothing calls.  The building of a DCI (\<^verbatim>\<open>config_uldci\<close>, \<^verbatim>\<open>fill_dci_pdu_rel15\<close>), CCE and beam
  allocation, PUCCH allocation, the transport block size and the DMRS and PTRS parameters: code of OpenAirInterface that is
  not in this repository.  The bit layout of MAC subheaders and control elements and of FAPI messages: structs of headers that are
  not in this repository.  Concurrency in the gNB: the code runs under the scheduler's lock, so each entry point is one
  step.  In the controller a request is one step, except for the writers of the state file in StateWriter.
\<close>

end
